(* ===== verification/Prelude.thy ===== *)
theory Prelude
  imports Main "HOL-Library.AList" "HOL-Library.Char_ord" "HOL-Library.List_Lexorder"
    "HOL-Library.Multiset" "HOL-Library.Product_Lexorder" "HOL-Library.Sublist" "HOL-Library.Word"
begin

text \<open>
  The parts of Go and of its standard library that the lockman sources use, and the lemmas the
  component theories share.

  \<^item> Strings are byte lists (\<^typ>\<open>string\<close>), compared byte-wise by the order of
    \<^verbatim>\<open>HOL-Library.List_Lexorder\<close>; \<open>trim_space\<close> is \<^verbatim>\<open>strings.TrimSpace\<close>, with the Unicode
    white space written as its UTF-8 byte sequences.
  \<^item> \<^verbatim>\<open>map[K]V\<close> is an association list with \<open>mget\<close>, \<open>mput\<close> and \<open>mdel\<close>; a \<^verbatim>\<open>range\<close> loop over a
    map is a fold over the list, which fixes one of the orders Go may choose.
  \<^item> Error values are trees: a package-level \<^verbatim>\<open>errors.New\<close> value is a \<open>Sentinel\<close>, an
    \<^verbatim>\<open>fmt.Errorf\<close> keeps its format, its arguments and the errors it wraps, and
    \<^verbatim>\<open>errors.Join\<close> its parts; \<open>errors_is\<close> is \<^verbatim>\<open>errors.Is\<close>.
  \<^item> \<^verbatim>\<open>time.Time\<close> and \<^verbatim>\<open>time.Duration\<close> are integers counting nanoseconds; the products of
    durations that can leave the signed 64-bit range go through \<open>wrap64\<close>.
\<close>

section \<open>Collections of rewrite rules\<close>

named_theorems map_rules \<open>lookups in association lists after updates\<close>

section \<open>Go maps\<close>

type_synonym ('k, 'v) gomap = "('k \<times> 'v) list"

abbreviation mget :: "('k, 'v) gomap \<Rightarrow> 'k \<Rightarrow> 'v option" where
  "mget \<equiv> map_of"

abbreviation mput :: "'k \<Rightarrow> 'v \<Rightarrow> ('k, 'v) gomap \<Rightarrow> ('k, 'v) gomap" where
  "mput \<equiv> AList.update"

abbreviation mdel :: "'k \<Rightarrow> ('k, 'v) gomap \<Rightarrow> ('k, 'v) gomap" where
  "mdel \<equiv> AList.delete"

text \<open>A Go map has one entry per key.\<close>

abbreviation map_ok :: "('k, 'v) gomap \<Rightarrow> bool" where
  "map_ok m \<equiv> distinct (map fst m)"

declare map_of_eq_Some_iff [simp del] Some_eq_map_of_iff [simp del]

lemma mget_mput [simp, map_rules]: "mget (mput k v m) = (mget m)(k \<mapsto> v)"
  by (rule update_conv')

lemma mget_mdel [simp, map_rules]: "mget (mdel k m) = (mget m)(k := None)"
  by (rule delete_conv')

lemma map_ok_mput [simp]: "map_ok m \<Longrightarrow> map_ok (mput k v m)"
  by (rule distinct_update)

lemma map_ok_mdel [simp]: "map_ok m \<Longrightarrow> map_ok (mdel k m)"
  by (rule distinct_delete)

lemma mdel_eq_Nil_iff: "mdel k m = [] \<longleftrightarrow> (\<forall>k'. mget (mdel k m) k' = None)"
  by (cases "mdel k m") (auto simp del: mget_mdel split: if_splits)

text \<open>A fold over the entries of a map that removes the entries satisfying a test.\<close>

lemma fold_mdel_other:
  "k \<notin> fst ` set xs \<Longrightarrow>
   mget (fold (\<lambda>(k, v) m. if p v then mdel k m else m) xs acc) k = mget acc k"
  by (induction xs arbitrary: acc) auto

lemma fold_mdel_filter:
  assumes "map_ok xs"
  shows "mget (fold (\<lambda>(k, v) m. if p v then mdel k m else m) xs acc) k =
    (case mget xs k of Some v \<Rightarrow> if p v then None else mget acc k | None \<Rightarrow> mget acc k)"
  using assms
proof (induction xs arbitrary: acc)
  case Nil
  then show ?case by simp
next
  case (Cons x xs)
  obtain k0 v0 where x: "x = (k0, v0)" by (cases x)
  from Cons.prems x have k0: "k0 \<notin> fst ` set xs" and d: "map_ok xs" by auto
  show ?case
  proof (cases "k = k0")
    case True
    with k0 show ?thesis by (auto simp: x fold_mdel_other)
  next
    case False
    with Cons.IH[OF d] show ?thesis by (auto simp: x split: option.splits)
  qed
qed

section \<open>Strings\<close>

definition bytes :: "nat list \<Rightarrow> string" where
  "bytes ns = map char_of ns"

text \<open>The UTF-8 sequences of the code points that \<^verbatim>\<open>unicode.IsSpace\<close> accepts.\<close>

definition space_seqs :: "string list" where
  "space_seqs =
     map (\<lambda>n. bytes [n]) [9, 10, 11, 12, 13, 32] @
     [bytes [194, 133], bytes [194, 160], bytes [225, 154, 128]] @
     map (\<lambda>n. bytes [226, 128, n]) ([128..<139] @ [168, 169, 175]) @
     [bytes [226, 129, 159], bytes [227, 128, 128]]"

function trim_prefixes :: "string list \<Rightarrow> string \<Rightarrow> string" where
  "trim_prefixes ps s =
     (case find (\<lambda>p. p \<noteq> [] \<and> prefix p s) ps of
        Some p \<Rightarrow> trim_prefixes ps (drop (length p) s)
      | None \<Rightarrow> s)"
  by pat_completeness auto
termination
proof (relation "measure (\<lambda>(ps, s). length s)", goal_cases)
  case 1
  show ?case by simp
next
  case (2 ps s p)
  then have "p \<noteq> []" and "prefix p s" by (auto simp: find_Some_iff)
  then have "0 < length p" and "length p \<le> length s" by (auto dest: prefix_length_le)
  then have "length s - length p < length s" by linarith
  then show ?case by simp
qed

declare trim_prefixes.simps [simp del]

definition trim_left :: "string \<Rightarrow> string" where
  "trim_left s = trim_prefixes space_seqs s"

definition trim_right :: "string \<Rightarrow> string" where
  "trim_right s = rev (trim_prefixes (map rev space_seqs) (rev s))"

definition trim_space :: "string \<Rightarrow> string" where
  "trim_space s = trim_right (trim_left s)"

lemma trim_prefixes_suffix: "suffix (trim_prefixes ps s) s"
proof (induction ps s rule: trim_prefixes.induct)
  case (1 ps s)
  show ?case
  proof (cases "find (\<lambda>p. p \<noteq> [] \<and> prefix p s) ps")
    case None
    then show ?thesis by (simp add: trim_prefixes.simps[of ps s])
  next
    case (Some p)
    with 1 have "suffix (trim_prefixes ps (drop (length p) s)) (drop (length p) s)" by blast
    also have "suffix \<dots> s" by (rule suffix_drop)
    finally show ?thesis using Some by (simp add: trim_prefixes.simps[of ps s])
  qed
qed

lemma trim_prefixes_Nil [simp]: "trim_prefixes ps [] = []"
  using trim_prefixes_suffix[of ps "[]"] by simp

lemma trim_space_Nil [simp]: "trim_space [] = []"
  by (simp add: trim_space_def trim_left_def trim_right_def)

text \<open>A string that starts and ends with a visible ASCII character is not trimmed.\<close>

definition visible :: "char \<Rightarrow> bool" where
  "visible c \<longleftrightarrow> 32 < (of_char c :: nat) \<and> (of_char c :: nat) < 127"

lemma trim_prefixes_id: "s \<noteq> [] \<Longrightarrow> \<forall>p\<in>set ps. hd p \<noteq> hd s \<Longrightarrow> trim_prefixes ps s = s"
  by (subst trim_prefixes.simps) (auto simp: prefix_def find_None_iff split: option.split dest!: find_Some_iff[THEN iffD1])

lemma space_seqs_invisible: "\<forall>p\<in>set space_seqs. \<not> visible (hd p) \<and> \<not> visible (last p)"
  by (auto simp: space_seqs_def bytes_def visible_def)

lemma trim_space_visible:
  assumes "s \<noteq> []" and "visible (hd s)" and "visible (last s)"
  shows "trim_space s = s"
proof -
  have "trim_left s = s"
    using assms space_seqs_invisible unfolding trim_left_def by (intro trim_prefixes_id) auto
  moreover have "trim_prefixes (map rev space_seqs) (rev s) = rev s"
    using assms space_seqs_invisible by (intro trim_prefixes_id) (auto simp: hd_rev)
  ultimately show ?thesis by (simp add: trim_space_def trim_right_def)
qed

text \<open>The common case first, for evaluation.\<close>

lemma trim_space_code [code]:
  "trim_space s = (if s \<noteq> [] \<and> visible (hd s) \<and> visible (last s) then s else trim_right (trim_left s))"
  using trim_space_visible[of s] by (auto simp: trim_space_def)

lemma trim_space_nonempty: "trim_space s \<noteq> [] \<Longrightarrow> s \<noteq> []"
  by auto

section \<open>Errors\<close>

datatype sentinel =
    \<comment> \<open>backend/contracts.go\<close>
    ErrInvalidRequest | ErrLeaseAlreadyHeld | ErrOverlapRejected | ErrLeaseNotFound
  | ErrLeaseExpired | ErrLeaseOwnerMismatch
    \<comment> \<open>lockkit/errors/errors.go and guard/context.go\<close>
  | ErrLockBusy | ErrLockAcquireTimeout | ErrLeaseLost | ErrRegistryViolation
  | ErrPolicyViolation | ErrReentrantAcquire | ErrDuplicateIgnored | ErrInvariantRejected
  | ErrWorkerShuttingDown | ErrPreconditionFailed
    \<comment> \<open>package context\<close>
  | ContextCanceled | ContextDeadlineExceeded
    \<comment> \<open>unexported package-level errors\<close>
  | ErrDLQ | ErrInvalidTTL | ErrLeaseIDGenerationFailed | ErrInvalidScriptResponse
  | ErrInvalidHoldToken
    \<comment> \<open>errors.go of the root package\<close>
  | ErrBusy | ErrTimeout | ErrDuplicate | ErrShuttingDown | ErrPublicLeaseLost
  | ErrPublicInvariantRejected | ErrUseCaseNotFound | ErrRegistryMismatch | ErrRegistryRequired
  | ErrIdentityRequired | ErrBackendRequired | ErrHoldTokenInvalid | ErrHoldExpired
  | ErrBackendCapabilityRequired | ErrIdempotencyRequired
    \<comment> \<open>internal/sdk/capabilities.go and binding.go\<close>
  | ErrIdempotencyCapabilityRequired | ErrStrictCapabilityRequired | ErrLineageCapabilityRequired
  | ErrEmptyBindingValue | ErrBindingFunctionRequired | ErrResourcePrefixInvalid

datatype go_error =
    Sentinel sentinel
  | Errorf string "string list" "go_error list"
  | Joined "go_error list"

type_synonym go_err = "go_error option"
type_synonym 'a result = "go_error + 'a"

fun errors_is :: "go_error \<Rightarrow> sentinel \<Rightarrow> bool" where
  "errors_is (Sentinel s) t = (s = t)"
| "errors_is (Errorf f as es) t = (\<exists>e\<in>set es. errors_is e t)"
| "errors_is (Joined es) t = (\<exists>e\<in>set es. errors_is e t)"

text \<open>\<^verbatim>\<open>errors.Join\<close> of two non-nil errors, as the deferred release code uses it.\<close>

definition join_errs :: "go_err \<Rightarrow> go_error \<Rightarrow> go_err" where
  "join_errs ret e = (case ret of None \<Rightarrow> Some e | Some r \<Rightarrow> Some (Joined [r, e]))"

section \<open>Time\<close>

type_synonym time = int
type_synonym duration = int

definition millisecond :: duration where "millisecond = 1000000"
definition second :: duration where "second = 1000 * millisecond"
definition minute :: duration where "minute = 60 * second"
definition hour :: duration where "hour = 60 * minute"

lemmas duration_units = millisecond_def second_def minute_def hour_def

text \<open>The zero \<^verbatim>\<open>time.Time\<close>, 1 January of year 1.\<close>

definition zero_time :: time where
  "zero_time = - 62135596800 * second"

text \<open>Two's complement wrap-around of an int64 result.\<close>

definition wrap64 :: "int \<Rightarrow> int" where
  "wrap64 x = (x + 2 ^ 63) mod 2 ^ 64 - 2 ^ 63"

lemma wrap64_id: "- (2 ^ 63) \<le> x \<Longrightarrow> x < 2 ^ 63 \<Longrightarrow> wrap64 x = x"
  by (simp add: wrap64_def)

lemma wrap64_range: "- (2 ^ 63) \<le> wrap64 x \<and> wrap64 x < 2 ^ 63"
  by (simp add: wrap64_def)

text \<open>
  Go's integer division truncates towards zero.
\<close>

definition quot :: "int \<Rightarrow> int \<Rightarrow> int" where
  "quot a b = sgn a * sgn b * (\<bar>a\<bar> div \<bar>b\<bar>)"

lemma quot_nonneg: "0 \<le> a \<Longrightarrow> 0 < b \<Longrightarrow> quot a b = a div b"
  by (cases "a = 0") (simp_all add: quot_def)

section \<open>Contexts\<close>

text \<open>
  A \<^verbatim>\<open>context.Context\<close>: whether it was cancelled, and its deadline. \<open>ctx_err\<close> is
  \<^verbatim>\<open>ctx.Err()\<close> read at a given time.
\<close>

record go_ctx =
  ctx_canceled :: bool
  ctx_deadline :: "time option"

definition background :: go_ctx where
  "background = \<lparr>ctx_canceled = False, ctx_deadline = None\<rparr>"

definition ctx_err :: "go_ctx \<Rightarrow> time \<Rightarrow> go_err" where
  "ctx_err c now =
     (if ctx_canceled c then Some (Sentinel ContextCanceled)
      else case ctx_deadline c of
        Some d \<Rightarrow> if d \<le> now then Some (Sentinel ContextDeadlineExceeded) else None
      | None \<Rightarrow> None)"

text \<open>\<^verbatim>\<open>context.WithDeadline\<close> keeps the earlier of the two deadlines.\<close>

definition with_deadline :: "go_ctx \<Rightarrow> time \<Rightarrow> go_ctx" where
  "with_deadline c d = c\<lparr>ctx_deadline :=
     Some (case ctx_deadline c of Some d' \<Rightarrow> min d' d | None \<Rightarrow> d)\<rparr>"

end
