(* ===== verification/Backend.thy ===== *)
theory Backend
  imports Prelude
begin

text \<open>
  The backend contract (\<^verbatim>\<open>src/backend/contracts.go\<close>): requests, lease records and the driver
  interfaces. A driver is a record of functions over its own state; the optional capabilities that
  Go discovers by a type assertion (\<^verbatim>\<open>StrictDriver\<close>, \<^verbatim>\<open>LineageDriver\<close>, \<^verbatim>\<open>ForceReleaseDriver\<close>) are
  option-typed fields.
\<close>

section \<open>Requests and records\<close>

record AcquireRequest =
  aq_DefinitionID :: string
  aq_ResourceKeys :: "string list"
  aq_OwnerID :: string
  aq_LeaseTTL :: duration

record LeaseRecord =
  lr_DefinitionID :: string
  lr_ResourceKeys :: "string list"
  lr_OwnerID :: string
  lr_LeaseTTL :: duration
  lr_AcquiredAt :: time
  lr_ExpiresAt :: time

definition IsExpired :: "LeaseRecord \<Rightarrow> time \<Rightarrow> bool" where
  "IsExpired l now = (if lr_LeaseTTL l \<le> 0 then True else lr_ExpiresAt l < now)"

type_synonym token = "64 word"

record FencedLeaseRecord =
  fl_Lease :: LeaseRecord
  fl_FencingToken :: token

record PresenceRequest =
  pq_DefinitionID :: string
  pq_ResourceKeys :: "string list"

text \<open>The lease of an absent presence record is Go's zero value, here \<open>None\<close>.\<close>

record PresenceRecord =
  pr_Present :: bool
  pr_DefinitionID :: string
  pr_ResourceKeys :: "string list"
  pr_Lease :: "LeaseRecord option"

record StrictAcquireRequest =
  sq_DefinitionID :: string
  sq_ResourceKey :: string
  sq_OwnerID :: string
  sq_LeaseTTL :: duration

text \<open>\<^verbatim>\<open>LockKind\<close> is a string type; any string other than the two constants is \<open>KindOther\<close>.\<close>

datatype LockKind = KindParent | KindChild | KindOther string

record AncestorKey =
  ak_DefinitionID :: string
  ak_ResourceKey :: string

record LineageLeaseMeta =
  lm_LeaseID :: string
  lm_Kind :: LockKind
  lm_AncestorKeys :: "AncestorKey list"

lemma LineageLeaseMeta_eta [simp]:
  "\<lparr>lm_LeaseID = lm_LeaseID x, lm_Kind = lm_Kind x, lm_AncestorKeys = lm_AncestorKeys x\<rparr> = x"
  by simp

record LineageAcquireRequest =
  lq_DefinitionID :: string
  lq_ResourceKey :: string
  lq_OwnerID :: string
  lq_LeaseTTL :: duration
  lq_Lineage :: LineageLeaseMeta

section \<open>Driver interfaces\<close>

record 's StrictDriver =
  AcquireStrict :: "go_ctx \<Rightarrow> time \<Rightarrow> 's \<Rightarrow> StrictAcquireRequest \<Rightarrow> 's \<times> FencedLeaseRecord result"
  RenewStrict :: "go_ctx \<Rightarrow> time \<Rightarrow> 's \<Rightarrow> LeaseRecord \<Rightarrow> token \<Rightarrow> 's \<times> FencedLeaseRecord result"
  ReleaseStrict :: "go_ctx \<Rightarrow> time \<Rightarrow> 's \<Rightarrow> LeaseRecord \<Rightarrow> token \<Rightarrow> 's \<times> go_err"

record 's LineageDriver =
  AcquireWithLineage :: "go_ctx \<Rightarrow> time \<Rightarrow> 's \<Rightarrow> LineageAcquireRequest \<Rightarrow> 's \<times> LeaseRecord result"
  RenewWithLineage :: "go_ctx \<Rightarrow> time \<Rightarrow> 's \<Rightarrow> LeaseRecord \<Rightarrow> LineageLeaseMeta
    \<Rightarrow> 's \<times> (LeaseRecord \<times> LineageLeaseMeta) result"
  ReleaseWithLineage :: "go_ctx \<Rightarrow> time \<Rightarrow> 's \<Rightarrow> LeaseRecord \<Rightarrow> LineageLeaseMeta \<Rightarrow> 's \<times> go_err"

record 's Driver =
  Acquire :: "go_ctx \<Rightarrow> time \<Rightarrow> 's \<Rightarrow> AcquireRequest \<Rightarrow> 's \<times> LeaseRecord result"
  Renew :: "go_ctx \<Rightarrow> time \<Rightarrow> 's \<Rightarrow> LeaseRecord \<Rightarrow> 's \<times> LeaseRecord result"
  Release :: "go_ctx \<Rightarrow> time \<Rightarrow> 's \<Rightarrow> LeaseRecord \<Rightarrow> 's \<times> go_err"
  CheckPresence :: "go_ctx \<Rightarrow> time \<Rightarrow> 's \<Rightarrow> PresenceRequest \<Rightarrow> 's \<times> PresenceRecord result"
  Ping :: "go_ctx \<Rightarrow> time \<Rightarrow> 's \<Rightarrow> 's \<times> go_err"
  as_StrictDriver :: "'s StrictDriver option"
  as_LineageDriver :: "'s LineageDriver option"
  as_ForceReleaseDriver :: "(go_ctx \<Rightarrow> time \<Rightarrow> 's \<Rightarrow> string \<Rightarrow> string \<Rightarrow> 's \<times> go_err) option"


section \<open>The contract the engine relies on\<close>

text \<open>
  \<open>slot d k\<close> is the unit of exclusion a backend uses for resource key \<open>k\<close> of definition \<open>d\<close>, and
  \<open>holds t s x\<close> the owner of the live lease on slot \<open>x\<close> at time \<open>t\<close>. A grant puts a lease on a free
  slot, a release takes the caller's own lease away, and neither touches another slot, now or later.
\<close>

definition granted ::
  "(string \<Rightarrow> string \<Rightarrow> 'x) \<Rightarrow> (time \<Rightarrow> 's \<Rightarrow> 'x \<Rightarrow> string option) \<Rightarrow> time \<Rightarrow> 's \<Rightarrow> 's
    \<Rightarrow> string \<Rightarrow> string list \<Rightarrow> string \<Rightarrow> LeaseRecord \<Rightarrow> bool"
where
  "granted slot holds t s s' d ks ow l \<longleftrightarrow>
     (\<exists>k. ks = [k] \<and> lr_ResourceKeys l = [k] \<and> lr_DefinitionID l = d \<and> lr_OwnerID l = ow
        \<and> holds t s (slot d k) = None \<and> holds t s' (slot d k) = Some ow
        \<and> (\<forall>t'\<ge>t. \<forall>x. x \<noteq> slot d k \<longrightarrow> holds t' s' x = holds t' s x))"

definition untouched :: "(time \<Rightarrow> 's \<Rightarrow> 'x \<Rightarrow> string option) \<Rightarrow> time \<Rightarrow> 's \<Rightarrow> 's \<Rightarrow> bool" where
  "untouched holds t s s' \<longleftrightarrow> (\<forall>t'\<ge>t. holds t' s' = holds t' s)"

definition released ::
  "(string \<Rightarrow> string \<Rightarrow> 'x) \<Rightarrow> (time \<Rightarrow> 's \<Rightarrow> 'x \<Rightarrow> string option) \<Rightarrow> time \<Rightarrow> 's \<Rightarrow> 's \<Rightarrow> LeaseRecord \<Rightarrow> bool"
where
  "released slot holds t s s' l \<longleftrightarrow>
     (\<exists>k. lr_ResourceKeys l = [k] \<and> holds t s (slot (lr_DefinitionID l) k) = Some (lr_OwnerID l)
        \<and> (\<forall>t'\<ge>t. holds t' s' = (holds t' s)(slot (lr_DefinitionID l) k := None)))"

locale lock_driver =
  fixes D :: "'s Driver"
    and inv :: "'s \<Rightarrow> bool"
    and slot :: "string \<Rightarrow> string \<Rightarrow> 'x"
    and holds :: "time \<Rightarrow> 's \<Rightarrow> 'x \<Rightarrow> string option"
  assumes holds_mono: "inv s \<Longrightarrow> holds t' s x = Some ow \<Longrightarrow> t \<le> t' \<Longrightarrow> holds t s x = Some ow"
    and acquire_inv: "inv s \<Longrightarrow> Acquire D c t s rq = (s', r) \<Longrightarrow> inv s'"
    and acquire_granted: "inv s \<Longrightarrow> Acquire D c t s rq = (s', Inr l) \<Longrightarrow>
      granted slot holds t s s' (aq_DefinitionID rq) (aq_ResourceKeys rq) (aq_OwnerID rq) l"
    and acquire_refused: "inv s \<Longrightarrow> Acquire D c t s rq = (s', Inl e) \<Longrightarrow> untouched holds t s s'"
    and release_inv: "inv s \<Longrightarrow> Release D c t s l = (s', r2) \<Longrightarrow> inv s'"
    and release_done: "inv s \<Longrightarrow> Release D c t s l = (s', None) \<Longrightarrow> released slot holds t s s' l"
    and release_refused: "inv s \<Longrightarrow> Release D c t s l = (s', Some e) \<Longrightarrow> untouched holds t s s'"
    and presence_inv: "inv s \<Longrightarrow> CheckPresence D c t s pq = (s', rp) \<Longrightarrow> inv s'"
    and presence_untouched: "inv s \<Longrightarrow> CheckPresence D c t s pq = (s', rp) \<Longrightarrow> untouched holds t s s'"
    and strict_inv: "inv s \<Longrightarrow> as_StrictDriver D = Some S \<Longrightarrow> AcquireStrict S c t s sq = (s', r1) \<Longrightarrow> inv s'"
    and strict_granted: "inv s \<Longrightarrow> as_StrictDriver D = Some S \<Longrightarrow> AcquireStrict S c t s sq = (s', Inr f) \<Longrightarrow>
      granted slot holds t s s' (sq_DefinitionID sq) [sq_ResourceKey sq] (sq_OwnerID sq) (fl_Lease f)"
    and strict_refused: "inv s \<Longrightarrow> as_StrictDriver D = Some S \<Longrightarrow> AcquireStrict S c t s sq = (s', Inl e) \<Longrightarrow>
      untouched holds t s s'"
    and strict_release_inv: "inv s \<Longrightarrow> as_StrictDriver D = Some S \<Longrightarrow> ReleaseStrict S c t s l tok = (s', r2) \<Longrightarrow> inv s'"
    and strict_release_done: "inv s \<Longrightarrow> as_StrictDriver D = Some S \<Longrightarrow> ReleaseStrict S c t s l tok = (s', None) \<Longrightarrow>
      released slot holds t s s' l"
    and strict_release_refused: "inv s \<Longrightarrow> as_StrictDriver D = Some S \<Longrightarrow>
      ReleaseStrict S c t s l tok = (s', Some e) \<Longrightarrow> untouched holds t s s'"
    and lineage_inv: "inv s \<Longrightarrow> as_LineageDriver D = Some L \<Longrightarrow> AcquireWithLineage L c t s lq = (s', r) \<Longrightarrow> inv s'"
    and lineage_granted: "inv s \<Longrightarrow> as_LineageDriver D = Some L \<Longrightarrow>
      AcquireWithLineage L c t s lq = (s', Inr l) \<Longrightarrow>
      granted slot holds t s s' (lq_DefinitionID lq) [lq_ResourceKey lq] (lq_OwnerID lq) l"
    and lineage_refused: "inv s \<Longrightarrow> as_LineageDriver D = Some L \<Longrightarrow>
      AcquireWithLineage L c t s lq = (s', Inl e) \<Longrightarrow> untouched holds t s s'"
    and lineage_release_inv: "inv s \<Longrightarrow> as_LineageDriver D = Some L \<Longrightarrow>
      ReleaseWithLineage L c t s l meta = (s', r2) \<Longrightarrow> inv s'"
    and lineage_release_done: "inv s \<Longrightarrow> as_LineageDriver D = Some L \<Longrightarrow>
      ReleaseWithLineage L c t s l meta = (s', None) \<Longrightarrow> released slot holds t s s' l"
    and lineage_release_refused: "inv s \<Longrightarrow> as_LineageDriver D = Some L \<Longrightarrow>
      ReleaseWithLineage L c t s l meta = (s', Some e) \<Longrightarrow> untouched holds t s s'"
begin

lemma grant_live_later:
  assumes "inv s'" and "granted slot holds t s s' d ks ow l" and "t \<le> t'"
  shows "\<exists>k. ks = [k] \<and> (holds t' s' (slot d k) = None \<or> holds t' s' (slot d k) = Some ow)"
proof -
  from assms(2) obtain k where k: "ks = [k]" "holds t s' (slot d k) = Some ow" by (auto simp: granted_def)
  show ?thesis
  proof (cases "holds t' s' (slot d k)")
    case (Some o')
    from holds_mono[OF assms(1) this assms(3)] k show ?thesis using Some by auto
  qed (use k in simp)
qed

end

text \<open>
  A backend that never fails for reasons of its own: a release it refuses was for a lease the caller
  no longer had, an acquire of a free slot succeeds, and a granted lease lives until its expiry time
  unless it is released.
\<close>

locale reliable_driver = lock_driver +
  assumes release_refused_gone: "inv s \<Longrightarrow> Release D c t s l = (s', Some e) \<Longrightarrow> lr_ResourceKeys l = [k] \<Longrightarrow>
      holds t s (slot (lr_DefinitionID l) k) \<noteq> Some (lr_OwnerID l)"
    and acquire_free: "inv s \<Longrightarrow> aq_ResourceKeys rq = [k] \<Longrightarrow> 0 < aq_LeaseTTL rq \<Longrightarrow>
      holds t s (slot (aq_DefinitionID rq) k) = None \<Longrightarrow> \<exists>s' l. Acquire D c t s rq = (s', Inr l)"
    and acquire_busy: "inv s \<Longrightarrow> aq_ResourceKeys rq = [k] \<Longrightarrow> 0 < aq_LeaseTTL rq \<Longrightarrow>
      holds t s (slot (aq_DefinitionID rq) k) \<noteq> None \<Longrightarrow>
      snd (Acquire D c t s rq) = Inl (Sentinel ErrLeaseAlreadyHeld)"
    and acquire_until: "inv s \<Longrightarrow> Acquire D c t s rq = (s', Inr l) \<Longrightarrow> aq_ResourceKeys rq = [k] \<Longrightarrow>
      t \<le> t' \<Longrightarrow> t' \<le> lr_ExpiresAt l \<Longrightarrow> holds t' s' (slot (aq_DefinitionID rq) k) = Some (aq_OwnerID rq)"
    and slot_inj: "slot d k = slot d k' \<Longrightarrow> k = k'"
begin

lemma release_ends_hold:
  assumes "inv s" and "Release D c t s l = (s', r)" and "lr_ResourceKeys l = [k]"
  shows "holds t s' (slot (lr_DefinitionID l) k) \<noteq> Some (lr_OwnerID l)"
proof (cases r)
  case None
  with assms(2) have "released slot holds t s s' l" by (intro release_done[OF assms(1)]) simp
  with assms(3) show ?thesis by (auto simp: released_def)
next
  case (Some e)
  with assms(2) have r: "Release D c t s l = (s', Some e)" by simp
  from release_refused[OF assms(1) r] release_refused_gone[OF assms(1) r assms(3)] show ?thesis
    by (simp add: untouched_def)
qed

end

text \<open>
  The strict and lineage sides of a reliable backend. \<open>entry s d k\<close> is what the backend records about
  the lease on key \<open>k\<close> of definition \<open>d\<close>. A granted lease lives until its expiry time, and a release
  with the lease the grant returned can only be refused when the owner has lost the lease; for a
  strict lease, as long as the record is the one the grant made and the backend can tell the pair of
  definition and key from every other one (\<open>separable\<close>).
\<close>

locale steady_driver = reliable_driver +
  fixes entry :: "'a \<Rightarrow> string \<Rightarrow> string \<Rightarrow> 'e"
    and separable :: "string \<Rightarrow> string \<Rightarrow> bool"
  assumes strict_until: "inv s \<Longrightarrow> as_StrictDriver D = Some S \<Longrightarrow> AcquireStrict S c t s sq = (s', Inr f) \<Longrightarrow>
      t \<le> t' \<Longrightarrow> t' \<le> lr_ExpiresAt (fl_Lease f) \<Longrightarrow>
      holds t' s' (slot (sq_DefinitionID sq) (sq_ResourceKey sq)) = Some (sq_OwnerID sq)"
    and lineage_until: "inv s \<Longrightarrow> as_LineageDriver D = Some L \<Longrightarrow> AcquireWithLineage L c t s lq = (s', Inr l) \<Longrightarrow>
      t \<le> t' \<Longrightarrow> t' \<le> lr_ExpiresAt l \<Longrightarrow>
      holds t' s' (slot (lq_DefinitionID lq) (lq_ResourceKey lq)) = Some (lq_OwnerID lq)"
    and strict_release_refused_gone: "inv s \<Longrightarrow> as_StrictDriver D = Some S \<Longrightarrow>
      AcquireStrict S c t s sq = (s', Inr f) \<Longrightarrow> inv s2 \<Longrightarrow>
      separable (sq_DefinitionID sq) (sq_ResourceKey sq) \<Longrightarrow>
      entry s2 (sq_DefinitionID sq) (sq_ResourceKey sq) = entry s' (sq_DefinitionID sq) (sq_ResourceKey sq) \<Longrightarrow>
      ReleaseStrict S c' t' s2 (fl_Lease f) (fl_FencingToken f) = (s3, Some e) \<Longrightarrow>
      holds t' s2 (slot (sq_DefinitionID sq) (sq_ResourceKey sq)) \<noteq> Some (sq_OwnerID sq)"
    and lineage_release_refused_gone: "inv s \<Longrightarrow> as_LineageDriver D = Some L \<Longrightarrow>
      AcquireWithLineage L c t s lq = (s', Inr l) \<Longrightarrow> inv s2 \<Longrightarrow>
      ReleaseWithLineage L c' t' s2 l (lq_Lineage lq) = (s3, Some e) \<Longrightarrow>
      holds t' s2 (slot (lq_DefinitionID lq) (lq_ResourceKey lq)) \<noteq> Some (lq_OwnerID lq)"

end
