(* ===== verification/Memory_Driver.thy ===== *)
theory Memory_Driver
  imports Backend
begin

text \<open>
  The in-memory backend (\<^verbatim>\<open>src/backend/memory/driver.go\<close>). Every method takes the driver's mutex for
  its whole body, so each one is a single step of the model: it takes the time the method read from
  \<^verbatim>\<open>time.Now()\<close> and the driver state, and returns the new state and the result.
\<close>

section \<open>State\<close>

record lineageLeaseState =
  ls_lease :: LeaseRecord
  ls_lineage :: LineageLeaseMeta
  ls_expireAt :: time

record strictLeaseState =
  ss_lease :: LeaseRecord
  ss_fencingToken :: token

record MemoryDriver =
  md_leases :: "(string, LeaseRecord) gomap"
  md_strictCounters :: "(string, token) gomap"
  md_strictLeases :: "(string, strictLeaseState) gomap"
  md_lineageLeases :: "(string, lineageLeaseState) gomap"
  md_descendantsByAncestor :: "(string, (string, time) gomap) gomap"

definition NewMemoryDriver :: MemoryDriver where
  "NewMemoryDriver =
     \<lparr>md_leases = [], md_strictCounters = [], md_strictLeases = [], md_lineageLeases = [],
      md_descendantsByAncestor = []\<rparr>"

definition strictBoundaryKey :: "string \<Rightarrow> string \<Rightarrow> string" where
  "strictBoundaryKey definitionID resourceKey = definitionID @ [CHR 0x00] @ resourceKey"

definition formatAncestorKey :: "AncestorKey \<Rightarrow> string" where
  "formatAncestorKey key = ak_DefinitionID key @ [CHR 0x00] @ ak_ResourceKey key"

section \<open>Pruning\<close>

definition prune_lease :: "time \<Rightarrow> string \<times> LeaseRecord \<Rightarrow> MemoryDriver \<Rightarrow> MemoryDriver" where
  "prune_lease now = (\<lambda>(key, lease) m.
     if IsExpired lease now
     then m\<lparr>md_leases := mdel key (md_leases m),
            md_strictLeases := mdel (strictBoundaryKey (lr_DefinitionID lease) key) (md_strictLeases m)\<rparr>
     else m)"

text \<open>
  The loop body shared by \<^verbatim>\<open>pruneExpired\<close> and \<^verbatim>\<open>ReleaseWithLineage\<close>: take a lease id out of the
  members of one ancestor, and drop the ancestor when it has no members left.
\<close>

definition remove_member ::
  "string \<Rightarrow> AncestorKey \<Rightarrow> (string, (string, time) gomap) gomap \<Rightarrow> (string, (string, time) gomap) gomap"
where
  "remove_member leaseID ancestor desc =
     (let ancestorKey = formatAncestorKey ancestor in
      case mget desc ancestorKey of
        None \<Rightarrow> desc
      | Some members \<Rightarrow>
          (let members' = mdel leaseID members in
           if members' = [] then mdel ancestorKey desc else mput ancestorKey members' desc))"

definition prune_lineage :: "time \<Rightarrow> string \<times> lineageLeaseState \<Rightarrow> MemoryDriver \<Rightarrow> MemoryDriver" where
  "prune_lineage now = (\<lambda>(leaseID, state) m.
     if ls_expireAt state < now \<or> IsExpired (ls_lease state) now
     then m\<lparr>md_lineageLeases := mdel leaseID (md_lineageLeases m),
            md_descendantsByAncestor :=
              fold (remove_member leaseID) (lm_AncestorKeys (ls_lineage state))
                (md_descendantsByAncestor m)\<rparr>
     else m)"

definition pruneExpired :: "time \<Rightarrow> MemoryDriver \<Rightarrow> MemoryDriver" where
  "pruneExpired now m =
     (let m1 = fold (prune_lease now) (md_leases m) m
      in fold (prune_lineage now) (md_lineageLeases m1) m1)"

section \<open>Standard operations\<close>

definition MemoryDriver_Acquire ::
  "go_ctx \<Rightarrow> time \<Rightarrow> MemoryDriver \<Rightarrow> AcquireRequest \<Rightarrow> MemoryDriver \<times> LeaseRecord result"
where
  "MemoryDriver_Acquire ctx now m req =
     (if length (aq_ResourceKeys req) \<noteq> 1 then (m, Inl (Sentinel ErrInvalidRequest))
      else if aq_LeaseTTL req \<le> 0 then (m, Inl (Sentinel ErrInvalidRequest))
      else
        let key = aq_ResourceKeys req ! 0;
            m1 = pruneExpired now m;
            lease = \<lparr>lr_DefinitionID = aq_DefinitionID req, lr_ResourceKeys = aq_ResourceKeys req,
                     lr_OwnerID = aq_OwnerID req, lr_LeaseTTL = aq_LeaseTTL req,
                     lr_AcquiredAt = now, lr_ExpiresAt = now + aq_LeaseTTL req\<rparr>
        in case mget (md_leases m1) key of
             Some existing \<Rightarrow>
               if \<not> IsExpired existing now then (m1, Inl (Sentinel ErrLeaseAlreadyHeld))
               else (m1\<lparr>md_leases := mput key lease (mdel key (md_leases m1))\<rparr>, Inr lease)
           | None \<Rightarrow> (m1\<lparr>md_leases := mput key lease (md_leases m1)\<rparr>, Inr lease))"

text \<open>The refreshed lease of the three renew operations.\<close>

definition refresh :: "time \<Rightarrow> LeaseRecord \<Rightarrow> LeaseRecord \<Rightarrow> LeaseRecord" where
  "refresh now lease existing =
     (let ttl = (if lr_LeaseTTL lease \<le> 0 then lr_LeaseTTL existing else lr_LeaseTTL lease)
      in existing\<lparr>lr_LeaseTTL := ttl, lr_AcquiredAt := now, lr_ExpiresAt := now + ttl\<rparr>)"

definition MemoryDriver_Renew ::
  "go_ctx \<Rightarrow> time \<Rightarrow> MemoryDriver \<Rightarrow> LeaseRecord \<Rightarrow> MemoryDriver \<times> LeaseRecord result"
where
  "MemoryDriver_Renew ctx now m lease =
     (if length (lr_ResourceKeys lease) \<noteq> 1 then (m, Inl (Sentinel ErrInvalidRequest))
      else
        let key = lr_ResourceKeys lease ! 0; m1 = pruneExpired now m
        in case mget (md_leases m1) key of
             None \<Rightarrow> (m1, Inl (Sentinel ErrLeaseNotFound))
           | Some existing \<Rightarrow>
               if lr_OwnerID existing \<noteq> lr_OwnerID lease
               then (m1, Inl (Sentinel ErrLeaseOwnerMismatch))
               else if IsExpired existing now
               then (m1\<lparr>md_leases := mdel key (md_leases m1)\<rparr>, Inl (Sentinel ErrLeaseExpired))
               else let existing' = refresh now lease existing
                    in (m1\<lparr>md_leases := mput key existing' (md_leases m1)\<rparr>, Inr existing'))"

definition MemoryDriver_Release ::
  "go_ctx \<Rightarrow> time \<Rightarrow> MemoryDriver \<Rightarrow> LeaseRecord \<Rightarrow> MemoryDriver \<times> go_err"
where
  "MemoryDriver_Release ctx now m lease =
     (if length (lr_ResourceKeys lease) \<noteq> 1 then (m, Some (Sentinel ErrInvalidRequest))
      else
        let key = lr_ResourceKeys lease ! 0; m1 = pruneExpired now m
        in case mget (md_leases m1) key of
             None \<Rightarrow> (m1, Some (Sentinel ErrLeaseNotFound))
           | Some existing \<Rightarrow>
               if lr_OwnerID existing \<noteq> lr_OwnerID lease
               then (m1, Some (Sentinel ErrLeaseOwnerMismatch))
               else (m1\<lparr>md_leases := mdel key (md_leases m1)\<rparr>, None))"

definition MemoryDriver_CheckPresence ::
  "go_ctx \<Rightarrow> time \<Rightarrow> MemoryDriver \<Rightarrow> PresenceRequest \<Rightarrow> MemoryDriver \<times> PresenceRecord result"
where
  "MemoryDriver_CheckPresence ctx now m req =
     (if length (pq_ResourceKeys req) \<noteq> 1 then (m, Inl (Sentinel ErrInvalidRequest))
      else
        let key = pq_ResourceKeys req ! 0;
            m1 = pruneExpired now m;
            record = \<lparr>pr_Present = False, pr_DefinitionID = pq_DefinitionID req,
                      pr_ResourceKeys = [key], pr_Lease = None\<rparr>
        in case mget (md_leases m1) key of
             Some lease \<Rightarrow>
               if IsExpired lease now
               then (m1\<lparr>md_leases := mdel key (md_leases m1)\<rparr>, Inr record)
               else (m1, Inr (record\<lparr>pr_Lease := Some lease, pr_Present := True,
                                pr_DefinitionID := lr_DefinitionID lease,
                                pr_ResourceKeys := lr_ResourceKeys lease\<rparr>))
           | None \<Rightarrow> (m1, Inr record))"

definition MemoryDriver_Ping :: "go_ctx \<Rightarrow> time \<Rightarrow> MemoryDriver \<Rightarrow> MemoryDriver \<times> go_err" where
  "MemoryDriver_Ping ctx now m = (m, None)"

section \<open>Strict operations\<close>

definition MemoryDriver_AcquireStrict ::
  "go_ctx \<Rightarrow> time \<Rightarrow> MemoryDriver \<Rightarrow> StrictAcquireRequest \<Rightarrow> MemoryDriver \<times> FencedLeaseRecord result"
where
  "MemoryDriver_AcquireStrict ctx now m req =
     (if sq_ResourceKey req = [] then (m, Inl (Sentinel ErrInvalidRequest))
      else if sq_LeaseTTL req \<le> 0 then (m, Inl (Sentinel ErrInvalidRequest))
      else
        let key = sq_ResourceKey req;
            m1 = pruneExpired now m;
            grant = (\<lambda>m2.
              let lease = \<lparr>lr_DefinitionID = sq_DefinitionID req, lr_ResourceKeys = [sq_ResourceKey req],
                           lr_OwnerID = sq_OwnerID req, lr_LeaseTTL = sq_LeaseTTL req,
                           lr_AcquiredAt = now, lr_ExpiresAt = now + sq_LeaseTTL req\<rparr>;
                  boundary = strictBoundaryKey (sq_DefinitionID req) (sq_ResourceKey req);
                  nextToken = (case mget (md_strictCounters m2) boundary of Some c \<Rightarrow> c | None \<Rightarrow> 0) + 1
              in (m2\<lparr>md_strictCounters := mput boundary nextToken (md_strictCounters m2),
                     md_leases := mput key lease (md_leases m2),
                     md_strictLeases :=
                       mput boundary \<lparr>ss_lease = lease, ss_fencingToken = nextToken\<rparr> (md_strictLeases m2)\<rparr>,
                  Inr \<lparr>fl_Lease = lease, fl_FencingToken = nextToken\<rparr>))
        in case mget (md_leases m1) key of
             Some existing \<Rightarrow>
               if \<not> IsExpired existing now then (m1, Inl (Sentinel ErrLeaseAlreadyHeld))
               else grant (m1\<lparr>md_leases := mdel key (md_leases m1),
                              md_strictLeases :=
                                mdel (strictBoundaryKey (lr_DefinitionID existing) key) (md_strictLeases m1)\<rparr>)
           | None \<Rightarrow> grant m1)"

definition MemoryDriver_RenewStrict ::
  "go_ctx \<Rightarrow> time \<Rightarrow> MemoryDriver \<Rightarrow> LeaseRecord \<Rightarrow> token \<Rightarrow> MemoryDriver \<times> FencedLeaseRecord result"
where
  "MemoryDriver_RenewStrict ctx now m lease fencingToken =
     (if length (lr_ResourceKeys lease) \<noteq> 1 then (m, Inl (Sentinel ErrInvalidRequest))
      else
        let key = lr_ResourceKeys lease ! 0;
            boundary = strictBoundaryKey (lr_DefinitionID lease) key;
            m1 = pruneExpired now m
        in case mget (md_leases m1) key of
             None \<Rightarrow> (m1, Inl (Sentinel ErrLeaseNotFound))
           | Some existing \<Rightarrow>
               if lr_OwnerID existing \<noteq> lr_OwnerID lease
               then (m1, Inl (Sentinel ErrLeaseOwnerMismatch))
               else if IsExpired existing now
               then (m1\<lparr>md_leases := mdel key (md_leases m1),
                        md_strictLeases := mdel boundary (md_strictLeases m1)\<rparr>,
                     Inl (Sentinel ErrLeaseExpired))
               else if lr_DefinitionID existing \<noteq> lr_DefinitionID lease
               then (m1, Inl (Sentinel ErrLeaseOwnerMismatch))
               else case mget (md_strictLeases m1) boundary of
                      None \<Rightarrow> (m1, Inl (Sentinel ErrLeaseNotFound))
                    | Some strictState \<Rightarrow>
                        if lr_OwnerID (ss_lease strictState) \<noteq> lr_OwnerID lease
                           \<or> ss_fencingToken strictState \<noteq> fencingToken
                        then (m1, Inl (Sentinel ErrLeaseOwnerMismatch))
                        else
                          let existing' = refresh now lease existing;
                              strictState' = strictState\<lparr>ss_lease := existing'\<rparr>
                          in (m1\<lparr>md_leases := mput key existing' (md_leases m1),
                                 md_strictLeases := mput boundary strictState' (md_strictLeases m1)\<rparr>,
                              Inr \<lparr>fl_Lease = existing', fl_FencingToken = ss_fencingToken strictState'\<rparr>))"

definition MemoryDriver_ReleaseStrict ::
  "go_ctx \<Rightarrow> time \<Rightarrow> MemoryDriver \<Rightarrow> LeaseRecord \<Rightarrow> token \<Rightarrow> MemoryDriver \<times> go_err"
where
  "MemoryDriver_ReleaseStrict ctx now m lease fencingToken =
     (if length (lr_ResourceKeys lease) \<noteq> 1 then (m, Some (Sentinel ErrInvalidRequest))
      else
        let key = lr_ResourceKeys lease ! 0;
            boundary = strictBoundaryKey (lr_DefinitionID lease) key;
            m1 = pruneExpired now m
        in case mget (md_leases m1) key of
             None \<Rightarrow> (m1, Some (Sentinel ErrLeaseNotFound))
           | Some existing \<Rightarrow>
               if lr_OwnerID existing \<noteq> lr_OwnerID lease
               then (m1, Some (Sentinel ErrLeaseOwnerMismatch))
               else if lr_DefinitionID existing \<noteq> lr_DefinitionID lease
               then (m1, Some (Sentinel ErrLeaseOwnerMismatch))
               else case mget (md_strictLeases m1) boundary of
                      None \<Rightarrow> (m1, Some (Sentinel ErrLeaseNotFound))
                    | Some strictState \<Rightarrow>
                        if lr_OwnerID (ss_lease strictState) \<noteq> lr_OwnerID lease
                           \<or> ss_fencingToken strictState \<noteq> fencingToken
                        then (m1, Some (Sentinel ErrLeaseOwnerMismatch))
                        else (m1\<lparr>md_leases := mdel key (md_leases m1),
                                 md_strictLeases := mdel boundary (md_strictLeases m1)\<rparr>, None))"

section \<open>Lineage operations\<close>

definition rejectLineageConflict :: "time \<Rightarrow> MemoryDriver \<Rightarrow> LineageAcquireRequest \<Rightarrow> go_err" where
  "rejectLineageConflict now m req =
     (if (case mget (md_leases m) (lq_ResourceKey req) of
            Some existing \<Rightarrow> \<not> IsExpired existing now | None \<Rightarrow> False)
      then Some (Sentinel ErrLeaseAlreadyHeld)
      else case lm_Kind (lq_Lineage req) of
        KindParent \<Rightarrow>
          (let ancestorKey = formatAncestorKey
                 \<lparr>ak_DefinitionID = lq_DefinitionID req, ak_ResourceKey = lq_ResourceKey req\<rparr>;
               members = (case mget (md_descendantsByAncestor m) ancestorKey of
                            Some ms \<Rightarrow> ms | None \<Rightarrow> [])
           in if list_ex (\<lambda>(_, expireAt). now < expireAt) members
              then Some (Sentinel ErrOverlapRejected) else None)
      | KindChild \<Rightarrow>
          (if list_ex (\<lambda>ancestor. case mget (md_leases m) (ak_ResourceKey ancestor) of
                         Some existing \<Rightarrow> \<not> IsExpired existing now | None \<Rightarrow> False)
                (lm_AncestorKeys (lq_Lineage req))
           then Some (Sentinel ErrOverlapRejected) else None)
      | KindOther _ \<Rightarrow> None)"

definition add_member ::
  "string \<Rightarrow> time \<Rightarrow> AncestorKey \<Rightarrow> (string, (string, time) gomap) gomap
    \<Rightarrow> (string, (string, time) gomap) gomap"
where
  "add_member leaseID expiresAt ancestor desc =
     (let ancestorKey = formatAncestorKey ancestor;
          members = (case mget desc ancestorKey of Some ms \<Rightarrow> ms | None \<Rightarrow> [])
      in mput ancestorKey (mput leaseID expiresAt members) desc)"

definition storeLeaseAndMembership ::
  "LeaseRecord \<Rightarrow> LineageLeaseMeta \<Rightarrow> MemoryDriver \<Rightarrow> MemoryDriver"
where
  "storeLeaseAndMembership lease lineage m =
     m\<lparr>md_leases := mput (lr_ResourceKeys lease ! 0) lease (md_leases m),
       md_lineageLeases := mput (lm_LeaseID lineage)
         \<lparr>ls_lease = lease, ls_lineage = lineage, ls_expireAt = lr_ExpiresAt lease\<rparr> (md_lineageLeases m),
       md_descendantsByAncestor :=
         fold (add_member (lm_LeaseID lineage) (lr_ExpiresAt lease)) (lm_AncestorKeys lineage)
           (md_descendantsByAncestor m)\<rparr>"

definition MemoryDriver_AcquireWithLineage ::
  "go_ctx \<Rightarrow> time \<Rightarrow> MemoryDriver \<Rightarrow> LineageAcquireRequest \<Rightarrow> MemoryDriver \<times> LeaseRecord result"
where
  "MemoryDriver_AcquireWithLineage ctx now m req =
     (if lq_ResourceKey req = [] then (m, Inl (Sentinel ErrInvalidRequest))
      else if lq_LeaseTTL req \<le> 0 then (m, Inl (Sentinel ErrInvalidRequest))
      else if lm_LeaseID (lq_Lineage req) = [] then (m, Inl (Sentinel ErrInvalidRequest))
      else
        let m1 = pruneExpired now m
        in case rejectLineageConflict now m1 req of
             Some err \<Rightarrow> (m1, Inl err)
           | None \<Rightarrow>
               let lease = \<lparr>lr_DefinitionID = lq_DefinitionID req, lr_ResourceKeys = [lq_ResourceKey req],
                            lr_OwnerID = lq_OwnerID req, lr_LeaseTTL = lq_LeaseTTL req,
                            lr_AcquiredAt = now, lr_ExpiresAt = now + lq_LeaseTTL req\<rparr>;
                   meta = \<lparr>lm_LeaseID = lm_LeaseID (lq_Lineage req), lm_Kind = lm_Kind (lq_Lineage req),
                           lm_AncestorKeys = lm_AncestorKeys (lq_Lineage req)\<rparr>
               in (storeLeaseAndMembership lease meta m1, Inr lease))"

definition is_member :: "(string, (string, time) gomap) gomap \<Rightarrow> string \<Rightarrow> AncestorKey \<Rightarrow> bool" where
  "is_member desc leaseID ancestor =
     (case mget desc (formatAncestorKey ancestor) of
        None \<Rightarrow> False | Some members \<Rightarrow> mget members leaseID \<noteq> None)"

definition touch_member ::
  "string \<Rightarrow> time \<Rightarrow> AncestorKey \<Rightarrow> (string, (string, time) gomap) gomap
    \<Rightarrow> (string, (string, time) gomap) gomap"
where
  "touch_member leaseID expiresAt ancestor desc =
     (case mget desc (formatAncestorKey ancestor) of
        None \<Rightarrow> desc
      | Some members \<Rightarrow>
          if mget members leaseID \<noteq> None
          then mput (formatAncestorKey ancestor) (mput leaseID expiresAt members) desc else desc)"

definition MemoryDriver_RenewWithLineage ::
  "go_ctx \<Rightarrow> time \<Rightarrow> MemoryDriver \<Rightarrow> LeaseRecord \<Rightarrow> LineageLeaseMeta
    \<Rightarrow> MemoryDriver \<times> (LeaseRecord \<times> LineageLeaseMeta) result"
where
  "MemoryDriver_RenewWithLineage ctx now m lease lineage =
     (if length (lr_ResourceKeys lease) \<noteq> 1 then (m, Inl (Sentinel ErrInvalidRequest))
      else if lm_LeaseID lineage = [] then (m, Inl (Sentinel ErrInvalidRequest))
      else
        let key = lr_ResourceKeys lease ! 0; m1 = pruneExpired now m
        in case mget (md_leases m1) key of
             None \<Rightarrow> (m1, Inl (Sentinel ErrLeaseNotFound))
           | Some existing \<Rightarrow>
               if lr_OwnerID existing \<noteq> lr_OwnerID lease
               then (m1, Inl (Sentinel ErrLeaseOwnerMismatch))
               else if IsExpired existing now
               then (m1\<lparr>md_leases := mdel key (md_leases m1)\<rparr>, Inl (Sentinel ErrLeaseExpired))
               else case mget (md_lineageLeases m1) (lm_LeaseID lineage) of
                      None \<Rightarrow> (m1, Inl (Sentinel ErrLeaseExpired))
                    | Some state \<Rightarrow>
                        if list_ex (\<lambda>a. \<not> is_member (md_descendantsByAncestor m1) (lm_LeaseID lineage) a)
                             (lm_AncestorKeys lineage)
                        then (m1, Inl (Sentinel ErrLeaseExpired))
                        else
                          let existing' = refresh now lease existing;
                              state' = state\<lparr>ls_lease := existing', ls_expireAt := lr_ExpiresAt existing'\<rparr>
                          in (m1\<lparr>md_leases := mput key existing' (md_leases m1),
                                 md_lineageLeases := mput (lm_LeaseID lineage) state' (md_lineageLeases m1),
                                 md_descendantsByAncestor :=
                                   fold (touch_member (lm_LeaseID lineage) (lr_ExpiresAt existing'))
                                     (lm_AncestorKeys lineage) (md_descendantsByAncestor m1)\<rparr>,
                              Inr (existing',
                                   \<lparr>lm_LeaseID = lm_LeaseID lineage, lm_Kind = lm_Kind lineage,
                                    lm_AncestorKeys = lm_AncestorKeys lineage\<rparr>)))"

definition MemoryDriver_ReleaseWithLineage ::
  "go_ctx \<Rightarrow> time \<Rightarrow> MemoryDriver \<Rightarrow> LeaseRecord \<Rightarrow> LineageLeaseMeta \<Rightarrow> MemoryDriver \<times> go_err"
where
  "MemoryDriver_ReleaseWithLineage ctx now m lease lineage =
     (if length (lr_ResourceKeys lease) \<noteq> 1 then (m, Some (Sentinel ErrInvalidRequest))
      else if lm_LeaseID lineage = [] then (m, Some (Sentinel ErrInvalidRequest))
      else
        let key = lr_ResourceKeys lease ! 0; m1 = pruneExpired now m
        in case mget (md_leases m1) key of
             None \<Rightarrow> (m1, Some (Sentinel ErrLeaseNotFound))
           | Some existing \<Rightarrow>
               if lr_OwnerID existing \<noteq> lr_OwnerID lease
               then (m1, Some (Sentinel ErrLeaseOwnerMismatch))
               else (m1\<lparr>md_leases := mdel key (md_leases m1),
                        md_lineageLeases := mdel (lm_LeaseID lineage) (md_lineageLeases m1),
                        md_descendantsByAncestor :=
                          fold (remove_member (lm_LeaseID lineage)) (lm_AncestorKeys lineage)
                            (md_descendantsByAncestor m1)\<rparr>, None))"

section \<open>The driver value\<close>

definition memory_strict :: "MemoryDriver StrictDriver" where
  "memory_strict =
     \<lparr>AcquireStrict = MemoryDriver_AcquireStrict, RenewStrict = MemoryDriver_RenewStrict,
      ReleaseStrict = MemoryDriver_ReleaseStrict\<rparr>"

definition memory_lineage :: "MemoryDriver LineageDriver" where
  "memory_lineage =
     \<lparr>AcquireWithLineage = MemoryDriver_AcquireWithLineage,
      RenewWithLineage = MemoryDriver_RenewWithLineage,
      ReleaseWithLineage = MemoryDriver_ReleaseWithLineage\<rparr>"

text \<open>The memory driver does not implement \<^verbatim>\<open>ForceReleaseDriver\<close>.\<close>

definition memory_driver :: "MemoryDriver Driver" where
  "memory_driver =
     \<lparr>Acquire = MemoryDriver_Acquire, Renew = MemoryDriver_Renew, Release = MemoryDriver_Release,
      CheckPresence = MemoryDriver_CheckPresence, Ping = MemoryDriver_Ping,
      as_StrictDriver = Some memory_strict, as_LineageDriver = Some memory_lineage,
      as_ForceReleaseDriver = None\<rparr>"

section \<open>Expiry and the live view\<close>

text \<open>
  \<open>live t m k\<close> is the lease that protects the resource key \<open>k\<close> at time \<open>t\<close>: the stored lease,
  unless it has expired by then. It is the abstraction the driver's clients see.
\<close>

definition view :: "time \<Rightarrow> (string \<rightharpoonup> LeaseRecord) \<Rightarrow> (string \<rightharpoonup> LeaseRecord)" where
  "view t T k = (case T k of Some l \<Rightarrow> if IsExpired l t then None else Some l | None \<Rightarrow> None)"

definition live :: "time \<Rightarrow> MemoryDriver \<Rightarrow> string \<Rightarrow> LeaseRecord option" where
  "live t m = view t (mget (md_leases m))"

lemma view_upd [simp]:
  "view t (T(k \<mapsto> l)) = (view t T)(k := if IsExpired l t then None else Some l)"
  "view t (T(k := None)) = (view t T)(k := None)"
  by (auto simp: view_def fun_eq_iff)

lemma IsExpired_mono: "IsExpired l t \<Longrightarrow> t \<le> t' \<Longrightarrow> IsExpired l t'"
  by (auto simp: IsExpired_def split: if_splits)

lemma live_Some_iff: "live t m k = Some l \<longleftrightarrow> mget (md_leases m) k = Some l \<and> \<not> IsExpired l t"
  by (auto simp: live_def view_def split: option.splits if_splits)

lemma live_later: "live t' m k = Some l \<Longrightarrow> t \<le> t' \<Longrightarrow> live t m k = Some l"
  by (auto simp: live_Some_iff dest: IsExpired_mono)

lemma live_cong: "mget (md_leases m) = mget (md_leases m') \<Longrightarrow> live t m = live t m'"
  by (simp add: live_def)

subsection \<open>What pruning keeps\<close>

lemma md_leases_fold_prune_lease:
  "md_leases (fold (prune_lease now) xs m) =
   fold (\<lambda>(k, v) ls. if IsExpired v now then mdel k ls else ls) xs (md_leases m)"
  by (induction xs arbitrary: m) (auto simp: prune_lease_def)

lemma fold_prune_lease_other [simp]:
  "md_strictCounters (fold (prune_lease now) xs m) = md_strictCounters m"
  "md_lineageLeases (fold (prune_lease now) xs m) = md_lineageLeases m"
  "md_descendantsByAncestor (fold (prune_lease now) xs m) = md_descendantsByAncestor m"
  by (induction xs arbitrary: m) (auto simp: prune_lease_def)

lemma fold_prune_lineage_other [simp]:
  "md_leases (fold (prune_lineage now) xs m) = md_leases m"
  "md_strictCounters (fold (prune_lineage now) xs m) = md_strictCounters m"
  "md_strictLeases (fold (prune_lineage now) xs m) = md_strictLeases m"
  by (induction xs arbitrary: m) (auto simp: prune_lineage_def)

lemma pruneExpired_counters [simp]: "md_strictCounters (pruneExpired now m) = md_strictCounters m"
  by (simp add: pruneExpired_def Let_def)

lemma pruneExpired_leases:
  "map_ok (md_leases m) \<Longrightarrow> mget (md_leases (pruneExpired now m)) k = live now m k"
  by (simp add: pruneExpired_def Let_def md_leases_fold_prune_lease fold_mdel_filter live_def view_def
      split: option.splits)

lemma fold_mdel_map_ok:
  "map_ok acc \<Longrightarrow> map_ok (fold (\<lambda>(k, v) ls. if p v then mdel k ls else ls) xs acc)"
  by (induction xs arbitrary: acc) auto

lemma pruneExpired_leases_ok: "map_ok (md_leases m) \<Longrightarrow> map_ok (md_leases (pruneExpired now m))"
  by (simp add: pruneExpired_def Let_def md_leases_fold_prune_lease fold_mdel_map_ok)

lemma pruneExpired_live:
  assumes "map_ok (md_leases m)" and "now \<le> t"
  shows "live t (pruneExpired now m) k = live t m k"
  using assms by (auto simp: live_def[of t] view_def pruneExpired_leases live_def[of now]
      split: option.splits dest: IsExpired_mono)

lemma prune_lease_strictLeases:
  "mget (md_strictLeases (prune_lease now x m)) b = Some s \<Longrightarrow> mget (md_strictLeases m) b = Some s"
  by (cases x) (simp add: prune_lease_def split: if_splits)

lemma fold_prune_lease_strictLeases:
  "mget (md_strictLeases (fold (prune_lease now) xs m)) b = Some s \<Longrightarrow>
   mget (md_strictLeases m) b = Some s"
proof (induction xs arbitrary: m)
  case (Cons x xs)
  then have "mget (md_strictLeases (prune_lease now x m)) b = Some s" by simp
  then show ?case by (rule prune_lease_strictLeases)
qed simp

lemma pruneExpired_strictLeases:
  "mget (md_strictLeases (pruneExpired now m)) b = Some s \<Longrightarrow> mget (md_strictLeases m) b = Some s"
  by (rule fold_prune_lease_strictLeases[of now "md_leases m"]) (simp add: pruneExpired_def Let_def)

section \<open>The driver invariant\<close>

text \<open>
  A stored lease is filed under its own resource key, has a positive TTL and expires one TTL after
  it was acquired; a strict lease carries the token its boundary's counter stands at.
\<close>

definition lease_wf :: "string \<Rightarrow> LeaseRecord \<Rightarrow> bool" where
  "lease_wf k l \<longleftrightarrow> lr_ResourceKeys l = [k] \<and> 0 < lr_LeaseTTL l
     \<and> lr_ExpiresAt l = lr_AcquiredAt l + lr_LeaseTTL l"

definition md_inv :: "MemoryDriver \<Rightarrow> bool" where
  "md_inv m \<longleftrightarrow> map_ok (md_leases m)
     \<and> (\<forall>k l. mget (md_leases m) k = Some l \<longrightarrow> lease_wf k l)
     \<and> (\<forall>b s. mget (md_strictLeases m) b = Some s \<longrightarrow>
          mget (md_strictCounters m) b = Some (ss_fencingToken s))"

lemma md_invD:
  assumes "md_inv m"
  shows "map_ok (md_leases m)"
    and "\<And>k l. mget (md_leases m) k = Some l \<Longrightarrow> lease_wf k l"
    and "\<And>b s. mget (md_strictLeases m) b = Some s \<Longrightarrow>
           mget (md_strictCounters m) b = Some (ss_fencingToken s)"
  using assms by (auto simp: md_inv_def)

lemma md_invI:
  assumes "map_ok (md_leases m)"
    and "\<And>k l. mget (md_leases m) k = Some l \<Longrightarrow> lease_wf k l"
    and "\<And>b s. mget (md_strictLeases m) b = Some s \<Longrightarrow>
           mget (md_strictCounters m) b = Some (ss_fencingToken s)"
  shows "md_inv m"
  using assms by (simp add: md_inv_def)

lemma md_inv_New: "md_inv NewMemoryDriver"
  by (simp add: md_inv_def NewMemoryDriver_def)

lemma md_inv_live_wf: "md_inv m \<Longrightarrow> live t m k = Some l \<Longrightarrow> lease_wf k l"
  by (auto simp: live_Some_iff dest: md_invD(2))

lemma pruneExpired_inv:
  assumes "md_inv m"
  shows "md_inv (pruneExpired now m)"
proof (rule md_invI)
  note inv = md_invD[OF assms]
  show "map_ok (md_leases (pruneExpired now m))" by (simp add: inv(1) pruneExpired_leases_ok)
  show "lease_wf k l" if "mget (md_leases (pruneExpired now m)) k = Some l" for k l
    using that inv(1) assms by (auto simp: pruneExpired_leases intro: md_inv_live_wf)
  show "mget (md_strictCounters (pruneExpired now m)) b = Some (ss_fencingToken s)"
    if "mget (md_strictLeases (pruneExpired now m)) b = Some s" for b s
    using inv(3)[OF pruneExpired_strictLeases[OF that]] by simp
qed

text \<open>
  After pruning, the stored leases are exactly the live ones: the second expiry test of every
  operation never fires.
\<close>

lemma pruned_not_expired:
  "md_inv m \<Longrightarrow> mget (md_leases (pruneExpired now m)) k = Some l \<Longrightarrow> \<not> IsExpired l now"
  by (auto simp: pruneExpired_leases md_invD(1) live_Some_iff)

lemma pruned_live:
  assumes "md_inv m" and "now \<le> t"
  shows "live t (pruneExpired now m) = live t m"
  using assms by (intro ext) (simp add: pruneExpired_live md_invD(1))

text \<open>Three ways an operation changes the lease table of a pruned driver.\<close>

lemma md_inv_put:
  assumes "md_inv m" and "lease_wf k l" and "mget (md_leases m') = (mget (md_leases m))(k \<mapsto> l)"
    and "map_ok (md_leases m')" and "md_strictLeases m' = md_strictLeases m"
    and "md_strictCounters m' = md_strictCounters m"
  shows "md_inv m'"
  using assms by (auto simp: md_inv_def split: if_splits)

lemma refresh_wf: "lease_wf k e \<Longrightarrow> lease_wf k (refresh now lease e)"
  by (auto simp: lease_wf_def refresh_def Let_def)

lemma refresh_simps [simp]:
  "lr_OwnerID (refresh now lease e) = lr_OwnerID e"
  "lr_DefinitionID (refresh now lease e) = lr_DefinitionID e"
  "lr_ResourceKeys (refresh now lease e) = lr_ResourceKeys e"
  "lr_AcquiredAt (refresh now lease e) = now"
  by (simp_all add: refresh_def Let_def)

section \<open>The abstract lease table and the refinement\<close>

text \<open>
  What a backend promises, with no pruning, no token counters and no lineage tables: a table of live
  leases. A request of owner \<open>o\<close> at time \<open>t\<close> may leave the table alone, put a fresh lease of
  \<open>o\<close> on a free key, prolong or drop a lease of \<open>o\<close>. Nothing else.
\<close>

inductive table_step ::
  "time \<Rightarrow> string \<Rightarrow> (string \<rightharpoonup> LeaseRecord) \<Rightarrow> (string \<rightharpoonup> LeaseRecord) \<Rightarrow> bool"
where
  idle: "table_step t ow T T"
| grant: "T k = None \<Longrightarrow> lease_wf k l \<Longrightarrow> lr_OwnerID l = ow \<Longrightarrow> lr_AcquiredAt l = t \<Longrightarrow>
    table_step t ow T (T(k \<mapsto> l))"
| prolong: "T k = Some e \<Longrightarrow> lr_OwnerID e = ow \<Longrightarrow> lease_wf k l \<Longrightarrow> lr_OwnerID l = ow \<Longrightarrow>
    lr_DefinitionID l = lr_DefinitionID e \<Longrightarrow> lr_AcquiredAt l = t \<Longrightarrow>
    table_step t ow T (T(k \<mapsto> l))"
| drop: "T k = Some e \<Longrightarrow> lr_OwnerID e = ow \<Longrightarrow> table_step t ow T (T(k := None))"

inductive_cases table_stepE: "table_step t ow T T'"

lemma table_step_foreign:
  "table_step t ow T T' \<Longrightarrow> T k = Some l \<Longrightarrow> lr_OwnerID l \<noteq> ow \<Longrightarrow> T' k = Some l"
  by (auto elim!: table_stepE)

definition op_ok :: "time \<Rightarrow> string \<Rightarrow> MemoryDriver \<Rightarrow> MemoryDriver \<Rightarrow> bool" where
  "op_ok t ow m m' \<longleftrightarrow> md_inv m' \<and> table_step t ow (live t m) (live t m')"

definition strict_ok :: "MemoryDriver \<Rightarrow> bool" where
  "strict_ok m \<longleftrightarrow> (\<forall>b s. mget (md_strictLeases m) b = Some s \<longrightarrow>
     mget (md_strictCounters m) b = Some (ss_fencingToken s))"

lemma strict_ok_pruned: "md_inv m \<Longrightarrow> strict_ok (pruneExpired t m)"
  using pruneExpired_inv[of m t] by (simp add: md_inv_def strict_ok_def)

lemma strict_okD:
  "strict_ok m \<Longrightarrow> mget (md_strictLeases m) b = Some s \<Longrightarrow>
   mget (md_strictCounters m) b = Some (ss_fencingToken s)"
  by (simp add: strict_ok_def)

lemma op_ok_keep: "md_inv m \<Longrightarrow> op_ok t ow m m"
  by (simp add: op_ok_def idle)

lemma op_ok_prune: "md_inv m \<Longrightarrow> op_ok t ow m (pruneExpired t m)"
  by (simp add: op_ok_def pruneExpired_inv pruned_live idle)

lemma lease_wf_live: "lease_wf k l \<Longrightarrow> lr_AcquiredAt l = t \<Longrightarrow> \<not> IsExpired l t"
  by (simp add: lease_wf_def IsExpired_def)

lemma op_ok_put:
  assumes inv: "md_inv m"
    and wf: "lease_wf k l" and own: "lr_OwnerID l = ow" and at: "lr_AcquiredAt l = t"
    and old: "case live t m k of None \<Rightarrow> True
                | Some e \<Rightarrow> lr_OwnerID e = ow \<and> lr_DefinitionID e = lr_DefinitionID l"
    and ls: "md_leases m' = mput k l (md_leases (pruneExpired t m))" and st: "strict_ok m'"
  shows "op_ok t ow m m'"
proof -
  have "md_inv (pruneExpired t m)" using inv by (rule pruneExpired_inv)
  then have "md_inv m'"
    using wf ls st by (auto simp: md_inv_def strict_ok_def split: if_splits)
  moreover have "live t m' = (live t m)(k \<mapsto> l)"
    using wf at pruned_live[OF inv order_refl] by (simp add: live_def ls lease_wf_live)
  moreover have "table_step t ow (live t m) ((live t m)(k \<mapsto> l))"
    using old wf own at by (cases "live t m k") (auto intro: grant prolong)
  ultimately show ?thesis by (simp add: op_ok_def)
qed

lemma op_ok_del:
  assumes inv: "md_inv m" and e: "\<exists>e. live t m k = Some e \<and> lr_OwnerID e = ow"
    and ls: "md_leases m' = mdel k (md_leases (pruneExpired t m))" and st: "strict_ok m'"
  shows "op_ok t ow m m'"
proof -
  have "md_inv (pruneExpired t m)" using inv by (rule pruneExpired_inv)
  then have "md_inv m'"
    using ls st by (auto simp: md_inv_def strict_ok_def split: if_splits)
  moreover have "live t m' = (live t m)(k := None)"
    using pruned_live[OF inv order_refl] by (simp add: live_def ls)
  moreover have "table_step t ow (live t m) ((live t m)(k := None))"
    using e by (auto intro: drop)
  ultimately show ?thesis by (simp add: op_ok_def)
qed

section \<open>The operations seen through the live view\<close>

text \<open>
  Under the invariant each operation is a case distinction on the live lease of its key; the
  branches that test for an expired lease after pruning are never taken.
\<close>

lemma one_key: "length ks = 1 \<Longrightarrow> ks = [ks ! 0]"
  by (cases ks) auto

lemma live_not_expired: "live t m k = Some l \<Longrightarrow> \<not> IsExpired l t"
  by (simp add: live_Some_iff)

lemma pruned_lookup: "md_inv m \<Longrightarrow> mget (md_leases (pruneExpired t m)) k = live t m k"
  by (simp add: pruneExpired_leases md_invD(1))

lemma Acquire_eq:
  assumes "md_inv m"
  shows "MemoryDriver_Acquire ctx now m req =
    (if length (aq_ResourceKeys req) \<noteq> 1 \<or> aq_LeaseTTL req \<le> 0
     then (m, Inl (Sentinel ErrInvalidRequest))
     else case live now m (aq_ResourceKeys req ! 0) of
       Some _ \<Rightarrow> (pruneExpired now m, Inl (Sentinel ErrLeaseAlreadyHeld))
     | None \<Rightarrow>
         let lease = \<lparr>lr_DefinitionID = aq_DefinitionID req, lr_ResourceKeys = aq_ResourceKeys req,
                      lr_OwnerID = aq_OwnerID req, lr_LeaseTTL = aq_LeaseTTL req,
                      lr_AcquiredAt = now, lr_ExpiresAt = now + aq_LeaseTTL req\<rparr>
         in ((pruneExpired now m)\<lparr>md_leases :=
               mput (aq_ResourceKeys req ! 0) lease (md_leases (pruneExpired now m))\<rparr>, Inr lease))"
  using assms by (auto simp: MemoryDriver_Acquire_def pruned_lookup Let_def
      dest: live_not_expired split: option.split)

lemma Renew_eq:
  assumes "md_inv m"
  shows "MemoryDriver_Renew ctx now m lease =
    (if length (lr_ResourceKeys lease) \<noteq> 1 then (m, Inl (Sentinel ErrInvalidRequest))
     else case live now m (lr_ResourceKeys lease ! 0) of
       None \<Rightarrow> (pruneExpired now m, Inl (Sentinel ErrLeaseNotFound))
     | Some e \<Rightarrow>
         if lr_OwnerID e \<noteq> lr_OwnerID lease
         then (pruneExpired now m, Inl (Sentinel ErrLeaseOwnerMismatch))
         else ((pruneExpired now m)\<lparr>md_leases :=
                 mput (lr_ResourceKeys lease ! 0) (refresh now lease e) (md_leases (pruneExpired now m))\<rparr>,
               Inr (refresh now lease e)))"
  using assms by (auto simp: MemoryDriver_Renew_def pruned_lookup Let_def
      dest: live_not_expired split: option.split)

lemma Release_eq:
  assumes "md_inv m"
  shows "MemoryDriver_Release ctx now m lease =
    (if length (lr_ResourceKeys lease) \<noteq> 1 then (m, Some (Sentinel ErrInvalidRequest))
     else case live now m (lr_ResourceKeys lease ! 0) of
       None \<Rightarrow> (pruneExpired now m, Some (Sentinel ErrLeaseNotFound))
     | Some e \<Rightarrow>
         if lr_OwnerID e \<noteq> lr_OwnerID lease
         then (pruneExpired now m, Some (Sentinel ErrLeaseOwnerMismatch))
         else ((pruneExpired now m)\<lparr>md_leases :=
                 mdel (lr_ResourceKeys lease ! 0) (md_leases (pruneExpired now m))\<rparr>, None))"
  using assms by (auto simp: MemoryDriver_Release_def pruned_lookup Let_def split: option.split)

lemma CheckPresence_eq:
  assumes "md_inv m"
  shows "MemoryDriver_CheckPresence ctx now m req =
    (if length (pq_ResourceKeys req) \<noteq> 1 then (m, Inl (Sentinel ErrInvalidRequest))
     else (pruneExpired now m, Inr (case live now m (pq_ResourceKeys req ! 0) of
       None \<Rightarrow> \<lparr>pr_Present = False, pr_DefinitionID = pq_DefinitionID req,
                pr_ResourceKeys = [pq_ResourceKeys req ! 0], pr_Lease = None\<rparr>
     | Some e \<Rightarrow> \<lparr>pr_Present = True, pr_DefinitionID = lr_DefinitionID e,
                  pr_ResourceKeys = lr_ResourceKeys e, pr_Lease = Some e\<rparr>)))"
  using assms by (auto simp: MemoryDriver_CheckPresence_def pruned_lookup Let_def
      dest: live_not_expired split: option.split)

definition next_token :: "MemoryDriver \<Rightarrow> string \<Rightarrow> token" where
  "next_token m b = (case mget (md_strictCounters m) b of Some c \<Rightarrow> c | None \<Rightarrow> 0) + 1"

lemma AcquireStrict_eq:
  assumes "md_inv m"
  shows "MemoryDriver_AcquireStrict ctx now m req =
    (if sq_ResourceKey req = [] \<or> sq_LeaseTTL req \<le> 0 then (m, Inl (Sentinel ErrInvalidRequest))
     else case live now m (sq_ResourceKey req) of
       Some _ \<Rightarrow> (pruneExpired now m, Inl (Sentinel ErrLeaseAlreadyHeld))
     | None \<Rightarrow>
         let lease = \<lparr>lr_DefinitionID = sq_DefinitionID req, lr_ResourceKeys = [sq_ResourceKey req],
                      lr_OwnerID = sq_OwnerID req, lr_LeaseTTL = sq_LeaseTTL req,
                      lr_AcquiredAt = now, lr_ExpiresAt = now + sq_LeaseTTL req\<rparr>;
             b = strictBoundaryKey (sq_DefinitionID req) (sq_ResourceKey req);
             tok = next_token m b; m1 = pruneExpired now m
         in (m1\<lparr>md_leases := mput (sq_ResourceKey req) lease (md_leases m1),
                md_strictCounters := mput b tok (md_strictCounters m),
                md_strictLeases := mput b \<lparr>ss_lease = lease, ss_fencingToken = tok\<rparr> (md_strictLeases m1)\<rparr>,
             Inr \<lparr>fl_Lease = lease, fl_FencingToken = tok\<rparr>))"
  using assms by (auto simp: MemoryDriver_AcquireStrict_def pruned_lookup Let_def next_token_def
      dest: live_not_expired split: option.split)

lemma RenewStrict_eq:
  assumes "md_inv m"
  shows "MemoryDriver_RenewStrict ctx now m lease tok =
    (if length (lr_ResourceKeys lease) \<noteq> 1 then (m, Inl (Sentinel ErrInvalidRequest))
     else let k = lr_ResourceKeys lease ! 0; b = strictBoundaryKey (lr_DefinitionID lease) k;
              m1 = pruneExpired now m
     in case live now m k of
       None \<Rightarrow> (m1, Inl (Sentinel ErrLeaseNotFound))
     | Some e \<Rightarrow>
         if lr_OwnerID e \<noteq> lr_OwnerID lease \<or> lr_DefinitionID e \<noteq> lr_DefinitionID lease
         then (m1, Inl (Sentinel ErrLeaseOwnerMismatch))
         else case mget (md_strictLeases m1) b of
           None \<Rightarrow> (m1, Inl (Sentinel ErrLeaseNotFound))
         | Some s \<Rightarrow>
             if lr_OwnerID (ss_lease s) \<noteq> lr_OwnerID lease \<or> ss_fencingToken s \<noteq> tok
             then (m1, Inl (Sentinel ErrLeaseOwnerMismatch))
             else (m1\<lparr>md_leases := mput k (refresh now lease e) (md_leases m1),
                      md_strictLeases := mput b (s\<lparr>ss_lease := refresh now lease e\<rparr>) (md_strictLeases m1)\<rparr>,
                   Inr \<lparr>fl_Lease = refresh now lease e, fl_FencingToken = tok\<rparr>))"
  using assms by (auto simp: MemoryDriver_RenewStrict_def pruned_lookup Let_def
      dest: live_not_expired split: option.split)

lemma ReleaseStrict_eq:
  assumes "md_inv m"
  shows "MemoryDriver_ReleaseStrict ctx now m lease tok =
    (if length (lr_ResourceKeys lease) \<noteq> 1 then (m, Some (Sentinel ErrInvalidRequest))
     else let k = lr_ResourceKeys lease ! 0; b = strictBoundaryKey (lr_DefinitionID lease) k;
              m1 = pruneExpired now m
     in case live now m k of
       None \<Rightarrow> (m1, Some (Sentinel ErrLeaseNotFound))
     | Some e \<Rightarrow>
         if lr_OwnerID e \<noteq> lr_OwnerID lease \<or> lr_DefinitionID e \<noteq> lr_DefinitionID lease
         then (m1, Some (Sentinel ErrLeaseOwnerMismatch))
         else case mget (md_strictLeases m1) b of
           None \<Rightarrow> (m1, Some (Sentinel ErrLeaseNotFound))
         | Some s \<Rightarrow>
             if lr_OwnerID (ss_lease s) \<noteq> lr_OwnerID lease \<or> ss_fencingToken s \<noteq> tok
             then (m1, Some (Sentinel ErrLeaseOwnerMismatch))
             else (m1\<lparr>md_leases := mdel k (md_leases m1), md_strictLeases := mdel b (md_strictLeases m1)\<rparr>,
                   None))"
  using assms by (auto simp: MemoryDriver_ReleaseStrict_def pruned_lookup Let_def split: option.split)

lemmas standard_eqs = Acquire_eq Renew_eq Release_eq CheckPresence_eq
lemmas strict_eqs = AcquireStrict_eq RenewStrict_eq ReleaseStrict_eq

text \<open>The conflict test of a lineage acquire, on the live view.\<close>

definition live_members :: "time \<Rightarrow> MemoryDriver \<Rightarrow> AncestorKey \<Rightarrow> bool" where
  "live_members t m a = (case mget (md_descendantsByAncestor m) (formatAncestorKey a) of
     None \<Rightarrow> False | Some ms \<Rightarrow> list_ex (\<lambda>(_, expireAt). t < expireAt) ms)"

lemma rejectLineageConflict_eq:
  assumes "md_inv m"
  shows "rejectLineageConflict now (pruneExpired now m) req =
    (if live now m (lq_ResourceKey req) \<noteq> None then Some (Sentinel ErrLeaseAlreadyHeld)
     else if lm_Kind (lq_Lineage req) = KindParent \<and>
             live_members now (pruneExpired now m)
               \<lparr>ak_DefinitionID = lq_DefinitionID req, ak_ResourceKey = lq_ResourceKey req\<rparr>
     then Some (Sentinel ErrOverlapRejected)
     else if lm_Kind (lq_Lineage req) = KindChild \<and>
             (\<exists>a\<in>set (lm_AncestorKeys (lq_Lineage req)). live now m (ak_ResourceKey a) \<noteq> None)
     then Some (Sentinel ErrOverlapRejected)
     else None)"
proof -
  have "(case live now m k of None \<Rightarrow> False | Some e \<Rightarrow> \<not> IsExpired e now) \<longleftrightarrow> live now m k \<noteq> None" for k
    by (auto split: option.splits dest: live_not_expired)
  then show ?thesis using assms
    by (auto simp: rejectLineageConflict_def pruned_lookup Let_def live_members_def list_ex_iff
        split: LockKind.splits option.splits)
qed

lemma AcquireWithLineage_eq:
  assumes "md_inv m"
  shows "MemoryDriver_AcquireWithLineage ctx now m req =
    (if lq_ResourceKey req = [] \<or> lq_LeaseTTL req \<le> 0 \<or> lm_LeaseID (lq_Lineage req) = []
     then (m, Inl (Sentinel ErrInvalidRequest))
     else case rejectLineageConflict now (pruneExpired now m) req of
       Some err \<Rightarrow> (pruneExpired now m, Inl err)
     | None \<Rightarrow>
         let lease = \<lparr>lr_DefinitionID = lq_DefinitionID req, lr_ResourceKeys = [lq_ResourceKey req],
                      lr_OwnerID = lq_OwnerID req, lr_LeaseTTL = lq_LeaseTTL req,
                      lr_AcquiredAt = now, lr_ExpiresAt = now + lq_LeaseTTL req\<rparr>
         in (storeLeaseAndMembership lease (lq_Lineage req) (pruneExpired now m), Inr lease))"
  by (auto simp: MemoryDriver_AcquireWithLineage_def Let_def split: option.split)

lemma RenewWithLineage_eq:
  assumes "md_inv m"
  shows "MemoryDriver_RenewWithLineage ctx now m lease lin =
    (if length (lr_ResourceKeys lease) \<noteq> 1 \<or> lm_LeaseID lin = []
     then (m, Inl (Sentinel ErrInvalidRequest))
     else let k = lr_ResourceKeys lease ! 0; m1 = pruneExpired now m; e' = refresh now lease
     in case live now m k of
       None \<Rightarrow> (m1, Inl (Sentinel ErrLeaseNotFound))
     | Some e \<Rightarrow>
         if lr_OwnerID e \<noteq> lr_OwnerID lease then (m1, Inl (Sentinel ErrLeaseOwnerMismatch))
         else case mget (md_lineageLeases m1) (lm_LeaseID lin) of
           None \<Rightarrow> (m1, Inl (Sentinel ErrLeaseExpired))
         | Some st \<Rightarrow>
             if \<exists>a\<in>set (lm_AncestorKeys lin). \<not> is_member (md_descendantsByAncestor m1) (lm_LeaseID lin) a
             then (m1, Inl (Sentinel ErrLeaseExpired))
             else (m1\<lparr>md_leases := mput k (e' e) (md_leases m1),
                      md_lineageLeases := mput (lm_LeaseID lin)
                        (st\<lparr>ls_lease := e' e, ls_expireAt := lr_ExpiresAt (e' e)\<rparr>) (md_lineageLeases m1),
                      md_descendantsByAncestor :=
                        fold (touch_member (lm_LeaseID lin) (lr_ExpiresAt (e' e))) (lm_AncestorKeys lin)
                          (md_descendantsByAncestor m1)\<rparr>, Inr (e' e, lin)))"
  using assms by (auto simp: MemoryDriver_RenewWithLineage_def pruned_lookup Let_def list_ex_iff
      dest: live_not_expired split: option.split)

lemma ReleaseWithLineage_eq:
  assumes "md_inv m"
  shows "MemoryDriver_ReleaseWithLineage ctx now m lease lin =
    (if length (lr_ResourceKeys lease) \<noteq> 1 \<or> lm_LeaseID lin = []
     then (m, Some (Sentinel ErrInvalidRequest))
     else let k = lr_ResourceKeys lease ! 0; m1 = pruneExpired now m
     in case live now m k of
       None \<Rightarrow> (m1, Some (Sentinel ErrLeaseNotFound))
     | Some e \<Rightarrow>
         if lr_OwnerID e \<noteq> lr_OwnerID lease then (m1, Some (Sentinel ErrLeaseOwnerMismatch))
         else (m1\<lparr>md_leases := mdel k (md_leases m1),
                  md_lineageLeases := mdel (lm_LeaseID lin) (md_lineageLeases m1),
                  md_descendantsByAncestor :=
                    fold (remove_member (lm_LeaseID lin)) (lm_AncestorKeys lin)
                      (md_descendantsByAncestor m1)\<rparr>, None))"
  using assms by (auto simp: MemoryDriver_ReleaseWithLineage_def pruned_lookup Let_def split: option.split)

lemmas lineage_eqs = AcquireWithLineage_eq RenewWithLineage_eq ReleaseWithLineage_eq

subsection \<open>Every operation refines the lease table\<close>

lemma Acquire_ok:
  assumes "md_inv m"
  shows "op_ok now (aq_OwnerID req) m (fst (MemoryDriver_Acquire ctx now m req))"
proof (cases "length (aq_ResourceKeys req) \<noteq> 1 \<or> aq_LeaseTTL req \<le> 0 \<or> live now m (aq_ResourceKeys req ! 0) \<noteq> None")
  case True
  then show ?thesis using assms by (auto simp: Acquire_eq op_ok_keep op_ok_prune split: option.split)
next
  case False
  show ?thesis
    using False assms one_key[of "aq_ResourceKeys req"] strict_ok_pruned[OF assms, of now]
    by (intro op_ok_put) (auto simp: Acquire_eq Let_def lease_wf_def strict_ok_def)
qed

lemma Renew_ok:
  assumes "md_inv m"
  shows "op_ok now (lr_OwnerID lease) m (fst (MemoryDriver_Renew ctx now m lease))"
proof (cases "\<exists>e. length (lr_ResourceKeys lease) = 1 \<and> live now m (lr_ResourceKeys lease ! 0) = Some e
    \<and> lr_OwnerID e = lr_OwnerID lease")
  case False
  then show ?thesis using assms by (auto simp: Renew_eq op_ok_keep op_ok_prune split: option.split)
next
  case True
  then obtain e where e: "length (lr_ResourceKeys lease) = 1"
      "live now m (lr_ResourceKeys lease ! 0) = Some e" "lr_OwnerID e = lr_OwnerID lease" by blast
  show ?thesis
    using e assms refresh_wf[OF md_inv_live_wf[OF assms e(2)], of now lease] strict_ok_pruned[OF assms, of now]
    by (intro op_ok_put) (auto simp: Renew_eq strict_ok_def)
qed

lemma Release_ok:
  assumes "md_inv m"
  shows "op_ok now (lr_OwnerID lease) m (fst (MemoryDriver_Release ctx now m lease))"
proof (cases "\<exists>e. length (lr_ResourceKeys lease) = 1 \<and> live now m (lr_ResourceKeys lease ! 0) = Some e
    \<and> lr_OwnerID e = lr_OwnerID lease")
  case False
  then show ?thesis using assms by (auto simp: Release_eq op_ok_keep op_ok_prune split: option.split)
next
  case True
  then show ?thesis
    using assms strict_ok_pruned[OF assms, of now]
    by (intro op_ok_del) (auto simp: Release_eq strict_ok_def)
qed

lemma CheckPresence_ok:
  "md_inv m \<Longrightarrow> op_ok now ow m (fst (MemoryDriver_CheckPresence ctx now m req))"
  by (simp add: CheckPresence_eq op_ok_keep op_ok_prune)

lemma AcquireStrict_ok:
  assumes "md_inv m"
  shows "op_ok now (sq_OwnerID req) m (fst (MemoryDriver_AcquireStrict ctx now m req))"
proof (cases "sq_ResourceKey req = [] \<or> sq_LeaseTTL req \<le> 0 \<or> live now m (sq_ResourceKey req) \<noteq> None")
  case True
  then show ?thesis using assms by (auto simp: AcquireStrict_eq op_ok_keep op_ok_prune split: option.split)
next
  case False
  show ?thesis
    using False assms strict_ok_pruned[OF assms, of now]
    by (intro op_ok_put) (auto simp: AcquireStrict_eq Let_def lease_wf_def strict_ok_def)
qed

lemma RenewStrict_ok:
  assumes "md_inv m"
  shows "op_ok now (lr_OwnerID lease) m (fst (MemoryDriver_RenewStrict ctx now m lease tok))"
proof (cases "\<exists>e s. length (lr_ResourceKeys lease) = 1 \<and> live now m (lr_ResourceKeys lease ! 0) = Some e
    \<and> lr_OwnerID e = lr_OwnerID lease \<and> lr_DefinitionID e = lr_DefinitionID lease
    \<and> mget (md_strictLeases (pruneExpired now m))
        (strictBoundaryKey (lr_DefinitionID lease) (lr_ResourceKeys lease ! 0)) = Some s
    \<and> lr_OwnerID (ss_lease s) = lr_OwnerID lease \<and> ss_fencingToken s = tok")
  case False
  then show ?thesis using assms
    by (auto simp: RenewStrict_eq Let_def op_ok_keep op_ok_prune split: option.split)
next
  case True
  then obtain e s where e: "length (lr_ResourceKeys lease) = 1"
      "live now m (lr_ResourceKeys lease ! 0) = Some e" "lr_OwnerID e = lr_OwnerID lease"
      "lr_DefinitionID e = lr_DefinitionID lease"
    and s: "mget (md_strictLeases (pruneExpired now m))
        (strictBoundaryKey (lr_DefinitionID lease) (lr_ResourceKeys lease ! 0)) = Some s"
      "lr_OwnerID (ss_lease s) = lr_OwnerID lease" "ss_fencingToken s = tok" by blast
  show ?thesis
    using e s assms refresh_wf[OF md_inv_live_wf[OF assms e(2)], of now lease] strict_ok_pruned[OF assms, of now]
    by (intro op_ok_put) (auto simp: RenewStrict_eq Let_def strict_ok_def)
qed

lemma ReleaseStrict_ok:
  assumes "md_inv m"
  shows "op_ok now (lr_OwnerID lease) m (fst (MemoryDriver_ReleaseStrict ctx now m lease tok))"
proof (cases "\<exists>e s. length (lr_ResourceKeys lease) = 1 \<and> live now m (lr_ResourceKeys lease ! 0) = Some e
    \<and> lr_OwnerID e = lr_OwnerID lease \<and> lr_DefinitionID e = lr_DefinitionID lease
    \<and> mget (md_strictLeases (pruneExpired now m))
        (strictBoundaryKey (lr_DefinitionID lease) (lr_ResourceKeys lease ! 0)) = Some s
    \<and> lr_OwnerID (ss_lease s) = lr_OwnerID lease \<and> ss_fencingToken s = tok")
  case False
  then show ?thesis using assms
    by (auto simp: ReleaseStrict_eq Let_def op_ok_keep op_ok_prune split: option.split)
next
  case True
  then show ?thesis
    using assms strict_ok_pruned[OF assms, of now]
    by (intro op_ok_del) (auto simp: ReleaseStrict_eq Let_def strict_ok_def split: if_splits)
qed

lemma AcquireWithLineage_ok:
  assumes "md_inv m"
  shows "op_ok now (lq_OwnerID req) m (fst (MemoryDriver_AcquireWithLineage ctx now m req))"
proof (cases "lq_ResourceKey req = [] \<or> lq_LeaseTTL req \<le> 0 \<or> lm_LeaseID (lq_Lineage req) = []
    \<or> rejectLineageConflict now (pruneExpired now m) req \<noteq> None")
  case True
  then show ?thesis using assms
    by (auto simp: AcquireWithLineage_eq op_ok_keep op_ok_prune split: option.split)
next
  case False
  then have "live now m (lq_ResourceKey req) = None"
    using assms by (auto simp: rejectLineageConflict_eq split: if_splits)
  then show ?thesis
    using False assms strict_ok_pruned[OF assms, of now]
    by (intro op_ok_put)
      (auto simp: AcquireWithLineage_eq storeLeaseAndMembership_def Let_def lease_wf_def strict_ok_def)
qed

lemma RenewWithLineage_ok:
  assumes "md_inv m"
  shows "op_ok now (lr_OwnerID lease) m (fst (MemoryDriver_RenewWithLineage ctx now m lease lin))"
proof (cases "\<exists>e st. length (lr_ResourceKeys lease) = 1 \<and> lm_LeaseID lin \<noteq> []
    \<and> live now m (lr_ResourceKeys lease ! 0) = Some e \<and> lr_OwnerID e = lr_OwnerID lease
    \<and> mget (md_lineageLeases (pruneExpired now m)) (lm_LeaseID lin) = Some st
    \<and> (\<forall>a\<in>set (lm_AncestorKeys lin).
          is_member (md_descendantsByAncestor (pruneExpired now m)) (lm_LeaseID lin) a)")
  case False
  then show ?thesis using assms
    by (auto simp: RenewWithLineage_eq Let_def op_ok_keep op_ok_prune split: option.split)
next
  case True
  then obtain e st where e: "length (lr_ResourceKeys lease) = 1" "lm_LeaseID lin \<noteq> []"
      "live now m (lr_ResourceKeys lease ! 0) = Some e" "lr_OwnerID e = lr_OwnerID lease"
      "mget (md_lineageLeases (pruneExpired now m)) (lm_LeaseID lin) = Some st"
      "\<forall>a\<in>set (lm_AncestorKeys lin).
          is_member (md_descendantsByAncestor (pruneExpired now m)) (lm_LeaseID lin) a" by blast
  show ?thesis
    using e assms refresh_wf[OF md_inv_live_wf[OF assms e(3)], of now lease] strict_ok_pruned[OF assms, of now]
    by (intro op_ok_put) (auto simp: RenewWithLineage_eq Let_def strict_ok_def)
qed

lemma ReleaseWithLineage_ok:
  assumes "md_inv m"
  shows "op_ok now (lr_OwnerID lease) m (fst (MemoryDriver_ReleaseWithLineage ctx now m lease lin))"
proof (cases "\<exists>e. length (lr_ResourceKeys lease) = 1 \<and> lm_LeaseID lin \<noteq> []
    \<and> live now m (lr_ResourceKeys lease ! 0) = Some e \<and> lr_OwnerID e = lr_OwnerID lease")
  case False
  then show ?thesis using assms
    by (auto simp: ReleaseWithLineage_eq Let_def op_ok_keep op_ok_prune split: option.split)
next
  case True
  then show ?thesis
    using assms strict_ok_pruned[OF assms, of now]
    by (intro op_ok_del) (auto simp: ReleaseWithLineage_eq Let_def strict_ok_def)
qed

section \<open>Runs of operations\<close>

datatype mem_op =
    OpAcquire AcquireRequest | OpRenew LeaseRecord | OpRelease LeaseRecord
  | OpCheckPresence PresenceRequest | OpPing
  | OpAcquireStrict StrictAcquireRequest | OpRenewStrict LeaseRecord token
  | OpReleaseStrict LeaseRecord token
  | OpAcquireWithLineage LineageAcquireRequest | OpRenewWithLineage LeaseRecord LineageLeaseMeta
  | OpReleaseWithLineage LeaseRecord LineageLeaseMeta

text \<open>The error a call reports, for any of the methods.\<close>

definition err_of :: "'a result \<Rightarrow> go_err" where
  "err_of r = (case r of Inl e \<Rightarrow> Some e | Inr _ \<Rightarrow> None)"

fun mem_exec :: "time \<Rightarrow> mem_op \<Rightarrow> MemoryDriver \<Rightarrow> MemoryDriver \<times> go_err" where
  "mem_exec t (OpAcquire req) m = map_prod id err_of (MemoryDriver_Acquire background t m req)"
| "mem_exec t (OpRenew l) m = map_prod id err_of (MemoryDriver_Renew background t m l)"
| "mem_exec t (OpRelease l) m = MemoryDriver_Release background t m l"
| "mem_exec t (OpCheckPresence req) m = map_prod id err_of (MemoryDriver_CheckPresence background t m req)"
| "mem_exec t OpPing m = MemoryDriver_Ping background t m"
| "mem_exec t (OpAcquireStrict req) m = map_prod id err_of (MemoryDriver_AcquireStrict background t m req)"
| "mem_exec t (OpRenewStrict l tok) m = map_prod id err_of (MemoryDriver_RenewStrict background t m l tok)"
| "mem_exec t (OpReleaseStrict l tok) m = MemoryDriver_ReleaseStrict background t m l tok"
| "mem_exec t (OpAcquireWithLineage req) m =
     map_prod id err_of (MemoryDriver_AcquireWithLineage background t m req)"
| "mem_exec t (OpRenewWithLineage l lin) m =
     map_prod id err_of (MemoryDriver_RenewWithLineage background t m l lin)"
| "mem_exec t (OpReleaseWithLineage l lin) m = MemoryDriver_ReleaseWithLineage background t m l lin"

fun op_owner :: "mem_op \<Rightarrow> string" where
  "op_owner (OpAcquire req) = aq_OwnerID req"
| "op_owner (OpAcquireStrict req) = sq_OwnerID req"
| "op_owner (OpAcquireWithLineage req) = lq_OwnerID req"
| "op_owner (OpRenew l) = lr_OwnerID l"
| "op_owner (OpRelease l) = lr_OwnerID l"
| "op_owner (OpRenewStrict l _) = lr_OwnerID l"
| "op_owner (OpReleaseStrict l _) = lr_OwnerID l"
| "op_owner (OpRenewWithLineage l _) = lr_OwnerID l"
| "op_owner (OpReleaseWithLineage l _) = lr_OwnerID l"
| "op_owner (OpCheckPresence _) = []"
| "op_owner OpPing = []"

fun mem_run :: "(time \<times> mem_op) list \<Rightarrow> MemoryDriver \<Rightarrow> MemoryDriver" where
  "mem_run [] m = m"
| "mem_run ((t, x) # xs) m = mem_run xs (fst (mem_exec t x m))"

lemma mem_exec_ok:
  assumes "md_inv m"
  shows "op_ok t (op_owner x) m (fst (mem_exec t x m))"
  using assms by (cases x)
    (simp_all add: Acquire_ok Renew_ok Release_ok CheckPresence_ok AcquireStrict_ok RenewStrict_ok
      ReleaseStrict_ok AcquireWithLineage_ok RenewWithLineage_ok ReleaseWithLineage_ok
      MemoryDriver_Ping_def op_ok_keep)

lemma mem_exec_inv: "md_inv m \<Longrightarrow> md_inv (fst (mem_exec t x m))"
  using mem_exec_ok by (simp add: op_ok_def)

lemma mem_run_inv: "md_inv m \<Longrightarrow> md_inv (mem_run xs m)"
  by (induction xs m rule: mem_run.induct) (simp_all add: mem_exec_inv)

text \<open>A live lease survives the requests of other owners.\<close>

lemma mem_exec_foreign:
  assumes "md_inv m" and "live t m k = Some l" and "op_owner x \<noteq> lr_OwnerID l"
  shows "mget (md_leases (fst (mem_exec t x m))) k = Some l"
  using mem_exec_ok[OF assms(1), of t x] assms(2,3)
  by (auto simp: op_ok_def live_Some_iff dest: table_step_foreign)

lemma mem_run_foreign:
  assumes "md_inv m" and "mget (md_leases m) k = Some l"
    and "\<forall>(t, x) \<in> set xs. op_owner x \<noteq> lr_OwnerID l \<and> t \<le> lr_ExpiresAt l"
  shows "mget (md_leases (mem_run xs m)) k = Some l"
  using assms
proof (induction xs m rule: mem_run.induct)
  case (2 t x xs m)
  from 2 have "live t m k = Some l" and "op_owner x \<noteq> lr_OwnerID l"
    by (auto simp: live_Some_iff IsExpired_def lease_wf_def dest: md_invD(2))
  with 2 show ?case by (simp add: mem_exec_inv mem_exec_foreign)
qed simp

section \<open>The in-memory backend meets the engine's contract\<close>

text \<open>The slot of a resource is its key: the driver does not separate definitions.\<close>

definition mem_slot :: "string \<Rightarrow> string \<Rightarrow> string" where
  "mem_slot d k = k"

definition mem_holds :: "time \<Rightarrow> MemoryDriver \<Rightarrow> string \<Rightarrow> string option" where
  "mem_holds t m k = map_option lr_OwnerID (live t m k)"

lemma mem_untouched_refl: "untouched mem_holds t m m"
  by (simp add: untouched_def)

lemma mem_untouched_prune: "md_inv m \<Longrightarrow> untouched mem_holds t m (pruneExpired t m)"
  by (auto simp: untouched_def mem_holds_def fun_eq_iff pruned_live)

lemma mem_granted_put:
  assumes "md_inv m" and "live t m k = None" and "lease_wf k l" and "lr_AcquiredAt l = t"
    and "md_leases m' = mput k l (md_leases (pruneExpired t m))"
  shows "granted mem_slot mem_holds t m m' (lr_DefinitionID l) [k] (lr_OwnerID l) l"
proof -
  have "live t' m' = (live t' m)(k := if IsExpired l t' then None else Some l)" if "t \<le> t'" for t'
    using pruned_live[OF assms(1) that] by (simp add: live_def assms(5))
  then show ?thesis using assms(2-4) lease_wf_live[OF assms(3,4)]
    by (auto simp: granted_def mem_slot_def mem_holds_def lease_wf_def)
qed

lemma mem_released_del:
  assumes "md_inv m" and "\<exists>e. live t m k = Some e \<and> lr_OwnerID e = lr_OwnerID l" and "lr_ResourceKeys l = [k]"
    and "md_leases m' = mdel k (md_leases (pruneExpired t m))"
  shows "released mem_slot mem_holds t m m' l"
proof -
  have "live t' m' = (live t' m)(k := None)" if "t \<le> t'" for t'
    using pruned_live[OF assms(1) that] by (simp add: live_def assms(4))
  then show ?thesis using assms(2,3)
    by (auto simp: released_def mem_slot_def mem_holds_def)
qed

lemmas mem_contract_intros = mem_untouched_refl mem_untouched_prune

text \<open>What the driver records about the lease on a key: the lease, and the strict lease with its token.\<close>

definition mem_entry :: "MemoryDriver \<Rightarrow> string \<Rightarrow> string \<Rightarrow> LeaseRecord option \<times> strictLeaseState option" where
  "mem_entry m d k = (mget (md_leases m) k, mget (md_strictLeases m) (strictBoundaryKey d k))"

text \<open>
  The boundary key of a strict lease joins definition and key with a NUL byte: without NUL bytes in
  either, no other pair has the same boundary key.
\<close>

definition mem_separable :: "string \<Rightarrow> string \<Rightarrow> bool" where
  "mem_separable d k \<longleftrightarrow> CHR 0x00 \<notin> set d \<and> CHR 0x00 \<notin> set k"

lemma strictBoundaryKey_separable:
  assumes "mem_separable d k" and "strictBoundaryKey d' k' = strictBoundaryKey d k"
  shows "d' = d \<and> k' = k"
proof -
  have none: "filter (\<lambda>c. c = CHR 0x00) xs = [] \<longleftrightarrow> CHR 0x00 \<notin> set xs" for xs :: string
    by (auto simp: filter_empty_conv)
  have "filter (\<lambda>c. c = CHR 0x00) (strictBoundaryKey d' k') = [CHR 0x00]"
    unfolding assms(2) using assms(1) none[THEN iffD2] by (simp add: strictBoundaryKey_def mem_separable_def)
  then have "CHR 0x00 \<notin> set d'" using none
    by (auto simp: strictBoundaryKey_def append_eq_Cons_conv)
  moreover have "takeWhile (\<lambda>c. c \<noteq> CHR 0x00) (x @ [CHR 0x00] @ y) = x" if "CHR 0x00 \<notin> set x" for x y :: string
    using that by (induction x) auto
  ultimately show ?thesis using assms by (metis mem_separable_def strictBoundaryKey_def same_append_eq)
qed

lemma fold_prune_lease_keeps_strict:
  "\<forall>(k', l') \<in> set xs. IsExpired l' now \<longrightarrow> strictBoundaryKey (lr_DefinitionID l') k' \<noteq> b \<Longrightarrow>
   mget (md_strictLeases (fold (prune_lease now) xs m)) b = mget (md_strictLeases m) b"
  by (induction xs arbitrary: m) (auto simp: prune_lease_def)

lemma pruneExpired_keeps_strict:
  assumes "md_inv m" and "live now m k = Some l" and "lr_DefinitionID l = d" and "mem_separable d k"
  shows "mget (md_strictLeases (pruneExpired now m)) (strictBoundaryKey d k)
    = mget (md_strictLeases m) (strictBoundaryKey d k)"
proof -
  have "strictBoundaryKey (lr_DefinitionID l') k' \<noteq> strictBoundaryKey d k"
    if "(k', l') \<in> set (md_leases m)" "IsExpired l' now" for k' l'
  proof
    assume "strictBoundaryKey (lr_DefinitionID l') k' = strictBoundaryKey d k"
    from strictBoundaryKey_separable[OF assms(4) this] have "k' = k" by simp
    moreover have "mget (md_leases m) k' = Some l'"
      using that(1) md_invD(1)[OF assms(1)] by simp
    ultimately show False using that(2) assms(2) by (auto simp: live_def view_def)
  qed
  then show ?thesis
    by (auto simp: pruneExpired_def Let_def intro!: fold_prune_lease_keeps_strict)
qed

interpretation mem: steady_driver memory_driver md_inv mem_slot mem_holds mem_entry mem_separable
proof (unfold_locales, goal_cases)
  case (1 s t' x ow t)
  then show ?case by (auto simp: mem_holds_def dest: live_later)
next
  case (2 s c t rq s' r)
  then show ?case using Acquire_ok[of s t rq c] by (simp add: memory_driver_def op_ok_def)
next
  case (3 s c t rq s' l)
  then show ?case using one_key[of "aq_ResourceKeys rq"] mem_granted_put[of s t "aq_ResourceKeys rq ! 0" l s']
    by (auto simp: memory_driver_def Acquire_eq Let_def lease_wf_def split: if_splits option.splits)
next
  case (4 s c t rq s' e)
  then show ?case using mem_contract_intros
    by (auto simp: memory_driver_def Acquire_eq Let_def split: if_splits option.splits)
next
  case (5 s c t l s' r)
  then show ?case using Release_ok[of s t l c] by (simp add: memory_driver_def op_ok_def)
next
  case (6 s c t l s')
  then show ?case using one_key[of "lr_ResourceKeys l"]
    by (intro mem_released_del[of s t "lr_ResourceKeys l ! 0" l s'])
      (auto simp: memory_driver_def Release_eq split: if_splits option.splits)
next
  case (7 s c t l s' e)
  then show ?case using mem_contract_intros
    by (auto simp: memory_driver_def Release_eq split: if_splits option.splits)
next
  case (8 s c t pq s' r)
  then show ?case using CheckPresence_ok[of s t "[]" c pq] by (simp add: memory_driver_def op_ok_def)
next
  case (9 s c t pq s' r)
  then show ?case using mem_contract_intros
    by (auto simp: memory_driver_def CheckPresence_eq split: if_splits)
next
  case (10 s S c t sq s' r)
  then show ?case using AcquireStrict_ok[of s t sq c]
    by (auto simp: memory_driver_def memory_strict_def op_ok_def)
next
  case (11 s S c t sq s' f)
  then show ?case using mem_granted_put[of s t "sq_ResourceKey sq" "fl_Lease f" s']
    by (auto simp: memory_driver_def memory_strict_def AcquireStrict_eq Let_def lease_wf_def
        split: if_splits option.splits)
next
  case (12 s S c t sq s' e)
  then show ?case using mem_contract_intros
    by (auto simp: memory_driver_def memory_strict_def AcquireStrict_eq Let_def split: if_splits option.splits)
next
  case (13 s S c t l tok s' r)
  then show ?case using ReleaseStrict_ok[of s t l c tok]
    by (auto simp: memory_driver_def memory_strict_def op_ok_def)
next
  case (14 s S c t l tok s')
  then show ?case using one_key[of "lr_ResourceKeys l"]
    by (intro mem_released_del[of s t "lr_ResourceKeys l ! 0" l s'])
      (auto simp: memory_driver_def memory_strict_def ReleaseStrict_eq Let_def split: if_splits option.splits)
next
  case (15 s S c t l tok s' e)
  then show ?case using mem_contract_intros
    by (auto simp: memory_driver_def memory_strict_def ReleaseStrict_eq Let_def split: if_splits option.splits)
next
  case (16 s L c t lq s' r)
  then show ?case using AcquireWithLineage_ok[of s t lq c]
    by (auto simp: memory_driver_def memory_lineage_def op_ok_def)
next
  case (17 s L c t lq s' l)
  then show ?case using mem_granted_put[of s t "lq_ResourceKey lq" l s']
    by (auto simp: memory_driver_def memory_lineage_def AcquireWithLineage_eq rejectLineageConflict_eq
        storeLeaseAndMembership_def Let_def lease_wf_def split: if_splits option.splits)
next
  case (18 s L c t lq s' e)
  then show ?case using mem_contract_intros
    by (auto simp: memory_driver_def memory_lineage_def AcquireWithLineage_eq Let_def split: if_splits option.splits)
next
  case (19 s L c t l meta s' r)
  then show ?case using ReleaseWithLineage_ok[of s t l c meta]
    by (auto simp: memory_driver_def memory_lineage_def op_ok_def)
next
  case (20 s L c t l meta s')
  then show ?case using one_key[of "lr_ResourceKeys l"]
    by (intro mem_released_del[of s t "lr_ResourceKeys l ! 0" l s'])
      (auto simp: memory_driver_def memory_lineage_def ReleaseWithLineage_eq Let_def split: if_splits option.splits)
next
  case (21 s L c t l meta s' e)
  then show ?case using mem_contract_intros
    by (auto simp: memory_driver_def memory_lineage_def ReleaseWithLineage_eq Let_def split: if_splits option.splits)
next
  case (22 s c t l s' e k)
  then show ?case
    by (auto simp: memory_driver_def Release_eq mem_holds_def mem_slot_def split: if_splits option.splits)
next
  case (23 s rq k t c)
  then show ?case by (auto simp: memory_driver_def Acquire_eq Let_def mem_holds_def mem_slot_def)
next
  case (24 s rq k t c)
  then show ?case by (auto simp: memory_driver_def Acquire_eq mem_holds_def mem_slot_def)
next
  case (25 s c t rq s' l k t')
  then show ?case
    by (auto simp: memory_driver_def Acquire_eq Let_def mem_holds_def mem_slot_def live_def[of t'] IsExpired_def
        split: if_splits option.splits)
next
  case (26 d k k')
  then show ?case by (simp add: mem_slot_def)
next
  case (27 s S c t sq s' f t')
  then show ?case
    by (auto simp: memory_driver_def memory_strict_def AcquireStrict_eq Let_def mem_holds_def mem_slot_def
        live_def[of t'] IsExpired_def split: if_splits option.splits)
next
  case (28 s L c t lq s' l t')
  then show ?case
    by (auto simp: memory_driver_def memory_lineage_def AcquireWithLineage_eq storeLeaseAndMembership_def Let_def
        mem_holds_def mem_slot_def live_def[of t'] IsExpired_def split: if_splits option.splits)
next
  case (29 s S c t sq s' f s2 c' t' s3 e)
  let ?d = "sq_DefinitionID sq" and ?k = "sq_ResourceKey sq"
  have S: "S = memory_strict" using 29(2) by (simp add: memory_driver_def)
  have a: "mget (md_leases s2) ?k = Some (fl_Lease f)" "lr_ResourceKeys (fl_Lease f) = [?k]"
    "mget (md_strictLeases s2) (strictBoundaryKey ?d ?k) =
        Some \<lparr>ss_lease = fl_Lease f, ss_fencingToken = fl_FencingToken f\<rparr>"
    "lr_DefinitionID (fl_Lease f) = ?d" "lr_OwnerID (fl_Lease f) = sq_OwnerID sq"
    using 29(1,3,6) unfolding S
    by (auto simp: memory_strict_def AcquireStrict_eq Let_def mem_entry_def split: if_splits option.splits)
  show ?case
  proof
    assume "mem_holds t' s2 (mem_slot ?d ?k) = Some (sq_OwnerID sq)"
    then have l: "live t' s2 ?k = Some (fl_Lease f)"
      using a(1) by (auto simp: mem_holds_def mem_slot_def live_def view_def split: if_splits)
    from pruneExpired_keeps_strict[OF 29(4) this a(4) 29(5)] show False
      using 29(4,7) l a unfolding S by (simp add: memory_strict_def ReleaseStrict_eq Let_def)
  qed
next
  case (30 s L c t lq s' l s2 c' t' s3 e)
  then show ?case
    by (auto simp: memory_driver_def memory_lineage_def AcquireWithLineage_eq ReleaseWithLineage_eq Let_def
        mem_holds_def mem_slot_def split: if_splits option.splits)
qed

end
