(* ===== verification/Memory_Runs.thy ===== *)
theory Memory_Runs
  imports Memory_Driver
begin

text \<open>
  What the in-memory backend guarantees over whole runs: exclusive leases, fencing tokens, and the
  protection of ancestors and descendants. The theorems are stated on the methods of
  \<^verbatim>\<open>src/backend/memory/driver.go\<close>, from any state that satisfies the driver invariant; every state
  reached from \<open>NewMemoryDriver\<close> does.
\<close>

section \<open>Fencing tokens over runs\<close>

definition counter :: "MemoryDriver \<Rightarrow> string \<Rightarrow> token" where
  "counter m b = (case mget (md_strictCounters m) b of Some c \<Rightarrow> c | None \<Rightarrow> 0)"

lemma next_token_counter: "next_token m b = counter m b + 1"
  by (simp add: next_token_def counter_def)

lemma mem_exec_counter:
  assumes "md_inv m"
  shows "counter (fst (mem_exec t x m)) b = counter m b
    \<or> counter (fst (mem_exec t x m)) b = counter m b + 1"
  using assms
  by (cases x) (auto simp: standard_eqs strict_eqs lineage_eqs MemoryDriver_Ping_def Let_def
      storeLeaseAndMembership_def counter_def next_token_def split: option.split)

lemma unat_succ: "unat (c :: token) + 1 < 2 ^ 64 \<Longrightarrow> unat (c + 1) = unat c + 1"
  by (simp add: unat_word_ariths)

lemma mem_run_counter:
  assumes "md_inv m" and "unat (counter m b) + length xs < 2 ^ 64"
  shows "unat (counter m b) \<le> unat (counter (mem_run xs m) b)
    \<and> unat (counter (mem_run xs m) b) \<le> unat (counter m b) + length xs"
  using assms
proof (induction xs m rule: mem_run.induct)
  case (2 t x xs m)
  let ?m' = "fst (mem_exec t x m)"
  have "unat (counter ?m' b) = unat (counter m b) \<or> unat (counter ?m' b) = unat (counter m b) + 1"
    using mem_exec_counter[OF 2(2), of t x b] 2(3) by (auto simp: unat_succ)
  with 2(1)[OF mem_exec_inv[OF 2(2)]] 2(3) show ?case by auto
qed simp


section \<open>Lineage membership over runs\<close>

definition memb :: "(string, (string, time) gomap) gomap \<Rightarrow> AncestorKey \<Rightarrow> string \<Rightarrow> time option" where
  "memb desc a leaseID =
     (case mget desc (formatAncestorKey a) of None \<Rightarrow> None | Some ms \<Rightarrow> mget ms leaseID)"

lemma memb_remove [simp]: "i \<noteq> j \<Longrightarrow> memb (remove_member j a' desc) a i = memb desc a i"
  by (auto simp: memb_def remove_member_def Let_def mdel_eq_Nil_iff split: option.splits)

lemma memb_touch [simp]: "i \<noteq> j \<Longrightarrow> memb (touch_member j e a' desc) a i = memb desc a i"
  by (auto simp: memb_def touch_member_def split: option.splits)

lemma memb_add: "memb (add_member j e a' desc) a i =
    (if i = j \<and> formatAncestorKey a = formatAncestorKey a' then Some e else memb desc a i)"
  by (auto simp: memb_def add_member_def Let_def split: option.splits)

lemma memb_fold_other [simp]:
  assumes "i \<noteq> j"
  shows "memb (fold (remove_member j) as desc) a i = memb desc a i"
    and "memb (fold (touch_member j e) as desc) a i = memb desc a i"
    and "memb (fold (add_member j e) as desc) a i = memb desc a i"
  using assms by (induction as arbitrary: desc) (simp_all add: memb_add)

lemma memb_fold_add:
  assumes "a \<in> set as \<or> memb desc a i = Some e"
  shows "memb (fold (add_member i e) as desc) a i = Some e"
  using assms
proof (induction as arbitrary: desc)
  case (Cons x as)
  show ?case
    using Cons.prems by (simp, intro Cons.IH) (auto simp: memb_add)
qed simp

text \<open>
  \<open>guards m i a e\<close>: the lineage lease with id \<open>i\<close> is recorded until \<open>e\<close>, and is a member of its
  ancestor \<open>a\<close> until then.
\<close>

definition guards :: "MemoryDriver \<Rightarrow> string \<Rightarrow> AncestorKey \<Rightarrow> time \<Rightarrow> bool" where
  "guards m i a e \<longleftrightarrow> map_ok (md_lineageLeases m) \<and> memb (md_descendantsByAncestor m) a i = Some e
     \<and> (\<exists>st. mget (md_lineageLeases m) i = Some st \<and> ls_expireAt st = e
          \<and> 0 < lr_LeaseTTL (ls_lease st) \<and> lr_ExpiresAt (ls_lease st) = e)"

lemma guards_cong:
  "md_lineageLeases m' = md_lineageLeases m \<Longrightarrow>
   md_descendantsByAncestor m' = md_descendantsByAncestor m \<Longrightarrow> guards m' i a e = guards m i a e"
  by (simp add: guards_def)

lemma guards_other:
  assumes "guards m i a e" and "i \<noteq> j"
    and "md_lineageLeases m' = mdel j (md_lineageLeases m) \<or>
         (\<exists>st. md_lineageLeases m' = mput j st (md_lineageLeases m))"
    and "memb (md_descendantsByAncestor m') a i = memb (md_descendantsByAncestor m) a i"
  shows "guards m' i a e"
  using assms by (auto simp: guards_def)

lemma guards_prune_lineage:
  assumes "guards m i a e"
    and "\<forall>st. x = (i, st) \<longrightarrow> now \<le> ls_expireAt st \<and> \<not> IsExpired (ls_lease st) now"
  shows "guards (prune_lineage now x m) i a e"
proof (cases x)
  case (Pair j st)
  show ?thesis
  proof (cases "i = j")
    case True
    with assms show ?thesis by (auto simp: Pair prune_lineage_def)
  next
    case False
    then show ?thesis using assms(1)
      by (auto simp: Pair prune_lineage_def intro!: guards_other[OF assms(1) False])
  qed
qed

lemma guards_fold_prune_lineage:
  assumes "guards m i a e"
    and "\<forall>st. (i, st) \<in> set xs \<longrightarrow> now \<le> ls_expireAt st \<and> \<not> IsExpired (ls_lease st) now"
  shows "guards (fold (prune_lineage now) xs m) i a e"
  using assms
proof (induction xs arbitrary: m)
  case (Cons x xs)
  then have "guards (prune_lineage now x m) i a e" by (auto intro!: guards_prune_lineage)
  with Cons show ?case by simp
qed simp

lemma guards_prune:
  assumes "guards m i a e" and "now \<le> e"
  shows "guards (pruneExpired now m) i a e"
proof -
  let ?m1 = "fold (prune_lease now) (md_leases m) m"
  have g: "guards ?m1 i a e" using assms(1) guards_cong[of ?m1 m i a e] by simp
  have "now \<le> ls_expireAt st \<and> \<not> IsExpired (ls_lease st) now"
    if "(i, st) \<in> set (md_lineageLeases ?m1)" for st
    using g that assms(2) by (auto simp: guards_def IsExpired_def dest: map_of_is_SomeI)
  with g show ?thesis by (simp add: pruneExpired_def Let_def guards_fold_prune_lineage)
qed

text \<open>The lease id a lineage request names.\<close>

fun op_lease_id :: "mem_op \<Rightarrow> string option" where
  "op_lease_id (OpAcquireWithLineage req) = Some (lm_LeaseID (lq_Lineage req))"
| "op_lease_id (OpRenewWithLineage _ lin) = Some (lm_LeaseID lin)"
| "op_lease_id (OpReleaseWithLineage _ lin) = Some (lm_LeaseID lin)"
| "op_lease_id _ = None"

lemma guards_idle:
  "guards m i a e \<Longrightarrow> t \<le> e \<Longrightarrow>
   md_lineageLeases m' = md_lineageLeases m \<and> md_descendantsByAncestor m' = md_descendantsByAncestor m
   \<or> md_lineageLeases m' = md_lineageLeases (pruneExpired t m)
     \<and> md_descendantsByAncestor m' = md_descendantsByAncestor (pruneExpired t m) \<Longrightarrow>
   guards m' i a e"
  using guards_prune[of m i a e t] guards_cong[of m' m i a e] guards_cong[of m' "pruneExpired t m" i a e]
  by auto

lemma mem_exec_guards:
  assumes "md_inv m" and g: "guards m i a e" and "t \<le> e" and "op_lease_id x \<noteq> Some i"
  shows "guards (fst (mem_exec t x m)) i a e"
proof (cases "op_lease_id x")
  case None
  then show ?thesis using assms(1)
    by (intro guards_idle[OF g assms(3)], cases x)
      (auto simp: standard_eqs strict_eqs MemoryDriver_Ping_def Let_def split: option.split)
next
  case (Some j)
  then have ij: "i \<noteq> j" using assms(4) by auto
  note gp = guards_prune[OF g assms(3)]
  show ?thesis
  proof (cases x)
    case (OpAcquireWithLineage req)
    then show ?thesis using assms(1) Some ij gp g
      by (auto simp: AcquireWithLineage_eq Let_def storeLeaseAndMembership_def
          intro!: guards_other[OF gp ij] split: option.split)
  next
    case (OpRenewWithLineage l lin)
    then show ?thesis using assms(1) Some ij gp g
      by (auto simp: RenewWithLineage_eq Let_def intro!: guards_other[OF gp ij] split: option.split)
  next
    case (OpReleaseWithLineage l lin)
    then show ?thesis using assms(1) Some ij gp g
      by (auto simp: ReleaseWithLineage_eq Let_def intro!: guards_other[OF gp ij] split: option.split)
  qed (use Some in simp_all)
qed

lemma mem_run_guards:
  assumes "md_inv m" and "guards m i a e"
    and "\<forall>(t, x) \<in> set xs. t \<le> e \<and> op_lease_id x \<noteq> Some i"
  shows "guards (mem_run xs m) i a e"
  using assms by (induction xs m rule: mem_run.induct) (auto simp: mem_exec_inv mem_exec_guards)

lemma lineage_ok_pruned: "map_ok (md_lineageLeases m) \<Longrightarrow> map_ok (md_lineageLeases (pruneExpired t m))"
proof -
  have "map_ok (md_lineageLeases n) \<Longrightarrow> map_ok (md_lineageLeases (fold (prune_lineage t) xs n))" for n xs
    by (induction xs arbitrary: n) (auto simp: prune_lineage_def)
  then show "map_ok (md_lineageLeases m) \<Longrightarrow> ?thesis" by (simp add: pruneExpired_def Let_def)
qed

lemma mem_exec_lineage_ok:
  "md_inv m \<Longrightarrow> map_ok (md_lineageLeases m) \<Longrightarrow> map_ok (md_lineageLeases (fst (mem_exec t x m)))"
  using lineage_ok_pruned[of m t]
  by (cases x) (auto simp: standard_eqs strict_eqs lineage_eqs MemoryDriver_Ping_def Let_def
      storeLeaseAndMembership_def split: option.split)

lemma mem_run_lineage_ok:
  "md_inv m \<Longrightarrow> map_ok (md_lineageLeases m) \<Longrightarrow> map_ok (md_lineageLeases (mem_run xs m))"
  by (induction xs m rule: mem_run.induct) (simp_all add: mem_exec_inv mem_exec_lineage_ok)

lemma lineage_grant_guards:
  assumes "md_inv m" and "map_ok (md_lineageLeases m)"
    and "MemoryDriver_AcquireWithLineage ctx t m req = (m', Inr l)"
    and "a \<in> set (lm_AncestorKeys (lq_Lineage req))"
  shows "guards m' (lm_LeaseID (lq_Lineage req)) a (lr_ExpiresAt l)"
  using assms lineage_ok_pruned[of m t]
  by (auto simp: AcquireWithLineage_eq Let_def storeLeaseAndMembership_def guards_def
      intro!: memb_fold_add split: if_splits option.splits)

lemma guards_live_members:
  assumes "guards m i a e" and "t < e"
  shows "live_members t (pruneExpired t m) a"
  using guards_prune[OF assms(1), of t] assms(2)
  by (auto simp: guards_def memb_def live_members_def list_ex_iff split: option.splits
      dest!: map_of_SomeD)


section \<open>Properties of the in-memory backend\<close>

lemma live_put: "live t (m\<lparr>md_leases := mput k l (md_leases m)\<rparr>) =
    (live t m)(k := if IsExpired l t then None else Some l)"
  by (simp add: live_def)

text \<open>Requests used by the concrete instances below.\<close>

definition ex_acquire :: "string \<Rightarrow> string \<Rightarrow> AcquireRequest" where
  "ex_acquire owner key =
     \<lparr>aq_DefinitionID = ''order'', aq_ResourceKeys = [key], aq_OwnerID = owner, aq_LeaseTTL = 30\<rparr>"

definition ex_strict :: "string \<Rightarrow> string \<Rightarrow> StrictAcquireRequest" where
  "ex_strict owner key =
     \<lparr>sq_DefinitionID = ''order'', sq_ResourceKey = key, sq_OwnerID = owner, sq_LeaseTTL = 30\<rparr>"

definition ex_lineage ::
  "string \<Rightarrow> string \<Rightarrow> string \<Rightarrow> string \<Rightarrow> LockKind \<Rightarrow> AncestorKey list \<Rightarrow> LineageAcquireRequest"
where
  "ex_lineage owner leaseID def key kind ancestors =
     \<lparr>lq_DefinitionID = def, lq_ResourceKey = key, lq_OwnerID = owner, lq_LeaseTTL = 30,
      lq_Lineage = \<lparr>lm_LeaseID = leaseID, lm_Kind = kind, lm_AncestorKeys = ancestors\<rparr>\<rparr>"

definition ex_lease :: "string \<Rightarrow> string \<Rightarrow> time \<Rightarrow> LeaseRecord" where
  "ex_lease owner key t =
     \<lparr>lr_DefinitionID = ''order'', lr_ResourceKeys = [key], lr_OwnerID = owner, lr_LeaseTTL = 30,
      lr_AcquiredAt = t, lr_ExpiresAt = t + 30\<rparr>"

lemmas ex_defs = ex_acquire_def ex_strict_def ex_lineage_def ex_lease_def

text \<open>
  C1. Every method of the driver, called by owner \<open>o\<close> at time \<open>t\<close>, keeps the invariant and refines
  one step of the abstract lease table: the live leases stay the same, or gain a fresh lease of
  \<open>o\<close> on a free key, or a lease of \<open>o\<close> is prolonged or dropped.
\<close>

theorem memory_refines_table:
  assumes "md_inv m"
  shows "md_inv (fst (mem_exec t x m))
    \<and> table_step t (op_owner x) (live t m) (live t (fst (mem_exec t x m)))"
  using mem_exec_ok[OF assms, of t x] by (simp add: op_ok_def)

theorem memory_refines_table_witness:
  "md_inv (fst (mem_exec 5 (OpAcquire (ex_acquire ''a'' ''k'')) NewMemoryDriver))
   \<and> table_step 5 ''a'' (live 5 NewMemoryDriver)
       (live 5 (fst (mem_exec 5 (OpAcquire (ex_acquire ''a'' ''k'')) NewMemoryDriver)))"
  using memory_refines_table[OF md_inv_New, of 5 "OpAcquire (ex_acquire ''a'' ''k'')"]
  by (simp add: ex_acquire_def)

text \<open>
  C2. Mutual exclusion. Once an acquire has returned a lease, then whatever the other owners do
  meanwhile, every acquire of the same resource key (plain, strict, or with lineage) up to and
  including the expiry time is answered with \<^verbatim>\<open>ErrLeaseAlreadyHeld\<close>, whoever asks.
\<close>

theorem memory_mutual_exclusion:
  assumes "md_inv m" and "MemoryDriver_Acquire ctx t0 m req = (m', Inr l)"
    and "\<forall>(t, x) \<in> set xs. op_owner x \<noteq> aq_OwnerID req \<and> t \<le> t0 + aq_LeaseTTL req"
    and "t \<le> t0 + aq_LeaseTTL req"
    and "aq_ResourceKeys rq = aq_ResourceKeys req" "0 < aq_LeaseTTL rq"
    and "sq_ResourceKey sq = hd (aq_ResourceKeys req)" "sq_ResourceKey sq \<noteq> []" "0 < sq_LeaseTTL sq"
    and "lq_ResourceKey lq = hd (aq_ResourceKeys req)" "0 < lq_LeaseTTL lq"
      "lm_LeaseID (lq_Lineage lq) \<noteq> []"
  shows "snd (MemoryDriver_Acquire ctx t (mem_run xs m') rq) = Inl (Sentinel ErrLeaseAlreadyHeld)
    \<and> snd (MemoryDriver_AcquireStrict ctx t (mem_run xs m') sq) = Inl (Sentinel ErrLeaseAlreadyHeld)
    \<and> snd (MemoryDriver_AcquireWithLineage ctx t (mem_run xs m') lq) = Inl (Sentinel ErrLeaseAlreadyHeld)"
proof -
  let ?n = "mem_run xs m'"
  from assms(1,2) have inv': "md_inv m'" using Acquire_ok[of m t0 req ctx] by (simp add: op_ok_def)
  from assms(1,2) obtain k where k: "aq_ResourceKeys req = [k]" and st: "mget (md_leases m') k = Some l"
    and l: "lr_OwnerID l = aq_OwnerID req" "lr_ExpiresAt l = t0 + aq_LeaseTTL req"
      "0 < lr_LeaseTTL l"
    using one_key[of "aq_ResourceKeys req"]
    by (auto simp: Acquire_eq Let_def split: if_splits option.splits)
  have "mget (md_leases ?n) k = Some l"
    using inv' st assms(3) l by (intro mem_run_foreign) auto
  then have "live t ?n k = Some l" using assms(4) l by (simp add: live_Some_iff IsExpired_def)
  then show ?thesis using mem_run_inv[OF inv', of xs] assms(5-) k
    by (simp add: Acquire_eq AcquireStrict_eq AcquireWithLineage_eq rejectLineageConflict_eq)
qed

theorem memory_mutual_exclusion_witness:
  "snd (MemoryDriver_Acquire background 35
      (mem_run [(10, OpAcquire (ex_acquire ''b'' ''k'')), (20, OpRelease (ex_lease ''b'' ''k'' 10))]
        (fst (MemoryDriver_Acquire background 5 NewMemoryDriver (ex_acquire ''a'' ''k''))))
      (ex_acquire ''b'' ''k'')) = Inl (Sentinel ErrLeaseAlreadyHeld)"
proof -
  have "MemoryDriver_Acquire background 5 NewMemoryDriver (ex_acquire ''a'' ''k'') =
      (fst (MemoryDriver_Acquire background 5 NewMemoryDriver (ex_acquire ''a'' ''k'')),
       Inr (ex_lease ''a'' ''k'' 5))"
    by code_simp
  from memory_mutual_exclusion[OF md_inv_New this,
      of "[(10, OpAcquire (ex_acquire ''b'' ''k'')), (20, OpRelease (ex_lease ''b'' ''k'' 10))]" 35
      "ex_acquire ''b'' ''k''" "ex_strict ''b'' ''k''" "ex_lineage ''b'' ''i'' ''order'' ''k'' KindParent []"]
  show ?thesis by (simp add: ex_defs)
qed

text \<open>
  C3. Fencing tokens grow. A strict acquire of a boundary returns a token larger than the token of
  any earlier strict acquire of that boundary, whatever happened in between (releases, expiry,
  re-acquisition), as long as the 64-bit counter has room for the operations of the run.
\<close>

theorem memory_fencing_tokens_increase:
  assumes "md_inv m"
    and "MemoryDriver_AcquireStrict ctx t1 m r1 = (m1, Inr f1)"
    and "MemoryDriver_AcquireStrict ctx t2 (mem_run xs m1) r2 = (m2, Inr f2)"
    and "sq_DefinitionID r2 = sq_DefinitionID r1" "sq_ResourceKey r2 = sq_ResourceKey r1"
    and "unat (fl_FencingToken f1) + length xs + 1 < 2 ^ 64"
  shows "unat (fl_FencingToken f1) < unat (fl_FencingToken f2)"
proof -
  let ?b = "strictBoundaryKey (sq_DefinitionID r1) (sq_ResourceKey r1)"
  have inv1: "md_inv m1" using AcquireStrict_ok[OF assms(1), of t1 r1 ctx] assms(2) by (simp add: op_ok_def)
  have c1: "counter m1 ?b = fl_FencingToken f1"
    using assms(1,2) by (auto simp: AcquireStrict_eq Let_def counter_def split: if_splits option.splits)
  have f2: "fl_FencingToken f2 = counter (mem_run xs m1) ?b + 1"
    using mem_run_inv[OF inv1, of xs] assms(3-5)
    by (auto simp: AcquireStrict_eq Let_def next_token_counter split: if_splits option.splits)
  have "unat (counter m1 ?b) + length xs < 2 ^ 64" using assms(6) c1 by simp
  from mem_run_counter[OF inv1 this] assms(6) show ?thesis by (simp add: c1 f2 unat_succ)
qed

theorem memory_fencing_tokens_increase_witness:
  "\<exists>m1 f1 m2 f2. MemoryDriver_AcquireStrict background 5 NewMemoryDriver (ex_strict ''a'' ''k'') = (m1, Inr f1)
   \<and> MemoryDriver_AcquireStrict background 7
        (mem_run [(6, OpReleaseStrict (ex_lease ''a'' ''k'' 5) 1)] m1) (ex_strict ''b'' ''k'') = (m2, Inr f2)
   \<and> unat (fl_FencingToken f1) < unat (fl_FencingToken f2)"
proof -
  let ?m1 = "fst (MemoryDriver_AcquireStrict background 5 NewMemoryDriver (ex_strict ''a'' ''k''))"
  let ?m2 = "mem_run [(6, OpReleaseStrict (ex_lease ''a'' ''k'' 5) 1)] ?m1"
  have *: "MemoryDriver_AcquireStrict background 5 NewMemoryDriver (ex_strict ''a'' ''k'') =
      (?m1, Inr \<lparr>fl_Lease = ex_lease ''a'' ''k'' 5, fl_FencingToken = 1\<rparr>)"
    "MemoryDriver_AcquireStrict background 7 ?m2 (ex_strict ''b'' ''k'') =
      (fst (MemoryDriver_AcquireStrict background 7 ?m2 (ex_strict ''b'' ''k'')),
       Inr \<lparr>fl_Lease = ex_lease ''b'' ''k'' 7, fl_FencingToken = 2\<rparr>)"
    by code_simp+
  have "unat (1 :: token) < unat (2 :: token)"
    using memory_fencing_tokens_increase[OF md_inv_New *] by (simp add: ex_strict_def)
  with * show ?thesis by fastforce
qed

text \<open>
  A stale fencing token is powerless. While a strict lease is live, a strict renew or release
  of its key that presents another token, another owner or another definition fails with
  \<^verbatim>\<open>ErrLeaseOwnerMismatch\<close>, or \<^verbatim>\<open>ErrLeaseNotFound\<close>, and the live leases do not change.
\<close>

theorem memory_stale_token_rejected:
  assumes "md_inv m" and "MemoryDriver_AcquireStrict ctx t1 m r = (m1, Inr f)"
    and "lr_ResourceKeys l = [sq_ResourceKey r]" and "t1 \<le> t" "t \<le> t1 + sq_LeaseTTL r"
    and "tok \<noteq> fl_FencingToken f \<or> lr_OwnerID l \<noteq> sq_OwnerID r \<or> lr_DefinitionID l \<noteq> sq_DefinitionID r"
  shows "snd (MemoryDriver_RenewStrict ctx t m1 l tok)
        \<in> {Inl (Sentinel ErrLeaseOwnerMismatch), Inl (Sentinel ErrLeaseNotFound)}
    \<and> snd (MemoryDriver_ReleaseStrict ctx t m1 l tok)
        \<in> {Some (Sentinel ErrLeaseOwnerMismatch), Some (Sentinel ErrLeaseNotFound)}
    \<and> live t (fst (MemoryDriver_RenewStrict ctx t m1 l tok)) = live t m1
    \<and> live t (fst (MemoryDriver_ReleaseStrict ctx t m1 l tok)) = live t m1"
proof -
  let ?k = "sq_ResourceKey r"
  let ?b = "strictBoundaryKey (sq_DefinitionID r) ?k"
  have inv1: "md_inv m1" using AcquireStrict_ok[OF assms(1), of t1 r ctx] assms(2) by (simp add: op_ok_def)
  have st: "mget (md_strictCounters m1) ?b = Some (fl_FencingToken f)"
    and e: "mget (md_leases m1) ?k = Some (fl_Lease f)" and f: "lr_OwnerID (fl_Lease f) = sq_OwnerID r"
      "lr_DefinitionID (fl_Lease f) = sq_DefinitionID r" "0 < lr_LeaseTTL (fl_Lease f)"
      "lr_ExpiresAt (fl_Lease f) = t1 + sq_LeaseTTL r"
    using assms(1,2) by (auto simp: AcquireStrict_eq Let_def split: if_splits option.splits)
  have live: "live t m1 ?k = Some (fl_Lease f)" using e f assms(5) by (simp add: live_Some_iff IsExpired_def)
  have tok: "ss_fencingToken s = fl_FencingToken f"
    if "mget (md_strictLeases (pruneExpired t m1)) ?b = Some s" for s
    using md_invD(3)[OF inv1 pruneExpired_strictLeases[OF that]] st by simp
  show ?thesis
    using inv1 assms(3,6) live f pruned_live[OF inv1 order_refl[of t]]
    by (auto simp: RenewStrict_eq ReleaseStrict_eq Let_def split: option.split)
      (use tok in auto)
qed

theorem memory_stale_token_rejected_witness:
  "\<exists>m1 f. MemoryDriver_AcquireStrict background 5 NewMemoryDriver (ex_strict ''a'' ''k'') = (m1, Inr f)
   \<and> snd (MemoryDriver_ReleaseStrict background 9 m1 (ex_lease ''a'' ''k'' 5) 7)
        \<in> {Some (Sentinel ErrLeaseOwnerMismatch), Some (Sentinel ErrLeaseNotFound)}
   \<and> live 9 (fst (MemoryDriver_ReleaseStrict background 9 m1 (ex_lease ''a'' ''k'' 5) 7)) = live 9 m1"
proof -
  let ?m1 = "fst (MemoryDriver_AcquireStrict background 5 NewMemoryDriver (ex_strict ''a'' ''k''))"
  have *: "MemoryDriver_AcquireStrict background 5 NewMemoryDriver (ex_strict ''a'' ''k'') =
      (?m1, Inr \<lparr>fl_Lease = ex_lease ''a'' ''k'' 5, fl_FencingToken = 1\<rparr>)"
    by code_simp
  from memory_stale_token_rejected[OF md_inv_New *, of "ex_lease ''a'' ''k'' 5" 9 7]
  have "snd (MemoryDriver_ReleaseStrict background 9 ?m1 (ex_lease ''a'' ''k'' 5) 7)
        \<in> {Some (Sentinel ErrLeaseOwnerMismatch), Some (Sentinel ErrLeaseNotFound)}
   \<and> live 9 (fst (MemoryDriver_ReleaseStrict background 9 ?m1 (ex_lease ''a'' ''k'' 5) 7)) = live 9 ?m1"
    by (simp add: ex_defs)
  with * show ?thesis by metis
qed

text \<open>
  Release is authorised and frees the key. A release of a one-key lease succeeds exactly when
  the live lease on the key has the same owner; it then removes that lease and nothing else, and
  the key can be acquired at once by anyone. Otherwise no live lease changes.
\<close>

theorem memory_release_frees:
  assumes "md_inv m" and "lr_ResourceKeys l = [k]" and "MemoryDriver_Release ctx t m l = (m', err)"
    and "aq_ResourceKeys req = [k]" and "0 < aq_LeaseTTL req"
  shows "if \<exists>e. live t m k = Some e \<and> lr_OwnerID e = lr_OwnerID l
    then err = None \<and> live t m' = (live t m)(k := None)
      \<and> (\<exists>m'' l'. MemoryDriver_Acquire ctx t m' req = (m'', Inr l')
           \<and> live t m'' = (live t m)(k \<mapsto> l') \<and> lr_OwnerID l' = aq_OwnerID req)
    else err \<noteq> None \<and> live t m' = live t m"
proof (cases "\<exists>e. live t m k = Some e \<and> lr_OwnerID e = lr_OwnerID l")
  case False
  then show ?thesis using assms(1-3) pruned_live[OF assms(1) order_refl[of t]]
    by (auto simp: Release_eq split: option.splits)
next
  case True
  have inv': "md_inv m'" using Release_ok[OF assms(1), of t l ctx] assms(3) by (simp add: op_ok_def)
  have m': "err = None" "live t m' = (live t m)(k := None)"
    using True assms(1-3) pruned_live[OF assms(1) order_refl[of t]]
    by (auto simp: Release_eq live_def)
  have "\<exists>m'' l'. MemoryDriver_Acquire ctx t m' req = (m'', Inr l')
           \<and> live t m'' = (live t m)(k \<mapsto> l') \<and> lr_OwnerID l' = aq_OwnerID req"
    using inv' m' assms(4,5) pruned_live[OF inv' order_refl[of t]]
    by (simp add: Acquire_eq Let_def live_def IsExpired_def)
  with True m' show ?thesis by simp
qed

theorem memory_release_frees_witness:
  "\<exists>m m' l'. MemoryDriver_Acquire background 5 NewMemoryDriver (ex_acquire ''a'' ''k'') =
       (m, Inr (ex_lease ''a'' ''k'' 5))
   \<and> MemoryDriver_Release background 9 m (ex_lease ''a'' ''k'' 5) = (m', None)
   \<and> snd (MemoryDriver_Acquire background 9 m' (ex_acquire ''b'' ''k'')) = Inr l' \<and> lr_OwnerID l' = ''b''"
proof -
  let ?m = "fst (MemoryDriver_Acquire background 5 NewMemoryDriver (ex_acquire ''a'' ''k''))"
  have a: "MemoryDriver_Acquire background 5 NewMemoryDriver (ex_acquire ''a'' ''k'') =
      (?m, Inr (ex_lease ''a'' ''k'' 5))" and l: "mget (md_leases ?m) ''k'' = Some (ex_lease ''a'' ''k'' 5)"
    by code_simp+
  have inv: "md_inv ?m" using Acquire_ok[OF md_inv_New] by (simp add: op_ok_def)
  have "live 9 ?m ''k'' = Some (ex_lease ''a'' ''k'' 5)" using l by (simp add: live_Some_iff IsExpired_def ex_lease_def)
  with memory_release_frees[OF inv _ surjective_pairing, of "ex_lease ''a'' ''k'' 5" "''k''"
      "ex_acquire ''b'' ''k''" 9 background]
  obtain m'' l' where "snd (MemoryDriver_Release background 9 ?m (ex_lease ''a'' ''k'' 5)) = None"
    "MemoryDriver_Acquire background 9 (fst (MemoryDriver_Release background 9 ?m (ex_lease ''a'' ''k'' 5)))
      (ex_acquire ''b'' ''k'') = (m'', Inr l')" "lr_OwnerID l' = ''b''"
    by (auto simp: ex_lease_def ex_acquire_def)
  with a show ?thesis by (metis prod.collapse snd_conv)
qed

text \<open>
  Renewal. Renewing a one-key lease succeeds exactly when the owner still has the live lease on
  the key: an expired or released lease is never revived. The renewed lease runs for the requested
  TTL (or the old one when none is given) from the time of the call, keeps definition and owner,
  and no other key changes.
\<close>

theorem memory_renew_extends:
  assumes "md_inv m" and "lr_ResourceKeys l = [k]"
  shows "case MemoryDriver_Renew ctx t m l of
      (m', Inr l') \<Rightarrow> (\<exists>e. live t m k = Some e \<and> lr_OwnerID e = lr_OwnerID l
          \<and> lr_LeaseTTL l' = (if lr_LeaseTTL l \<le> 0 then lr_LeaseTTL e else lr_LeaseTTL l)
          \<and> lr_DefinitionID l' = lr_DefinitionID e \<and> lr_OwnerID l' = lr_OwnerID l
          \<and> lr_AcquiredAt l' = t \<and> lr_ExpiresAt l' = t + lr_LeaseTTL l' \<and> 0 < lr_LeaseTTL l'
          \<and> live t m' = (live t m)(k \<mapsto> l'))
    | (m', Inl err) \<Rightarrow> (live t m k = None \<and> err = Sentinel ErrLeaseNotFound
          \<or> (\<exists>e. live t m k = Some e \<and> lr_OwnerID e \<noteq> lr_OwnerID l \<and> err = Sentinel ErrLeaseOwnerMismatch))
          \<and> live t m' = live t m"
  using assms pruned_live[OF assms(1) order_refl[of t]]
  by (auto simp: Renew_eq live_put IsExpired_def refresh_def Let_def lease_wf_def
      dest!: md_inv_live_wf split: option.split)

theorem memory_renew_extends_witness:
  "\<exists>l'. snd (MemoryDriver_Renew background 9
      (fst (MemoryDriver_Acquire background 5 NewMemoryDriver (ex_acquire ''a'' ''k'')))
      (ex_lease ''a'' ''k'' 5)) = Inr l' \<and> lr_ExpiresAt l' = 39"
proof -
  let ?m = "fst (MemoryDriver_Acquire background 5 NewMemoryDriver (ex_acquire ''a'' ''k''))"
  have inv: "md_inv ?m" using Acquire_ok[OF md_inv_New] by (simp add: op_ok_def)
  have "mget (md_leases ?m) ''k'' = Some (ex_lease ''a'' ''k'' 5)" by code_simp
  then have "live 9 ?m ''k'' = Some (ex_lease ''a'' ''k'' 5)" by (simp add: live_Some_iff IsExpired_def ex_lease_def)
  with memory_renew_extends[OF inv, of "ex_lease ''a'' ''k'' 5" "''k''" 9 background] show ?thesis
    by (cases "MemoryDriver_Renew background 9 ?m (ex_lease ''a'' ''k'' 5)")
      (auto simp: ex_lease_def split: sum.splits)
qed

text \<open>
  The presence check is exact: it reports a lease on a key exactly when an acquire of that key
  at the same moment would be refused as already held, it returns that lease, and it leaves every
  live lease in place.
\<close>

theorem memory_presence_exact:
  assumes "md_inv m" and "pq_ResourceKeys pq = [k]" and "aq_ResourceKeys req = [k]" and "0 < aq_LeaseTTL req"
  shows "\<exists>m' r. MemoryDriver_CheckPresence ctx t m pq = (m', Inr r) \<and> pr_Lease r = live t m k
    \<and> (pr_Present r \<longleftrightarrow> snd (MemoryDriver_Acquire ctx t m req) = Inl (Sentinel ErrLeaseAlreadyHeld))
    \<and> (\<forall>t'\<ge>t. live t' m' = live t' m)"
  using assms pruned_live[OF assms(1), of t]
  by (auto simp: CheckPresence_eq Acquire_eq Let_def split: option.split)

theorem memory_presence_exact_witness:
  "\<exists>m' r. MemoryDriver_CheckPresence background 9
      (fst (MemoryDriver_Acquire background 5 NewMemoryDriver (ex_acquire ''a'' ''k'')))
      \<lparr>pq_DefinitionID = ''order'', pq_ResourceKeys = [''k'']\<rparr> = (m', Inr r) \<and> pr_Present r"
proof -
  let ?m = "fst (MemoryDriver_Acquire background 5 NewMemoryDriver (ex_acquire ''a'' ''k''))"
  have inv: "md_inv ?m" using Acquire_ok[OF md_inv_New] by (simp add: op_ok_def)
  have "snd (MemoryDriver_Acquire background 9 ?m (ex_acquire ''b'' ''k'')) = Inl (Sentinel ErrLeaseAlreadyHeld)"
    by code_simp
  with memory_presence_exact[OF inv, of "\<lparr>pq_DefinitionID = ''order'', pq_ResourceKeys = [''k'']\<rparr>" "''k''"
      "ex_acquire ''b'' ''k''" background 9]
  show ?thesis by (auto simp: ex_acquire_def)
qed

text \<open>
  C4. Children block their ancestors. After an acquire with lineage has been granted, every acquire
  of one of its ancestors as a parent, at any time before the lease expires, is refused, whatever
  requests came in between, provided they do not name the same lease id.
\<close>

theorem memory_child_blocks_parent:
  assumes "MemoryDriver_AcquireWithLineage ctx t0 (mem_run ys NewMemoryDriver) req = (m1, Inr l)"
    and "a \<in> set (lm_AncestorKeys (lq_Lineage req))"
    and "\<forall>(t, x) \<in> set xs. t \<le> t0 + lq_LeaseTTL req \<and> op_lease_id x \<noteq> Some (lm_LeaseID (lq_Lineage req))"
    and "t < t0 + lq_LeaseTTL req"
    and "lq_DefinitionID pq = ak_DefinitionID a" "lq_ResourceKey pq = ak_ResourceKey a"
    and "lm_Kind (lq_Lineage pq) = KindParent"
  shows "\<exists>err. snd (MemoryDriver_AcquireWithLineage ctx t (mem_run xs m1) pq) = Inl err
    \<and> live t (fst (MemoryDriver_AcquireWithLineage ctx t (mem_run xs m1) pq)) = live t (mem_run xs m1)"
proof -
  let ?m = "mem_run ys NewMemoryDriver" and ?n = "mem_run xs m1"
  have inv: "md_inv ?m" and lin: "map_ok (md_lineageLeases ?m)"
    using mem_run_inv[OF md_inv_New] mem_run_lineage_ok[OF md_inv_New] by (simp_all add: NewMemoryDriver_def)
  have inv1: "md_inv m1" using AcquireWithLineage_ok[OF inv, of t0 req ctx] assms(1) by (simp add: op_ok_def)
  have l: "lr_ExpiresAt l = t0 + lq_LeaseTTL req"
    using assms(1) inv by (auto simp: AcquireWithLineage_eq Let_def split: if_splits option.splits)
  have "guards ?n (lm_LeaseID (lq_Lineage req)) a (lr_ExpiresAt l)"
    using lineage_grant_guards[OF inv lin assms(1,2)] assms(3) inv1 l by (intro mem_run_guards) auto
  then have "live_members t (pruneExpired t ?n) a" using assms(4) l by (intro guards_live_members) auto
  moreover have "\<lparr>ak_DefinitionID = lq_DefinitionID pq, ak_ResourceKey = lq_ResourceKey pq\<rparr> = a"
    using assms(5,6) by simp
  ultimately show ?thesis
    using mem_run_inv[OF inv1, of xs] assms(7) pruned_live[OF mem_run_inv[OF inv1] order_refl]
    by (auto simp: AcquireWithLineage_eq rejectLineageConflict_eq)
qed

theorem memory_child_blocks_parent_witness:
  "\<exists>err. snd (MemoryDriver_AcquireWithLineage background 20
      (mem_run [(10, OpAcquire (ex_acquire ''c'' ''other''))]
        (fst (MemoryDriver_AcquireWithLineage background 5 NewMemoryDriver
          (ex_lineage ''a'' ''i1'' ''item'' ''item:1'' KindChild
            [\<lparr>ak_DefinitionID = ''order'', ak_ResourceKey = ''order:1''\<rparr>]))))
      (ex_lineage ''b'' ''i2'' ''order'' ''order:1'' KindParent [])) = Inl err"
proof -
  let ?req = "ex_lineage ''a'' ''i1'' ''item'' ''item:1'' KindChild
            [\<lparr>ak_DefinitionID = ''order'', ak_ResourceKey = ''order:1''\<rparr>]"
  have "MemoryDriver_AcquireWithLineage background 5 (mem_run [] NewMemoryDriver) ?req =
      (fst (MemoryDriver_AcquireWithLineage background 5 NewMemoryDriver ?req),
       Inr ((ex_lease ''a'' ''item:1'' 5)\<lparr>lr_DefinitionID := ''item''\<rparr>))"
    by code_simp
  from memory_child_blocks_parent[OF this, of "\<lparr>ak_DefinitionID = ''order'', ak_ResourceKey = ''order:1''\<rparr>"
      "[(10, OpAcquire (ex_acquire ''c'' ''other''))]" 20 "ex_lineage ''b'' ''i2'' ''order'' ''order:1'' KindParent []"]
  show ?thesis by (auto simp: ex_lineage_def)
qed

text \<open>
  Ancestors block their children. While a resource key is leased, an acquire with lineage of a
  child that lists it among its ancestors is refused with \<^verbatim>\<open>ErrOverlapRejected\<close> (or
  \<^verbatim>\<open>ErrLeaseAlreadyHeld\<close> when the child's own key is leased too), and no live lease changes.
\<close>

theorem memory_parent_blocks_child:
  assumes "md_inv m" and "a \<in> set (lm_AncestorKeys (lq_Lineage req))" and "live t m (ak_ResourceKey a) \<noteq> None"
    and "lm_Kind (lq_Lineage req) = KindChild" and "lq_ResourceKey req \<noteq> []" and "0 < lq_LeaseTTL req"
    and "lm_LeaseID (lq_Lineage req) \<noteq> []"
  shows "snd (MemoryDriver_AcquireWithLineage ctx t m req) =
      Inl (Sentinel (if live t m (lq_ResourceKey req) = None then ErrOverlapRejected else ErrLeaseAlreadyHeld))
    \<and> live t (fst (MemoryDriver_AcquireWithLineage ctx t m req)) = live t m"
  using assms pruned_live[OF assms(1) order_refl[of t]]
  by (auto simp: AcquireWithLineage_eq rejectLineageConflict_eq)

theorem memory_parent_blocks_child_witness:
  "snd (MemoryDriver_AcquireWithLineage background 9
      (fst (MemoryDriver_Acquire background 5 NewMemoryDriver (ex_acquire ''a'' ''order:1'')))
      (ex_lineage ''b'' ''i2'' ''item'' ''item:1'' KindChild
        [\<lparr>ak_DefinitionID = ''order'', ak_ResourceKey = ''order:1''\<rparr>])) = Inl (Sentinel ErrOverlapRejected)"
proof -
  let ?m = "fst (MemoryDriver_Acquire background 5 NewMemoryDriver (ex_acquire ''a'' ''order:1''))"
  have inv: "md_inv ?m" using Acquire_ok[OF md_inv_New] by (simp add: op_ok_def)
  have "live 9 ?m ''order:1'' \<noteq> None" "live 9 ?m ''item:1'' = None" by code_simp+
  with memory_parent_blocks_child[OF inv, of "\<lparr>ak_DefinitionID = ''order'', ak_ResourceKey = ''order:1''\<rparr>"
      "ex_lineage ''b'' ''i2'' ''item'' ''item:1'' KindChild
        [\<lparr>ak_DefinitionID = ''order'', ak_ResourceKey = ''order:1''\<rparr>]" 9 background]
  show ?thesis by (simp add: ex_lineage_def)
qed

text \<open>
  With three levels the protection has a gap. A definition in the middle of a chain is acquired
  with kind child, so the driver does not look at its own descendants: while a leaf that lists the
  middle key among its ancestors is leased, the middle key is still granted to another owner.
\<close>

theorem memory_middle_level_overlap:
  "let root = \<lparr>ak_DefinitionID = ''order'', ak_ResourceKey = ''order:1''\<rparr>;
       middle = \<lparr>ak_DefinitionID = ''item'', ak_ResourceKey = ''item:1''\<rparr>;
       leaf_rq = ex_lineage ''a'' ''i1'' ''part'' ''part:1'' KindChild [middle, root];
       middle_rq = ex_lineage ''b'' ''i2'' ''item'' ''item:1'' KindChild [root];
       m1 = fst (MemoryDriver_AcquireWithLineage background 5 NewMemoryDriver leaf_rq);
       m2 = fst (MemoryDriver_AcquireWithLineage background 9 m1 middle_rq)
   in map_option lr_OwnerID (live 9 m2 ''part:1'') = Some ''a''
    \<and> map_option lr_OwnerID (live 9 m2 ''item:1'') = Some ''b''"
  by code_simp

end
