(* ===== verification/Redis_Server.thy ===== *)
theory Redis_Server
  imports Prelude
begin

text \<open>
  The Redis server and its client library, which are not part of the repository, as parameters: a
  record of the commands that the driver and its scripts use, over an arbitrary server state, and a
  locale with what the Redis documentation says of them. \<open>simple_redis\<close> is one server that satisfies it.

  \<open>look s\<close> is the key space as it is stored, each value with the time at which it expires, if any. Every
  command takes the server's clock in milliseconds and works on \<open>decay alive ms (look s)\<close>, the entries that
  are still alive; any command may remove entries that have expired (\<open>settles\<close>). Whether a key is still there
  in the very millisecond in which it expires is left open (\<open>alive\<close>). A command that fails, for example on a value of the wrong
  type, is not specified, except that \<^verbatim>\<open>INCR\<close> reports it. The server's clock is any function of the
  client's that does not go backwards. Numbers of a script are integers here; Lua's floating-point numbers are exact
  up to \<open>2 ^ 53\<close>, far above every time in milliseconds, and above every fencing token that a counter can reach.
\<close>

section \<open>Commands\<close>

datatype rval = RStr string | RNum int | RZSet "(string, int) gomap"

type_synonym rentry = "rval \<times> int option"
type_synonym keyspace = "string \<Rightarrow> rentry option"

text \<open>
  \<^verbatim>\<open>SETPX\<close> is \<^verbatim>\<open>SET key value PX ttl\<close>, with \<^verbatim>\<open>NX\<close> for the flag, and also \<^verbatim>\<open>PSETEX\<close>; \<^verbatim>\<open>ZADD\<close> has the flag \<^verbatim>\<open>XX\<close>; \<^verbatim>\<open>ZTOP\<close> is
  \<^verbatim>\<open>ZREVRANGE key 0 0 WITHSCORES\<close>, and \<^verbatim>\<open>ZREMRANGE\<close> is \<^verbatim>\<open>ZREMRANGEBYSCORE key -inf max\<close>. \<open>px_millis\<close> is how the
  client library converts the duration given to \<^verbatim>\<open>SetNX\<close> to milliseconds, \<open>tonumber\<close> is Lua's conversion of a string,
  and \<open>number_text\<close> the string that Redis stores for a number.
\<close>

record 'r RedisServer =
  clock :: "time \<Rightarrow> int"
  GET :: "int \<Rightarrow> 'r \<Rightarrow> string \<Rightarrow> rval option"
  EXISTS :: "int \<Rightarrow> 'r \<Rightarrow> string \<Rightarrow> bool"
  PTTL :: "int \<Rightarrow> 'r \<Rightarrow> string \<Rightarrow> int"
  SETPX :: "int \<Rightarrow> 'r \<Rightarrow> string \<Rightarrow> rval \<Rightarrow> int \<Rightarrow> bool \<Rightarrow> 'r \<times> bool"
  INCR :: "int \<Rightarrow> 'r \<Rightarrow> string \<Rightarrow> 'r \<times> int result"
  PEXPIRE :: "int \<Rightarrow> 'r \<Rightarrow> string \<Rightarrow> int \<Rightarrow> 'r \<times> bool"
  DEL :: "int \<Rightarrow> 'r \<Rightarrow> string list \<Rightarrow> 'r"
  ZADD :: "int \<Rightarrow> 'r \<Rightarrow> string \<Rightarrow> bool \<Rightarrow> int \<Rightarrow> string \<Rightarrow> 'r"
  ZREM :: "int \<Rightarrow> 'r \<Rightarrow> string \<Rightarrow> string \<Rightarrow> 'r"
  ZREMRANGE :: "int \<Rightarrow> 'r \<Rightarrow> string \<Rightarrow> int \<Rightarrow> 'r"
  ZCARD :: "int \<Rightarrow> 'r \<Rightarrow> string \<Rightarrow> nat"
  ZTOP :: "int \<Rightarrow> 'r \<Rightarrow> string \<Rightarrow> (string \<times> int) option"
  ZSCORE :: "int \<Rightarrow> 'r \<Rightarrow> string \<Rightarrow> string \<Rightarrow> int option"
  PING :: "'r \<Rightarrow> go_err"
  px_millis :: "duration \<Rightarrow> int"
  tonumber :: "string \<Rightarrow> int option"
  number_text :: "int \<Rightarrow> string"

section \<open>What the documentation promises\<close>

definition decay :: "(int \<Rightarrow> int \<Rightarrow> bool) \<Rightarrow> int \<Rightarrow> keyspace \<Rightarrow> keyspace" where
  "decay alive ms m k =
     (case m k of
        Some (v, Some x) \<Rightarrow> if alive ms x then Some (v, Some x) else None
      | y \<Rightarrow> y)"

text \<open>\<open>settles alive ms m m'\<close>: the stored key space \<open>m'\<close> is \<open>m\<close>, less some entries that have expired.\<close>

definition settles :: "(int \<Rightarrow> int \<Rightarrow> bool) \<Rightarrow> int \<Rightarrow> keyspace \<Rightarrow> keyspace \<Rightarrow> bool" where
  "settles alive ms m m' \<longleftrightarrow> (\<forall>k. m' k = m k \<or> (m' k = None \<and> decay alive ms m k = None))"

definition zset :: "keyspace \<Rightarrow> string \<Rightarrow> (string, int) gomap" where
  "zset m k = (case m k of Some (RZSet z, _) \<Rightarrow> z | _ \<Rightarrow> [])"

text \<open>A key that holds no sorted set is a string or a number, or missing; the second is a sorted set, or missing.\<close>

definition plain_at :: "keyspace \<Rightarrow> string \<Rightarrow> bool" where
  "plain_at m k = (case m k of Some (RZSet _, _) \<Rightarrow> False | _ \<Rightarrow> True)"

definition zset_at :: "keyspace \<Rightarrow> string \<Rightarrow> bool" where
  "zset_at m k = (case m k of None \<Rightarrow> True | Some (RZSet _, _) \<Rightarrow> True | _ \<Rightarrow> False)"

definition counter_at :: "keyspace \<Rightarrow> string \<Rightarrow> bool" where
  "counter_at m k = (case m k of None \<Rightarrow> True | Some (RNum _, _) \<Rightarrow> True | _ \<Rightarrow> False)"

definition count_of :: "keyspace \<Rightarrow> string \<Rightarrow> int" where
  "count_of m k = (case m k of Some (RNum i, _) \<Rightarrow> i | _ \<Rightarrow> 0)"

text \<open>The entry of a key with a new value keeps its expiry; a new one has none. An empty sorted set is removed.\<close>

definition expiry_at :: "keyspace \<Rightarrow> string \<Rightarrow> int option" where
  "expiry_at m k = (case m k of None \<Rightarrow> None | Some (_, x) \<Rightarrow> x)"

definition put_zset :: "keyspace \<Rightarrow> string \<Rightarrow> (string, int) gomap \<Rightarrow> rentry option" where
  "put_zset m k z = (if z = [] then None else Some (RZSet z, expiry_at m k))"

locale redis_server =
  fixes S :: "'r RedisServer"
    and ok :: "'r \<Rightarrow> bool"
    and look :: "'r \<Rightarrow> keyspace"
    and alive :: "int \<Rightarrow> int \<Rightarrow> bool"
  assumes clock_mono: "t \<le> t' \<Longrightarrow> clock S t \<le> clock S t'"
    and alive_before: "ms < x \<Longrightarrow> alive ms x"
    and alive_mono: "alive ms' x \<Longrightarrow> ms \<le> ms' \<Longrightarrow> alive ms x"
    and get_law: "ok s \<Longrightarrow> m = decay alive ms (look s) \<Longrightarrow> plain_at m k \<Longrightarrow> GET S ms s k = map_option fst (m k)"
    and exists_law: "ok s \<Longrightarrow> EXISTS S ms s k \<longleftrightarrow> decay alive ms (look s) k \<noteq> None"
    and pttl_law: "ok s \<Longrightarrow> PTTL S ms s k =
      (case decay alive ms (look s) k of Some (v, Some x) \<Rightarrow> x - ms | Some (v, None) \<Rightarrow> - 1 | None \<Rightarrow> - 2)"
    and setpx_law: "ok s \<Longrightarrow> 0 < ttl \<Longrightarrow> SETPX S ms s k v ttl nx = (s', b) \<Longrightarrow>
      ok s' \<and> b = (\<not> nx \<or> decay alive ms (look s) k = None)
      \<and> settles alive ms (if b then (look s)(k \<mapsto> (v, Some (ms + ttl))) else look s) (look s')"
    and incr_failed: "ok s \<Longrightarrow> INCR S ms s k = (s', Inl e) \<Longrightarrow> ok s' \<and> settles alive ms (look s) (look s')"
    and incr_law: "ok s \<Longrightarrow> m = decay alive ms (look s) \<Longrightarrow> counter_at m k \<Longrightarrow> INCR S ms s k = (s', Inr n) \<Longrightarrow>
      ok s' \<and> n = count_of m k + 1 \<and> n < 2 ^ 63 \<and> settles alive ms ((look s)(k \<mapsto> (RNum n, expiry_at m k))) (look s')"
    and pexpire_law: "ok s \<Longrightarrow> 0 < ttl \<Longrightarrow> PEXPIRE S ms s k ttl = (s', b) \<Longrightarrow>
      ok s' \<and> b = (decay alive ms (look s) k \<noteq> None)
      \<and> settles alive ms (case decay alive ms (look s) k of
           None \<Rightarrow> look s | Some (v, _) \<Rightarrow> (look s)(k \<mapsto> (v, Some (ms + ttl)))) (look s')"
    and del_law: "ok s \<Longrightarrow> ok (DEL S ms s ks)
      \<and> settles alive ms (\<lambda>k. if k \<in> set ks then None else look s k) (look (DEL S ms s ks))"
    and zadd_law: "ok s \<Longrightarrow> m = decay alive ms (look s) \<Longrightarrow> zset_at m k \<Longrightarrow> ok (ZADD S ms s k xx score member)
      \<and> settles alive ms
           (if xx \<and> mget (zset m k) member = None then look s
            else (look s)(k := put_zset m k (mput member score (zset m k)))) (look (ZADD S ms s k xx score member))"
    and zrem_law: "ok s \<Longrightarrow> m = decay alive ms (look s) \<Longrightarrow> zset_at m k \<Longrightarrow> ok (ZREM S ms s k member)
      \<and> settles alive ms ((look s)(k := put_zset m k (mdel member (zset m k)))) (look (ZREM S ms s k member))"
    and zremrange_law: "ok s \<Longrightarrow> m = decay alive ms (look s) \<Longrightarrow> zset_at m k \<Longrightarrow> ok (ZREMRANGE S ms s k hi)
      \<and> settles alive ms ((look s)(k := put_zset m k (filter (\<lambda>(_, score). hi < score) (zset m k)))) (look (ZREMRANGE S ms s k hi))"
    and zcard_law: "ok s \<Longrightarrow> m = decay alive ms (look s) \<Longrightarrow> zset_at m k \<Longrightarrow> ZCARD S ms s k = length (zset m k)"
    and ztop_law: "ok s \<Longrightarrow> m = decay alive ms (look s) \<Longrightarrow> zset_at m k \<Longrightarrow> ZTOP S ms s k = best \<Longrightarrow>
      (case best of None \<Rightarrow> zset m k = []
       | Some (member, score) \<Rightarrow> (member, score) \<in> set (zset m k) \<and> (\<forall>(m', score') \<in> set (zset m k). score' \<le> score))"
    and zscore_law: "ok s \<Longrightarrow> m = decay alive ms (look s) \<Longrightarrow> zset_at m k \<Longrightarrow> ZSCORE S ms s k member = mget (zset m k) member"
    and px_positive: "0 < ttl \<Longrightarrow> 0 < px_millis S ttl"

lemma decay_Some: "decay alive ms m k = Some y \<Longrightarrow> m k = Some y"
  by (auto simp: decay_def split: option.splits if_splits)

lemma decay_upd: "decay alive ms (m(k := y)) = (decay alive ms m)(k := decay alive ms (\<lambda>_. y) k)"
  by (auto simp: decay_def fun_eq_iff)

lemma settles_refl [simp]: "settles alive ms m m"
  by (simp add: settles_def)

lemma settles_None: "settles alive ms m m' \<Longrightarrow> m k = None \<Longrightarrow> m' k = None"
  by (metis settles_def)

lemma settles_Some: "settles alive ms m m' \<Longrightarrow> m' k = Some y \<Longrightarrow> m k = Some y"
  by (metis option.distinct(1) settles_def)

context redis_server
begin

lemma alive_now: "0 < ttl \<Longrightarrow> alive ms (ms + ttl)"
  by (simp add: alive_before)

lemma settles_decay:
  assumes "settles alive ms m m'" and "ms \<le> ms'"
  shows "decay alive ms' m' = decay alive ms' m"
proof
  fix k
  have "m' k = m k \<or> (m' k = None \<and> decay alive ms m k = None)"
    using assms(1) by (simp add: settles_def)
  then show "decay alive ms' m' k = decay alive ms' m k"
    using alive_mono[OF _ assms(2)] by (auto simp: decay_def split: option.splits if_splits)
qed

lemma decay_earlier: "decay alive ms' m k = Some y \<Longrightarrow> ms \<le> ms' \<Longrightarrow> decay alive ms m k = Some y"
  using alive_mono by (auto simp: decay_def split: option.splits if_splits)

end

section \<open>A simple server\<close>

text \<open>The key space as an association list; expired entries stay in it, and every command looks past them.\<close>

type_synonym rdb = "(string, rentry) gomap"

definition rdb_look :: "int \<Rightarrow> rdb \<Rightarrow> keyspace" where
  "rdb_look ms db = decay (<) ms (mget db)"

definition rdb_put :: "string \<Rightarrow> rentry option \<Rightarrow> rdb \<Rightarrow> rdb" where
  "rdb_put k e db = (case e of None \<Rightarrow> mdel k db | Some y \<Rightarrow> mput k y db)"

fun top_score :: "(string, int) gomap \<Rightarrow> (string \<times> int) option" where
  "top_score [] = None"
| "top_score ((m, sc) # z) = (case top_score z of
     None \<Rightarrow> Some (m, sc) | Some (m', sc') \<Rightarrow> if sc' \<le> sc then Some (m, sc) else Some (m', sc'))"

definition simple_redis :: "rdb RedisServer" where
  "simple_redis = \<lparr>
     clock = (\<lambda>t. t div millisecond),
     GET = (\<lambda>ms db k. map_option fst (rdb_look ms db k)),
     EXISTS = (\<lambda>ms db k. rdb_look ms db k \<noteq> None),
     PTTL = (\<lambda>ms db k. case rdb_look ms db k of Some (v, Some x) \<Rightarrow> x - ms | Some (v, None) \<Rightarrow> - 1 | None \<Rightarrow> - 2),
     SETPX = (\<lambda>ms db k v ttl nx. if nx \<and> rdb_look ms db k \<noteq> None then (db, False)
        else (rdb_put k (Some (v, Some (ms + ttl))) db, True)),
     INCR = (\<lambda>ms db k.
        if \<not> counter_at (rdb_look ms db) k then (db, Inl (Errorf ''ERR value is not an integer or out of range'' [] []))
        else if count_of (rdb_look ms db) k + 1 < 2 ^ 63
        then (rdb_put k (Some (RNum (count_of (rdb_look ms db) k + 1), expiry_at (rdb_look ms db) k)) db,
              Inr (count_of (rdb_look ms db) k + 1))
        else (db, Inl (Errorf ''ERR increment or decrement would overflow'' [] []))),
     PEXPIRE = (\<lambda>ms db k ttl. case rdb_look ms db k of
          None \<Rightarrow> (db, False) | Some (v, _) \<Rightarrow> (rdb_put k (Some (v, Some (ms + ttl))) db, True)),
     DEL = (\<lambda>ms db ks. filter (\<lambda>(k, _). k \<notin> set ks) db),
     ZADD = (\<lambda>ms db k xx score member. if xx \<and> mget (zset (rdb_look ms db) k) member = None then db
        else rdb_put k (put_zset (rdb_look ms db) k (mput member score (zset (rdb_look ms db) k))) db),
     ZREM = (\<lambda>ms db k member. rdb_put k (put_zset (rdb_look ms db) k (mdel member (zset (rdb_look ms db) k))) db),
     ZREMRANGE = (\<lambda>ms db k hi.
        rdb_put k (put_zset (rdb_look ms db) k (filter (\<lambda>(_, score). hi < score) (zset (rdb_look ms db) k))) db),
     ZCARD = (\<lambda>ms db k. length (zset (rdb_look ms db) k)),
     ZTOP = (\<lambda>ms db k. top_score (zset (rdb_look ms db) k)),
     ZSCORE = (\<lambda>ms db k member. mget (zset (rdb_look ms db) k) member),
     PING = (\<lambda>db. None),
     px_millis = (\<lambda>ttl. if ttl < millisecond then 1 else ttl div millisecond),
     tonumber = (\<lambda>s. None), number_text = (\<lambda>n. [])\<rparr>"

lemma mget_rdb_put [simp]: "mget (rdb_put k e db) = (mget db)(k := e)"
  by (auto simp: rdb_put_def fun_eq_iff split: option.split)

lemma top_score_law:
  "case top_score z of None \<Rightarrow> z = [] | Some (m, sc) \<Rightarrow> (m, sc) \<in> set z \<and> (\<forall>(m', sc') \<in> set z. sc' \<le> sc)"
proof (induction z rule: top_score.induct)
  case (2 m sc z)
  show ?case
  proof (cases "top_score z")
    case (Some best)
    obtain m' sc' where best: "best = (m', sc')" by (cases best)
    have "(m', sc') \<in> set z" "\<forall>(m'', sc'') \<in> set z. sc'' \<le> sc'" using 2 Some best by auto
    then show ?thesis using Some best by (auto intro: order_trans)
  qed (use 2 in simp)
qed simp

lemma mget_filter_keys: "mget (filter (\<lambda>(k, _). k \<notin> A) db) = (\<lambda>k. if k \<in> A then None else mget db k)"
  by (induction db) (auto simp: fun_eq_iff)

interpretation sr: redis_server simple_redis "\<lambda>db. True" mget "(<)"
proof (unfold_locales, goal_cases)
  case (1 t t')
  then show ?case by (simp add: simple_redis_def zdiv_mono1 millisecond_def)
next
  case (7 s ttl ms k v nx s' b)
  show ?case
  proof (cases "nx \<and> rdb_look ms s k \<noteq> None")
    case True
    with 7 show ?thesis by (simp add: simple_redis_def rdb_look_def)
  next
    case False
    with 7 have "s' = rdb_put k (Some (v, Some (ms + ttl))) s" "b" by (auto simp: simple_redis_def split: if_splits)
    moreover have "\<not> nx \<or> rdb_look ms s k = None" using False by blast
    ultimately show ?thesis by (simp add: rdb_look_def)
  qed
next
  case (8 s ms k s' e)
  then show ?case by (auto simp: simple_redis_def split: if_splits)
next
  case (9 s m ms k s' n)
  then show ?case by (auto simp: simple_redis_def rdb_look_def split: if_splits)
next
  case (10 s ttl ms k s' b)
  then show ?case by (auto simp: simple_redis_def rdb_look_def split: option.splits)
next
  case (16 s m ms k best)
  then show ?case using top_score_law[of "zset m k"] by (simp add: simple_redis_def rdb_look_def)
next
  case (18 ttl)
  then show ?case by (simp add: simple_redis_def duration_units pos_imp_zdiv_pos_iff)
qed (auto simp: simple_redis_def rdb_look_def mget_filter_keys split: option.splits if_splits)

end
