(* ===== verification/Redis_Scripts.thy ===== *)
theory Redis_Scripts
  imports Redis_Server
begin

text \<open>
  The Lua scripts of the Redis backend (\<^verbatim>\<open>src/backend/redis/scripts.go\<close>), which Redis runs atomically: each
  is a function from the server's state to the next state and a reply. A script takes the server, its
  clock, its keys and its arguments; the arguments that the driver passes as formatted integers are integers
  here. A command that fails ends the script and is the reply's error; what the script has written by then stays.
\<close>

section \<open>Values\<close>

text \<open>What the client library hands to the driver as \<^verbatim>\<open>interface{}\<close>.\<close>

datatype go_any = AnyInt int | AnyString string | AnyBytes string | AnyList "go_any list" | AnyNil

type_synonym 'r script = "'r \<Rightarrow> 'r \<times> go_any result"

definition ints :: "int list \<Rightarrow> go_any" where
  "ints ns = AnyList (map AnyInt ns)"

text \<open>A stored value as a script reads it: as a string, and through \<^verbatim>\<open>tonumber\<close>.\<close>

definition val_text :: "'r RedisServer \<Rightarrow> rval \<Rightarrow> string" where
  "val_text S v = (case v of RStr s \<Rightarrow> s | RNum n \<Rightarrow> number_text S n | RZSet _ \<Rightarrow> [])"

definition val_number :: "'r RedisServer \<Rightarrow> rval \<Rightarrow> int option" where
  "val_number S v = (case v of RStr s \<Rightarrow> tonumber S s | RNum n \<Rightarrow> Some n | RZSet _ \<Rightarrow> None)"

section \<open>Leases\<close>

definition renewScript :: "'r RedisServer \<Rightarrow> int \<Rightarrow> string \<Rightarrow> string \<Rightarrow> int \<Rightarrow> 'r script" where
  "renewScript S ms key owner ttl r =
     (case GET S ms r key of
        None \<Rightarrow> (r, Inr (AnyInt 0))
      | Some current \<Rightarrow>
          if val_text S current \<noteq> owner then (r, Inr (AnyInt (- 1)))
          else if ttl \<le> 0 then (r, Inr (AnyInt (- 3)))
          else (case PEXPIRE S ms r key ttl of
                  (r', False) \<Rightarrow> (r', Inr (AnyInt (- 2)))
                | (r', True) \<Rightarrow> (r', Inr (AnyInt ttl))))"

definition releaseScript :: "'r RedisServer \<Rightarrow> int \<Rightarrow> string \<Rightarrow> string \<Rightarrow> 'r script" where
  "releaseScript S ms key owner r =
     (case GET S ms r key of
        None \<Rightarrow> (r, Inr (AnyInt 0))
      | Some current \<Rightarrow>
          if val_text S current \<noteq> owner then (r, Inr (AnyInt (- 1)))
          else (DEL S ms r [key], Inr (AnyInt 1)))"

definition presenceScript :: "'r RedisServer \<Rightarrow> int \<Rightarrow> string \<Rightarrow> 'r script" where
  "presenceScript S ms key r =
     (case GET S ms r key of
        None \<Rightarrow> (r, Inr (ints [0]))
      | Some current \<Rightarrow>
          let ttl = PTTL S ms r key in
          if ttl \<le> 0 then (r, Inr (ints [0]))
          else (r, Inr (AnyList [AnyInt 1, AnyString (val_text S current), AnyInt ttl])))"

section \<open>Strict leases\<close>

definition strictAcquireScript ::
  "'r RedisServer \<Rightarrow> int \<Rightarrow> string \<Rightarrow> string \<Rightarrow> string \<Rightarrow> string \<Rightarrow> int \<Rightarrow> 'r script"
where
  "strictAcquireScript S ms lease_key counter_key token_key owner ttl r =
     (if owner = [] \<or> ttl \<le> 0 then (r, Inr (ints [- 3, 0, 0]))
      else if EXISTS S ms r lease_key then (r, Inr (ints [- 1, 0, 0]))
      else (case INCR S ms r counter_key of
              (r1, Inl err) \<Rightarrow> (r1, Inl err)
            | (r1, Inr token) \<Rightarrow>
                (case SETPX S ms r1 lease_key (RStr owner) ttl True of
                   (r2, False) \<Rightarrow> (r2, Inr (ints [- 1, 0, 0]))
                 | (r2, True) \<Rightarrow>
                     (case SETPX S ms r2 token_key (RNum token) ttl False of
                        (r3, _) \<Rightarrow> (r3, Inr (ints [1, ttl, token]))))))"

definition strictRenewScript ::
  "'r RedisServer \<Rightarrow> int \<Rightarrow> string \<Rightarrow> string \<Rightarrow> string \<Rightarrow> int \<Rightarrow> int \<Rightarrow> 'r script"
where
  "strictRenewScript S ms lease_key token_key owner token ttl r =
     (if owner = [] \<or> token \<le> 0 \<or> ttl \<le> 0 then (r, Inr (ints [- 3, 0, 0]))
      else (case GET S ms r lease_key of
              None \<Rightarrow> (r, Inr (ints [0, 0, 0]))
            | Some currentOwner \<Rightarrow>
                if val_text S currentOwner \<noteq> owner then (r, Inr (ints [- 1, 0, 0]))
                else (case GET S ms r token_key of
                        None \<Rightarrow> (r, Inr (ints [- 2, 0, 0]))
                      | Some currentToken \<Rightarrow>
                          if val_number S currentToken \<noteq> Some token then (r, Inr (ints [- 1, 0, 0]))
                          else (case PEXPIRE S ms r lease_key ttl of
                                  (r1, False) \<Rightarrow> (r1, Inr (ints [- 2, 0, 0]))
                                | (r1, True) \<Rightarrow>
                                    (case PEXPIRE S ms r1 token_key ttl of
                                       (r2, False) \<Rightarrow> (r2, Inr (ints [- 2, 0, 0]))
                                     | (r2, True) \<Rightarrow> (r2, Inr (ints [1, ttl, token])))))))"

definition strictReleaseScript ::
  "'r RedisServer \<Rightarrow> int \<Rightarrow> string \<Rightarrow> string \<Rightarrow> string \<Rightarrow> int \<Rightarrow> 'r script"
where
  "strictReleaseScript S ms lease_key token_key owner token r =
     (if owner = [] \<or> token \<le> 0 then (r, Inr (AnyInt (- 2)))
      else (case GET S ms r lease_key of
              None \<Rightarrow> (r, Inr (AnyInt 0))
            | Some currentOwner \<Rightarrow>
                if val_text S currentOwner \<noteq> owner then (r, Inr (AnyInt (- 1)))
                else (case GET S ms r token_key of
                        None \<Rightarrow> (r, Inr (AnyInt 0))
                      | Some currentToken \<Rightarrow>
                          if val_number S currentToken \<noteq> Some token then (r, Inr (AnyInt (- 1)))
                          else (DEL S ms r [lease_key, token_key], Inr (AnyInt 1)))))"

section \<open>Lineage leases\<close>

text \<open>The local function that the acquire and the renew script share, and the body of their loops over the ancestors.\<close>

definition prune_and_get_remaining :: "'r RedisServer \<Rightarrow> int \<Rightarrow> int \<Rightarrow> string \<Rightarrow> 'r \<Rightarrow> 'r \<times> int" where
  "prune_and_get_remaining S ms now key r =
     (let r1 = ZREMRANGE S ms r key now in
      (r1, case ZTOP S ms r1 key of
             None \<Rightarrow> 0
           | Some (_, expiry) \<Rightarrow> if now < expiry then expiry - now else 0))"

definition touch_lineage :: "'r RedisServer \<Rightarrow> int \<Rightarrow> int \<Rightarrow> bool \<Rightarrow> int \<Rightarrow> string \<Rightarrow> string \<Rightarrow> 'r \<Rightarrow> 'r" where
  "touch_lineage S ms now xx expiry member lineage_key r =
     (case prune_and_get_remaining S ms now lineage_key (ZADD S ms r lineage_key xx expiry member) of
        (r1, remaining) \<Rightarrow>
          if remaining \<le> 0 then DEL S ms r1 [lineage_key]
          else if PTTL S ms r1 lineage_key < remaining
          then fst (PEXPIRE S ms r1 lineage_key remaining)
          else r1)"

definition lineageAcquireScript ::
  "'r RedisServer \<Rightarrow> int \<Rightarrow> string list \<Rightarrow> string \<Rightarrow> int \<Rightarrow> int \<Rightarrow> string \<Rightarrow> string \<Rightarrow> nat \<Rightarrow> 'r script"
where
  "lineageAcquireScript S ms keys owner ttl now kind member ancestor_count r =
     (if ttl \<le> 0 \<or> member = [] then (r, Inr (ints [- 3, 0]))
      else
        let r1 = ZREMRANGE S ms r (keys ! 1) now in
        if 0 < ZCARD S ms r1 (keys ! 1) then (r1, Inr (ints [- 2, 0]))
        else if EXISTS S ms r1 (keys ! 0) then (r1, Inr (ints [- 1, 0]))
        else if kind = ''child'' \<and> list_ex (EXISTS S ms r1) (take ancestor_count (drop 2 keys))
        then (r1, Inr (ints [- 2, 0]))
        else (case SETPX S ms r1 (keys ! 0) (RStr owner) ttl True of
                (r2, False) \<Rightarrow> (r2, Inr (ints [- 1, 0]))
              | (r2, True) \<Rightarrow>
                  (fold (touch_lineage S ms now False (now + ttl) member)
                     (take ancestor_count (drop (2 + ancestor_count) keys)) r2,
                   Inr (ints [1, ttl]))))"

definition lineageRenewScript ::
  "'r RedisServer \<Rightarrow> int \<Rightarrow> string list \<Rightarrow> string \<Rightarrow> int \<Rightarrow> int \<Rightarrow> string \<Rightarrow> nat \<Rightarrow> 'r script"
where
  "lineageRenewScript S ms keys owner ttl now member ancestor_count r =
     (if ttl \<le> 0 \<or> member = [] then (r, Inr (ints [- 3, 0]))
      else (case GET S ms r (keys ! 0) of
              None \<Rightarrow> (r, Inr (ints [0, 0]))
            | Some current \<Rightarrow>
                if val_text S current \<noteq> owner then (r, Inr (ints [- 1, 0]))
                else if list_ex (\<lambda>k. ZSCORE S ms r k member = None) (take ancestor_count (drop 1 keys))
                then (r, Inr (ints [- 4, 0]))
                else
                  (case PEXPIRE S ms
                          (fold (touch_lineage S ms now True (now + ttl) member) (take ancestor_count (drop 1 keys)) r)
                          (keys ! 0) ttl of
                     (r1, False) \<Rightarrow> (r1, Inr (ints [- 2, 0]))
                   | (r1, True) \<Rightarrow> (r1, Inr (ints [1, ttl])))))"

text \<open>The body of the loop over the ancestors in the release script.\<close>

definition leave_lineage :: "'r RedisServer \<Rightarrow> int \<Rightarrow> int \<Rightarrow> string \<Rightarrow> string \<Rightarrow> 'r \<Rightarrow> 'r" where
  "leave_lineage S ms now member lineage_key r =
     (let r1 = ZREMRANGE S ms (ZREM S ms r lineage_key member) lineage_key now in
      if ZCARD S ms r1 lineage_key = 0 then DEL S ms r1 [lineage_key]
      else (case ZTOP S ms r1 lineage_key of
              Some (_, expiry) \<Rightarrow>
                if now < expiry then fst (PEXPIRE S ms r1 lineage_key (expiry - now)) else DEL S ms r1 [lineage_key]
            | None \<Rightarrow> DEL S ms r1 [lineage_key]))"

definition lineageReleaseScript ::
  "'r RedisServer \<Rightarrow> int \<Rightarrow> string list \<Rightarrow> string \<Rightarrow> int \<Rightarrow> string \<Rightarrow> nat \<Rightarrow> 'r script"
where
  "lineageReleaseScript S ms keys owner now member ancestor_count r =
     (if member = [] then (r, Inr (AnyInt (- 2)))
      else (case GET S ms r (keys ! 0) of
              None \<Rightarrow> (r, Inr (AnyInt 0))
            | Some current \<Rightarrow>
                if val_text S current \<noteq> owner then (r, Inr (AnyInt (- 1)))
                else (fold (leave_lineage S ms now member) (take ancestor_count (drop 1 keys)) (DEL S ms r [keys ! 0]),
                      Inr (AnyInt 1))))"

end
