(* ===== verification/Base64.thy ===== *)
theory Base64
  imports Prelude
begin

text \<open>
  Go's unpadded URL-safe base64, which hold tokens and Redis keys use. \<open>b64_encode\<close> and \<open>b64_decode\<close> are
  \<^verbatim>\<open>base64.RawURLEncoding\<close>: decoding skips carriage returns and newlines, rejects any other character
  outside the alphabet and a last group of one character, and ignores the unused low bits of the last
  character.
\<close>

definition b64_alphabet :: string where
  "b64_alphabet = ''ABCDEFGHIJKLMNOPQRSTUVWXYZabcdefghijklmnopqrstuvwxyz0123456789-_''"

fun b64_sextets :: "nat list \<Rightarrow> nat list" where
  "b64_sextets [] = []"
| "b64_sextets [a] = [a div 4, a mod 4 * 16]"
| "b64_sextets [a, b] = [a div 4, a mod 4 * 16 + b div 16, b mod 16 * 4]"
| "b64_sextets (a # b # c # xs) =
     a div 4 # (a mod 4 * 16 + b div 16) # (b mod 16 * 4 + c div 64) # c mod 64 # b64_sextets xs"

fun b64_octets :: "nat list \<Rightarrow> nat list option" where
  "b64_octets [] = Some []"
| "b64_octets [x] = None"
| "b64_octets [x, y] = Some [x * 4 + y div 16]"
| "b64_octets [x, y, z] = Some [x * 4 + y div 16, y mod 16 * 16 + z div 4]"
| "b64_octets (x # y # z # u # xs) =
     map_option (\<lambda>r. (x * 4 + y div 16) # (y mod 16 * 16 + z div 4) # (z mod 4 * 64 + u) # r) (b64_octets xs)"

definition b64_value :: "char \<Rightarrow> nat option" where
  "b64_value c = map_of (zip b64_alphabet [0..<64]) c"

definition b64_encode :: "string \<Rightarrow> string" where
  "b64_encode s = map (\<lambda>n. b64_alphabet ! n) (b64_sextets (map of_char s))"

definition b64_decode :: "string \<Rightarrow> string option" where
  "b64_decode s =
     Option.bind (those (map b64_value (filter (\<lambda>c. c \<noteq> CHR 0x0D \<and> c \<noteq> CHR 0x0A) s)))
       (\<lambda>ns. map_option (map char_of) (b64_octets ns))"

lemma b64_octets_sextets: "\<forall>n \<in> set ns. n < 256 \<Longrightarrow> b64_octets (b64_sextets ns) = Some ns"
proof (induction ns rule: b64_sextets.induct)
  case (2 a)
  then show ?case by simp
next
  case (3 a b)
  then have "b div 16 < 16" by auto
  then show ?case by simp
next
  case (4 a b c xs)
  then have "b div 16 < 16" "c div 64 < 4" by auto
  moreover have "(a mod 4 * 16 + b div 16) mod 16 = b div 16" "(b mod 16 * 4 + c div 64) mod 4 = c div 64"
    using calculation by (metis mod_less mod_mult_self3)+
  moreover have "(a mod 4 * 16 + b div 16) div 16 = a mod 4" "(b mod 16 * 4 + c div 64) div 4 = b mod 16"
    using calculation by auto
  ultimately show ?case using 4 by (simp add: mult.commute div_mult_mod_eq)
qed simp

lemma b64_sextets_less: "\<forall>n \<in> set ns. n < 256 \<Longrightarrow> \<forall>n \<in> set (b64_sextets ns). n < 64"
proof (induction ns rule: b64_sextets.induct)
  case (3 a b)
  then have "a div 4 < 64" "b div 16 < 16" "a mod 4 \<le> 3" "b mod 16 \<le> 15" by auto
  then show ?case by simp
next
  case (4 a b c xs)
  then have "b div 16 < 16" "c div 64 < 4" "a mod 4 \<le> 3" "b mod 16 \<le> 15" by auto
  then show ?case using 4 by auto
qed auto

lemma b64_value_nth:
  assumes "n < 64"
  shows "b64_value (b64_alphabet ! n) = Some n \<and> b64_alphabet ! n \<noteq> CHR 0x0D \<and> b64_alphabet ! n \<noteq> CHR 0x0A"
proof -
  have l: "length b64_alphabet = 64" by (simp add: b64_alphabet_def)
  have d: "distinct b64_alphabet" and nl: "CHR 0x0D \<notin> set b64_alphabet" "CHR 0x0A \<notin> set b64_alphabet"
    by (simp_all add: b64_alphabet_def)
  have "map_of (zip b64_alphabet [0..<64]) (b64_alphabet ! n) = Some ([0..<64] ! n)"
    using assms l d by (intro map_of_zip_nth) auto
  moreover have "b64_alphabet ! n \<in> set b64_alphabet" using assms l by simp
  ultimately show ?thesis using assms nl by (auto simp: b64_value_def)
qed

lemma b64_decode_encode: "b64_decode (b64_encode s) = Some s"
proof -
  let ?ns = "b64_sextets (map of_char s)"
  have "\<forall>n \<in> set (map of_char s). n < (256 :: nat)" by simp
  then have o: "b64_octets ?ns = Some (map of_char s)" and less: "\<forall>n \<in> set ?ns. n < 64"
    by (rule b64_octets_sextets, rule b64_sextets_less)
  have f: "filter (\<lambda>c. c \<noteq> CHR 0x0D \<and> c \<noteq> CHR 0x0A) (b64_encode s) = b64_encode s"
    using less b64_value_nth by (auto simp: b64_encode_def filter_id_conv)
  have "those (map b64_value (map (\<lambda>n. b64_alphabet ! n) ns)) = Some ns" if "\<forall>n \<in> set ns. n < 64" for ns
    using that by (induction ns) (simp_all add: b64_value_nth)
  with less have "those (map b64_value (b64_encode s)) = Some ?ns" by (simp add: b64_encode_def)
  then show ?thesis using f o by (simp add: b64_decode_def comp_def)
qed

lemma b64_encode_inject [simp]: "b64_encode s = b64_encode s' \<longleftrightarrow> s = s'"
  using b64_decode_encode by (metis option.inject)

lemma b64_encode_no_colon: "CHR '':'' \<notin> set (b64_encode s)"
proof
  assume "CHR '':'' \<in> set (b64_encode s)"
  then obtain n where "n \<in> set (b64_sextets (map of_char s))" "CHR '':'' = b64_alphabet ! n"
    by (auto simp: b64_encode_def)
  moreover from this(1) have "n < 64" using b64_sextets_less[of "map of_char s"] by auto
  moreover have "length b64_alphabet = 64" "CHR '':'' \<notin> set b64_alphabet" by (simp_all add: b64_alphabet_def)
  ultimately show False by (metis nth_mem)
qed

end
