(* ===== verification/Strconv.thy ===== *)
theory Strconv
  imports Prelude
begin

text \<open>
  Numbers as text, as Go's package \<^verbatim>\<open>strconv\<close> reads them.
\<close>

text \<open>\<^verbatim>\<open>strconv.ParseInt(s, 10, 64)\<close>.\<close>

fun parse_digits :: "string \<Rightarrow> int \<Rightarrow> int option" where
  "parse_digits [] n = Some n"
| "parse_digits (c # cs) n =
     (if 48 \<le> (of_char c :: nat) \<and> (of_char c :: nat) \<le> 57 then parse_digits cs (n * 10 + int (of_char c) - 48) else None)"

definition parse_unsigned :: "string \<Rightarrow> int option" where
  "parse_unsigned s = (if s = [] then None else parse_digits s 0)"

definition ParseInt64 :: "string \<Rightarrow> int option" where
  "ParseInt64 s =
     (case (case s of
              CHR ''-'' # rest \<Rightarrow> map_option uminus (parse_unsigned rest)
            | CHR ''+'' # rest \<Rightarrow> parse_unsigned rest
            | _ \<Rightarrow> parse_unsigned s) of
        Some n \<Rightarrow> if - (2 ^ 63) \<le> n \<and> n < 2 ^ 63 then Some n else None
      | None \<Rightarrow> None)"

text \<open>\<^verbatim>\<open>strconv.Itoa\<close> on numbers that are not negative, and that it is read back.\<close>

fun digits :: "nat \<Rightarrow> string" where
  "digits n = (if n < 10 then [char_of (48 + n)] else digits (n div 10) @ [char_of (48 + n mod 10)])"

declare digits.simps [simp del]

definition Itoa :: "int \<Rightarrow> string" where
  "Itoa n = (if n < 0 then CHR ''-'' # digits (nat (- n)) else digits (nat n))"

lemma parse_digits_append: "parse_digits (xs @ [c]) n =
    (case parse_digits xs n of None \<Rightarrow> None
     | Some m \<Rightarrow> if 48 \<le> (of_char c :: nat) \<and> (of_char c :: nat) \<le> 57 then Some (m * 10 + int (of_char c) - 48) else None)"
  by (induction xs arbitrary: n) auto

lemma digit_char: "m < 10 \<Longrightarrow> (of_char (char_of (48 + m) :: char) :: nat) = 48 + m" for m :: nat
  by simp

lemma parse_digits_digits: "parse_digits (digits n) 0 = Some (int n)"
proof (induction n rule: digits.induct)
  case (1 n)
  show ?case
  proof (cases "n < 10")
    case True
    then show ?thesis using digit_char[OF True] by (simp add: digits.simps[of n])
  next
    case False
    have "int (n div 10) * 10 + int (n mod 10) = int n" by (metis div_mult_mod_eq of_nat_add of_nat_mult of_nat_numeral)
    then show ?thesis using False 1[OF False] digit_char[of "n mod 10"] by (simp add: digits.simps[of n] parse_digits_append)
  qed
qed

lemma digits_head: "\<exists>(m :: nat) cs. m < 10 \<and> digits n = char_of (48 + m) # cs" for n :: nat
proof (induction n rule: digits.induct)
  case (1 n)
  then show ?case by (cases "n < 10") (auto simp: digits.simps[of n])
qed

lemma digits_chars: "c \<in> set (digits n) \<Longrightarrow> 48 \<le> (of_char c :: nat) \<and> (of_char c :: nat) \<le> 57"
proof (induction n rule: digits.induct)
  case (1 n)
  show ?case
  proof (cases "n < 10")
    case True
    then show ?thesis using 1(2) digit_char[OF True] by (simp add: digits.simps[of n])
  next
    case False
    then show ?thesis using 1 digit_char[of "n mod 10"] by (auto simp: digits.simps[of n])
  qed
qed

lemma ParseInt64_Itoa:
  assumes "0 \<le> n" and "n < 2 ^ 63"
  shows "ParseInt64 (Itoa n) = Some n"
proof -
  obtain m :: nat and cs where d: "m < 10" "digits (nat n) = char_of (48 + m) # cs" using digits_head by blast
  define c where "c = (char_of (48 + m) :: char)"
  have "(of_char c :: nat) = 48 + m" unfolding c_def by (rule digit_char[OF d(1)])
  then have c: "c \<noteq> CHR ''-''" "c \<noteq> CHR ''+''" by auto
  have "parse_unsigned (c # cs) = Some n" using parse_digits_digits[of "nat n"] d(2) assms by (simp add: parse_unsigned_def c_def)
  moreover have "(case c # cs of CHR ''-'' # rest \<Rightarrow> map_option uminus (parse_unsigned rest) | CHR ''+'' # rest \<Rightarrow> parse_unsigned rest
      | _ \<Rightarrow> parse_unsigned (c # cs)) = parse_unsigned (c # cs)"
    using c by (auto split: list.splits char.splits bool.splits)
  moreover have "Itoa n = c # cs" using assms(1) d(2) by (simp add: Itoa_def c_def)
  ultimately show ?thesis using assms unfolding ParseInt64_def by (simp only: option.case if_True simp_thms) auto
qed

end
