(* ===== verification/Redis_Driver.thy ===== *)
theory Redis_Driver
  imports Redis_Scripts Backend Base64 Strconv
begin

text \<open>
  The Redis backend (\<^verbatim>\<open>src/backend/redis/driver.go\<close>) over an arbitrary Redis server. The driver's state holds the state
  of the server it talks to, the caches of encoded key prefixes (\<open>None\<close> is a nil map), and what the network does with the next requests: a request
  may be answered, fail before it is sent, run without its answer coming back, or be sent twice by the
  client library. When the list is used up, requests are answered.
\<close>

section \<open>State and network\<close>

datatype net = Answered | NotSent go_error | ReplyLost go_error | Resent

record 'r RedisDriver =
  rds_client :: bool
  rds_keyPrefix :: string
  rds_encodedIDs :: "(string, string) gomap option"
  rds_leaseKeyPrefixes :: "(string, string) gomap option"
  rds_strictFenceKeyPrefixes :: "(string, string) gomap option"
  rds_strictTokenKeyPrefixes :: "(string, string) gomap option"
  rds_lineageKeyPrefixes :: "(string, string) gomap option"
  rds_db :: 'r
  rds_net :: "net list"

definition redis_defaultKeyPrefix :: string where
  "redis_defaultKeyPrefix = ''lockman:lease''"

definition NewRedisDriver :: "bool \<Rightarrow> string \<Rightarrow> 'r \<Rightarrow> net list \<Rightarrow> 'r RedisDriver" where
  "NewRedisDriver client keyPrefix db net =
     \<lparr>rds_client = client, rds_keyPrefix = (if trim_space keyPrefix = [] then redis_defaultKeyPrefix else keyPrefix),
      rds_encodedIDs = None, rds_leaseKeyPrefixes = None, rds_strictFenceKeyPrefixes = None,
      rds_strictTokenKeyPrefixes = None, rds_lineageKeyPrefixes = None, rds_db = db, rds_net = net\<rparr>"

definition next_net :: "'r RedisDriver \<Rightarrow> net \<times> 'r RedisDriver" where
  "next_net d = (case rds_net d of [] \<Rightarrow> (Answered, d) | n # ns \<Rightarrow> (n, d\<lparr>rds_net := ns\<rparr>))"

definition send :: "('r \<Rightarrow> 'r \<times> 'a result) \<Rightarrow> 'r RedisDriver \<Rightarrow> 'r RedisDriver \<times> 'a result" where
  "send f d = (case next_net d of
     (Answered, d1) \<Rightarrow> (case f (rds_db d1) of (r, x) \<Rightarrow> (d1\<lparr>rds_db := r\<rparr>, x))
   | (NotSent err, d1) \<Rightarrow> (d1, Inl err)
   | (ReplyLost err, d1) \<Rightarrow> (d1\<lparr>rds_db := fst (f (rds_db d1))\<rparr>, Inl err)
   | (Resent, d1) \<Rightarrow> (case f (fst (f (rds_db d1))) of (r, x) \<Rightarrow> (d1\<lparr>rds_db := r\<rparr>, x)))"

section \<open>Keys\<close>

definition encodeSegment :: "string \<Rightarrow> string" where
  "encodeSegment v = b64_encode v"

definition cached :: "(string, string) gomap option \<Rightarrow> (string, string) gomap" where
  "cached cache = (case cache of None \<Rightarrow> [] | Some m \<Rightarrow> m)"

definition cachedLeaseKeyPrefix :: "string \<Rightarrow> string \<Rightarrow> 'r RedisDriver \<Rightarrow> 'r RedisDriver \<times> string" where
  "cachedLeaseKeyPrefix definitionID encoded d =
     (let pre = rds_keyPrefix d @ '':'' @ encoded @ '':'' in
      (d\<lparr>rds_leaseKeyPrefixes := Some (mput definitionID pre (cached (rds_leaseKeyPrefixes d)))\<rparr>, pre))"

definition cachedStrictFenceKeyPrefix :: "string \<Rightarrow> string \<Rightarrow> 'r RedisDriver \<Rightarrow> 'r RedisDriver \<times> string" where
  "cachedStrictFenceKeyPrefix definitionID encoded d =
     (let pre = rds_keyPrefix d @ '':fence:'' @ encoded @ '':'' in
      (d\<lparr>rds_strictFenceKeyPrefixes := Some (mput definitionID pre (cached (rds_strictFenceKeyPrefixes d)))\<rparr>, pre))"

definition cachedStrictTokenKeyPrefix :: "string \<Rightarrow> string \<Rightarrow> 'r RedisDriver \<Rightarrow> 'r RedisDriver \<times> string" where
  "cachedStrictTokenKeyPrefix definitionID encoded d =
     (let pre = rds_keyPrefix d @ '':strict-token:'' @ encoded @ '':'' in
      (d\<lparr>rds_strictTokenKeyPrefixes := Some (mput definitionID pre (cached (rds_strictTokenKeyPrefixes d)))\<rparr>, pre))"

definition cachedLineageKeyPrefix :: "string \<Rightarrow> string \<Rightarrow> 'r RedisDriver \<Rightarrow> 'r RedisDriver \<times> string" where
  "cachedLineageKeyPrefix definitionID encoded d =
     (let pre = rds_keyPrefix d @ '':lineage:'' @ encoded @ '':'' in
      (d\<lparr>rds_lineageKeyPrefixes := Some (mput definitionID pre (cached (rds_lineageKeyPrefixes d)))\<rparr>, pre))"

definition encodeDefinitionID :: "string \<Rightarrow> 'r RedisDriver \<Rightarrow> 'r RedisDriver \<times> string" where
  "encodeDefinitionID definitionID d =
     (case rds_encodedIDs d of
        None \<Rightarrow> (d, encodeSegment definitionID)
      | Some ids \<Rightarrow>
          (case mget ids definitionID of
             Some encoded \<Rightarrow> (d, encoded)
           | None \<Rightarrow> (d\<lparr>rds_encodedIDs := Some (mput definitionID (encodeSegment definitionID) ids)\<rparr>, encodeSegment definitionID)))"

definition cacheDefinitionID :: "string \<Rightarrow> 'r RedisDriver \<Rightarrow> 'r RedisDriver" where
  "cacheDefinitionID definitionID d =
     (let encoded = encodeSegment definitionID;
          d0 = d\<lparr>rds_encodedIDs := Some (mput definitionID encoded (cached (rds_encodedIDs d)))\<rparr>;
          d1 = fst (cachedLeaseKeyPrefix definitionID encoded d0);
          d2 = fst (cachedStrictFenceKeyPrefix definitionID encoded d1);
          d3 = fst (cachedStrictTokenKeyPrefix definitionID encoded d2)
      in fst (cachedLineageKeyPrefix definitionID encoded d3))"

definition CacheDefinitionIDs :: "string list \<Rightarrow> 'r RedisDriver \<Rightarrow> 'r RedisDriver" where
  "CacheDefinitionIDs ids d = fold cacheDefinitionID ids
     (d\<lparr>rds_encodedIDs := Some (cached (rds_encodedIDs d)),
        rds_leaseKeyPrefixes := Some (cached (rds_leaseKeyPrefixes d)),
        rds_strictFenceKeyPrefixes := Some (cached (rds_strictFenceKeyPrefixes d)),
        rds_strictTokenKeyPrefixes := Some (cached (rds_strictTokenKeyPrefixes d)),
        rds_lineageKeyPrefixes := Some (cached (rds_lineageKeyPrefixes d))\<rparr>)"

definition keyPrefixFor ::
  "(string \<Rightarrow> string \<Rightarrow> 'r RedisDriver \<Rightarrow> 'r RedisDriver \<times> string) \<Rightarrow> ('r RedisDriver \<Rightarrow> (string, string) gomap option)
    \<Rightarrow> string \<Rightarrow> 'r RedisDriver \<Rightarrow> 'r RedisDriver \<times> string"
where
  "keyPrefixFor build cache definitionID d =
     (case mget (cached (cache d)) definitionID of
        Some pre \<Rightarrow> (d, pre)
      | None \<Rightarrow> (case encodeDefinitionID definitionID d of (d1, encoded) \<Rightarrow> build definitionID encoded d1))"

definition buildLeaseKey :: "string \<Rightarrow> string \<Rightarrow> 'r RedisDriver \<Rightarrow> 'r RedisDriver \<times> string" where
  "buildLeaseKey definitionID resourceKey d =
     (case keyPrefixFor cachedLeaseKeyPrefix rds_leaseKeyPrefixes definitionID d of
        (d1, pre) \<Rightarrow> (d1, pre @ encodeSegment resourceKey))"

definition buildStrictFenceCounterKey :: "string \<Rightarrow> string \<Rightarrow> 'r RedisDriver \<Rightarrow> 'r RedisDriver \<times> string" where
  "buildStrictFenceCounterKey definitionID resourceKey d =
     (case keyPrefixFor cachedStrictFenceKeyPrefix rds_strictFenceKeyPrefixes definitionID d of
        (d1, pre) \<Rightarrow> (d1, pre @ encodeSegment resourceKey))"

definition buildStrictTokenKey :: "string \<Rightarrow> string \<Rightarrow> 'r RedisDriver \<Rightarrow> 'r RedisDriver \<times> string" where
  "buildStrictTokenKey definitionID resourceKey d =
     (case keyPrefixFor cachedStrictTokenKeyPrefix rds_strictTokenKeyPrefixes definitionID d of
        (d1, pre) \<Rightarrow> (d1, pre @ encodeSegment resourceKey))"

definition buildLineageKey :: "string \<Rightarrow> string \<Rightarrow> 'r RedisDriver \<Rightarrow> 'r RedisDriver \<times> string" where
  "buildLineageKey definitionID resourceKey d =
     (case keyPrefixFor cachedLineageKeyPrefix rds_lineageKeyPrefixes definitionID d of
        (d1, pre) \<Rightarrow> (d1, pre @ encodeSegment resourceKey))"

text \<open>The loops that append one key per ancestor.\<close>

fun ancestor_keys ::
  "(string \<Rightarrow> string \<Rightarrow> 'r RedisDriver \<Rightarrow> 'r RedisDriver \<times> string) \<Rightarrow> AncestorKey list \<Rightarrow> 'r RedisDriver
    \<Rightarrow> 'r RedisDriver \<times> string list"
where
  "ancestor_keys build [] d = (d, [])"
| "ancestor_keys build (a # as) d =
     (case build (ak_DefinitionID a) (ak_ResourceKey a) d of
        (d1, key) \<Rightarrow> (case ancestor_keys build as d1 of (d2, keys) \<Rightarrow> (d2, key # keys)))"

definition lineageAcquireKeys :: "LineageAcquireRequest \<Rightarrow> 'r RedisDriver \<Rightarrow> 'r RedisDriver \<times> string list" where
  "lineageAcquireKeys req d =
     (case buildLeaseKey (lq_DefinitionID req) (lq_ResourceKey req) d of
        (d1, lease) \<Rightarrow>
          (case buildLineageKey (lq_DefinitionID req) (lq_ResourceKey req) d1 of
             (d2, lineage) \<Rightarrow>
               (case ancestor_keys buildLeaseKey (lm_AncestorKeys (lq_Lineage req)) d2 of
                  (d3, leases) \<Rightarrow>
                    (case ancestor_keys buildLineageKey (lm_AncestorKeys (lq_Lineage req)) d3 of
                       (d4, lineages) \<Rightarrow> (d4, [lease, lineage] @ leases @ lineages)))))"

definition lineageRenewKeys :: "LeaseRecord \<Rightarrow> LineageLeaseMeta \<Rightarrow> 'r RedisDriver \<Rightarrow> 'r RedisDriver \<times> string list" where
  "lineageRenewKeys lease lineage d =
     (case buildLeaseKey (lr_DefinitionID lease) (lr_ResourceKeys lease ! 0) d of
        (d1, key) \<Rightarrow> (case ancestor_keys buildLineageKey (lm_AncestorKeys lineage) d1 of (d2, keys) \<Rightarrow> (d2, key # keys)))"

definition lineageReleaseKeys :: "LeaseRecord \<Rightarrow> LineageLeaseMeta \<Rightarrow> 'r RedisDriver \<Rightarrow> 'r RedisDriver \<times> string list" where
  "lineageReleaseKeys lease lineage d =
     (case buildLeaseKey (lr_DefinitionID lease) (lr_ResourceKeys lease ! 0) d of
        (d1, key) \<Rightarrow> (case ancestor_keys buildLineageKey (lm_AncestorKeys lineage) d1 of (d2, keys) \<Rightarrow> (d2, key # keys)))"

definition lineageMember :: "string \<Rightarrow> string \<Rightarrow> string \<Rightarrow> string" where
  "lineageMember leaseID definitionID resourceKey = leaseID @ ''|'' @ encodeSegment definitionID @ ''|'' @ encodeSegment resourceKey"

text \<open>\<^verbatim>\<open>string(Kind)\<close>, and the conversions of times and durations to milliseconds.\<close>

definition kind_string :: "LockKind \<Rightarrow> string" where
  "kind_string k = (case k of KindParent \<Rightarrow> ''parent'' | KindChild \<Rightarrow> ''child'' | KindOther s \<Rightarrow> s)"

definition Milliseconds :: "duration \<Rightarrow> int" where
  "Milliseconds ttl = quot ttl millisecond"

definition UnixMilli :: "time \<Rightarrow> int" where
  "UnixMilli t = t div millisecond"

definition millis :: "int \<Rightarrow> duration" where
  "millis n = wrap64 (n * millisecond)"

section \<open>Replies\<close>

abbreviation bad_reply :: "'a result" where
  "bad_reply \<equiv> Inl (Sentinel ErrInvalidScriptResponse)"

definition toInt64 :: "go_any \<Rightarrow> int result" where
  "toInt64 v = (case v of
     AnyInt n \<Rightarrow> Inr n
   | AnyString s \<Rightarrow> (case ParseInt64 s of Some n \<Rightarrow> Inr n | None \<Rightarrow> bad_reply)
   | _ \<Rightarrow> bad_reply)"

definition toString :: "go_any \<Rightarrow> string result" where
  "toString v = (case v of AnyString s \<Rightarrow> Inr s | AnyBytes s \<Rightarrow> Inr s | _ \<Rightarrow> bad_reply)"

definition parsePresenceResult :: "go_any \<Rightarrow> (string \<times> duration) option result" where
  "parsePresenceResult raw = (case raw of
     AnyList (v # vs) \<Rightarrow>
       (case toInt64 v of
          Inl err \<Rightarrow> Inl err
        | Inr status \<Rightarrow>
            if status = 0 then Inr None
            else (case vs of
                    [w, x] \<Rightarrow>
                      (case toString w of
                         Inl err \<Rightarrow> Inl err
                       | Inr owner \<Rightarrow>
                           (case toInt64 x of
                              Inl err \<Rightarrow> Inl err
                            | Inr ttlMillis \<Rightarrow> if ttlMillis \<le> 0 then Inr None else Inr (Some (owner, millis ttlMillis))))
                  | _ \<Rightarrow> bad_reply))
   | _ \<Rightarrow> bad_reply)"

definition parseLineageStatusResult :: "go_any \<Rightarrow> (int \<times> int) result" where
  "parseLineageStatusResult raw = (case raw of
     AnyList [v, w] \<Rightarrow>
       (case toInt64 v of
          Inl err \<Rightarrow> Inl err
        | Inr status \<Rightarrow> (case toInt64 w of Inl err \<Rightarrow> Inl err | Inr ttlMillis \<Rightarrow> Inr (status, ttlMillis)))
   | _ \<Rightarrow> bad_reply)"

definition parseStrictStatusResult :: "go_any \<Rightarrow> (int \<times> int \<times> int) result" where
  "parseStrictStatusResult raw = (case raw of
     AnyList [v, w, x] \<Rightarrow>
       (case toInt64 v of
          Inl err \<Rightarrow> Inl err
        | Inr status \<Rightarrow>
            (case toInt64 w of
               Inl err \<Rightarrow> Inl err
             | Inr ttlMillis \<Rightarrow>
                 (case toInt64 x of Inl err \<Rightarrow> Inl err | Inr token \<Rightarrow> Inr (status, ttlMillis, token))))
   | _ \<Rightarrow> bad_reply)"

text \<open>\<^verbatim>\<open>Cmd.Int64()\<close> of the client library, on the replies of the scripts.\<close>

definition Cmd_Int64 :: "go_any result \<Rightarrow> int result" where
  "Cmd_Int64 raw = (case raw of
     Inl err \<Rightarrow> Inl err
   | Inr (AnyInt n) \<Rightarrow> Inr n
   | Inr (AnyString s) \<Rightarrow>
       (case ParseInt64 s of Some n \<Rightarrow> Inr n | None \<Rightarrow> Inl (Errorf ''strconv.ParseInt: parsing %q'' [s] []))
   | Inr _ \<Rightarrow> Inl (Errorf ''redis: unexpected type for Int64'' [] []))"

section \<open>Validation\<close>

abbreviation invalid :: go_err where
  "invalid \<equiv> Some (Sentinel ErrInvalidRequest)"

definition validateClient :: "'r RedisDriver \<Rightarrow> go_err" where
  "validateClient d = (if \<not> rds_client d then invalid else None)"

definition validateAcquireRequest :: "AcquireRequest \<Rightarrow> go_err" where
  "validateAcquireRequest req =
     (if trim_space (aq_DefinitionID req) = [] \<or> trim_space (aq_OwnerID req) = [] then invalid
      else if length (aq_ResourceKeys req) \<noteq> 1 \<or> trim_space (aq_ResourceKeys req ! 0) = [] then invalid
      else if aq_LeaseTTL req \<le> 0 then invalid else None)"

definition validateLeaseRecord :: "LeaseRecord \<Rightarrow> go_err" where
  "validateLeaseRecord lease =
     (if trim_space (lr_DefinitionID lease) = [] \<or> trim_space (lr_OwnerID lease) = [] then invalid
      else if length (lr_ResourceKeys lease) \<noteq> 1 \<or> trim_space (lr_ResourceKeys lease ! 0) = [] then invalid else None)"

definition validateRenewLeaseRecord :: "LeaseRecord \<Rightarrow> go_err" where
  "validateRenewLeaseRecord lease =
     (case validateLeaseRecord lease of
        Some err \<Rightarrow> Some err
      | None \<Rightarrow> if lr_LeaseTTL lease \<le> 0 then invalid else None)"

definition validatePresenceRequest :: "PresenceRequest \<Rightarrow> go_err" where
  "validatePresenceRequest req =
     (if trim_space (pq_DefinitionID req) = [] then invalid
      else if length (pq_ResourceKeys req) \<noteq> 1 \<or> trim_space (pq_ResourceKeys req ! 0) = [] then invalid else None)"

definition validateLineageLeaseMeta :: "LineageLeaseMeta \<Rightarrow> go_err" where
  "validateLineageLeaseMeta meta =
     (if trim_space (lm_LeaseID meta) = [] then invalid
      else if lm_Kind meta \<noteq> KindParent \<and> lm_Kind meta \<noteq> KindChild then invalid
      else if list_ex (\<lambda>a. trim_space (ak_DefinitionID a) = [] \<or> trim_space (ak_ResourceKey a) = []) (lm_AncestorKeys meta)
      then invalid else None)"

definition validateLineageAcquireRequest :: "LineageAcquireRequest \<Rightarrow> go_err" where
  "validateLineageAcquireRequest req =
     (if trim_space (lq_DefinitionID req) = [] \<or> trim_space (lq_OwnerID req) = [] \<or> trim_space (lq_ResourceKey req) = []
      then invalid
      else if lq_LeaseTTL req \<le> 0 then invalid
      else validateLineageLeaseMeta (lq_Lineage req))"

definition validateStrictAcquireRequest :: "StrictAcquireRequest \<Rightarrow> go_err" where
  "validateStrictAcquireRequest req =
     (if trim_space (sq_DefinitionID req) = [] \<or> trim_space (sq_OwnerID req) = [] \<or> trim_space (sq_ResourceKey req) = []
      then invalid
      else if sq_LeaseTTL req \<le> 0 then invalid else None)"

definition validateStrictRenewRequest :: "LeaseRecord \<Rightarrow> token \<Rightarrow> go_err" where
  "validateStrictRenewRequest lease fencingToken =
     (case validateRenewLeaseRecord lease of
        Some err \<Rightarrow> Some err
      | None \<Rightarrow> if fencingToken = 0 then invalid else None)"

definition validateStrictReleaseRequest :: "LeaseRecord \<Rightarrow> token \<Rightarrow> go_err" where
  "validateStrictReleaseRequest lease fencingToken =
     (case validateLeaseRecord lease of
        Some err \<Rightarrow> Some err
      | None \<Rightarrow> if fencingToken = 0 then invalid else None)"

definition validateLineageRenewRequest :: "LeaseRecord \<Rightarrow> LineageLeaseMeta \<Rightarrow> go_err" where
  "validateLineageRenewRequest lease lineage =
     (case validateRenewLeaseRecord lease of Some err \<Rightarrow> Some err | None \<Rightarrow> validateLineageLeaseMeta lineage)"

definition validateLineageReleaseRequest :: "LeaseRecord \<Rightarrow> LineageLeaseMeta \<Rightarrow> go_err" where
  "validateLineageReleaseRequest lease lineage =
     (case validateLeaseRecord lease of Some err \<Rightarrow> Some err | None \<Rightarrow> validateLineageLeaseMeta lineage)"

section \<open>Operations\<close>

text \<open>The checks at the start of every method, in order; the first that fails is the result.\<close>

fun first_err :: "go_err list \<Rightarrow> go_err" where
  "first_err [] = None"
| "first_err (Some err # _) = Some err"
| "first_err (None # errs) = first_err errs"

definition buildLeaseRecord :: "string \<Rightarrow> string \<Rightarrow> string \<Rightarrow> duration \<Rightarrow> time \<Rightarrow> LeaseRecord" where
  "buildLeaseRecord definitionID resourceKey ownerID ttl now =
     \<lparr>lr_DefinitionID = definitionID, lr_ResourceKeys = [resourceKey], lr_OwnerID = ownerID, lr_LeaseTTL = ttl,
      lr_AcquiredAt = now, lr_ExpiresAt = now + ttl\<rparr>"

definition setnx :: "'r RedisServer \<Rightarrow> int \<Rightarrow> string \<Rightarrow> string \<Rightarrow> duration \<Rightarrow> 'r \<Rightarrow> 'r \<times> bool result" where
  "setnx S ms key owner ttl r = (case SETPX S ms r key (RStr owner) (px_millis S ttl) True of (r', b) \<Rightarrow> (r', Inr b))"

definition Redis_Acquire ::
  "'r RedisServer \<Rightarrow> go_ctx \<Rightarrow> time \<Rightarrow> 'r RedisDriver \<Rightarrow> AcquireRequest \<Rightarrow> 'r RedisDriver \<times> LeaseRecord result"
where
  "Redis_Acquire S ctx now d req =
     (case first_err [validateClient d, validateAcquireRequest req] of
        Some err \<Rightarrow> (d, Inl err)
      | None \<Rightarrow>
          (case buildLeaseKey (aq_DefinitionID req) (aq_ResourceKeys req ! 0) d of
             (d1, key) \<Rightarrow>
               (case send (setnx S (clock S now) key (aq_OwnerID req) (aq_LeaseTTL req)) d1 of
                  (d2, Inl err) \<Rightarrow> (d2, Inl err)
                | (d2, Inr acquired) \<Rightarrow>
                    if \<not> acquired then (d2, Inl (Sentinel ErrLeaseAlreadyHeld))
                    else (d2, Inr (buildLeaseRecord (aq_DefinitionID req) (aq_ResourceKeys req ! 0) (aq_OwnerID req)
                                     (aq_LeaseTTL req) now)))))"

definition strict_reply :: "(int \<Rightarrow> go_error) \<Rightarrow> (duration \<Rightarrow> LeaseRecord) \<Rightarrow> go_any \<Rightarrow> FencedLeaseRecord result" where
  "strict_reply refused lease raw =
     (case parseStrictStatusResult raw of
        Inl err \<Rightarrow> Inl err
      | Inr (status, ttlMillis, token) \<Rightarrow>
          if status = 1
          then if token \<le> 0 then bad_reply else Inr \<lparr>fl_Lease = lease (millis ttlMillis), fl_FencingToken = of_int token\<rparr>
          else Inl (refused status))"

definition Redis_AcquireStrict ::
  "'r RedisServer \<Rightarrow> go_ctx \<Rightarrow> time \<Rightarrow> 'r RedisDriver \<Rightarrow> StrictAcquireRequest \<Rightarrow> 'r RedisDriver \<times> FencedLeaseRecord result"
where
  "Redis_AcquireStrict S ctx now d req =
     (case first_err [validateClient d, validateStrictAcquireRequest req] of
        Some err \<Rightarrow> (d, Inl err)
      | None \<Rightarrow>
          (case buildLeaseKey (sq_DefinitionID req) (sq_ResourceKey req) d of (d1, lease_key) \<Rightarrow>
          (case buildStrictFenceCounterKey (sq_DefinitionID req) (sq_ResourceKey req) d1 of (d2, counter_key) \<Rightarrow>
          (case buildStrictTokenKey (sq_DefinitionID req) (sq_ResourceKey req) d2 of (d3, token_key) \<Rightarrow>
          (case send (strictAcquireScript S (clock S now) lease_key counter_key token_key (sq_OwnerID req)
                        (Milliseconds (sq_LeaseTTL req))) d3 of
             (d4, Inl err) \<Rightarrow> (d4, Inl err)
           | (d4, Inr raw) \<Rightarrow>
               (d4, strict_reply
                  (\<lambda>status. Sentinel (if status = - 1 then ErrLeaseAlreadyHeld
                     else if status = - 3 then ErrInvalidRequest else ErrInvalidScriptResponse))
                  (\<lambda>ttl. buildLeaseRecord (sq_DefinitionID req) (sq_ResourceKey req) (sq_OwnerID req) ttl now)
                  raw))))))"

definition Redis_Renew ::
  "'r RedisServer \<Rightarrow> go_ctx \<Rightarrow> time \<Rightarrow> 'r RedisDriver \<Rightarrow> LeaseRecord \<Rightarrow> 'r RedisDriver \<times> LeaseRecord result"
where
  "Redis_Renew S ctx now d lease =
     (case first_err [validateClient d, validateRenewLeaseRecord lease] of
        Some err \<Rightarrow> (d, Inl err)
      | None \<Rightarrow>
          (case buildLeaseKey (lr_DefinitionID lease) (lr_ResourceKeys lease ! 0) d of
             (d1, key) \<Rightarrow>
               (case send (renewScript S (clock S now) key (lr_OwnerID lease) (Milliseconds (lr_LeaseTTL lease))) d1 of
                  (d2, raw) \<Rightarrow>
                    (d2, case Cmd_Int64 raw of
                       Inl err \<Rightarrow> Inl err
                     | Inr ttlMillis \<Rightarrow>
                         if ttlMillis = 0 then Inl (Sentinel ErrLeaseNotFound)
                         else if ttlMillis = - 1 then Inl (Sentinel ErrLeaseOwnerMismatch)
                         else if ttlMillis = - 2 then Inl (Sentinel ErrLeaseExpired)
                         else if ttlMillis = - 3 then Inl (Sentinel ErrInvalidRequest)
                         else if ttlMillis < 0 then Inl (Sentinel ErrLeaseExpired)
                         else Inr (buildLeaseRecord (lr_DefinitionID lease) (lr_ResourceKeys lease ! 0) (lr_OwnerID lease)
                                     (millis ttlMillis) now)))))"

definition Redis_RenewStrict ::
  "'r RedisServer \<Rightarrow> go_ctx \<Rightarrow> time \<Rightarrow> 'r RedisDriver \<Rightarrow> LeaseRecord \<Rightarrow> token \<Rightarrow> 'r RedisDriver \<times> FencedLeaseRecord result"
where
  "Redis_RenewStrict S ctx now d lease fencingToken =
     (case first_err [validateClient d, validateStrictRenewRequest lease fencingToken] of
        Some err \<Rightarrow> (d, Inl err)
      | None \<Rightarrow>
          (case buildLeaseKey (lr_DefinitionID lease) (lr_ResourceKeys lease ! 0) d of (d1, lease_key) \<Rightarrow>
          (case buildStrictTokenKey (lr_DefinitionID lease) (lr_ResourceKeys lease ! 0) d1 of (d2, token_key) \<Rightarrow>
          (case send (strictRenewScript S (clock S now) lease_key token_key (lr_OwnerID lease) (uint fencingToken)
                        (Milliseconds (lr_LeaseTTL lease))) d2 of
             (d3, Inl err) \<Rightarrow> (d3, Inl err)
           | (d3, Inr raw) \<Rightarrow>
               (d3, strict_reply
                  (\<lambda>status. Sentinel (if status = 0 then ErrLeaseNotFound else if status = - 1 then ErrLeaseOwnerMismatch
                     else if status = - 2 then ErrLeaseExpired else if status = - 3 then ErrInvalidRequest
                     else ErrInvalidScriptResponse))
                  (\<lambda>ttl. buildLeaseRecord (lr_DefinitionID lease) (lr_ResourceKeys lease ! 0) (lr_OwnerID lease) ttl now)
                  raw)))))"

definition Redis_Release :: "'r RedisServer \<Rightarrow> go_ctx \<Rightarrow> time \<Rightarrow> 'r RedisDriver \<Rightarrow> LeaseRecord \<Rightarrow> 'r RedisDriver \<times> go_err" where
  "Redis_Release S ctx now d lease =
     (case first_err [validateClient d, validateLeaseRecord lease] of
        Some err \<Rightarrow> (d, Some err)
      | None \<Rightarrow>
          (case buildLeaseKey (lr_DefinitionID lease) (lr_ResourceKeys lease ! 0) d of
             (d1, key) \<Rightarrow>
               (case send (releaseScript S (clock S now) key (lr_OwnerID lease)) d1 of
                  (d2, raw) \<Rightarrow>
                    (d2, case Cmd_Int64 raw of
                       Inl err \<Rightarrow> Some err
                     | Inr result \<Rightarrow>
                         if result = 1 then None
                         else if result = 0 then Some (Sentinel ErrLeaseNotFound)
                         else if result = - 1 then Some (Sentinel ErrLeaseOwnerMismatch)
                         else Some (Sentinel ErrLeaseNotFound)))))"

text \<open>The status codes that \<^verbatim>\<open>ReleaseStrict\<close> and \<^verbatim>\<open>ReleaseWithLineage\<close> share.\<close>

definition release_reply :: "go_any result \<Rightarrow> go_err" where
  "release_reply raw = (case Cmd_Int64 raw of
     Inl err \<Rightarrow> Some err
   | Inr result \<Rightarrow>
       if result = 1 then None
       else if result = 0 then Some (Sentinel ErrLeaseNotFound)
       else if result = - 1 then Some (Sentinel ErrLeaseOwnerMismatch)
       else if result = - 2 then Some (Sentinel ErrInvalidRequest)
       else Some (Sentinel ErrInvalidScriptResponse))"

definition Redis_ReleaseStrict ::
  "'r RedisServer \<Rightarrow> go_ctx \<Rightarrow> time \<Rightarrow> 'r RedisDriver \<Rightarrow> LeaseRecord \<Rightarrow> token \<Rightarrow> 'r RedisDriver \<times> go_err"
where
  "Redis_ReleaseStrict S ctx now d lease fencingToken =
     (case first_err [validateClient d, validateStrictReleaseRequest lease fencingToken] of
        Some err \<Rightarrow> (d, Some err)
      | None \<Rightarrow>
          (case buildLeaseKey (lr_DefinitionID lease) (lr_ResourceKeys lease ! 0) d of (d1, lease_key) \<Rightarrow>
          (case buildStrictTokenKey (lr_DefinitionID lease) (lr_ResourceKeys lease ! 0) d1 of (d2, token_key) \<Rightarrow>
             map_prod id release_reply
               (send (strictReleaseScript S (clock S now) lease_key token_key (lr_OwnerID lease) (uint fencingToken)) d2))))"

definition Redis_CheckPresence ::
  "'r RedisServer \<Rightarrow> go_ctx \<Rightarrow> time \<Rightarrow> 'r RedisDriver \<Rightarrow> PresenceRequest \<Rightarrow> 'r RedisDriver \<times> PresenceRecord result"
where
  "Redis_CheckPresence S ctx now d req =
     (case first_err [validateClient d, validatePresenceRequest req] of
        Some err \<Rightarrow> (d, Inl err)
      | None \<Rightarrow>
          let resourceKey = pq_ResourceKeys req ! 0;
              record = \<lparr>pr_Present = False, pr_DefinitionID = pq_DefinitionID req, pr_ResourceKeys = [resourceKey], pr_Lease = None\<rparr>
          in (case buildLeaseKey (pq_DefinitionID req) resourceKey d of
                (d1, key) \<Rightarrow>
                  (case send (presenceScript S (clock S now) key) d1 of
                     (d2, Inl err) \<Rightarrow> (d2, Inl err)
                   | (d2, Inr raw) \<Rightarrow>
                       (d2, case parsePresenceResult raw of
                          Inl err \<Rightarrow> Inl err
                        | Inr None \<Rightarrow> Inr record
                        | Inr (Some (owner, ttl)) \<Rightarrow>
                            Inr (record\<lparr>pr_Present := True,
                              pr_Lease := Some \<lparr>lr_DefinitionID = pq_DefinitionID req, lr_ResourceKeys = [resourceKey],
                                lr_OwnerID = owner, lr_LeaseTTL = ttl, lr_AcquiredAt = zero_time, lr_ExpiresAt = now + ttl\<rparr>\<rparr>)))))"

definition lineage_reply :: "(int \<Rightarrow> sentinel) \<Rightarrow> (duration \<Rightarrow> 'a) \<Rightarrow> go_any \<Rightarrow> 'a result" where
  "lineage_reply refused lease raw =
     (case parseLineageStatusResult raw of
        Inl err \<Rightarrow> Inl err
      | Inr (status, ttlMillis) \<Rightarrow>
          if status = 1 then Inr (lease (millis ttlMillis)) else Inl (Sentinel (refused status)))"

definition Redis_AcquireWithLineage ::
  "'r RedisServer \<Rightarrow> go_ctx \<Rightarrow> time \<Rightarrow> 'r RedisDriver \<Rightarrow> LineageAcquireRequest \<Rightarrow> 'r RedisDriver \<times> LeaseRecord result"
where
  "Redis_AcquireWithLineage S ctx now d req =
     (case first_err [validateClient d, validateLineageAcquireRequest req] of
        Some err \<Rightarrow> (d, Inl err)
      | None \<Rightarrow>
          (case lineageAcquireKeys req d of (d1, keys) \<Rightarrow>
          (case send (lineageAcquireScript S (clock S now) keys (lq_OwnerID req) (Milliseconds (lq_LeaseTTL req)) (UnixMilli now)
                        (kind_string (lm_Kind (lq_Lineage req)))
                        (lineageMember (lm_LeaseID (lq_Lineage req)) (lq_DefinitionID req) (lq_ResourceKey req))
                        (length (lm_AncestorKeys (lq_Lineage req)))) d1 of
             (d2, Inl err) \<Rightarrow> (d2, Inl err)
           | (d2, Inr raw) \<Rightarrow>
               (d2, lineage_reply
                  (\<lambda>status. if status = - 1 then ErrLeaseAlreadyHeld else if status = - 2 then ErrOverlapRejected
                     else if status = - 3 then ErrInvalidRequest else ErrInvalidScriptResponse)
                  (\<lambda>ttl. buildLeaseRecord (lq_DefinitionID req) (lq_ResourceKey req) (lq_OwnerID req) ttl now) raw))))"

definition Redis_RenewWithLineage ::
  "'r RedisServer \<Rightarrow> go_ctx \<Rightarrow> time \<Rightarrow> 'r RedisDriver \<Rightarrow> LeaseRecord \<Rightarrow> LineageLeaseMeta
    \<Rightarrow> 'r RedisDriver \<times> (LeaseRecord \<times> LineageLeaseMeta) result"
where
  "Redis_RenewWithLineage S ctx now d lease lineage =
     (case first_err [validateClient d, validateLineageRenewRequest lease lineage] of
        Some err \<Rightarrow> (d, Inl err)
      | None \<Rightarrow>
          (case lineageRenewKeys lease lineage d of (d1, keys) \<Rightarrow>
          (case send (lineageRenewScript S (clock S now) keys (lr_OwnerID lease) (Milliseconds (lr_LeaseTTL lease)) (UnixMilli now)
                        (lineageMember (lm_LeaseID lineage) (lr_DefinitionID lease) (lr_ResourceKeys lease ! 0))
                        (length (lm_AncestorKeys lineage))) d1 of
             (d2, Inl err) \<Rightarrow> (d2, Inl err)
           | (d2, Inr raw) \<Rightarrow>
               (d2, lineage_reply
                  (\<lambda>status. if status = 0 then ErrLeaseNotFound else if status = - 1 then ErrLeaseOwnerMismatch
                     else if status = - 2 then ErrLeaseExpired else if status = - 3 then ErrInvalidRequest
                     else if status = - 4 then ErrLeaseExpired else ErrInvalidScriptResponse)
                  (\<lambda>ttl. (buildLeaseRecord (lr_DefinitionID lease) (lr_ResourceKeys lease ! 0) (lr_OwnerID lease) ttl now, lineage))
                  raw))))"

definition Redis_ReleaseWithLineage ::
  "'r RedisServer \<Rightarrow> go_ctx \<Rightarrow> time \<Rightarrow> 'r RedisDriver \<Rightarrow> LeaseRecord \<Rightarrow> LineageLeaseMeta \<Rightarrow> 'r RedisDriver \<times> go_err"
where
  "Redis_ReleaseWithLineage S ctx now d lease lineage =
     (case first_err [validateClient d, validateLineageReleaseRequest lease lineage] of
        Some err \<Rightarrow> (d, Some err)
      | None \<Rightarrow>
          (case lineageReleaseKeys lease lineage d of (d1, keys) \<Rightarrow>
             map_prod id release_reply
               (send (lineageReleaseScript S (clock S now) keys (lr_OwnerID lease) (UnixMilli now)
                        (lineageMember (lm_LeaseID lineage) (lr_DefinitionID lease) (lr_ResourceKeys lease ! 0))
                        (length (lm_AncestorKeys lineage))) d1)))"

definition Redis_Ping :: "'r RedisServer \<Rightarrow> go_ctx \<Rightarrow> time \<Rightarrow> 'r RedisDriver \<Rightarrow> 'r RedisDriver \<times> go_err" where
  "Redis_Ping S ctx now d =
     (case validateClient d of
        Some err \<Rightarrow> (d, Some err)
      | None \<Rightarrow>
          (case send (\<lambda>r. (r, case PING S r of Some err \<Rightarrow> Inl err | None \<Rightarrow> Inr ())) d of
             (d1, Inl err) \<Rightarrow> (d1, Some err)
           | (d1, Inr _) \<Rightarrow> (d1, None)))"

definition Redis_ForceReleaseDefinition ::
  "'r RedisServer \<Rightarrow> go_ctx \<Rightarrow> time \<Rightarrow> 'r RedisDriver \<Rightarrow> string \<Rightarrow> string \<Rightarrow> 'r RedisDriver \<times> go_err"
where
  "Redis_ForceReleaseDefinition S ctx now d definitionID resourceKey =
     (case validateClient d of
        Some err \<Rightarrow> (d, Some err)
      | None \<Rightarrow>
          (case buildLeaseKey definitionID resourceKey d of (d1, lease_key) \<Rightarrow>
          (case buildStrictFenceCounterKey definitionID resourceKey d1 of (d2, counter_key) \<Rightarrow>
          (case buildStrictTokenKey definitionID resourceKey d2 of (d3, token_key) \<Rightarrow>
          (case send (\<lambda>r. (DEL S (clock S now) r [lease_key, counter_key, token_key], Inr ())) d3 of
             (d4, Inl err) \<Rightarrow> (d4, Some err)
           | (d4, Inr _) \<Rightarrow> (d4, None))))))"

definition redis_strict :: "'r RedisServer \<Rightarrow> 'r RedisDriver StrictDriver" where
  "redis_strict S = \<lparr>AcquireStrict = Redis_AcquireStrict S, RenewStrict = Redis_RenewStrict S, ReleaseStrict = Redis_ReleaseStrict S\<rparr>"

definition redis_lineage :: "'r RedisServer \<Rightarrow> 'r RedisDriver LineageDriver" where
  "redis_lineage S = \<lparr>AcquireWithLineage = Redis_AcquireWithLineage S, RenewWithLineage = Redis_RenewWithLineage S,
     ReleaseWithLineage = Redis_ReleaseWithLineage S\<rparr>"

definition redis_driver :: "'r RedisServer \<Rightarrow> 'r RedisDriver Driver" where
  "redis_driver S =
     \<lparr>Acquire = Redis_Acquire S, Renew = Redis_Renew S, Release = Redis_Release S, CheckPresence = Redis_CheckPresence S,
      Ping = Redis_Ping S, as_StrictDriver = Some (redis_strict S), as_LineageDriver = Some (redis_lineage S),
      as_ForceReleaseDriver = Some (Redis_ForceReleaseDefinition S)\<rparr>"

end
