(* ===== verification/Redis_Keys.thy ===== *)
theory Redis_Keys
  imports Redis_Driver
begin

text \<open>
  The keys of the Redis backend: the scheme \<open>redis_key\<close> behind the four builders is injective, the caches of
  prefixes and encoded identifiers are transparent, and a request is run at most once when the network is.
\<close>

section \<open>The key scheme\<close>

datatype key_family = LeaseKey | FenceKey | TokenKey | LineageKey

fun family_infix :: "key_family \<Rightarrow> string" where
  "family_infix LeaseKey = '':''"
| "family_infix FenceKey = '':fence:''"
| "family_infix TokenKey = '':strict-token:''"
| "family_infix LineageKey = '':lineage:''"

definition redis_key :: "string \<Rightarrow> key_family \<Rightarrow> string \<Rightarrow> string \<Rightarrow> string" where
  "redis_key p f d k = p @ family_infix f @ encodeSegment d @ '':'' @ encodeSegment k"

lemma split_at_first:
  "c \<notin> set xs \<Longrightarrow> c \<notin> set ys \<Longrightarrow> xs @ c # r = ys @ c # r' \<longleftrightarrow> xs = ys \<and> r = r'"
proof (induction xs arbitrary: ys)
  case Nil
  then show ?case by (cases ys) auto
next
  case (Cons x xs)
  then show ?case by (cases ys) auto
qed

lemma encodeSegment_no_colon: "CHR '':'' \<notin> set (encodeSegment s)"
  by (simp add: encodeSegment_def b64_encode_no_colon)

lemma encodeSegment_inject [simp]: "encodeSegment s = encodeSegment s' \<longleftrightarrow> s = s'"
  by (simp add: encodeSegment_def)

text \<open>The part after the prefix: two segments for a lease, and a name and two segments for the rest.\<close>

definition key_name :: "key_family \<Rightarrow> string" where
  "key_name f = (case f of LeaseKey \<Rightarrow> [] | FenceKey \<Rightarrow> ''fence'' | TokenKey \<Rightarrow> ''strict-token'' | LineageKey \<Rightarrow> ''lineage'')"

lemma redis_key_segments:
  "redis_key p f d k = p @ CHR '':'' # (if f = LeaseKey then encodeSegment d @ CHR '':'' # encodeSegment k
     else key_name f @ CHR '':'' # encodeSegment d @ CHR '':'' # encodeSegment k)"
  by (cases f) (simp_all add: redis_key_def key_name_def)

lemma segments_differ:
  assumes "CHR '':'' \<notin> set n"
  shows "n @ CHR '':'' # encodeSegment d @ CHR '':'' # encodeSegment k \<noteq> encodeSegment d' @ CHR '':'' # encodeSegment k'"
proof
  assume "n @ CHR '':'' # encodeSegment d @ CHR '':'' # encodeSegment k = encodeSegment d' @ CHR '':'' # encodeSegment k'"
  then have "encodeSegment d @ CHR '':'' # encodeSegment k = encodeSegment k'"
    using split_at_first[OF assms encodeSegment_no_colon] by blast
  then show False using encodeSegment_no_colon[of k'] by (metis in_set_conv_decomp)
qed

lemma redis_key_inject [simp]: "redis_key p f d k = redis_key p f' d' k' \<longleftrightarrow> f = f' \<and> d = d' \<and> k = k'"
proof -
  have n: "CHR '':'' \<notin> set (key_name f)" for f by (simp add: key_name_def split: key_family.split)
  have i: "f \<noteq> LeaseKey \<Longrightarrow> f' \<noteq> LeaseKey \<Longrightarrow> key_name f = key_name f' \<longleftrightarrow> f = f'"
    by (simp add: key_name_def split: key_family.split)
  note eqs = split_at_first[OF n n] split_at_first[OF encodeSegment_no_colon encodeSegment_no_colon]
  show ?thesis
    using segments_differ[OF n, of f d k d' k'] segments_differ[OF n, of f' d' k' d k]
    by (cases "f = LeaseKey"; cases "f' = LeaseKey") (auto simp: redis_key_segments eqs i)
qed

section \<open>Caches\<close>

text \<open>The four builders differ in the family only.\<close>

fun family_cache :: "key_family \<Rightarrow> 'r RedisDriver \<Rightarrow> (string, string) gomap option" where
  "family_cache LeaseKey = rds_leaseKeyPrefixes"
| "family_cache FenceKey = rds_strictFenceKeyPrefixes"
| "family_cache TokenKey = rds_strictTokenKeyPrefixes"
| "family_cache LineageKey = rds_lineageKeyPrefixes"

fun set_family_cache :: "key_family \<Rightarrow> (string, string) gomap option \<Rightarrow> 'r RedisDriver \<Rightarrow> 'r RedisDriver" where
  "set_family_cache LeaseKey c d = d\<lparr>rds_leaseKeyPrefixes := c\<rparr>"
| "set_family_cache FenceKey c d = d\<lparr>rds_strictFenceKeyPrefixes := c\<rparr>"
| "set_family_cache TokenKey c d = d\<lparr>rds_strictTokenKeyPrefixes := c\<rparr>"
| "set_family_cache LineageKey c d = d\<lparr>rds_lineageKeyPrefixes := c\<rparr>"

definition cached_prefix :: "key_family \<Rightarrow> string \<Rightarrow> string \<Rightarrow> 'r RedisDriver \<Rightarrow> 'r RedisDriver \<times> string" where
  "cached_prefix f i e d =
     (set_family_cache f (Some (mput i (rds_keyPrefix d @ family_infix f @ e @ '':'') (cached (family_cache f d)))) d,
      rds_keyPrefix d @ family_infix f @ e @ '':'')"

definition family_key :: "key_family \<Rightarrow> string \<Rightarrow> string \<Rightarrow> 'r RedisDriver \<Rightarrow> 'r RedisDriver \<times> string" where
  "family_key f i k d = (case keyPrefixFor (cached_prefix f) (family_cache f) i d of (d1, pre) \<Rightarrow> (d1, pre @ encodeSegment k))"

lemma cached_prefix_families:
  "cachedLeaseKeyPrefix = cached_prefix LeaseKey" "cachedStrictFenceKeyPrefix = cached_prefix FenceKey"
  "cachedStrictTokenKeyPrefix = cached_prefix TokenKey" "cachedLineageKeyPrefix = cached_prefix LineageKey"
  by (simp_all add: fun_eq_iff cached_prefix_def Let_def cachedLeaseKeyPrefix_def cachedStrictFenceKeyPrefix_def
      cachedStrictTokenKeyPrefix_def cachedLineageKeyPrefix_def)

lemma family_key_eqs:
  "buildLeaseKey = family_key LeaseKey" "buildStrictFenceCounterKey = family_key FenceKey"
  "buildStrictTokenKey = family_key TokenKey" "buildLineageKey = family_key LineageKey"
  by (simp_all add: fun_eq_iff family_key_def buildLeaseKey_def buildStrictFenceCounterKey_def buildStrictTokenKey_def
      buildLineageKey_def cached_prefix_families)

definition cache_ok :: "'r RedisDriver \<Rightarrow> bool" where
  "cache_ok d \<longleftrightarrow> (\<forall>i v. mget (cached (rds_encodedIDs d)) i = Some v \<longrightarrow> v = encodeSegment i)
     \<and> (\<forall>f i v. mget (cached (family_cache f d)) i = Some v \<longrightarrow> v = rds_keyPrefix d @ family_infix f @ encodeSegment i @ '':'')"

text \<open>
  A driver with a client whose caches are right, and whose network runs every request at most
  once and delivers the answer of those it runs.
\<close>

definition net_ok :: "net \<Rightarrow> bool" where
  "net_ok n = (case n of Answered \<Rightarrow> True | NotSent _ \<Rightarrow> True | _ \<Rightarrow> False)"

definition drv_ok :: "'r RedisDriver \<Rightarrow> bool" where
  "drv_ok d \<longleftrightarrow> rds_client d \<and> cache_ok d \<and> list_all net_ok (rds_net d)"

text \<open>Building keys changes nothing but the caches.\<close>

definition rebuilt :: "'r RedisDriver \<Rightarrow> 'r RedisDriver \<Rightarrow> bool" where
  "rebuilt d d' \<longleftrightarrow> rds_client d' = rds_client d \<and> rds_keyPrefix d' = rds_keyPrefix d
     \<and> rds_db d' = rds_db d \<and> rds_net d' = rds_net d \<and> (cache_ok d \<longrightarrow> cache_ok d')"

lemma rebuilt_refl [simp]: "rebuilt d d"
  by (simp add: rebuilt_def)

lemma rebuilt_trans: "rebuilt d d' \<Longrightarrow> rebuilt d' d'' \<Longrightarrow> rebuilt d d''"
  by (simp add: rebuilt_def)

lemma rebuilt_drv_ok: "rebuilt d d' \<Longrightarrow> drv_ok d \<Longrightarrow> drv_ok d'"
  by (simp add: rebuilt_def drv_ok_def)

lemma cached_Some [simp]: "cached (Some m) = m"
  by (simp add: cached_def)

lemma set_family_cache_simps [simp]:
  "rds_client (set_family_cache f c d) = rds_client d" "rds_keyPrefix (set_family_cache f c d) = rds_keyPrefix d"
  "rds_db (set_family_cache f c d) = rds_db d" "rds_net (set_family_cache f c d) = rds_net d"
  "rds_encodedIDs (set_family_cache f c d) = rds_encodedIDs d"
  "family_cache f' (set_family_cache f c d) = (if f' = f then c else family_cache f' d)"
  by (cases f; cases f'; simp)+

lemma family_cache_other [simp]:
  "family_cache f (d\<lparr>rds_encodedIDs := c\<rparr>) = family_cache f d" "family_cache f (d\<lparr>rds_db := r\<rparr>) = family_cache f d"
  "family_cache f (d\<lparr>rds_net := ns\<rparr>) = family_cache f d"
  by (cases f; simp)+

lemma encodeDefinitionID_ok:
  assumes "cache_ok d" and "encodeDefinitionID i d = (d', e)"
  shows "e = encodeSegment i" and "rebuilt d d'"
  using assms by (auto simp: encodeDefinitionID_def rebuilt_def cache_ok_def split: option.splits if_splits)

lemma cached_prefix_ok:
  assumes "cached_prefix f i (encodeSegment i) d = (d', pre)"
  shows "pre = rds_keyPrefix d @ family_infix f @ encodeSegment i @ '':''" and "rebuilt d d'"
  using assms by (auto simp: cached_prefix_def rebuilt_def cache_ok_def split: if_splits)

lemma family_key_ok:
  assumes "cache_ok d" and "family_key f i k d = (d', key)"
  shows "key = redis_key (rds_keyPrefix d) f i k" and "rebuilt d d'"
proof -
  obtain pre where pre: "keyPrefixFor (cached_prefix f) (family_cache f) i d = (d', pre)" "key = pre @ encodeSegment k"
    using assms(2) by (auto simp: family_key_def split: prod.splits)
  have "pre = rds_keyPrefix d @ family_infix f @ encodeSegment i @ '':'' \<and> rebuilt d d'"
  proof (cases "mget (cached (family_cache f d)) i")
    case None
    obtain d0 e where e: "encodeDefinitionID i d = (d0, e)" by fastforce
    note e_ok = encodeDefinitionID_ok[OF assms(1) e]
    have "cached_prefix f i (encodeSegment i) d0 = (d', pre)" using pre None e e_ok(1) by (simp add: keyPrefixFor_def)
    from cached_prefix_ok[OF this] e_ok(2) show ?thesis using rebuilt_trans[of d d0 d'] by (auto simp: rebuilt_def)
  next
    case (Some v)
    with assms(1) have "v = rds_keyPrefix d @ family_infix f @ encodeSegment i @ '':''" unfolding cache_ok_def by blast
    then show ?thesis using pre(1) Some by (auto simp: keyPrefixFor_def)
  qed
  then show "key = redis_key (rds_keyPrefix d) f i k" "rebuilt d d'" using pre(2) by (simp_all add: redis_key_def)
qed

lemma family_key_simps [simp]:
  assumes "drv_ok d"
  shows "snd (family_key f i k d) = redis_key (rds_keyPrefix d) f i k" and "drv_ok (fst (family_key f i k d))"
    and "rds_db (fst (family_key f i k d)) = rds_db d" and "rds_keyPrefix (fst (family_key f i k d)) = rds_keyPrefix d"
  using family_key_ok[of d f i k, OF _ prod.collapse[symmetric]] rebuilt_drv_ok[of d "fst (family_key f i k d)"] assms
  by (auto simp: drv_ok_def rebuilt_def)

definition ancestor_key :: "string \<Rightarrow> key_family \<Rightarrow> AncestorKey \<Rightarrow> string" where
  "ancestor_key p f a = redis_key p f (ak_DefinitionID a) (ak_ResourceKey a)"

lemma ancestor_keys_simps [simp]:
  assumes "drv_ok d"
  shows "snd (ancestor_keys (family_key f) as d) = map (ancestor_key (rds_keyPrefix d) f) as"
    and "drv_ok (fst (ancestor_keys (family_key f) as d))" and "rds_db (fst (ancestor_keys (family_key f) as d)) = rds_db d"
    and "rds_keyPrefix (fst (ancestor_keys (family_key f) as d)) = rds_keyPrefix d"
  using assms
  by (induction as arbitrary: d) (simp_all add: case_prod_unfold ancestor_key_def)

text \<open>The keys that the driver hands to the three lineage scripts.\<close>

definition lineage_keys :: "string \<Rightarrow> string \<Rightarrow> string \<Rightarrow> AncestorKey list \<Rightarrow> string list" where
  "lineage_keys p d k as = redis_key p LeaseKey d k # map (ancestor_key p LineageKey) as"

definition lineage_acquire_keys :: "string \<Rightarrow> string \<Rightarrow> string \<Rightarrow> AncestorKey list \<Rightarrow> string list" where
  "lineage_acquire_keys p d k as = [redis_key p LeaseKey d k, redis_key p LineageKey d k]
     @ map (ancestor_key p LeaseKey) as @ map (ancestor_key p LineageKey) as"

lemma lineage_keys_simps [simp]:
  assumes "drv_ok d"
  shows "snd (lineageAcquireKeys req d) = lineage_acquire_keys (rds_keyPrefix d) (lq_DefinitionID req) (lq_ResourceKey req) (lm_AncestorKeys (lq_Lineage req))"
    and "drv_ok (fst (lineageAcquireKeys req d))" and "rds_db (fst (lineageAcquireKeys req d)) = rds_db d"
    and "rds_keyPrefix (fst (lineageAcquireKeys req d)) = rds_keyPrefix d"
    and "snd (lineageRenewKeys l m d) = lineage_keys (rds_keyPrefix d) (lr_DefinitionID l) (lr_ResourceKeys l ! 0) (lm_AncestorKeys m)"
    and "drv_ok (fst (lineageRenewKeys l m d))" and "rds_db (fst (lineageRenewKeys l m d)) = rds_db d"
    and "rds_keyPrefix (fst (lineageRenewKeys l m d)) = rds_keyPrefix d"
  using assms
  by (simp_all add: lineageAcquireKeys_def lineageRenewKeys_def family_key_eqs case_prod_unfold
      lineage_keys_def lineage_acquire_keys_def)

lemma lineageReleaseKeys_eq: "lineageReleaseKeys = lineageRenewKeys"
  by (simp add: fun_eq_iff lineageReleaseKeys_def lineageRenewKeys_def)

section \<open>Requests\<close>

lemma send_drv:
  assumes "drv_ok d" and "send f d = (d', x)"
  shows "drv_ok d'" and "rds_keyPrefix d' = rds_keyPrefix d"
    and "f (rds_db d) = (rds_db d', x) \<or> (rds_db d' = rds_db d \<and> (\<exists>e. x = Inl e))"
  using assms
  by (auto simp: send_def next_net_def drv_ok_def net_ok_def cache_ok_def split: list.splits net.splits prod.splits)

end
