(* ===== verification/Redis_Effects.thy ===== *)
theory Redis_Effects
  imports Redis_Keys
begin

text \<open>
  What the commands and the scripts of the Redis backend do to the keys of the server, from the laws of
  \<open>redis_server\<close>: every script changes only the keys of its own lease and of the ancestors' members, and grants, renews or
  releases the lease exactly when it says so.
\<close>

section \<open>Typed key spaces\<close>

text \<open>What the driver stores under the keys of each family; a fence counter never expires.\<close>

fun fits :: "key_family \<Rightarrow> rentry \<Rightarrow> bool" where
  "fits LeaseKey (RStr _, _) = True"
| "fits FenceKey (RNum n, None) = (0 < n)"
| "fits TokenKey (RNum _, _) = True"
| "fits LineageKey (RZSet _, _) = True"
| "fits _ _ = False"

definition typed :: "string \<Rightarrow> keyspace \<Rightarrow> bool" where
  "typed p m \<longleftrightarrow> (\<forall>f d k e. m (redis_key p f d k) = Some e \<longrightarrow> fits f e)"

definition lease_owner :: "keyspace \<Rightarrow> string \<Rightarrow> string option" where
  "lease_owner m key = (case m key of Some (RStr ow, _) \<Rightarrow> Some ow | _ \<Rightarrow> None)"

lemma fits_cases:
  "fits LeaseKey e \<longleftrightarrow> (\<exists>ow x. e = (RStr ow, x))" "fits FenceKey e \<longleftrightarrow> (\<exists>n. e = (RNum n, None) \<and> 0 < n)"
  "fits TokenKey e \<longleftrightarrow> (\<exists>n x. e = (RNum n, x))" "fits LineageKey e \<longleftrightarrow> (\<exists>z x. e = (RZSet z, x))"
  by (cases e; cases "fst e"; cases "snd e"; simp)+

lemma typed_upd:
  "typed p m \<Longrightarrow> (\<And>e'. e = Some e' \<Longrightarrow> fits f e') \<Longrightarrow> typed p (m(redis_key p f d k := e))"
  by (auto simp: typed_def)

lemma typed_settles: "typed p m \<Longrightarrow> settles alive ms m m' \<Longrightarrow> typed p m'"
  using settles_Some by (fastforce simp: typed_def)

lemma typed_decay: "typed p m \<Longrightarrow> decay alive ms m (redis_key p f d k) = Some e \<Longrightarrow> fits f e"
  unfolding typed_def using decay_Some[of alive ms m] by blast

lemma typed_views:
  assumes "typed p m"
  shows "plain_at (decay alive ms m) (redis_key p LeaseKey d k)" "plain_at (decay alive ms m) (redis_key p TokenKey d k)"
    "counter_at (decay alive ms m) (redis_key p FenceKey d k)" "zset_at (decay alive ms m) (redis_key p LineageKey d k)"
  using typed_decay[OF assms, of alive ms LeaseKey d k] typed_decay[OF assms, of alive ms TokenKey d k]
    typed_decay[OF assms, of alive ms FenceKey d k] typed_decay[OF assms, of alive ms LineageKey d k]
  by (auto simp: plain_at_def counter_at_def zset_at_def fits_cases split: option.splits rval.splits)

text \<open>The keys that an operation on one lease may change: those of its boundary, less the counter, and any ancestor's members.\<close>

definition lineage_fam :: "(key_family \<times> string \<times> string) set" where
  "lineage_fam = {x. fst x = LineageKey}"

definition reach :: "string \<Rightarrow> string \<Rightarrow> (key_family \<times> string \<times> string) set" where
  "reach d k = {(LeaseKey, d, k), (TokenKey, d, k)} \<union> lineage_fam"

lemma reach_simps [simp]:
  "(LeaseKey, d', k') \<in> reach d k \<longleftrightarrow> d' = d \<and> k' = k" "(FenceKey, d', k') \<notin> reach d k"
  "(LineageKey, d', k') \<in> reach d k" "(LeaseKey, d', k') \<notin> lineage_fam" "lineage_fam \<subseteq> reach d k"
  by (auto simp: reach_def lineage_fam_def)

lemma reach_subsets: "{(LeaseKey, d, k)} \<subseteq> reach d k" "{(TokenKey, d, k)} \<subseteq> reach d k" "{(LineageKey, d', k')} \<subseteq> lineage_fam"
  by (auto simp: reach_def lineage_fam_def)

section \<open>The effect of commands\<close>

lemma ints_eq [simp]: "ints xs = ints ys \<longleftrightarrow> xs = ys"
  by (simp add: ints_def inj_map_eq_map inj_def)

context redis_server
begin

abbreviation view :: "int \<Rightarrow> 'r \<Rightarrow> keyspace" where
  "view ms s \<equiv> decay alive ms (look s)"

definition good :: "string \<Rightarrow> 'r \<Rightarrow> bool" where
  "good p s \<longleftrightarrow> ok s \<and> typed p (look s)"

lemma typed_look: "good p s \<Longrightarrow> look s (redis_key p f d k) = Some e \<Longrightarrow> fits f e"
  unfolding good_def typed_def by blast

text \<open>\<open>effect p ms F s s'\<close>: from time \<open>ms\<close> on, no key outside \<open>F\<close> changes.\<close>

definition effect :: "string \<Rightarrow> int \<Rightarrow> (key_family \<times> string \<times> string) set \<Rightarrow> 'r \<Rightarrow> 'r \<Rightarrow> bool" where
  "effect p ms F s s' \<longleftrightarrow> good p s' \<and>
     (\<forall>f d k. (f, d, k) \<notin> F \<longrightarrow> (\<forall>ms' \<ge> ms. view ms' s' (redis_key p f d k) = view ms' s (redis_key p f d k)))"

lemma effect_refl: "good p s \<Longrightarrow> effect p ms F s s"
  by (simp add: effect_def)

lemma effect_trans: "effect p ms F s s' \<Longrightarrow> effect p ms F s' s'' \<Longrightarrow> effect p ms F s s''"
  by (simp add: effect_def)

lemma effect_mono: "effect p ms F s s' \<Longrightarrow> F \<subseteq> F' \<Longrightarrow> effect p ms F' s s'"
  unfolding effect_def by blast

lemma effect_good: "effect p ms F s s' \<Longrightarrow> good p s'"
  by (simp add: effect_def)

lemma effect_view: "effect p ms F s s' \<Longrightarrow> (f, d, k) \<notin> F \<Longrightarrow> ms \<le> ms' \<Longrightarrow>
    view ms' s' (redis_key p f d k) = view ms' s (redis_key p f d k)"
  by (simp add: effect_def)

lemma write_effect:
  assumes "good p s" and "ok s' \<and> settles alive ms ((look s)(redis_key p f d k := e)) (look s')"
    and "\<And>e'. e = Some e' \<Longrightarrow> fits f e'"
  shows "effect p ms {(f, d, k)} s s'"
    and "ms \<le> ms' \<Longrightarrow> view ms' s' (redis_key p f d k) = decay alive ms' (\<lambda>_. e) (redis_key p f d k)"
proof -
  have "typed p (look s')"
    using typed_settles[OF typed_upd[of p "look s" e f d k]] assms by (auto simp: good_def)
  moreover have v: "view ms' s' = (view ms' s)(redis_key p f d k := decay alive ms' (\<lambda>_. e) (redis_key p f d k))" if "ms \<le> ms'" for ms'
    using settles_decay[OF conjunct2[OF assms(2)] that] by (simp add: decay_upd)
  ultimately show "effect p ms {(f, d, k)} s s'" using assms(2) by (simp add: effect_def good_def)
  show "ms \<le> ms' \<Longrightarrow> view ms' s' (redis_key p f d k) = decay alive ms' (\<lambda>_. e) (redis_key p f d k)" using v by simp
qed

text \<open>A command that leaves the key space as it is.\<close>

lemma idle_effect:
  assumes "good p s" and "ok s' \<and> settles alive ms (look s) (look s')"
  shows "effect p ms F s s'" and "ms \<le> ms' \<Longrightarrow> view ms' s' = view ms' s"
  using assms settles_decay[OF conjunct2[OF assms(2)]] typed_settles[OF _ conjunct2[OF assms(2)]]
  by (auto simp: effect_def good_def)

lemma decay_const: "0 < ttl \<Longrightarrow> decay alive ms (\<lambda>_. Some (v, Some (ms + ttl))) k = Some (v, Some (ms + ttl))"
  "decay alive ms (\<lambda>_. None) k = None"
  by (simp_all add: decay_def alive_now)

lemma setpx_effect:
  assumes "good p s" and "0 < ttl" and "SETPX S ms s (redis_key p f d k) v ttl nx = (s', b)" and "fits f (v, Some (ms + ttl))"
  shows "effect p ms {(f, d, k)} s s'" and "b \<longleftrightarrow> \<not> nx \<or> view ms s (redis_key p f d k) = None"
    and "b \<Longrightarrow> view ms s' (redis_key p f d k) = Some (v, Some (ms + ttl))"
    and "\<not> b \<Longrightarrow> ms \<le> ms' \<Longrightarrow> view ms' s' = view ms' s"
proof -
  have law: "ok s' \<and> b = (\<not> nx \<or> view ms s (redis_key p f d k) = None)
      \<and> settles alive ms (if b then (look s)(redis_key p f d k \<mapsto> (v, Some (ms + ttl))) else look s) (look s')"
    using setpx_law[OF _ assms(2,3)] assms(1) by (auto simp: good_def)
  then show "b \<longleftrightarrow> \<not> nx \<or> view ms s (redis_key p f d k) = None" by (elim conjE)
  show "effect p ms {(f, d, k)} s s'"
    using law assms(4) write_effect(1)[OF assms(1), of s' ms f d k "Some (v, Some (ms + ttl))"] idle_effect(1)[OF assms(1), of s' ms]
    by (cases b) auto
  show "b \<Longrightarrow> view ms s' (redis_key p f d k) = Some (v, Some (ms + ttl))"
    using law assms(2,4) write_effect(2)[OF assms(1), of s' ms f d k "Some (v, Some (ms + ttl))" ms]
    by (auto simp: decay_const)
  show "\<not> b \<Longrightarrow> ms \<le> ms' \<Longrightarrow> view ms' s' = view ms' s" using law idle_effect(2)[OF assms(1), of s' ms ms'] by (cases b) auto
qed

lemma pexpire_effect:
  assumes "good p s" and "0 < ttl" and "PEXPIRE S ms s (redis_key p f d k) ttl = (s', b)" and "f \<noteq> FenceKey"
  shows "effect p ms {(f, d, k)} s s'" and "b \<longleftrightarrow> view ms s (redis_key p f d k) \<noteq> None"
    and "view ms s' (redis_key p f d k) = map_option (\<lambda>(v, _). (v, Some (ms + ttl))) (view ms s (redis_key p f d k))"
proof -
  have law: "ok s' \<and> b = (view ms s (redis_key p f d k) \<noteq> None)
      \<and> settles alive ms (case view ms s (redis_key p f d k) of None \<Rightarrow> look s
           | Some (v, _) \<Rightarrow> (look s)(redis_key p f d k \<mapsto> (v, Some (ms + ttl)))) (look s')"
    using pexpire_law[OF _ assms(2,3)] assms(1) by (auto simp: good_def)
  then show "b \<longleftrightarrow> view ms s (redis_key p f d k) \<noteq> None" by (elim conjE)
  have "effect p ms {(f, d, k)} s s'
    \<and> view ms s' (redis_key p f d k) = map_option (\<lambda>(v, _). (v, Some (ms + ttl))) (view ms s (redis_key p f d k))"
  proof (cases "view ms s (redis_key p f d k)")
    case None
    with law have "ok s' \<and> settles alive ms (look s) (look s')" by simp
    from idle_effect(1)[OF assms(1) this] idle_effect(2)[OF assms(1) this, of ms] None
    show ?thesis by auto
  next
    case (Some e)
    obtain v x where e: "e = (v, x)" by fastforce
    have "fits f (v, x)" using Some typed_decay[of p "look s"] assms(1) e by (auto simp: good_def)
    then have f: "fits f (v, Some (ms + ttl))" using assms(4) by (cases f; cases v) auto
    have "ok s' \<and> settles alive ms ((look s)(redis_key p f d k \<mapsto> (v, Some (ms + ttl)))) (look s')" using law Some e by simp
    from write_effect(1)[OF assms(1) this] write_effect(2)[OF assms(1) this, of ms] f Some e assms(2)
    show ?thesis by (auto simp: decay_const)
  qed
  then show "effect p ms {(f, d, k)} s s'"
    and "view ms s' (redis_key p f d k) = map_option (\<lambda>(v, _). (v, Some (ms + ttl))) (view ms s (redis_key p f d k))" by blast+
qed

lemma del_effect:
  assumes "good p s" and "\<forall>f d k. redis_key p f d k \<in> set ks \<longrightarrow> (f, d, k) \<in> F"
  shows "effect p ms F s (DEL S ms s ks)" and "key \<in> set ks \<Longrightarrow> ms \<le> ms' \<Longrightarrow> view ms' (DEL S ms s ks) key = None"
proof -
  let ?m = "\<lambda>k. if k \<in> set ks then None else look s k"
  have law: "ok (DEL S ms s ks) \<and> settles alive ms ?m (look (DEL S ms s ks))" using del_law assms(1) by (simp add: good_def)
  have v: "view ms' (DEL S ms s ks) = decay alive ms' ?m" if "ms \<le> ms'" for ms'
    using settles_decay[OF conjunct2[OF law] that] .
  have "typed p ?m" using assms(1) by (simp add: good_def typed_def)
  then have "good p (DEL S ms s ks)" using law typed_settles by (auto simp: good_def)
  then show "effect p ms F s (DEL S ms s ks)" using v assms(2) by (auto simp: effect_def decay_def)
  show "key \<in> set ks \<Longrightarrow> ms \<le> ms' \<Longrightarrow> view ms' (DEL S ms s ks) key = None" using v by (simp add: decay_def)
qed

lemma zset_effects:
  assumes "good p s"
  shows "effect p ms {(LineageKey, d, k)} s (ZADD S ms s (redis_key p LineageKey d k) xx score member)"
    and "effect p ms {(LineageKey, d, k)} s (ZREM S ms s (redis_key p LineageKey d k) member)"
    and "effect p ms {(LineageKey, d, k)} s (ZREMRANGE S ms s (redis_key p LineageKey d k) hi)"
proof -
  note z = typed_views(4)[of p "look s" alive ms d k] and g = assms[unfolded good_def]
  have f: "effect p ms {(LineageKey, d, k)} s s'"
    if "ok s' \<and> settles alive ms ((look s)(redis_key p LineageKey d k := put_zset m key z)) (look s')" for s' m key z
    by (rule write_effect(1)[OF assms that]) (auto simp: put_zset_def split: if_splits)
  show "effect p ms {(LineageKey, d, k)} s (ZADD S ms s (redis_key p LineageKey d k) xx score member)"
    using zadd_law[OF _ refl z, of xx score member] g f idle_effect(1)[OF assms] by (auto split: if_splits)
  show "effect p ms {(LineageKey, d, k)} s (ZREM S ms s (redis_key p LineageKey d k) member)"
    using zrem_law[OF _ refl z] g f by blast
  show "effect p ms {(LineageKey, d, k)} s (ZREMRANGE S ms s (redis_key p LineageKey d k) hi)"
    using zremrange_law[OF _ refl z] g f by blast
qed

lemma lease_owner_None: "good p s \<Longrightarrow> lease_owner (view ms s) (redis_key p LeaseKey d k) = None \<longleftrightarrow> view ms s (redis_key p LeaseKey d k) = None"
  using typed_decay[of p "look s" alive ms LeaseKey d k]
  by (auto simp: lease_owner_def good_def fits_cases split: option.splits rval.splits)

lemma exists_iff: "good p s \<Longrightarrow> EXISTS S ms s key = (view ms s key \<noteq> None)"
  unfolding good_def by (rule exists_law) simp

lemma get_lease:
  assumes "good p s"
  shows "GET S ms s (redis_key p LeaseKey d k) = map_option RStr (lease_owner (view ms s) (redis_key p LeaseKey d k))"
  using assms get_law[OF _ refl typed_views(1), of s p ms d k] typed_decay[of p "look s" alive ms LeaseKey d k]
  by (auto simp: good_def lease_owner_def fits_cases split: option.splits)

lemma get_token:
  assumes "good p s"
  shows "GET S ms s (redis_key p TokenKey d k) = map_option fst (view ms s (redis_key p TokenKey d k))"
  using assms get_law[OF _ refl typed_views(2), of s p ms d k] by (simp add: good_def)

lemma val_text_RStr [simp]: "val_text S (RStr ow) = ow"
  by (simp add: val_text_def)

lemma touch_effect_at:
  assumes "good p s"
  shows "effect p ms {(LineageKey, ak_DefinitionID a, ak_ResourceKey a)} s
    (touch_lineage S ms now xx expiry member (ancestor_key p LineageKey a) s)"
proof -
  let ?k = "redis_key p LineageKey (ak_DefinitionID a) (ak_ResourceKey a)" and ?F = "{(LineageKey, ak_DefinitionID a, ak_ResourceKey a)}"
  let ?s1 = "ZADD S ms s ?k xx expiry member"
  let ?s2 = "ZREMRANGE S ms ?s1 ?k now"
  note 1 = zset_effects(1)[OF assms, of ms "ak_DefinitionID a" "ak_ResourceKey a" xx expiry member]
  note 2 = effect_trans[OF 1 zset_effects(3)[OF effect_good[OF 1]], of now]
  have d: "effect p ms ?F s (DEL S ms ?s2 [?k])"
    by (rule effect_trans[OF 2 del_effect(1)[OF effect_good[OF 2]]]) simp
  have e: "effect p ms ?F s (fst (PEXPIRE S ms ?s2 ?k n))" if "0 < n" for n
    using effect_trans[OF 2 pexpire_effect(1)[OF effect_good[OF 2] that prod.collapse[symmetric]]] by simp
  show ?thesis
    using 2 d e by (auto simp: touch_lineage_def prune_and_get_remaining_def ancestor_key_def Let_def split: option.splits)
qed

lemma leave_effect_at:
  assumes "good p s"
  shows "effect p ms {(LineageKey, ak_DefinitionID a, ak_ResourceKey a)} s
    (leave_lineage S ms now member (ancestor_key p LineageKey a) s)"
proof -
  let ?k = "redis_key p LineageKey (ak_DefinitionID a) (ak_ResourceKey a)" and ?F = "{(LineageKey, ak_DefinitionID a, ak_ResourceKey a)}"
  let ?s1 = "ZREM S ms s ?k member"
  let ?s2 = "ZREMRANGE S ms ?s1 ?k now"
  note 1 = zset_effects(2)[OF assms, of ms "ak_DefinitionID a" "ak_ResourceKey a" member]
  note 2 = effect_trans[OF 1 zset_effects(3)[OF effect_good[OF 1]], of now]
  have d: "effect p ms ?F s (DEL S ms ?s2 [?k])"
    by (rule effect_trans[OF 2 del_effect(1)[OF effect_good[OF 2]]]) simp
  have e: "effect p ms ?F s (fst (PEXPIRE S ms ?s2 ?k n))" if "0 < n" for n
    using effect_trans[OF 2 pexpire_effect(1)[OF effect_good[OF 2] that prod.collapse[symmetric]]] by simp
  show ?thesis using d e by (auto simp: leave_lineage_def ancestor_key_def Let_def split: option.splits)
qed

lemmas touch_effect = effect_mono[OF touch_effect_at reach_subsets(3)]
lemmas leave_effect = effect_mono[OF leave_effect_at reach_subsets(3)]

lemma fold_effect:
  assumes "\<And>a s. good p s \<Longrightarrow> effect p ms F s (g (h a) s)" and "good p s"
  shows "effect p ms F s (fold g (map h as) s)"
  using assms(2)
proof (induction as arbitrary: s)
  case (Cons a as)
  note 1 = assms(1)[OF Cons.prems, of a]
  show ?case using effect_trans[OF 1 Cons.IH[OF effect_good[OF 1]]] by simp
qed (simp add: effect_refl)

subsection \<open>Scripts\<close>

text \<open>What a grant, a release and a refusal do to the key of the lease; the rest is in \<open>effect\<close>.\<close>

definition grants :: "string \<Rightarrow> int \<Rightarrow> string \<Rightarrow> string \<Rightarrow> string \<Rightarrow> 'r \<Rightarrow> 'r \<Rightarrow> bool" where
  "grants p ms d k ow s s' \<longleftrightarrow> view ms s (redis_key p LeaseKey d k) = None
     \<and> lease_owner (view ms s') (redis_key p LeaseKey d k) = Some ow"

definition drops :: "string \<Rightarrow> int \<Rightarrow> string \<Rightarrow> string \<Rightarrow> string \<Rightarrow> 'r \<Rightarrow> 'r \<Rightarrow> bool" where
  "drops p ms d k ow s s' \<longleftrightarrow> lease_owner (view ms s) (redis_key p LeaseKey d k) = Some ow
     \<and> (\<forall>ms' \<ge> ms. view ms' s' (redis_key p LeaseKey d k) = None)"

definition keeps :: "string \<Rightarrow> int \<Rightarrow> string \<Rightarrow> string \<Rightarrow> 'r \<Rightarrow> 'r \<Rightarrow> bool" where
  "keeps p ms d k s s' \<longleftrightarrow> (\<forall>ms' \<ge> ms. view ms' s' (redis_key p LeaseKey d k) = view ms' s (redis_key p LeaseKey d k))"

lemma keeps_refl [simp]: "keeps p ms d k s s"
  by (simp add: keeps_def)

lemma keeps_effect: "effect p ms F s s' \<Longrightarrow> (LeaseKey, d, k) \<notin> F \<Longrightarrow> keeps p ms d k s s'"
  by (simp add: keeps_def effect_def)

lemma keeps_grants: "keeps p ms d k s s' \<Longrightarrow> grants p ms d k ow s' s'' \<Longrightarrow> grants p ms d k ow s s''"
  by (simp add: keeps_def grants_def)

lemma grants_keeps: "grants p ms d k ow s s' \<Longrightarrow> keeps p ms d k s' s'' \<Longrightarrow> grants p ms d k ow s s''"
  by (simp add: keeps_def grants_def lease_owner_def)

lemma drops_keeps: "drops p ms d k ow s s' \<Longrightarrow> keeps p ms d k s' s'' \<Longrightarrow> drops p ms d k ow s s''"
  by (simp add: keeps_def drops_def)

lemma setpx_lease:
  assumes "good p s" and "0 < ttl" and "SETPX S ms s (redis_key p LeaseKey d k) (RStr ow) ttl True = (s', b)"
  shows "effect p ms (reach d k) s s'" and "b \<Longrightarrow> grants p ms d k ow s s'" and "\<not> b \<Longrightarrow> keeps p ms d k s s'"
    and "b \<longleftrightarrow> view ms s (redis_key p LeaseKey d k) = None"
  using setpx_effect[OF assms] effect_mono[OF _ reach_subsets(1)] by (auto simp: grants_def keeps_def lease_owner_def)

lemma setnx_step:
  assumes "good p s" and "0 < ttl" and "setnx S ms (redis_key p LeaseKey d k) ow ttl s = (s', x)"
  shows "effect p ms (reach d k) s s'" and "x = Inr True \<and> grants p ms d k ow s s' \<or> x = Inr False \<and> keeps p ms d k s s'"
proof -
  obtain b where b: "SETPX S ms s (redis_key p LeaseKey d k) (RStr ow) (px_millis S ttl) True = (s', b)" "x = Inr b"
    using assms(3) by (auto simp: setnx_def split: prod.splits)
  note step = setpx_lease[OF assms(1) px_positive[OF assms(2)] b(1)]
  show "effect p ms (reach d k) s s'" by (rule step(1))
  show "x = Inr True \<and> grants p ms d k ow s s' \<or> x = Inr False \<and> keeps p ms d k s s'"
    using step(2,3) b(2) by (cases b) simp_all
qed

definition release_step :: "string \<Rightarrow> int \<Rightarrow> string \<Rightarrow> string \<Rightarrow> string \<Rightarrow> 'r \<Rightarrow> 'r \<Rightarrow> go_any result \<Rightarrow> bool" where
  "release_step p ms d k ow s s' x \<longleftrightarrow> effect p ms (reach d k) s s' \<and>
     (x = Inr (AnyInt 1) \<and> drops p ms d k ow s s' \<or> (\<exists>n. x = Inr (AnyInt n) \<and> n \<noteq> 1) \<and> s' = s)"

lemma del_lease:
  assumes "good p s" and "lease_owner (view ms s) (redis_key p LeaseKey d k) = Some ow"
  shows "release_step p ms d k ow s (DEL S ms s [redis_key p LeaseKey d k]) (Inr (AnyInt 1))"
    and "release_step p ms d k ow s (DEL S ms s [redis_key p LeaseKey d k, redis_key p TokenKey d k]) (Inr (AnyInt 1))"
proof -
  have 1: "\<forall>f d' k'. redis_key p f d' k' \<in> set [redis_key p LeaseKey d k] \<longrightarrow> (f, d', k') \<in> reach d k"
    and 2: "\<forall>f d' k'. redis_key p f d' k' \<in> set [redis_key p LeaseKey d k, redis_key p TokenKey d k] \<longrightarrow> (f, d', k') \<in> reach d k"
    by (auto simp: reach_def)
  show "release_step p ms d k ow s (DEL S ms s [redis_key p LeaseKey d k]) (Inr (AnyInt 1))"
    using del_effect[OF assms(1) 1] assms(2) by (simp add: release_step_def drops_def)
  show "release_step p ms d k ow s (DEL S ms s [redis_key p LeaseKey d k, redis_key p TokenKey d k]) (Inr (AnyInt 1))"
    using del_effect[OF assms(1) 2] assms(2) by (simp add: release_step_def drops_def)
qed

lemma release_idle: "good p s \<Longrightarrow> n \<noteq> 1 \<Longrightarrow> release_step p ms d k ow s s (Inr (AnyInt n))"
  by (simp add: release_step_def effect_refl)

lemma releaseScript_step:
  assumes "good p s" and "releaseScript S ms (redis_key p LeaseKey d k) ow s = (s', x)"
  shows "release_step p ms d k ow s s' x"
  using assms del_lease(1)[OF assms(1)] release_idle[OF assms(1)]
  by (auto simp: releaseScript_def get_lease split: option.splits if_splits)

lemma strictReleaseScript_step:
  assumes "good p s" and "strictReleaseScript S ms (redis_key p LeaseKey d k) (redis_key p TokenKey d k) ow tok s = (s', x)"
  shows "release_step p ms d k ow s s' x"
  using assms del_lease(2)[OF assms(1)] release_idle[OF assms(1)]
  by (auto simp: strictReleaseScript_def get_lease split: option.splits if_splits)

lemma lineageReleaseScript_step:
  assumes "good p s" and "lineageReleaseScript S ms (lineage_keys p d k as) ow now member (length as) s = (s', x)"
  shows "release_step p ms d k ow s s' x"
proof (cases "member \<noteq> [] \<and> lease_owner (view ms s) (redis_key p LeaseKey d k) = Some ow")
  case True
  let ?s1 = "DEL S ms s [redis_key p LeaseKey d k]"
  have 1: "effect p ms (reach d k) s ?s1" "drops p ms d k ow s ?s1"
    using del_lease(1)[OF assms(1), of ms d k ow] True by (auto simp: release_step_def)
  have x: "s' = fold (leave_lineage S ms now member) (map (ancestor_key p LineageKey) as) ?s1" "x = Inr (AnyInt 1)"
    using True assms by (auto simp: lineageReleaseScript_def lineage_keys_def get_lease)
  have 2: "effect p ms lineage_fam ?s1 s'"
    unfolding x using fold_effect[where g = "leave_lineage S ms now member" and h = "ancestor_key p LineageKey"]
      leave_effect effect_good[OF 1(1)] by blast
  show ?thesis
    using effect_trans[OF 1(1) effect_mono[OF 2]] drops_keeps[OF 1(2) keeps_effect[OF 2]] x by (simp add: release_step_def)
next
  case False
  then show ?thesis using assms release_idle[OF assms(1)]
    by (auto simp: lineageReleaseScript_def lineage_keys_def get_lease split: option.splits if_splits)
qed

text \<open>The counter of a boundary, and the strict acquire script.\<close>

definition fence :: "string \<Rightarrow> 'r \<Rightarrow> string \<Rightarrow> string \<Rightarrow> int" where
  "fence p s d k = count_of (look s) (redis_key p FenceKey d k)"

lemma fence_view:
  assumes "good p s"
  shows "view ms s (redis_key p FenceKey d k) = look s (redis_key p FenceKey d k)"
  using typed_look[OF assms, of FenceKey d k] by (auto simp: decay_def fits_cases split: option.splits)

lemma fence_effect:
  assumes "good p s" and "effect p ms F s s'" and "(FenceKey, d, k) \<notin> F"
  shows "fence p s' d k = fence p s d k"
  using effect_view[OF assms(2,3) order_refl] fence_view[OF assms(1), of ms] fence_view[OF effect_good[OF assms(2)], of ms]
  by (simp add: fence_def count_of_def)

lemma incr_effect:
  assumes "good p s" and "INCR S ms s (redis_key p FenceKey d k) = (s', Inr n)"
  shows "effect p ms {(FenceKey, d, k)} s s'" and "n = fence p s d k + 1" and "fence p s' d k = n" and "0 < n" and "n < 2 ^ 63"
proof -
  let ?K = "redis_key p FenceKey d k"
  have law: "ok s' \<and> n = count_of (view ms s) ?K + 1 \<and> n < 2 ^ 63
      \<and> settles alive ms ((look s)(?K \<mapsto> (RNum n, expiry_at (view ms s) ?K))) (look s')"
    using incr_law[OF _ refl typed_views(3) assms(2)] assms(1) by (auto simp: good_def)
  note fits = typed_look[OF assms(1), of FenceKey d k]
  have n: "n = fence p s d k + 1" "0 < n" "expiry_at (view ms s) ?K = None" "n < 2 ^ 63"
    using law fits fence_view[OF assms(1), of ms d k]
    by (auto simp: fence_def count_of_def expiry_at_def fits_cases split: option.splits)
  then show "n = fence p s d k + 1" "0 < n" "n < 2 ^ 63" by simp_all
  have w: "ok s' \<and> settles alive ms ((look s)(?K \<mapsto> (RNum n, None))) (look s')" using law n(3) by auto
  from write_effect(1)[OF assms(1) w] n(2) show e: "effect p ms {(FenceKey, d, k)} s s'" by simp
  have "view ms s' ?K = Some (RNum n, None)" using write_effect(2)[OF assms(1) w, of ms] n(2) by (simp add: decay_def)
  then show "fence p s' d k = n" using fence_view[OF effect_good[OF e]] by (simp add: fence_def count_of_def)
qed

lemma strictAcquireScript_step:
  assumes "good p s" and "strictAcquireScript S ms (redis_key p LeaseKey d k) (redis_key p FenceKey d k) (redis_key p TokenKey d k) ow ttl s = (s', x)"
  shows "effect p ms (insert (FenceKey, d, k) (reach d k)) s s'"
    and "x = Inr (ints [1, ttl, fence p s d k + 1]) \<and> grants p ms d k ow s s' \<and> fence p s' d k = fence p s d k + 1
           \<and> fence p s d k + 1 < 2 ^ 63 \<and> 0 < fence p s d k + 1
         \<or> ((\<exists>n. x = Inr (ints [n, 0, 0]) \<and> n \<noteq> 1) \<or> (\<exists>e. x = Inl e)) \<and> keeps p ms d k s s' \<and> fence p s' d k = fence p s d k"
proof -
  let ?L = "redis_key p LeaseKey d k" and ?F = "insert (FenceKey, d, k) (reach d k)"
  have "effect p ms ?F s s' \<and> (x = Inr (ints [1, ttl, fence p s d k + 1]) \<and> grants p ms d k ow s s' \<and> fence p s' d k = fence p s d k + 1
           \<and> fence p s d k + 1 < 2 ^ 63 \<and> 0 < fence p s d k + 1
         \<or> ((\<exists>n. x = Inr (ints [n, 0, 0]) \<and> n \<noteq> 1) \<or> (\<exists>e. x = Inl e)) \<and> keeps p ms d k s s' \<and> fence p s' d k = fence p s d k)"
  proof (cases "ow = [] \<or> ttl \<le> 0 \<or> view ms s ?L \<noteq> None")
    case True
    then have "s' = s \<and> (\<exists>n. x = Inr (ints [n, 0, 0]) \<and> n \<noteq> 1)"
      using assms(2) exists_iff[OF assms(1), of ms ?L]
      by (cases "ow = [] \<or> ttl \<le> 0") (auto simp: strictAcquireScript_def)
    then show ?thesis using effect_refl[OF assms(1)] by auto
  next
    case False
    then have none: "view ms s ?L = None" by blast
    then have ex: "\<not> EXISTS S ms s ?L" using exists_iff[OF assms(1)] by simp
    obtain s1 r where i: "INCR S ms s (redis_key p FenceKey d k) = (s1, r)" by fastforce
    show ?thesis
    proof (cases r)
      case (Inl e)
      with i have "ok s1 \<and> settles alive ms (look s) (look s1)" using incr_failed assms(1) by (auto simp: good_def)
      note 1 = idle_effect(1)[OF assms(1) this]
      have "s' = s1" "x = Inl e" using False i Inl assms(2) ex by (auto simp: strictAcquireScript_def)
      then show ?thesis using 1 keeps_effect[OF 1[of "{}"]] fence_effect[OF assms(1) 1[of "{}"]] by simp
    next
      case (Inr n)
      note 1 = incr_effect[OF assms(1) i[unfolded Inr]]
      obtain s2 b where 2: "SETPX S ms s1 ?L (RStr ow) ttl True = (s2, b)" by fastforce
      obtain s3 b' where 3: "SETPX S ms s2 (redis_key p TokenKey d k) (RNum n) ttl False = (s3, b')" by fastforce
      have "view ms s1 ?L = None" using effect_view[OF 1(1), of LeaseKey d k ms] none by simp
      then have b using setpx_lease(4)[OF effect_good[OF 1(1)] _ 2] False by simp
      note e2 = setpx_lease(1,2)[OF effect_good[OF 1(1)] _ 2]
      have e3: "effect p ms {(TokenKey, d, k)} s2 s3"
        using False by (intro setpx_effect(1)[OF effect_good[OF e2(1)] _ 3]) auto
      have x: "s' = s3" "x = Inr (ints [1, ttl, n])"
        using False i Inr 2 3 \<open>b\<close> assms(2) ex by (auto simp: strictAcquireScript_def)
      have "grants p ms d k ow s s3"
        using keeps_grants[OF keeps_effect[OF 1(1)] grants_keeps[OF e2(2) keeps_effect[OF e3]]] False \<open>b\<close> by simp
      moreover have "effect p ms ?F s s3"
        using effect_trans[OF effect_mono[OF 1(1)] effect_trans[OF effect_mono[OF e2(1)] effect_mono[OF e3]]] False
          reach_subsets(2)[of d k] by auto
      moreover have "fence p s3 d k = n"
        using fence_effect[OF effect_good[OF e2(1)] e3] fence_effect[OF effect_good[OF 1(1)] e2(1)] 1(3) False by simp
      ultimately show ?thesis using x 1 by simp
    qed
  qed
  then show "effect p ms ?F s s'"
    and "x = Inr (ints [1, ttl, fence p s d k + 1]) \<and> grants p ms d k ow s s' \<and> fence p s' d k = fence p s d k + 1
           \<and> fence p s d k + 1 < 2 ^ 63 \<and> 0 < fence p s d k + 1
         \<or> ((\<exists>n. x = Inr (ints [n, 0, 0]) \<and> n \<noteq> 1) \<or> (\<exists>e. x = Inl e)) \<and> keeps p ms d k s s' \<and> fence p s' d k = fence p s d k"
    by blast+
qed

lemma lineage_acquire_keys_parts:
  "lineage_acquire_keys p d k as ! 0 = redis_key p LeaseKey d k" "lineage_acquire_keys p d k as ! 1 = redis_key p LineageKey d k"
  "take (length as) (drop 2 (lineage_acquire_keys p d k as)) = map (ancestor_key p LeaseKey) as"
  "take (length as) (drop (2 + length as) (lineage_acquire_keys p d k as)) = map (ancestor_key p LineageKey) as"
  by (simp_all add: lineage_acquire_keys_def)

lemma lineageAcquireScript_step:
  assumes "good p s"
    and "lineageAcquireScript S ms (lineage_acquire_keys p d k as) ow ttl now kind member (length as) s = (s', x)"
  shows "effect p ms (reach d k) s s'"
    and "x = Inr (ints [1, ttl]) \<and> grants p ms d k ow s s' \<or> (\<exists>n. x = Inr (ints [n, 0]) \<and> n \<noteq> 1) \<and> keeps p ms d k s s'"
proof -
  let ?s1 = "ZREMRANGE S ms s (redis_key p LineageKey d k) now"
  obtain s2 b where 2: "SETPX S ms ?s1 (redis_key p LeaseKey d k) (RStr ow) ttl True = (s2, b)" by fastforce
  let ?s3 = "fold (touch_lineage S ms now False (now + ttl) member) (map (ancestor_key p LineageKey) as) s2"
  have e1: "effect p ms lineage_fam s ?s1" by (rule effect_mono[OF zset_effects(3)[OF assms(1)] reach_subsets(3)])
  note k1 = keeps_effect[OF e1, of d k, simplified] and r1 = effect_mono[OF e1 reach_simps(5), of d k]
  consider "s' = s" "\<exists>n. x = Inr (ints [n, 0]) \<and> n \<noteq> 1" | "s' = ?s1" "\<exists>n. x = Inr (ints [n, 0]) \<and> n \<noteq> 1"
    | "0 < ttl" "\<not> b" "s' = s2" "x = Inr (ints [- 1, 0])" | "0 < ttl" b "s' = ?s3" "x = Inr (ints [1, ttl])"
    using assms(2)[unfolded lineageAcquireScript_def lineage_acquire_keys_parts] 2
    by (auto simp: Let_def split: if_splits bool.splits)
  then have "effect p ms (reach d k) s s' \<and> (x = Inr (ints [1, ttl]) \<and> grants p ms d k ow s s'
      \<or> (\<exists>n. x = Inr (ints [n, 0]) \<and> n \<noteq> 1) \<and> keeps p ms d k s s')"
  proof cases
    case 1
    then show ?thesis using effect_refl[OF assms(1)] by simp
  next
    case 2
    then show ?thesis using r1 k1 by simp
  next
    case 3
    note e2 = setpx_lease(1,3)[OF effect_good[OF e1] 3(1) 2]
    show ?thesis using 3 effect_trans[OF r1 e2(1)] k1 e2(2) by (simp add: keeps_def)
  next
    case 4
    note e2 = setpx_lease(1,2)[OF effect_good[OF e1] 4(1) 2]
    have e3: "effect p ms lineage_fam s2 ?s3"
      using fold_effect[where g = "touch_lineage S ms now False (now + ttl) member" and h = "ancestor_key p LineageKey"]
        touch_effect effect_good[OF e2(1)] by blast
    show ?thesis
      using 4 effect_trans[OF r1 effect_trans[OF e2(1) effect_mono[OF e3 reach_simps(5)]]]
        keeps_grants[OF k1 grants_keeps[OF e2(2) keeps_effect[OF e3]]] by simp
  qed
  then show "effect p ms (reach d k) s s'"
    and "x = Inr (ints [1, ttl]) \<and> grants p ms d k ow s s' \<or> (\<exists>n. x = Inr (ints [n, 0]) \<and> n \<noteq> 1) \<and> keeps p ms d k s s'"
    by blast+
qed

text \<open>The three renew scripts keep the owner, and with success set the expiry.\<close>

definition renew_step :: "string \<Rightarrow> int \<Rightarrow> string \<Rightarrow> string \<Rightarrow> string \<Rightarrow> int \<Rightarrow> 'r \<Rightarrow> 'r \<Rightarrow> bool \<Rightarrow> bool" where
  "renew_step p ms d k ow ttl s s' done \<longleftrightarrow> effect p ms (reach d k) s s' \<and>
     (if done then lease_owner (view ms s) (redis_key p LeaseKey d k) = Some ow
        \<and> view ms s' (redis_key p LeaseKey d k) = Some (RStr ow, Some (ms + ttl)) \<and> 0 < ttl
      else keeps p ms d k s s')"

lemma renew_idle: "good p s \<Longrightarrow> renew_step p ms d k ow ttl s s False"
  by (simp add: renew_step_def effect_refl)

lemma pexpire_lease:
  assumes "good p s" and "0 < ttl" and "lease_owner (view ms s) (redis_key p LeaseKey d k) = Some ow"
    and "PEXPIRE S ms s (redis_key p LeaseKey d k) ttl = (s', b)"
  shows "b \<and> renew_step p ms d k ow ttl s s' True"
proof -
  obtain x where x: "view ms s (redis_key p LeaseKey d k) = Some (RStr ow, x)"
    using assms(3) by (auto simp: lease_owner_def split: option.splits rval.splits)
  show ?thesis
    using pexpire_effect[OF assms(1,2,4)] x assms(2,3) effect_mono[OF _ reach_subsets(1)] by (auto simp: renew_step_def)
qed

lemma renewScript_step:
  assumes "good p s" and "renewScript S ms (redis_key p LeaseKey d k) ow ttl s = (s', x)"
  shows "\<exists>n. x = Inr (AnyInt n) \<and> renew_step p ms d k ow ttl s s' (0 < n) \<and> (0 < n \<longrightarrow> n = ttl)"
proof (cases "lease_owner (view ms s) (redis_key p LeaseKey d k) = Some ow \<and> 0 < ttl")
  case True
  obtain s1 b where 1: "PEXPIRE S ms s (redis_key p LeaseKey d k) ttl = (s1, b)" by fastforce
  with True pexpire_lease[OF assms(1) _ _ 1] have "b" "renew_step p ms d k ow ttl s s1 True" by auto
  then show ?thesis using True 1 assms(2) by (auto simp: renewScript_def get_lease[OF assms(1)])
next
  case False
  then show ?thesis using assms(2) renew_idle[OF assms(1)]
    by (auto simp: renewScript_def get_lease[OF assms(1)] split: option.splits if_splits)
qed

lemma renew_after:
  assumes "effect p ms F s s1" and "F \<subseteq> reach d k" and "(LeaseKey, d, k) \<notin> F" and "renew_step p ms d k ow ttl s1 s' b"
  shows "renew_step p ms d k ow ttl s s' b"
  using effect_trans[OF effect_mono[OF assms(1,2)], of s'] assms(4) keeps_effect[OF assms(1,3)]
  by (auto simp: renew_step_def keeps_def lease_owner_def split: if_splits)

lemma renew_before:
  assumes "renew_step p ms d k ow ttl s s1 b" and "effect p ms F s1 s'" and "F \<subseteq> reach d k" and "(LeaseKey, d, k) \<notin> F"
  shows "renew_step p ms d k ow ttl s s' b"
  using effect_trans[OF _ effect_mono[OF assms(2,3)], of s] assms(1) keeps_effect[OF assms(2,4)]
  by (auto simp: renew_step_def keeps_def split: if_splits)

lemma strictRenewScript_step:
  assumes "good p s" and "strictRenewScript S ms (redis_key p LeaseKey d k) (redis_key p TokenKey d k) ow tok ttl s = (s', x)"
  shows "\<exists>n m t. x = Inr (ints [n, m, t]) \<and> renew_step p ms d k ow ttl s s' (n = 1)"
proof (cases "lease_owner (view ms s) (redis_key p LeaseKey d k) = Some ow \<and> 0 < ttl \<and> ow \<noteq> [] \<and> 0 < tok
    \<and> Option.bind (view ms s (redis_key p TokenKey d k)) (\<lambda>(v, _). val_number S v) = Some tok")
  case True
  obtain s1 b where 1: "PEXPIRE S ms s (redis_key p LeaseKey d k) ttl = (s1, b)" by fastforce
  obtain s2 b2 where 2: "PEXPIRE S ms s1 (redis_key p TokenKey d k) ttl = (s2, b2)" by fastforce
  have b: "b" "renew_step p ms d k ow ttl s s1 True" using True pexpire_lease[OF assms(1) _ _ 1] by auto
  then have g1: "good p s1" and e1: "effect p ms {(LeaseKey, d, k)} s s1"
    using pexpire_effect(1)[OF assms(1) _ 1] True by (auto simp: renew_step_def effect_def)
  have "view ms s1 (redis_key p TokenKey d k) = view ms s (redis_key p TokenKey d k)" using effect_view[OF e1] by simp
  then have b2: "b2" and e2: "effect p ms {(TokenKey, d, k)} s1 s2"
    using pexpire_effect(1,2)[OF g1 _ 2] True by (auto split: bind_splits)
  have "renew_step p ms d k ow ttl s s2 True" by (rule renew_before[OF b(2) e2 reach_subsets(2)]) simp
  then show ?thesis using True 1 2 b b2 assms(2)
    by (auto simp: strictRenewScript_def get_lease[OF assms(1)] get_token[OF assms(1)] split: bind_splits)
next
  case False
  then show ?thesis using assms(2) renew_idle[OF assms(1)]
    by (auto simp: strictRenewScript_def get_lease[OF assms(1)] get_token[OF assms(1)] split: option.splits if_splits)
qed

lemma lineageRenewScript_step:
  assumes "good p s" and "lineageRenewScript S ms (lineage_keys p d k as) ow ttl now member (length as) s = (s', x)"
  shows "\<exists>n m. x = Inr (ints [n, m]) \<and> renew_step p ms d k ow ttl s s' (n = 1)"
proof -
  let ?s1 = "fold (touch_lineage S ms now True (now + ttl) member) (map (ancestor_key p LineageKey) as) s"
  obtain s2 b where 2: "PEXPIRE S ms ?s1 (redis_key p LeaseKey d k) ttl = (s2, b)" by fastforce
  have parts: "lineage_keys p d k as ! 0 = redis_key p LeaseKey d k"
    "take (length as) (drop 1 (lineage_keys p d k as)) = map (ancestor_key p LineageKey) as"
    by (simp_all add: lineage_keys_def)
  have e1: "effect p ms lineage_fam s ?s1"
    using fold_effect[where g = "touch_lineage S ms now True (now + ttl) member" and h = "ancestor_key p LineageKey"]
      touch_effect assms(1) by blast
  show ?thesis
  proof (cases "lease_owner (view ms s) (redis_key p LeaseKey d k) = Some ow \<and> 0 < ttl \<and> member \<noteq> []
      \<and> \<not> list_ex (\<lambda>k. ZSCORE S ms s k member = None) (map (ancestor_key p LineageKey) as)")
    case True
    have "lease_owner (view ms ?s1) (redis_key p LeaseKey d k) = Some ow"
      using keeps_effect[OF e1, of d k] True by (auto simp: keeps_def lease_owner_def)
    then have "b" "renew_step p ms d k ow ttl ?s1 s2 True"
      using True pexpire_lease[OF effect_good[OF e1] _ _ 2] by auto
    then show ?thesis using renew_after[OF e1] True 2
        assms(2)[unfolded lineageRenewScript_def parts]
      by (auto simp: get_lease[OF assms(1)] split: if_splits)
  next
    case False
    then show ?thesis using assms(2)[unfolded lineageRenewScript_def parts] renew_idle[OF assms(1)]
      by (auto simp: get_lease[OF assms(1)] split: option.splits if_splits)
  qed
qed

end

end
