(* ===== verification/Redis_Contract.thy ===== *)
theory Redis_Contract
  imports Redis_Effects
begin

text \<open>
  The Redis backend meets the contract \<open>lock_driver\<close> on every server that satisfies \<open>redis_server\<close>, with one unit of exclusion
  per definition and resource key.
\<close>

definition redis_inv :: "('r \<Rightarrow> bool) \<Rightarrow> ('r \<Rightarrow> keyspace) \<Rightarrow> 'r RedisDriver \<Rightarrow> bool" where
  "redis_inv ok look d \<longleftrightarrow> drv_ok d \<and> ok (rds_db d) \<and> typed (rds_keyPrefix d) (look (rds_db d))"

definition redis_holds ::
  "'r RedisServer \<Rightarrow> ('r \<Rightarrow> keyspace) \<Rightarrow> (int \<Rightarrow> int \<Rightarrow> bool) \<Rightarrow> time \<Rightarrow> 'r RedisDriver \<Rightarrow> string \<times> string \<Rightarrow> string option"
where
  "redis_holds S look alive t d x =
     lease_owner (decay alive (clock S t) (look (rds_db d))) (redis_key (rds_keyPrefix d) LeaseKey (fst x) (snd x))"

lemma first_err_None: "first_err es = None \<longleftrightarrow> (\<forall>e \<in> set es. e = None)"
  by (induction es rule: first_err.induct) auto

lemma singleton_nth: "length xs = Suc 0 \<Longrightarrow> xs = [xs ! 0]"
  by (cases xs) auto

lemma validate_drv_ok: "drv_ok d \<Longrightarrow> validateClient d = None"
  by (simp add: drv_ok_def validateClient_def)

lemma validated:
  "validateAcquireRequest rq = None \<Longrightarrow> aq_ResourceKeys rq = [aq_ResourceKeys rq ! 0] \<and> 0 < aq_LeaseTTL rq"
  "validateLeaseRecord l = None \<Longrightarrow> lr_ResourceKeys l = [lr_ResourceKeys l ! 0]"
  by (auto simp: validateAcquireRequest_def validateLeaseRecord_def singleton_nth split: if_splits)

section \<open>Methods as requests\<close>

text \<open>
  Every method checks its arguments, builds its keys, sends one request and reads the reply. \<open>calls\<close> says so for a method \<open>m\<close> of driver
  \<open>d\<close>, with the request \<open>f\<close> written with the keys of the scheme.
\<close>

definition calls ::
  "'r RedisDriver \<Rightarrow> go_err \<Rightarrow> (go_error \<Rightarrow> 'b) \<Rightarrow> ('r \<Rightarrow> 'r \<times> 'a result) \<Rightarrow> ('a result \<Rightarrow> 'b) \<Rightarrow> 'r RedisDriver \<times> 'b \<Rightarrow> bool"
where
  "calls d err fail f reply m \<longleftrightarrow>
     (\<exists>d1. drv_ok d1 \<and> rds_db d1 = rds_db d \<and> rds_keyPrefix d1 = rds_keyPrefix d
        \<and> m = (case err of Some e \<Rightarrow> (d, fail e) | None \<Rightarrow> map_prod id reply (send f d1)))"

lemma calls_cases:
  assumes "calls d err fail f reply (d', r)" and "drv_ok d"
  obtains (refused) e where "rds_db d' = rds_db d" "r = fail e \<or> r = reply (Inl e)" "drv_ok d'" "rds_keyPrefix d' = rds_keyPrefix d"
  | (sent) x where "err = None" "f (rds_db d) = (rds_db d', x)" "r = reply x" "drv_ok d'" "rds_keyPrefix d' = rds_keyPrefix d"
proof -
  obtain d1 where d1: "drv_ok d1" "rds_db d1 = rds_db d" "rds_keyPrefix d1 = rds_keyPrefix d"
    "(d', r) = (case err of Some e \<Rightarrow> (d, fail e) | None \<Rightarrow> map_prod id reply (send f d1))"
    using assms(1) by (auto simp: calls_def)
  show ?thesis
  proof (cases err)
    case None
    obtain x where x: "send f d1 = (d', x)" "r = reply x" using d1(4) None by (cases "send f d1") auto
    show ?thesis using send_drv[OF d1(1) x(1)] x(2) d1 None refused sent by auto
  next
    case (Some e)
    then show ?thesis using d1 assms(2) refused by auto
  qed
qed

lemma calls_intro:
  "drv_ok d \<Longrightarrow> drv_ok dk \<and> rds_db dk = rds_db d \<and> rds_keyPrefix dk = rds_keyPrefix d \<Longrightarrow>
   m = (case err of Some e \<Rightarrow> (d, fail e) | None \<Rightarrow> map_prod id reply (send f dk)) \<Longrightarrow> calls d err fail f reply m"
  by (auto simp: calls_def)

abbreviation key_of :: "'r RedisDriver \<Rightarrow> key_family \<Rightarrow> string \<Rightarrow> string \<Rightarrow> string" where
  "key_of d \<equiv> redis_key (rds_keyPrefix d)"

lemmas method_simps = family_key_eqs case_prod_unfold map_prod_def validate_drv_ok lineageReleaseKeys_eq
lemmas method_splits = option.splits sum.splits prod.splits

lemma Acquire_calls:
  assumes "drv_ok d"
  shows "calls d (validateAcquireRequest rq) Inl
    (setnx S (clock S t) (key_of d LeaseKey (aq_DefinitionID rq) (aq_ResourceKeys rq ! 0)) (aq_OwnerID rq) (aq_LeaseTTL rq))
    (\<lambda>x. case x of Inl e \<Rightarrow> Inl e | Inr b \<Rightarrow> if \<not> b then Inl (Sentinel ErrLeaseAlreadyHeld)
        else Inr (buildLeaseRecord (aq_DefinitionID rq) (aq_ResourceKeys rq ! 0) (aq_OwnerID rq) (aq_LeaseTTL rq) t))
    (Redis_Acquire S c t d rq)"
  by (rule calls_intro[of _ "fst (family_key LeaseKey (aq_DefinitionID rq) (aq_ResourceKeys rq ! 0) d)"])
    (use assms in \<open>auto simp: Redis_Acquire_def method_simps split: method_splits\<close>)

lemma AcquireStrict_calls:
  assumes "drv_ok d"
  shows "calls d (validateStrictAcquireRequest rq) Inl
    (strictAcquireScript S (clock S t) (key_of d LeaseKey (sq_DefinitionID rq) (sq_ResourceKey rq))
       (key_of d FenceKey (sq_DefinitionID rq) (sq_ResourceKey rq)) (key_of d TokenKey (sq_DefinitionID rq) (sq_ResourceKey rq))
       (sq_OwnerID rq) (Milliseconds (sq_LeaseTTL rq)))
    (\<lambda>x. case x of Inl e \<Rightarrow> Inl e | Inr raw \<Rightarrow> strict_reply
       (\<lambda>status. Sentinel (if status = - 1 then ErrLeaseAlreadyHeld
          else if status = - 3 then ErrInvalidRequest else ErrInvalidScriptResponse))
       (\<lambda>ttl. buildLeaseRecord (sq_DefinitionID rq) (sq_ResourceKey rq) (sq_OwnerID rq) ttl t) raw)
    (Redis_AcquireStrict S c t d rq)"
  by (rule calls_intro[of _ "fst (family_key TokenKey (sq_DefinitionID rq) (sq_ResourceKey rq)
      (fst (family_key FenceKey (sq_DefinitionID rq) (sq_ResourceKey rq) (fst (family_key LeaseKey (sq_DefinitionID rq) (sq_ResourceKey rq) d)))))"])
    (use assms in \<open>auto simp: Redis_AcquireStrict_def method_simps split: method_splits\<close>)

lemma AcquireWithLineage_calls:
  assumes "drv_ok d"
  shows "calls d (validateLineageAcquireRequest rq) Inl
    (lineageAcquireScript S (clock S t)
       (lineage_acquire_keys (rds_keyPrefix d) (lq_DefinitionID rq) (lq_ResourceKey rq) (lm_AncestorKeys (lq_Lineage rq)))
       (lq_OwnerID rq) (Milliseconds (lq_LeaseTTL rq)) (UnixMilli t) (kind_string (lm_Kind (lq_Lineage rq)))
       (lineageMember (lm_LeaseID (lq_Lineage rq)) (lq_DefinitionID rq) (lq_ResourceKey rq))
       (length (lm_AncestorKeys (lq_Lineage rq))))
    (\<lambda>x. case x of Inl e \<Rightarrow> Inl e | Inr raw \<Rightarrow> lineage_reply
       (\<lambda>status. if status = - 1 then ErrLeaseAlreadyHeld else if status = - 2 then ErrOverlapRejected
          else if status = - 3 then ErrInvalidRequest else ErrInvalidScriptResponse)
       (\<lambda>ttl. buildLeaseRecord (lq_DefinitionID rq) (lq_ResourceKey rq) (lq_OwnerID rq) ttl t) raw)
    (Redis_AcquireWithLineage S c t d rq)"
  by (rule calls_intro[of _ "fst (lineageAcquireKeys rq d)"])
    (use assms in \<open>auto simp: Redis_AcquireWithLineage_def method_simps split: method_splits\<close>)

text \<open>For a release the reply is success exactly when the script returns 1.\<close>

definition release_calls ::
  "'r RedisDriver \<Rightarrow> go_err \<Rightarrow> 'r script \<Rightarrow> 'r RedisDriver \<times> go_err \<Rightarrow> bool"
where
  "release_calls d err f m \<longleftrightarrow> (\<exists>reply. calls d err Some f reply m
     \<and> (\<forall>e. reply (Inl e) \<noteq> None) \<and> (\<forall>n. reply (Inr (AnyInt n)) = None \<longleftrightarrow> n = 1))"

lemma Release_calls:
  assumes "drv_ok d"
  shows "release_calls d (validateLeaseRecord l)
    (releaseScript S (clock S t) (key_of d LeaseKey (lr_DefinitionID l) (lr_ResourceKeys l ! 0)) (lr_OwnerID l))
    (Redis_Release S c t d l)"
  unfolding release_calls_def
  by (intro exI[of _ "\<lambda>raw. case Cmd_Int64 raw of Inl err \<Rightarrow> Some err | Inr result \<Rightarrow>
         if result = 1 then None else if result = 0 then Some (Sentinel ErrLeaseNotFound)
         else if result = - 1 then Some (Sentinel ErrLeaseOwnerMismatch) else Some (Sentinel ErrLeaseNotFound)"] conjI
      calls_intro[of _ "fst (family_key LeaseKey (lr_DefinitionID l) (lr_ResourceKeys l ! 0) d)"])
    (use assms in \<open>auto simp: Redis_Release_def method_simps Cmd_Int64_def split: method_splits\<close>)

lemma release_reply_law: "release_reply (Inl e) \<noteq> None" "release_reply (Inr (AnyInt n)) = None \<longleftrightarrow> n = 1"
  by (auto simp: release_reply_def Cmd_Int64_def)

lemma ReleaseStrict_calls:
  assumes "drv_ok d"
  shows "release_calls d (validateStrictReleaseRequest l tok)
    (strictReleaseScript S (clock S t) (key_of d LeaseKey (lr_DefinitionID l) (lr_ResourceKeys l ! 0))
      (key_of d TokenKey (lr_DefinitionID l) (lr_ResourceKeys l ! 0)) (lr_OwnerID l) (uint tok))
    (Redis_ReleaseStrict S c t d l tok)"
  unfolding release_calls_def
  by (intro exI[of _ release_reply] conjI calls_intro[of _ "fst (family_key TokenKey (lr_DefinitionID l) (lr_ResourceKeys l ! 0)
        (fst (family_key LeaseKey (lr_DefinitionID l) (lr_ResourceKeys l ! 0) d)))"] allI release_reply_law)
    (use assms in \<open>auto simp: Redis_ReleaseStrict_def method_simps split: method_splits\<close>)

lemma ReleaseWithLineage_calls:
  assumes "drv_ok d"
  shows "release_calls d (validateLineageReleaseRequest l m)
    (lineageReleaseScript S (clock S t) (lineage_keys (rds_keyPrefix d) (lr_DefinitionID l) (lr_ResourceKeys l ! 0) (lm_AncestorKeys m))
      (lr_OwnerID l) (UnixMilli t) (lineageMember (lm_LeaseID m) (lr_DefinitionID l) (lr_ResourceKeys l ! 0)) (length (lm_AncestorKeys m)))
    (Redis_ReleaseWithLineage S c t d l m)"
  unfolding release_calls_def
  by (intro exI[of _ release_reply] conjI calls_intro[of _ "fst (lineageRenewKeys l m d)"] allI release_reply_law)
    (use assms in \<open>auto simp: Redis_ReleaseWithLineage_def method_simps split: method_splits\<close>)

text \<open>The renewals, the presence check, the ping and the forced release.\<close>

lemma Renew_calls:
  assumes "drv_ok d"
  shows "calls d (validateRenewLeaseRecord l) Inl
    (renewScript S (clock S t) (key_of d LeaseKey (lr_DefinitionID l) (lr_ResourceKeys l ! 0)) (lr_OwnerID l) (Milliseconds (lr_LeaseTTL l)))
    (\<lambda>raw. case Cmd_Int64 raw of Inl err \<Rightarrow> Inl err
       | Inr ttlMillis \<Rightarrow>
           if ttlMillis = 0 then Inl (Sentinel ErrLeaseNotFound)
           else if ttlMillis = - 1 then Inl (Sentinel ErrLeaseOwnerMismatch)
           else if ttlMillis = - 2 then Inl (Sentinel ErrLeaseExpired)
           else if ttlMillis = - 3 then Inl (Sentinel ErrInvalidRequest)
           else if ttlMillis < 0 then Inl (Sentinel ErrLeaseExpired)
           else Inr (buildLeaseRecord (lr_DefinitionID l) (lr_ResourceKeys l ! 0) (lr_OwnerID l) (millis ttlMillis) t))
    (Redis_Renew S c t d l)"
  by (rule calls_intro[of _ "fst (family_key LeaseKey (lr_DefinitionID l) (lr_ResourceKeys l ! 0) d)"])
    (use assms in \<open>auto simp: Redis_Renew_def method_simps split: option.splits\<close>)

lemma RenewStrict_calls:
  assumes "drv_ok d"
  shows "\<exists>reply. calls d (validateStrictRenewRequest l tok) Inl
    (strictRenewScript S (clock S t) (key_of d LeaseKey (lr_DefinitionID l) (lr_ResourceKeys l ! 0))
       (key_of d TokenKey (lr_DefinitionID l) (lr_ResourceKeys l ! 0)) (lr_OwnerID l) (uint tok) (Milliseconds (lr_LeaseTTL l)))
    reply (Redis_RenewStrict S c t d l tok)"
  by (rule exI, rule calls_intro[where dk = "fst (family_key TokenKey (lr_DefinitionID l) (lr_ResourceKeys l ! 0)
        (fst (family_key LeaseKey (lr_DefinitionID l) (lr_ResourceKeys l ! 0) d)))" and reply = "\<lambda>x. case x of Inl e \<Rightarrow> Inl e | Inr raw \<Rightarrow> strict_reply
        (\<lambda>status. Sentinel (if status = 0 then ErrLeaseNotFound else if status = - 1 then ErrLeaseOwnerMismatch
           else if status = - 2 then ErrLeaseExpired else if status = - 3 then ErrInvalidRequest
           else ErrInvalidScriptResponse))
        (\<lambda>ttl. buildLeaseRecord (lr_DefinitionID l) (lr_ResourceKeys l ! 0) (lr_OwnerID l) ttl t) raw"])
    (use assms in \<open>auto simp: Redis_RenewStrict_def method_simps split: method_splits\<close>)

lemma RenewWithLineage_calls:
  assumes "drv_ok d"
  shows "\<exists>reply. calls d (validateLineageRenewRequest l m) Inl
    (lineageRenewScript S (clock S t) (lineage_keys (rds_keyPrefix d) (lr_DefinitionID l) (lr_ResourceKeys l ! 0) (lm_AncestorKeys m))
      (lr_OwnerID l) (Milliseconds (lr_LeaseTTL l)) (UnixMilli t)
      (lineageMember (lm_LeaseID m) (lr_DefinitionID l) (lr_ResourceKeys l ! 0)) (length (lm_AncestorKeys m)))
    reply (Redis_RenewWithLineage S c t d l m)"
  by (rule exI, rule calls_intro[where dk = "fst (lineageRenewKeys l m d)" and reply = "\<lambda>x. case x of Inl e \<Rightarrow> Inl e | Inr raw \<Rightarrow> lineage_reply
        (\<lambda>status. if status = 0 then ErrLeaseNotFound else if status = - 1 then ErrLeaseOwnerMismatch
           else if status = - 2 then ErrLeaseExpired else if status = - 3 then ErrInvalidRequest
           else if status = - 4 then ErrLeaseExpired else ErrInvalidScriptResponse)
        (\<lambda>ttl. (buildLeaseRecord (lr_DefinitionID l) (lr_ResourceKeys l ! 0) (lr_OwnerID l) ttl t, m)) raw"])
    (use assms in \<open>auto simp: Redis_RenewWithLineage_def method_simps split: method_splits\<close>)

lemma CheckPresence_calls:
  assumes "drv_ok d"
  shows "calls d (validatePresenceRequest rq) Inl
    (presenceScript S (clock S t) (key_of d LeaseKey (pq_DefinitionID rq) (pq_ResourceKeys rq ! 0)))
    (\<lambda>x. case x of Inl e \<Rightarrow> Inl e | Inr raw \<Rightarrow>
      (case parsePresenceResult raw of
         Inl err \<Rightarrow> Inl err
       | Inr None \<Rightarrow> Inr \<lparr>pr_Present = False, pr_DefinitionID = pq_DefinitionID rq, pr_ResourceKeys = [pq_ResourceKeys rq ! 0], pr_Lease = None\<rparr>
       | Inr (Some (owner, ttl)) \<Rightarrow> Inr \<lparr>pr_Present = True, pr_DefinitionID = pq_DefinitionID rq, pr_ResourceKeys = [pq_ResourceKeys rq ! 0],
           pr_Lease = Some \<lparr>lr_DefinitionID = pq_DefinitionID rq, lr_ResourceKeys = [pq_ResourceKeys rq ! 0],
             lr_OwnerID = owner, lr_LeaseTTL = ttl, lr_AcquiredAt = zero_time, lr_ExpiresAt = t + ttl\<rparr>\<rparr>))
    (Redis_CheckPresence S c t d rq)"
  by (rule calls_intro[of _ "fst (family_key LeaseKey (pq_DefinitionID rq) (pq_ResourceKeys rq ! 0) d)"])
    (use assms in \<open>auto simp: Redis_CheckPresence_def method_simps Let_def split: option.splits sum.splits\<close>)

section \<open>The contract\<close>

context redis_server
begin

abbreviation dinv :: "'r RedisDriver \<Rightarrow> bool" where
  "dinv \<equiv> redis_inv ok look"

abbreviation holds :: "time \<Rightarrow> 'r RedisDriver \<Rightarrow> string \<times> string \<Rightarrow> string option" where
  "holds \<equiv> redis_holds S look alive"

lemma dinv_good: "dinv d \<longleftrightarrow> drv_ok d \<and> good (rds_keyPrefix d) (rds_db d)"
  by (simp add: redis_inv_def good_def)

text \<open>The reach of a method on the lease of \<open>dd\<close> and \<open>k\<close>, counter included.\<close>

definition moved :: "time \<Rightarrow> string \<Rightarrow> string \<Rightarrow> 'r RedisDriver \<Rightarrow> 'r RedisDriver \<Rightarrow> bool" where
  "moved t dd k d d' \<longleftrightarrow> drv_ok d' \<and> rds_keyPrefix d' = rds_keyPrefix d
     \<and> effect (rds_keyPrefix d) (clock S t) (insert (FenceKey, dd, k) (reach dd k)) (rds_db d) (rds_db d')"

lemma moved_inv: "moved t dd k d d' \<Longrightarrow> dinv d'"
  by (simp add: moved_def dinv_good effect_def)

lemma moved_effect:
  "drv_ok d' \<Longrightarrow> rds_keyPrefix d' = rds_keyPrefix d \<Longrightarrow> effect (rds_keyPrefix d) (clock S t) (reach dd k) (rds_db d) (rds_db d') \<Longrightarrow>
   moved t dd k d d'"
  unfolding moved_def by (auto intro: effect_mono)

lemma moved_same: "dinv d \<Longrightarrow> drv_ok d' \<Longrightarrow> rds_keyPrefix d' = rds_keyPrefix d \<Longrightarrow> rds_db d' = rds_db d \<Longrightarrow> moved t dd k d d'"
  by (simp add: moved_def dinv_good effect_refl)

lemma same_untouched: "rds_keyPrefix d' = rds_keyPrefix d \<Longrightarrow> rds_db d' = rds_db d \<Longrightarrow> untouched holds t d d'"
  by (simp add: untouched_def redis_holds_def fun_eq_iff)

lemma moved_holds:
  assumes "moved t dd k d d'" and "t \<le> t'" and "x \<noteq> (dd, k)"
  shows "holds t' d' x = holds t' d x"
  using assms(1,3) effect_view[OF _ _ clock_mono[OF assms(2)]]
  by (cases x) (auto simp: moved_def redis_holds_def lease_owner_def)

lemma keeps_untouched:
  assumes "moved t dd k d d'" and "keeps (rds_keyPrefix d) (clock S t) dd k (rds_db d) (rds_db d')"
  shows "untouched holds t d d'"
proof -
  have "holds t' d' x = holds t' d x" if "t \<le> t'" for t' x
    using moved_holds[OF assms(1) that] assms clock_mono[OF that]
    by (cases "x = (dd, k)") (auto simp: moved_def keeps_def redis_holds_def lease_owner_def)
  then show ?thesis by (simp add: untouched_def fun_eq_iff)
qed

lemma grants_granted:
  assumes "moved t dd k d d'" and "grants (rds_keyPrefix d) (clock S t) dd k ow (rds_db d) (rds_db d')"
  shows "granted Pair holds t d d' dd [k] ow (buildLeaseRecord dd k ow ttl t0)"
  using assms(2) moved_holds[OF assms(1)] assms(1)
  by (auto simp: granted_def grants_def moved_def redis_holds_def buildLeaseRecord_def lease_owner_def)

lemma drops_released:
  assumes "moved t dd k d d'" and "drops (rds_keyPrefix d) (clock S t) dd k ow (rds_db d) (rds_db d')"
    and "lr_ResourceKeys l = [k]" "lr_DefinitionID l = dd" "lr_OwnerID l = ow"
  shows "released Pair holds t d d' l"
proof -
  have "holds t' d' x = ((holds t' d)((dd, k) := None)) x" if "t \<le> t'" for t' x
    using moved_holds[OF assms(1) that] assms(1,2) clock_mono[OF that]
    by (cases "x = (dd, k)") (auto simp: moved_def drops_def redis_holds_def lease_owner_def)
  then show ?thesis using assms by (auto simp: released_def drops_def redis_holds_def fun_eq_iff)
qed

text \<open>The standard methods.\<close>

lemma Redis_Acquire_step:
  assumes "dinv d" and "Redis_Acquire S c t d rq = (d', r)"
  shows "dinv d'"
    and "case r of Inr l \<Rightarrow> granted Pair holds t d d' (aq_DefinitionID rq) (aq_ResourceKeys rq) (aq_OwnerID rq) l | Inl e \<Rightarrow> untouched holds t d d'"
proof -
  let ?k = "aq_ResourceKeys rq ! 0"
  have d: "drv_ok d" "good (rds_keyPrefix d) (rds_db d)" using assms(1) by (simp_all add: dinv_good)
  have "dinv d' \<and> (case r of Inr l \<Rightarrow> granted Pair holds t d d' (aq_DefinitionID rq) (aq_ResourceKeys rq) (aq_OwnerID rq) l | Inl e \<Rightarrow> untouched holds t d d')"
  proof (cases rule: calls_cases[OF Acquire_calls[OF d(1), of rq S t c, unfolded assms(2)] d(1), case_names refused sent])
    case (refused e)
    then show ?thesis using moved_inv[OF moved_same[OF assms(1)]] same_untouched[of d' d] by auto
  next
    case (sent x)
    note v = validated(1)[OF sent(1)]
    note step = setnx_step[OF d(2) conjunct2[OF v] sent(2)]
    note m = moved_effect[OF sent(4,5) step(1)]
    show ?thesis
      using step(2) sent(3) moved_inv[OF m] grants_granted[OF m] keeps_untouched[OF m] v by (auto split: sum.splits)
  qed
  then show "dinv d'"
    and "case r of Inr l \<Rightarrow> granted Pair holds t d d' (aq_DefinitionID rq) (aq_ResourceKeys rq) (aq_OwnerID rq) l | Inl e \<Rightarrow> untouched holds t d d'"
    by blast+
qed

lemma release_calls_step:
  assumes "dinv d" and "release_calls d err f (d', r)" and "err = None \<Longrightarrow> validateLeaseRecord l = None"
    and "\<And>s' x. f (rds_db d) = (s', x) \<Longrightarrow>
      release_step (rds_keyPrefix d) (clock S t) (lr_DefinitionID l) (lr_ResourceKeys l ! 0) (lr_OwnerID l) (rds_db d) s' x"
  shows "dinv d'" and "case r of None \<Rightarrow> released Pair holds t d d' l | Some e \<Rightarrow> untouched holds t d d'"
proof -
  have d: "drv_ok d" "good (rds_keyPrefix d) (rds_db d)" using assms(1) by (simp_all add: dinv_good)
  obtain reply where reply: "calls d err Some f reply (d', r)" "\<forall>e. reply (Inl e) \<noteq> None" "\<forall>n. reply (Inr (AnyInt n)) = None \<longleftrightarrow> n = 1"
    using assms(2) unfolding release_calls_def by blast
  have "dinv d' \<and> (case r of None \<Rightarrow> released Pair holds t d d' l | Some e \<Rightarrow> untouched holds t d d')"
  proof (cases rule: calls_cases[OF reply(1) d(1), case_names refused sent])
    case (refused e)
    have "r \<noteq> None" using refused(2) reply(2) by (metis option.distinct(1))
    then obtain y where "r = Some y" by blast
    then show ?thesis using refused(1,3,4) moved_inv[OF moved_same[OF assms(1)]] same_untouched[of d' d] by simp
  next
    case (sent x)
    note v = validated(2)[OF assms(3)[OF sent(1)]]
    note step = assms(4)[OF sent(2), unfolded release_step_def]
    note m = moved_effect[OF sent(4,5) conjunct1[OF step]]
    from conjunct2[OF step] show ?thesis
    proof (elim disjE conjE exE)
      assume "x = Inr (AnyInt 1)" and drops: "drops (rds_keyPrefix d) (clock S t) (lr_DefinitionID l) (lr_ResourceKeys l ! 0) (lr_OwnerID l) (rds_db d) (rds_db d')"
      then have "r = None" using sent(3) reply(3) by simp
      then show ?thesis using drops_released[OF m drops v] moved_inv[OF m] by simp
    next
      fix n assume "rds_db d' = rds_db d" "x = Inr (AnyInt n)" "n \<noteq> 1"
      moreover then obtain y where "r = Some y" using sent(3) reply(3) by (cases r) (metis, blast)
      ultimately show ?thesis using moved_inv[OF m] same_untouched[of d' d] sent(5) by simp
    qed
  qed
  then show "dinv d'" and "case r of None \<Rightarrow> released Pair holds t d d' l | Some e \<Rightarrow> untouched holds t d d'" by blast+
qed

lemma Redis_Release_step:
  assumes "dinv d" and "Redis_Release S c t d l = (d', r)"
  shows "dinv d'" and "case r of None \<Rightarrow> released Pair holds t d d' l | Some e \<Rightarrow> untouched holds t d d'"
proof -
  have d: "drv_ok d" "good (rds_keyPrefix d) (rds_db d)" using assms(1) by (simp_all add: dinv_good)
  note step = release_calls_step[OF assms(1) Release_calls[OF d(1), of l S t c, unfolded assms(2)] _ releaseScript_step[OF d(2)]]
  show "dinv d'" and "case r of None \<Rightarrow> released Pair holds t d d' l | Some e \<Rightarrow> untouched holds t d d'" by (rule step; assumption)+
qed

lemma Redis_ReleaseStrict_step:
  assumes "dinv d" and "Redis_ReleaseStrict S c t d l tok = (d', r)"
  shows "dinv d'" and "case r of None \<Rightarrow> released Pair holds t d d' l | Some e \<Rightarrow> untouched holds t d d'"
proof -
  have d: "drv_ok d" "good (rds_keyPrefix d) (rds_db d)" using assms(1) by (simp_all add: dinv_good)
  have v: "validateStrictReleaseRequest l tok = None \<Longrightarrow> validateLeaseRecord l = None"
    by (simp add: validateStrictReleaseRequest_def split: option.splits)
  note step = release_calls_step[OF assms(1) ReleaseStrict_calls[OF d(1), of l tok S t c, unfolded assms(2)] v strictReleaseScript_step[OF d(2)]]
  show "dinv d'" and "case r of None \<Rightarrow> released Pair holds t d d' l | Some e \<Rightarrow> untouched holds t d d'" by (rule step; assumption)+
qed

lemma Redis_ReleaseWithLineage_step:
  assumes "dinv d" and "Redis_ReleaseWithLineage S c t d l m = (d', r)"
  shows "dinv d'" and "case r of None \<Rightarrow> released Pair holds t d d' l | Some e \<Rightarrow> untouched holds t d d'"
proof -
  have d: "drv_ok d" "good (rds_keyPrefix d) (rds_db d)" using assms(1) by (simp_all add: dinv_good)
  have v: "validateLineageReleaseRequest l m = None \<Longrightarrow> validateLeaseRecord l = None"
    by (simp add: validateLineageReleaseRequest_def split: option.splits)
  note step = release_calls_step[OF assms(1) ReleaseWithLineage_calls[OF d(1), of l m S t c, unfolded assms(2)] v lineageReleaseScript_step[OF d(2)]]
  show "dinv d'" and "case r of None \<Rightarrow> released Pair holds t d d' l | Some e \<Rightarrow> untouched holds t d d'" by (rule step; assumption)+
qed

lemma acquire_reply_cases:
  assumes "dinv d" and "calls d err Inl f (\<lambda>x. case x of Inl e \<Rightarrow> Inl e | Inr raw \<Rightarrow> reply raw) (d', r)"
    and "\<And>s' x. f (rds_db d) = (s', x) \<Longrightarrow> effect (rds_keyPrefix d) (clock S t) (insert (FenceKey, dd, k) (reach dd k)) (rds_db d) s'
      \<and> ((\<exists>raw l. x = Inr raw \<and> reply raw = Inr l \<and> grants (rds_keyPrefix d) (clock S t) dd k ow (rds_db d) s' \<and> is_lease l)
        \<or> ((\<exists>raw e. x = Inr raw \<and> reply raw = Inl e) \<or> (\<exists>e. x = Inl e)) \<and> keeps (rds_keyPrefix d) (clock S t) dd k (rds_db d) s')"
  shows "dinv d'" and "case r of Inr l \<Rightarrow> is_lease l \<and> moved t dd k d d' \<and> grants (rds_keyPrefix d) (clock S t) dd k ow (rds_db d) (rds_db d')
    | Inl e \<Rightarrow> untouched holds t d d'"
proof -
  have d: "drv_ok d" "good (rds_keyPrefix d) (rds_db d)" using assms(1) by (simp_all add: dinv_good)
  have "dinv d' \<and> (case r of Inr l \<Rightarrow> is_lease l \<and> moved t dd k d d' \<and> grants (rds_keyPrefix d) (clock S t) dd k ow (rds_db d) (rds_db d')
    | Inl e \<Rightarrow> untouched holds t d d')"
  proof (cases rule: calls_cases[OF assms(2) d(1), case_names refused sent])
    case (refused e)
    then show ?thesis using moved_inv[OF moved_same[OF assms(1)]] same_untouched[of d' d] by auto
  next
    case (sent x)
    note step = assms(3)[OF sent(2)]
    have m: "moved t dd k d d'" using sent(4,5) step by (simp add: moved_def)
    from conjunct2[OF step] show ?thesis using sent(3) m moved_inv[OF m] keeps_untouched[OF m] by auto
  qed
  then show "dinv d'" and "case r of Inr l \<Rightarrow> is_lease l \<and> moved t dd k d d' \<and> grants (rds_keyPrefix d) (clock S t) dd k ow (rds_db d) (rds_db d')
    | Inl e \<Rightarrow> untouched holds t d d'" by blast+
qed

lemma strict_reply_ints:
  "strict_reply g h (ints [n, ttl, tok]) =
     (if n = 1 then if tok \<le> 0 then bad_reply else Inr \<lparr>fl_Lease = h (millis ttl), fl_FencingToken = of_int tok\<rparr> else Inl (g n))"
  by (simp add: strict_reply_def parseStrictStatusResult_def ints_def toInt64_def)

lemma lineage_reply_ints: "lineage_reply g h (ints [n, ttl]) = (if n = 1 then Inr (h (millis ttl)) else Inl (Sentinel (g n)))"
  by (simp add: lineage_reply_def parseLineageStatusResult_def ints_def toInt64_def)

lemma Redis_AcquireStrict_step:
  assumes "dinv d" and "Redis_AcquireStrict S c t d rq = (d', r)"
  shows "dinv d'"
    and "case r of Inr f \<Rightarrow> granted Pair holds t d d' (sq_DefinitionID rq) [sq_ResourceKey rq] (sq_OwnerID rq) (fl_Lease f)
      | Inl e \<Rightarrow> untouched holds t d d'"
proof -
  let ?d = "sq_DefinitionID rq" and ?k = "sq_ResourceKey rq" and ?p = "rds_keyPrefix d"
  let ?ok = "\<lambda>f. \<exists>ttl. fl_Lease f = buildLeaseRecord ?d ?k (sq_OwnerID rq) ttl t"
  have d: "drv_ok d" "good ?p (rds_db d)" using assms(1) by (simp_all add: dinv_good)
  have script: "effect ?p (clock S t) (insert (FenceKey, ?d, ?k) (reach ?d ?k)) (rds_db d) s'
      \<and> ((\<exists>raw f. x = Inr raw \<and> strict_reply g (\<lambda>ttl. buildLeaseRecord ?d ?k (sq_OwnerID rq) ttl t) raw = Inr f
            \<and> grants ?p (clock S t) ?d ?k (sq_OwnerID rq) (rds_db d) s' \<and> ?ok f)
        \<or> ((\<exists>raw e. x = Inr raw \<and> strict_reply g (\<lambda>ttl. buildLeaseRecord ?d ?k (sq_OwnerID rq) ttl t) raw = Inl e)
            \<or> (\<exists>e. x = Inl e)) \<and> keeps ?p (clock S t) ?d ?k (rds_db d) s')"
    if "strictAcquireScript S (clock S t) (key_of d LeaseKey ?d ?k) (key_of d FenceKey ?d ?k) (key_of d TokenKey ?d ?k)
         (sq_OwnerID rq) (Milliseconds (sq_LeaseTTL rq)) (rds_db d) = (s', x)" for s' x g
    using strictAcquireScript_step[OF d(2) that] by (auto simp: strict_reply_ints)
  note step = acquire_reply_cases[OF assms(1) AcquireStrict_calls[OF d(1), of rq S t c, unfolded assms(2)] script]
  show "dinv d'" by (rule step(1))
  show "case r of Inr f \<Rightarrow> granted Pair holds t d d' ?d [?k] (sq_OwnerID rq) (fl_Lease f) | Inl e \<Rightarrow> untouched holds t d d'"
    using step(2) grants_granted by (auto split: sum.splits)
qed

lemma Redis_AcquireWithLineage_step:
  assumes "dinv d" and "Redis_AcquireWithLineage S c t d rq = (d', r)"
  shows "dinv d'"
    and "case r of Inr l \<Rightarrow> granted Pair holds t d d' (lq_DefinitionID rq) [lq_ResourceKey rq] (lq_OwnerID rq) l
      | Inl e \<Rightarrow> untouched holds t d d'"
proof -
  let ?d = "lq_DefinitionID rq" and ?k = "lq_ResourceKey rq" and ?p = "rds_keyPrefix d" and ?as = "lm_AncestorKeys (lq_Lineage rq)"
  let ?ok = "\<lambda>l. \<exists>ttl. l = buildLeaseRecord ?d ?k (lq_OwnerID rq) ttl t"
  have d: "drv_ok d" "good ?p (rds_db d)" using assms(1) by (simp_all add: dinv_good)
  have script: "effect ?p (clock S t) (insert (FenceKey, ?d, ?k) (reach ?d ?k)) (rds_db d) s'
      \<and> ((\<exists>raw l. x = Inr raw \<and> lineage_reply g (\<lambda>ttl. buildLeaseRecord ?d ?k (lq_OwnerID rq) ttl t) raw = Inr l
            \<and> grants ?p (clock S t) ?d ?k (lq_OwnerID rq) (rds_db d) s' \<and> ?ok l)
        \<or> ((\<exists>raw e. x = Inr raw \<and> lineage_reply g (\<lambda>ttl. buildLeaseRecord ?d ?k (lq_OwnerID rq) ttl t) raw = Inl e)
            \<or> (\<exists>e. x = Inl e)) \<and> keeps ?p (clock S t) ?d ?k (rds_db d) s')"
    if "lineageAcquireScript S (clock S t) (lineage_acquire_keys ?p ?d ?k ?as) (lq_OwnerID rq) (Milliseconds (lq_LeaseTTL rq)) (UnixMilli t)
         (kind_string (lm_Kind (lq_Lineage rq))) (lineageMember (lm_LeaseID (lq_Lineage rq)) ?d ?k) (length ?as) (rds_db d) = (s', x)" for s' x g
    using lineageAcquireScript_step[OF d(2) that] effect_mono[OF _ subset_insertI] by (auto simp: lineage_reply_ints)
  note step = acquire_reply_cases[OF assms(1) AcquireWithLineage_calls[OF d(1), of rq S t c, unfolded assms(2)] script]
  show "dinv d'" by (rule step(1))
  show "case r of Inr l \<Rightarrow> granted Pair holds t d d' ?d [?k] (lq_OwnerID rq) l | Inl e \<Rightarrow> untouched holds t d d'"
    using step(2) grants_granted by (auto split: sum.splits)
qed

lemma Redis_CheckPresence_step:
  assumes "dinv d" and "Redis_CheckPresence S c t d rq = (d', r)"
  shows "dinv d'" and "untouched holds t d d'"
proof -
  have d: "drv_ok d" using assms(1) by (simp add: dinv_good)
  have "presenceScript S ms key s = (s', x) \<Longrightarrow> s' = s" for ms key s s' x
    by (auto simp: presenceScript_def Let_def split: option.splits if_splits)
  then have same: "rds_db d' = rds_db d \<and> drv_ok d' \<and> rds_keyPrefix d' = rds_keyPrefix d"
    using calls_cases[OF CheckPresence_calls[OF d, of rq S t c, unfolded assms(2)] d] by metis
  then show "dinv d'" using moved_inv[OF moved_same[OF assms(1)]] by blast
  show "untouched holds t d d'" using same same_untouched by blast
qed

end

lemma redis_driver_simps [simp]:
  "Acquire (redis_driver S) = Redis_Acquire S" "Release (redis_driver S) = Redis_Release S"
  "CheckPresence (redis_driver S) = Redis_CheckPresence S" "Renew (redis_driver S) = Redis_Renew S"
  "as_StrictDriver (redis_driver S) = Some T \<longleftrightarrow> T = redis_strict S"
  "as_LineageDriver (redis_driver S) = Some L \<longleftrightarrow> L = redis_lineage S"
  "AcquireStrict (redis_strict S) = Redis_AcquireStrict S" "ReleaseStrict (redis_strict S) = Redis_ReleaseStrict S"
  "AcquireWithLineage (redis_lineage S) = Redis_AcquireWithLineage S"
  "ReleaseWithLineage (redis_lineage S) = Redis_ReleaseWithLineage S"
  by (auto simp: redis_driver_def redis_strict_def redis_lineage_def)

context redis_server
begin

lemmas redis_steps =
  Redis_Acquire_step(1) Redis_Acquire_step(2)[where r = "Inr l" for l, simplified] Redis_Acquire_step(2)[where r = "Inl e" for e, simplified]
  Redis_Release_step(1) Redis_Release_step(2)[where r = None, simplified] Redis_Release_step(2)[where r = "Some e" for e, simplified]
  Redis_CheckPresence_step
  Redis_AcquireStrict_step(1) Redis_AcquireStrict_step(2)[where r = "Inr l" for l, simplified]
  Redis_AcquireStrict_step(2)[where r = "Inl e" for e, simplified]
  Redis_ReleaseStrict_step(1) Redis_ReleaseStrict_step(2)[where r = None, simplified]
  Redis_ReleaseStrict_step(2)[where r = "Some e" for e, simplified]
  Redis_AcquireWithLineage_step(1) Redis_AcquireWithLineage_step(2)[where r = "Inr l" for l, simplified]
  Redis_AcquireWithLineage_step(2)[where r = "Inl e" for e, simplified]
  Redis_ReleaseWithLineage_step(1) Redis_ReleaseWithLineage_step(2)[where r = None, simplified]
  Redis_ReleaseWithLineage_step(2)[where r = "Some e" for e, simplified]

end

sublocale redis_server \<subseteq> rdr: lock_driver "redis_driver S" "redis_inv ok look" Pair "redis_holds S look alive"
proof (unfold_locales, goal_cases)
  case (1 s t' x ow t)
  have "view (clock S t') (rds_db s) (redis_key (rds_keyPrefix s) LeaseKey (fst x) (snd x)) = Some (RStr ow, y)
    \<Longrightarrow> view (clock S t) (rds_db s) (redis_key (rds_keyPrefix s) LeaseKey (fst x) (snd x)) = Some (RStr ow, y)" for y
    using decay_earlier clock_mono[OF 1(3)] by blast
  with 1(2) show ?case by (auto simp: redis_holds_def lease_owner_def split: option.splits rval.splits)
qed (auto intro: redis_steps)

context redis_server
begin

lemmas redis_lock_driver = rdr.lock_driver_axioms

end

end
