(* ===== verification/Redis_Runs.thy ===== *)
theory Redis_Runs
  imports Redis_Contract
begin

text \<open>
  Whole runs of the Redis backend: any sequence of its methods, in the order in which the server runs their requests. Every
  method keeps the invariant, and only a forced release lowers the fence counter of a boundary.
\<close>

datatype redis_op =
    RAcquire AcquireRequest
  | RRenew LeaseRecord
  | RRelease LeaseRecord
  | RCheckPresence PresenceRequest
  | RPing
  | RAcquireStrict StrictAcquireRequest
  | RRenewStrict LeaseRecord token
  | RReleaseStrict LeaseRecord token
  | RAcquireWithLineage LineageAcquireRequest
  | RRenewWithLineage LeaseRecord LineageLeaseMeta
  | RReleaseWithLineage LeaseRecord LineageLeaseMeta
  | RForceRelease string string
  | RCacheDefinitionIDs "string list"

fun redis_exec :: "'r RedisServer \<Rightarrow> go_ctx \<Rightarrow> time \<Rightarrow> redis_op \<Rightarrow> 'r RedisDriver \<Rightarrow> 'r RedisDriver" where
  "redis_exec S c t (RAcquire rq) d = fst (Redis_Acquire S c t d rq)"
| "redis_exec S c t (RRenew l) d = fst (Redis_Renew S c t d l)"
| "redis_exec S c t (RRelease l) d = fst (Redis_Release S c t d l)"
| "redis_exec S c t (RCheckPresence rq) d = fst (Redis_CheckPresence S c t d rq)"
| "redis_exec S c t RPing d = fst (Redis_Ping S c t d)"
| "redis_exec S c t (RAcquireStrict rq) d = fst (Redis_AcquireStrict S c t d rq)"
| "redis_exec S c t (RRenewStrict l tok) d = fst (Redis_RenewStrict S c t d l tok)"
| "redis_exec S c t (RReleaseStrict l tok) d = fst (Redis_ReleaseStrict S c t d l tok)"
| "redis_exec S c t (RAcquireWithLineage rq) d = fst (Redis_AcquireWithLineage S c t d rq)"
| "redis_exec S c t (RRenewWithLineage l m) d = fst (Redis_RenewWithLineage S c t d l m)"
| "redis_exec S c t (RReleaseWithLineage l m) d = fst (Redis_ReleaseWithLineage S c t d l m)"
| "redis_exec S c t (RForceRelease i k) d = fst (Redis_ForceReleaseDefinition S c t d i k)"
| "redis_exec S c t (RCacheDefinitionIDs ids) d = CacheDefinitionIDs ids d"

fun redis_run :: "'r RedisServer \<Rightarrow> go_ctx \<Rightarrow> (time \<times> redis_op) list \<Rightarrow> 'r RedisDriver \<Rightarrow> 'r RedisDriver" where
  "redis_run S c [] d = d"
| "redis_run S c ((t, op) # ops) d = redis_run S c ops (redis_exec S c t op d)"

text \<open>A call that does not renew or release the lease of owner \<open>ow\<close> on the boundary of \<open>i\<close> and \<open>k\<close>.\<close>

definition other_lease :: "string \<Rightarrow> string \<Rightarrow> string \<Rightarrow> LeaseRecord \<Rightarrow> bool" where
  "other_lease ow i k l \<longleftrightarrow> lr_OwnerID l \<noteq> ow \<or> lr_DefinitionID l \<noteq> i \<or> lr_ResourceKeys l \<noteq> [k]"

fun foreign :: "string \<Rightarrow> string \<Rightarrow> string \<Rightarrow> redis_op \<Rightarrow> bool" where
  "foreign ow i k (RRenew l) = other_lease ow i k l"
| "foreign ow i k (RRelease l) = other_lease ow i k l"
| "foreign ow i k (RRenewStrict l _) = other_lease ow i k l"
| "foreign ow i k (RReleaseStrict l _) = other_lease ow i k l"
| "foreign ow i k (RRenewWithLineage l _) = other_lease ow i k l"
| "foreign ow i k (RReleaseWithLineage l _) = other_lease ow i k l"
| "foreign ow i k (RForceRelease i' k') = (i' \<noteq> i \<or> k' \<noteq> k)"
| "foreign ow i k _ = True"

definition redis_counter :: "('r \<Rightarrow> keyspace) \<Rightarrow> 'r RedisDriver \<Rightarrow> string \<Rightarrow> string \<Rightarrow> int" where
  "redis_counter look d i k = count_of (look (rds_db d)) (redis_key (rds_keyPrefix d) FenceKey i k)"

lemma cacheDefinitionID_rebuilt: "rebuilt d (cacheDefinitionID i d)"
proof -
  have "rebuilt d (d\<lparr>rds_encodedIDs := Some (mput i (encodeSegment i) (cached (rds_encodedIDs d)))\<rparr>)"
    by (auto simp: rebuilt_def cache_ok_def)
  moreover have "rebuilt d' (fst (cached_prefix f i (encodeSegment i) d'))" for d' :: "'a RedisDriver" and f
    using cached_prefix_ok(2) by (metis prod.collapse)
  ultimately show ?thesis
    unfolding cacheDefinitionID_def Let_def cached_prefix_families by (meson rebuilt_trans)
qed

lemma CacheDefinitionIDs_rebuilt: "rebuilt d (CacheDefinitionIDs ids d)"
proof -
  let ?d = "d\<lparr>rds_encodedIDs := Some (cached (rds_encodedIDs d)),
        rds_leaseKeyPrefixes := Some (cached (rds_leaseKeyPrefixes d)),
        rds_strictFenceKeyPrefixes := Some (cached (rds_strictFenceKeyPrefixes d)),
        rds_strictTokenKeyPrefixes := Some (cached (rds_strictTokenKeyPrefixes d)),
        rds_lineageKeyPrefixes := Some (cached (rds_lineageKeyPrefixes d))\<rparr>"
  have "cached (family_cache f ?d) = cached (family_cache f d)" for f by (cases f) simp_all
  then have "rebuilt d ?d" by (simp add: rebuilt_def cache_ok_def)
  moreover have "rebuilt d' (fold cacheDefinitionID ids d')" for d' :: "'a RedisDriver"
    by (induction ids arbitrary: d') (auto intro: rebuilt_trans cacheDefinitionID_rebuilt)
  ultimately show ?thesis unfolding CacheDefinitionIDs_def by (rule rebuilt_trans)
qed

context redis_server
begin

text \<open>What a method leaves: an invariant state, with keys outside \<open>F\<close> unchanged.\<close>

definition after :: "time \<Rightarrow> (key_family \<times> string \<times> string) set \<Rightarrow> 'r RedisDriver \<Rightarrow> 'r RedisDriver \<Rightarrow> bool" where
  "after t F d d' \<longleftrightarrow> drv_ok d' \<and> rds_keyPrefix d' = rds_keyPrefix d \<and> effect (rds_keyPrefix d) (clock S t) F (rds_db d) (rds_db d')"

lemma after_inv: "after t F d d' \<Longrightarrow> dinv d'"
  by (simp add: after_def dinv_good effect_def)

lemma after_counter:
  assumes "dinv d" and "after t F d d'" and "(FenceKey, i, k) \<notin> F"
  shows "redis_counter look d' i k = redis_counter look d i k"
  using fence_effect[of "rds_keyPrefix d" "rds_db d" "clock S t" F "rds_db d'" i k] assms
  by (simp add: after_def dinv_good redis_counter_def fence_def)

lemma calls_after:
  assumes "dinv d" and "calls d err fail f reply (d', r)"
    and "\<And>s' x. f (rds_db d) = (s', x) \<Longrightarrow> effect (rds_keyPrefix d) (clock S t) F (rds_db d) s'"
  shows "after t F d d'"
proof -
  have d: "drv_ok d" "good (rds_keyPrefix d) (rds_db d)" using assms(1) by (simp_all add: dinv_good)
  show ?thesis
  proof (cases rule: calls_cases[OF assms(2) d(1), case_names refused sent])
    case refused
    then show ?thesis using d by (simp add: after_def effect_refl)
  next
    case sent
    then show ?thesis using assms(3) by (simp add: after_def)
  qed
qed

lemma rebuilt_after: "dinv d \<Longrightarrow> rebuilt d d' \<Longrightarrow> after t F d d'"
  using rebuilt_drv_ok by (auto simp: after_def rebuilt_def dinv_good effect_refl)

lemma release_calls_after:
  assumes "dinv d" and "release_calls d err f (d', r)"
    and "\<And>s' x. f (rds_db d) = (s', x) \<Longrightarrow> release_step (rds_keyPrefix d) (clock S t) i k ow (rds_db d) s' x"
  shows "after t (reach i k) d d'"
  using assms(2,3) unfolding release_calls_def release_step_def by (blast intro: calls_after[OF assms(1)])

lemma presenceScript_state: "presenceScript S ms key s = (s', x) \<Longrightarrow> s' = s"
  by (auto simp: presenceScript_def Let_def split: option.splits if_splits)

lemma exec_after:
  assumes "dinv d"
  shows "after t (reach (aq_DefinitionID aq) (aq_ResourceKeys aq ! 0)) d (fst (Redis_Acquire S c t d aq))"
    and "after t (reach (lr_DefinitionID l) (lr_ResourceKeys l ! 0)) d (fst (Redis_Renew S c t d l))"
    and "after t (reach (lr_DefinitionID l) (lr_ResourceKeys l ! 0)) d (fst (Redis_Release S c t d l))"
    and "after t (reach (lr_DefinitionID l) (lr_ResourceKeys l ! 0)) d (fst (Redis_RenewStrict S c t d l tok))"
    and "after t (reach (lr_DefinitionID l) (lr_ResourceKeys l ! 0)) d (fst (Redis_ReleaseStrict S c t d l tok))"
    and "after t (reach (lq_DefinitionID lq) (lq_ResourceKey lq)) d (fst (Redis_AcquireWithLineage S c t d lq))"
    and "after t (reach (lr_DefinitionID l) (lr_ResourceKeys l ! 0)) d (fst (Redis_RenewWithLineage S c t d l m))"
    and "after t (reach (lr_DefinitionID l) (lr_ResourceKeys l ! 0)) d (fst (Redis_ReleaseWithLineage S c t d l m))"
    and "after t {} d (fst (Redis_CheckPresence S c t d pq))"
proof -
  have d: "drv_ok d" "good (rds_keyPrefix d) (rds_db d)" using assms by (simp_all add: dinv_good)
  note after = calls_after[OF assms, where r = "snd x" and d' = "fst x" for x, unfolded prod.collapse]
  note releases = release_calls_after[OF assms, where r = "snd x" and d' = "fst x" for x, unfolded prod.collapse]
  show "after t (reach (lr_DefinitionID l) (lr_ResourceKeys l ! 0)) d (fst (Redis_Renew S c t d l))"
    using renewScript_step[OF d(2)] by (intro after[OF Renew_calls[OF d(1)]]) (fastforce simp: renew_step_def)
  show "after t (reach (lr_DefinitionID l) (lr_ResourceKeys l ! 0)) d (fst (Redis_Release S c t d l))"
    by (rule releases[OF Release_calls[OF d(1)] releaseScript_step[OF d(2)]])
  show "after t (reach (lr_DefinitionID l) (lr_ResourceKeys l ! 0)) d (fst (Redis_RenewStrict S c t d l tok))"
    using RenewStrict_calls[OF d(1)] strictRenewScript_step[OF d(2)] by (fastforce simp: renew_step_def intro: after)
  show "after t (reach (lr_DefinitionID l) (lr_ResourceKeys l ! 0)) d (fst (Redis_ReleaseStrict S c t d l tok))"
    by (rule releases[OF ReleaseStrict_calls[OF d(1)] strictReleaseScript_step[OF d(2)]])
  show "after t (reach (lq_DefinitionID lq) (lq_ResourceKey lq)) d (fst (Redis_AcquireWithLineage S c t d lq))"
    by (rule after[OF AcquireWithLineage_calls[OF d(1)] lineageAcquireScript_step(1)[OF d(2)]])
  show "after t (reach (lr_DefinitionID l) (lr_ResourceKeys l ! 0)) d (fst (Redis_RenewWithLineage S c t d l m))"
    using RenewWithLineage_calls[OF d(1)] lineageRenewScript_step[OF d(2)] by (fastforce simp: renew_step_def intro: after)
  show "after t (reach (lr_DefinitionID l) (lr_ResourceKeys l ! 0)) d (fst (Redis_ReleaseWithLineage S c t d l m))"
    by (rule releases[OF ReleaseWithLineage_calls[OF d(1)] lineageReleaseScript_step[OF d(2)]])
  show "after t {} d (fst (Redis_CheckPresence S c t d pq))"
    using presenceScript_state effect_refl[OF d(2)] by (intro after[OF CheckPresence_calls[OF d(1)]]) blast
  show "after t (reach (aq_DefinitionID aq) (aq_ResourceKeys aq ! 0)) d (fst (Redis_Acquire S c t d aq))"
  proof (cases "validateAcquireRequest aq")
    case None
    with validated(1) have "0 < aq_LeaseTTL aq" by blast
    then show ?thesis by (intro after[OF Acquire_calls[OF d(1)]] setnx_step(1)[OF d(2)])
  next
    case (Some e)
    then have "fst (Redis_Acquire S c t d aq) = d" using d(1) by (simp add: Redis_Acquire_def validate_drv_ok)
    then show ?thesis using d by (simp add: after_def effect_refl)
  qed
qed

lemma AcquireStrict_after:
  assumes "dinv d" and "Redis_AcquireStrict S c t d rq = (d', r)"
  shows "after t (insert (FenceKey, sq_DefinitionID rq, sq_ResourceKey rq) (reach (sq_DefinitionID rq) (sq_ResourceKey rq))) d d'"
    and "r = Inr f \<Longrightarrow> fl_FencingToken f = of_int (redis_counter look d' (sq_DefinitionID rq) (sq_ResourceKey rq))
      \<and> redis_counter look d' (sq_DefinitionID rq) (sq_ResourceKey rq) = redis_counter look d (sq_DefinitionID rq) (sq_ResourceKey rq) + 1
      \<and> 0 \<le> redis_counter look d (sq_DefinitionID rq) (sq_ResourceKey rq)
      \<and> redis_counter look d' (sq_DefinitionID rq) (sq_ResourceKey rq) < 2 ^ 63"
    and "redis_counter look d i k \<le> redis_counter look d' i k"
proof -
  let ?i = "sq_DefinitionID rq" and ?k = "sq_ResourceKey rq"
  have d: "drv_ok d" "good (rds_keyPrefix d) (rds_db d)" using assms(1) by (simp_all add: dinv_good)
  note calls = AcquireStrict_calls[OF d(1), of rq S t c, unfolded assms(2)]
  show a: "after t (insert (FenceKey, ?i, ?k) (reach ?i ?k)) d d'"
    by (rule calls_after[OF assms(1) calls strictAcquireScript_step(1)[OF d(2)]])
  have c: "redis_counter look d ?i ?k = fence (rds_keyPrefix d) (rds_db d) ?i ?k"
    "redis_counter look d' ?i ?k = fence (rds_keyPrefix d) (rds_db d') ?i ?k"
    using a by (simp_all add: redis_counter_def fence_def after_def)
  have "(r = Inr f \<longrightarrow> fl_FencingToken f = of_int (redis_counter look d' ?i ?k) \<and> redis_counter look d' ?i ?k = redis_counter look d ?i ?k + 1
      \<and> 0 \<le> redis_counter look d ?i ?k \<and> redis_counter look d' ?i ?k < 2 ^ 63) \<and> redis_counter look d ?i ?k \<le> redis_counter look d' ?i ?k"
  proof (cases rule: calls_cases[OF calls d(1), case_names refused sent])
    case (refused e)
    then show ?thesis using c by auto
  next
    case (sent x)
    show ?thesis using strictAcquireScript_step(2)[OF d(2) sent(2)] sent(3) c by (auto simp: strict_reply_ints)
  qed
  note c_step = this
  show "redis_counter look d i k \<le> redis_counter look d' i k"
  proof (cases "i = ?i \<and> k = ?k")
    case False
    then show ?thesis using after_counter[OF assms(1) a, of i k] by simp
  qed (use c_step in simp)
  from c_step show "r = Inr f \<Longrightarrow> fl_FencingToken f = of_int (redis_counter look d' ?i ?k) \<and> redis_counter look d' ?i ?k = redis_counter look d ?i ?k + 1
      \<and> 0 \<le> redis_counter look d ?i ?k \<and> redis_counter look d' ?i ?k < 2 ^ 63"
    by blast
qed

definition boundary :: "string \<Rightarrow> string \<Rightarrow> (key_family \<times> string \<times> string) set" where
  "boundary i k = {(LeaseKey, i, k), (FenceKey, i, k), (TokenKey, i, k)}"

lemma ForceRelease_after:
  assumes "dinv d" and "Redis_ForceReleaseDefinition S c t d i k = (d', r)"
  shows "after t (boundary i k) d d'" and "r = None \<Longrightarrow> redis_counter look d' i k = 0"
    and "r = None \<Longrightarrow> t \<le> t' \<Longrightarrow> holds t' d' (i, k) = None"
proof -
  let ?p = "rds_keyPrefix d"
  let ?f = "\<lambda>r. (DEL S (clock S t) r [redis_key ?p LeaseKey i k, redis_key ?p FenceKey i k, redis_key ?p TokenKey i k], Inr ())"
  let ?d3 = "fst (family_key TokenKey i k (fst (family_key FenceKey i k (fst (family_key LeaseKey i k d)))))"
  have d: "drv_ok d" "good ?p (rds_db d)" using assms(1) by (simp_all add: dinv_good)
  have "calls d None Some ?f (\<lambda>x. case x of Inl e \<Rightarrow> Some e | Inr _ \<Rightarrow> None) (d', r)"
    by (rule calls_intro[of _ ?d3])
      (use d assms(2) in \<open>auto simp: Redis_ForceReleaseDefinition_def method_simps split: sum.splits\<close>)
  note calls = this
  have keys: "\<forall>f i' k'. redis_key ?p f i' k' \<in> set [redis_key ?p LeaseKey i k, redis_key ?p FenceKey i k, redis_key ?p TokenKey i k]
      \<longrightarrow> (f, i', k') \<in> boundary i k"
    by (auto simp: boundary_def)
  show a: "after t (boundary i k) d d'"
    by (rule calls_after[OF assms(1) calls]) (use del_effect(1)[OF d(2) keys] in auto)
  have gone: "view ms' (rds_db d') (redis_key ?p f i k) = None" if "r = None" "clock S t \<le> ms'" "f = FenceKey \<or> f = LeaseKey" for ms' f
  proof (cases rule: calls_cases[OF calls d(1), case_names refused sent])
    case (refused e)
    then show ?thesis using that by auto
  next
    case (sent x)
    then show ?thesis using del_effect(2)[OF d(2) keys, of _ "clock S t" ms'] that by auto
  qed
  have p: "rds_keyPrefix d' = ?p" and g: "good ?p (rds_db d')" using a by (auto simp: after_def effect_def)
  show "r = None \<Longrightarrow> redis_counter look d' i k = 0"
    using gone[OF _ order_refl, of FenceKey] fence_view[OF g, of "clock S t" i k] p by (simp add: redis_counter_def count_of_def)
  show "r = None \<Longrightarrow> t \<le> t' \<Longrightarrow> holds t' d' (i, k) = None"
    using gone[OF _ clock_mono, of t' LeaseKey] p by (simp add: redis_holds_def lease_owner_def)
qed

lemma Ping_after: "dinv d \<Longrightarrow> after t {} d (fst (Redis_Ping S c t d))"
  using send_drv(1,2)[of d _ "fst x" "snd x" for x, unfolded prod.collapse]
  by (auto simp: Redis_Ping_def after_def dinv_good effect_refl validate_drv_ok send_def next_net_def drv_ok_def cache_ok_def
      split: sum.splits prod.splits list.splits net.splits option.splits)

text \<open>Every method keeps the invariant; only a forced release of a boundary lowers its counter.\<close>

lemma exec_step:
  assumes "dinv d"
  shows "dinv (redis_exec S c t op d)"
    and "op \<noteq> RForceRelease i k \<Longrightarrow> redis_counter look d i k \<le> redis_counter look (redis_exec S c t op d) i k"
proof -
  have *: "dinv d' \<and> redis_counter look d i k \<le> redis_counter look d' i k" if "after t (reach a b) d d'" for a b d'
    using that after_inv[OF that] after_counter[OF assms that, of i k] by simp
  have none: "after t (reach a b) d d'" if "after t {} d d'" for a b d'
    using that effect_mono[OF _ empty_subsetI] by (simp add: after_def)
  have "dinv (redis_exec S c t op d) \<and> (op \<noteq> RForceRelease i k \<longrightarrow> redis_counter look d i k \<le> redis_counter look (redis_exec S c t op d) i k)"
  proof (cases op)
    case (RAcquireStrict rq)
    show ?thesis using after_inv[OF AcquireStrict_after(1)] AcquireStrict_after(3) assms RAcquireStrict
      by (metis prod.collapse redis_exec.simps(6))
  next
    case (RForceRelease i' k')
    note f = ForceRelease_after(1)[OF assms, of c t i' k', OF prod.collapse[symmetric]]
    show ?thesis using after_inv[OF f] after_counter[OF assms f, of i k] RForceRelease by (auto simp: boundary_def)
  next
    case (RCacheDefinitionIDs ids)
    then show ?thesis using *[OF rebuilt_after[OF assms CacheDefinitionIDs_rebuilt]] by auto
  qed (simp_all add: *[OF exec_after(1)[OF assms]] *[OF exec_after(2)[OF assms]] *[OF exec_after(3)[OF assms]] *[OF exec_after(4)[OF assms]]
      *[OF exec_after(5)[OF assms]] *[OF exec_after(6)[OF assms]] *[OF exec_after(7)[OF assms]] *[OF exec_after(8)[OF assms]]
      *[OF none[OF exec_after(9)[OF assms]]] *[OF none[OF Ping_after[OF assms]]])
  then show "dinv (redis_exec S c t op d)"
    and "op \<noteq> RForceRelease i k \<Longrightarrow> redis_counter look d i k \<le> redis_counter look (redis_exec S c t op d) i k"
    by blast+
qed

lemma run_step:
  assumes "dinv d"
  shows "dinv (redis_run S c ops d)"
    and "\<forall>(t, op) \<in> set ops. op \<noteq> RForceRelease i k \<Longrightarrow> redis_counter look d i k \<le> redis_counter look (redis_run S c ops d) i k"
proof -
  have "dinv (redis_run S c ops d) \<and> ((\<forall>(t, op) \<in> set ops. op \<noteq> RForceRelease i k) \<longrightarrow>
      redis_counter look d i k \<le> redis_counter look (redis_run S c ops d) i k)"
    using assms
  proof (induction ops arbitrary: d)
    case (Cons x ops)
    obtain t op where x: "x = (t, op)" by fastforce
    from Cons.IH[OF exec_step(1)[OF Cons.prems, of c t op]] exec_step(2)[OF Cons.prems, of op i k c t]
    show ?case by (auto simp: x)
  qed simp
  then show "dinv (redis_run S c ops d)"
    and "\<forall>(t, op) \<in> set ops. op \<noteq> RForceRelease i k \<Longrightarrow> redis_counter look d i k \<le> redis_counter look (redis_run S c ops d) i k"
    by blast+
qed

text \<open>Foreign calls do not touch a lease that is held.\<close>

definition spared :: "time \<Rightarrow> string \<times> string \<Rightarrow> 'r RedisDriver \<Rightarrow> 'r RedisDriver \<Rightarrow> bool" where
  "spared t x d d' \<longleftrightarrow> (\<forall>t' \<ge> t. holds t' d' x = holds t' d x)"

lemma spared_untouched: "untouched holds t d d' \<Longrightarrow> spared t x d d'"
  by (simp add: spared_def untouched_def)

lemma spared_granted:
  assumes "granted Pair holds t d d' i' ks ow' l" and "holds t d x \<noteq> None"
  shows "spared t x d d'"
proof -
  obtain k' where "ks = [k']" "holds t d (i', k') = None" "\<forall>t' \<ge> t. \<forall>x. x \<noteq> (i', k') \<longrightarrow> holds t' d' x = holds t' d x"
    using assms(1) unfolding granted_def by blast
  with assms(2) show ?thesis unfolding spared_def by metis
qed

lemma spared_released:
  "released Pair holds t d d' l \<Longrightarrow> holds t d (i, k) = Some ow \<Longrightarrow> other_lease ow i k l \<Longrightarrow> spared t (i, k) d d'"
  by (auto simp: spared_def released_def other_lease_def)

lemma spared_after:
  assumes "after t F d d'" and "(LeaseKey, i, k) \<notin> F"
  shows "spared t (i, k) d d'"
  using assms effect_view[OF _ assms(2) clock_mono] by (auto simp: spared_def after_def redis_holds_def lease_owner_def)

lemma spared_renew:
  assumes "dinv d" and "calls d err fail f reply (d', r)" and "err = None \<Longrightarrow> validateLeaseRecord l = None"
    and "\<And>s' x. f (rds_db d) = (s', x) \<Longrightarrow>
      \<exists>b. renew_step (rds_keyPrefix d) (clock S t) (lr_DefinitionID l) (lr_ResourceKeys l ! 0) (lr_OwnerID l) ttl (rds_db d) s' b"
    and "holds t d (i, k) = Some ow" and "other_lease ow i k l"
  shows "spared t (i, k) d d'"
proof -
  have d: "drv_ok d" using assms(1) by (simp add: dinv_good)
  show ?thesis
  proof (cases rule: calls_cases[OF assms(2) d, case_names refused sent])
    case (refused e)
    then show ?thesis by (simp add: spared_def redis_holds_def)
  next
    case (sent x)
    obtain b where b: "renew_step (rds_keyPrefix d) (clock S t) (lr_DefinitionID l) (lr_ResourceKeys l ! 0) (lr_OwnerID l) ttl (rds_db d) (rds_db d') b"
      using assms(4)[OF sent(2)] by blast
    then have a: "after t (reach (lr_DefinitionID l) (lr_ResourceKeys l ! 0)) d d'" using sent by (simp add: after_def renew_step_def)
    note v = validated(2)[OF assms(3)[OF sent(1)]]
    show ?thesis
    proof (cases "lr_DefinitionID l = i \<and> lr_ResourceKeys l ! 0 = k")
      case True
      then have "lr_OwnerID l \<noteq> ow" using assms(6) v by (metis other_lease_def)
      then have "\<not> b" using b assms(5) True by (auto simp: renew_step_def redis_holds_def)
      then have "keeps (rds_keyPrefix d) (clock S t) i k (rds_db d) (rds_db d')" using b True by (simp add: renew_step_def)
      then show ?thesis using sent(5) clock_mono by (auto simp: keeps_def spared_def redis_holds_def lease_owner_def)
    next
      case False
      then show ?thesis by (intro spared_after[OF a]) auto
    qed
  qed
qed

lemma renew_spared:
  assumes "dinv d" and "holds t d (i, k) = Some ow" and "other_lease ow i k l"
  shows "spared t (i, k) d (fst (Redis_Renew S c t d l))" and "spared t (i, k) d (fst (Redis_RenewStrict S c t d l tok))"
    and "spared t (i, k) d (fst (Redis_RenewWithLineage S c t d l m))"
proof -
  have d: "drv_ok d" "good (rds_keyPrefix d) (rds_db d)" using assms by (simp_all add: dinv_good)
  have v: "validateRenewLeaseRecord l = None \<Longrightarrow> validateLeaseRecord l = None"
    "validateStrictRenewRequest l tok = None \<Longrightarrow> validateLeaseRecord l = None"
    "validateLineageRenewRequest l m = None \<Longrightarrow> validateLeaseRecord l = None"
    by (auto simp: validateRenewLeaseRecord_def validateStrictRenewRequest_def validateLineageRenewRequest_def split: option.splits)
  note spared = spared_renew[OF assms(1) _ _ _ assms(2,3), where r = "snd x" and d' = "fst x" for x, unfolded prod.collapse]
  show "spared t (i, k) d (fst (Redis_Renew S c t d l))"
    by (rule spared[OF Renew_calls[OF d(1)] v(1)]) (use renewScript_step[OF d(2)] in blast)+
  show "spared t (i, k) d (fst (Redis_RenewStrict S c t d l tok))"
    using RenewStrict_calls[OF d(1), of l tok S t c]
    by (elim exE) (rule spared[OF _ v(2)], assumption, assumption, use strictRenewScript_step[OF d(2)] in blast)
  show "spared t (i, k) d (fst (Redis_RenewWithLineage S c t d l m))"
    using RenewWithLineage_calls[OF d(1), of l m S t c]
    by (elim exE) (rule spared[OF _ v(3)], assumption, assumption, use lineageRenewScript_step[OF d(2)] in blast)
qed

lemma exec_spared:
  assumes "dinv d" and "holds t d (i, k) = Some ow" and "foreign ow i k op"
  shows "spared t (i, k) d (redis_exec S c t op d)"
proof -
  have acq: "spared t (i, k) d d'" if "case r of Inr l \<Rightarrow> granted Pair holds t d d' i' ks ow' (g l) | Inl e \<Rightarrow> untouched holds t d d'"
    for r :: "'b result" and g and d' i' ks ow'
    using that spared_untouched spared_granted assms(2) by (cases r) auto
  have rel: "spared t (i, k) d d'" if "case r of None \<Rightarrow> released Pair holds t d d' l | Some e \<Rightarrow> untouched holds t d d'" "other_lease ow i k l"
    for r l d'
    using that spared_untouched spared_released[OF _ assms(2)] by (cases r) auto
  show ?thesis
  proof (cases op)
    case (RAcquire rq)
    then show ?thesis using acq[where g = "\<lambda>l. l", OF Redis_Acquire_step(2)[OF assms(1) prod.collapse[symmetric]]] by simp
  next
    case (RAcquireStrict rq)
    then show ?thesis using acq[OF Redis_AcquireStrict_step(2)[OF assms(1) prod.collapse[symmetric]]] by simp
  next
    case (RAcquireWithLineage rq)
    then show ?thesis using acq[where g = "\<lambda>l. l", OF Redis_AcquireWithLineage_step(2)[OF assms(1) prod.collapse[symmetric]]] by simp
  next
    case (RForceRelease i' k')
    then show ?thesis using spared_after[OF ForceRelease_after(1)[OF assms(1) prod.collapse[symmetric]], of i k] assms(3)
      by (auto simp: boundary_def)
  next
    case (RCacheDefinitionIDs ids)
    then show ?thesis using spared_after[OF rebuilt_after[OF assms(1) CacheDefinitionIDs_rebuilt, where F = "{}"]] by simp
  qed (use assms(3) renew_spared[OF assms(1,2)] spared_after[OF exec_after(9)[OF assms(1)]] spared_after[OF Ping_after[OF assms(1)]]
      rel[OF Redis_Release_step(2)[OF assms(1) prod.collapse[symmetric]]]
      rel[OF Redis_ReleaseStrict_step(2)[OF assms(1) prod.collapse[symmetric]]]
      rel[OF Redis_ReleaseWithLineage_step(2)[OF assms(1) prod.collapse[symmetric]]] in auto)
qed

text \<open>A lease that is held until the server's clock reaches \<open>x\<close> stays held until then.\<close>

definition held_until :: "int \<Rightarrow> 'r RedisDriver \<Rightarrow> string \<Rightarrow> string \<Rightarrow> string \<Rightarrow> bool" where
  "held_until x d i k ow \<longleftrightarrow> (\<forall>t. clock S t < x \<longrightarrow> holds t d (i, k) = Some ow)"

lemma exec_held:
  assumes "dinv d" and "held_until x d i k ow" and "clock S t < x" and "foreign ow i k op"
  shows "held_until x (redis_exec S c t op d) i k ow"
proof -
  let ?d = "redis_exec S c t op d"
  have now: "holds t d (i, k) = Some ow" using assms(2,3) by (simp add: held_until_def)
  note spared = exec_spared[OF assms(1) now assms(4), of c]
  have "holds t' ?d (i, k) = Some ow" if "clock S t' < x" for t'
  proof (cases "t \<le> t'")
    case True
    then show ?thesis using spared assms(2) that by (simp add: spared_def held_until_def)
  next
    case False
    have "holds t ?d (i, k) = Some ow" using spared now by (simp add: spared_def)
    from rdr.holds_mono[OF exec_step(1)[OF assms(1)] this] False show ?thesis by simp
  qed
  then show ?thesis by (simp add: held_until_def)
qed

lemma run_held:
  assumes "dinv d" and "held_until x d i k ow" and "\<forall>(t, op) \<in> set ops. clock S t < x \<and> foreign ow i k op"
  shows "held_until x (redis_run S c ops d) i k ow"
  using assms
proof (induction ops arbitrary: d)
  case (Cons y ops)
  obtain t op where y: "y = (t, op)" by fastforce
  show ?case using Cons exec_held[OF Cons.prems(1,2), of t op c] exec_step(1)[OF Cons.prems(1), of c t op] by (simp add: y)
qed simp

lemma acquire_held:
  assumes "dinv d" and "Redis_Acquire S c t d rq = (d', Inr l)"
  shows "\<exists>k. aq_ResourceKeys rq = [k] \<and> held_until (clock S t + px_millis S (aq_LeaseTTL rq)) d' (aq_DefinitionID rq) k (aq_OwnerID rq)"
proof -
  let ?k = "aq_ResourceKeys rq ! 0" and ?p = "rds_keyPrefix d" and ?x = "clock S t + px_millis S (aq_LeaseTTL rq)"
  let ?K = "redis_key ?p LeaseKey (aq_DefinitionID rq) ?k"
  have d: "drv_ok d" "good ?p (rds_db d)" using assms by (simp_all add: dinv_good)
  show ?thesis
  proof (cases rule: calls_cases[OF Acquire_calls[OF d(1), of rq S t c, unfolded assms(2)] d(1), case_names refused sent])
    case (sent y)
    note v = validated(1)[OF sent(1)]
    have "SETPX S (clock S t) (rds_db d) ?K (RStr (aq_OwnerID rq)) (px_millis S (aq_LeaseTTL rq)) True = (rds_db d', True)"
      using sent(2,3) by (auto simp: setnx_def split: prod.splits sum.splits if_splits)
    from setpx_effect(3)[OF d(2) px_positive this] v
    have "look (rds_db d') ?K = Some (RStr (aq_OwnerID rq), Some ?x)" by (auto dest: decay_Some)
    then have "held_until ?x d' (aq_DefinitionID rq) ?k (aq_OwnerID rq)"
      using sent(5) alive_before by (auto simp: held_until_def redis_holds_def lease_owner_def decay_def)
    then show ?thesis using v by metis
  qed auto
qed

lemma held_refuses:
  assumes "dinv d" and "holds t d (i, k) = Some ow"
  shows "aq_DefinitionID rq = i \<Longrightarrow> aq_ResourceKeys rq = [k] \<Longrightarrow> Redis_Acquire S c t d rq \<noteq> (d', Inr l)"
    and "sq_DefinitionID sq = i \<Longrightarrow> sq_ResourceKey sq = k \<Longrightarrow> Redis_AcquireStrict S c t d sq \<noteq> (d', Inr f)"
    and "lq_DefinitionID lq = i \<Longrightarrow> lq_ResourceKey lq = k \<Longrightarrow> Redis_AcquireWithLineage S c t d lq \<noteq> (d', Inr l)"
  using redis_steps(2)[OF assms(1), of c t rq d' l] redis_steps(10)[OF assms(1), of c t sq d' f]
    redis_steps(16)[OF assms(1), of c t lq d' l] assms(2)
  by (auto simp: granted_def)

end

end
