(* ===== verification/Redis_Lineage.thy ===== *)
theory Redis_Lineage
  imports Redis_Runs
begin

text \<open>
  Parents and children on Redis: a granted lineage lease is a member of the sorted set of each of its ancestors until it
  expires, whatever other leases do, and an ancestor with a live member is refused. The scripts prune with the client's clock, which
  they are given, while the sorted set expires by the server's. The lemmas keep the two apart: \<open>now\<close> is the client's and \<open>ms\<close> the
  server's time of a call, \<open>e\<close> the score of a member and \<open>y\<close> a server time until which its sorted set is kept, with \<open>y \<le> ms + (e - now)\<close>
  at every call.
\<close>

lemma mget_filter_keep: "mget z k = Some v \<Longrightarrow> P v \<Longrightarrow> mget (filter (\<lambda>(_, v). P v) z) k = Some v"
  by (induction z) (auto split: if_splits)

text \<open>The member that a call with lineage works on.\<close>

fun op_member :: "redis_op \<Rightarrow> string option" where
  "op_member (RAcquireWithLineage rq) =
     Some (lineageMember (lm_LeaseID (lq_Lineage rq)) (lq_DefinitionID rq) (lq_ResourceKey rq))"
| "op_member (RRenewWithLineage l m) = Some (lineageMember (lm_LeaseID m) (lr_DefinitionID l) (lr_ResourceKeys l ! 0))"
| "op_member (RReleaseWithLineage l m) = Some (lineageMember (lm_LeaseID m) (lr_DefinitionID l) (lr_ResourceKeys l ! 0))"
| "op_member _ = None"

text \<open>The call comes in time: the sorted set is still there, the member is not pruned, and what the call sets the expiry to is late enough.\<close>

definition in_time :: "int \<Rightarrow> int \<Rightarrow> int \<Rightarrow> int \<Rightarrow> bool" where
  "in_time ms now e y \<longleftrightarrow> ms < y \<and> now < e \<and> y \<le> ms + (e - now)"

lemma in_timeD: assumes "in_time ms now e y" shows "ms < y" and "now < e" and "y \<le> ms + (e - now)"
  using assms by (simp_all add: in_time_def)

context redis_server
begin

definition member_at :: "int \<Rightarrow> string \<Rightarrow> 'r \<Rightarrow> string \<Rightarrow> string \<Rightarrow> string \<Rightarrow> int \<Rightarrow> int option \<Rightarrow> bool" where
  "member_at ms p s i k member e x \<longleftrightarrow>
     (\<exists>z. view ms s (redis_key p LineageKey i k) = Some (RZSet z, x) \<and> mget z member = Some e)"

definition guarded :: "string \<Rightarrow> 'r \<Rightarrow> string \<Rightarrow> string \<Rightarrow> string \<Rightarrow> int \<Rightarrow> int \<Rightarrow> bool" where
  "guarded p s i k member e y \<longleftrightarrow>
     (\<exists>z x. look s (redis_key p LineageKey i k) = Some (RZSet z, Some x) \<and> mget z member = Some e \<and> y \<le> x)"

lemma guarded_member: "guarded p s i k member e y \<Longrightarrow> ms < y \<Longrightarrow> \<exists>x. member_at ms p s i k member e x"
  using alive_before[of ms] by (fastforce simp: guarded_def member_at_def decay_def)

lemma member_guarded: "member_at ms p s i k member e (Some x) \<Longrightarrow> y \<le> x \<Longrightarrow> guarded p s i k member e y"
  by (auto simp: guarded_def member_at_def dest: decay_Some)

lemma guarded_effect:
  assumes "guarded p s i k member e y" and "effect p ms F s s'" and "(LineageKey, i, k) \<notin> F" and "ms < y"
  shows "guarded p s' i k member e y"
proof -
  obtain z x where z: "look s (redis_key p LineageKey i k) = Some (RZSet z, Some x)" "mget z member = Some e" "y \<le> x"
    using assms(1) by (auto simp: guarded_def)
  have "view ms s (redis_key p LineageKey i k) = Some (RZSet z, Some x)" using z assms(4) alive_before by (simp add: decay_def)
  then have "view ms s' (redis_key p LineageKey i k) = Some (RZSet z, Some x)" using effect_view[OF assms(2,3)] by simp
  then show ?thesis using z decay_Some by (fastforce simp: guarded_def)
qed

lemma kept_expiry: "decay alive ms (\<lambda>_. Some (v, expiry_at (view ms s) k)) k' = Some (v, expiry_at (view ms s) k)"
  by (auto simp: decay_def expiry_at_def split: option.splits)

lemma zset_write:
  assumes "good p s" and "z \<noteq> []"
    and "ok s' \<and> settles alive ms ((look s)(redis_key p LineageKey i k := put_zset (view ms s) (redis_key p LineageKey i k) z)) (look s')"
  shows "view ms s' (redis_key p LineageKey i k) = Some (RZSet z, expiry_at (view ms s) (redis_key p LineageKey i k))"
  using write_effect(2)[OF assms(1,3), of ms] assms(2) kept_expiry by (simp add: put_zset_def)

lemma zset_of: "view ms s key = Some (RZSet z, x) \<Longrightarrow> zset (view ms s) key = z" "view ms s key = Some (v, x) \<Longrightarrow> expiry_at (view ms s) key = x"
  by (simp_all add: zset_def expiry_at_def)

lemma mput_nonempty: "mput a b z \<noteq> []"
  by (cases z) auto

lemma zadd_new:
  assumes "good p s"
  shows "\<exists>x. member_at ms p (ZADD S ms s (redis_key p LineageKey i k) False e member) i k member e x"
proof -
  have law: "ok (ZADD S ms s (redis_key p LineageKey i k) False e member) \<and> settles alive ms
      ((look s)(redis_key p LineageKey i k := put_zset (view ms s) (redis_key p LineageKey i k) (mput member e (zset (view ms s) (redis_key p LineageKey i k)))))
      (look (ZADD S ms s (redis_key p LineageKey i k) False e member))"
    using zadd_law[OF _ refl typed_views(4), of s p ms i k False e member] assms by (simp add: good_def)
  from zset_write[OF assms mput_nonempty law] show ?thesis by (simp add: member_at_def)
qed

lemma zadd_member:
  assumes "good p s" and "member_at ms p s i k member e x" and "m' = member \<longrightarrow> sc = e"
  shows "member_at ms p (ZADD S ms s (redis_key p LineageKey i k) xx sc m') i k member e x"
proof -
  let ?K = "redis_key p LineageKey i k"
  obtain z where z: "view ms s ?K = Some (RZSet z, x)" "mget z member = Some e" using assms(2) by (auto simp: member_at_def)
  have law: "ok (ZADD S ms s ?K xx sc m') \<and> settles alive ms
      (if xx \<and> mget z m' = None then look s else (look s)(?K := put_zset (view ms s) ?K (mput m' sc z))) (look (ZADD S ms s ?K xx sc m'))"
    using zadd_law[OF _ refl typed_views(4), of s p ms i k xx sc m', unfolded zset_of(1)[OF z(1)]] assms(1)
    unfolding good_def by blast
  show ?thesis
  proof (cases "xx \<and> mget z m' = None")
    case True
    then show ?thesis using idle_effect(2)[OF assms(1), of "ZADD S ms s ?K xx sc m'" ms ms] law z by (auto simp: member_at_def)
  next
    case False
    then have "ok (ZADD S ms s ?K xx sc m') \<and> settles alive ms ((look s)(?K := put_zset (view ms s) ?K (mput m' sc z))) (look (ZADD S ms s ?K xx sc m'))"
      using law by (auto split: if_splits)
    from zset_write[OF assms(1) mput_nonempty this] z assms(3) show ?thesis by (simp add: member_at_def zset_of)
  qed
qed

lemma zrem_member:
  assumes "good p s" and "member_at ms p s i k member e x" and "m' \<noteq> member"
  shows "member_at ms p (ZREM S ms s (redis_key p LineageKey i k) m') i k member e x"
proof -
  let ?K = "redis_key p LineageKey i k"
  obtain z where z: "view ms s ?K = Some (RZSet z, x)" "mget z member = Some e" using assms(2) by (auto simp: member_at_def)
  then have keep: "mget (mdel m' z) member = Some e" using assms(3) by simp
  then have ne: "mdel m' z \<noteq> []" by (cases "mdel m' z") auto
  have "ok (ZREM S ms s ?K m') \<and> settles alive ms ((look s)(?K := put_zset (view ms s) ?K (mdel m' z))) (look (ZREM S ms s ?K m'))"
    using zrem_law[OF _ refl typed_views(4), of s p ms i k m'] assms(1) zset_of[OF z(1)] by (simp add: good_def)
  from zset_write[OF assms(1) ne this] z keep show ?thesis by (simp add: member_at_def zset_of)
qed

lemma zremrange_member:
  assumes "good p s" and "member_at ms p s i k member e x" and "hi < e"
  shows "member_at ms p (ZREMRANGE S ms s (redis_key p LineageKey i k) hi) i k member e x"
proof -
  let ?K = "redis_key p LineageKey i k"
  obtain z where z: "view ms s ?K = Some (RZSet z, x)" "mget z member = Some e" using assms(2) by (auto simp: member_at_def)
  let ?z = "filter (\<lambda>(_, score). hi < score) z"
  have keep: "mget ?z member = Some e" using mget_filter_keep[OF z(2), where P = "\<lambda>sc. hi < sc"] assms(3) by simp
  then have ne: "?z \<noteq> []" by (metis map_of.simps(1) option.distinct(1))
  have "ok (ZREMRANGE S ms s ?K hi) \<and> settles alive ms ((look s)(?K := put_zset (view ms s) ?K ?z)) (look (ZREMRANGE S ms s ?K hi))"
    using zremrange_law[OF _ refl typed_views(4), of s p ms i k hi] assms(1) zset_of[OF z(1)] by (simp add: good_def)
  from zset_write[OF assms(1) ne this] z keep show ?thesis by (simp add: member_at_def zset_of)
qed

lemma ztop_member:
  assumes "good p s" and "member_at ms p s i k member e x"
  shows "\<exists>m' sc. ZTOP S ms s (redis_key p LineageKey i k) = Some (m', sc) \<and> e \<le> sc" and "0 < ZCARD S ms s (redis_key p LineageKey i k)"
proof -
  let ?K = "redis_key p LineageKey i k"
  obtain z where z: "view ms s ?K = Some (RZSet z, x)" "mget z member = Some e" using assms(2) by (auto simp: member_at_def)
  then have m: "(member, e) \<in> set z" by (simp add: map_of_SomeD)
  have t: "zset_at (view ms s) ?K" using typed_views(4) assms(1) by (simp add: good_def)
  have ok: "ok s" using assms(1) by (simp add: good_def)
  show "\<exists>m' sc. ZTOP S ms s ?K = Some (m', sc) \<and> e \<le> sc"
    using ztop_law[OF ok refl t refl] m zset_of[OF z(1)] by (cases "ZTOP S ms s ?K") auto
  show "0 < ZCARD S ms s ?K" using zcard_law[OF ok refl t] m zset_of[OF z(1)] by (cases z) auto
qed

lemma pexpire_guard:
  assumes "good p s" and "member_at ms p s i k member e x" and "y \<le> ms + n" and "0 < n"
  shows "guarded p (fst (PEXPIRE S ms s (redis_key p LineageKey i k) n)) i k member e y"
proof -
  from pexpire_effect(3)[OF assms(1,4) prod.collapse[symmetric]] assms(2)
  have "member_at ms p (fst (PEXPIRE S ms s (redis_key p LineageKey i k) n)) i k member e (Some (ms + n))"
    by (auto simp: member_at_def)
  then show ?thesis using assms(3) by (rule member_guarded)
qed

text \<open>The bodies of the loops, at the key of the ancestor and at another key.\<close>

lemma touch_guards:
  assumes "good p s" and "in_time ms now e y" and "\<exists>x. member_at ms p (ZADD S ms s (redis_key p LineageKey i k) xx sc m') i k member e x"
  shows "guarded p (touch_lineage S ms now xx sc m' (redis_key p LineageKey i k) s) i k member e y"
proof -
  let ?K = "redis_key p LineageKey i k" and ?s1 = "ZADD S ms s (redis_key p LineageKey i k) xx sc m'"
  let ?s2 = "ZREMRANGE S ms ?s1 ?K now"
  note t = in_timeD[OF assms(2)]
  have g1: "good p ?s1" by (rule effect_good[OF zset_effects(1)[OF assms(1)]])
  have g2: "good p ?s2" by (rule effect_good[OF zset_effects(3)[OF g1]])
  obtain x where m: "member_at ms p ?s2 i k member e x" using zremrange_member[OF g1 _ t(2)] assms(3) by blast
  obtain m2 top_sc where tp: "ZTOP S ms ?s2 ?K = Some (m2, top_sc)" "e \<le> top_sc" using ztop_member(1)[OF g2 m] by blast
  have body: "touch_lineage S ms now xx sc m' ?K s =
      (if PTTL S ms ?s2 ?K < top_sc - now then fst (PEXPIRE S ms ?s2 ?K (top_sc - now)) else ?s2)"
    using tp t(2) by (simp add: touch_lineage_def prune_and_get_remaining_def Let_def)
  show ?thesis
  proof (cases "PTTL S ms ?s2 ?K < top_sc - now")
    case True
    then show ?thesis unfolding body using pexpire_guard[OF g2 m, of y "top_sc - now"] tp(2) t by simp
  next
    case False
    have p: "PTTL S ms ?s2 ?K = (case x of Some y \<Rightarrow> y - ms | None \<Rightarrow> - 1)"
      using pttl_law g2 m by (auto simp: good_def member_at_def split: option.splits)
    with False tp(2) t obtain y' where "x = Some y'" "y \<le> y'" by (cases x) auto
    with m False show ?thesis unfolding body by (simp add: member_guarded)
  qed
qed

lemma touch_keeps_guard:
  assumes "good p s" and "in_time ms now e y" and "guarded p s i k member e y" and "m' = member \<longrightarrow> sc = e"
  shows "guarded p (touch_lineage S ms now xx sc m' (ancestor_key p LineageKey a) s) i k member e y"
proof (cases "ak_DefinitionID a = i \<and> ak_ResourceKey a = k")
  case True
  obtain x where "member_at ms p s i k member e x" using guarded_member[OF assms(3) in_timeD(1)[OF assms(2)]] by blast
  then show ?thesis using touch_guards[OF assms(1,2)] zadd_member[OF assms(1) _ assms(4)] True by (fastforce simp: ancestor_key_def)
next
  case False
  have "effect p ms {(LineageKey, ak_DefinitionID a, ak_ResourceKey a)} s (touch_lineage S ms now xx sc m' (ancestor_key p LineageKey a) s)"
    by (rule touch_effect_at[OF assms(1)])
  then show ?thesis using guarded_effect[OF assms(3) _ _ in_timeD(1)[OF assms(2)]] False by auto
qed

lemma leave_keeps_guard:
  assumes "good p s" and "in_time ms now e y" and "guarded p s i k member e y" and "m' \<noteq> member"
  shows "guarded p (leave_lineage S ms now m' (ancestor_key p LineageKey a) s) i k member e y"
proof (cases "ak_DefinitionID a = i \<and> ak_ResourceKey a = k")
  case True
  let ?K = "redis_key p LineageKey i k"
  note t = in_timeD[OF assms(2)]
  let ?s1 = "ZREM S ms s ?K m'"
  let ?s2 = "ZREMRANGE S ms ?s1 ?K now"
  obtain x where m: "member_at ms p s i k member e x" using guarded_member[OF assms(3) t(1)] by blast
  have g1: "good p ?s1" by (rule effect_good[OF zset_effects(2)[OF assms(1)]])
  have g2: "good p ?s2" by (rule effect_good[OF zset_effects(3)[OF g1]])
  have m2: "member_at ms p ?s2 i k member e x" by (rule zremrange_member[OF g1 zrem_member[OF assms(1) m assms(4)] t(2)])
  obtain m3 top_sc where tp: "ZTOP S ms ?s2 ?K = Some (m3, top_sc)" "e \<le> top_sc" using ztop_member(1)[OF g2 m2] by blast
  have "leave_lineage S ms now m' ?K s = fst (PEXPIRE S ms ?s2 ?K (top_sc - now))"
    using tp ztop_member(2)[OF g2 m2] t(2) by (simp add: leave_lineage_def Let_def)
  then show ?thesis using pexpire_guard[OF g2 m2, of y "top_sc - now"] tp(2) t True by (simp add: ancestor_key_def)
next
  case False
  then show ?thesis using guarded_effect[OF assms(3) leave_effect_at[OF assms(1)] _ in_timeD(1)[OF assms(2)]] by auto
qed

lemma fold_guard:
  assumes "\<And>a s. good p s \<Longrightarrow> guarded p s i k member e y \<Longrightarrow> guarded p (g (h a) s) i k member e y"
    and "\<And>a s. good p s \<Longrightarrow> effect p ms F s (g (h a) s)"
    and "good p s" and "guarded p s i k member e y"
  shows "guarded p (fold g (map h as) s) i k member e y"
  using assms(3,4)
proof (induction as arbitrary: s)
  case (Cons a as)
  show ?case using Cons.IH[OF effect_good[OF assms(2)[OF Cons.prems(1), of a]] assms(1)[OF Cons.prems]] by simp
qed simp

lemma fold_touch_guards:
  assumes "good p s" and "in_time ms now e y" and "a \<in> set as"
  shows "guarded p (fold (touch_lineage S ms now False e member) (map (ancestor_key p LineageKey) as) s)
    (ak_DefinitionID a) (ak_ResourceKey a) member e y"
  using assms(1,3)
proof (induction as arbitrary: s)
  case (Cons b as)
  let ?t = "touch_lineage S ms now False e member"
  have good: "good p (?t (ancestor_key p LineageKey b) s)" by (rule effect_good[OF touch_effect_at[OF Cons.prems(1)]])
  show ?case
  proof (cases "b = a")
    case True
    have "guarded p (?t (ancestor_key p LineageKey a) s) (ak_DefinitionID a) (ak_ResourceKey a) member e y"
      unfolding ancestor_key_def by (rule touch_guards[OF Cons.prems(1) assms(2) zadd_new[OF Cons.prems(1)]])
    then show ?thesis
      using fold_guard[where g = ?t and h = "ancestor_key p LineageKey", OF touch_keeps_guard[OF _ assms(2)] touch_effect good] True by simp
  next
    case False
    then show ?thesis using Cons.IH[OF good] Cons.prems(2) by simp
  qed
qed simp

text \<open>The scripts.\<close>

lemma acquire_script_guards:
  assumes "good p s" and "lineageAcquireScript S ms (lineage_acquire_keys p d k as) ow ttl now kind member (length as) s = (s', Inr (ints [1, n]))"
    and "a \<in> set as" and "ms < y" and "y \<le> ms + ttl"
  shows "guarded p s' (ak_DefinitionID a) (ak_ResourceKey a) member (now + ttl) y"
proof -
  let ?s1 = "ZREMRANGE S ms s (redis_key p LineageKey d k) now"
  obtain s2 b where 2: "SETPX S ms ?s1 (redis_key p LeaseKey d k) (RStr ow) ttl True = (s2, b)" by fastforce
  have x: "0 < ttl" "s' = fold (touch_lineage S ms now False (now + ttl) member) (map (ancestor_key p LineageKey) as) s2"
    using assms(2)[unfolded lineageAcquireScript_def lineage_acquire_keys_parts] 2 by (auto simp: Let_def split: if_splits bool.splits)
  have "good p s2" by (rule effect_good[OF setpx_lease(1)[OF effect_good[OF zset_effects(3)[OF assms(1)]] x(1) 2]])
  moreover have "in_time ms now (now + ttl) y" using assms(4,5) x(1) by (simp add: in_time_def)
  ultimately show ?thesis unfolding x(2) using assms(3) by (rule fold_touch_guards)
qed

lemma acquire_script_keeps_guard:
  assumes "good p s" and "lineageAcquireScript S ms (lineage_acquire_keys p d k as) ow ttl now kind m' (length as) s = (s', r)"
    and "in_time ms now e y" and "guarded p s i k' member e y" and "m' \<noteq> member"
  shows "guarded p s' i k' member e y"
proof -
  let ?s1 = "ZREMRANGE S ms s (redis_key p LineageKey d k) now"
  obtain s2 b where 2: "SETPX S ms ?s1 (redis_key p LeaseKey d k) (RStr ow) ttl True = (s2, b)" by fastforce
  let ?s3 = "fold (touch_lineage S ms now False (now + ttl) m') (map (ancestor_key p LineageKey) as) s2"
  have g1: "good p ?s1" by (rule effect_good[OF zset_effects(3)[OF assms(1)]])
  have k1: "guarded p ?s1 i k' member e y"
  proof (cases "i = d \<and> k' = k")
    case True
    obtain z x where z: "look s (redis_key p LineageKey i k') = Some (RZSet z, Some x)" "mget z member = Some e" "y \<le> x"
      using assms(4) by (auto simp: guarded_def)
    then have "member_at ms p s i k' member e (Some x)" using alive_before in_timeD(1)[OF assms(3)] by (simp add: member_at_def decay_def)
    from zremrange_member[OF assms(1) this in_timeD(2)[OF assms(3)]] z(3) True show ?thesis by (simp add: member_guarded)
  next
    case False
    then show ?thesis using guarded_effect[OF assms(4) zset_effects(3)[OF assms(1)] _ in_timeD(1)[OF assms(3)]] by auto
  qed
  have lease: "effect p ms {(LeaseKey, d, k)} ?s1 s2" if "0 < ttl" using setpx_effect(1)[OF g1 that 2] by simp
  have k2: "guarded p s2 i k' member e y" if "0 < ttl" using guarded_effect[OF k1 lease[OF that] _ in_timeD(1)[OF assms(3)]] by simp
  have k3: "guarded p ?s3 i k' member e y" if "0 < ttl"
    using fold_guard[where g = "touch_lineage S ms now False (now + ttl) m'" and h = "ancestor_key p LineageKey",
        OF touch_keeps_guard[OF _ assms(3)] touch_effect effect_good[OF lease[OF that]] k2[OF that]] assms(5) by simp
  have "s' = s \<or> s' = ?s1 \<or> 0 < ttl \<and> (s' = s2 \<or> s' = ?s3)"
    using assms(2)[unfolded lineageAcquireScript_def lineage_acquire_keys_parts] 2 by (auto simp: Let_def split: if_splits bool.splits)
  then show ?thesis using assms(4) k1 k2 k3 by blast
qed

lemma renew_script_keeps_guard:
  assumes "good p s" and "lineageRenewScript S ms (lineage_keys p d k as) ow ttl now m' (length as) s = (s', r)"
    and "in_time ms now e y" and "guarded p s i k' member e y" and "m' \<noteq> member"
  shows "guarded p s' i k' member e y"
proof -
  let ?s1 = "fold (touch_lineage S ms now True (now + ttl) m') (map (ancestor_key p LineageKey) as) s"
  obtain s2 b where 2: "PEXPIRE S ms ?s1 (redis_key p LeaseKey d k) ttl = (s2, b)" by fastforce
  have e1: "effect p ms lineage_fam s ?s1"
    using fold_effect[where g = "touch_lineage S ms now True (now + ttl) m'" and h = "ancestor_key p LineageKey"] touch_effect assms(1) by blast
  have k1: "guarded p ?s1 i k' member e y"
    using fold_guard[where g = "touch_lineage S ms now True (now + ttl) m'" and h = "ancestor_key p LineageKey",
        OF touch_keeps_guard[OF _ assms(3)] touch_effect assms(1,4)] assms(5) by simp
  have k2: "guarded p s2 i k' member e y" if "0 < ttl"
    using guarded_effect[OF k1 pexpire_effect(1)[OF effect_good[OF e1] that 2] _ in_timeD(1)[OF assms(3)]] by simp
  have "lineage_keys p d k as ! 0 = redis_key p LeaseKey d k" "take (length as) (drop 1 (lineage_keys p d k as)) = map (ancestor_key p LineageKey) as"
    by (simp_all add: lineage_keys_def)
  note parts = this
  have "s' = s \<or> 0 < ttl \<and> s' = s2"
    using assms(2)[unfolded lineageRenewScript_def parts] 2 by (auto split: if_splits bool.splits option.splits)
  then show ?thesis using assms(4) k2 by blast
qed

lemma release_script_keeps_guard:
  assumes "good p s" and "lineageReleaseScript S ms (lineage_keys p d k as) ow now m' (length as) s = (s', r)"
    and "in_time ms now e y" and "guarded p s i k' member e y" and "m' \<noteq> member"
  shows "guarded p s' i k' member e y"
proof -
  let ?s1 = "DEL S ms s [redis_key p LeaseKey d k]"
  have e1: "effect p ms {(LeaseKey, d, k)} s ?s1" by (rule del_effect(1)[OF assms(1)]) simp
  have k1: "guarded p ?s1 i k' member e y" using guarded_effect[OF assms(4) e1 _ in_timeD(1)[OF assms(3)]] by simp
  have k2: "guarded p (fold (leave_lineage S ms now m') (map (ancestor_key p LineageKey) as) ?s1) i k' member e y"
    using fold_guard[where g = "leave_lineage S ms now m'" and h = "ancestor_key p LineageKey",
        OF leave_keeps_guard[OF _ assms(3)] leave_effect effect_good[OF e1] k1] assms(5) by simp
  have "lineage_keys p d k as ! 0 = redis_key p LeaseKey d k" "take (length as) (drop 1 (lineage_keys p d k as)) = map (ancestor_key p LineageKey) as"
    by (simp_all add: lineage_keys_def)
  note parts = this
  show ?thesis
    using assms(2,4)[unfolded lineageReleaseScript_def parts] k2 by (auto split: if_splits option.splits)
qed

lemma guarded_refuses:
  assumes "good p s" and "lineageAcquireScript S ms (lineage_acquire_keys p d k as) ow ttl now kind m' (length as) s = (s', r)"
    and "in_time ms now e y" and "guarded p s d k member e y"
  shows "r = Inr (ints [- 3, 0]) \<or> r = Inr (ints [- 2, 0])"
proof -
  let ?s1 = "ZREMRANGE S ms s (redis_key p LineageKey d k) now"
  obtain x where "member_at ms p s d k member e x" using guarded_member[OF assms(4) in_timeD(1)[OF assms(3)]] by blast
  from zremrange_member[OF assms(1) this in_timeD(2)[OF assms(3)]]
  have "0 < ZCARD S ms ?s1 (redis_key p LineageKey d k)" by (rule ztop_member(2)[OF effect_good[OF zset_effects(3)[OF assms(1)]]])
  then show ?thesis
    using assms(2)[unfolded lineageAcquireScript_def lineage_acquire_keys_parts] by (auto simp: Let_def split: if_splits)
qed

text \<open>The other scripts stay within the keys of their boundary.\<close>

lemma boundary_subsets: "{(LeaseKey, d, k)} \<subseteq> boundary d k" "{(FenceKey, d, k)} \<subseteq> boundary d k" "{(TokenKey, d, k)} \<subseteq> boundary d k"
  by (auto simp: boundary_def)

lemma setnx_boundary:
  "good p s \<Longrightarrow> 0 < ttl \<Longrightarrow> setnx S ms (redis_key p LeaseKey d k) ow ttl s = (s', x) \<Longrightarrow> effect p ms (boundary d k) s s'"
  using setpx_effect(1)[OF _ px_positive] effect_mono[OF _ boundary_subsets(1)]
  by (fastforce simp: setnx_def split: prod.splits)

lemma del_boundary:
  "good p s \<Longrightarrow> effect p ms (boundary d k) s (DEL S ms s [redis_key p LeaseKey d k])"
  "good p s \<Longrightarrow> effect p ms (boundary d k) s (DEL S ms s [redis_key p LeaseKey d k, redis_key p TokenKey d k])"
  using del_effect(1) by (auto simp: boundary_def)

lemma release_boundary:
  assumes "good p s"
  shows "releaseScript S ms (redis_key p LeaseKey d k) ow s = (s', x) \<Longrightarrow> effect p ms (boundary d k) s s'"
    and "strictReleaseScript S ms (redis_key p LeaseKey d k) (redis_key p TokenKey d k) ow tok s = (s', x) \<Longrightarrow> effect p ms (boundary d k) s s'"
  using del_boundary[OF assms] effect_refl[OF assms]
  by (auto simp: releaseScript_def strictReleaseScript_def split: option.splits if_splits)

lemma pexpire_boundary:
  assumes "good p s" and "0 < ttl" and "PEXPIRE S ms s (redis_key p f d k) ttl = (s', b)" and "f = LeaseKey \<or> f = TokenKey"
  shows "effect p ms (boundary d k) s s'"
  using effect_mono[OF pexpire_effect(1)[OF assms(1-3)], of "boundary d k"] assms(4) by (auto simp: boundary_def)

lemma renew_boundary:
  assumes "good p s" and "renewScript S ms (redis_key p LeaseKey d k) ow ttl s = (s', x)"
  shows "effect p ms (boundary d k) s s'"
  using assms effect_refl[OF assms(1)] pexpire_boundary[OF assms(1), of ttl ms LeaseKey d k]
  by (auto simp: renewScript_def not_le split: option.splits if_splits prod.splits bool.splits)

lemma strictRenew_boundary:
  assumes "good p s" and "strictRenewScript S ms (redis_key p LeaseKey d k) (redis_key p TokenKey d k) ow tok ttl s = (s', x)"
  shows "effect p ms (boundary d k) s s'"
proof (cases "0 < ttl")
  case True
  obtain s1 b where 1: "PEXPIRE S ms s (redis_key p LeaseKey d k) ttl = (s1, b)" by fastforce
  obtain s2 b2 where 2: "PEXPIRE S ms s1 (redis_key p TokenKey d k) ttl = (s2, b2)" by fastforce
  have e1: "effect p ms (boundary d k) s s1" using pexpire_boundary[OF assms(1) True 1] by simp
  have e2: "effect p ms (boundary d k) s s2" using effect_trans[OF e1 pexpire_boundary[OF effect_good[OF e1] True 2]] by simp
  have "s' = s \<or> s' = s1 \<or> s' = s2"
    using assms(2) 1 2 by (auto simp: strictRenewScript_def split: option.splits if_splits bool.splits)
  then show ?thesis using effect_refl[OF assms(1)] e1 e2 by blast
next
  case False
  then show ?thesis using assms effect_refl[OF assms(1)] by (auto simp: strictRenewScript_def split: if_splits)
qed

lemma strictAcquire_boundary:
  assumes "good p s" and "strictAcquireScript S ms (redis_key p LeaseKey d k) (redis_key p FenceKey d k) (redis_key p TokenKey d k) ow ttl s = (s', x)"
  shows "effect p ms (boundary d k) s s'"
proof -
  obtain s1 r where 1: "INCR S ms s (redis_key p FenceKey d k) = (s1, r)" by fastforce
  have e1: "effect p ms (boundary d k) s s1"
  proof (cases r)
    case (Inl e)
    have "ok s1 \<and> settles alive ms (look s) (look s1)" using incr_failed[OF _ 1[unfolded Inl]] assms(1) by (simp add: good_def)
    from idle_effect(1)[OF assms(1) this] show ?thesis .
  next
    case (Inr n)
    from effect_mono[OF incr_effect(1)[OF assms(1) 1[unfolded Inr]] boundary_subsets(2)] show ?thesis .
  qed
  obtain s2 b where 2: "SETPX S ms s1 (redis_key p LeaseKey d k) (RStr ow) ttl True = (s2, b)" by fastforce
  have e2: "effect p ms (boundary d k) s s2" if "0 < ttl"
    using effect_trans[OF e1 effect_mono[OF setpx_effect(1)[OF effect_good[OF e1] that 2] boundary_subsets(1)]] by simp
  have e3: "effect p ms (boundary d k) s (fst (SETPX S ms s2 (redis_key p TokenKey d k) (RNum n) ttl False))" if "0 < ttl" for n
    using effect_trans[OF e2[OF that] effect_mono[OF setpx_effect(1)[OF effect_good[OF e2[OF that]] that prod.collapse[symmetric]] boundary_subsets(3)]]
    by simp
  have "s' = s \<or> s' = s1 \<or> 0 < ttl \<and> (s' = s2 \<or> (\<exists>n. s' = fst (SETPX S ms s2 (redis_key p TokenKey d k) (RNum n) ttl False)))"
    using assms(2) 1 2 by (auto simp: strictAcquireScript_def split: if_splits sum.splits bool.splits prod.splits) (metis fst_conv)
  then show ?thesis using effect_refl[OF assms(1)] e1 e2 e3 by blast
qed

section \<open>Runs\<close>

lemma exec_boundary:
  assumes "dinv d"
  shows "after t (boundary (aq_DefinitionID aq) (aq_ResourceKeys aq ! 0)) d (fst (Redis_Acquire S c t d aq))"
    and "after t (boundary (sq_DefinitionID sq) (sq_ResourceKey sq)) d (fst (Redis_AcquireStrict S c t d sq))"
    and "after t (boundary (lr_DefinitionID l) (lr_ResourceKeys l ! 0)) d (fst (Redis_Renew S c t d l))"
    and "after t (boundary (lr_DefinitionID l) (lr_ResourceKeys l ! 0)) d (fst (Redis_RenewStrict S c t d l tok))"
    and "after t (boundary (lr_DefinitionID l) (lr_ResourceKeys l ! 0)) d (fst (Redis_Release S c t d l))"
    and "after t (boundary (lr_DefinitionID l) (lr_ResourceKeys l ! 0)) d (fst (Redis_ReleaseStrict S c t d l tok))"
proof -
  have d: "drv_ok d" "good (rds_keyPrefix d) (rds_db d)" using assms by (simp_all add: dinv_good)
  note after = calls_after[OF assms, where r = "snd x" and d' = "fst x" for x, unfolded prod.collapse]
  show "after t (boundary (aq_DefinitionID aq) (aq_ResourceKeys aq ! 0)) d (fst (Redis_Acquire S c t d aq))"
  proof (cases "validateAcquireRequest aq")
    case None
    with validated(1) have "0 < aq_LeaseTTL aq" by blast
    then show ?thesis by (intro after[OF Acquire_calls[OF d(1)]] setnx_boundary[OF d(2)])
  next
    case (Some e)
    then have "fst (Redis_Acquire S c t d aq) = d" using d(1) by (simp add: Redis_Acquire_def validate_drv_ok)
    then show ?thesis using d by (simp add: after_def effect_refl)
  qed
  show "after t (boundary (sq_DefinitionID sq) (sq_ResourceKey sq)) d (fst (Redis_AcquireStrict S c t d sq))"
    by (rule after[OF AcquireStrict_calls[OF d(1)] strictAcquire_boundary[OF d(2)]])
  show "after t (boundary (lr_DefinitionID l) (lr_ResourceKeys l ! 0)) d (fst (Redis_Renew S c t d l))"
    by (rule after[OF Renew_calls[OF d(1)] renew_boundary[OF d(2)]])
  show "after t (boundary (lr_DefinitionID l) (lr_ResourceKeys l ! 0)) d (fst (Redis_RenewStrict S c t d l tok))"
    using RenewStrict_calls[OF d(1), of l tok S t c] by (elim exE) (rule after[OF _ strictRenew_boundary[OF d(2)]])
  show "after t (boundary (lr_DefinitionID l) (lr_ResourceKeys l ! 0)) d (fst (Redis_Release S c t d l))"
    using Release_calls[OF d(1), of l S t c] unfolding release_calls_def by (elim exE conjE) (rule after[OF _ release_boundary(1)[OF d(2)]])
  show "after t (boundary (lr_DefinitionID l) (lr_ResourceKeys l ! 0)) d (fst (Redis_ReleaseStrict S c t d l tok))"
    using ReleaseStrict_calls[OF d(1), of l tok S t c] unfolding release_calls_def
    by (elim exE conjE) (rule after[OF _ release_boundary(2)[OF d(2)]])
qed

lemma calls_guard:
  assumes "dinv d" and "calls d err fail f reply (d', r)"
    and "\<And>s' x. f (rds_db d) = (s', x) \<Longrightarrow> guarded (rds_keyPrefix d) s' i k member e y" and "guarded (rds_keyPrefix d) (rds_db d) i k member e y"
  shows "guarded (rds_keyPrefix d') (rds_db d') i k member e y"
proof -
  have "drv_ok d" using assms(1) by (simp add: dinv_good)
  show ?thesis
    by (cases rule: calls_cases[OF assms(2) \<open>drv_ok d\<close>, case_names refused sent]) (use assms(3,4) in auto)
qed

lemma exec_guard:
  assumes "dinv d" and "in_time (clock S t) (UnixMilli t) e y" and "guarded (rds_keyPrefix d) (rds_db d) i k member e y"
    and "op_member op \<noteq> Some member"
  shows "guarded (rds_keyPrefix (redis_exec S c t op d)) (rds_db (redis_exec S c t op d)) i k member e y"
proof -
  let ?g = "\<lambda>d. guarded (rds_keyPrefix d) (rds_db d) i k member e y"
  have d: "drv_ok d" "good (rds_keyPrefix d) (rds_db d)" using assms by (simp_all add: dinv_good)
  have other: "?g d'" if "after t F d d'" "\<forall>i k. (LineageKey, i, k) \<notin> F" for F d'
    using that guarded_effect[OF assms(3) _ _ in_timeD(1)[OF assms(2)], of F "rds_db d'"] by (auto simp: after_def)
  have bd: "?g d'" if "after t (boundary a b) d d'" for a b d' by (rule other[OF that]) (simp add: boundary_def)
  note guard = calls_guard[OF assms(1), where r = "snd x" and d' = "fst x" for x, unfolded prod.collapse, OF _ _ assms(3)]
  show ?thesis
  proof (cases op)
    case (RAcquireWithLineage rq)
    then have "?g (fst (Redis_AcquireWithLineage S c t d rq))"
      using acquire_script_keeps_guard[OF d(2) _ assms(2,3)] assms(4) by (intro guard[OF AcquireWithLineage_calls[OF d(1)]]) auto
    then show ?thesis using RAcquireWithLineage by simp
  next
    case (RRenewWithLineage l m)
    then have "?g (fst (Redis_RenewWithLineage S c t d l m))"
      using RenewWithLineage_calls[OF d(1), of l m S t c] renew_script_keeps_guard[OF d(2) _ assms(2,3)] assms(4)
      by (elim exE) (rule guard, assumption, auto)
    then show ?thesis using RRenewWithLineage by simp
  next
    case (RReleaseWithLineage l m)
    then have "?g (fst (Redis_ReleaseWithLineage S c t d l m))"
      using ReleaseWithLineage_calls[OF d(1), of l m S t c] release_script_keeps_guard[OF d(2) _ assms(2,3)] assms(4)
      unfolding release_calls_def by (elim exE conjE) (rule guard, assumption, auto)
    then show ?thesis using RReleaseWithLineage by simp
  next
    case (RForceRelease i' k')
    then show ?thesis using bd[OF ForceRelease_after(1)[OF assms(1) prod.collapse[symmetric]]] by simp
  next
    case (RCacheDefinitionIDs ids)
    then show ?thesis using other[OF rebuilt_after[OF assms(1) CacheDefinitionIDs_rebuilt, where F = "{}"]] by simp
  qed (use exec_boundary[OF assms(1), THEN bd] other[OF exec_after(9)[OF assms(1)]] other[OF Ping_after[OF assms(1)]] in auto)
qed

lemma lineage_acquire_guards:
  assumes "dinv d" and "Redis_AcquireWithLineage S c t d rq = (d', Inr l)"
    and "a \<in> set (lm_AncestorKeys (lq_Lineage rq))" and "clock S t < y" and "y \<le> clock S t + Milliseconds (lq_LeaseTTL rq)"
  shows "guarded (rds_keyPrefix d') (rds_db d') (ak_DefinitionID a) (ak_ResourceKey a)
    (lineageMember (lm_LeaseID (lq_Lineage rq)) (lq_DefinitionID rq) (lq_ResourceKey rq)) (UnixMilli t + Milliseconds (lq_LeaseTTL rq)) y"
proof -
  have d: "drv_ok d" "good (rds_keyPrefix d) (rds_db d)" using assms by (simp_all add: dinv_good)
  show ?thesis
  proof (cases rule: calls_cases[OF AcquireWithLineage_calls[OF d(1), of rq S t c, unfolded assms(2)] d(1), case_names refused sent])
    case (sent x)
    note step = lineageAcquireScript_step(2)[OF d(2) sent(2)]
    have "x = Inr (ints [1, Milliseconds (lq_LeaseTTL rq)])" using step sent(3) by (auto simp: lineage_reply_ints)
    then show ?thesis using acquire_script_guards[OF d(2) _ assms(3-5)] sent(2,5) by simp
  qed auto
qed

lemma guarded_acquire_refused:
  assumes "dinv d" and "in_time (clock S t) (UnixMilli t) e y"
    and "guarded (rds_keyPrefix d) (rds_db d) (lq_DefinitionID rq) (lq_ResourceKey rq) member e y"
  shows "Redis_AcquireWithLineage S c t d rq \<noteq> (d', Inr l)"
proof
  assume a: "Redis_AcquireWithLineage S c t d rq = (d', Inr l)"
  have d: "drv_ok d" "good (rds_keyPrefix d) (rds_db d)" using assms by (simp_all add: dinv_good)
  show False
  proof (cases rule: calls_cases[OF AcquireWithLineage_calls[OF d(1), of rq S t c, unfolded a] d(1), case_names refused sent])
    case (sent x)
    have "x = Inr (ints [- 3, 0]) \<or> x = Inr (ints [- 2, 0])"
      by (rule guarded_refuses[OF d(2) sent(2) assms(2,3)])
    then show False using sent(3) by (auto simp: lineage_reply_ints)
  qed auto
qed

end

section \<open>Runs with clocks that differ\<close>

text \<open>
  A call is sent at a client's clock reading \<open>t\<close> and served by the server at its own time, which is the
  reading plus an offset of that call: the difference of the clocks and the time the request was on its
  way. \<open>at_offset S off\<close> is the server during that call.
\<close>

definition at_offset :: "'r RedisServer \<Rightarrow> int \<Rightarrow> 'r RedisServer" where
  "at_offset S off = S\<lparr>clock := \<lambda>t. UnixMilli t + off\<rparr>"

fun skewed_run :: "'r RedisServer \<Rightarrow> go_ctx \<Rightarrow> (int \<times> time \<times> redis_op) list \<Rightarrow> 'r RedisDriver \<Rightarrow> 'r RedisDriver" where
  "skewed_run S c [] d = d"
| "skewed_run S c ((off, t, op) # ops) d = skewed_run S c ops (redis_exec (at_offset S off) c t op d)"

lemma UnixMilli_mono: "t \<le> t' \<Longrightarrow> UnixMilli t \<le> UnixMilli t'"
  by (simp add: UnixMilli_def duration_units zdiv_mono1)

lemma clock_at_offset [simp]: "clock (at_offset S off) t = UnixMilli t + off"
  by (simp add: at_offset_def)

lemma at_offset_server:
  assumes "redis_server S ok look alive"
  shows "redis_server (at_offset S off) ok look alive"
proof -
  have eqs: "GET (at_offset S off) = GET S" "EXISTS (at_offset S off) = EXISTS S" "PTTL (at_offset S off) = PTTL S"
    "SETPX (at_offset S off) = SETPX S" "INCR (at_offset S off) = INCR S" "PEXPIRE (at_offset S off) = PEXPIRE S"
    "DEL (at_offset S off) = DEL S" "ZADD (at_offset S off) = ZADD S" "ZREM (at_offset S off) = ZREM S"
    "ZREMRANGE (at_offset S off) = ZREMRANGE S" "ZCARD (at_offset S off) = ZCARD S" "ZTOP (at_offset S off) = ZTOP S"
    "ZSCORE (at_offset S off) = ZSCORE S" "PING (at_offset S off) = PING S" "px_millis (at_offset S off) = px_millis S"
    "tonumber (at_offset S off) = tonumber S" "number_text (at_offset S off) = number_text S"
    by (simp_all add: at_offset_def)
  have mono: "\<forall>t t'. t \<le> t' \<longrightarrow> clock (at_offset S off) t \<le> clock (at_offset S off) t'"
    by (simp add: UnixMilli_mono)
  show ?thesis using assms unfolding redis_server_def eqs
    by (elim conjE, intro conjI) (rule mono, assumption+)
qed

text \<open>A call is in time when it is served more than \<open>D\<close> before the expiry of the member, by a server the client is not ahead of by more than \<open>D\<close>.\<close>

lemma offset_in_time:
  assumes "- D \<le> off" and "UnixMilli t + off + D < e"
  shows "in_time (clock (at_offset S off) t) (UnixMilli t) e (e - D)"
  using assms by (simp add: in_time_def)

lemma skewed_run_guard:
  assumes "redis_server S ok look alive" and "redis_inv ok look d"
    and "redis_server.guarded look (rds_keyPrefix d) (rds_db d) i k member e (e - D)"
    and "\<forall>(off, t, op) \<in> set ops. - D \<le> off \<and> UnixMilli t + off + D < e \<and> op_member op \<noteq> Some member"
  shows "redis_inv ok look (skewed_run S c ops d)
    \<and> redis_server.guarded look (rds_keyPrefix (skewed_run S c ops d)) (rds_db (skewed_run S c ops d)) i k member e (e - D)"
  using assms(2-4)
proof (induction ops arbitrary: d)
  case (Cons x ops)
  obtain off t op where x: "x = (off, t, op)" by (cases x)
  note srv = at_offset_server[OF assms(1), of off]
  have t: "in_time (clock (at_offset S off) t) (UnixMilli t) e (e - D)"
    by (rule offset_in_time) (use Cons.prems(3) x in auto)
  have op: "op_member op \<noteq> Some member" using Cons.prems(3) x by simp
  show ?case
    using Cons.IH[OF redis_server.exec_step(1)[OF srv Cons.prems(1)] redis_server.exec_guard[OF srv Cons.prems(1) t Cons.prems(2) op]]
      Cons.prems(3) x by simp
qed simp

end
