(* ===== verification/Definitions.thy ===== *)
theory Definitions
  imports Backend
begin

text \<open>
  The definition model of the lock engine (\<^verbatim>\<open>src/lockkit/definitions\<close>): lock and composite
  definitions, requests and contexts, and the template key builder.

  A Go string type with named constants is a datatype with one constructor per constant and
  \<open>...Other\<close> for any other string. A \<^verbatim>\<open>KeyBuilder\<close> value is a record of its methods; \<open>None\<close> is the
  nil interface. A nil \<^verbatim>\<open>map[string]string\<close> is \<open>None\<close>. A call that panics is the error value
  \<open>panic msg\<close>, which is no sentinel and wraps none.
\<close>

section \<open>Key builders\<close>

type_synonym key_input = "(string, string) gomap option"

record TemplateBuilderMetadata =
  tm_Template :: string
  tm_Fields :: "string list"

record KeyBuilder =
  kb_RequiredFields :: "string list"
  kb_Build :: "key_input \<Rightarrow> string result"
  kb_TemplateMetadata :: "TemplateBuilderMetadata option"

definition panic :: "string \<Rightarrow> go_error" where
  "panic msg = Errorf (''panic: '' @ msg) [] []"

definition TemplateMetadata :: "KeyBuilder option \<Rightarrow> TemplateBuilderMetadata option" where
  "TemplateMetadata b = (case b of None \<Rightarrow> None | Some kb \<Rightarrow> kb_TemplateMetadata kb)"

text \<open>Calling \<^verbatim>\<open>Build\<close> through a definition; a nil builder panics.\<close>

definition build_key :: "KeyBuilder option \<Rightarrow> key_input \<Rightarrow> string result" where
  "build_key b input =
     (case b of None \<Rightarrow> Inl (panic ''nil key builder'') | Some kb \<Rightarrow> kb_Build kb input)"

subsection \<open>Substring search and replacement\<close>

text \<open>\<open>occurrences p s i\<close>: where \<open>p\<close> starts in \<open>s\<close>, scanning left to right without overlaps, \<open>s\<close>
  standing at offset \<open>i\<close>.\<close>

function occurrences :: "string \<Rightarrow> string \<Rightarrow> nat \<Rightarrow> nat list" where
  "occurrences p s i =
     (if p = [] \<or> s = [] then []
      else if prefix p s then i # occurrences p (drop (length p) s) (i + length p)
      else occurrences p (tl s) (i + 1))"
  by pat_completeness auto
termination
  by (relation "measure (\<lambda>(p, s, i). length s)") (auto simp: diff_less)

declare occurrences.simps [simp del]

text \<open>\<^verbatim>\<open>strings.ReplaceAll\<close> for a non-empty pattern.\<close>

function replace_all :: "string \<Rightarrow> string \<Rightarrow> string \<Rightarrow> string" where
  "replace_all s p v =
     (if p = [] \<or> s = [] then s
      else if prefix p s then v @ replace_all (drop (length p) s) p v
      else hd s # replace_all (tl s) p v)"
  by pat_completeness auto
termination
  by (relation "measure (\<lambda>(s, p, v). length s)") (auto simp: diff_less)

declare replace_all.simps [simp del]

subsection \<open>Template key builders\<close>

text \<open>A segment with \<^verbatim>\<open>fieldIndex = -1\<close> is a literal.\<close>

datatype templateSegment = Literal string | Field nat

record templateKeyBuilder =
  tk_template :: string
  tk_fields :: "string list"
  tk_placeholders :: "string list"
  tk_segments :: "templateSegment list"

record placeholderMatch =
  pm_start :: nat
  pm_end :: nat
  pm_fieldIndex :: nat

fun check_fields :: "string list \<Rightarrow> string list \<Rightarrow> go_err" where
  "check_fields seen [] = None"
| "check_fields seen (field # fs) =
     (if field = [] then Some (Errorf ''field names must not be empty'' [] [])
      else if field \<in> set seen then Some (Errorf ''duplicate field name %q'' [field] [])
      else check_fields (field # seen) fs)"

definition placeholder :: "string \<Rightarrow> string" where
  "placeholder field = ''{'' @ field @ ''}''"

definition placeholder_matches :: "string \<Rightarrow> nat \<times> string \<Rightarrow> placeholderMatch list" where
  "placeholder_matches template = (\<lambda>(i, ph).
     map (\<lambda>start. \<lparr>pm_start = start, pm_end = start + length ph, pm_fieldIndex = i\<rparr>)
       (occurrences ph template 0))"

text \<open>
  The segments between \<open>lastEnd\<close> and the end of the template. \<^verbatim>\<open>template[last:match.start]\<close> panics when
  the matches overlap.
\<close>

fun build_segments :: "string \<Rightarrow> nat \<Rightarrow> placeholderMatch list \<Rightarrow> templateSegment list result" where
  "build_segments template lastEnd [] = Inr [Literal (drop lastEnd template)]"
| "build_segments template lastEnd (m # ms) =
     (if pm_start m < lastEnd then Inl (panic ''slice bounds out of range'')
      else case build_segments template (pm_end m) ms of
        Inl e \<Rightarrow> Inl e
      | Inr segs \<Rightarrow>
          Inr (Literal (take (pm_start m - lastEnd) (drop lastEnd template)) # Field (pm_fieldIndex m) # segs))"

definition NewTemplateKeyBuilder :: "string \<Rightarrow> string list \<Rightarrow> templateKeyBuilder result" where
  "NewTemplateKeyBuilder template fieldNames =
     (case check_fields [] fieldNames of
        Some e \<Rightarrow> Inl e
      | None \<Rightarrow>
          (case find (\<lambda>f. occurrences (placeholder f) template 0 = []) fieldNames of
             Some f \<Rightarrow> Inl (Errorf ''template missing placeholder for field %s'' [placeholder f] [])
           | None \<Rightarrow>
               let placeholders = map placeholder fieldNames;
                   matches = concat (map (placeholder_matches template) (enumerate 0 placeholders));
                   sorted_matches = sort_key pm_start matches
               in case build_segments template 0 sorted_matches of
                    Inl e \<Rightarrow> Inl e
                  | Inr segments \<Rightarrow>
                      Inr \<lparr>tk_template = template, tk_fields = fieldNames, tk_placeholders = placeholders,
                           tk_segments = segments\<rparr>))"

fun lookup_fields :: "string list \<Rightarrow> (string, string) gomap \<Rightarrow> string list result" where
  "lookup_fields [] input = Inr []"
| "lookup_fields (field # fs) input =
     (case mget input field of
        None \<Rightarrow> Inl (Errorf ''missing required field: %s'' [field] [])
      | Some value \<Rightarrow>
          (case lookup_fields fs input of Inl e \<Rightarrow> Inl e | Inr vs \<Rightarrow> Inr (value # vs)))"

definition render_segment :: "string list \<Rightarrow> templateSegment \<Rightarrow> string" where
  "render_segment values seg = (case seg of Literal s \<Rightarrow> s | Field i \<Rightarrow> values ! i)"

definition templateKeyBuilder_Build :: "templateKeyBuilder \<Rightarrow> key_input \<Rightarrow> string result" where
  "templateKeyBuilder_Build t input =
     (case input of
        None \<Rightarrow> Inl (Errorf ''input map must not be nil'' [] [])
      | Some inp \<Rightarrow>
          if length (tk_fields t) = 1
          then (case mget inp (tk_fields t ! 0) of
                  None \<Rightarrow> Inl (Errorf ''missing required field: %s'' [tk_fields t ! 0] [])
                | Some value \<Rightarrow> Inr (replace_all (tk_template t) (tk_placeholders t ! 0) value))
          else (case lookup_fields (tk_fields t) inp of
                  Inl e \<Rightarrow> Inl e
                | Inr values \<Rightarrow> Inr (concat (map (render_segment values) (tk_segments t)))))"

definition templateKeyBuilder_RequiredFields :: "templateKeyBuilder \<Rightarrow> string list" where
  "templateKeyBuilder_RequiredFields t = tk_fields t"

definition templateKeyBuilder_TemplateMetadata :: "templateKeyBuilder \<Rightarrow> TemplateBuilderMetadata" where
  "templateKeyBuilder_TemplateMetadata t = \<lparr>tm_Template = tk_template t, tm_Fields = tk_fields t\<rparr>"

definition template_builder :: "templateKeyBuilder \<Rightarrow> KeyBuilder" where
  "template_builder t =
     \<lparr>kb_RequiredFields = templateKeyBuilder_RequiredFields t,
      kb_Build = templateKeyBuilder_Build t,
      kb_TemplateMetadata = Some (templateKeyBuilder_TemplateMetadata t)\<rparr>"

section \<open>Definitions\<close>

datatype LockMode = ModeStandard | ModeStrict | ModeOther string
datatype ExecutionKind = ExecutionSync | ExecutionAsync | ExecutionBoth | ExecutionOther string
datatype OverlapPolicy = OverlapReject | OverlapEscalate | OverlapOther string
datatype OrderingPolicy = OrderingCanonical | OrderingOther string
datatype AcquirePolicy = AcquireAllOrNothing | AcquireOther string
datatype EscalationPolicy = EscalationReject | EscalationOther string
datatype ModeResolution = ModeResolutionHomogeneous | ModeResolutionOther string
datatype BackendFailurePolicy = BackendFailClosed | BackendBestEffortOpen | BackendPolicyOther string

record CompositeDefinition =
  cd_ID :: string
  cd_Members :: "string list"
  cd_OrderingPolicy :: OrderingPolicy
  cd_AcquirePolicy :: AcquirePolicy
  cd_EscalationPolicy :: EscalationPolicy
  cd_ModeResolution :: ModeResolution
  cd_MaxMemberCount :: int
  cd_ExecutionKind :: ExecutionKind

record LockDefinition =
  ld_ID :: string
  ld_Kind :: LockKind
  ld_Resource :: string
  ld_Mode :: LockMode
  ld_ExecutionKind :: ExecutionKind
  ld_LeaseTTL :: duration
  ld_WaitTimeout :: duration
  ld_MaxRetries :: int
  ld_BackendFailurePolicy :: BackendFailurePolicy
  ld_FencingRequired :: bool
  ld_IdempotencyRequired :: bool
  ld_CheckOnlyAllowed :: bool
  ld_FailIfHeld :: bool
  ld_Rank :: int
  ld_ParentRef :: string
  ld_OverlapPolicy :: OverlapPolicy
  ld_KeyBuilder :: "KeyBuilder option"
  ld_Tags :: "(string, string) gomap option"

record DetachedAcquireRequest =
  dq_DefinitionID :: string
  dq_ResourceKeys :: "string list"
  dq_OwnerID :: string

record DetachedReleaseRequest =
  dr_DefinitionID :: string
  dr_ResourceKeys :: "string list"
  dr_OwnerID :: string

section \<open>Requests and contexts\<close>

record OwnershipMeta =
  om_ServiceName :: string
  om_InstanceID :: string
  om_HandlerName :: string
  om_OwnerID :: string
  om_RequestID :: string
  om_MessageID :: string
  om_Attempt :: int
  om_ConsumerGroup :: string

record RuntimeOverrides =
  ro_WaitTimeout :: "duration option"
  ro_MaxRetries :: "int option"

record SyncLockRequest =
  sy_DefinitionID :: string
  sy_ResourceKey :: string
  sy_KeyInput :: key_input
  sy_Ownership :: OwnershipMeta
  sy_Overrides :: "RuntimeOverrides option"

record MessageClaimRequest =
  mc_DefinitionID :: string
  mc_KeyInput :: key_input
  mc_Ownership :: OwnershipMeta
  mc_IdempotencyKey :: string
  mc_Overrides :: "RuntimeOverrides option"

record CompositeLockRequest =
  cl_DefinitionID :: string
  cl_MemberInputs :: "key_input list"
  cl_Ownership :: OwnershipMeta
  cl_Overrides :: "RuntimeOverrides option"

record CompositeClaimRequest =
  cc_DefinitionID :: string
  cc_MemberInputs :: "key_input list"
  cc_Ownership :: OwnershipMeta
  cc_IdempotencyKey :: string
  cc_Overrides :: "RuntimeOverrides option"

record MultipleLockRequest =
  ml_DefinitionID :: string
  ml_Keys :: "string list"
  ml_Ownership :: OwnershipMeta
  ml_Overrides :: "RuntimeOverrides option"

record PresenceCheckRequest =
  pc_DefinitionID :: string
  pc_KeyInput :: key_input
  pc_Ownership :: OwnershipMeta

text \<open>Contexts carry either one resource key or, for composites and multiple keys, a list.\<close>

record LeaseContext =
  lc_DefinitionID :: string
  lc_ResourceKey :: string
  lc_ResourceKeys :: "string list"
  lc_Ownership :: OwnershipMeta
  lc_FencingToken :: token
  lc_LeaseTTL :: duration
  lc_LeaseDeadline :: time

record ClaimContext =
  cx_DefinitionID :: string
  cx_ResourceKey :: string
  cx_ResourceKeys :: "string list"
  cx_Ownership :: OwnershipMeta
  cx_FencingToken :: token
  cx_LeaseTTL :: duration
  cx_LeaseDeadline :: time
  cx_IdempotencyKey :: string

datatype PresenceState = PresenceUnknown | PresenceHeld | PresenceNotHeld

record PresenceStatus =
  ps_State :: PresenceState
  ps_Mode :: "LockMode option"
  ps_OwnerID :: string
  ps_LeaseDeadline :: "time option"

section \<open>Correctness of the template key builder\<close>

subsection \<open>Occurrences\<close>

lemma occurrences_Nil [simp]: "occurrences p [] i = []"
  by (simp add: occurrences.simps)

lemma occurrences_match:
  assumes "j \<in> set (occurrences p s i)"
  shows "i \<le> j \<and> prefix p (drop (j - i) s)"
  using assms
proof (induction p s i rule: occurrences.induct)
  case (1 p s i)
  show ?case
  proof (cases "p = [] \<or> s = []")
    case True
    with 1(3) show ?thesis by (simp add: occurrences.simps[of p s i])
  next
    case False
    show ?thesis
    proof (cases "prefix p s")
      case True
      with 1 False have "j = i \<or> j \<in> set (occurrences p (drop (length p) s) (i + length p))"
        by (simp add: occurrences.simps[of p s i])
      then show ?thesis
      proof
        assume "j \<in> set (occurrences p (drop (length p) s) (i + length p))"
        note IH = 1(1)[OF False True this]
        then have le: "i + length p \<le> j" by simp
        then have "drop (j - (i + length p)) (drop (length p) s) = drop (j - i) s" by simp
        with IH le show ?thesis by (metis add_leD1)
      qed (use True in simp)
    next
      case not_prefix: False
      with 1(3) False have "j \<in> set (occurrences p (tl s) (i + 1))"
        by (simp add: occurrences.simps[of p s i])
      from 1(2)[OF False not_prefix this] have "i + 1 \<le> j" "prefix p (drop (Suc (j - (i + 1))) s)"
        by (simp_all add: drop_Suc)
      then show ?thesis by (simp add: Suc_diff_Suc)
    qed
  qed
qed

text \<open>Two occurrences of brace-free placeholders never overlap.\<close>

definition brace_free :: "string \<Rightarrow> bool" where
  "brace_free f \<longleftrightarrow> CHR ''{'' \<notin> set f \<and> CHR ''}'' \<notin> set f"

lemma placeholder_nonempty [simp]: "placeholder f \<noteq> []" "length (placeholder f) \<noteq> 0"
  by (simp_all add: placeholder_def)

lemma placeholder_prefix_unique:
  assumes "brace_free f" and "brace_free g" and "prefix (placeholder f) s" and "prefix (placeholder g) s"
  shows "f = g"
proof -
  have h: "takeWhile (\<lambda>c. c \<noteq> CHR ''}'') (h @ ''}'' @ r) = h" if "brace_free h" for h r
    using that by (subst takeWhile_append2) (auto simp: brace_free_def)
  from assms(3) obtain r where r: "s = ''{'' @ f @ ''}'' @ r" by (auto simp: prefix_def placeholder_def)
  from assms(4) obtain r' where "s = ''{'' @ g @ ''}'' @ r'" by (auto simp: prefix_def placeholder_def)
  with r have "f @ ''}'' @ r = g @ ''}'' @ r'" by simp
  with h[OF assms(1), of r] h[OF assms(2), of r'] show ?thesis by simp
qed

lemma placeholder_no_overlap:
  assumes "brace_free f" and "prefix (placeholder f) s" and "prefix (placeholder g) (drop j s)"
    and "0 < j"
  shows "length (placeholder f) \<le> j"
proof (rule ccontr)
  assume "\<not> length (placeholder f) \<le> j"
  then have j: "j < length (placeholder f)" by simp
  from assms(2) obtain r where s: "s = placeholder f @ r" by (auto simp: prefix_def)
  from assms(3) have "drop j s ! 0 = CHR ''{''" and "drop j s \<noteq> []" by (auto simp: prefix_def placeholder_def)
  then have "s ! j = CHR ''{''" by (cases "j < length s") (auto simp: hd_drop_conv_nth)
  then have "placeholder f ! j = CHR ''{''" using j s by (simp add: nth_append)
  then have "placeholder f ! j \<noteq> CHR ''}''" by simp
  have "(f @ ''}'') ! (j - 1) = CHR ''{''"
    using \<open>placeholder f ! j = _\<close> assms(4) by (simp add: placeholder_def nth_Cons')
  moreover have "j - 1 < length (f @ ''}'')" using j assms(4) by (simp add: placeholder_def)
  ultimately have "CHR ''{'' \<in> set (f @ ''}'')" by (metis nth_mem)
  then show False using assms(1) by (auto simp: brace_free_def)
qed

subsection \<open>The left-to-right scan\<close>

definition matching :: "string list \<Rightarrow> string \<Rightarrow> nat option" where
  "matching fs s = find (\<lambda>k. prefix (placeholder (fs ! k)) s) [0..<length fs]"

function scan :: "string list \<Rightarrow> string \<Rightarrow> nat \<Rightarrow> placeholderMatch list" where
  "scan fs s i =
     (if s = [] then []
      else case matching fs s of
        Some k \<Rightarrow> \<lparr>pm_start = i, pm_end = i + length (placeholder (fs ! k)), pm_fieldIndex = k\<rparr>
                  # scan fs (drop (length (placeholder (fs ! k))) s) (i + length (placeholder (fs ! k)))
      | None \<Rightarrow> scan fs (tl s) (i + 1))"
  by pat_completeness auto
termination
  by (relation "measure (\<lambda>(fs, s, i). length s)") (auto simp: diff_less placeholder_def)

declare scan.simps [simp del]

text \<open>
  The specification of \<^verbatim>\<open>Build\<close>: replace, from left to right, every placeholder by the value of its
  field.
\<close>

function substitute :: "string list \<Rightarrow> string list \<Rightarrow> string \<Rightarrow> string" where
  "substitute fs vs s =
     (if s = [] then []
      else case matching fs s of
        Some k \<Rightarrow> vs ! k @ substitute fs vs (drop (length (placeholder (fs ! k))) s)
      | None \<Rightarrow> hd s # substitute fs vs (tl s))"
  by pat_completeness auto
termination
  by (relation "measure (\<lambda>(fs, vs, s). length s)") (auto simp: diff_less placeholder_def)

declare substitute.simps [simp del]

lemma scan_Nil [simp]: "scan fs [] i = []"
  by (simp add: scan.simps)

lemma substitute_Nil [simp]: "substitute fs vs [] = []"
  by (simp add: substitute.simps)

lemma matching_Some:
  "matching fs s = Some k \<Longrightarrow> k < length fs \<and> prefix (placeholder (fs ! k)) s"
  by (auto simp: matching_def find_Some_iff)

lemma matching_None: "matching fs s = None \<Longrightarrow> k < length fs \<Longrightarrow> \<not> prefix (placeholder (fs ! k)) s"
  by (auto simp: matching_def find_None_iff)

lemma matching_unique:
  assumes "\<forall>f\<in>set fs. brace_free f" and "distinct fs" and "k < length fs" and "prefix (placeholder (fs ! k)) s"
  shows "matching fs s = Some k"
proof (cases "matching fs s")
  case None
  with matching_None assms(3,4) show ?thesis by blast
next
  case (Some k')
  from matching_Some[OF this] have "k' < length fs" "prefix (placeholder (fs ! k')) s" by auto
  with assms have "fs ! k' = fs ! k" by (intro placeholder_prefix_unique) auto
  with assms \<open>k' < length fs\<close> Some show ?thesis by (simp add: nth_eq_iff_index_eq)
qed

lemma render_segment_simps [simp]:
  "render_segment vs (Literal s) = s" "render_segment vs (Field k) = vs ! k"
  by (simp_all add: render_segment_def)

text \<open>Segments built from the scan render to the substituted template.\<close>

lemma build_segments_scan:
  assumes "s = drop i template" and "l \<le> i" and "i \<le> length template"
  shows "\<exists>segs. build_segments template l (scan fs s i) = Inr segs
    \<and> concat (map (render_segment vs) segs) = take (i - l) (drop l template) @ substitute fs vs s"
  using assms
proof (induction fs s i arbitrary: l rule: scan.induct)
  case (1 fs s i)
  show ?case
  proof (cases "s = []")
    case True
    then have "i = length template" using 1 by simp
    then show ?thesis using True by simp
  next
    case False
    show ?thesis
    proof (cases "matching fs s")
      case None
      have i: "i < length template" using False 1(3) by auto
      then have "take (i + 1 - l) (drop l template) = take (i - l) (drop l template) @ [hd s]"
        using 1(3,4) by (simp add: Suc_diff_le take_Suc_conv_app_nth hd_drop_conv_nth)
      moreover have "tl s = drop (i + 1) template" using 1(3) by (simp add: drop_Suc tl_drop)
      ultimately show ?thesis using 1(1)[OF False None, of l] 1(4) i False None
        by (simp add: scan.simps[of fs s i] substitute.simps[of fs vs s])
    next
      case (Some k)
      let ?n = "length (placeholder (fs ! k))"
      have n: "i + ?n \<le> length template"
        using matching_Some[OF Some] 1(3,5) by (auto dest!: prefix_length_le)
      have "drop ?n s = drop (i + ?n) template" using 1(3) by (simp add: add.commute)
      from 1(2)[OF False Some this le_refl n] obtain segs where
        "build_segments template (i + ?n) (scan fs (drop ?n s) (i + ?n)) = Inr segs"
        "concat (map (render_segment vs) segs) = substitute fs vs (drop ?n s)" by auto
      then show ?thesis using False Some 1(4)
        by (simp add: scan.simps[of fs s i] substitute.simps[of fs vs s])
    qed
  qed
qed


text \<open>For brace-free field names the scan finds every occurrence of every placeholder, in order.\<close>

abbreviation is_match :: "string list \<Rightarrow> string \<Rightarrow> nat \<Rightarrow> placeholderMatch \<Rightarrow> bool" where
  "is_match fs s i m \<equiv> i \<le> pm_start m \<and> pm_fieldIndex m < length fs
     \<and> pm_end m = pm_start m + length (placeholder (fs ! pm_fieldIndex m))
     \<and> prefix (placeholder (fs ! pm_fieldIndex m)) (drop (pm_start m - i) s)"

lemma scan_iff:
  assumes "\<forall>f\<in>set fs. brace_free f" and "distinct fs"
  shows "m \<in> set (scan fs s i) \<longleftrightarrow> is_match fs s i m"
  using assms
proof (induction fs s i rule: scan.induct)
  case (1 fs s i)
  show ?case
  proof (cases "s = []")
    case True
    then show ?thesis by (simp add: placeholder_def)
  next
    case False
    let ?at = "\<lambda>k. \<lparr>pm_start = i, pm_end = i + length (placeholder (fs ! k)), pm_fieldIndex = k\<rparr>"
    show ?thesis
    proof (cases "matching fs s")
      case None
      have "is_match fs s i m \<longleftrightarrow> is_match fs (tl s) (i + 1) m"
      proof (cases "pm_start m = i")
        case True
        then show ?thesis using matching_None[OF None] by auto
      next
        case ne: False
        then have "drop (pm_start m - i) s = drop (pm_start m - (i + 1)) (tl s)" if "i \<le> pm_start m"
          using that by (simp add: drop_Suc[symmetric] Suc_diff_Suc)
        then show ?thesis using ne by auto
      qed
      then show ?thesis using 1(1)[OF False None 1(3,4)] False None by (simp add: scan.simps[of fs s i])
    next
      case (Some k)
      let ?n = "length (placeholder (fs ! k))"
      from matching_Some[OF Some] have k: "k < length fs" "prefix (placeholder (fs ! k)) s" by auto
      have "is_match fs s i m \<longleftrightarrow> m = ?at k \<or> is_match fs (drop ?n s) (i + ?n) m"
      proof (cases "pm_start m = i")
        case True
        have "is_match fs s i m \<longleftrightarrow> m = ?at k"
        proof
          assume "is_match fs s i m"
          then have "matching fs s = Some (pm_fieldIndex m)"
            using True 1(3,4) by (intro matching_unique) auto
          then show "m = ?at k" using Some True \<open>is_match fs s i m\<close> by (cases m) auto
        qed (use True k in auto)
        then show ?thesis using True placeholder_nonempty(2)[of "fs ! k"] by auto
      next
        case ne: False
        have "i + ?n \<le> pm_start m" if "is_match fs s i m"
        proof -
          have "brace_free (fs ! k)" using 1(3) k(1) by auto
          from placeholder_no_overlap[OF this k(2), of "fs ! pm_fieldIndex m" "pm_start m - i"] that ne
          show ?thesis by auto
        qed
        moreover have "drop (pm_start m - i) s = drop (pm_start m - (i + ?n)) (drop ?n s)"
          if "i + ?n \<le> pm_start m" using that by simp
        ultimately show ?thesis using ne by auto
      qed
      then show ?thesis using 1(2)[OF False Some 1(3,4)] False Some by (simp add: scan.simps[of fs s i])
    qed
  qed
qed

lemma scan_sorted:
  "sorted_wrt (\<lambda>a b. pm_start a < pm_start b) (scan fs s i) \<and> (\<forall>m\<in>set (scan fs s i). i \<le> pm_start m)"
proof (induction fs s i rule: scan.induct)
  case (1 fs s i)
  show ?case
  proof (cases "s = []")
    case False
    show ?thesis
    proof (cases "matching fs s")
      case None
      then show ?thesis using 1(1)[OF False None] False by (auto simp: scan.simps[of fs s i])
    next
      case (Some k)
      have "0 < length (placeholder (fs ! k))" by simp
      with 1(2)[OF False Some] have "\<forall>m\<in>set (scan fs (drop (length (placeholder (fs ! k))) s)
          (i + length (placeholder (fs ! k)))). i < pm_start m" by (metis add_lessD1 le_eq_less_or_eq less_add_same_cancel1)
      with 1(2)[OF False Some] show ?thesis using False Some by (auto simp: scan.simps[of fs s i])
    qed
  qed simp
qed

lemma occurrences_iff:
  assumes "brace_free f"
  shows "j \<in> set (occurrences (placeholder f) s i) \<longleftrightarrow> i \<le> j \<and> prefix (placeholder f) (drop (j - i) s)"
proof (induction "placeholder f" s i rule: occurrences.induct)
  case (1 s i)
  let ?n = "length (placeholder f)"
  show ?case
  proof (cases "s = []")
    case False
    then have ns: "\<not> (placeholder f = [] \<or> s = [])" by simp
    show ?thesis
    proof (cases "prefix (placeholder f) s")
      case True
      have "i + ?n \<le> j" if "i < j" "prefix (placeholder f) (drop (j - i) s)"
        using placeholder_no_overlap[OF assms True that(2)] that(1) by simp
      moreover have "drop (j - i) s = drop (j - (i + ?n)) (drop ?n s)" if "i + ?n \<le> j" using that by simp
      ultimately show ?thesis using 1(1)[OF ns True] True False
        by (auto simp: occurrences.simps[of "placeholder f" s i] le_less)
    next
      case np: False
      have "drop (j - i) s = drop (j - (i + 1)) (tl s)" if "i < j"
        using that by (simp add: drop_Suc[symmetric] Suc_diff_Suc)
      then show ?thesis using 1(2)[OF ns np] np False
        by (auto simp: occurrences.simps[of "placeholder f" s i] le_less)
    qed
  qed (simp add: placeholder_def)
qed


lemma occurrences_sorted: "sorted_wrt (<) (occurrences p s i) \<and> (\<forall>j\<in>set (occurrences p s i). i \<le> j)"
proof (induction p s i rule: occurrences.induct)
  case (1 p s i)
  show ?case
  proof (cases "p = [] \<or> s = []")
    case False
    then have n: "0 < length p" by simp
    show ?thesis
    proof (cases "prefix p s")
      case True
      from 1(1)[OF False True] n have "\<forall>j\<in>set (occurrences p (drop (length p) s) (i + length p)). i < j"
        by (metis add_lessD1 le_eq_less_or_eq less_add_same_cancel1)
      with 1(1)[OF False True] show ?thesis using True False by (auto simp: occurrences.simps[of p s i])
    next
      case np: False
      with 1(2)[OF False np] show ?thesis using False by (auto simp: occurrences.simps[of p s i])
    qed
  qed (simp add: occurrences.simps[of p s i])
qed

lemma occurrences_distinct: "distinct (occurrences p s i)"
  using occurrences_sorted[of p s i] by (auto simp: sorted_wrt_iff_nth_less distinct_conv_nth neq_iff)

lemma set_placeholder_matches:
  "m \<in> set (placeholder_matches tpl (k, ph)) \<longleftrightarrow>
   pm_start m \<in> set (occurrences ph tpl 0) \<and> pm_end m = pm_start m + length ph \<and> pm_fieldIndex m = k"
  by (cases m) (auto simp: placeholder_matches_def)

lemma distinct_placeholder_matches:
  "distinct (concat (map (placeholder_matches tpl) (enumerate n ps)))
   \<and> (\<forall>m\<in>set (concat (map (placeholder_matches tpl) (enumerate n ps))). n \<le> pm_fieldIndex m)"
proof (induction ps arbitrary: n)
  case (Cons p ps)
  have "distinct (placeholder_matches tpl (n, p))"
    by (auto simp: placeholder_matches_def distinct_map occurrences_distinct inj_on_def)
  with Cons[of "Suc n"] show ?case by (fastforce simp: set_placeholder_matches)
qed simp

lemma sorted_matches_eq_scan:
  assumes "\<forall>f\<in>set fs. brace_free f" and "distinct fs"
  shows "sort_key pm_start (concat (map (placeholder_matches tpl) (enumerate 0 (map placeholder fs)))) =
    scan fs tpl 0"
proof (rule sort_key_inj_key_eq)
  let ?ms = "concat (map (placeholder_matches tpl) (enumerate 0 (map placeholder fs)))"
  have iff: "m \<in> set ?ms \<longleftrightarrow> is_match fs tpl 0 m" for m
    using assms(1) by (auto simp: in_set_enumerate_eq set_placeholder_matches occurrences_iff image_iff Bex_def)
  have set: "set ?ms = set (scan fs tpl 0)" by (intro set_eqI) (simp only: iff scan_iff[OF assms])
  have sc: "sorted_wrt (\<lambda>a b. pm_start a < pm_start b) (scan fs tpl 0)" using scan_sorted by blast
  then have ds: "distinct (map pm_start (scan fs tpl 0))"
    by (auto simp: sorted_wrt_iff_nth_less distinct_conv_nth neq_iff)
  then show "inj_on pm_start (set ?ms)" by (simp only: set distinct_map)
  show "mset ?ms = mset (scan fs tpl 0)"
    using ds distinct_placeholder_matches[of tpl 0]
    by (intro set_eq_iff_mset_eq_distinct[THEN iffD1, OF _ _ set]) (simp_all only: distinct_map)
  show "sorted (map pm_start (scan fs tpl 0))"
    using sc by (auto simp: sorted_wrt_map intro: sorted_wrt_mono_rel[of _ "\<lambda>a b. pm_start a < pm_start b"])
qed

text \<open>The single-field fast path computes the same substitution.\<close>

lemma replace_all_substitute: "replace_all s (placeholder f) v = substitute [f] [v] s"
proof (induction "[f]" "[v]" s rule: substitute.induct)
  case (1 s)
  have "matching [f] s = (if prefix (placeholder f) s then Some 0 else None)" by (simp add: matching_def)
  with 1 show ?case by (auto simp: replace_all.simps[of s] substitute.simps[of _ _ s])
qed

lemma check_fields_None: "check_fields seen fs = None \<Longrightarrow> distinct fs \<and> set fs \<inter> set seen = {} \<and> [] \<notin> set fs"
proof (induction fs arbitrary: seen)
  case (Cons f fs)
  then have "check_fields (f # seen) fs = None" "f \<noteq> []" "f \<notin> set seen" by (auto split: if_splits)
  with Cons.IH[of "f # seen"] show ?case by auto
qed simp

lemma lookup_fields_eq:
  "lookup_fields fs inp = (if \<forall>f\<in>set fs. mget inp f \<noteq> None then Inr (map (\<lambda>f. the (mget inp f)) fs)
     else Inl (Errorf ''missing required field: %s'' [hd (filter (\<lambda>f. mget inp f = None) fs)] []))"
  by (induction fs) (auto split: option.split)


lemma check_fields_ok:
  "distinct fs \<Longrightarrow> set fs \<inter> set seen = {} \<Longrightarrow> [] \<notin> set fs \<Longrightarrow> check_fields seen fs = None"
  by (induction fs arbitrary: seen) auto

lemma sublist_occurs:
  assumes "brace_free f" and "sublist (placeholder f) tpl"
  shows "occurrences (placeholder f) tpl 0 \<noteq> []"
proof -
  from assms(2) obtain ps ss where "tpl = ps @ placeholder f @ ss" by (auto simp: sublist_def)
  then have "length ps \<in> set (occurrences (placeholder f) tpl 0)" by (simp add: occurrences_iff[OF assms(1)])
  then show ?thesis by force
qed

text \<open>
  C13. Template keys. For non-empty, distinct, brace-free field names that all occur in the
  template, \<^verbatim>\<open>NewTemplateKeyBuilder\<close> succeeds, and \<^verbatim>\<open>Build\<close> (the single-field fast path and the
  segment path alike) returns the template with every placeholder replaced, from left to right, by
  the value of its field; if a field is missing it reports the first one missing.
\<close>

theorem template_build_substitutes:
  assumes "\<forall>f\<in>set fs. brace_free f \<and> f \<noteq> [] \<and> sublist (placeholder f) tpl" and "distinct fs"
  shows "\<exists>t. NewTemplateKeyBuilder tpl fs = Inr t \<and>
    (\<forall>inp. templateKeyBuilder_Build t (Some inp) =
       (if \<forall>f\<in>set fs. mget inp f \<noteq> None
        then Inr (substitute fs (map (\<lambda>f. the (mget inp f)) fs) tpl)
        else Inl (Errorf ''missing required field: %s'' [hd (filter (\<lambda>f. mget inp f = None) fs)] [])))"
proof -
  have bf: "\<forall>f\<in>set fs. brace_free f" using assms(1) by blast
  have chk: "check_fields [] fs = None" using assms by (intro check_fields_ok) auto
  have occ: "find (\<lambda>f. occurrences (placeholder f) tpl 0 = []) fs = None"
    using assms(1) by (auto simp: find_None_iff dest: sublist_occurs)
  obtain segs where segs: "build_segments tpl 0 (scan fs tpl 0) = Inr segs"
    using build_segments_scan[of tpl 0 tpl 0 fs "[]"] by auto
  have render: "concat (map (render_segment vs) segs) = substitute fs vs tpl" for vs
    using build_segments_scan[of tpl 0 tpl 0 fs vs] segs by auto
  let ?t = "\<lparr>tk_template = tpl, tk_fields = fs, tk_placeholders = map placeholder fs, tk_segments = segs\<rparr>"
  have "NewTemplateKeyBuilder tpl fs = Inr ?t"
    by (simp add: NewTemplateKeyBuilder_def chk occ sorted_matches_eq_scan[OF bf assms(2)] segs)
  moreover have "templateKeyBuilder_Build ?t (Some inp) =
       (if \<forall>f\<in>set fs. mget inp f \<noteq> None
        then Inr (substitute fs (map (\<lambda>f. the (mget inp f)) fs) tpl)
        else Inl (Errorf ''missing required field: %s'' [hd (filter (\<lambda>f. mget inp f = None) fs)] []))" for inp
  proof (cases "length fs = 1")
    case True
    then obtain f where "fs = [f]" by (cases fs) auto
    then show ?thesis by (auto simp: templateKeyBuilder_Build_def replace_all_substitute split: option.split)
  next
    case False
    then show ?thesis by (simp add: templateKeyBuilder_Build_def lookup_fields_eq render)
  qed
  ultimately show ?thesis by blast
qed

theorem template_build_substitutes_witness:
  "\<exists>t. NewTemplateKeyBuilder ''o:{id}:i:{n}'' [''id'', ''n''] = Inr t
   \<and> templateKeyBuilder_Build t (Some [(''n'', ''7''), (''id'', ''42'')]) = Inr ''o:42:i:7''"
proof -
  have "sublist (placeholder ''id'') ''o:{id}:i:{n}''" "sublist (placeholder ''n'') ''o:{id}:i:{n}''"
    unfolding placeholder_def sublist_def
    by (rule exI[of _ "''o:''"], rule exI[of _ "'':i:{n}''"], simp) (rule exI[of _ "''o:{id}:i:''"], rule exI[of _ "[]"], simp)
  then have "\<forall>f\<in>set [''id'', ''n'']. brace_free f \<and> f \<noteq> [] \<and> sublist (placeholder f) ''o:{id}:i:{n}''"
    by (simp add: brace_free_def)
  moreover have "substitute [''id'', ''n''] [''42'', ''7''] ''o:{id}:i:{n}'' = ''o:42:i:7''" by code_simp
  ultimately show ?thesis using template_build_substitutes[of "[''id'', ''n'']" "''o:{id}:i:{n}''"] by auto
qed


text \<open>A definition used by concrete instances.\<close>

definition ex_def :: "string \<Rightarrow> int \<Rightarrow> LockDefinition" where
  "ex_def i rank =
     \<lparr>ld_ID = i, ld_Kind = KindParent, ld_Resource = i, ld_Mode = ModeStandard,
      ld_ExecutionKind = ExecutionSync, ld_LeaseTTL = 30, ld_WaitTimeout = 0, ld_MaxRetries = 0,
      ld_BackendFailurePolicy = BackendFailClosed, ld_FencingRequired = False,
      ld_IdempotencyRequired = False, ld_CheckOnlyAllowed = True, ld_FailIfHeld = False,
      ld_Rank = rank, ld_ParentRef = [], ld_OverlapPolicy = OverlapReject,
      ld_KeyBuilder = None, ld_Tags = None\<rparr>"

lemma ex_def_ID [simp]: "ld_ID (ex_def i rank) = i"
  by (simp add: ex_def_def)

end
