(* ===== verification/Policy.thy ===== *)
theory Policy
  imports Definitions
begin

text \<open>
  The policies shared by the runtime and the worker manager
  (\<^verbatim>\<open>src/lockkit/internal/policy\<close>): the canonical acquisition order of composite members, the
  overlap test between a parent and a child definition, and the outcome a worker reports for an
  error.
\<close>

section \<open>Canonical order of composite members\<close>

record MemberLeasePlan =
  mp_Definition :: LockDefinition
  mp_ResourceKey :: string

definition member_less_key :: "MemberLeasePlan \<Rightarrow> int \<times> string \<times> string" where
  "member_less_key p =
     (ld_Rank (mp_Definition p), ld_Resource (mp_Definition p), mp_ResourceKey p)"

text \<open>\<^verbatim>\<open>sort.SliceStable\<close> by rank, then resource, then resource key.\<close>

definition CanonicalizeMembers :: "LockDefinition list \<Rightarrow> string list \<Rightarrow> MemberLeasePlan list result" where
  "CanonicalizeMembers defs keys =
     (if length defs \<noteq> length keys
      then Inl (Errorf ''composite member definitions and keys length mismatch'' [] [])
      else Inr (sort_key member_less_key
             (map (\<lambda>(d, k). \<lparr>mp_Definition = d, mp_ResourceKey = k\<rparr>) (zip defs keys))))"

section \<open>Overlap of a parent and a child\<close>

definition RejectOverlap :: "LockDefinition \<Rightarrow> LockDefinition \<Rightarrow> string \<Rightarrow> string \<Rightarrow> go_err" where
  "RejectOverlap parent child parentKey childKey =
     (if ld_Kind parent \<noteq> KindParent then None
      else if ld_Kind child \<noteq> KindChild then None
      else if ld_ParentRef child \<noteq> ld_ID parent then None
      else if childKey = parentKey \<or> prefix (parentKey @ '':'') childKey
      then Some (Errorf ''%w: child lock %q overlaps parent %q'' [ld_ID child, ld_ID parent]
             [Sentinel ErrPolicyViolation])
      else None)"

section \<open>Worker outcomes\<close>

datatype WorkerOutcome = OutcomeAck | OutcomeRetry | OutcomeDrop | OutcomeDLQ

definition DLQ :: "go_err \<Rightarrow> go_error" where
  "DLQ err =
     (case err of None \<Rightarrow> Sentinel ErrDLQ | Some e \<Rightarrow> Errorf ''%w: %w'' [] [Sentinel ErrDLQ, e])"

definition OutcomeFromError :: "go_err \<Rightarrow> WorkerOutcome" where
  "OutcomeFromError err =
     (case err of
        None \<Rightarrow> OutcomeAck
      | Some e \<Rightarrow>
          if errors_is e ErrDLQ then OutcomeDLQ
          else if errors_is e ErrDuplicateIgnored then OutcomeAck
          else if errors_is e ErrInvalidRequest then OutcomeDrop
          else if errors_is e ErrPolicyViolation then OutcomeDrop
          else if errors_is e ErrInvariantRejected then OutcomeDrop
          else if errors_is e ErrWorkerShuttingDown then OutcomeRetry
          else if errors_is e ErrLeaseAlreadyHeld then OutcomeRetry
          else if errors_is e ErrLeaseNotFound \<or> errors_is e ErrLeaseExpired
                  \<or> errors_is e ErrLeaseOwnerMismatch then OutcomeRetry
          else if errors_is e ErrLockBusy then OutcomeRetry
          else if errors_is e ErrOverlapRejected then OutcomeRetry
          else if errors_is e ErrLockAcquireTimeout then OutcomeRetry
          else if errors_is e ErrLeaseLost then OutcomeRetry
          else if errors_is e ContextCanceled then OutcomeRetry
          else if errors_is e ContextDeadlineExceeded then OutcomeRetry
          else OutcomeRetry)"

section \<open>Properties\<close>

text \<open>The members of a request, in the order the caller lists them.\<close>

definition members_of :: "LockDefinition list \<Rightarrow> string list \<Rightarrow> MemberLeasePlan list" where
  "members_of defs keys = map (\<lambda>(d, k). \<lparr>mp_Definition = d, mp_ResourceKey = k\<rparr>) (zip defs keys)"

lemma CanonicalizeMembers_eq:
  "length defs = length keys \<Longrightarrow>
   CanonicalizeMembers defs keys = Inr (sort_key member_less_key (members_of defs keys))"
  by (simp add: CanonicalizeMembers_def members_of_def)

text \<open>
  The order the source documents: by rank, ties by resource, ties by resource key.
\<close>

definition comes_before :: "MemberLeasePlan \<Rightarrow> MemberLeasePlan \<Rightarrow> bool" where
  "comes_before a b \<longleftrightarrow>
     ld_Rank (mp_Definition a) < ld_Rank (mp_Definition b)
     \<or> ld_Rank (mp_Definition a) = ld_Rank (mp_Definition b)
       \<and> (ld_Resource (mp_Definition a) < ld_Resource (mp_Definition b)
          \<or> ld_Resource (mp_Definition a) = ld_Resource (mp_Definition b)
            \<and> mp_ResourceKey a < mp_ResourceKey b)"

lemma comes_before_iff: "comes_before a b \<longleftrightarrow> member_less_key a < member_less_key b"
  by (auto simp: comes_before_def member_less_key_def)

lemma comes_before_trans: "comes_before a b \<Longrightarrow> comes_before b c \<Longrightarrow> comes_before a c"
  unfolding comes_before_iff by (rule less_trans)

lemma comes_before_irrefl: "\<not> comes_before a a"
  unfolding comes_before_iff by simp

lemma CanonicalizeMembers_Inr:
  assumes "CanonicalizeMembers defs keys = Inr p"
  shows "p = sort_key member_less_key (members_of defs keys)"
  using assms by (auto simp: CanonicalizeMembers_def members_of_def split: if_splits)

lemma CanonicalizeMembers_sorted:
  assumes "CanonicalizeMembers defs keys = Inr p"
  shows "sorted_wrt (\<lambda>a b. \<not> comes_before b a) p"
proof -
  have "sorted (map member_less_key p)" using CanonicalizeMembers_Inr[OF assms] by simp
  then show ?thesis by (simp add: sorted_map comes_before_iff not_less)
qed

text \<open>
  Two members tie when neither comes before the other. A stable sort keeps the members that tie with
  a given one in the order of the request.
\<close>

definition ties :: "MemberLeasePlan \<Rightarrow> MemberLeasePlan \<Rightarrow> bool" where
  "ties a b \<longleftrightarrow> \<not> comes_before a b \<and> \<not> comes_before b a"

lemma ties_iff: "ties a b \<longleftrightarrow> member_less_key b = member_less_key a"
  by (auto simp: ties_def comes_before_iff)

lemma CanonicalizeMembers_stable:
  assumes "CanonicalizeMembers defs keys = Inr p"
  shows "filter (ties m) p = filter (ties m) (members_of defs keys)"
proof -
  have "ties m = (\<lambda>y. member_less_key y = member_less_key m)" by (simp add: ties_iff fun_eq_iff)
  then show ?thesis using CanonicalizeMembers_Inr[OF assms] by (simp add: sort_key_stable)
qed

text \<open>
  Composite executions acquire the members of their plans in order. In a state where execution
  \<open>i\<close> holds the first \<open>q i\<close> members of its plan, it waits for execution \<open>j\<close> when \<open>j\<close> holds the lock
  \<open>i\<close> needs next. A lock is named by the definition's identifier and the resource key.
\<close>

definition same_lock :: "MemberLeasePlan \<Rightarrow> MemberLeasePlan \<Rightarrow> bool" where
  "same_lock a b \<longleftrightarrow> ld_ID (mp_Definition a) = ld_ID (mp_Definition b)
     \<and> mp_ResourceKey a = mp_ResourceKey b"

definition waits_for :: "MemberLeasePlan list list \<Rightarrow> (nat \<Rightarrow> nat) \<Rightarrow> nat \<Rightarrow> nat \<Rightarrow> bool" where
  "waits_for ps q i j \<longleftrightarrow> i < length ps \<and> j < length ps \<and> q i < length (ps ! i)
     \<and> (\<exists>m \<in> set (take (q j) (ps ! j)). same_lock m (ps ! i ! q i))"

lemma held_before_wanted:
  assumes "sorted_wrt (\<lambda>a b. \<not> comes_before b a) p" and "sorted_wrt (\<lambda>a b. \<not> ties a b) p"
    and "n < length p" and "m \<in> set (take n p)"
  shows "comes_before m (p ! n)"
proof -
  obtain k where "k < n" "m = p ! k" using assms(3,4) by (auto simp: in_set_conv_nth)
  then show ?thesis using assms(1-3) by (auto simp: sorted_wrt_iff_nth_less ties_def)
qed

lemma waits_for_increases:
  assumes "(waits_for ps q)\<^sup>+\<^sup>+ i j" and "q j < length (ps ! j)"
    and order: "\<And>p. p \<in> set ps \<Longrightarrow> sorted_wrt (\<lambda>a b. \<not> comes_before b a) p"
    and "\<And>p. p \<in> set ps \<Longrightarrow> sorted_wrt (\<lambda>a b. \<not> ties a b) p"
    and ids: "\<And>m m'. m \<in> \<Union> (set ` set ps) \<Longrightarrow> m' \<in> \<Union> (set ` set ps) \<Longrightarrow>
       ld_ID (mp_Definition m) = ld_ID (mp_Definition m') \<Longrightarrow> mp_Definition m = mp_Definition m'"
  shows "comes_before (ps ! i ! q i) (ps ! j ! q j)"
proof -
  have inc: "comes_before (ps ! a ! q a) (ps ! b ! q b)"
    if w: "waits_for ps q a b" and b: "q b < length (ps ! b)" for a b
  proof -
    from w obtain m where m: "m \<in> set (take (q b) (ps ! b))" "same_lock m (ps ! a ! q a)"
      and ab: "a < length ps" "b < length ps" "q a < length (ps ! a)"
      by (auto simp: waits_for_def)
    have "mp_Definition m = mp_Definition (ps ! a ! q a)"
      by (rule ids) (use m ab in \<open>auto simp: same_lock_def intro: bexI[of _ "ps ! a"]
          bexI[of _ "ps ! b"] dest: in_set_takeD\<close>)
    then have "m = ps ! a ! q a" using m(2) by (simp add: same_lock_def)
    then show ?thesis using held_before_wanted[OF assms(3,4) b m(1)] ab by simp
  qed
  show ?thesis using assms(1,2)
  proof (induction rule: tranclp_induct)
    case (base b) then show ?case by (rule inc)
  next
    case (step b c)
    then have "q b < length (ps ! b)" by (simp add: waits_for_def)
    then show ?case using step.IH inc[OF step.hyps(2) step.prems]
      by (blast intro: comes_before_trans)
  qed
qed

text \<open>
  C14. Lock ordering. Canonicalising the members of a composite request only reorders them: the plan
  has exactly the members of the request, in the order rank, then resource, then resource key, and
  members that tie keep their order. Hence composite executions that acquire the members of their
  plans in order cannot wait for each other in a cycle, whatever prefix of its plan each one holds,
  if definitions with the same identifier are the same definition (one registry) and no plan has
  two members of the same rank, resource and resource key. A lock is a definition with a resource
  key here, as on Redis; the in-memory backend locks by resource key alone.
\<close>

theorem canonical_order_no_deadlock:
  assumes "list_all2 (\<lambda>(defs, keys) p. CanonicalizeMembers defs keys = Inr p) reqs ps"
  shows "list_all2 (\<lambda>(defs, keys) p. mset p = mset (members_of defs keys)
            \<and> sorted_wrt (\<lambda>a b. \<not> comes_before b a) p
            \<and> (\<forall>m. filter (ties m) p = filter (ties m) (members_of defs keys))) reqs ps
    \<and> ((\<forall>m \<in> \<Union> (set ` set ps). \<forall>m' \<in> \<Union> (set ` set ps).
          ld_ID (mp_Definition m) = ld_ID (mp_Definition m') \<longrightarrow> mp_Definition m = mp_Definition m') \<longrightarrow>
       (\<forall>p \<in> set ps. sorted_wrt (\<lambda>a b. \<not> ties a b) p) \<longrightarrow>
       \<not> (waits_for ps q)\<^sup>+\<^sup>+ i i)"
proof (intro conjI impI notI)
  show "list_all2 (\<lambda>(defs, keys) p. mset p = mset (members_of defs keys)
            \<and> sorted_wrt (\<lambda>a b. \<not> comes_before b a) p
            \<and> (\<forall>m. filter (ties m) p = filter (ties m) (members_of defs keys))) reqs ps"
    using assms by (rule list_all2_mono)
      (auto dest: CanonicalizeMembers_Inr CanonicalizeMembers_sorted CanonicalizeMembers_stable)
next
  assume ids: "\<forall>m \<in> \<Union> (set ` set ps). \<forall>m' \<in> \<Union> (set ` set ps).
      ld_ID (mp_Definition m) = ld_ID (mp_Definition m') \<longrightarrow> mp_Definition m = mp_Definition m'"
    and t: "\<forall>p \<in> set ps. sorted_wrt (\<lambda>a b. \<not> ties a b) p" and c: "(waits_for ps q)\<^sup>+\<^sup>+ i i"
  have "sorted_wrt (\<lambda>a b. \<not> comes_before b a) p" if "p \<in> set ps" for p
  proof -
    obtain r where "CanonicalizeMembers (fst r) (snd r) = Inr p"
      using assms \<open>p \<in> set ps\<close> by (fastforce simp: list_all2_conv_all_nth in_set_conv_nth split_beta)
    then show ?thesis by (rule CanonicalizeMembers_sorted)
  qed
  moreover have "q i < length (ps ! i)" using c by (auto simp: waits_for_def dest: tranclpD)
  ultimately have "comes_before (ps ! i ! q i) (ps ! i ! q i)"
    using waits_for_increases[OF c] t ids by blast
  then show False by (simp add: comes_before_irrefl)
qed

theorem canonical_order_no_deadlock_witness:
  "\<exists>p. CanonicalizeMembers [ex_def ''b'' 2, ex_def ''a'' 1] [''k'', ''k''] = Inr p
     \<and> CanonicalizeMembers [ex_def ''a'' 1, ex_def ''b'' 2] [''k'', ''k''] = Inr p
     \<and> waits_for [p, p] (\<lambda>i. i) 0 1 \<and> \<not> (waits_for [p, p] (\<lambda>i. i))\<^sup>+\<^sup>+ 0 0"
proof -
  let ?p = "[\<lparr>mp_Definition = ex_def ''a'' 1, mp_ResourceKey = ''k''\<rparr>,
             \<lparr>mp_Definition = ex_def ''b'' 2, mp_ResourceKey = ''k''\<rparr>]"
  have *: "CanonicalizeMembers [ex_def ''b'' 2, ex_def ''a'' 1] [''k'', ''k''] = Inr ?p"
    "CanonicalizeMembers [ex_def ''a'' 1, ex_def ''b'' 2] [''k'', ''k''] = Inr ?p"
    by (simp_all add: CanonicalizeMembers_def member_less_key_def ex_def_def)
  have "list_all2 (\<lambda>(defs, keys) p. CanonicalizeMembers defs keys = Inr p)
      [([ex_def ''b'' 2, ex_def ''a'' 1], [''k'', ''k'']),
       ([ex_def ''a'' 1, ex_def ''b'' 2], [''k'', ''k''])] [?p, ?p]"
    using * by simp
  from canonical_order_no_deadlock[OF this, of "\<lambda>i. i" 0]
  have "\<not> (waits_for [?p, ?p] (\<lambda>i. i))\<^sup>+\<^sup>+ 0 0"
    by (simp add: ties_def comes_before_def ex_def_def)
  moreover have "waits_for [?p, ?p] (\<lambda>i. i) 0 1" by (simp add: waits_for_def same_lock_def)
  ultimately show ?thesis using * by blast
qed

text \<open>How strongly an outcome binds when errors are combined.\<close>

fun outcome_rank :: "WorkerOutcome \<Rightarrow> nat" where
  "outcome_rank OutcomeRetry = 0"
| "outcome_rank OutcomeDrop = 1"
| "outcome_rank OutcomeAck = 2"
| "outcome_rank OutcomeDLQ = 3"

lemma OutcomeFromError_Some:
  "OutcomeFromError (Some e) =
     (if errors_is e ErrDLQ then OutcomeDLQ
      else if errors_is e ErrDuplicateIgnored then OutcomeAck
      else if errors_is e ErrInvalidRequest \<or> errors_is e ErrPolicyViolation
              \<or> errors_is e ErrInvariantRejected then OutcomeDrop
      else OutcomeRetry)"
  by (simp add: OutcomeFromError_def)

text \<open>
  Outcomes compose. A dead-letter error always yields the DLQ outcome; wrapping an error does
  not change its outcome; and when a handler error is joined with a release error, the outcome is
  that of the part that binds stronger (DLQ, then acknowledge-as-duplicate, then drop, then retry),
  so a failing release can never hide a DLQ, duplicate or drop decision.
\<close>

theorem outcome_composes:
  "OutcomeFromError (Some (DLQ err)) = OutcomeDLQ
   \<and> OutcomeFromError (Some (Errorf f as [e])) = OutcomeFromError (Some e)
   \<and> OutcomeFromError (join_errs (Some e1) e2) =
       (if outcome_rank (OutcomeFromError (Some e1)) \<ge> outcome_rank (OutcomeFromError (Some e2))
        then OutcomeFromError (Some e1) else OutcomeFromError (Some e2))"
  by (auto simp: OutcomeFromError_Some DLQ_def join_errs_def split: option.split)

end
