(* ===== verification/Lineage.thy ===== *)
theory Lineage
  imports Definitions
begin

text \<open>
  Resolution of the ancestor chain of a definition (\<^verbatim>\<open>src/lockkit/internal/lineage/resolve.go\<close>).
  The random bytes of a lease id come from \<^verbatim>\<open>crypto/rand\<close>; the result of that read is an argument.
\<close>

section \<open>Lease ids\<close>

definition hex_digit :: "nat \<Rightarrow> char" where
  "hex_digit n = ''0123456789abcdef'' ! n"

definition hex_encode :: "string \<Rightarrow> string" where
  "hex_encode bs =
     concat (map (\<lambda>c. let n = of_char c :: nat in [hex_digit (n div 16), hex_digit (n mod 16)]) bs)"

text \<open>The 16 bytes that the reader filled in, or its error.\<close>

definition newLeaseID :: "string result \<Rightarrow> string result" where
  "newLeaseID rnd =
     (case rnd of
        Inl e \<Rightarrow> Inl (Errorf ''%w: %v'' [] [Sentinel ErrLeaseIDGenerationFailed])
      | Inr bs \<Rightarrow> Inr (hex_encode bs))"

section \<open>Ancestors\<close>

record AcquirePlan =
  ap_DefinitionID :: string
  ap_ResourceKey :: string
  ap_Kind :: LockKind
  ap_AncestorKeys :: "AncestorKey list"
  ap_LeaseID :: string

definition LeaseMeta :: "AcquirePlan \<Rightarrow> LineageLeaseMeta" where
  "LeaseMeta p = \<lparr>lm_LeaseID = ap_LeaseID p, lm_Kind = ap_Kind p, lm_AncestorKeys = ap_AncestorKeys p\<rparr>"

text \<open>
  The loop of \<^verbatim>\<open>resolveAncestors\<close>: \<open>stack\<close> collects the ancestors, immediate parent first. Every round
  adds a registered id to \<open>visited\<close>.
\<close>

function climb ::
  "string \<Rightarrow> (string, LockDefinition) gomap \<Rightarrow> key_input \<Rightarrow> string list \<Rightarrow> AncestorKey list \<Rightarrow> string
    \<Rightarrow> AncestorKey list result"
where
  "climb defID definitionsByID input visited stack parentID =
     (if parentID = [] then Inr stack
      else if parentID \<in> set visited
      then Inl (Errorf ''lineage: cyclic parent ref at %q'' [parentID] [])
      else case mget definitionsByID parentID of
        None \<Rightarrow> Inl (Errorf ''lineage: missing parent definition %q for %q'' [parentID, defID] [])
      | Some parent \<Rightarrow>
          (case build_key (ld_KeyBuilder parent) input of
             Inl e \<Rightarrow> Inl e
           | Inr key \<Rightarrow>
               climb defID definitionsByID input (parentID # visited)
                 (stack @ [\<lparr>ak_DefinitionID = ld_ID parent, ak_ResourceKey = key\<rparr>])
                 (ld_ParentRef parent)))"
  by pat_completeness auto
termination
proof (relation "measure (\<lambda>(_, ds, _, visited, _, _). card (set (map fst ds) - set visited))", goal_cases)
  case (2 defID ds input visited stack parentID parent key)
  then have "parentID \<in> set (map fst ds) - set visited" by (force dest: map_of_SomeD)
  then have "set (map fst ds) - set (parentID # visited) \<subset> set (map fst ds) - set visited" by auto
  then show ?case by (auto intro: psubset_card_mono)
qed simp

declare climb.simps [simp del]

definition resolveAncestors ::
  "LockDefinition \<Rightarrow> (string, LockDefinition) gomap \<Rightarrow> key_input \<Rightarrow> AncestorKey list result"
where
  "resolveAncestors def definitionsByID input =
     (if ld_ParentRef def \<noteq> [] \<and> ld_Kind def \<noteq> KindChild
      then Inl (Errorf ''lineage: non-child definition %q must not set parent ref'' [ld_ID def] [])
      else if ld_ParentRef def = []
      then (if ld_Kind def = KindChild
            then Inl (Errorf ''lineage: child definition %q missing parent ref'' [ld_ID def] [])
            else Inr [])
      else case climb (ld_ID def) definitionsByID input [ld_ID def] [] (ld_ParentRef def) of
        Inl e \<Rightarrow> Inl e
      | Inr stack \<Rightarrow> Inr (rev stack))"

definition ResolveAcquirePlan ::
  "LockDefinition \<Rightarrow> (string, LockDefinition) gomap \<Rightarrow> key_input \<Rightarrow> string result \<Rightarrow> AcquirePlan result"
where
  "ResolveAcquirePlan def definitionsByID input rnd =
     (case build_key (ld_KeyBuilder def) input of
        Inl e \<Rightarrow> Inl e
      | Inr resourceKey \<Rightarrow>
          (case resolveAncestors def definitionsByID input of
             Inl e \<Rightarrow> Inl e
           | Inr ancestors \<Rightarrow>
               (case newLeaseID rnd of
                  Inl e \<Rightarrow> Inl e
                | Inr leaseID \<Rightarrow>
                    Inr \<lparr>ap_DefinitionID = ld_ID def, ap_ResourceKey = resourceKey, ap_Kind = ld_Kind def,
                         ap_AncestorKeys = ancestors, ap_LeaseID = leaseID\<rparr>)))"

section \<open>The parent chain\<close>

text \<open>
  The specification: \<open>chain ds d ps\<close> holds when \<open>ps\<close> are the registered ancestors of \<open>d\<close>, immediate
  parent first, up to a definition without a parent.
\<close>

inductive chain :: "(string, LockDefinition) gomap \<Rightarrow> LockDefinition \<Rightarrow> LockDefinition list \<Rightarrow> bool"
  for ds :: "(string, LockDefinition) gomap"
where
  root: "ld_ParentRef d = [] \<Longrightarrow> chain ds d []"
| step: "ld_ParentRef d \<noteq> [] \<Longrightarrow> mget ds (ld_ParentRef d) = Some p \<Longrightarrow> chain ds p ps \<Longrightarrow> chain ds d (p # ps)"

inductive_cases chain_NilE: "chain ds d []"
inductive_cases chain_ConsE: "chain ds d (p # ps)"

lemma chain_det: "chain ds d ps \<Longrightarrow> chain ds d qs \<Longrightarrow> ps = qs"
proof (induction arbitrary: qs rule: chain.induct)
  case (root d)
  from root(2) show ?case by cases (use root(1) in auto)
next
  case (step d p ps)
  from step.prems step.hyps(1) obtain p' qs' where "qs = p' # qs'" "mget ds (ld_ParentRef d) = Some p'"
    "chain ds p' qs'" by (cases rule: chain.cases) auto
  with step.hyps(2) step.IH show ?case by simp
qed

text \<open>The ancestor keys of a chain, when all of them can be built.\<close>

fun ancestor_keys :: "key_input \<Rightarrow> LockDefinition list \<Rightarrow> AncestorKey list result" where
  "ancestor_keys input [] = Inr []"
| "ancestor_keys input (p # ps) =
     (case build_key (ld_KeyBuilder p) input of
        Inl e \<Rightarrow> Inl e
      | Inr key \<Rightarrow>
          (case ancestor_keys input ps of
             Inl e \<Rightarrow> Inl e
           | Inr as \<Rightarrow> Inr (\<lparr>ak_DefinitionID = ld_ID p, ak_ResourceKey = key\<rparr> # as)))"

lemma climb_chain:
  assumes "chain ds d ps" and "distinct (map ld_ID ps)" and "set (map ld_ID ps) \<inter> set visited = {}"
    and "\<forall>k v. mget ds k = Some v \<longrightarrow> ld_ID v = k"
  shows "climb i ds input visited stack (ld_ParentRef d) =
    (case ancestor_keys input ps of Inl e \<Rightarrow> Inl e | Inr as \<Rightarrow> Inr (stack @ as))"
  using assms(1-3)
proof (induction arbitrary: visited stack rule: chain.induct)
  case (root d)
  then show ?case by (simp add: climb.simps)
next
  case (step d p ps)
  then have "ld_ID p = ld_ParentRef d" using assms(4) by blast
  moreover have "climb i ds input (ld_ParentRef d # visited) st (ld_ParentRef p) =
      (case ancestor_keys input ps of Inl e \<Rightarrow> Inl e | Inr as \<Rightarrow> Inr (st @ as))" for st
    using step calculation by (intro step.IH) auto
  ultimately show ?case using step
    by (subst climb.simps) (auto split: sum.split)
qed

end
