(* ===== verification/Engine_Registry.thy ===== *)
theory Engine_Registry
  imports Lineage
begin

text \<open>
  The registry of lock and composite definitions (\<^verbatim>\<open>src/lockkit/registry\<close>): registration,
  validation and the capabilities a registry demands of a driver. The methods take the registry's
  lock, so each is one step on its state; the copies that protect the stored values from later
  mutation (\<^verbatim>\<open>cloneDefinition\<close>, \<^verbatim>\<open>cloneCompositeDefinition\<close>) are the identity on values.
\<close>

section \<open>State and registration\<close>

record Registry =
  rg_definitions :: "(string, LockDefinition) gomap"
  rg_composites :: "(string, CompositeDefinition) gomap"

definition NewRegistry :: Registry where
  "NewRegistry = \<lparr>rg_definitions = [], rg_composites = []\<rparr>"

definition validation_error :: "string \<Rightarrow> go_err" where
  "validation_error msg = Some (Errorf msg [] [])"

definition requireDefinitionID :: "LockDefinition \<Rightarrow> go_err" where
  "requireDefinitionID def =
     (if trim_space (ld_ID def) = [] then validation_error ''definition id must not be empty'' else None)"

definition requireCompositeDefinitionID :: "CompositeDefinition \<Rightarrow> go_err" where
  "requireCompositeDefinitionID def =
     (if trim_space (cd_ID def) = []
      then validation_error ''composite definition id must not be empty'' else None)"

definition Register :: "Registry \<Rightarrow> LockDefinition \<Rightarrow> Registry \<times> go_err" where
  "Register r def =
     (case requireDefinitionID def of
        Some e \<Rightarrow> (r, Some e)
      | None \<Rightarrow>
          if mget (rg_definitions r) (ld_ID def) \<noteq> None
          then (r, Some (Errorf ''lock definition %q already registered'' [ld_ID def] []))
          else if mget (rg_composites r) (ld_ID def) \<noteq> None
          then (r, Some (Errorf ''lock definition %q collides with registered composite definition''
                    [ld_ID def] []))
          else (r\<lparr>rg_definitions := mput (ld_ID def) def (rg_definitions r)\<rparr>, None))"

definition RegisterComposite :: "Registry \<Rightarrow> CompositeDefinition \<Rightarrow> Registry \<times> go_err" where
  "RegisterComposite r def =
     (case requireCompositeDefinitionID def of
        Some e \<Rightarrow> (r, Some e)
      | None \<Rightarrow>
          if mget (rg_composites r) (cd_ID def) \<noteq> None
          then (r, Some (Errorf ''composite definition %q already registered'' [cd_ID def] []))
          else if mget (rg_definitions r) (cd_ID def) \<noteq> None
          then (r, Some (Errorf ''composite definition %q collides with lock definition ID'' [cd_ID def] []))
          else (r\<lparr>rg_composites := mput (cd_ID def) def (rg_composites r)\<rparr>, None))"

definition Get :: "Registry \<Rightarrow> string \<Rightarrow> LockDefinition option" where
  "Get r i = mget (rg_definitions r) i"

definition GetComposite :: "Registry \<Rightarrow> string \<Rightarrow> CompositeDefinition option" where
  "GetComposite r i = mget (rg_composites r) i"

definition MustGet :: "Registry \<Rightarrow> string \<Rightarrow> LockDefinition result" where
  "MustGet r i = (case mget (rg_definitions r) i of
     None \<Rightarrow> Inl (panic ''lock definition not found'') | Some d \<Rightarrow> Inr d)"

definition MustGetComposite :: "Registry \<Rightarrow> string \<Rightarrow> CompositeDefinition result" where
  "MustGetComposite r i = (case mget (rg_composites r) i of
     None \<Rightarrow> Inl (panic ''composite definition not found'') | Some d \<Rightarrow> Inr d)"

definition Registry_Definitions :: "Registry \<Rightarrow> LockDefinition list" where
  "Registry_Definitions r = map snd (rg_definitions r)"

section \<open>Validation\<close>

definition requireDefinitionResource :: "LockDefinition \<Rightarrow> go_err" where
  "requireDefinitionResource def =
     (if trim_space (ld_Resource def) = []
      then validation_error ''definition resource must not be empty'' else None)"

definition requireKeyBuilder :: "LockDefinition \<Rightarrow> go_err" where
  "requireKeyBuilder def =
     (case ld_KeyBuilder def of
        None \<Rightarrow> validation_error ''definition must provide a key builder'' | Some _ \<Rightarrow> None)"

definition requireStrictFencing :: "LockDefinition \<Rightarrow> go_err" where
  "requireStrictFencing def =
     (if ld_Mode def = ModeStrict \<and> \<not> ld_FencingRequired def
      then validation_error ''strict definitions require fencing'' else None)"

definition requireStrictFailClosed :: "LockDefinition \<Rightarrow> go_err" where
  "requireStrictFailClosed def =
     (if ld_Mode def = ModeStrict \<and> ld_BackendFailurePolicy def \<noteq> BackendFailClosed
      then validation_error ''strict definitions require explicit fail_closed backend policy'' else None)"

definition requireStrictAsyncIdempotency :: "LockDefinition \<Rightarrow> go_err" where
  "requireStrictAsyncIdempotency def =
     (if ld_Mode def \<noteq> ModeStrict then None
      else if ld_ExecutionKind def \<noteq> ExecutionAsync \<and> ld_ExecutionKind def \<noteq> ExecutionBoth then None
      else if \<not> ld_IdempotencyRequired def
      then validation_error ''strict async and strict both definitions require idempotency'' else None)"

definition definitionValidations :: "(LockDefinition \<Rightarrow> go_err) list" where
  "definitionValidations =
     [requireDefinitionID, requireDefinitionResource, requireKeyBuilder, requireStrictFencing,
      requireStrictFailClosed, requireStrictAsyncIdempotency]"

fun first_error :: "('a \<Rightarrow> go_err) list \<Rightarrow> 'a \<Rightarrow> go_err" where
  "first_error [] x = None"
| "first_error (f # fs) x = (case f x of Some e \<Rightarrow> Some e | None \<Rightarrow> first_error fs x)"

definition ValidateDefinition :: "LockDefinition \<Rightarrow> go_err" where
  "ValidateDefinition def = first_error definitionValidations def"

definition fieldsContain :: "string list \<Rightarrow> string list \<Rightarrow> bool" where
  "fieldsContain parentFields childFields = list_all (\<lambda>f. f \<in> set childFields) parentFields"

function validateLineageChain ::
  "LockDefinition \<Rightarrow> (string, LockDefinition) gomap \<Rightarrow> string list \<Rightarrow> go_err"
where
  "validateLineageChain def definitionsByID visited =
     (let parentID = trim_space (ld_ParentRef def) in
      if parentID = [] then None
      else if ld_ID def \<in> set visited then validation_error ''lineage cycle detected''
      else case mget definitionsByID parentID of
        None \<Rightarrow> Some (Errorf ''child definition references unknown parent %q'' [ld_ParentRef def] [])
      | Some parent \<Rightarrow>
          if ld_Mode def \<noteq> ModeStandard \<or> ld_Mode parent \<noteq> ModeStandard
          then validation_error ''lineage definitions only support standard mode''
          else if ld_OverlapPolicy def \<noteq> OverlapReject
          then validation_error ''child definitions only support overlap policy reject in phase 2''
          else case validateLineageChain parent definitionsByID (ld_ID def # visited) of
            Some e \<Rightarrow> Some e
          | None \<Rightarrow>
              (case TemplateMetadata (ld_KeyBuilder def) of
                 None \<Rightarrow> validation_error ''lineage definitions require template-backed key builders''
               | Some childMeta \<Rightarrow>
                   (case TemplateMetadata (ld_KeyBuilder parent) of
                      None \<Rightarrow> validation_error ''lineage definitions require template-backed key builders''
                    | Some parentMeta \<Rightarrow>
                        if \<not> prefix (tm_Template parentMeta) (tm_Template childMeta)
                        then validation_error ''child definition must preserve parent template prefix''
                        else if \<not> fieldsContain (tm_Fields parentMeta) (tm_Fields childMeta)
                        then validation_error ''child definition must include parent template fields''
                        else None)))"
  by pat_completeness auto
termination
proof (relation "measure (\<lambda>(def, ds, visited).
    card (insert (ld_ID def) (ld_ID ` snd ` set ds) - set visited))", goal_cases)
  case (2 def ds visited parentID parent)
  let ?ids = "ld_ID ` snd ` set ds"
  from 2 have "ld_ID parent \<in> ?ids" by (force dest: map_of_SomeD)
  then have "insert (ld_ID parent) ?ids - set (ld_ID def # visited) = ?ids - set (ld_ID def # visited)" by auto
  also have "\<dots> \<subset> insert (ld_ID def) ?ids - set visited" using 2 by auto
  finally show ?case by (auto intro!: psubset_card_mono)
qed simp

declare validateLineageChain.simps [simp del]

definition ValidateDefinitionAgainstRegistry ::
  "LockDefinition \<Rightarrow> (string, LockDefinition) gomap \<Rightarrow> go_err"
where
  "ValidateDefinitionAgainstRegistry def definitionsByID =
     (if ld_Kind def \<noteq> KindChild then None
      else if trim_space (ld_ParentRef def) = []
      then Some (Errorf ''child definition references unknown parent %q'' [ld_ParentRef def] [])
      else validateLineageChain def definitionsByID [])"

text \<open>The member loop: \<open>expected\<close> is the mode of the first member, \<open>hasStrict\<close> the flag.\<close>

fun validate_members ::
  "(string, LockDefinition) gomap \<Rightarrow> LockMode option \<Rightarrow> bool \<Rightarrow> string list \<Rightarrow> go_err"
where
  "validate_members ds expected hasStrict [] =
     (if hasStrict then validation_error ''composite definitions cannot include strict members in phase 2''
      else None)"
| "validate_members ds expected hasStrict (memberID # ms) =
     (case mget ds memberID of
        None \<Rightarrow> Some (Errorf ''composite definition references unknown member %q'' [memberID] [])
      | Some member \<Rightarrow>
          (let expectedMode = (case expected of None \<Rightarrow> ld_Mode member | Some md \<Rightarrow> md) in
           if ld_Mode member \<noteq> expectedMode
           then validation_error ''composite definition members must resolve to a homogeneous mode''
           else validate_members ds (Some expectedMode) (hasStrict \<or> ld_Mode member = ModeStrict) ms))"

definition ValidateCompositeDefinition ::
  "CompositeDefinition \<Rightarrow> (string, LockDefinition) gomap \<Rightarrow> go_err"
where
  "ValidateCompositeDefinition def definitionsByID =
     (case requireCompositeDefinitionID def of
        Some e \<Rightarrow> Some e
      | None \<Rightarrow>
          if cd_Members def = []
          then validation_error ''composite definition must include at least one member''
          else if cd_OrderingPolicy def \<noteq> OrderingCanonical
          then validation_error ''composite definition must use canonical ordering in phase 2''
          else if cd_AcquirePolicy def \<noteq> AcquireAllOrNothing
          then validation_error ''composite definition must use all_or_nothing acquire policy in phase 2''
          else if cd_EscalationPolicy def \<noteq> EscalationReject
          then validation_error ''composite definition must use reject escalation policy in phase 2''
          else if cd_ModeResolution def \<noteq> ModeResolutionHomogeneous
          then validation_error ''composite definition must use homogeneous mode resolution in phase 2''
          else if cd_MaxMemberCount def \<le> 0
          then validation_error ''composite definition max member count must be positive''
          else if cd_MaxMemberCount def < int (length (cd_Members def))
          then validation_error ''composite definition exceeds max member count''
          else validate_members definitionsByID None False (cd_Members def))"

definition validate_definition_entry ::
  "(string, LockDefinition) gomap \<Rightarrow> LockDefinition \<Rightarrow> go_err"
where
  "validate_definition_entry defByID def =
     (case ValidateDefinition def of
        Some e \<Rightarrow> Some (Errorf ''definition %q: %w'' [ld_ID def] [e])
      | None \<Rightarrow>
          (case ValidateDefinitionAgainstRegistry def defByID of
             Some e \<Rightarrow> Some (Errorf ''definition %q: %w'' [ld_ID def] [e])
           | None \<Rightarrow> None))"

definition validate_composite_entry ::
  "(string, LockDefinition) gomap \<Rightarrow> CompositeDefinition \<Rightarrow> go_err"
where
  "validate_composite_entry defByID composite =
     (case ValidateCompositeDefinition composite defByID of
        Some e \<Rightarrow> Some (Errorf ''composite definition %q: %w'' [cd_ID composite] [e])
      | None \<Rightarrow> None)"

fun first_failure :: "('a \<Rightarrow> go_err) \<Rightarrow> 'a list \<Rightarrow> go_err" where
  "first_failure f [] = None"
| "first_failure f (x # xs) = (case f x of Some e \<Rightarrow> Some e | None \<Rightarrow> first_failure f xs)"

definition Validate :: "Registry \<Rightarrow> go_err" where
  "Validate r =
     (let defs = map snd (rg_definitions r);
          defByID = fold (\<lambda>d m. mput (ld_ID d) d m) defs []
      in case first_failure (validate_definition_entry defByID) defs of
           Some e \<Rightarrow> Some e
         | None \<Rightarrow> first_failure (validate_composite_entry defByID) (map snd (rg_composites r)))"

section \<open>Capabilities a registry demands\<close>

definition indexChildrenByParent :: "LockDefinition list \<Rightarrow> (string, string list) gomap" where
  "indexChildrenByParent defs =
     fold (\<lambda>def out.
       let parentID = trim_space (ld_ParentRef def) in
       if parentID = [] then out
       else mput parentID ((case mget out parentID of None \<Rightarrow> [] | Some ids \<Rightarrow> ids) @ [ld_ID def]) out)
     defs []"

definition definitionUsesLineage :: "(string, string list) gomap \<Rightarrow> LockDefinition \<Rightarrow> bool" where
  "definitionUsesLineage childrenByParent def \<longleftrightarrow>
     trim_space (ld_ParentRef def) \<noteq> [] \<or>
     (case mget childrenByParent (ld_ID def) of None \<Rightarrow> False | Some ids \<Rightarrow> 0 < length ids)"

definition RequiresLineageDriver :: "Registry \<Rightarrow> bool" where
  "RequiresLineageDriver r =
     (let defs = Registry_Definitions r in list_ex (definitionUsesLineage (indexChildrenByParent defs)) defs)"

definition RequiresStrictRuntimeDriver :: "Registry \<Rightarrow> bool" where
  "RequiresStrictRuntimeDriver r =
     list_ex (\<lambda>d. ld_Mode d = ModeStrict
       \<and> (ld_ExecutionKind d = ExecutionSync \<or> ld_ExecutionKind d = ExecutionBoth)) (Registry_Definitions r)"

definition RequiresStrictWorkerDriver :: "Registry \<Rightarrow> bool" where
  "RequiresStrictWorkerDriver r =
     list_ex (\<lambda>d. ld_Mode d = ModeStrict
       \<and> (ld_ExecutionKind d = ExecutionAsync \<or> ld_ExecutionKind d = ExecutionBoth)) (Registry_Definitions r)"


section \<open>The registry invariant\<close>

text \<open>
  Every definition is filed under its own id, ids are not blank, and a lock definition and a
  composite never share an id.
\<close>

definition reg_inv :: "Registry \<Rightarrow> bool" where
  "reg_inv r \<longleftrightarrow> map_ok (rg_definitions r) \<and> map_ok (rg_composites r)
     \<and> (\<forall>k d. mget (rg_definitions r) k = Some d \<longrightarrow> ld_ID d = k \<and> trim_space k \<noteq> [])
     \<and> (\<forall>k d. mget (rg_composites r) k = Some d \<longrightarrow> cd_ID d = k \<and> trim_space k \<noteq> [])
     \<and> (\<forall>k. mget (rg_definitions r) k = None \<or> mget (rg_composites r) k = None)"

lemma reg_inv_New: "reg_inv NewRegistry"
  by (simp add: reg_inv_def NewRegistry_def)

lemma reg_inv_ID: "reg_inv r \<Longrightarrow> mget (rg_definitions r) k = Some d \<Longrightarrow> ld_ID d = k"
  by (simp add: reg_inv_def)

lemma Register_inv: "reg_inv r \<Longrightarrow> reg_inv (fst (Register r def))"
  by (auto simp: Register_def reg_inv_def requireDefinitionID_def validation_error_def)

lemma RegisterComposite_inv: "reg_inv r \<Longrightarrow> reg_inv (fst (RegisterComposite r def))"
  by (auto simp: RegisterComposite_def reg_inv_def requireCompositeDefinitionID_def validation_error_def)

text \<open>
  Registration. Both registration methods keep the registry invariant. A registration that
  reports no error stores exactly the new definition, where \<^verbatim>\<open>Get\<close> finds it; one that reports an
  error changes nothing; and an id that is in use, by a lock or a composite, is always refused.
\<close>

theorem register_correct:
  assumes "reg_inv r" and "Register r def = (r', err)"
  shows "reg_inv r'
    \<and> (err = None \<longleftrightarrow> trim_space (ld_ID def) \<noteq> [] \<and> Get r (ld_ID def) = None \<and> GetComposite r (ld_ID def) = None)
    \<and> (err = None \<longrightarrow> Get r' = (Get r)(ld_ID def \<mapsto> def) \<and> GetComposite r' = GetComposite r)
    \<and> (err \<noteq> None \<longrightarrow> r' = r)"
  using Register_inv[OF assms(1), of def] assms(2)
  by (auto simp: Register_def requireDefinitionID_def validation_error_def Get_def GetComposite_def fun_eq_iff
      split: if_splits)

theorem register_correct_witness:
  "Get (fst (Register NewRegistry (ex_def ''order'' 1))) ''order'' = Some (ex_def ''order'' 1)"
proof -
  have "trim_space ''order'' \<noteq> []" by (simp add: trim_space_visible visible_def)
  moreover have "Get NewRegistry ''order'' = None" "GetComposite NewRegistry ''order'' = None" by code_simp+
  ultimately show ?thesis
    using register_correct[OF reg_inv_New surjective_pairing, of "ex_def ''order'' 1"] by simp
qed

section \<open>What validation guarantees\<close>

lemma first_failure_None: "first_failure f xs = None \<longleftrightarrow> (\<forall>x\<in>set xs. f x = None)"
  by (induction xs) (auto split: option.split)

lemma fold_by_ID:
  assumes "map_ok xs" and "\<forall>(k, d) \<in> set xs. ld_ID d = k"
  shows "mget (fold (\<lambda>d m. mput (ld_ID d) d m) (map snd xs) acc) k =
    (case mget xs k of Some v \<Rightarrow> Some v | None \<Rightarrow> mget acc k)"
  using assms
proof (induction xs arbitrary: acc)
  case (Cons x xs)
  obtain k' d where x: "x = (k', d)" by (cases x)
  with Cons.prems have "ld_ID d = k'" "k' \<notin> fst ` set xs" by auto
  then have "mget xs k' = None" by (simp add: map_of_eq_None_iff)
  with Cons x \<open>ld_ID d = k'\<close> show ?case by (auto split: option.split)
qed simp

lemma defByID_eq:
  assumes "reg_inv r"
  shows "mget (fold (\<lambda>d m. mput (ld_ID d) d m) (map snd (rg_definitions r)) []) = mget (rg_definitions r)"
proof -
  have m: "map_ok (rg_definitions r)" using assms by (simp add: reg_inv_def)
  moreover have "ld_ID d = k" if "(k, d) \<in> set (rg_definitions r)" for k d
    using assms map_of_is_SomeI[OF m that] by (simp add: reg_inv_ID)
  ultimately show ?thesis by (intro ext) (subst fold_by_ID, auto split: option.split)
qed

text \<open>What a validated parent chain looks like.\<close>

definition lineage_wf :: "(string, LockDefinition) gomap \<Rightarrow> LockDefinition \<Rightarrow> LockDefinition list \<Rightarrow> bool" where
  "lineage_wf ds d ps \<longleftrightarrow> chain ds d ps \<and> distinct (map ld_ID (d # ps))
     \<and> (\<forall>x\<in>set ps. ld_Mode x = ModeStandard)
     \<and> (ps \<noteq> [] \<longrightarrow> ld_Mode d = ModeStandard \<and> (\<exists>md. TemplateMetadata (ld_KeyBuilder d) = Some md
          \<and> (\<forall>p\<in>set ps. \<exists>pmd. TemplateMetadata (ld_KeyBuilder p) = Some pmd
               \<and> prefix (tm_Template pmd) (tm_Template md) \<and> set (tm_Fields pmd) \<subseteq> set (tm_Fields md))))"


lemma validateLineageChain_wf:
  assumes "validateLineageChain d ds visited = None" and "mget ds (ld_ID d) = Some d"
    and "\<forall>k v. mget ds k = Some v \<longrightarrow> ld_ID v = k \<and> trim_space (ld_ParentRef v) = ld_ParentRef v"
    and "\<forall>i\<in>set visited. \<exists>v. mget ds i = Some v \<and> ld_ParentRef v \<noteq> []"
  shows "\<exists>ps. lineage_wf ds d ps \<and> set (map ld_ID (d # ps)) \<inter> set visited = {}"
  using assms
proof (induction d ds visited rule: validateLineageChain.induct)
  case (1 d ds visited)
  have tr: "trim_space (ld_ParentRef d) = ld_ParentRef d" using 1(3,4) by blast
  show ?case
  proof (cases "ld_ParentRef d = []")
    case True
    then have "ld_ID d \<notin> set visited" using 1(3,5) by auto
    moreover have "lineage_wf ds d []" using True by (simp add: lineage_wf_def chain.root)
    ultimately show ?thesis by (intro exI[of _ "[]"]) simp
  next
    case False
    note v = 1(2)[unfolded validateLineageChain.simps[of d ds visited] tr Let_def if_not_P[OF False]]
    then obtain p where p: "mget ds (ld_ParentRef d) = Some p" "ld_ID d \<notin> set visited"
        "ld_Mode d = ModeStandard" "ld_Mode p = ModeStandard" "ld_OverlapPolicy d = OverlapReject"
        "validateLineageChain p ds (ld_ID d # visited) = None"
      by (auto simp: validation_error_def split: if_splits option.splits)
    from v p obtain md pmd where md: "TemplateMetadata (ld_KeyBuilder d) = Some md"
        "TemplateMetadata (ld_KeyBuilder p) = Some pmd" "prefix (tm_Template pmd) (tm_Template md)"
        "set (tm_Fields pmd) \<subseteq> set (tm_Fields md)"
      by (auto simp: validation_error_def fieldsContain_def list_all_iff split: if_splits option.splits)
    have "\<exists>ps. lineage_wf ds p ps \<and> set (map ld_ID (p # ps)) \<inter> set (ld_ID d # visited) = {}"
    proof (rule 1(1)[OF tr[symmetric] False p(2) p(1)])
      show "\<not> (ld_Mode d \<noteq> ModeStandard \<or> ld_Mode p \<noteq> ModeStandard)" "\<not> ld_OverlapPolicy d \<noteq> OverlapReject"
        using p by simp_all
      show "validateLineageChain p ds (ld_ID d # visited) = None" by (fact p(6))
      show "mget ds (ld_ID p) = Some p" using p(1) 1(4) by metis
      show "\<forall>i\<in>set (ld_ID d # visited). \<exists>v. mget ds i = Some v \<and> ld_ParentRef v \<noteq> []"
        using 1(3,5) False by auto
    qed (fact 1(4))
    then obtain ps where ps: "lineage_wf ds p ps" "set (map ld_ID (p # ps)) \<inter> set (ld_ID d # visited) = {}"
      by blast
    have "\<exists>xmd. TemplateMetadata (ld_KeyBuilder x) = Some xmd \<and> prefix (tm_Template xmd) (tm_Template md)
        \<and> set (tm_Fields xmd) \<subseteq> set (tm_Fields md)" if "x \<in> set (p # ps)" for x
    proof (cases "x = p")
      case True
      then show ?thesis using md by blast
    next
      case False
      then have "x \<in> set ps" using that by simp
      then obtain xmd where "TemplateMetadata (ld_KeyBuilder x) = Some xmd"
          "prefix (tm_Template xmd) (tm_Template pmd)" "set (tm_Fields xmd) \<subseteq> set (tm_Fields pmd)"
        using ps(1) md(2) by (fastforce simp: lineage_wf_def)
      then show ?thesis using md(3,4) by (metis prefix_order.trans order_trans)
    qed
    moreover have "chain ds d (p # ps)" using False p(1) ps(1) by (auto simp: lineage_wf_def intro: chain.step)
    ultimately have "lineage_wf ds d (p # ps)"
      using ps p md(1) by (auto simp: lineage_wf_def)
    then show ?thesis using ps(2) p(2) by (intro exI[of _ "p # ps"]) auto
  qed
qed


lemma chain_cong: "chain ds d ps \<Longrightarrow> mget ds = mget ds' \<Longrightarrow> chain ds' d ps"
  by (induction rule: chain.induct) (auto intro: chain.intros)

lemma template_build_ok:
  "(\<exists>key. build_key (Some (template_builder t)) (Some inp) = Inr key) \<longleftrightarrow>
   (\<forall>f\<in>set (tk_fields t). mget inp f \<noteq> None)"
proof (cases "length (tk_fields t) = 1")
  case True
  then obtain f where "tk_fields t = [f]" by (cases "tk_fields t") auto
  then show ?thesis
    by (auto simp: build_key_def template_builder_def templateKeyBuilder_Build_def split: option.split)
next
  case False
  then show ?thesis
    by (simp add: build_key_def template_builder_def templateKeyBuilder_Build_def lookup_fields_eq)
qed

lemma ancestor_keys_total:
  assumes "\<forall>p\<in>set ps. \<exists>key. build_key (ld_KeyBuilder p) input = Inr key"
  shows "\<exists>as. ancestor_keys input ps = Inr as \<and> map ak_DefinitionID as = map ld_ID ps
    \<and> list_all2 (\<lambda>a p. build_key (ld_KeyBuilder p) input = Inr (ak_ResourceKey a)) as ps"
  using assms by (induction ps) auto

lemma Validate_entry:
  assumes "reg_inv r" and "Validate r = None" and "Get r i = Some d"
  shows "ValidateDefinition d = None"
    and "\<exists>ds. mget ds = mget (rg_definitions r) \<and> ValidateDefinitionAgainstRegistry d ds = None"
proof -
  let ?ds = "fold (\<lambda>d m. mput (ld_ID d) d m) (map snd (rg_definitions r)) []"
  have "d \<in> set (map snd (rg_definitions r))" using assms(3) by (force simp: Get_def dest: map_of_SomeD)
  moreover have "first_failure (validate_definition_entry ?ds) (map snd (rg_definitions r)) = None"
    using assms(2) by (simp add: Validate_def Let_def split: option.splits)
  ultimately have "validate_definition_entry ?ds d = None" by (auto simp: first_failure_None)
  then show "ValidateDefinition d = None"
    and "\<exists>ds. mget ds = mget (rg_definitions r) \<and> ValidateDefinitionAgainstRegistry d ds = None"
    using defByID_eq[OF assms(1)]
    by (auto simp: validate_definition_entry_def split: option.splits)
qed

lemma validated_chain:
  assumes "reg_inv r" and "Validate r = None" and "Get r i = Some d" and "ld_Kind d = KindChild"
    and "\<forall>k v. Get r k = Some v \<longrightarrow> trim_space (ld_ParentRef v) = ld_ParentRef v"
  shows "ld_ParentRef d \<noteq> [] \<and> (\<exists>ps. lineage_wf (rg_definitions r) d ps)"
proof -
  obtain ds where ds: "mget ds = mget (rg_definitions r)" "ValidateDefinitionAgainstRegistry d ds = None"
    using Validate_entry[OF assms(1-3)] by blast
  have par: "ld_ParentRef d \<noteq> []" and v: "validateLineageChain d ds [] = None"
    using ds(2) assms(3-5) by (auto simp: ValidateDefinitionAgainstRegistry_def split: if_splits)
  have "\<exists>ps. lineage_wf ds d ps \<and> set (map ld_ID (d # ps)) \<inter> set [] = {}"
    using v by (rule validateLineageChain_wf)
      (use assms(1,3,5) ds(1) reg_inv_ID in \<open>auto simp: Get_def\<close>)
  then show ?thesis using par ds(1) by (auto simp: lineage_wf_def dest: chain_cong)
qed

text \<open>
  C15. Validation makes lineage resolvable. In a validated registry whose parent references carry no
  surrounding white space and whose builders are templates, resolving the ancestors of a registered
  child definition always succeeds when the child's own key can be built: there is no missing
  parent, no cycle and no missing field, and the result lists every ancestor exactly once, from the
  root down to the immediate parent, each with the key its own builder makes of the same input.
\<close>

theorem validated_lineage_resolves:
  assumes "reg_inv r" and "Validate r = None" and "Get r i = Some d" and "ld_Kind d = KindChild"
    and "\<forall>k v. Get r k = Some v \<longrightarrow> trim_space (ld_ParentRef v) = ld_ParentRef v
           \<and> (\<exists>t. ld_KeyBuilder v = Some (template_builder t))"
    and "build_key (ld_KeyBuilder d) (Some inp) = Inr key"
  shows "\<exists>ps as. chain (rg_definitions r) d ps \<and> ps \<noteq> [] \<and> distinct (map ld_ID (d # ps))
    \<and> resolveAncestors d (rg_definitions r) (Some inp) = Inr as
    \<and> map ak_DefinitionID as = map ld_ID (rev ps)
    \<and> list_all2 (\<lambda>a p. build_key (ld_KeyBuilder p) (Some inp) = Inr (ak_ResourceKey a)) as (rev ps)"
proof -
  let ?ds = "rg_definitions r"
  from validated_chain[OF assms(1-4)] assms(5) obtain ps where par: "ld_ParentRef d \<noteq> []"
    and wf: "lineage_wf ?ds d ps" by blast
  then have ch: "chain ?ds d ps" and dist: "distinct (map ld_ID (d # ps))" by (simp_all add: lineage_wf_def)
  from ch par have ne: "ps \<noteq> []" by (auto elim: chain_NilE)
  have reg: "\<exists>k. Get r k = Some p" if "p \<in> set ps" for p
    using ch that by (induction rule: chain.induct) (auto simp: Get_def)
  obtain t where t: "ld_KeyBuilder d = Some (template_builder t)" using assms(3,5) by blast
  have fields: "\<forall>f\<in>set (tk_fields t). mget inp f \<noteq> None" using template_build_ok[of t inp] assms(6) t by auto
  have "\<exists>key. build_key (ld_KeyBuilder p) (Some inp) = Inr key" if pin: "p \<in> set ps" for p
  proof -
    obtain u where u: "ld_KeyBuilder p = Some (template_builder u)" using reg[OF pin] assms(5) by blast
    have "set (tk_fields u) \<subseteq> set (tk_fields t)"
      using wf ne pin t u by (fastforce simp: lineage_wf_def TemplateMetadata_def template_builder_def
          templateKeyBuilder_TemplateMetadata_def)
    then show ?thesis unfolding u template_build_ok using fields by blast
  qed
  then obtain as where as: "ancestor_keys (Some inp) ps = Inr as" "map ak_DefinitionID as = map ld_ID ps"
    "list_all2 (\<lambda>a p. build_key (ld_KeyBuilder p) (Some inp) = Inr (ak_ResourceKey a)) as ps"
    using ancestor_keys_total[of ps "Some inp"] by blast
  have "climb (ld_ID d) ?ds (Some inp) [ld_ID d] [] (ld_ParentRef d) = Inr as"
    using climb_chain[OF ch, of "[ld_ID d]"] dist as(1) assms(1) by (simp add: reg_inv_ID)
  then have "resolveAncestors d ?ds (Some inp) = Inr (rev as)"
    using par assms(4) by (simp add: resolveAncestors_def)
  then show ?thesis using ch ne dist as
    by (intro exI[of _ ps] exI[of _ "rev as"]) (simp add: rev_map[symmetric])
qed


definition ex_parent_key :: templateKeyBuilder where
  "ex_parent_key = \<lparr>tk_template = ''order:{id}'', tk_fields = [''id''], tk_placeholders = [''{id}''],
     tk_segments = [Literal ''order:'', Field 0, Literal []]\<rparr>"

definition ex_child_key :: templateKeyBuilder where
  "ex_child_key = \<lparr>tk_template = ''order:{id}:item:{n}'', tk_fields = [''id'', ''n''],
     tk_placeholders = [''{id}'', ''{n}''],
     tk_segments = [Literal ''order:'', Field 0, Literal '':item:'', Field 1, Literal []]\<rparr>"

lemma ex_keys:
  "NewTemplateKeyBuilder ''order:{id}'' [''id''] = Inr ex_parent_key"
  "NewTemplateKeyBuilder ''order:{id}:item:{n}'' [''id'', ''n''] = Inr ex_child_key"
  by code_simp+

definition ex_parent :: LockDefinition where
  "ex_parent = (ex_def ''order'' 1)\<lparr>ld_KeyBuilder := Some (template_builder ex_parent_key)\<rparr>"

definition ex_child :: LockDefinition where
  "ex_child = (ex_def ''item'' 2)\<lparr>ld_Kind := KindChild, ld_ParentRef := ''order'',
     ld_KeyBuilder := Some (template_builder ex_child_key)\<rparr>"

definition ex_registry :: Registry where
  "ex_registry = fst (Register (fst (Register NewRegistry ex_parent)) ex_child)"

lemma ex_parent_ID: "ld_ID ex_parent = ''order''" and ex_child_ID: "ld_ID ex_child = ''item''"
  by (simp_all add: ex_parent_def ex_child_def)

lemma ex_registry_inv: "reg_inv ex_registry"
  by (simp add: ex_registry_def Register_inv reg_inv_New)

lemma ex_registry_eq:
  "ex_registry = \<lparr>rg_definitions = [(''order'', ex_parent), (''item'', ex_child)], rg_composites = []\<rparr>"
proof -
  have "trim_space ''order'' \<noteq> []" "trim_space ''item'' \<noteq> []"
    by (simp_all add: trim_space_visible visible_def)
  then show ?thesis
    by (simp add: ex_registry_def Register_def requireDefinitionID_def NewRegistry_def ex_parent_def ex_child_def)
qed

lemma ex_registry_defs: "rg_definitions ex_registry = [(''order'', ex_parent), (''item'', ex_child)]"
  by (simp add: ex_registry_eq)

lemma ex_registry_valid: "Validate ex_registry = None"
proof -
  have "ValidateDefinition ex_parent = None" "ValidateDefinition ex_child = None"
    by (simp_all add: ValidateDefinition_def definitionValidations_def requireDefinitionID_def
        requireDefinitionResource_def requireKeyBuilder_def requireStrictFencing_def
        requireStrictFailClosed_def requireStrictAsyncIdempotency_def ex_parent_def ex_child_def
        ex_def_def trim_space_visible visible_def)
  moreover have "ValidateDefinitionAgainstRegistry ex_parent [(''order'', ex_parent), (''item'', ex_child)] = None"
    by (simp add: ValidateDefinitionAgainstRegistry_def ex_parent_def ex_def_def)
  moreover have "ValidateDefinitionAgainstRegistry ex_child [(''order'', ex_parent), (''item'', ex_child)] = None"
    by (simp add: ValidateDefinitionAgainstRegistry_def validateLineageChain.simps ex_parent_def ex_child_def
        ex_def_def trim_space_visible visible_def TemplateMetadata_def template_builder_def
        templateKeyBuilder_TemplateMetadata_def ex_parent_key_def ex_child_key_def fieldsContain_def)
  ultimately show ?thesis
    by (simp add: ex_registry_eq Validate_def validate_definition_entry_def ex_parent_ID ex_child_ID)
qed

theorem validated_lineage_resolves_witness:
  "\<exists>as. resolveAncestors ex_child (rg_definitions ex_registry) (Some [(''id'', ''1''), (''n'', ''2'')]) = Inr as
     \<and> map ak_DefinitionID as = [''order'']"
proof -
  have v: "Validate ex_registry = None" by (rule ex_registry_valid)
  have g: "Get ex_registry ''item'' = Some ex_child" by (simp add: Get_def ex_registry_defs)
  have k: "ld_Kind ex_child = KindChild" by (simp add: ex_child_def)
  have b: "build_key (ld_KeyBuilder ex_child) (Some [(''id'', ''1''), (''n'', ''2'')]) = Inr ''order:1:item:2''"
    by code_simp
  have t: "trim_space ''order'' = ''order''" by (simp add: trim_space_visible visible_def)
  have "\<forall>k v. Get ex_registry k = Some v \<longrightarrow> trim_space (ld_ParentRef v) = ld_ParentRef v
           \<and> (\<exists>t. ld_KeyBuilder v = Some (template_builder t))"
    using t by (auto simp: Get_def ex_registry_defs ex_parent_def ex_child_def ex_def_def split: if_splits)
  from validated_lineage_resolves[OF ex_registry_inv v g k this b] obtain ps as where
    *: "chain (rg_definitions ex_registry) ex_child ps"
      "resolveAncestors ex_child (rg_definitions ex_registry) (Some [(''id'', ''1''), (''n'', ''2'')]) = Inr as"
      "map ak_DefinitionID as = map ld_ID (rev ps)" by blast
  have "chain (rg_definitions ex_registry) ex_child [ex_parent]"
    by (intro chain.intros) (simp_all add: ex_registry_defs ex_child_def ex_parent_def ex_def_def)
  with *(1) have "ps = [ex_parent]" by (rule chain_det)
  with * show ?thesis by (simp add: ex_parent_def)
qed


text \<open>
  Two gaps between validation and resolution. Validation trims the parent reference and
  resolution does not, so a child whose reference has a leading blank is accepted and then cannot
  resolve its parent; and a definition of kind parent that names a parent itself is accepted without
  any lineage check and then refused on every acquire.
\<close>

theorem validation_gap_parent_ref:
  "let spaced = ex_child\<lparr>ld_ParentRef := '' order''\<rparr>; misfit = ex_child\<lparr>ld_Kind := KindParent\<rparr>;
       ds = [(''order'', ex_parent), (''item'', spaced)]
   in ValidateDefinitionAgainstRegistry spaced ds = None
    \<and> resolveAncestors spaced ds (Some inp) =
        Inl (Errorf ''lineage: missing parent definition %q for %q'' ['' order'', ''item''] [])
    \<and> ValidateDefinitionAgainstRegistry misfit ds = None
    \<and> resolveAncestors misfit ds (Some inp) =
        Inl (Errorf ''lineage: non-child definition %q must not set parent ref'' [''item''] [])"
proof -
  have sp: "trim_space '' order'' = ''order''" by code_simp
  show ?thesis
    by (simp add: Let_def ValidateDefinitionAgainstRegistry_def validateLineageChain.simps ex_parent_def
        ex_child_def ex_def_def sp TemplateMetadata_def template_builder_def resolveAncestors_def
        climb.simps templateKeyBuilder_TemplateMetadata_def ex_parent_key_def ex_child_key_def fieldsContain_def)
qed

end
