(* ===== verification/Runtime.thy ===== *)
theory Runtime
  imports Policy Engine_Registry Memory_Driver
begin

text \<open>
  The runtime manager (\<^verbatim>\<open>src/lockkit/runtime\<close>): synchronous execution of a callback under one lock,
  several keys of one definition, or the members of a composite, with the reentrancy guard, the
  active-lock counters and the in-flight count it keeps.

  The state a manager shares with its environment is a record \<open>'s world\<close>: the guard table, the
  counters, the shutdown flag, the driver state, the positions in the clock and in the random source,
  and the calls made to the recorder and the bridge. The clock and the random source are arguments
  (\<open>Env\<close>): the \<open>n\<close>-th reading of \<^verbatim>\<open>time.Now()\<close> is \<open>env_clock e n\<close>. So is the scheduler of the renewal
  loops a worker stops (\<open>env_late\<close>, used in theory \<open>Workers\<close>). The caller's callback is a function
  on the world: whatever it does, and whatever other goroutines do to the shared state while it
  runs, is one argument of the model. A callback that panics is not modelled.
\<close>

section \<open>State\<close>

record guardKey =
  gk_definitionID :: string
  gk_resourceKey :: string
  gk_ownerID :: string

datatype guardState = guardPending | guardHeld

record runtimeAcquirePlan =
  rp_resourceKey :: string
  rp_lineage :: "LineageLeaseMeta option"

record heldLease =
  hl_lease :: LeaseRecord
  hl_lineage :: "LineageLeaseMeta option"
  hl_fencingToken :: token

text \<open>The fields of \<^verbatim>\<open>observe.Event\<close> the runtime fills in.\<close>

record Event =
  ev_DefinitionID :: string
  ev_ResourceID :: string
  ev_OwnerID :: string
  ev_RequestID :: string
  ev_Wait :: duration
  ev_Held :: duration

datatype rt_call =
    RecordAcquire string duration bool
  | RecordContention string
  | RecordOverlapRejected string
  | RecordTimeout string
  | RecordActiveLocks string int
  | RecordRelease string duration
  | RecordPresenceCheck string duration
  | PublishRuntimeAcquireStarted Event
  | PublishRuntimeAcquireSucceeded Event
  | PublishRuntimeAcquireFailed Event go_error
  | PublishRuntimeContention Event
  | PublishRuntimeOverlapRejected Event
  | PublishRuntimeReleased Event
  | PublishRuntimePresenceChecked Event
  | PublishRuntimeShutdownStarted
  | PublishRuntimeShutdownCompleted

record 's world =
  w_active :: "(guardKey, guardState) gomap"
  w_activeByDef :: "(string, int) gomap"
  w_shuttingDown :: bool
  w_inFlight :: int
  w_driver :: 's
  w_tick :: nat
  w_draw :: nat
  w_log :: "rt_call list"

record Env =
  env_clock :: "nat \<Rightarrow> time"
  env_rand :: "nat \<Rightarrow> string result"
  env_late :: "nat \<Rightarrow> nat option"

record 's Manager =
  mg_registry :: Registry
  mg_driver :: "'s Driver"
  mg_bridge :: bool
  mg_lineageDefs :: "(string, bool) gomap"
  mg_cachedDefsByID :: "(string, LockDefinition) gomap"

section \<open>Construction\<close>

definition children_index :: "LockDefinition list \<Rightarrow> (string, string list) gomap" where
  "children_index defs =
     fold (\<lambda>def out.
       if ld_ParentRef def = [] then out
       else mput (ld_ParentRef def)
              ((case mget out (ld_ParentRef def) of None \<Rightarrow> [] | Some ids \<Rightarrow> ids) @ [ld_ID def]) out)
     defs []"

definition NewManager :: "Registry \<Rightarrow> 's Driver option \<Rightarrow> bool \<Rightarrow> 's Manager result" where
  "NewManager reg driver bridge =
     (case Validate reg of
        Some e \<Rightarrow> Inl (Errorf ''%w: %v'' [] [Sentinel ErrRegistryViolation])
      | None \<Rightarrow>
          (case driver of
             None \<Rightarrow> Inl (Sentinel ErrPolicyViolation)
           | Some D \<Rightarrow>
               if RequiresLineageDriver reg \<and> as_LineageDriver D = None then Inl (Sentinel ErrPolicyViolation)
               else if RequiresStrictRuntimeDriver reg \<and> as_StrictDriver D = None
               then Inl (Sentinel ErrPolicyViolation)
               else
                 let defs = Registry_Definitions reg;
                     defsByID = fold (\<lambda>d m. mput (ld_ID d) d m) defs [];
                     childrenByParent = children_index defs;
                     lineageDefs = fold (\<lambda>d m. mput (ld_ID d)
                       (ld_ParentRef d \<noteq> [] \<or>
                        (case mget childrenByParent (ld_ID d) of None \<Rightarrow> False | Some ids \<Rightarrow> 0 < length ids)) m)
                       defs []
                 in Inr \<lparr>mg_registry = reg, mg_driver = D, mg_bridge = bridge, mg_lineageDefs = lineageDefs,
                         mg_cachedDefsByID = defsByID\<rparr>))"

text \<open>The world of a manager that has just been built on a driver in state \<open>s\<close>.\<close>

definition new_world :: "'s \<Rightarrow> 's world" where
  "new_world s = \<lparr>w_active = [], w_activeByDef = [], w_shuttingDown = False, w_inFlight = 0,
     w_driver = s, w_tick = 0, w_draw = 0, w_log = []\<rparr>"

section \<open>Clock, observers, counters\<close>

definition time_now :: "Env \<Rightarrow> 's world \<Rightarrow> time \<times> 's world" where
  "time_now e w = (env_clock e (w_tick w), w\<lparr>w_tick := Suc (w_tick w)\<rparr>)"

definition record_call :: "rt_call \<Rightarrow> 's world \<Rightarrow> 's world" where
  "record_call c w = w\<lparr>w_log := w_log w @ [c]\<rparr>"

definition publish :: "'s Manager \<Rightarrow> rt_call \<Rightarrow> 's world \<Rightarrow> 's world" where
  "publish m c w = (if mg_bridge m then record_call c w else w)"

definition active_count :: "'s world \<Rightarrow> string \<Rightarrow> int" where
  "active_count w d = (case mget (w_activeByDef w) d of None \<Rightarrow> 0 | Some n \<Rightarrow> n)"

definition add_active :: "string \<Rightarrow> int \<Rightarrow> 's world \<Rightarrow> 's world" where
  "add_active d n w = w\<lparr>w_activeByDef := mput d (active_count w d + n) (w_activeByDef w)\<rparr>"

definition recordActiveLocks :: "string \<Rightarrow> 's world \<Rightarrow> 's world" where
  "recordActiveLocks d w = record_call (RecordActiveLocks d (active_count w d)) w"

text \<open>One call of a driver method: the driver reads the clock itself.\<close>

definition call_driver :: "Env \<Rightarrow> (time \<Rightarrow> 's \<Rightarrow> 's \<times> 'r) \<Rightarrow> 's world \<Rightarrow> 's world \<times> 'r" where
  "call_driver e f w =
     (let (t, w1) = time_now e w; (s, r) = f t (w_driver w1) in (w1\<lparr>w_driver := s\<rparr>, r))"

section \<open>In-flight admission\<close>

definition releaseInFlightExecution :: "'s world \<Rightarrow> 's world" where
  "releaseInFlightExecution w = w\<lparr>w_inFlight := w_inFlight w - 1\<rparr>"

definition tryAdmitInFlightExecution :: "'s world \<Rightarrow> 's world \<times> bool" where
  "tryAdmitInFlightExecution w =
     (if w_shuttingDown w then (w, False)
      else let w1 = w\<lparr>w_inFlight := w_inFlight w + 1\<rparr> in
        if w_shuttingDown w1 then (releaseInFlightExecution w1, False) else (w1, True))"

section \<open>Wait configuration\<close>

record waitConfig =
  wc_timeout :: duration
  wc_explicit :: bool

definition applyRuntimeOverrides :: "LockDefinition \<Rightarrow> RuntimeOverrides option \<Rightarrow> waitConfig result" where
  "applyRuntimeOverrides def overrides =
     (let cfg = \<lparr>wc_timeout = ld_WaitTimeout def, wc_explicit = False\<rparr> in
      case overrides of
        None \<Rightarrow> Inr cfg
      | Some ov \<Rightarrow>
          if ro_MaxRetries ov \<noteq> None then Inl (Sentinel ErrPolicyViolation)
          else case ro_WaitTimeout ov of
            None \<Rightarrow> Inr cfg
          | Some wait \<Rightarrow>
              if wait < 0 then Inl (Sentinel ErrPolicyViolation)
              else if 0 < ld_WaitTimeout def \<and> ld_WaitTimeout def < wait then Inl (Sentinel ErrPolicyViolation)
              else Inr \<lparr>wc_timeout = wait, wc_explicit = True\<rparr>)"

definition mapAcquireError :: "go_error \<Rightarrow> go_error" where
  "mapAcquireError err =
     (if errors_is err ErrOverlapRejected then Sentinel ErrOverlapRejected
      else if errors_is err ErrLeaseAlreadyHeld then Sentinel ErrLockBusy
      else if errors_is err ContextDeadlineExceeded then Sentinel ErrLockAcquireTimeout
      else err)"

definition contextWithAcquireTimeout :: "Env \<Rightarrow> go_ctx \<Rightarrow> waitConfig \<Rightarrow> 's world \<Rightarrow> go_ctx \<times> 's world" where
  "contextWithAcquireTimeout e ctx cfg w =
     (if wc_timeout cfg \<le> 0
      then (if wc_explicit cfg
            then let (t, w1) = time_now e w in (with_deadline ctx t, w1)
            else (ctx, w))
      else
        let (t, w1) = time_now e w; deadline = t + wc_timeout cfg in
        case ctx_deadline ctx of
          Some ctxDeadline \<Rightarrow>
            if \<not> deadline < ctxDeadline then (ctx, w1) else (with_deadline ctx deadline, w1)
        | None \<Rightarrow> (with_deadline ctx deadline, w1))"

section \<open>Acquiring and releasing a lease\<close>

definition buildAcquirePlan ::
  "'s Manager \<Rightarrow> Env \<Rightarrow> LockDefinition \<Rightarrow> string \<Rightarrow> key_input \<Rightarrow> 's world \<Rightarrow> 's world \<times> runtimeAcquirePlan result"
where
  "buildAcquirePlan m e def resourceKey input w =
     (if mget (mg_lineageDefs m) (ld_ID def) \<noteq> Some True
      then (if resourceKey \<noteq> [] then (w, Inr \<lparr>rp_resourceKey = resourceKey, rp_lineage = None\<rparr>)
            else case build_key (ld_KeyBuilder def) input of
              Inl err \<Rightarrow> (w, Inl err)
            | Inr key \<Rightarrow> (w, Inr \<lparr>rp_resourceKey = key, rp_lineage = None\<rparr>))
      else
        let r = ResolveAcquirePlan def (mg_cachedDefsByID m) input (env_rand e (w_draw w));
            w1 = w\<lparr>w_draw := Suc (w_draw w)\<rparr>
        in case r of
             Inl err \<Rightarrow> (w1, Inl err)
           | Inr plan \<Rightarrow> (w1, Inr \<lparr>rp_resourceKey = ap_ResourceKey plan, rp_lineage = Some (LeaseMeta plan)\<rparr>))"

definition acquireLease ::
  "'s Manager \<Rightarrow> Env \<Rightarrow> go_ctx \<Rightarrow> LockDefinition \<Rightarrow> runtimeAcquirePlan \<Rightarrow> string \<Rightarrow> 's world
    \<Rightarrow> 's world \<times> heldLease result"
where
  "acquireLease m e ctx def plan ownerID w =
     (if ld_Mode def = ModeStrict
      then (if rp_lineage plan \<noteq> None then (w, Inl (Sentinel ErrPolicyViolation))
            else case as_StrictDriver (mg_driver m) of
              None \<Rightarrow> (w, Inl (Sentinel ErrPolicyViolation))
            | Some strictDriver \<Rightarrow>
                (case call_driver e (\<lambda>t s. AcquireStrict strictDriver ctx t s
                    \<lparr>sq_DefinitionID = ld_ID def, sq_ResourceKey = rp_resourceKey plan,
                     sq_OwnerID = ownerID, sq_LeaseTTL = ld_LeaseTTL def\<rparr>) w of
                   (w1, Inl err) \<Rightarrow> (w1, Inl err)
                 | (w1, Inr fenced) \<Rightarrow>
                     (w1, Inr \<lparr>hl_lease = fl_Lease fenced, hl_lineage = None,
                               hl_fencingToken = fl_FencingToken fenced\<rparr>)))
      else case rp_lineage plan of
        None \<Rightarrow>
          (case call_driver e (\<lambda>t s. Acquire (mg_driver m) ctx t s
              \<lparr>aq_DefinitionID = ld_ID def, aq_ResourceKeys = [rp_resourceKey plan],
               aq_OwnerID = ownerID, aq_LeaseTTL = ld_LeaseTTL def\<rparr>) w of
             (w1, Inl err) \<Rightarrow> (w1, Inl err)
           | (w1, Inr lease) \<Rightarrow> (w1, Inr \<lparr>hl_lease = lease, hl_lineage = None, hl_fencingToken = 0\<rparr>))
      | Some meta \<Rightarrow>
          (case as_LineageDriver (mg_driver m) of
             None \<Rightarrow> (w, Inl (Sentinel ErrPolicyViolation))
           | Some lineageDriver \<Rightarrow>
               (case call_driver e (\<lambda>t s. AcquireWithLineage lineageDriver ctx t s
                   \<lparr>lq_DefinitionID = ld_ID def, lq_ResourceKey = rp_resourceKey plan,
                    lq_OwnerID = ownerID, lq_LeaseTTL = ld_LeaseTTL def, lq_Lineage = meta\<rparr>) w of
                  (w1, Inl err) \<Rightarrow> (w1, Inl err)
                | (w1, Inr lease) \<Rightarrow>
                    (w1, Inr \<lparr>hl_lease = lease, hl_lineage = Some meta, hl_fencingToken = 0\<rparr>))))"

definition releaseLease ::
  "'s Manager \<Rightarrow> Env \<Rightarrow> go_ctx \<Rightarrow> heldLease \<Rightarrow> 's world \<Rightarrow> 's world \<times> go_err"
where
  "releaseLease m e ctx held w =
     (if 0 < hl_fencingToken held
      then (if hl_lineage held \<noteq> None then (w, Some (Sentinel ErrPolicyViolation))
            else case as_StrictDriver (mg_driver m) of
              None \<Rightarrow> (w, Some (Sentinel ErrPolicyViolation))
            | Some strictDriver \<Rightarrow>
                call_driver e (\<lambda>t s. ReleaseStrict strictDriver ctx t s (hl_lease held) (hl_fencingToken held)) w)
      else case hl_lineage held of
        None \<Rightarrow> call_driver e (\<lambda>t s. Release (mg_driver m) ctx t s (hl_lease held)) w
      | Some meta \<Rightarrow>
          (case as_LineageDriver (mg_driver m) of
             None \<Rightarrow> (w, Some (Sentinel ErrPolicyViolation))
           | Some lineageDriver \<Rightarrow>
               call_driver e (\<lambda>t s. ReleaseWithLineage lineageDriver ctx t s (hl_lease held) meta) w))"

definition recordAcquireFailure :: "string \<Rightarrow> go_error \<Rightarrow> 's world \<Rightarrow> 's world" where
  "recordAcquireFailure d err w =
     (let w1 = (if errors_is err ErrOverlapRejected then record_call (RecordOverlapRejected d) w else w);
          w2 = (if errors_is err ContextDeadlineExceeded then record_call (RecordTimeout d) w1 else w1)
      in if errors_is err ErrLeaseAlreadyHeld then record_call (RecordContention d) w2 else w2)"

definition recordBridgeAcquireFailure :: "Event \<Rightarrow> go_error \<Rightarrow> 's world \<Rightarrow> 's world" where
  "recordBridgeAcquireFailure re err w =
     (let w1 = (if errors_is err ErrLeaseAlreadyHeld then record_call (PublishRuntimeContention re) w else w)
      in if errors_is err ErrOverlapRejected then record_call (PublishRuntimeOverlapRejected re) w1 else w1)"


text \<open>
  The part the three execution methods share: derive the acquire context, publish the start, call the
  driver, record how long it took and how it ended. The error is the mapped one.
\<close>

definition acquire_event :: "string \<Rightarrow> string \<Rightarrow> OwnershipMeta \<Rightarrow> Event" where
  "acquire_event d key own =
     \<lparr>ev_DefinitionID = d, ev_ResourceID = key, ev_OwnerID = om_OwnerID own,
      ev_RequestID = om_RequestID own, ev_Wait = 0, ev_Held = 0\<rparr>"

definition timed_acquire ::
  "'s Manager \<Rightarrow> Env \<Rightarrow> go_ctx \<Rightarrow> waitConfig \<Rightarrow> LockDefinition \<Rightarrow> runtimeAcquirePlan \<Rightarrow> OwnershipMeta
    \<Rightarrow> 's world \<Rightarrow> 's world \<times> heldLease result"
where
  "timed_acquire m e ctx cfg def plan own w =
     (let (acquireCtx, w1) = contextWithAcquireTimeout e ctx cfg w;
          (start, w2) = time_now e w1;
          re = acquire_event (ld_ID def) (rp_resourceKey plan) own;
          w3 = publish m (PublishRuntimeAcquireStarted re) w2;
          (w4, r) = acquireLease m e acquireCtx def plan (om_OwnerID own) w3;
          (stop, w5) = time_now e w4;
          re' = re\<lparr>ev_Wait := stop - start\<rparr>;
          w6 = record_call (RecordAcquire (ld_ID def) (stop - start) (\<not> isl r)) w5
      in case r of
           Inl err \<Rightarrow>
             (let w7 = recordAcquireFailure (ld_ID def) err w6;
                  w8 = (if mg_bridge m
                        then recordBridgeAcquireFailure re' err (record_call (PublishRuntimeAcquireFailed re' err) w7)
                        else w7)
              in (w8, Inl (mapAcquireError err)))
         | Inr held \<Rightarrow> (publish m (PublishRuntimeAcquireSucceeded re') w6, Inr held))"

text \<open>The deferred release of one lease, which joins a release error to the result.\<close>

definition release_held ::
  "'s Manager \<Rightarrow> Env \<Rightarrow> string \<Rightarrow> string \<Rightarrow> OwnershipMeta \<Rightarrow> heldLease \<Rightarrow> 's world \<times> go_err \<Rightarrow> 's world \<times> go_err"
where
  "release_held m e d key own held = (\<lambda>(w, ret).
     let (t, w1) = time_now e w;
         heldFor = t - lr_AcquiredAt (hl_lease held);
         w2 = record_call (RecordRelease d heldFor) w1;
         w3 = publish m (PublishRuntimeReleased ((acquire_event d key own)\<lparr>ev_Held := heldFor\<rparr>)) w2;
         (w4, releaseErr) = releaseLease m e background held w3
     in (w4, case releaseErr of None \<Rightarrow> ret | Some err \<Rightarrow> join_errs ret err))"

section \<open>Guards\<close>

definition mark_held :: "guardKey \<Rightarrow> string \<Rightarrow> 's world \<Rightarrow> 's world" where
  "mark_held key d w =
     recordActiveLocks d (add_active d 1 (w\<lparr>w_active := mput key guardHeld (w_active w)\<rparr>))"

definition remove_guard :: "guardKey \<Rightarrow> 's world \<Rightarrow> 's world" where
  "remove_guard key w =
     (let w1 = (if mget (w_active w) key = Some guardHeld then add_active (gk_definitionID key) (- 1) w else w)
      in recordActiveLocks (gk_definitionID key) (w1\<lparr>w_active := mdel key (w_active w1)\<rparr>))"

text \<open>
  The installation loop of \<^verbatim>\<open>ExecuteMultipleExclusive\<close> and \<^verbatim>\<open>ExecuteCompositeExclusive\<close>: it returns at
  the first key that is already there and leaves the guards it has installed by then.
\<close>

fun install_guards :: "guardKey list \<Rightarrow> 's world \<Rightarrow> 's world \<times> bool" where
  "install_guards [] w = (w, True)"
| "install_guards (key # keys) w =
     (if mget (w_active w) key \<noteq> None then (w, False)
      else install_guards keys (w\<lparr>w_active := mput key guardPending (w_active w)\<rparr>))"

section \<open>ExecuteExclusive\<close>

type_synonym 's callback = "go_ctx \<Rightarrow> LeaseContext \<Rightarrow> 's world \<Rightarrow> 's world \<times> go_err"

definition exclusive_lease_context :: "LockDefinition \<Rightarrow> string \<Rightarrow> OwnershipMeta \<Rightarrow> heldLease \<Rightarrow> LeaseContext" where
  "exclusive_lease_context def resourceKey own held =
     \<lparr>lc_DefinitionID = ld_ID def, lc_ResourceKey = resourceKey, lc_ResourceKeys = [],
      lc_Ownership = own, lc_FencingToken = hl_fencingToken held,
      lc_LeaseTTL = lr_LeaseTTL (hl_lease held), lc_LeaseDeadline = lr_ExpiresAt (hl_lease held)\<rparr>"

definition exclusive_guarded ::
  "'s Manager \<Rightarrow> Env \<Rightarrow> go_ctx \<Rightarrow> waitConfig \<Rightarrow> LockDefinition \<Rightarrow> runtimeAcquirePlan \<Rightarrow> OwnershipMeta
    \<Rightarrow> 's callback \<Rightarrow> 's world \<Rightarrow> 's world \<times> go_err"
where
  "exclusive_guarded m e ctx cfg def plan own fn w =
     (let key = \<lparr>gk_definitionID = ld_ID def, gk_resourceKey = rp_resourceKey plan, gk_ownerID = om_OwnerID own\<rparr> in
      if mget (w_active w) key \<noteq> None then (w, Some (Sentinel ErrReentrantAcquire))
      else
        let w1 = w\<lparr>w_active := mput key guardPending (w_active w)\<rparr> in
        case timed_acquire m e ctx cfg def plan own w1 of
          (w2, Inl err) \<Rightarrow> (remove_guard key w2, Some err)
        | (w2, Inr held) \<Rightarrow>
            let w3 = mark_held key (ld_ID def) w2;
                (w4, retErr) = fn ctx (exclusive_lease_context def (rp_resourceKey plan) own held) w3;
                (w5, retErr') = release_held m e (ld_ID def) (rp_resourceKey plan) own held (w4, retErr)
            in (remove_guard key w5, retErr'))"

definition ExecuteExclusive ::
  "'s Manager \<Rightarrow> Env \<Rightarrow> go_ctx \<Rightarrow> SyncLockRequest \<Rightarrow> 's callback \<Rightarrow> 's world \<Rightarrow> 's world \<times> go_err"
where
  "ExecuteExclusive m e ctx req fn w =
     (if w_shuttingDown w then (w, Some (Sentinel ErrPolicyViolation))
      else case Get (mg_registry m) (sy_DefinitionID req) of
        None \<Rightarrow> (w, Some (Sentinel ErrPolicyViolation))
      | Some def \<Rightarrow>
          (case buildAcquirePlan m e def (sy_ResourceKey req) (sy_KeyInput req) w of
             (w1, Inl err) \<Rightarrow> (w1, Some err)
           | (w1, Inr plan) \<Rightarrow>
               (case applyRuntimeOverrides def (sy_Overrides req) of
                  Inl err \<Rightarrow> (w1, Some err)
                | Inr cfg \<Rightarrow>
                    (case tryAdmitInFlightExecution w1 of
                       (w2, False) \<Rightarrow> (w2, Some (Sentinel ErrPolicyViolation))
                     | (w2, True) \<Rightarrow>
                         map_prod releaseInFlightExecution id
                           (exclusive_guarded m e ctx cfg def plan (sy_Ownership req) fn w2)))))"

section \<open>ExecuteMultipleExclusive\<close>

fun has_dup :: "string list \<Rightarrow> string list \<Rightarrow> bool" where
  "has_dup seen [] = False"
| "has_dup seen (key # keys) = (if key \<in> set seen then True else has_dup (key # seen) keys)"

definition hasDuplicateKeys :: "string list \<Rightarrow> bool" where
  "hasDuplicateKeys keys = has_dup [] keys"

definition lease_bounds :: "heldLease list \<Rightarrow> duration \<times> time" where
  "lease_bounds hs = (case hs of
     [] \<Rightarrow> (0, zero_time)
   | h # rest \<Rightarrow>
       fold (\<lambda>h (ttl, deadline).
           (if lr_LeaseTTL (hl_lease h) < ttl then lr_LeaseTTL (hl_lease h) else ttl,
            if lr_ExpiresAt (hl_lease h) < deadline then lr_ExpiresAt (hl_lease h) else deadline))
         rest (lr_LeaseTTL (hl_lease h), lr_ExpiresAt (hl_lease h)))"

definition buildMultipleLeaseContext :: "MultipleLockRequest \<Rightarrow> (string \<times> heldLease) list \<Rightarrow> LeaseContext" where
  "buildMultipleLeaseContext req acquired =
     (let (ttl, deadline) = lease_bounds (map snd acquired) in
      \<lparr>lc_DefinitionID = ml_DefinitionID req, lc_ResourceKey = [], lc_ResourceKeys = map fst acquired,
       lc_Ownership = ml_Ownership req, lc_FencingToken = 0, lc_LeaseTTL = ttl, lc_LeaseDeadline = deadline\<rparr>)"

fun acquire_keys ::
  "'s Manager \<Rightarrow> Env \<Rightarrow> go_ctx \<Rightarrow> waitConfig \<Rightarrow> LockDefinition \<Rightarrow> OwnershipMeta \<Rightarrow> string list
    \<Rightarrow> (string \<times> heldLease) list \<Rightarrow> 's world \<Rightarrow> 's world \<times> (string \<times> heldLease) list \<times> go_err"
where
  "acquire_keys m e ctx cfg def own [] acquired w = (w, acquired, None)"
| "acquire_keys m e ctx cfg def own (key # keys) acquired w =
     (case timed_acquire m e ctx cfg def \<lparr>rp_resourceKey = key, rp_lineage = None\<rparr> own w of
        (w1, Inl err) \<Rightarrow> (w1, acquired, Some err)
      | (w1, Inr held) \<Rightarrow>
          acquire_keys m e ctx cfg def own keys (acquired @ [(key, held)])
            (mark_held \<lparr>gk_definitionID = ld_ID def, gk_resourceKey = key, gk_ownerID = om_OwnerID own\<rparr>
               (ld_ID def) w1))"

definition release_all ::
  "'s Manager \<Rightarrow> Env \<Rightarrow> string \<Rightarrow> OwnershipMeta \<Rightarrow> (string \<times> heldLease) list \<Rightarrow> 's world \<times> go_err \<Rightarrow> 's world \<times> go_err"
where
  "release_all m e d own acquired wr = fold (\<lambda>(key, held). release_held m e d key own held) (rev acquired) wr"

definition multiple_guarded ::
  "'s Manager \<Rightarrow> Env \<Rightarrow> go_ctx \<Rightarrow> LockDefinition \<Rightarrow> MultipleLockRequest \<Rightarrow> string list
    \<Rightarrow> 's callback \<Rightarrow> 's world \<Rightarrow> 's world \<times> go_err"
where
  "multiple_guarded m e ctx def req keys fn w =
     (case applyRuntimeOverrides def (ml_Overrides req) of
        Inl err \<Rightarrow> (w, Some err)
      | Inr cfg \<Rightarrow>
          (case acquire_keys m e ctx cfg def (ml_Ownership req) keys [] w of
             (w1, acquired, Some err) \<Rightarrow>
               release_all m e (ld_ID def) (ml_Ownership req) acquired (w1, Some err)
           | (w1, acquired, None) \<Rightarrow>
               release_all m e (ld_ID def) (ml_Ownership req) acquired
                 (fn ctx (buildMultipleLeaseContext req acquired) w1)))"

definition ExecuteMultipleExclusive ::
  "'s Manager \<Rightarrow> Env \<Rightarrow> go_ctx \<Rightarrow> MultipleLockRequest \<Rightarrow> 's callback \<Rightarrow> 's world \<Rightarrow> 's world \<times> go_err"
where
  "ExecuteMultipleExclusive m e ctx req fn w =
     (if w_shuttingDown w then (w, Some (Sentinel ErrPolicyViolation))
      else case Get (mg_registry m) (ml_DefinitionID req) of
        None \<Rightarrow> (w, Some (Sentinel ErrPolicyViolation))
      | Some def \<Rightarrow>
          if ld_Mode def = ModeStrict then (w, Some (Sentinel ErrPolicyViolation))
          else if ml_Keys req = [] then (w, Some (Sentinel ErrPolicyViolation))
          else if hasDuplicateKeys (ml_Keys req) then (w, Some (Sentinel ErrPolicyViolation))
          else
            let keys = sort (ml_Keys req);
                guardKeys = map (\<lambda>key. \<lparr>gk_definitionID = ld_ID def, gk_resourceKey = key,
                                        gk_ownerID = om_OwnerID (ml_Ownership req)\<rparr>) keys
            in case tryAdmitInFlightExecution w of
                 (w1, False) \<Rightarrow> (w1, Some (Sentinel ErrPolicyViolation))
               | (w1, True) \<Rightarrow>
                   map_prod releaseInFlightExecution id
                     (case install_guards guardKeys w1 of
                        (w2, False) \<Rightarrow> (w2, Some (Sentinel ErrReentrantAcquire))
                      | (w2, True) \<Rightarrow>
                          map_prod (fold remove_guard guardKeys) id
                            (multiple_guarded m e ctx def req keys fn w2)))"

section \<open>CheckPresence\<close>

definition presence_result :: "LockDefinition \<Rightarrow> PresenceRecord \<Rightarrow> PresenceStatus" where
  "presence_result def rec =
     (if \<not> pr_Present rec
      then \<lparr>ps_State = PresenceNotHeld, ps_Mode = Some (ld_Mode def), ps_OwnerID = [], ps_LeaseDeadline = None\<rparr>
      else \<lparr>ps_State = PresenceHeld, ps_Mode = Some (ld_Mode def),
            ps_OwnerID = (case pr_Lease rec of None \<Rightarrow> [] | Some l \<Rightarrow> lr_OwnerID l),
            ps_LeaseDeadline = map_option lr_ExpiresAt (pr_Lease rec)\<rparr>)"

definition check_presence_body ::
  "'s Manager \<Rightarrow> Env \<Rightarrow> go_ctx \<Rightarrow> LockDefinition \<Rightarrow> key_input \<Rightarrow> 's world \<Rightarrow> 's world \<times> PresenceStatus \<times> go_err"
where
  "check_presence_body m e ctx def input w =
     (let status = \<lparr>ps_State = PresenceUnknown, ps_Mode = Some (ld_Mode def), ps_OwnerID = [], ps_LeaseDeadline = None\<rparr> in
      if \<not> ld_CheckOnlyAllowed def then (w, status, Some (Sentinel ErrPolicyViolation))
      else case build_key (ld_KeyBuilder def) input of
        Inl err \<Rightarrow> (w, status, Some err)
      | Inr resourceKey \<Rightarrow>
          (case call_driver e (\<lambda>t s. Ping (mg_driver m) ctx t s) w of
             (w1, Some err) \<Rightarrow> (w1, status, Some err)
           | (w1, None) \<Rightarrow>
               (case call_driver e (\<lambda>t s. CheckPresence (mg_driver m) ctx t s
                   \<lparr>pq_DefinitionID = ld_ID def, pq_ResourceKeys = [resourceKey]\<rparr>) w1 of
                  (w2, Inl err) \<Rightarrow> (w2, status, Some err)
                | (w2, Inr rec) \<Rightarrow> (w2, presence_result def rec, None))))"

definition Manager_CheckPresence ::
  "'s Manager \<Rightarrow> Env \<Rightarrow> go_ctx \<Rightarrow> PresenceCheckRequest \<Rightarrow> 's world \<Rightarrow> 's world \<times> PresenceStatus \<times> go_err"
where
  "Manager_CheckPresence m e ctx req w =
     (let (start, w0) = time_now e w in
      case Get (mg_registry m) (pc_DefinitionID req) of
        None \<Rightarrow> (w0, \<lparr>ps_State = PresenceUnknown, ps_Mode = None, ps_OwnerID = [], ps_LeaseDeadline = None\<rparr>,
                 Some (Sentinel ErrPolicyViolation))
      | Some def \<Rightarrow>
          let (w1, result) = check_presence_body m e ctx def (pc_KeyInput req) w0;
              (stop, w2) = time_now e w1;
              w3 = record_call (RecordPresenceCheck (ld_ID def) (stop - start)) w2;
              w4 = publish m (PublishRuntimePresenceChecked (acquire_event (ld_ID def) [] (pc_Ownership req))) w3
          in (w4, result))"


section \<open>ExecuteCompositeExclusive\<close>

type_synonym plan_queue = "(string \<times> string, runtimeAcquirePlan list) gomap"

text \<open>
  The member loop: the definitions, keys, queued acquire plans and key inputs of the members, in the
  order of the composite definition.
\<close>

record composite_members =
  cm_defs :: "LockDefinition list"
  cm_keys :: "string list"
  cm_plans :: plan_queue
  cm_inputs :: "(string, key_input) gomap"

fun resolve_members ::
  "'s Manager \<Rightarrow> Env \<Rightarrow> (string \<times> key_input) list \<Rightarrow> composite_members \<Rightarrow> 's world
    \<Rightarrow> 's world \<times> composite_members result"
where
  "resolve_members m e [] acc w = (w, Inr acc)"
| "resolve_members m e ((memberID, input) # ms) acc w =
     (case Get (mg_registry m) memberID of
        None \<Rightarrow> (w, Inl (Sentinel ErrPolicyViolation))
      | Some memberDef \<Rightarrow>
          (case buildAcquirePlan m e memberDef [] input w of
             (w1, Inl err) \<Rightarrow> (w1, Inl err)
           | (w1, Inr plan) \<Rightarrow>
               let key = (ld_ID memberDef, rp_resourceKey plan);
                   queue = (case mget (cm_plans acc) key of None \<Rightarrow> [] | Some q \<Rightarrow> q)
               in resolve_members m e ms
                    \<lparr>cm_defs = cm_defs acc @ [memberDef], cm_keys = cm_keys acc @ [rp_resourceKey plan],
                     cm_plans = mput key (queue @ [plan]) (cm_plans acc),
                     cm_inputs = mput (ld_ID memberDef) input (cm_inputs acc)\<rparr> w1))"

definition popCompositeAcquirePlan :: "plan_queue \<Rightarrow> string \<Rightarrow> string \<Rightarrow> (plan_queue \<times> runtimeAcquirePlan) option" where
  "popCompositeAcquirePlan plans definitionID resourceKey =
     (case mget plans (definitionID, resourceKey) of
        None \<Rightarrow> None
      | Some [] \<Rightarrow> None
      | Some [plan] \<Rightarrow> Some (mdel (definitionID, resourceKey) plans, plan)
      | Some (plan # queue) \<Rightarrow> Some (mput (definitionID, resourceKey) queue plans, plan))"

text \<open>All pairs of the plan, in both directions.\<close>

fun overlap_with :: "MemberLeasePlan \<Rightarrow> MemberLeasePlan list \<Rightarrow> go_err" where
  "overlap_with left [] = None"
| "overlap_with left (right # rest) =
     (case RejectOverlap (mp_Definition left) (mp_Definition right) (mp_ResourceKey left) (mp_ResourceKey right) of
        Some err \<Rightarrow> Some err
      | None \<Rightarrow>
          (case RejectOverlap (mp_Definition right) (mp_Definition left) (mp_ResourceKey right) (mp_ResourceKey left) of
             Some err \<Rightarrow> Some err
           | None \<Rightarrow> overlap_with left rest))"

fun rejectCompositeOverlap :: "MemberLeasePlan list \<Rightarrow> go_err" where
  "rejectCompositeOverlap [] = None"
| "rejectCompositeOverlap (left # rest) =
     (case overlap_with left rest of Some err \<Rightarrow> Some err | None \<Rightarrow> rejectCompositeOverlap rest)"

text \<open>The presence checks of the members that only have to be free.\<close>

fun check_fail_if_held ::
  "'s Manager \<Rightarrow> Env \<Rightarrow> go_ctx \<Rightarrow> OwnershipMeta \<Rightarrow> (string, key_input) gomap \<Rightarrow> MemberLeasePlan list \<Rightarrow> 's world
    \<Rightarrow> 's world \<times> go_err"
where
  "check_fail_if_held m e ctx own inputs [] w = (w, None)"
| "check_fail_if_held m e ctx own inputs (member # rest) w =
     (if \<not> ld_FailIfHeld (mp_Definition member) then check_fail_if_held m e ctx own inputs rest w
      else
        let input = (case mget inputs (ld_ID (mp_Definition member)) of None \<Rightarrow> None | Some i \<Rightarrow> i) in
        case Manager_CheckPresence m e ctx
            \<lparr>pc_DefinitionID = ld_ID (mp_Definition member), pc_KeyInput = input, pc_Ownership = own\<rparr> w of
          (w1, status, Some err) \<Rightarrow> (w1, Some err)
        | (w1, status, None) \<Rightarrow>
            if ps_State status = PresenceHeld
            then (w1, Some (Errorf ''lockman: composite member %q is held by %q: %w''
                    [mp_ResourceKey member, ps_OwnerID status] [Sentinel ErrPreconditionFailed]))
            else check_fail_if_held m e ctx own inputs rest w1)"

fun wait_configs :: "RuntimeOverrides option \<Rightarrow> MemberLeasePlan list \<Rightarrow> waitConfig list result" where
  "wait_configs ov [] = Inr []"
| "wait_configs ov (member # rest) =
     (case applyRuntimeOverrides (mp_Definition member) ov of
        Inl err \<Rightarrow> Inl err
      | Inr cfg \<Rightarrow> (case wait_configs ov rest of Inl err \<Rightarrow> Inl err | Inr cfgs \<Rightarrow> Inr (cfg # cfgs)))"

definition member_guard :: "OwnershipMeta \<Rightarrow> MemberLeasePlan \<Rightarrow> guardKey" where
  "member_guard own member =
     \<lparr>gk_definitionID = ld_ID (mp_Definition member), gk_resourceKey = mp_ResourceKey member,
      gk_ownerID = om_OwnerID own\<rparr>"

text \<open>\<^verbatim>\<open>guardIndex\<close>, keyed by the concatenation of definition id and resource key.\<close>

definition guard_index :: "MemberLeasePlan list \<Rightarrow> (string, nat) gomap" where
  "guard_index members =
     fold (\<lambda>(i, member). mput (ld_ID (mp_Definition member) @ mp_ResourceKey member) i)
       (enumerate 0 members) []"

text \<open>
  The acquisition loop over the members that are acquired, each with its wait configuration. The
  result lists what was acquired when the loop ended.
\<close>

fun acquire_members ::
  "'s Manager \<Rightarrow> Env \<Rightarrow> go_ctx \<Rightarrow> OwnershipMeta \<Rightarrow> guardKey list \<Rightarrow> (string, nat) gomap
    \<Rightarrow> (MemberLeasePlan \<times> waitConfig) list \<Rightarrow> plan_queue \<Rightarrow> (MemberLeasePlan \<times> heldLease) list \<Rightarrow> 's world
    \<Rightarrow> 's world \<times> (MemberLeasePlan \<times> heldLease) list \<times> go_err"
where
  "acquire_members m e ctx own guardKeys guardIndex [] plans acquired w = (w, acquired, None)"
| "acquire_members m e ctx own guardKeys guardIndex ((member, cfg) # rest) plans acquired w =
     (let def = mp_Definition member in
      if ld_FailIfHeld def
      then acquire_members m e ctx own guardKeys guardIndex rest plans acquired w
      else case popCompositeAcquirePlan plans (ld_ID def) (mp_ResourceKey member) of
        None \<Rightarrow> (w, acquired, Some (Sentinel ErrPolicyViolation))
      | Some (plans', plan) \<Rightarrow>
          (case timed_acquire m e ctx cfg def plan own w of
             (w1, Inl err) \<Rightarrow> (w1, acquired, Some err)
           | (w1, Inr held) \<Rightarrow>
               (case mget guardIndex (ld_ID def @ mp_ResourceKey member) of
                  None \<Rightarrow> (w1, acquired @ [(member, held)], Some (Sentinel ErrPolicyViolation))
                | Some i \<Rightarrow>
                    acquire_members m e ctx own guardKeys guardIndex rest plans' (acquired @ [(member, held)])
                      (mark_held (guardKeys ! i) (ld_ID def) w1))))"

definition buildCompositeLeaseContext ::
  "CompositeLockRequest \<Rightarrow> (MemberLeasePlan \<times> heldLease) list \<Rightarrow> LeaseContext"
where
  "buildCompositeLeaseContext req acquired =
     (let (ttl, deadline) = lease_bounds (map snd acquired) in
      \<lparr>lc_DefinitionID = cl_DefinitionID req, lc_ResourceKey = [],
       lc_ResourceKeys = map (\<lambda>(member, _). mp_ResourceKey member) acquired,
       lc_Ownership = cl_Ownership req, lc_FencingToken = 0, lc_LeaseTTL = ttl, lc_LeaseDeadline = deadline\<rparr>)"

definition release_members ::
  "'s Manager \<Rightarrow> Env \<Rightarrow> OwnershipMeta \<Rightarrow> (MemberLeasePlan \<times> heldLease) list \<Rightarrow> 's world \<times> go_err \<Rightarrow> 's world \<times> go_err"
where
  "release_members m e own acquired wr =
     fold (\<lambda>(member, held). release_held m e (ld_ID (mp_Definition member)) (mp_ResourceKey member) own held)
       (rev acquired) wr"

definition composite_guarded ::
  "'s Manager \<Rightarrow> Env \<Rightarrow> go_ctx \<Rightarrow> CompositeLockRequest \<Rightarrow> MemberLeasePlan list \<Rightarrow> waitConfig list \<Rightarrow> plan_queue
    \<Rightarrow> 's callback \<Rightarrow> 's world \<Rightarrow> 's world \<times> go_err"
where
  "composite_guarded m e ctx req plan cfgs plans fn w =
     (let own = cl_Ownership req;
          acquiring = filter (\<lambda>member. \<not> ld_FailIfHeld (mp_Definition member)) plan;
          guardKeys = map (member_guard own) acquiring
      in case install_guards guardKeys w of
           (w1, False) \<Rightarrow> (w1, Some (Sentinel ErrReentrantAcquire))
         | (w1, True) \<Rightarrow>
             map_prod (fold remove_guard guardKeys) id
               (case acquire_members m e ctx own guardKeys (guard_index acquiring) (zip plan cfgs) plans [] w1 of
                  (w2, acquired, Some err) \<Rightarrow> release_members m e own acquired (w2, Some err)
                | (w2, acquired, None) \<Rightarrow>
                    release_members m e own acquired (fn ctx (buildCompositeLeaseContext req acquired) w2)))"

definition ExecuteCompositeExclusive ::
  "'s Manager \<Rightarrow> Env \<Rightarrow> go_ctx \<Rightarrow> CompositeLockRequest \<Rightarrow> 's callback \<Rightarrow> 's world \<Rightarrow> 's world \<times> go_err"
where
  "ExecuteCompositeExclusive m e ctx req fn w =
     (if w_shuttingDown w then (w, Some (Sentinel ErrPolicyViolation))
      else case GetComposite (mg_registry m) (cl_DefinitionID req) of
        None \<Rightarrow> (w, Some (Sentinel ErrPolicyViolation))
      | Some compositeDef \<Rightarrow>
          if length (cl_MemberInputs req) \<noteq> length (cd_Members compositeDef)
          then (w, Some (Sentinel ErrPolicyViolation))
          else case resolve_members m e (zip (cd_Members compositeDef) (cl_MemberInputs req))
              \<lparr>cm_defs = [], cm_keys = [], cm_plans = [], cm_inputs = []\<rparr> w of
            (w1, Inl err) \<Rightarrow> (w1, Some err)
          | (w1, Inr members) \<Rightarrow>
              (case CanonicalizeMembers (cm_defs members) (cm_keys members) of
                 Inl err \<Rightarrow> (w1, Some (Sentinel ErrPolicyViolation))
               | Inr plan \<Rightarrow>
                   (case rejectCompositeOverlap plan of
                      Some err \<Rightarrow> (w1, Some err)
                    | None \<Rightarrow>
                        (case check_fail_if_held m e ctx (cl_Ownership req) (cm_inputs members) plan w1 of
                           (w2, Some err) \<Rightarrow> (w2, Some err)
                         | (w2, None) \<Rightarrow>
                             (case wait_configs (cl_Overrides req) plan of
                                Inl err \<Rightarrow> (w2, Some err)
                              | Inr cfgs \<Rightarrow>
                                  (case tryAdmitInFlightExecution w2 of
                                     (w3, False) \<Rightarrow> (w3, Some (Sentinel ErrPolicyViolation))
                                   | (w3, True) \<Rightarrow>
                                       map_prod releaseInFlightExecution id
                                         (composite_guarded m e ctx req plan cfgs (cm_plans members) fn w3)))))))"

end
