(* ===== verification/Runtime_Correct.thy ===== *)
theory Runtime_Correct
  imports Runtime
begin

text \<open>
  What the runtime manager guarantees: its bookkeeping balances on every path, the callback starts
  while the driver holds the lease for the caller, no lease is left behind, and several keys
  are taken all or none. The properties that depend on a driver are proved in the contract locales
  of theory \<open>Backend\<close> and instantiated with the in-memory driver.
\<close>

section \<open>What the helpers leave alone\<close>

lemma time_now_simps [simp]:
  "fst (time_now e w) = env_clock e (w_tick w)"
  "w_active (snd (time_now e w)) = w_active w"
  "w_activeByDef (snd (time_now e w)) = w_activeByDef w"
  "w_inFlight (snd (time_now e w)) = w_inFlight w"
  "w_shuttingDown (snd (time_now e w)) = w_shuttingDown w"
  "w_driver (snd (time_now e w)) = w_driver w"
  "w_tick (snd (time_now e w)) = Suc (w_tick w)"
  by (simp_all add: time_now_def)

lemma record_call_simps [simp]:
  "w_active (record_call c w) = w_active w"
  "w_activeByDef (record_call c w) = w_activeByDef w"
  "w_inFlight (record_call c w) = w_inFlight w"
  "w_shuttingDown (record_call c w) = w_shuttingDown w"
  "w_driver (record_call c w) = w_driver w"
  "w_tick (record_call c w) = w_tick w"
  by (simp_all add: record_call_def)

lemma publish_simps [simp]:
  "w_active (publish m c w) = w_active w"
  "w_activeByDef (publish m c w) = w_activeByDef w"
  "w_inFlight (publish m c w) = w_inFlight w"
  "w_shuttingDown (publish m c w) = w_shuttingDown w"
  "w_driver (publish m c w) = w_driver w"
  "w_tick (publish m c w) = w_tick w"
  by (simp_all add: publish_def)

lemma record_failure_simps [simp]:
  "w_active (recordAcquireFailure d err w) = w_active w"
  "w_activeByDef (recordAcquireFailure d err w) = w_activeByDef w"
  "w_inFlight (recordAcquireFailure d err w) = w_inFlight w"
  "w_shuttingDown (recordAcquireFailure d err w) = w_shuttingDown w"
  "w_driver (recordAcquireFailure d err w) = w_driver w"
  "w_tick (recordAcquireFailure d err w) = w_tick w"
  "w_active (recordBridgeAcquireFailure re err w) = w_active w"
  "w_activeByDef (recordBridgeAcquireFailure re err w) = w_activeByDef w"
  "w_inFlight (recordBridgeAcquireFailure re err w) = w_inFlight w"
  "w_shuttingDown (recordBridgeAcquireFailure re err w) = w_shuttingDown w"
  "w_driver (recordBridgeAcquireFailure re err w) = w_driver w"
  "w_tick (recordBridgeAcquireFailure re err w) = w_tick w"
  by (simp_all add: recordAcquireFailure_def recordBridgeAcquireFailure_def Let_def)

text \<open>The bookkeeping of a manager: guards, counters, in-flight count, shutdown flag.\<close>

definition books :: "'s world \<Rightarrow> (guardKey \<rightharpoonup> guardState) \<times> (string \<Rightarrow> int) \<times> int \<times> bool" where
  "books w = (mget (w_active w), active_count w, w_inFlight w, w_shuttingDown w)"

lemma books_eq_iff:
  "books w' = books w \<longleftrightarrow> mget (w_active w') = mget (w_active w) \<and> active_count w' = active_count w
     \<and> w_inFlight w' = w_inFlight w \<and> w_shuttingDown w' = w_shuttingDown w"
  by (simp add: books_def)

text \<open>Steps that only read the clock, call the driver or report to observers.\<close>

definition same_books :: "'s world \<Rightarrow> 's world \<Rightarrow> bool" where
  "same_books w w' \<longleftrightarrow> w_active w' = w_active w \<and> w_activeByDef w' = w_activeByDef w
     \<and> w_inFlight w' = w_inFlight w \<and> w_shuttingDown w' = w_shuttingDown w"

lemma same_books_refl: "same_books w w"
  and same_books_trans: "same_books w w' \<Longrightarrow> same_books w' w'' \<Longrightarrow> same_books w w''"
  by (simp_all add: same_books_def)

lemma same_books_active_count: "same_books w w' \<Longrightarrow> active_count w' = active_count w"
  by (auto simp: same_books_def active_count_def)

lemma same_books_books: "same_books w w' \<Longrightarrow> books w' = books w"
  using same_books_active_count by (auto simp: books_def same_books_def)

lemma call_driver_books: "same_books w (fst (call_driver e f w))"
  by (simp add: call_driver_def same_books_def case_prod_beta Let_def)

lemma contextWithAcquireTimeout_simps [simp]:
  "same_books w (snd (contextWithAcquireTimeout e ctx cfg w))"
  "w_driver (snd (contextWithAcquireTimeout e ctx cfg w)) = w_driver w"
  by (simp_all add: contextWithAcquireTimeout_def same_books_def Let_def case_prod_beta split: option.split)

lemma acquireLease_books: "same_books w (fst (acquireLease m e ctx def plan ow w))"
  by (auto simp: acquireLease_def same_books_refl call_driver_books case_prod_beta split: option.split sum.split)

lemma releaseLease_books: "same_books w (fst (releaseLease m e ctx held w))"
  by (auto simp: releaseLease_def same_books_refl call_driver_books split: option.split)

lemma timed_acquire_books: "same_books w (fst (timed_acquire m e ctx cfg def plan own w))"
proof -
  let ?w1 = "snd (contextWithAcquireTimeout e ctx cfg w)"
  let ?w3 = "publish m (PublishRuntimeAcquireStarted (acquire_event (ld_ID def) (rp_resourceKey plan) own))
    (snd (time_now e ?w1))"
  let ?r = "acquireLease m e (fst (contextWithAcquireTimeout e ctx cfg w)) def plan (om_OwnerID own) ?w3"
  have "same_books w ?w3" using contextWithAcquireTimeout_simps(1)[of w e ctx cfg] by (simp add: same_books_def)
  then have "same_books w (fst ?r)" using acquireLease_books same_books_trans by blast
  then show ?thesis
    by (simp add: timed_acquire_def Let_def case_prod_beta same_books_def split: sum.split)
qed

lemma release_held_books: "same_books w (fst (release_held m e d key own held (w, ret)))"
proof -
  have "same_books w w' \<Longrightarrow> same_books w (fst (releaseLease m e background held w'))" for w'
    using releaseLease_books same_books_trans by blast
  then show ?thesis by (simp add: release_held_def Let_def case_prod_beta same_books_def)
qed

lemma buildAcquirePlan_books: "same_books w (fst (buildAcquirePlan m e def rk input w))"
  by (simp add: buildAcquirePlan_def Let_def same_books_def split: sum.split)

section \<open>The bookkeeping of ExecuteExclusive balances\<close>

lemma active_count_add [simp]: "active_count (add_active d n w) = (active_count w)(d := active_count w d + n)"
  by (auto simp: active_count_def add_active_def)

lemma active_count_record [simp]:
  "active_count (record_call c w) = active_count w" "active_count (recordActiveLocks d w) = active_count w"
  "active_count (w\<lparr>w_active := a\<rparr>) = active_count w" "active_count (w\<lparr>w_inFlight := n\<rparr>) = active_count w"
  by (auto simp: active_count_def recordActiveLocks_def)

lemma mark_held_simps [simp]:
  "mget (w_active (mark_held key d w)) = (mget (w_active w))(key \<mapsto> guardHeld)"
  "active_count (mark_held key d w) = (active_count w)(d := active_count w d + 1)"
  "w_inFlight (mark_held key d w) = w_inFlight w"
  "w_shuttingDown (mark_held key d w) = w_shuttingDown w"
  "w_driver (mark_held key d w) = w_driver w" "w_tick (mark_held key d w) = w_tick w"
  by (simp_all add: mark_held_def recordActiveLocks_def add_active_def active_count_def fun_eq_iff)

lemma remove_guard_simps [simp]:
  "mget (w_active (remove_guard key w)) = (mget (w_active w))(key := None)"
  "active_count (remove_guard key w) = (active_count w)(gk_definitionID key :=
     active_count w (gk_definitionID key) - (if mget (w_active w) key = Some guardHeld then 1 else 0))"
  "w_inFlight (remove_guard key w) = w_inFlight w"
  "w_shuttingDown (remove_guard key w) = w_shuttingDown w"
  "w_driver (remove_guard key w) = w_driver w" "w_tick (remove_guard key w) = w_tick w"
  by (simp_all add: remove_guard_def recordActiveLocks_def Let_def add_active_def)
    (auto simp: active_count_def)

lemma exclusive_guarded_books:
  assumes "\<And>c l w. books (fst (fn c l w)) = books w"
  shows "books (fst (exclusive_guarded m e ctx cfg def plan own fn w)) = books w"
proof -
  let ?key = "\<lparr>gk_definitionID = ld_ID def, gk_resourceKey = rp_resourceKey plan, gk_ownerID = om_OwnerID own\<rparr>"
  let ?w1 = "w\<lparr>w_active := mput ?key guardPending (w_active w)\<rparr>"
  show ?thesis
  proof (cases "mget (w_active w) ?key")
    case (Some g)
    then show ?thesis by (simp add: exclusive_guarded_def Let_def)
  next
    case None
    obtain w2 r where r: "timed_acquire m e ctx cfg def plan own ?w1 = (w2, r)" by (cases "timed_acquire m e ctx cfg def plan own ?w1")
    have b2: "books w2 = books ?w1" using timed_acquire_books[of ?w1 m e ctx cfg def plan own] r same_books_books by auto
    show ?thesis
    proof (cases r)
      case (Inl err)
      then show ?thesis using None r b2 by (auto simp: exclusive_guarded_def Let_def books_eq_iff fun_eq_iff)
    next
      case (Inr held)
      let ?w3 = "mark_held ?key (ld_ID def) w2"
      let ?f = "fn ctx (exclusive_lease_context def (rp_resourceKey plan) own held) ?w3"
      let ?w5 = "release_held m e (ld_ID def) (rp_resourceKey plan) own held ?f"
      have "books (fst ?w5) = books ?w3"
        using release_held_books[of "fst ?f" m e _ _ _ _ "snd ?f"] assms same_books_books by fastforce
      then show ?thesis using None r b2 Inr
        by (auto simp: exclusive_guarded_def Let_def books_eq_iff case_prod_beta)
    qed
  qed
qed


lemma tryAdmit_eq:
  "tryAdmitInFlightExecution w =
     (if w_shuttingDown w then (w, False) else (w\<lparr>w_inFlight := w_inFlight w + 1\<rparr>, True))"
  by (simp add: tryAdmitInFlightExecution_def Let_def)

text \<open>How an admitted execution is bracketed.\<close>

lemma bracket_books:
  assumes "books (fst r) = books (w\<lparr>w_inFlight := w_inFlight w + 1\<rparr>)"
  shows "books (fst (map_prod releaseInFlightExecution id r)) = books w"
  using assms by (simp add: books_eq_iff releaseInFlightExecution_def)

lemma ExecuteExclusive_books:
  assumes "\<And>c l w. books (fst (fn c l w)) = books w"
  shows "books (fst (ExecuteExclusive m e ctx req fn w)) = books w"
proof (cases "w_shuttingDown w \<or> Get (mg_registry m) (sy_DefinitionID req) = None")
  case True
  then show ?thesis by (auto simp: ExecuteExclusive_def)
next
  case False
  then obtain def where def: "Get (mg_registry m) (sy_DefinitionID req) = Some def" "\<not> w_shuttingDown w" by auto
  obtain w1 r where r: "buildAcquirePlan m e def (sy_ResourceKey req) (sy_KeyInput req) w = (w1, r)" by fastforce
  then have "same_books w w1" using buildAcquirePlan_books[of w m e def] by (metis fst_conv)
  then have b: "books w1 = books w" "\<not> w_shuttingDown w1" using def same_books_books by (auto simp: same_books_def)
  show ?thesis
    using def r b bracket_books[of _ w1, OF exclusive_guarded_books[OF assms]]
    by (simp add: ExecuteExclusive_def tryAdmit_eq split: sum.split)
qed

section \<open>The callback runs under the lease\<close>

lemma call_driver_eq:
  "call_driver e f w =
     (w\<lparr>w_tick := Suc (w_tick w), w_driver := fst (f (env_clock e (w_tick w)) (w_driver w))\<rparr>,
      snd (f (env_clock e (w_tick w)) (w_driver w)))"
  by (simp add: call_driver_def time_now_def case_prod_beta Let_def)

text \<open>Two callbacks that agree on what an execution can hand them cannot be told apart.\<close>

lemma exclusive_guarded_cong:
  assumes "\<And>w2 held key. timed_acquire m e ctx cfg def plan own (w\<lparr>w_active := mput \<lparr>gk_definitionID = ld_ID def,
      gk_resourceKey = rp_resourceKey plan, gk_ownerID = om_OwnerID own\<rparr> guardPending (w_active w)\<rparr>) = (w2, Inr held) \<Longrightarrow>
    fn ctx (exclusive_lease_context def (rp_resourceKey plan) own held) (mark_held key (ld_ID def) w2) =
    gn ctx (exclusive_lease_context def (rp_resourceKey plan) own held) (mark_held key (ld_ID def) w2)"
  shows "exclusive_guarded m e ctx cfg def plan own fn w = exclusive_guarded m e ctx cfg def plan own gn w"
  using assms by (auto simp: exclusive_guarded_def Let_def split: prod.split sum.split)

lemma buildAcquirePlan_world:
  "w_driver (fst (buildAcquirePlan m e def rk inp w)) = w_driver w"
  "w_tick (fst (buildAcquirePlan m e def rk inp w)) = w_tick w"
  "w_shuttingDown (fst (buildAcquirePlan m e def rk inp w)) = w_shuttingDown w"
  by (simp_all add: buildAcquirePlan_def Let_def split: sum.split)

lemma ExecuteExclusive_cong:
  fixes m :: "'s Manager"
  assumes "\<And>def plan cfg w1 w2 held key. Get (mg_registry m) (sy_DefinitionID req) = Some def \<Longrightarrow>
    snd (buildAcquirePlan m e def (sy_ResourceKey req) (sy_KeyInput req) w) = Inr plan \<Longrightarrow>
    w_driver w1 = w_driver w \<Longrightarrow> timed_acquire m e ctx cfg def plan (sy_Ownership req) w1 = (w2, Inr held) \<Longrightarrow>
    fn ctx (exclusive_lease_context def (rp_resourceKey plan) (sy_Ownership req) held) (mark_held key (ld_ID def) w2) =
    gn ctx (exclusive_lease_context def (rp_resourceKey plan) (sy_Ownership req) held) (mark_held key (ld_ID def) w2)"
  shows "ExecuteExclusive m e ctx req fn w = ExecuteExclusive m e ctx req gn w"
proof (cases "Get (mg_registry m) (sy_DefinitionID req)")
  case (Some def)
  obtain w1 r where b: "buildAcquirePlan m e def (sy_ResourceKey req) (sy_KeyInput req) w = (w1, r)" by fastforce
  have "exclusive_guarded m e ctx cfg def plan (sy_Ownership req) fn (w1\<lparr>w_inFlight := w_inFlight w1 + 1\<rparr>) =
      exclusive_guarded m e ctx cfg def plan (sy_Ownership req) gn (w1\<lparr>w_inFlight := w_inFlight w1 + 1\<rparr>)"
    if "r = Inr plan" for cfg plan
    using that b buildAcquirePlan_world(1)[of m e def "sy_ResourceKey req" "sy_KeyInput req" w]
    by (intro exclusive_guarded_cong assms[OF Some]) auto
  then show ?thesis using Some b by (simp add: ExecuteExclusive_def tryAdmit_eq split: sum.split)
qed (simp add: ExecuteExclusive_def)

context lock_driver
begin

text \<open>The laws, on the components of a call's result.\<close>

lemma inv_fst:
  assumes "inv s"
  shows "inv (fst (Acquire D c t s rq))" and "inv (fst (Release D c t s l))"
    and "inv (fst (CheckPresence D c t s pq))"
    and "as_StrictDriver D = Some S \<Longrightarrow> inv (fst (AcquireStrict S c t s sq))"
    and "as_StrictDriver D = Some S \<Longrightarrow> inv (fst (ReleaseStrict S c t s l tok))"
    and "as_LineageDriver D = Some L \<Longrightarrow> inv (fst (AcquireWithLineage L c t s lq))"
    and "as_LineageDriver D = Some L \<Longrightarrow> inv (fst (ReleaseWithLineage L c t s l meta))"
  using acquire_inv[OF assms surjective_pairing] release_inv[OF assms surjective_pairing]
    presence_inv[OF assms surjective_pairing] strict_inv[OF assms _ surjective_pairing]
    strict_release_inv[OF assms _ surjective_pairing] lineage_inv[OF assms _ surjective_pairing]
    lineage_release_inv[OF assms _ surjective_pairing] by simp_all

lemma refused_fst:
  assumes "inv s"
  shows "snd (Acquire D c t s rq) = Inl err \<Longrightarrow> untouched holds t s (fst (Acquire D c t s rq))"
    and "as_StrictDriver D = Some S \<Longrightarrow> snd (AcquireStrict S c t s sq) = Inl err \<Longrightarrow>
      untouched holds t s (fst (AcquireStrict S c t s sq))"
    and "as_LineageDriver D = Some L \<Longrightarrow> snd (AcquireWithLineage L c t s lq) = Inl err \<Longrightarrow>
      untouched holds t s (fst (AcquireWithLineage L c t s lq))"
  using acquire_refused[OF assms, of c t rq] strict_refused[OF assms, of S c t sq]
    lineage_refused[OF assms, of L c t lq] by (metis prod.collapse)+

lemma acquireLease_granted:
  assumes "mg_driver m = D" and "inv (w_driver w)" and "acquireLease m e ctx def plan ow w = (w', Inr held)"
  shows "inv (w_driver w') \<and> w_tick w' = Suc (w_tick w)
    \<and> granted slot holds (env_clock e (w_tick w)) (w_driver w) (w_driver w') (ld_ID def) [rp_resourceKey plan] ow
        (hl_lease held)"
proof (cases "ld_Mode def = ModeStrict")
  case True
  with assms(1,3) obtain S where S: "as_StrictDriver D = Some S"
    by (auto simp: acquireLease_def split: if_splits option.splits)
  let ?sq = "\<lparr>sq_DefinitionID = ld_ID def, sq_ResourceKey = rp_resourceKey plan, sq_OwnerID = ow,
    sq_LeaseTTL = ld_LeaseTTL def\<rparr>"
  obtain s' r where a: "AcquireStrict S ctx (env_clock e (w_tick w)) (w_driver w) ?sq = (s', r)" by fastforce
  show ?thesis
    using True S a assms strict_inv[OF assms(2) S, of ctx "env_clock e (w_tick w)" ?sq s' r]
      strict_granted[OF assms(2) S, of ctx "env_clock e (w_tick w)" ?sq s']
    by (auto simp: acquireLease_def call_driver_eq split: if_splits sum.splits)
next
  case std: False
  show ?thesis
  proof (cases "rp_lineage plan")
    case None
    let ?aq = "\<lparr>aq_DefinitionID = ld_ID def, aq_ResourceKeys = [rp_resourceKey plan], aq_OwnerID = ow,
      aq_LeaseTTL = ld_LeaseTTL def\<rparr>"
    obtain s' r where a: "Acquire D ctx (env_clock e (w_tick w)) (w_driver w) ?aq = (s', r)" by fastforce
    show ?thesis
      using std None a assms acquire_inv[OF assms(2) a] acquire_granted[OF assms(2), of ctx "env_clock e (w_tick w)" ?aq s']
      by (auto simp: acquireLease_def call_driver_eq split: sum.splits)
  next
    case (Some meta)
    with std assms(1,3) obtain L where L: "as_LineageDriver D = Some L"
      by (auto simp: acquireLease_def split: option.splits)
    let ?lq = "\<lparr>lq_DefinitionID = ld_ID def, lq_ResourceKey = rp_resourceKey plan, lq_OwnerID = ow,
      lq_LeaseTTL = ld_LeaseTTL def, lq_Lineage = meta\<rparr>"
    obtain s' r where a: "AcquireWithLineage L ctx (env_clock e (w_tick w)) (w_driver w) ?lq = (s', r)" by fastforce
    show ?thesis
      using std Some L a assms lineage_inv[OF assms(2) L a]
        lineage_granted[OF assms(2) L, of ctx "env_clock e (w_tick w)" ?lq s']
      by (auto simp: acquireLease_def call_driver_eq split: sum.splits)
  qed
qed

lemma acquireLease_refused:
  assumes "mg_driver m = D" and "inv (w_driver w)" and "acquireLease m e ctx def plan ow w = (w', Inl err)"
  shows "inv (w_driver w') \<and> untouched holds (env_clock e (w_tick w)) (w_driver w) (w_driver w')
    \<and> w_tick w \<le> w_tick w'"
proof -
  have u: "untouched holds t s s" for t s by (simp add: untouched_def)
  show ?thesis
    using assms(2,3) u
    by (auto simp: assms(1) acquireLease_def call_driver_eq inv_fst refused_fst split: if_splits option.splits sum.splits)
qed

lemma timed_acquire_granted:
  assumes "mg_driver m = D" and "inv (w_driver w)"
    and "timed_acquire m e ctx cfg def plan own w = (w', Inr held)"
  shows "inv (w_driver w') \<and> 2 \<le> w_tick w' \<and>
    granted slot holds (env_clock e (w_tick w' - 2)) (w_driver w) (w_driver w') (ld_ID def) [rp_resourceKey plan]
        (om_OwnerID own) (hl_lease held)"
proof -
  let ?w1 = "snd (contextWithAcquireTimeout e ctx cfg w)"
  let ?w3 = "publish m (PublishRuntimeAcquireStarted (acquire_event (ld_ID def) (rp_resourceKey plan) own))
    (snd (time_now e ?w1))"
  obtain w4 r where r: "acquireLease m e (fst (contextWithAcquireTimeout e ctx cfg w)) def plan (om_OwnerID own) ?w3 = (w4, r)"
    by fastforce
  with assms(3) have "r = Inr held" and w': "w_driver w' = w_driver w4" "w_tick w' = Suc (w_tick w4)"
    by (auto simp: timed_acquire_def Let_def case_prod_beta split: sum.splits)
  with acquireLease_granted[OF assms(1), of ?w3] r assms(2) show ?thesis by simp
qed

text \<open>What the callback of \<^verbatim>\<open>ExecuteExclusive\<close> finds: the key of the request, locked for its owner.\<close>

lemma ExecuteExclusive_under_lease:
  assumes "mg_driver m = D" and "inv (w_driver w)"
    and "\<And>c lc w' def plan. Get (mg_registry m) (sy_DefinitionID req) = Some def \<Longrightarrow>
      snd (buildAcquirePlan m e def (sy_ResourceKey req) (sy_KeyInput req) w) = Inr plan \<Longrightarrow>
      lc_DefinitionID lc = ld_ID def \<Longrightarrow> lc_ResourceKey lc = rp_resourceKey plan \<Longrightarrow> lc_Ownership lc = sy_Ownership req \<Longrightarrow>
      inv (w_driver w') \<Longrightarrow> 2 \<le> w_tick w' \<Longrightarrow>
      holds (env_clock e (w_tick w' - 2)) (w_driver w') (slot (ld_ID def) (rp_resourceKey plan))
        = Some (om_OwnerID (sy_Ownership req)) \<Longrightarrow> fn c lc w' = gn c lc w'"
  shows "ExecuteExclusive m e ctx req fn w = ExecuteExclusive m e ctx req gn w"
proof (rule ExecuteExclusive_cong)
  fix def plan cfg w1 w2 held key
  assume g: "Get (mg_registry m) (sy_DefinitionID req) = Some def"
      "snd (buildAcquirePlan m e def (sy_ResourceKey req) (sy_KeyInput req) w) = Inr plan"
    and w1: "w_driver w1 = w_driver w"
    and t: "timed_acquire m e ctx cfg def plan (sy_Ownership req) w1 = (w2, Inr held)"
  note gr = timed_acquire_granted[OF assms(1) _ t, unfolded w1, OF assms(2)]
  show "fn ctx (exclusive_lease_context def (rp_resourceKey plan) (sy_Ownership req) held) (mark_held key (ld_ID def) w2)
      = gn ctx (exclusive_lease_context def (rp_resourceKey plan) (sy_Ownership req) held) (mark_held key (ld_ID def) w2)"
    by (rule assms(3)[OF g]) (use gr in \<open>auto simp: exclusive_lease_context_def granted_def\<close>)
qed

end

section \<open>No lease is left behind\<close>

lemma contextWithAcquireTimeout_tick:
  "w_tick w \<le> w_tick (snd (contextWithAcquireTimeout e ctx cfg w)) \<and>
   w_tick (snd (contextWithAcquireTimeout e ctx cfg w)) \<le> Suc (w_tick w)"
  by (simp add: contextWithAcquireTimeout_def time_now_def Let_def case_prod_beta split: option.split)

text \<open>Which tick the driver call of an acquire reads, and how the call sees the world.\<close>

lemma timed_acquire_plain:
  fixes m :: "'s Manager" and w :: "'s world" and e ctx cfg def plan own
  assumes "ld_Mode def \<noteq> ModeStrict" and "rp_lineage plan = None"
  defines "n \<equiv> Suc (w_tick (snd (contextWithAcquireTimeout e ctx cfg w)))"
  defines "c \<equiv> fst (contextWithAcquireTimeout e ctx cfg w)"
  defines "a \<equiv> Acquire (mg_driver m) c (env_clock e n) (w_driver w)
     \<lparr>aq_DefinitionID = ld_ID def, aq_ResourceKeys = [rp_resourceKey plan], aq_OwnerID = om_OwnerID own,
      aq_LeaseTTL = ld_LeaseTTL def\<rparr>"
  shows "w_driver (fst (timed_acquire m e ctx cfg def plan own w)) = fst a"
    and "w_tick (fst (timed_acquire m e ctx cfg def plan own w)) = Suc (Suc n)"
    and "snd (timed_acquire m e ctx cfg def plan own w) =
      (case snd a of Inl err \<Rightarrow> Inl (mapAcquireError err)
       | Inr l \<Rightarrow> Inr \<lparr>hl_lease = l, hl_lineage = None, hl_fencingToken = 0\<rparr>)"
  using assms(1,2) unfolding n_def c_def a_def
  by (simp_all add: timed_acquire_def acquireLease_def call_driver_eq Let_def case_prod_beta split: sum.split)

lemma release_held_plain:
  assumes "hl_lineage held = None" and "hl_fencingToken held = 0"
  shows "w_driver (fst (release_held m e d key own held (w, ret))) =
      fst (Release (mg_driver m) background (env_clock e (Suc (w_tick w))) (w_driver w) (hl_lease held))"
    and "w_tick (fst (release_held m e d key own held (w, ret))) = Suc (Suc (w_tick w))"
    and "snd (release_held m e d key own held (w, ret)) =
      (case snd (Release (mg_driver m) background (env_clock e (Suc (w_tick w))) (w_driver w) (hl_lease held)) of
         None \<Rightarrow> ret | Some err \<Rightarrow> join_errs ret err)"
  using assms by (simp_all add: release_held_def releaseLease_def call_driver_eq Let_def case_prod_beta)

context reliable_driver
begin

lemma timed_acquire_busy:
  assumes "mg_driver m = D" and "inv (w_driver w)" and "ld_Mode def \<noteq> ModeStrict" and "rp_lineage plan = None"
    and "0 < ld_LeaseTTL def"
    and "\<forall>n \<in> {w_tick w .. w_tick w + 2}. holds (env_clock e n) (w_driver w) (slot (ld_ID def) (rp_resourceKey plan)) \<noteq> None"
  shows "snd (timed_acquire m e ctx cfg def plan own w) = Inl (Sentinel ErrLockBusy)"
proof -
  let ?n = "Suc (w_tick (snd (contextWithAcquireTimeout e ctx cfg w)))"
  have "?n \<in> {w_tick w .. w_tick w + 2}" using contextWithAcquireTimeout_tick[of w e ctx cfg] by auto
  then have "holds (env_clock e ?n) (w_driver w) (slot (ld_ID def) (rp_resourceKey plan)) \<noteq> None"
    using assms(6) by blast
  from acquire_busy[OF assms(2), of "\<lparr>aq_DefinitionID = ld_ID def, aq_ResourceKeys = [rp_resourceKey plan],
      aq_OwnerID = om_OwnerID own, aq_LeaseTTL = ld_LeaseTTL def\<rparr>"] this assms(5)
  show ?thesis using timed_acquire_plain(3)[OF assms(3,4), of m e ctx cfg own w] assms(1)
    by (simp add: mapAcquireError_def)
qed

end

text \<open>The two calls that reach the driver, with the worlds they run in.\<close>

lemma timed_acquire_call:
  obtains c w3 w4 r where "acquireLease m e c def plan (om_OwnerID own) w3 = (w4, r)"
    "w_driver w3 = w_driver w" "w_tick w \<le> w_tick w3"
    "w_driver (fst (timed_acquire m e ctx cfg def plan own w)) = w_driver w4"
    "w_tick (fst (timed_acquire m e ctx cfg def plan own w)) = Suc (w_tick w4)"
    "snd (timed_acquire m e ctx cfg def plan own w) =
      (case r of Inl err \<Rightarrow> Inl (mapAcquireError err) | Inr held \<Rightarrow> Inr held)"
proof -
  let ?w1 = "snd (contextWithAcquireTimeout e ctx cfg w)"
  let ?w3 = "publish m (PublishRuntimeAcquireStarted (acquire_event (ld_ID def) (rp_resourceKey plan) own))
    (snd (time_now e ?w1))"
  obtain w4 r where r: "acquireLease m e (fst (contextWithAcquireTimeout e ctx cfg w)) def plan (om_OwnerID own) ?w3 = (w4, r)"
    by fastforce
  show ?thesis
    by (rule that[OF r]) (use r contextWithAcquireTimeout_tick[of w e ctx cfg] in
      \<open>auto simp: timed_acquire_def Let_def case_prod_beta split: sum.split\<close>)
qed

lemma release_held_call:
  obtains w1 w2 r where "releaseLease m e background held w1 = (w2, r)"
    "w_driver w1 = w_driver w" "w_tick w1 = Suc (w_tick w)"
    "w_driver (fst (release_held m e d key own held (w, ret))) = w_driver w2"
    "w_tick (fst (release_held m e d key own held (w, ret))) = w_tick w2"
proof -
  let ?t = "fst (time_now e w) - lr_AcquiredAt (hl_lease held)"
  let ?w1 = "publish m (PublishRuntimeReleased ((acquire_event d key own)\<lparr>ev_Held := ?t\<rparr>))
    (record_call (RecordRelease d ?t) (snd (time_now e w)))"
  obtain w2 r where r: "releaseLease m e background held ?w1 = (w2, r)" by fastforce
  show ?thesis by (rule that[OF r]) (use r in \<open>simp_all add: release_held_def Let_def case_prod_beta\<close>)
qed

text \<open>Which driver call granted a lease.\<close>

lemma acquireLease_cases:
  assumes "acquireLease m e ctx def plan ow w = (w', Inr held)"
  obtains (strict) S f where "ld_Mode def = ModeStrict" "as_StrictDriver (mg_driver m) = Some S"
      "AcquireStrict S ctx (env_clock e (w_tick w)) (w_driver w) \<lparr>sq_DefinitionID = ld_ID def,
        sq_ResourceKey = rp_resourceKey plan, sq_OwnerID = ow, sq_LeaseTTL = ld_LeaseTTL def\<rparr> = (w_driver w', Inr f)"
      "held = \<lparr>hl_lease = fl_Lease f, hl_lineage = None, hl_fencingToken = fl_FencingToken f\<rparr>"
  | (plain) l where "ld_Mode def \<noteq> ModeStrict"
      "Acquire (mg_driver m) ctx (env_clock e (w_tick w)) (w_driver w) \<lparr>aq_DefinitionID = ld_ID def,
        aq_ResourceKeys = [rp_resourceKey plan], aq_OwnerID = ow, aq_LeaseTTL = ld_LeaseTTL def\<rparr> = (w_driver w', Inr l)"
      "held = \<lparr>hl_lease = l, hl_lineage = None, hl_fencingToken = 0\<rparr>"
  | (lineage) L l meta where "ld_Mode def \<noteq> ModeStrict" "as_LineageDriver (mg_driver m) = Some L"
      "AcquireWithLineage L ctx (env_clock e (w_tick w)) (w_driver w) \<lparr>lq_DefinitionID = ld_ID def,
        lq_ResourceKey = rp_resourceKey plan, lq_OwnerID = ow, lq_LeaseTTL = ld_LeaseTTL def, lq_Lineage = meta\<rparr>
        = (w_driver w', Inr l)"
      "held = \<lparr>hl_lease = l, hl_lineage = Some meta, hl_fencingToken = 0\<rparr>"
  using assms that
  by (auto simp: acquireLease_def call_driver_eq prod_eq_iff split: if_splits option.splits sum.splits)

context steady_driver
begin

lemma acquireLease_until:
  assumes "mg_driver m = D" and "inv (w_driver w)" and "acquireLease m e ctx def plan ow w = (w', Inr held)"
    and "env_clock e (w_tick w) \<le> T" and "T \<le> lr_ExpiresAt (hl_lease held)"
  shows "holds T (w_driver w') (slot (ld_ID def) (rp_resourceKey plan)) = Some ow"
  using assms(3)
proof (cases rule: acquireLease_cases)
  case (strict S f)
  then show ?thesis using strict_until[OF assms(2) _ strict(3) assms(4)] assms(1,5) by simp
next
  case (plain l)
  then show ?thesis
    using acquire_until[OF assms(2) plain(2)[unfolded assms(1)] _ assms(4), of "rp_resourceKey plan"] assms(5) by simp
next
  case (lineage L l meta)
  then show ?thesis using lineage_until[OF assms(2) _ lineage(3) assms(4)] assms(1,5) by simp
qed

text \<open>
  Releasing what was acquired, in whatever state the callback has left the driver: afterwards the
  owner does not have the key. For a strict lease the callback must not have put another lease of
  the same owner in its place.
\<close>

lemma acquireLease_release_gone:
  assumes "mg_driver m = D" and "inv (w_driver w)" and "acquireLease m e ctx def plan ow w = (w1, Inr held)"
    and "inv (w_driver w2)"
    and "ld_Mode def = ModeStrict \<Longrightarrow> separable (ld_ID def) (rp_resourceKey plan) \<and>
      (holds (env_clock e (w_tick w2)) (w_driver w2) (slot (ld_ID def) (rp_resourceKey plan)) = Some ow \<longrightarrow>
       entry (w_driver w2) (ld_ID def) (rp_resourceKey plan) = entry (w_driver w1) (ld_ID def) (rp_resourceKey plan))"
    and "releaseLease m e c held w2 = (w3, err)"
  shows "inv (w_driver w3) \<and> w_tick w3 = Suc (w_tick w2)
    \<and> holds (env_clock e (w_tick w2)) (w_driver w3) (slot (ld_ID def) (rp_resourceKey plan)) \<noteq> Some ow"
proof -
  let ?t = "env_clock e (w_tick w2)" and ?d = "ld_ID def" and ?k = "rp_resourceKey plan"
  have l: "lr_ResourceKeys (hl_lease held) = [?k]" "lr_DefinitionID (hl_lease held) = ?d" "lr_OwnerID (hl_lease held) = ow"
    using acquireLease_granted[OF assms(1-3)] by (auto simp: granted_def)
  have gone: "holds ?t s' (slot ?d ?k) \<noteq> Some ow" if "released slot holds ?t s s' (hl_lease held)" for s s'
    using that l by (auto simp: released_def)
  have unfenced: ?thesis if "hl_fencingToken held = 0" "hl_lineage held = None"
  proof -
    have "Release D c ?t (w_driver w2) (hl_lease held) = (w_driver w3, err)" "w_tick w3 = Suc (w_tick w2)"
      using assms(1,6) that by (auto simp: releaseLease_def call_driver_eq)
    then show ?thesis
      using release_ends_hold[OF assms(4) _ l(1), of c ?t "w_driver w3" err] l release_inv[OF assms(4)] by auto
  qed
  show ?thesis using assms(3)
  proof (cases rule: acquireLease_cases)
    case (strict S f)
    note S = strict(2)[unfolded assms(1)]
    show ?thesis
    proof (cases "0 < fl_FencingToken f")
      case True
      then have r: "ReleaseStrict S c ?t (w_driver w2) (fl_Lease f) (fl_FencingToken f) = (w_driver w3, err)"
        "w_tick w3 = Suc (w_tick w2)"
        using assms(1,6) strict S by (auto simp: releaseLease_def call_driver_eq)
      show ?thesis
      proof (cases err)
        case None
        then have "released slot holds ?t (w_driver w2) (w_driver w3) (fl_Lease f)"
          using r(1) by (intro strict_release_done[OF assms(4) S]) simp
        then show ?thesis using gone strict_release_inv[OF assms(4) S r(1)] r(2) strict(4) by simp
      next
        case (Some x)
        have u: "holds ?t (w_driver w3) = holds ?t (w_driver w2)"
          using strict_release_refused[OF assms(4) S, of c ?t _ _ "w_driver w3" x] r(1) Some by (simp add: untouched_def)
        have "holds ?t (w_driver w2) (slot ?d ?k) \<noteq> Some ow"
          using strict_release_refused_gone[OF assms(2) S strict(3) assms(4), of c ?t "w_driver w3" x] assms(5)[OF strict(1)]
            r(1) Some by auto
        then show ?thesis using u strict_release_inv[OF assms(4) S r(1)] r(2) by simp
      qed
    next
      case False
      then have "fl_FencingToken f = 0" by (metis word_coorder.not_eq_extremum)
      then show ?thesis using unfenced strict(4) by simp
    qed
  next
    case (plain l)
    then show ?thesis using unfenced by simp
  next
    case (lineage L l' meta)
    note L = lineage(2)[unfolded assms(1)]
    have r: "ReleaseWithLineage L c ?t (w_driver w2) l' meta = (w_driver w3, err)" "w_tick w3 = Suc (w_tick w2)"
      using assms(1,6) lineage L by (auto simp: releaseLease_def call_driver_eq)
    show ?thesis
    proof (cases err)
      case None
      then have "released slot holds ?t (w_driver w2) (w_driver w3) l'"
        using r(1) by (intro lineage_release_done[OF assms(4) L]) simp
      then show ?thesis using gone lineage_release_inv[OF assms(4) L r(1)] r(2) lineage(4) by simp
    next
      case (Some x)
      have u: "holds ?t (w_driver w3) = holds ?t (w_driver w2)"
        using lineage_release_refused[OF assms(4) L, of c ?t _ _ "w_driver w3" x] r(1) Some by (simp add: untouched_def)
      have "holds ?t (w_driver w2) (slot ?d ?k) \<noteq> Some ow"
        using lineage_release_refused_gone[OF assms(2) L lineage(3) assms(4), of c ?t "w_driver w3" x] r(1) Some by auto
      then show ?thesis using u lineage_release_inv[OF assms(4) L r(1)] r(2) by simp
    qed
  qed
qed

lemma timed_acquire_until:
  assumes "mg_driver m = D" and "inv (w_driver w)" and "timed_acquire m e ctx cfg def plan own w = (w', Inr held)"
    and "env_clock e (w_tick w' - 2) \<le> T" and "T \<le> lr_ExpiresAt (hl_lease held)"
  shows "holds T (w_driver w') (slot (ld_ID def) (rp_resourceKey plan)) = Some (om_OwnerID own)"
proof (rule timed_acquire_call[of m e def plan own w ctx cfg])
  fix c w3 w4 r
  assume a: "acquireLease m e c def plan (om_OwnerID own) w3 = (w4, r)" "w_driver w3 = w_driver w"
    "w_driver (fst (timed_acquire m e ctx cfg def plan own w)) = w_driver w4"
    "w_tick (fst (timed_acquire m e ctx cfg def plan own w)) = Suc (w_tick w4)"
    "snd (timed_acquire m e ctx cfg def plan own w) =
      (case r of Inl err \<Rightarrow> Inl (mapAcquireError err) | Inr held \<Rightarrow> Inr held)"
  then have r: "r = Inr held" using assms(3) by (simp split: sum.splits)
  note g = acquireLease_granted[OF assms(1) _ a(1)[unfolded r], unfolded a(2), OF assms(2)]
  have "env_clock e (w_tick w3) \<le> T" using g a(4) assms(3,4) by simp
  then show ?thesis
    using acquireLease_until[OF assms(1) _ a(1)[unfolded r], unfolded a(2), OF assms(2) _ assms(5)] a(3) assms(3) by simp
qed

lemma exclusive_guarded_no_lease_left:
  assumes "mg_driver m = D" and "inv (w_driver w)" and "\<And>c l w. inv (w_driver w) \<Longrightarrow> inv (w_driver (fst (fn c l w)))"
    and "mono (env_clock e)" and "\<And>c l w. w_tick w \<le> w_tick (fst (fn c l w))"
    and "\<forall>t \<ge> env_clock e (w_tick w). holds t (w_driver w) (slot (ld_ID def) (rp_resourceKey plan)) \<noteq> Some (om_OwnerID own)"
    and "ld_Mode def = ModeStrict \<Longrightarrow> separable (ld_ID def) (rp_resourceKey plan)"
    and "\<And>c l w w'. ld_Mode def = ModeStrict \<Longrightarrow> w' = fst (fn c l w) \<Longrightarrow>
      holds (env_clock e (w_tick w')) (w_driver w') (slot (ld_ID def) (rp_resourceKey plan)) = Some (om_OwnerID own) \<Longrightarrow>
      entry (w_driver w') (ld_ID def) (rp_resourceKey plan) = entry (w_driver w) (ld_ID def) (rp_resourceKey plan)"
    and "exclusive_guarded m e ctx cfg def plan own fn w = (w', err)" and "env_clock e (w_tick w') \<le> t"
  shows "holds t (w_driver w') (slot (ld_ID def) (rp_resourceKey plan)) \<noteq> Some (om_OwnerID own)"
proof -
  let ?slot = "slot (ld_ID def) (rp_resourceKey plan)" and ?ow = "om_OwnerID own"
  let ?key = "\<lparr>gk_definitionID = ld_ID def, gk_resourceKey = rp_resourceKey plan, gk_ownerID = ?ow\<rparr>"
  let ?w1 = "w\<lparr>w_active := mput ?key guardPending (w_active w)\<rparr>"
  have le: "env_clock e i \<le> env_clock e j" if "i \<le> j" for i j using assms(4) that by (simp add: monoD)
  obtain c w3 w4 r where a: "acquireLease m e c def plan ?ow w3 = (w4, r)" "w_driver w3 = w_driver w" "w_tick w \<le> w_tick w3"
    and ta: "w_driver (fst (timed_acquire m e ctx cfg def plan own ?w1)) = w_driver w4"
      "w_tick (fst (timed_acquire m e ctx cfg def plan own ?w1)) = Suc (w_tick w4)"
      "snd (timed_acquire m e ctx cfg def plan own ?w1) = (case r of Inl err \<Rightarrow> Inl (mapAcquireError err) | Inr held \<Rightarrow> Inr held)"
    by (rule timed_acquire_call[of m e def plan own ?w1 ctx cfg]) (auto intro: that)
  obtain w2 r2 where r: "timed_acquire m e ctx cfg def plan own ?w1 = (w2, r2)" by fastforce
  have i3: "inv (w_driver w3)" using assms(2) a(2) by simp
  show ?thesis
  proof (cases "mget (w_active w) ?key")
    case (Some g)
    then show ?thesis using assms(6,9,10) by (simp add: exclusive_guarded_def)
  next
    case None
    show ?thesis
    proof (cases r)
      case (Inl err')
      then have "r2 = Inl (mapAcquireError err')" using ta(3) r by simp
      then have w': "w' = remove_guard ?key w2" using None r assms(9) by (simp add: exclusive_guarded_def Let_def)
      note u = acquireLease_refused[OF assms(1) i3 a(1)[unfolded Inl]]
      have t: "env_clock e (w_tick w3) \<le> t" "env_clock e (w_tick w) \<le> t"
        using assms(10) w' ta(2) r u a(3) le[of "w_tick w3" "w_tick w'"] le[of "w_tick w" "w_tick w'"] by auto
      then have "holds t (w_driver w4) = holds t (w_driver w)" using u a(2) by (simp add: untouched_def)
      then show ?thesis using assms(6) t(2) w' ta(1) r by simp
    next
      case (Inr held)
      then have r2: "r2 = Inr held" using ta(3) r by simp
      let ?wm = "mark_held ?key (ld_ID def) w2"
      let ?f = "fn ctx (exclusive_lease_context def (rp_resourceKey plan) own held) ?wm"
      obtain wa wb rb where rel: "releaseLease m e background held wa = (wb, rb)" "w_driver wa = w_driver (fst ?f)"
          "w_tick wa = Suc (w_tick (fst ?f))"
        and wb: "w_driver (fst (release_held m e (ld_ID def) (rp_resourceKey plan) own held ?f)) = w_driver wb"
          "w_tick (fst (release_held m e (ld_ID def) (rp_resourceKey plan) own held ?f)) = w_tick wb"
        by (rule release_held_call[of m e held "fst ?f" "ld_ID def" "rp_resourceKey plan" own "snd ?f"]) (auto intro: that)
      have w': "w_driver w' = w_driver wb" "w_tick w' = w_tick wb"
        using None r r2 assms(9) wb by (auto simp: exclusive_guarded_def Let_def case_prod_beta)
      note g = acquireLease_granted[OF assms(1) i3 a(1)[unfolded Inr]]
      have invf: "inv (w_driver wa)" using assms(3)[of ?wm] g ta(1) r rel(2) by simp
      have keep: "separable (ld_ID def) (rp_resourceKey plan) \<and>
          (holds (env_clock e (w_tick wa)) (w_driver wa) ?slot = Some ?ow \<longrightarrow>
           entry (w_driver wa) (ld_ID def) (rp_resourceKey plan) = entry (w_driver w4) (ld_ID def) (rp_resourceKey plan))"
        if "ld_Mode def = ModeStrict"
      proof (intro conjI impI assms(7)[OF that])
        assume "holds (env_clock e (w_tick wa)) (w_driver wa) ?slot = Some ?ow"
        then have "holds (env_clock e (w_tick (fst ?f))) (w_driver wa) ?slot = Some ?ow"
          by (rule holds_mono[OF invf _ le]) (simp add: rel(3))
        then have "holds (env_clock e (w_tick (fst ?f))) (w_driver (fst ?f)) ?slot = Some ?ow" by (simp only: rel(2))
        from assms(8)[OF that refl this]
        show "entry (w_driver wa) (ld_ID def) (rp_resourceKey plan) = entry (w_driver w4) (ld_ID def) (rp_resourceKey plan)"
          using rel(2) ta(1) r by simp
      qed
      note gone = acquireLease_release_gone[OF assms(1) i3 a(1)[unfolded Inr] invf keep rel(1)]
      have "env_clock e (w_tick wa) \<le> env_clock e (w_tick w')" using w'(2) gone by (intro le) simp
      then have "env_clock e (w_tick wa) \<le> t" using assms(10) by simp
      then show ?thesis using gone holds_mono[of "w_driver wb" t ?slot ?ow "env_clock e (w_tick wa)"] unfolding w'(1) by blast
    qed
  qed
qed

text \<open>What the callback finds, until the deadline it is told.\<close>

lemma ExecuteExclusive_under_lease_until:
  assumes "mg_driver m = D" and "inv (w_driver w)"
    and "\<And>c lc w' def plan. Get (mg_registry m) (sy_DefinitionID req) = Some def \<Longrightarrow>
      snd (buildAcquirePlan m e def (sy_ResourceKey req) (sy_KeyInput req) w) = Inr plan \<Longrightarrow>
      lc_DefinitionID lc = ld_ID def \<Longrightarrow> lc_ResourceKey lc = rp_resourceKey plan \<Longrightarrow> lc_Ownership lc = sy_Ownership req \<Longrightarrow>
      holds (env_clock e (w_tick w' - 2)) (w_driver w') (slot (ld_ID def) (rp_resourceKey plan))
        = Some (om_OwnerID (sy_Ownership req)) \<Longrightarrow>
      (\<forall>T. env_clock e (w_tick w' - 2) \<le> T \<longrightarrow> T \<le> lc_LeaseDeadline lc \<longrightarrow>
        holds T (w_driver w') (slot (ld_ID def) (rp_resourceKey plan)) = Some (om_OwnerID (sy_Ownership req))) \<Longrightarrow>
      fn c lc w' = gn c lc w'"
  shows "ExecuteExclusive m e ctx req fn w = ExecuteExclusive m e ctx req gn w"
proof (rule ExecuteExclusive_cong)
  fix def plan cfg w1 w2 held key
  assume g: "Get (mg_registry m) (sy_DefinitionID req) = Some def"
      "snd (buildAcquirePlan m e def (sy_ResourceKey req) (sy_KeyInput req) w) = Inr plan"
    and w1: "w_driver w1 = w_driver w"
    and t: "timed_acquire m e ctx cfg def plan (sy_Ownership req) w1 = (w2, Inr held)"
  note gr = timed_acquire_granted[OF assms(1) _ t, unfolded w1, OF assms(2)]
  note un = timed_acquire_until[OF assms(1) _ t, unfolded w1, OF assms(2)]
  show "fn ctx (exclusive_lease_context def (rp_resourceKey plan) (sy_Ownership req) held) (mark_held key (ld_ID def) w2)
      = gn ctx (exclusive_lease_context def (rp_resourceKey plan) (sy_Ownership req) held) (mark_held key (ld_ID def) w2)"
    by (rule assms(3)[OF g]) (use gr un in \<open>auto simp: exclusive_lease_context_def granted_def\<close>)
qed

end

section \<open>Several keys: all or none\<close>

definition plain_held :: "string \<Rightarrow> string \<Rightarrow> string \<Rightarrow> heldLease \<Rightarrow> bool" where
  "plain_held d k ow h \<longleftrightarrow> hl_lineage h = None \<and> hl_fencingToken h = 0
     \<and> lr_ResourceKeys (hl_lease h) = [k] \<and> lr_DefinitionID (hl_lease h) = d \<and> lr_OwnerID (hl_lease h) = ow"

text \<open>From the next clock reading on, every acquired key is held until its lease expires.\<close>

definition all_held_in ::
  "('s \<Rightarrow> bool) \<Rightarrow> (string \<Rightarrow> string \<Rightarrow> 'x) \<Rightarrow> (time \<Rightarrow> 's \<Rightarrow> 'x \<Rightarrow> string option) \<Rightarrow> Env \<Rightarrow> string \<Rightarrow> string
    \<Rightarrow> (string \<times> heldLease) list \<Rightarrow> 's world \<Rightarrow> bool"
where
  "all_held_in I slot holds e d ow acquired w \<longleftrightarrow> I (w_driver w) \<and> (\<forall>(k, h) \<in> set acquired. plain_held d k ow h
     \<and> (\<forall>T \<ge> env_clock e (w_tick w). T \<le> lr_ExpiresAt (hl_lease h) \<longrightarrow> holds T (w_driver w) (slot d k) = Some ow))"

text \<open>The owner has no live lease on a key from the next clock reading on.\<close>

definition not_held_in ::
  "(string \<Rightarrow> string \<Rightarrow> 'x) \<Rightarrow> (time \<Rightarrow> 's \<Rightarrow> 'x \<Rightarrow> string option) \<Rightarrow> Env \<Rightarrow> string \<Rightarrow> string \<Rightarrow> 's world
    \<Rightarrow> string \<Rightarrow> bool"
where
  "not_held_in slot holds e d ow w k \<longleftrightarrow> (\<forall>T \<ge> env_clock e (w_tick w). holds T (w_driver w) (slot d k) \<noteq> Some ow)"

context reliable_driver
begin

abbreviation "all_held \<equiv> all_held_in inv slot holds"
abbreviation "not_held \<equiv> not_held_in slot holds"

lemmas all_held_def = all_held_in_def[of inv slot holds]
lemmas not_held_def = not_held_in_def[of slot holds]

lemma timed_acquire_ok:
  assumes "mg_driver m = D" and "mono (env_clock e)" and "inv (w_driver w)"
    and "ld_Mode def \<noteq> ModeStrict" and "timed_acquire m e ctx cfg def \<lparr>rp_resourceKey = k, rp_lineage = None\<rparr> own w = (w', r)"
  shows "inv (w_driver w')" and "w_tick w \<le> w_tick w'"
    and "\<And>T k'. env_clock e (w_tick w') \<le> T \<Longrightarrow> k' \<noteq> k \<Longrightarrow>
      holds T (w_driver w') (slot (ld_ID def) k') = holds T (w_driver w) (slot (ld_ID def) k')"
    and "\<And>h. r = Inr h \<Longrightarrow> plain_held (ld_ID def) k (om_OwnerID own) h \<and>
      (\<forall>T \<ge> env_clock e (w_tick w'). T \<le> lr_ExpiresAt (hl_lease h) \<longrightarrow>
         holds T (w_driver w') (slot (ld_ID def) k) = Some (om_OwnerID own))"
    and "\<And>err T. r = Inl err \<Longrightarrow> env_clock e (w_tick w') \<le> T \<Longrightarrow> holds T (w_driver w') = holds T (w_driver w)"
proof -
  let ?c = "contextWithAcquireTimeout e ctx cfg w"
  let ?n = "Suc (w_tick (snd ?c))"
  let ?rq = "\<lparr>aq_DefinitionID = ld_ID def, aq_ResourceKeys = [k], aq_OwnerID = om_OwnerID own, aq_LeaseTTL = ld_LeaseTTL def\<rparr>"
  let ?a = "Acquire D (fst ?c) (env_clock e ?n) (w_driver w) ?rq"
  have w': "w_driver w' = fst ?a" "w_tick w' = Suc (Suc ?n)"
    and r: "r = (case snd ?a of Inl err \<Rightarrow> Inl (mapAcquireError err)
       | Inr l \<Rightarrow> Inr \<lparr>hl_lease = l, hl_lineage = None, hl_fencingToken = 0\<rparr>)"
    using timed_acquire_plain[OF assms(4), of "\<lparr>rp_resourceKey = k, rp_lineage = None\<rparr>" m e ctx cfg own w] assms(1,5) by auto
  show "inv (w_driver w')" using inv_fst(1)[OF assms(3)] w' by simp
  show "w_tick w \<le> w_tick w'" using w' contextWithAcquireTimeout_tick[of w e ctx cfg] by simp
  have le: "env_clock e ?n \<le> T" if "env_clock e (w_tick w') \<le> T" for T
    using that w'(2) monoD[OF assms(2), of ?n "w_tick w'"] by simp
  have u: "untouched holds (env_clock e ?n) (w_driver w) (fst ?a)" if "snd ?a = Inl err" for err
    using that by (rule refused_fst(1)[OF assms(3)])
  have g: "granted slot holds (env_clock e ?n) (w_driver w) (fst ?a) (ld_ID def) [k] (om_OwnerID own) l" if "snd ?a = Inr l" for l
    using acquire_granted[OF assms(3), of "fst ?c" "env_clock e ?n" ?rq "fst ?a" l] that by (simp add: prod_eq_iff)
  show "holds T (w_driver w') (slot (ld_ID def) k') = holds T (w_driver w) (slot (ld_ID def) k')"
    if "env_clock e (w_tick w') \<le> T" "k' \<noteq> k" for T k'
  proof -
    have "slot (ld_ID def) k' \<noteq> slot (ld_ID def) k" using slot_inj that(2) by metis
    then show ?thesis using u g le[OF that(1)] w'
      by (cases "snd ?a") (auto simp: untouched_def granted_def)
  qed
  show "plain_held (ld_ID def) k (om_OwnerID own) h \<and>
      (\<forall>T \<ge> env_clock e (w_tick w'). T \<le> lr_ExpiresAt (hl_lease h) \<longrightarrow>
         holds T (w_driver w') (slot (ld_ID def) k) = Some (om_OwnerID own))" if "r = Inr h" for h
  proof -
    from that r obtain l where l: "snd ?a = Inr l" "h = \<lparr>hl_lease = l, hl_lineage = None, hl_fencingToken = 0\<rparr>"
      by (cases "snd ?a") auto
    have "holds T (fst ?a) (slot (ld_ID def) k) = Some (om_OwnerID own)"
      if "env_clock e (w_tick w') \<le> T" "T \<le> lr_ExpiresAt l" for T
      using acquire_until[OF assms(3), of "fst ?c" "env_clock e ?n" ?rq "fst ?a" l k T] l(1) le[OF that(1)] that(2)
      by (simp add: prod_eq_iff)
    then show ?thesis using g[OF l(1)] l(2) w' by (auto simp: plain_held_def granted_def)
  qed
  show "holds T (w_driver w') = holds T (w_driver w)" if "r = Inl err" "env_clock e (w_tick w') \<le> T" for err T
    using that(1) r u le[OF that(2)] w' by (cases "snd ?a") (auto simp: untouched_def)
qed

lemma all_held_mark [simp]: "all_held e d ow acquired (mark_held key d' w) = all_held e d ow acquired w"
  by (simp add: all_held_def)

lemma acquire_keys_ok:
  assumes "mg_driver m = D" and "mono (env_clock e)" and "ld_Mode def \<noteq> ModeStrict"
    and "acquire_keys m e ctx cfg def own keys acquired w = (w', acquired', err)"
    and "all_held e (ld_ID def) (om_OwnerID own) acquired w" and "distinct (map fst acquired @ keys)"
    and "\<forall>k \<in> set keys. not_held e (ld_ID def) (om_OwnerID own) w k"
  shows "all_held e (ld_ID def) (om_OwnerID own) acquired' w' \<and> w_tick w \<le> w_tick w'
    \<and> (\<exists>ks. map fst acquired' = map fst acquired @ ks \<and> prefix ks keys \<and> (err = None \<longrightarrow> ks = keys))
    \<and> (\<forall>k \<in> set keys - set (map fst acquired'). not_held e (ld_ID def) (om_OwnerID own) w' k)"
  using assms(4-7)
proof (induction keys arbitrary: acquired w)
  case Nil
  then show ?case by simp
next
  case (Cons k keys)
  let ?d = "ld_ID def" and ?ow = "om_OwnerID own"
  obtain w1 r where r: "timed_acquire m e ctx cfg def \<lparr>rp_resourceKey = k, rp_lineage = None\<rparr> own w = (w1, r)" by fastforce
  have inv: "inv (w_driver w)" using Cons.prems(2) by (simp add: all_held_def)
  note t = timed_acquire_ok[OF assms(1,2) inv assms(3) r]
  have later: "env_clock e (w_tick w) \<le> T" if "env_clock e (w_tick w1) \<le> T" for T
    using that monoD[OF assms(2) t(2)] by simp
  have keep: "not_held e ?d ?ow w1 k'" if "not_held e ?d ?ow w k'" "k' \<noteq> k" for k'
    using that t(3) later by (auto simp: not_held_def)
  have held: "all_held e ?d ?ow acquired w1"
    unfolding all_held_def
  proof (intro conjI ballI, rule t(1), clarify, intro conjI allI impI)
    fix k' h T
    assume in_acq: "(k', h) \<in> set acquired"
    then have ne: "k' \<noteq> k" using Cons.prems(3) by force
    show "plain_held ?d k' ?ow h" using Cons.prems(2) in_acq by (auto simp: all_held_def)
    assume T: "env_clock e (w_tick w1) \<le> T" "T \<le> lr_ExpiresAt (hl_lease h)"
    then have "holds T (w_driver w) (slot ?d k') = Some ?ow"
      using Cons.prems(2) in_acq later by (fastforce simp: all_held_def)
    then show "holds T (w_driver w1) (slot ?d k') = Some ?ow" using t(3)[OF T(1) ne] by simp
  qed
  show ?case
  proof (cases r)
    case (Inl err')
    then have "w' = w1" "acquired' = acquired" "err = Some err'" using Cons.prems(1) r by auto
    moreover have "not_held e ?d ?ow w1 k" using t(5)[OF Inl] later Cons.prems(4) by (simp add: not_held_def)
    ultimately show ?thesis using held t(2) keep Cons.prems(4) by (auto intro!: exI[of _ "[]"])
  next
    case (Inr h)
    let ?w2 = "mark_held \<lparr>gk_definitionID = ?d, gk_resourceKey = k, gk_ownerID = ?ow\<rparr> ?d w1"
    have "acquire_keys m e ctx cfg def own keys (acquired @ [(k, h)]) ?w2 = (w', acquired', err)"
      using Cons.prems(1) r Inr by simp
    moreover have "all_held e ?d ?ow (acquired @ [(k, h)]) ?w2" using held t(4)[OF Inr] by (auto simp: all_held_def)
    moreover have "distinct (map fst (acquired @ [(k, h)]) @ keys)" using Cons.prems(3) by auto
    moreover have "\<forall>k'\<in>set keys. not_held e ?d ?ow ?w2 k'"
      using keep Cons.prems(3,4) by (auto simp: not_held_def)
    ultimately have IH: "all_held e ?d ?ow acquired' w' \<and> w_tick ?w2 \<le> w_tick w'
      \<and> (\<exists>ks. map fst acquired' = map fst (acquired @ [(k, h)]) @ ks \<and> prefix ks keys \<and> (err = None \<longrightarrow> ks = keys))
      \<and> (\<forall>k' \<in> set keys - set (map fst acquired'). not_held e ?d ?ow w' k')" by (rule Cons.IH)
    then obtain ks where "map fst acquired' = map fst acquired @ k # ks" "prefix ks keys" "err = None \<longrightarrow> ks = keys" by auto
    then show ?thesis using IH t(2) by (auto intro!: exI[of _ "k # ks"])
  qed
qed

lemma release_held_ok:
  assumes "mg_driver m = D" and "mono (env_clock e)" and "inv (w_driver w)" and "plain_held d k ow h"
    and "release_held m e d' key own h (w, ret) = (w', ret')"
  shows "inv (w_driver w') \<and> not_held e d ow w' k \<and> (\<forall>k'. not_held e d ow w k' \<longrightarrow> not_held e d ow w' k')"
proof -
  let ?t = "env_clock e (Suc (w_tick w))"
  let ?r = "Release D background ?t (w_driver w) (hl_lease h)"
  have w': "w_driver w' = fst ?r" "w_tick w' = Suc (Suc (w_tick w))"
    using release_held_plain[of h m e d' key own w ret] assms(1,4,5) by (auto simp: plain_held_def)
  have l: "lr_ResourceKeys (hl_lease h) = [k]" "lr_DefinitionID (hl_lease h) = d" "lr_OwnerID (hl_lease h) = ow"
    using assms(4) by (simp_all add: plain_held_def)
  have inv': "inv (fst ?r)" by (rule inv_fst(2)[OF assms(3)])
  have le: "?t \<le> T" "env_clock e (w_tick w) \<le> T" if "env_clock e (w_tick w') \<le> T" for T
    using that w'(2) monoD[OF assms(2), of "Suc (w_tick w)" "w_tick w'"] monoD[OF assms(2), of "w_tick w" "w_tick w'"] by auto
  have "holds ?t (fst ?r) (slot d k) \<noteq> Some ow"
    using release_ends_hold[OF assms(3) surjective_pairing l(1), of ?t background] l(2,3) by simp
  then have "not_held e d ow w' k"
    unfolding not_held_def w'(1) using holds_mono[OF inv'] le(1) by blast
  moreover have "not_held e d ow w' k'" if "not_held e d ow w k'" for k'
  proof (cases "snd ?r")
    case None
    then have "released slot holds ?t (w_driver w) (fst ?r) (hl_lease h)"
      using release_done[OF assms(3), of background ?t "hl_lease h" "fst ?r"] by (simp add: prod_eq_iff)
    then show ?thesis using that le w' by (auto simp: released_def not_held_def split: if_splits)
  next
    case (Some err)
    then have "untouched holds ?t (w_driver w) (fst ?r)"
      using release_refused[OF assms(3), of background ?t "hl_lease h" "fst ?r"] by (simp add: prod_eq_iff)
    then show ?thesis using that le w' by (auto simp: untouched_def not_held_def)
  qed
  ultimately show ?thesis using inv' w' by simp
qed

lemma release_all_ok:
  assumes "mg_driver m = D" and "mono (env_clock e)" and "inv (w_driver w)"
    and "\<forall>(k, h) \<in> set acquired. plain_held d k ow h" and "release_all m e d' own acquired (w, ret) = (w', ret')"
  shows "inv (w_driver w') \<and> (\<forall>k \<in> fst ` set acquired. not_held e d ow w' k)
    \<and> (\<forall>k'. not_held e d ow w k' \<longrightarrow> not_held e d ow w' k')"
  using assms(3-5)
proof (induction acquired arbitrary: w ret rule: rev_induct)
  case Nil
  then show ?case by (simp add: release_all_def)
next
  case (snoc x acquired)
  obtain k h where x: "x = (k, h)" by (cases x)
  obtain w1 ret1 where r: "release_held m e d' k own h (w, ret) = (w1, ret1)" by fastforce
  have "plain_held d k ow h" using snoc.prems(2) x by simp
  note h = release_held_ok[OF assms(1,2) snoc.prems(1) this r]
  have "release_all m e d' own acquired (w1, ret1) = (w', ret')" using snoc.prems(3) x r by (simp add: release_all_def)
  with snoc.IH[of w1 ret1] h snoc.prems(2) show ?case by (auto simp: x)
qed

lemma lease_bounds_deadline: "h \<in> set hs \<Longrightarrow> snd (lease_bounds hs) \<le> lr_ExpiresAt (hl_lease h)"
proof -
  have f: "snd (fold (\<lambda>h (ttl, deadline).
           (if lr_LeaseTTL (hl_lease h) < ttl then lr_LeaseTTL (hl_lease h) else ttl,
            if lr_ExpiresAt (hl_lease h) < deadline then lr_ExpiresAt (hl_lease h) else deadline)) rest acc) \<le> snd acc
      \<and> (\<forall>h \<in> set rest. snd (fold (\<lambda>h (ttl, deadline).
           (if lr_LeaseTTL (hl_lease h) < ttl then lr_LeaseTTL (hl_lease h) else ttl,
            if lr_ExpiresAt (hl_lease h) < deadline then lr_ExpiresAt (hl_lease h) else deadline)) rest acc)
          \<le> lr_ExpiresAt (hl_lease h))" for rest acc
  proof (induction rest arbitrary: acc)
    case (Cons a rest)
    obtain t d where "acc = (t, d)" by (cases acc)
    then show ?case using Cons[of "(if lr_LeaseTTL (hl_lease a) < t then lr_LeaseTTL (hl_lease a) else t,
            if lr_ExpiresAt (hl_lease a) < d then lr_ExpiresAt (hl_lease a) else d)"]
      by (auto split: if_splits)
  qed simp
  assume "h \<in> set hs"
  then show ?thesis using f by (cases hs) (auto simp: lease_bounds_def)
qed

text \<open>What the callback may assume about its keys.\<close>

abbreviation "keys_held e req keys lc w \<equiv> lc_DefinitionID lc = ml_DefinitionID req \<and> lc_Ownership lc = ml_Ownership req \<and>
  lc_ResourceKeys lc = keys \<and>
  (\<forall>k \<in> set keys. \<forall>T. env_clock e (w_tick w) \<le> T \<longrightarrow> T \<le> lc_LeaseDeadline lc \<longrightarrow>
     holds T (w_driver w) (slot (ml_DefinitionID req) k) = Some (om_OwnerID (ml_Ownership req)))"

lemma acquired_keys_held:
  assumes "all_held e d ow acquired w" and "ml_DefinitionID req = d" and "om_OwnerID (ml_Ownership req) = ow"
    and "map fst acquired = keys"
  shows "keys_held e req keys (buildMultipleLeaseContext req acquired) w"
proof -
  have lc: "lc_LeaseDeadline (buildMultipleLeaseContext req acquired) = snd (lease_bounds (map snd acquired))"
    "lc_ResourceKeys (buildMultipleLeaseContext req acquired) = keys"
    "lc_DefinitionID (buildMultipleLeaseContext req acquired) = d"
    "lc_Ownership (buildMultipleLeaseContext req acquired) = ml_Ownership req"
    using assms(2,4) by (simp_all add: buildMultipleLeaseContext_def case_prod_beta)
  have "holds T (w_driver w) (slot d k) = Some ow"
    if "(k, h) \<in> set acquired" "env_clock e (w_tick w) \<le> T" "T \<le> snd (lease_bounds (map snd acquired))" for k h T
  proof -
    have "T \<le> lr_ExpiresAt (hl_lease h)" using that(1,3) lease_bounds_deadline[of h "map snd acquired"] by force
    then show ?thesis using assms(1) that(1,2) by (auto simp: all_held_def)
  qed
  then have "holds T (w_driver w) (slot d k) = Some ow"
    if "k \<in> set keys" "env_clock e (w_tick w) \<le> T" "T \<le> snd (lease_bounds (map snd acquired))" for k T
    using that assms(4) by force
  then show ?thesis unfolding lc assms(2,3) by simp
qed

lemma acquire_keys_start:
  assumes "mg_driver m = D" and "mono (env_clock e)" and "ld_Mode def \<noteq> ModeStrict" and "inv (w_driver w)"
    and "distinct keys" and "\<forall>k \<in> set keys. not_held e (ld_ID def) (om_OwnerID own) w k"
    and "acquire_keys m e ctx cfg def own keys [] w = (w', acquired, err)"
  shows "all_held e (ld_ID def) (om_OwnerID own) acquired w'"
    and "err = None \<Longrightarrow> map fst acquired = keys"
    and "\<forall>k \<in> set keys - set (map fst acquired). not_held e (ld_ID def) (om_OwnerID own) w' k"
  using acquire_keys_ok[OF assms(1-3,7)] assms(4-6) by (auto simp: all_held_in_def)

lemma multiple_guarded_under_lease:
  assumes "mg_driver m = D" and "mono (env_clock e)" and "ld_Mode def \<noteq> ModeStrict" and "inv (w_driver w)"
    and "distinct keys" and "ml_DefinitionID req = ld_ID def"
    and "\<forall>k \<in> set keys. not_held e (ld_ID def) (om_OwnerID (ml_Ownership req)) w k"
    and "\<And>c lc w. keys_held e req keys lc w \<Longrightarrow> fn c lc w = gn c lc w"
  shows "multiple_guarded m e ctx def req keys fn w = multiple_guarded m e ctx def req keys gn w"
proof (cases "applyRuntimeOverrides def (ml_Overrides req)")
  case (Inr cfg)
  obtain w1 acquired err where a: "acquire_keys m e ctx cfg def (ml_Ownership req) keys [] w = (w1, acquired, err)"
    by (metis prod_cases3)
  note st = acquire_keys_start[OF assms(1-5,7) a]
  have "fn ctx (buildMultipleLeaseContext req acquired) w1 = gn ctx (buildMultipleLeaseContext req acquired) w1"
    if "err = None"
    by (rule assms(8)[OF acquired_keys_held[OF st(1) assms(6) refl st(2)[OF that]]])
  then show ?thesis using Inr a by (simp add: multiple_guarded_def split: option.split)
qed (simp add: multiple_guarded_def)

lemma multiple_guarded_no_lease_left:
  assumes "mg_driver m = D" and "mono (env_clock e)" and "ld_Mode def \<noteq> ModeStrict" and "inv (w_driver w)"
    and "distinct keys" and "\<forall>k \<in> set keys. not_held e (ld_ID def) (om_OwnerID (ml_Ownership req)) w k"
    and "\<And>c l w. inv (w_driver w) \<Longrightarrow> inv (w_driver (fst (fn c l w)))"
    and "k \<in> set keys"
  shows "not_held e (ld_ID def) (om_OwnerID (ml_Ownership req)) (fst (multiple_guarded m e ctx def req keys fn w)) k"
proof (cases "applyRuntimeOverrides def (ml_Overrides req)")
  case (Inl err)
  then show ?thesis using assms(6,8) by (simp add: multiple_guarded_def)
next
  case (Inr cfg)
  let ?d = "ld_ID def" and ?own = "ml_Ownership req"
  obtain w1 acquired err where a: "acquire_keys m e ctx cfg def ?own keys [] w = (w1, acquired, err)"
    by (metis prod_cases3)
  note st = acquire_keys_start[OF assms(1-6) a]
  let ?f = "case err of Some x \<Rightarrow> (w1, Some x) | None \<Rightarrow> fn ctx (buildMultipleLeaseContext req acquired) w1"
  obtain w2 r2 where r: "release_all m e ?d ?own acquired (fst ?f, snd ?f) = (w2, r2)" by fastforce
  then have res: "multiple_guarded m e ctx def req keys fn w = (w2, r2)"
    using Inr a by (auto simp: multiple_guarded_def split: option.split)
  have inv1: "inv (w_driver (fst ?f))" using st(1) assms(7) by (auto simp: all_held_in_def split: option.split)
  have "\<forall>(k, h) \<in> set acquired. plain_held ?d k (om_OwnerID ?own) h" using st(1) by (auto simp: all_held_in_def)
  note rel = release_all_ok[OF assms(1,2) inv1 this r]
  show ?thesis
  proof (cases "k \<in> fst ` set acquired")
    case True
    then show ?thesis using rel res by auto
  next
    case False
    then have "err \<noteq> None" using st(2) assms(8) by (metis set_map)
    then have "fst ?f = w1" by auto
    moreover have "not_held e ?d (om_OwnerID ?own) w1 k" using st(3) False assms(8) by simp
    ultimately show ?thesis using rel res by simp
  qed
qed

text \<open>The guards around the acquisition do not touch the driver.\<close>

lemma ExecuteMultiple_cases:
  assumes "Get (mg_registry m) (ml_DefinitionID req) = Some def"
  obtains err where "\<And>fn. ExecuteMultipleExclusive m e ctx req fn w = (w, Some err)"
  | w2 where "\<And>fn. ExecuteMultipleExclusive m e ctx req fn w = (w2, Some (Sentinel ErrReentrantAcquire))"
      "w_driver w2 = w_driver w" "w_tick w2 = w_tick w"
  | w2 gks where "\<And>fn. ExecuteMultipleExclusive m e ctx req fn w =
        map_prod releaseInFlightExecution id (map_prod (fold remove_guard gks) id
          (multiple_guarded m e ctx def req (sort (ml_Keys req)) fn w2))"
      "w_driver w2 = w_driver w" "w_tick w2 = w_tick w" "ld_Mode def \<noteq> ModeStrict" "distinct (ml_Keys req)"
proof -
  have ig: "w_driver (fst (install_guards gks w')) = w_driver w' \<and> w_tick (fst (install_guards gks w')) = w_tick w'" for gks w'
    by (induction gks w' rule: install_guards.induct) auto
  have dup: "\<not> has_dup seen ks \<Longrightarrow> distinct ks \<and> set ks \<inter> set seen = {}" for seen ks
  proof (induction ks arbitrary: seen)
    case (Cons k ks)
    then have "k \<notin> set seen" "\<not> has_dup (k # seen) ks" by (auto split: if_splits)
    with Cons.IH[of "k # seen"] show ?case by auto
  qed simp
  let ?gks = "map (\<lambda>key. \<lparr>gk_definitionID = ld_ID def, gk_resourceKey = key,
    gk_ownerID = om_OwnerID (ml_Ownership req)\<rparr>) (sort (ml_Keys req))"
  let ?w1 = "w\<lparr>w_inFlight := w_inFlight w + 1\<rparr>"
  obtain w2 ok where i: "install_guards ?gks ?w1 = (w2, ok)" by fastforce
  have w2: "w_driver w2 = w_driver w" "w_tick w2 = w_tick w" using ig[of ?gks ?w1] i by auto
  consider "w_shuttingDown w \<or> ld_Mode def = ModeStrict \<or> ml_Keys req = [] \<or> hasDuplicateKeys (ml_Keys req)"
    | "\<not> w_shuttingDown w" "ld_Mode def \<noteq> ModeStrict" "ml_Keys req \<noteq> []" "\<not> hasDuplicateKeys (ml_Keys req)" by blast
  then show ?thesis
  proof cases
    case 1
    then show ?thesis using assms by (intro that(1)[of "Sentinel ErrPolicyViolation"]) (auto simp: ExecuteMultipleExclusive_def)
  next
    case 2
    have d: "distinct (ml_Keys req)" using dup[of "[]" "ml_Keys req"] 2(4) by (simp add: hasDuplicateKeys_def)
    show ?thesis
    proof (cases ok)
      case True
      then show ?thesis using 2 assms i w2 d
        by (intro that(3)[of ?gks w2]) (auto simp: ExecuteMultipleExclusive_def tryAdmit_eq Let_def)
    next
      case False
      then show ?thesis using 2 assms i w2
        by (intro that(2)[of "releaseInFlightExecution w2"])
          (auto simp: ExecuteMultipleExclusive_def tryAdmit_eq Let_def releaseInFlightExecution_def)
    qed
  qed
qed

lemma fold_remove_guard_driver [simp]:
  "w_driver (fold remove_guard gks w) = w_driver w" "w_tick (fold remove_guard gks w) = w_tick w"
  by (induction gks arbitrary: w) simp_all

lemma ExecuteMultiple_under_lease:
  assumes "mg_driver m = D" and "mono (env_clock e)" and "inv (w_driver w)"
    and "Get (mg_registry m) (ml_DefinitionID req) = Some def" and "ld_ID def = ml_DefinitionID req"
    and "\<forall>k \<in> set (ml_Keys req). not_held e (ml_DefinitionID req) (om_OwnerID (ml_Ownership req)) w k"
    and "\<And>c lc w. keys_held e req (sort (ml_Keys req)) lc w \<Longrightarrow> fn c lc w = gn c lc w"
  shows "ExecuteMultipleExclusive m e ctx req fn w = ExecuteMultipleExclusive m e ctx req gn w"
proof (rule ExecuteMultiple_cases[OF assms(4), of e ctx w])
  fix w2 gks
  assume eq: "\<And>fn. ExecuteMultipleExclusive m e ctx req fn w =
        map_prod releaseInFlightExecution id (map_prod (fold remove_guard gks) id
          (multiple_guarded m e ctx def req (sort (ml_Keys req)) fn w2))"
    and w2: "w_driver w2 = w_driver w" "w_tick w2 = w_tick w" "ld_Mode def \<noteq> ModeStrict" "distinct (ml_Keys req)"
  have "multiple_guarded m e ctx def req (sort (ml_Keys req)) fn w2 =
      multiple_guarded m e ctx def req (sort (ml_Keys req)) gn w2"
    using w2 assms(3,5,6) by (intro multiple_guarded_under_lease assms(1,2,7)) (auto simp: not_held_in_def)
  then show ?thesis using eq by simp
qed simp_all

lemma ExecuteMultiple_no_lease_left:
  assumes "mg_driver m = D" and "mono (env_clock e)" and "inv (w_driver w)"
    and "Get (mg_registry m) (ml_DefinitionID req) = Some def" and "ld_ID def = ml_DefinitionID req"
    and "\<forall>k \<in> set (ml_Keys req). not_held e (ml_DefinitionID req) (om_OwnerID (ml_Ownership req)) w k"
    and "\<And>c l w. inv (w_driver w) \<Longrightarrow> inv (w_driver (fst (fn c l w)))" and "k \<in> set (ml_Keys req)"
  shows "not_held e (ml_DefinitionID req) (om_OwnerID (ml_Ownership req))
    (fst (ExecuteMultipleExclusive m e ctx req fn w)) k"
proof (rule ExecuteMultiple_cases[OF assms(4), of e ctx w])
  fix w2 gks
  assume eq: "\<And>fn. ExecuteMultipleExclusive m e ctx req fn w =
        map_prod releaseInFlightExecution id (map_prod (fold remove_guard gks) id
          (multiple_guarded m e ctx def req (sort (ml_Keys req)) fn w2))"
    and w2: "w_driver w2 = w_driver w" "w_tick w2 = w_tick w" "ld_Mode def \<noteq> ModeStrict" "distinct (ml_Keys req)"
  have "not_held e (ld_ID def) (om_OwnerID (ml_Ownership req))
      (fst (multiple_guarded m e ctx def req (sort (ml_Keys req)) fn w2)) k"
    using w2 assms(3,5,6,8) by (intro multiple_guarded_no_lease_left assms(1,2,7)) (auto simp: not_held_in_def)
  then show ?thesis using eq assms(5) by (simp add: not_held_in_def releaseInFlightExecution_def)
qed (use assms(6,8) in \<open>auto simp: not_held_in_def\<close>)

end

end
