(* ===== verification/Runtime_Props.thy ===== *)
theory Runtime_Props
  imports Runtime_Correct
begin

text \<open>
  What the runtime manager guarantees on the in-memory backend, and the one place where its guard
  table goes wrong. The general lemmas are in \<open>Runtime_Correct\<close>, in the locales of the driver
  contract; here they are read off for \<open>memory_driver\<close>.
\<close>

section \<open>A concrete manager\<close>

definition ex_one :: Registry where
  "ex_one = \<lparr>rg_definitions = [(''order'', ex_parent)], rg_composites = []\<rparr>"

definition ex_manager :: "MemoryDriver Manager" where
  "ex_manager = \<lparr>mg_registry = ex_one, mg_driver = memory_driver, mg_bridge = False,
     mg_lineageDefs = [(''order'', False)], mg_cachedDefsByID = [(''order'', ex_parent)]\<rparr>"

definition ex_env :: Env where
  "ex_env = \<lparr>env_clock = int, env_rand = (\<lambda>_. Inr ''00''), env_late = (\<lambda>_. None)\<rparr>"

definition ex_own :: "string \<Rightarrow> OwnershipMeta" where
  "ex_own ow = \<lparr>om_ServiceName = ''svc'', om_InstanceID = ''i'', om_HandlerName = [], om_OwnerID = ow,
     om_RequestID = [], om_MessageID = [], om_Attempt = 0, om_ConsumerGroup = []\<rparr>"

definition ex_sync :: "string \<Rightarrow> SyncLockRequest" where
  "ex_sync ow = \<lparr>sy_DefinitionID = ''order'', sy_ResourceKey = ''order:1'', sy_KeyInput = None,
     sy_Ownership = ex_own ow, sy_Overrides = None\<rparr>"

definition ex_multi :: "string \<Rightarrow> string list \<Rightarrow> MultipleLockRequest" where
  "ex_multi ow ks = \<lparr>ml_DefinitionID = ''order'', ml_Keys = ks, ml_Ownership = ex_own ow, ml_Overrides = None\<rparr>"

lemmas ex_manager_simps = ex_manager_def ex_one_def ex_env_def ex_sync_def ex_multi_def ex_own_def new_world_def

lemma ex_get: "Get (mg_registry ex_manager) ''order'' = Some ex_parent"
  by (simp add: ex_manager_def ex_one_def Get_def)

lemma ex_parent_simps: "ld_ID ex_parent = ''order''" "ld_Mode ex_parent = ModeStandard" "ld_LeaseTTL ex_parent = 30"
  "ld_WaitTimeout ex_parent = 0" "ld_ParentRef ex_parent = []"
  by (simp_all add: ex_parent_def ex_def_def)

lemma ex_manager_New: "NewManager ex_one (Some memory_driver) False = Inr ex_manager"
proof -
  have "ValidateDefinition ex_parent = None"
    by (simp add: ValidateDefinition_def definitionValidations_def requireDefinitionID_def
        requireDefinitionResource_def requireKeyBuilder_def requireStrictFencing_def
        requireStrictFailClosed_def requireStrictAsyncIdempotency_def ex_parent_def
        ex_def_def trim_space_visible visible_def)
  moreover have "ValidateDefinitionAgainstRegistry ex_parent [(''order'', ex_parent)] = None"
    by (simp add: ValidateDefinitionAgainstRegistry_def ex_parent_def ex_def_def)
  ultimately have "Validate ex_one = None"
    by (simp add: ex_one_def Validate_def validate_definition_entry_def ex_parent_ID)
  then show ?thesis
    by (simp add: NewManager_def ex_manager_def ex_one_def RequiresLineageDriver_def RequiresStrictRuntimeDriver_def
        Registry_Definitions_def children_index_def ex_parent_simps memory_driver_def)
qed

lemma mem_never_New: "mem_holds t NewMemoryDriver k = None"
  by (simp add: mem_holds_def live_def NewMemoryDriver_def view_def)

section \<open>Single keys\<close>

text \<open>
  The bookkeeping of \<^verbatim>\<open>ExecuteExclusive\<close> balances, on any backend and on every path: whatever the
  request, if the callback leaves guards, counters and in-flight count as it found them, so does the
  whole call, whether it was refused, failed to acquire, or ran.
\<close>

theorem execute_exclusive_balances:
  assumes "\<forall>c l w. books (fst (fn c l w)) = books w"
  shows "books (fst (ExecuteExclusive m e ctx req fn w)) = books w"
  using ExecuteExclusive_books[of fn] assms by blast

theorem execute_exclusive_balances_witness:
  "books (fst (ExecuteExclusive ex_manager ex_env background (ex_sync ''a'')
     (\<lambda>_ _ w. (w, Some (Sentinel ErrLockBusy))) (new_world NewMemoryDriver))) = books (new_world NewMemoryDriver)"
  by (rule execute_exclusive_balances) simp

text \<open>
  The check put in front of the callback: the lease context names the definition, the resource key and
  the owner of the request, and that key is held by that owner, at the clock reading of the grant and
  at every later moment up to the deadline the lease context announces.
\<close>

definition starts_held ::
  "MemoryDriver Manager \<Rightarrow> Env \<Rightarrow> SyncLockRequest \<Rightarrow> MemoryDriver world \<Rightarrow> LeaseContext \<Rightarrow> MemoryDriver world \<Rightarrow> bool"
where
  "starts_held m e req w0 lc w \<longleftrightarrow>
     (\<exists>def plan. Get (mg_registry m) (sy_DefinitionID req) = Some def
        \<and> snd (buildAcquirePlan m e def (sy_ResourceKey req) (sy_KeyInput req) w0) = Inr plan
        \<and> lc_DefinitionID lc = ld_ID def \<and> lc_ResourceKey lc = rp_resourceKey plan \<and> lc_Ownership lc = sy_Ownership req
        \<and> mem_holds (env_clock e (w_tick w - 2)) (w_driver w) (mem_slot (ld_ID def) (rp_resourceKey plan))
            = Some (om_OwnerID (sy_Ownership req))
        \<and> (\<forall>T. env_clock e (w_tick w - 2) \<le> T \<longrightarrow> T \<le> lc_LeaseDeadline lc \<longrightarrow>
            mem_holds T (w_driver w) (mem_slot (ld_ID def) (rp_resourceKey plan)) = Some (om_OwnerID (sy_Ownership req))))"

definition only_if_held ::
  "MemoryDriver Manager \<Rightarrow> Env \<Rightarrow> SyncLockRequest \<Rightarrow> MemoryDriver world \<Rightarrow> go_err \<Rightarrow> MemoryDriver callback
    \<Rightarrow> MemoryDriver callback"
where
  "only_if_held m e req w0 x fn c lc w = (if starts_held m e req w0 lc w then fn c lc w else (w, x))"

text \<open>
  C16. The callback of \<^verbatim>\<open>ExecuteExclusive\<close> starts with the requested key locked. At its start the
  lease context names the definition, key and owner of the request, the backend has the key locked
  for that owner at the clock reading of the grant, and the lease on record lasts until the deadline
  the context announces: a check of all this in front of the callback changes no run. What happens
  to the lease while the callback runs is not claimed: a callback may outlive its lease.
\<close>

theorem exclusive_starts_under_lease:
  assumes "mg_driver m = memory_driver" and "md_inv (w_driver w)"
  shows "ExecuteExclusive m e ctx req (only_if_held m e req w x fn) w = ExecuteExclusive m e ctx req fn w"
proof (rule mem.ExecuteExclusive_under_lease_until[OF assms])
  fix c and lc :: LeaseContext and w' :: "MemoryDriver world" and def plan
  assume "Get (mg_registry m) (sy_DefinitionID req) = Some def"
    "snd (buildAcquirePlan m e def (sy_ResourceKey req) (sy_KeyInput req) w) = Inr plan"
    "lc_DefinitionID lc = ld_ID def" "lc_ResourceKey lc = rp_resourceKey plan" "lc_Ownership lc = sy_Ownership req"
    "mem_holds (env_clock e (w_tick w' - 2)) (w_driver w') (mem_slot (ld_ID def) (rp_resourceKey plan))
      = Some (om_OwnerID (sy_Ownership req))"
    "\<forall>T. env_clock e (w_tick w' - 2) \<le> T \<longrightarrow> T \<le> lc_LeaseDeadline lc \<longrightarrow>
      mem_holds T (w_driver w') (mem_slot (ld_ID def) (rp_resourceKey plan)) = Some (om_OwnerID (sy_Ownership req))"
  then have "starts_held m e req w lc w'" unfolding starts_held_def by blast
  then show "only_if_held m e req w x fn c lc w' = fn c lc w'" by (simp add: only_if_held_def)
qed

theorem exclusive_starts_under_lease_witness:
  "ExecuteExclusive ex_manager ex_env background (ex_sync ''a'')
     (only_if_held ex_manager ex_env (ex_sync ''a'') (new_world NewMemoryDriver) None
        (\<lambda>_ _ w. (w, Some (Sentinel ErrLockBusy)))) (new_world NewMemoryDriver)
   = ExecuteExclusive ex_manager ex_env background (ex_sync ''a'')
     (\<lambda>_ _ w. (w, Some (Sentinel ErrLockBusy))) (new_world NewMemoryDriver)"
  by (rule exclusive_starts_under_lease) (simp_all add: ex_manager_def new_world_def md_inv_New)

lemma exclusive_plain:
  fixes m :: "'s Manager"
  assumes "Get (mg_registry m) (sy_DefinitionID req) = Some def" and "mget (mg_lineageDefs m) (ld_ID def) \<noteq> Some True"
    and "sy_ResourceKey req = k" and "k \<noteq> []"
  obtains
    (refused) err where "\<And>fn. ExecuteExclusive m e ctx req fn w = (w, Some err)"
  | (admitted) cfg where "applyRuntimeOverrides def (sy_Overrides req) = Inr cfg"
      "\<And>fn. ExecuteExclusive m e ctx req fn w = map_prod releaseInFlightExecution id
        (exclusive_guarded m e ctx cfg def \<lparr>rp_resourceKey = k, rp_lineage = None\<rparr> (sy_Ownership req) fn
          (w\<lparr>w_inFlight := w_inFlight w + 1\<rparr>))"
proof (cases "w_shuttingDown w")
  case True
  then show ?thesis using refused by (simp add: ExecuteExclusive_def)
next
  case False
  then show ?thesis using assms admitted refused
    by (cases "applyRuntimeOverrides def (sy_Overrides req)")
       (simp_all add: ExecuteExclusive_def buildAcquirePlan_def tryAdmit_eq)
qed

lemma exclusive_planned:
  fixes m :: "'s Manager"
  assumes "Get (mg_registry m) (sy_DefinitionID req) = Some def"
    and "buildAcquirePlan m e def (sy_ResourceKey req) (sy_KeyInput req) w = (w1, Inr plan)"
  obtains
    (refused) err w2 where "ExecuteExclusive m e ctx req fn w = (w2, Some err)" "w_driver w2 = w_driver w" "w_tick w2 = w_tick w"
  | (admitted) cfg where "ExecuteExclusive m e ctx req fn w = map_prod releaseInFlightExecution id
        (exclusive_guarded m e ctx cfg def plan (sy_Ownership req) fn (w1\<lparr>w_inFlight := w_inFlight w1 + 1\<rparr>))"
proof -
  have w1: "w_driver w1 = w_driver w" "w_tick w1 = w_tick w" "w_shuttingDown w1 = w_shuttingDown w"
    using buildAcquirePlan_world[of m e def "sy_ResourceKey req" "sy_KeyInput req" w] assms(2) by simp_all
  show ?thesis
  proof (cases "w_shuttingDown w")
    case True
    then show ?thesis by (intro refused[of w]) (simp_all add: ExecuteExclusive_def)
  next
    case False
    then show ?thesis
      using assms w1 refused[of w1] admitted
      by (cases "applyRuntimeOverrides def (sy_Overrides req)") (auto simp: ExecuteExclusive_def tryAdmit_eq)
  qed
qed

text \<open>
  C19. \<^verbatim>\<open>ExecuteExclusive\<close> leaves no lease behind, for standard, strict and lineage definitions and for
  keys that are given or built. If the owner has no lease on the resource key the request resolves
  to before the call, it has none after it, whatever path the call took. The callback may do anything
  that keeps the backend's invariant and lets time pass; for a strict definition it must not replace
  the owner's lease on this key by another one of the same owner, and the definition's identifier
  and the key must be free of NUL bytes.
\<close>

theorem exclusive_leaves_no_lease:
  assumes "mg_driver m = memory_driver" and "md_inv (w_driver w)" and "mono (env_clock e)"
    and "\<forall>c l w. md_inv (w_driver w) \<longrightarrow> md_inv (w_driver (fst (fn c l w)))"
    and "\<forall>c l w. w_tick w \<le> w_tick (fst (fn c l w))"
    and "Get (mg_registry m) (sy_DefinitionID req) = Some def" and "d = ld_ID def"
    and "buildAcquirePlan m e def (sy_ResourceKey req) (sy_KeyInput req) w = (wp, Inr plan)" and "k = rp_resourceKey plan"
    and "om_OwnerID (sy_Ownership req) = ow"
    and "\<forall>t \<ge> env_clock e (w_tick w). mem_holds t (w_driver w) (mem_slot d k) \<noteq> Some ow"
    and "ld_Mode def = ModeStrict \<longrightarrow> CHR 0x00 \<notin> set d \<and> CHR 0x00 \<notin> set k"
    and "ld_Mode def = ModeStrict \<longrightarrow> (\<forall>c l w.
      mem_holds (env_clock e (w_tick (fst (fn c l w)))) (w_driver (fst (fn c l w))) (mem_slot d k) = Some ow \<longrightarrow>
      mem_entry (w_driver (fst (fn c l w))) d k = mem_entry (w_driver w) d k)"
    and "ExecuteExclusive m e ctx req fn w = (w', err)" and "env_clock e (w_tick w') \<le> t"
  shows "mem_holds t (w_driver w') (mem_slot d k) \<noteq> Some ow"
proof (rule exclusive_planned[OF assms(6,8), of ctx fn])
  fix x w2 assume "ExecuteExclusive m e ctx req fn w = (w2, Some x)" "w_driver w2 = w_driver w" "w_tick w2 = w_tick w"
  then show ?thesis using assms(11,14,15) by auto
next
  fix cfg
  let ?w = "wp\<lparr>w_inFlight := w_inFlight wp + 1\<rparr>"
  let ?g = "exclusive_guarded m e ctx cfg def plan (sy_Ownership req) fn ?w"
  assume "ExecuteExclusive m e ctx req fn w = map_prod releaseInFlightExecution id ?g"
  with assms(14) have w': "w' = releaseInFlightExecution (fst ?g)" by (simp add: prod_eq_iff)
  have wp: "w_driver ?w = w_driver w" "w_tick ?w = w_tick w"
    using buildAcquirePlan_world[of m e def "sy_ResourceKey req" "sy_KeyInput req" w] assms(8) by simp_all
  have "mem_holds t (w_driver (fst ?g)) (mem_slot (ld_ID def) (rp_resourceKey plan)) \<noteq> Some (om_OwnerID (sy_Ownership req))"
  proof (rule mem.exclusive_guarded_no_lease_left[OF assms(1) _ _ assms(3) _ _ _ _ surjective_pairing])
    show "md_inv (w_driver ?w)" using assms(2) wp(1) by simp
    show "ld_Mode def = ModeStrict \<Longrightarrow> mem_separable (ld_ID def) (rp_resourceKey plan)"
      using assms(7,9,12) by (simp add: mem_separable_def)
    show "env_clock e (w_tick (fst ?g)) \<le> t" using assms(15) w' by (simp add: releaseInFlightExecution_def)
  qed (use assms(4,5,7,9,10,11,13) wp in auto)
  then show ?thesis using w' assms(7,9,10) by (simp add: releaseInFlightExecution_def)
qed

definition ex_strict_manager :: "MemoryDriver Manager" where
  "ex_strict_manager = ex_manager\<lparr>mg_registry := \<lparr>rg_definitions = [(''order'', ex_parent\<lparr>ld_Mode := ModeStrict\<rparr>)], rg_composites = []\<rparr>\<rparr>"

theorem exclusive_leaves_no_lease_witness:
  "mem_holds 100 (w_driver (fst (ExecuteExclusive ex_strict_manager ex_env background (ex_sync ''a'')
     (\<lambda>_ _ w. (w, None)) (new_world NewMemoryDriver)))) (mem_slot ''order'' ''order:1'') \<noteq> Some ''a''"
proof -
  let ?w = "new_world NewMemoryDriver"
  let ?r = "ExecuteExclusive ex_strict_manager ex_env background (ex_sync ''a'') (\<lambda>_ _ w. (w, None)) ?w"
  have "w_tick (fst ?r) \<le> 100" by code_simp
  then have t: "env_clock ex_env (w_tick (fst ?r)) \<le> 100" by (simp add: ex_env_def)
  have g: "Get (mg_registry ex_strict_manager) (sy_DefinitionID (ex_sync ''a'')) = Some (ex_parent\<lparr>ld_Mode := ModeStrict\<rparr>)"
    by (simp add: ex_strict_manager_def ex_sync_def Get_def)
  have p: "buildAcquirePlan ex_strict_manager ex_env (ex_parent\<lparr>ld_Mode := ModeStrict\<rparr>) (sy_ResourceKey (ex_sync ''a''))
      (sy_KeyInput (ex_sync ''a'')) ?w = (?w, Inr \<lparr>rp_resourceKey = ''order:1'', rp_lineage = None\<rparr>)"
    by (simp add: ex_strict_manager_def ex_manager_simps ex_parent_simps buildAcquirePlan_def)
  show ?thesis
    by (rule exclusive_leaves_no_lease[where fn = "\<lambda>_ _ w. (w, None)", OF _ _ _ _ _ g _ p _ _ _ _ _ surjective_pairing t])
       (simp_all add: ex_parent_simps ex_strict_manager_def ex_manager_simps md_inv_New mem_never_New mono_def)
qed

text \<open>
  A busy key is refused at once. If another lease on the key is live at the clock readings of the call, a call
  of \<^verbatim>\<open>ExecuteExclusive\<close> that gets as far as the backend returns \<^verbatim>\<open>ErrLockBusy\<close> and never calls the
  callback: the result is the same for every callback.
\<close>

theorem exclusive_busy:
  assumes "mg_driver m = memory_driver" and "md_inv (w_driver w)" and "\<not> w_shuttingDown w"
    and "Get (mg_registry m) (sy_DefinitionID req) = Some def" and "ld_Mode def \<noteq> ModeStrict"
    and "mget (mg_lineageDefs m) (ld_ID def) \<noteq> Some True" and "0 < ld_LeaseTTL def"
    and "sy_ResourceKey req = k" and "k \<noteq> []" and "sy_Overrides req = None"
    and "mget (w_active w) \<lparr>gk_definitionID = ld_ID def, gk_resourceKey = k, gk_ownerID = om_OwnerID (sy_Ownership req)\<rparr> = None"
    and "\<forall>n \<in> {w_tick w .. w_tick w + 2}. mem_holds (env_clock e n) (w_driver w) (mem_slot (ld_ID def) k) \<noteq> None"
  shows "snd (ExecuteExclusive m e ctx req fn w) = Some (Sentinel ErrLockBusy)
    \<and> ExecuteExclusive m e ctx req fn w = ExecuteExclusive m e ctx req gn w"
proof -
  let ?plan = "\<lparr>rp_resourceKey = k, rp_lineage = None\<rparr>"
  let ?key = "\<lparr>gk_definitionID = ld_ID def, gk_resourceKey = k, gk_ownerID = om_OwnerID (sy_Ownership req)\<rparr>"
  let ?cfg = "\<lparr>wc_timeout = ld_WaitTimeout def, wc_explicit = False\<rparr>"
  let ?w = "w\<lparr>w_inFlight := w_inFlight w + 1, w_active := mput ?key guardPending (w_active w)\<rparr>"
  have "snd (timed_acquire m e ctx ?cfg def ?plan (sy_Ownership req) ?w) = Inl (Sentinel ErrLockBusy)"
    using assms(1,2,5,7,12) by (intro mem.timed_acquire_busy) auto
  then obtain w1 where "timed_acquire m e ctx ?cfg def ?plan (sy_Ownership req) ?w = (w1, Inl (Sentinel ErrLockBusy))"
    by (metis prod.collapse)
  then have "ExecuteExclusive m e ctx req f w = (releaseInFlightExecution (remove_guard ?key w1), Some (Sentinel ErrLockBusy))" for f
    using assms(3,4,6,8-11)
    by (simp add: ExecuteExclusive_def buildAcquirePlan_def tryAdmit_eq applyRuntimeOverrides_def exclusive_guarded_def)
  then show ?thesis by simp
qed


definition ex_busy :: "MemoryDriver world" where
  "ex_busy = new_world (fst (MemoryDriver_Acquire background 0 NewMemoryDriver
     \<lparr>aq_DefinitionID = ''order'', aq_ResourceKeys = [''order:1''], aq_OwnerID = ''b'', aq_LeaseTTL = 30\<rparr>))"

lemma ex_busy_inv: "md_inv (w_driver ex_busy)"
  using mem.acquire_inv[OF md_inv_New surjective_pairing, of background 0 "\<lparr>aq_DefinitionID = ''order'',
      aq_ResourceKeys = [''order:1''], aq_OwnerID = ''b'', aq_LeaseTTL = 30\<rparr>"]
  by (simp add: ex_busy_def new_world_def memory_driver_def)

lemma ex_busy_not_a: "mem_holds t (w_driver ex_busy) k \<noteq> Some ''a''"
proof -
  have "md_leases (w_driver ex_busy) = [(''order:1'', \<lparr>lr_DefinitionID = ''order'', lr_ResourceKeys = [''order:1''],
      lr_OwnerID = ''b'', lr_LeaseTTL = 30, lr_AcquiredAt = 0, lr_ExpiresAt = 30\<rparr>)]" by code_simp
  then show ?thesis by (simp add: mem_holds_def live_def view_def)
qed

theorem exclusive_busy_witness:
  "snd (ExecuteExclusive ex_manager ex_env background (ex_sync ''a'') (\<lambda>_ _ w. (w, None)) ex_busy)
    = Some (Sentinel ErrLockBusy)"
proof -
  have busy: "\<forall>n \<in> {w_tick ex_busy .. w_tick ex_busy + 2}.
      mem_holds (env_clock ex_env n) (w_driver ex_busy) (mem_slot (ld_ID ex_parent) ''order:1'') \<noteq> None"
    by code_simp
  show ?thesis
    using exclusive_busy[where m = ex_manager and w = ex_busy and req = "ex_sync ''a''" and def = ex_parent
        and k = "''order:1''" and e = ex_env, OF _ ex_busy_inv _ _ _ _ _ _ _ _ _ busy]
    by (simp add: ex_parent_simps ex_manager_simps Get_def ex_busy_def)
qed

section \<open>Several keys\<close>

definition only_if_all_held :: "Env \<Rightarrow> MultipleLockRequest \<Rightarrow> go_err \<Rightarrow> MemoryDriver callback \<Rightarrow> MemoryDriver callback" where
  "only_if_all_held e req x fn c lc w =
     (if lc_DefinitionID lc = ml_DefinitionID req \<and> lc_Ownership lc = ml_Ownership req
         \<and> lc_ResourceKeys lc = sort (ml_Keys req)
         \<and> (\<forall>k \<in> set (ml_Keys req). \<forall>T. env_clock e (w_tick w) \<le> T \<longrightarrow> T \<le> lc_LeaseDeadline lc \<longrightarrow>
              mem_holds T (w_driver w) (mem_slot (ml_DefinitionID req) k) = Some (om_OwnerID (ml_Ownership req)))
      then fn c lc w else (w, x))"

text \<open>
  C17. The callback of \<^verbatim>\<open>ExecuteMultipleExclusive\<close> starts with every requested key locked. At the moment of
  the call the lease context names the definition, the owner and exactly the keys of the request,
  sorted, and each requested key is held by the owner from the present clock reading until the
  deadline the lease context announces: a check of that in front of the callback changes no run.
\<close>

theorem multiple_starts_under_all_leases:
  assumes "mg_driver m = memory_driver" and "mono (env_clock e)" and "md_inv (w_driver w)"
    and "Get (mg_registry m) (ml_DefinitionID req) = Some def" and "ld_ID def = ml_DefinitionID req"
    and "\<forall>k \<in> set (ml_Keys req). \<forall>T \<ge> env_clock e (w_tick w).
      mem_holds T (w_driver w) (mem_slot (ml_DefinitionID req) k) \<noteq> Some (om_OwnerID (ml_Ownership req))"
  shows "ExecuteMultipleExclusive m e ctx req (only_if_all_held e req x fn) w = ExecuteMultipleExclusive m e ctx req fn w"
  using assms by (intro mem.ExecuteMultiple_under_lease) (auto simp: not_held_in_def only_if_all_held_def)

theorem multiple_starts_under_all_leases_witness:
  "ExecuteMultipleExclusive ex_manager ex_env background (ex_multi ''a'' [''k2'', ''k1''])
     (only_if_all_held ex_env (ex_multi ''a'' [''k2'', ''k1'']) (Some (Sentinel ErrLockBusy)) (\<lambda>_ _ w. (w, None)))
     (new_world NewMemoryDriver)
   = ExecuteMultipleExclusive ex_manager ex_env background (ex_multi ''a'' [''k2'', ''k1'']) (\<lambda>_ _ w. (w, None))
       (new_world NewMemoryDriver)"
  by (rule multiple_starts_under_all_leases[where def = ex_parent])
     (simp_all add: ex_parent_simps ex_manager_simps Get_def md_inv_New mem_never_New mono_def)

text \<open>
  C18. \<^verbatim>\<open>ExecuteMultipleExclusive\<close> is all or nothing. Whatever the outcome, also when a later key is busy
  and the earlier ones have to be given back, the owner is left without a lease on any requested key.
\<close>

theorem multiple_leaves_no_lease:
  assumes "mg_driver m = memory_driver" and "mono (env_clock e)" and "md_inv (w_driver w)"
    and "Get (mg_registry m) (ml_DefinitionID req) = Some def" and "ld_ID def = ml_DefinitionID req"
    and "\<forall>k \<in> set (ml_Keys req). \<forall>T \<ge> env_clock e (w_tick w).
      mem_holds T (w_driver w) (mem_slot (ml_DefinitionID req) k) \<noteq> Some (om_OwnerID (ml_Ownership req))"
    and "\<forall>c l w. md_inv (w_driver w) \<longrightarrow> md_inv (w_driver (fst (fn c l w)))"
    and "ExecuteMultipleExclusive m e ctx req fn w = (w', err)"
  shows "\<forall>k \<in> set (ml_Keys req). \<forall>T \<ge> env_clock e (w_tick w').
      mem_holds T (w_driver w') (mem_slot (ml_DefinitionID req) k) \<noteq> Some (om_OwnerID (ml_Ownership req))"
proof -
  have "not_held_in mem_slot mem_holds e (ml_DefinitionID req) (om_OwnerID (ml_Ownership req))
      (fst (ExecuteMultipleExclusive m e ctx req fn w)) k" if "k \<in> set (ml_Keys req)" for k
    using assms that by (intro mem.ExecuteMultiple_no_lease_left) (auto simp: not_held_in_def)
  then show ?thesis using assms(8) by (simp add: not_held_in_def)
qed

theorem multiple_leaves_no_lease_witness:
  "mem_holds 20 (w_driver (fst (ExecuteMultipleExclusive ex_manager ex_env background
      (ex_multi ''a'' [''order:1'', ''k1'']) (\<lambda>_ _ w. (w, None)) ex_busy))) (mem_slot ''order'' ''k1'') \<noteq> Some ''a''"
proof -
  let ?fn = "\<lambda>_ _ w. (w, None)" and ?req = "ex_multi ''a'' [''order:1'', ''k1'']"
  have "w_tick (fst (ExecuteMultipleExclusive ex_manager ex_env background ?req ?fn ex_busy)) \<le> 20" by code_simp
  then show ?thesis
    using multiple_leaves_no_lease[where m = ex_manager and e = ex_env and w = ex_busy and req = ?req
        and def = ex_parent and fn = ?fn and ctx = background, OF _ _ ex_busy_inv _ _ _ _ surjective_pairing]
    by (simp add: ex_parent_simps ex_manager_simps Get_def mono_def ex_busy_not_a)
qed

definition ex_leak :: "MemoryDriver world" where
  "ex_leak = fst (ExecuteExclusive ex_manager ex_env background ((ex_sync ''a'')\<lparr>sy_ResourceKey := ''k2''\<rparr>)
     (\<lambda>c _ w. ExecuteMultipleExclusive ex_manager ex_env c (ex_multi ''a'' [''k1'', ''k2'']) (\<lambda>_ _ w. (w, None)) w)
     (new_world NewMemoryDriver))"

text \<open>
  The guard table leaks. \<^verbatim>\<open>ExecuteMultipleExclusive\<close> returns \<^verbatim>\<open>ErrReentrantAcquire\<close> as soon as one of
  its keys is guarded, and leaves the guards it installed for the keys before it. Here an execution
  on \<open>k2\<close> makes a nested call for \<open>k1\<close> and \<open>k2\<close>: the nested call is refused, as it should be, but when
  everything has returned \<open>k1\<close> is still guarded and the same owner can never lock it again, although
  no lease is held.
\<close>

theorem guard_leak_blocks_owner:
  "md_leases (w_driver ex_leak) = []
    \<and> mget (w_active ex_leak) \<lparr>gk_definitionID = ''order'', gk_resourceKey = ''k1'', gk_ownerID = ''a''\<rparr> = Some guardPending
    \<and> snd (ExecuteExclusive ex_manager ex_env background ((ex_sync ''a'')\<lparr>sy_ResourceKey := ''k1''\<rparr>)
        (\<lambda>_ _ w. (w, None)) ex_leak) = Some (Sentinel ErrReentrantAcquire)"
  by code_simp

section \<open>Waiting\<close>

text \<open>
  Overrides and contexts only tighten. An accepted override never waits longer than a definition that
  sets a timeout and is never negative; and the context of the acquire never outlives the caller's own
  deadline, nor, when there is a timeout, the timeout counted from the clock reading made.
\<close>

theorem wait_only_tightens:
  assumes "applyRuntimeOverrides def ov = Inr cfg" and "0 \<le> ld_WaitTimeout def"
    and "contextWithAcquireTimeout e ctx cfg w = (ctx', w')"
  shows "0 \<le> wc_timeout cfg \<and> (0 < ld_WaitTimeout def \<longrightarrow> wc_timeout cfg \<le> ld_WaitTimeout def)
    \<and> ctx_canceled ctx' = ctx_canceled ctx
    \<and> (\<forall>d. ctx_deadline ctx = Some d \<longrightarrow> (\<exists>d'. ctx_deadline ctx' = Some d' \<and> d' \<le> d))
    \<and> (0 < wc_timeout cfg \<or> wc_explicit cfg \<longrightarrow>
         (\<exists>d'. ctx_deadline ctx' = Some d' \<and> d' \<le> env_clock e (w_tick w) + wc_timeout cfg))"
proof -
  have cfg: "0 \<le> wc_timeout cfg" "0 < ld_WaitTimeout def \<longrightarrow> wc_timeout cfg \<le> ld_WaitTimeout def"
    using assms(1,2) by (auto simp: applyRuntimeOverrides_def Let_def split: option.splits if_splits)
  show ?thesis
    using assms(3) cfg
    by (cases "ctx_deadline ctx")
       (auto simp: contextWithAcquireTimeout_def time_now_def with_deadline_def Let_def split: if_splits)
qed

theorem wait_only_tightens_witness:
  "\<exists>d'. ctx_deadline (fst (contextWithAcquireTimeout ex_env (background\<lparr>ctx_deadline := Some 7\<rparr>)
      \<lparr>wc_timeout = 5, wc_explicit = True\<rparr> (new_world NewMemoryDriver))) = Some d' \<and> d' \<le> 5"
proof -
  let ?ov = "\<lparr>ro_WaitTimeout = Some 5, ro_MaxRetries = None\<rparr>"
  have "applyRuntimeOverrides (ex_parent\<lparr>ld_WaitTimeout := 9\<rparr>) (Some ?ov) = Inr \<lparr>wc_timeout = 5, wc_explicit = True\<rparr>"
    by (simp add: applyRuntimeOverrides_def)
  from wait_only_tightens[OF this _ surjective_pairing, of ex_env _ "new_world NewMemoryDriver"] show ?thesis by (simp add: ex_env_def new_world_def)
qed

end
