(* ===== verification/Redis_Props.thy ===== *)
theory Redis_Props
  imports Redis_Lineage Runtime_Props
begin

text \<open>
  What the Redis backend guarantees on every server that satisfies \<open>redis_server\<close>, and what the runtime manager guarantees on top
  of it. The examples run on \<open>simple_redis\<close>.
\<close>

section \<open>A concrete driver\<close>

definition ex_redis :: "rdb RedisDriver" where
  "ex_redis = NewRedisDriver True [] [] []"

lemma NewRedisDriver_ok: "list_all net_ok ns \<Longrightarrow> drv_ok (NewRedisDriver True pre db ns)"
proof -
  have "family_cache f (NewRedisDriver True pre db ns) = None" for f by (cases f) (simp_all add: NewRedisDriver_def)
  then show "list_all net_ok ns \<Longrightarrow> ?thesis"
    by (auto simp: drv_ok_def cache_ok_def cached_def) (simp_all add: NewRedisDriver_def)
qed

lemma ex_redis_inv: "redis_inv (\<lambda>db. True) mget ex_redis"
  using NewRedisDriver_ok[of "[]" "[]" "[]"]
  by (simp add: redis_inv_def ex_redis_def typed_def) (simp add: NewRedisDriver_def)

definition ex_strict :: "string \<Rightarrow> StrictAcquireRequest" where
  "ex_strict ow = \<lparr>sq_DefinitionID = ''order'', sq_ResourceKey = ''order:1'', sq_OwnerID = ow, sq_LeaseTTL = 30 * second\<rparr>"

definition ex_acq :: "string \<Rightarrow> AcquireRequest" where
  "ex_acq ow = \<lparr>aq_DefinitionID = ''order'', aq_ResourceKeys = [''order:1''], aq_OwnerID = ow, aq_LeaseTTL = 30 * second\<rparr>"

lemma ex_server: "redis_server simple_redis (\<lambda>db. True) mget (<)"
  by (rule sr.redis_server_axioms)

section \<open>Properties of the backend\<close>

text \<open>
  C5. Mutual exclusion on Redis. After a granted acquire, whatever calls other clients make, in whatever order, except a forced
  release of that boundary, the owner holds the lease until the server's clock has advanced by the lease time that was sent, and
  no acquire of any kind is granted on the same definition and resource key.
\<close>

theorem redis_mutual_exclusion:
  assumes "redis_server S ok look alive" and "redis_inv ok look d" and "Redis_Acquire S ctx t0 d rq = (d1, Inr l)"
    and "\<forall>(t', op) \<in> set ops. clock S t' < clock S t0 + px_millis S (aq_LeaseTTL rq)
      \<and> foreign (aq_OwnerID rq) (aq_DefinitionID rq) (aq_ResourceKeys rq ! 0) op"
    and "clock S t < clock S t0 + px_millis S (aq_LeaseTTL rq)"
  shows "redis_holds S look alive t (redis_run S ctx ops d1) (aq_DefinitionID rq, aq_ResourceKeys rq ! 0) = Some (aq_OwnerID rq)
    \<and> (\<forall>rq' d' l'. aq_DefinitionID rq' = aq_DefinitionID rq \<and> aq_ResourceKeys rq' = aq_ResourceKeys rq \<longrightarrow>
         Redis_Acquire S ctx t (redis_run S ctx ops d1) rq' \<noteq> (d', Inr l'))
    \<and> (\<forall>sq d' f. sq_DefinitionID sq = aq_DefinitionID rq \<and> [sq_ResourceKey sq] = aq_ResourceKeys rq \<longrightarrow>
         Redis_AcquireStrict S ctx t (redis_run S ctx ops d1) sq \<noteq> (d', Inr f))
    \<and> (\<forall>lq d' l'. lq_DefinitionID lq = aq_DefinitionID rq \<and> [lq_ResourceKey lq] = aq_ResourceKeys rq \<longrightarrow>
         Redis_AcquireWithLineage S ctx t (redis_run S ctx ops d1) lq \<noteq> (d', Inr l'))"
proof -
  let ?x = "clock S t0 + px_millis S (aq_LeaseTTL rq)" and ?d = "redis_run S ctx ops d1"
  note acquire_held = redis_server.acquire_held[OF assms(1,2,3)] and run_held = redis_server.run_held[OF assms(1)]
  obtain k where k: "aq_ResourceKeys rq = [k]" and held: "redis_server.held_until S look alive ?x d1 (aq_DefinitionID rq) k (aq_OwnerID rq)"
    using acquire_held by blast
  have inv: "redis_inv ok look d1" by (rule redis_server.Redis_Acquire_step(1)[OF assms(1,2,3)])
  have "redis_server.held_until S look alive ?x ?d (aq_DefinitionID rq) k (aq_OwnerID rq)"
    using assms(4) k by (intro run_held[OF inv held]) simp
  then have h: "redis_holds S look alive t ?d (aq_DefinitionID rq, k) = Some (aq_OwnerID rq)"
    using assms(5) by (simp add: redis_server.held_until_def[OF assms(1)])
  note refuses = redis_server.held_refuses[OF assms(1) redis_server.run_step(1)[OF assms(1) inv] h]
  show ?thesis using h k refuses by auto
qed

theorem redis_mutual_exclusion_witness:
  "redis_holds simple_redis mget (<) (20 * second)
     (redis_run simple_redis background [(5 * second, RAcquire (ex_acq ''b'')), (9 * second, RForceRelease ''order'' ''order:2'')]
       (fst (Redis_Acquire simple_redis background 0 ex_redis (ex_acq ''a'')))) (''order'', ''order:1'') = Some ''a''"
proof -
  have "Redis_Acquire simple_redis background 0 ex_redis (ex_acq ''a'') =
      (fst (Redis_Acquire simple_redis background 0 ex_redis (ex_acq ''a'')),
       Inr (buildLeaseRecord ''order'' ''order:1'' ''a'' (30 * second) 0))"
    by code_simp
  from redis_mutual_exclusion[OF ex_server ex_redis_inv this,
      of "[(5 * second, RAcquire (ex_acq ''b'')), (9 * second, RForceRelease ''order'' ''order:2'')]" "20 * second"]
  show ?thesis by (simp add: ex_acq_def simple_redis_def duration_units)
qed

lemma redis_token_order:
  assumes "redis_server S ok look alive" and "redis_inv ok look d" and "Redis_AcquireStrict S ctx t1 d rq1 = (d1, Inr f1)"
    and "\<forall>(t, op) \<in> set ops. op \<noteq> RForceRelease (sq_DefinitionID rq1) (sq_ResourceKey rq1)"
    and "Redis_AcquireStrict S ctx t2 (redis_run S ctx ops d1) rq2 = (d2, Inr f2)"
    and "sq_DefinitionID rq2 = sq_DefinitionID rq1" and "sq_ResourceKey rq2 = sq_ResourceKey rq1"
  shows "uint (fl_FencingToken f1) < uint (fl_FencingToken f2) \<and> uint (fl_FencingToken f2) < 2 ^ 63"
proof -
  let ?c = "\<lambda>d. redis_counter look d (sq_DefinitionID rq1) (sq_ResourceKey rq1)"
  note strict = redis_server.AcquireStrict_after[OF assms(1)]
  note 1 = strict(2)[OF assms(2,3) refl]
  have inv: "redis_inv ok look d1" by (rule redis_server.Redis_AcquireStrict_step(1)[OF assms(1,2,3)])
  have "?c d1 \<le> ?c (redis_run S ctx ops d1)" by (rule redis_server.run_step(2)[OF assms(1) inv assms(4)])
  moreover note 2 = strict(2)[OF redis_server.run_step(1)[OF assms(1) inv] assms(5) refl, unfolded assms(6,7)]
  ultimately have "0 \<le> ?c d1" "?c d1 < ?c d2" "?c d2 < 2 ^ 63" using 1 by auto
  then show ?thesis using conjunct1[OF 1] conjunct1[OF 2] by (simp add: uint_word_of_int)
qed

text \<open>
  C6. Fencing tokens on Redis increase. Of two strict acquires of the same definition and resource key, the later one gets
  the strictly larger token, whatever calls came between them, unless one of them was a forced release of that boundary.
\<close>

theorem redis_fencing_tokens_increase:
  assumes "redis_server S ok look alive" and "redis_inv ok look d" and "Redis_AcquireStrict S ctx t1 d rq1 = (d1, Inr f1)"
    and "\<forall>(t, op) \<in> set ops. op \<noteq> RForceRelease (sq_DefinitionID rq1) (sq_ResourceKey rq1)"
    and "Redis_AcquireStrict S ctx t2 (redis_run S ctx ops d1) rq2 = (d2, Inr f2)"
    and "sq_DefinitionID rq2 = sq_DefinitionID rq1" and "sq_ResourceKey rq2 = sq_ResourceKey rq1"
  shows "unat (fl_FencingToken f1) < unat (fl_FencingToken f2)"
  using redis_token_order[OF assms] by (simp add: word_less_def[symmetric] word_less_nat_alt)

theorem redis_fencing_tokens_increase_witness:
  "unat (case snd (Redis_AcquireStrict simple_redis background 0 ex_redis (ex_strict ''a'')) of Inr f \<Rightarrow> fl_FencingToken f)
   < unat (case snd (Redis_AcquireStrict simple_redis background (99 * second)
       (redis_run simple_redis background [(50 * second, RAcquireStrict (ex_strict ''b''))]
         (fst (Redis_AcquireStrict simple_redis background 0 ex_redis (ex_strict ''a'')))) (ex_strict ''c'')) of Inr f \<Rightarrow> fl_FencingToken f)"
proof -
  have 1: "Redis_AcquireStrict simple_redis background 0 ex_redis (ex_strict ''a'') =
      (fst (Redis_AcquireStrict simple_redis background 0 ex_redis (ex_strict ''a'')),
       Inr \<lparr>fl_Lease = buildLeaseRecord ''order'' ''order:1'' ''a'' (30 * second) 0, fl_FencingToken = 1\<rparr>)"
    by code_simp
  let ?d = "redis_run simple_redis background [(50 * second, RAcquireStrict (ex_strict ''b''))]
     (fst (Redis_AcquireStrict simple_redis background 0 ex_redis (ex_strict ''a'')))"
  have 2: "Redis_AcquireStrict simple_redis background (99 * second) ?d (ex_strict ''c'') =
      (fst (Redis_AcquireStrict simple_redis background (99 * second) ?d (ex_strict ''c'')),
       Inr \<lparr>fl_Lease = buildLeaseRecord ''order'' ''order:1'' ''c'' (30 * second) (99 * second), fl_FencingToken = 3\<rparr>)"
    by code_simp
  have s: "snd (Redis_AcquireStrict simple_redis background 0 ex_redis (ex_strict ''a'')) =
      Inr \<lparr>fl_Lease = buildLeaseRecord ''order'' ''order:1'' ''a'' (30 * second) 0, fl_FencingToken = 1\<rparr>"
    "snd (Redis_AcquireStrict simple_redis background (99 * second) ?d (ex_strict ''c'')) =
      Inr \<lparr>fl_Lease = buildLeaseRecord ''order'' ''order:1'' ''c'' (30 * second) (99 * second), fl_FencingToken = 3\<rparr>"
    by (subst 1, simp, subst 2, simp)
  show ?thesis unfolding s sum.case
    by (rule redis_fencing_tokens_increase[OF ex_server ex_redis_inv 1 _ 2]) (simp_all add: ex_strict_def)
qed

text \<open>
  C8. A forced release on Redis also deletes the fence counter: the next strict acquire of that boundary gets token 1 again, a
  token that an earlier owner may have used.
\<close>

theorem redis_force_release_restarts_tokens:
  assumes "redis_server S ok look alive" and "redis_inv ok look d"
    and "Redis_ForceReleaseDefinition S ctx t0 d (sq_DefinitionID rq) (sq_ResourceKey rq) = (d1, None)"
    and "Redis_AcquireStrict S ctx t d1 rq = (d2, Inr f)"
  shows "fl_FencingToken f = 1"
proof -
  note force = redis_server.ForceRelease_after[OF assms(1,2,3)]
  have "redis_inv ok look d1" by (rule redis_server.after_inv[OF assms(1) force(1)])
  from redis_server.AcquireStrict_after(2)[OF assms(1) this assms(4) refl] force(2) show ?thesis by simp
qed

theorem redis_force_release_restarts_tokens_witness:
  "fl_FencingToken (case snd (Redis_AcquireStrict simple_redis background (9 * second)
      (fst (Redis_ForceReleaseDefinition simple_redis background (5 * second)
        (fst (Redis_AcquireStrict simple_redis background 0 ex_redis (ex_strict ''a''))) ''order'' ''order:1'')) (ex_strict ''b'')) of
      Inr f \<Rightarrow> f) = 1"
proof -
  let ?d = "fst (Redis_AcquireStrict simple_redis background 0 ex_redis (ex_strict ''a''))"
  let ?d1 = "fst (Redis_ForceReleaseDefinition simple_redis background (5 * second) ?d ''order'' ''order:1'')"
  have inv: "redis_inv (\<lambda>db. True) mget ?d"
    by (rule sr.Redis_AcquireStrict_step(1)[OF ex_redis_inv prod.collapse[symmetric]])
  have 1: "Redis_ForceReleaseDefinition simple_redis background (5 * second) ?d
      (sq_DefinitionID (ex_strict ''b'')) (sq_ResourceKey (ex_strict ''b'')) = (?d1, None)"
    by code_simp
  have 2: "Redis_AcquireStrict simple_redis background (9 * second) ?d1 (ex_strict ''b'') =
      (fst (Redis_AcquireStrict simple_redis background (9 * second) ?d1 (ex_strict ''b'')),
       Inr \<lparr>fl_Lease = buildLeaseRecord ''order'' ''order:1'' ''b'' (30 * second) (9 * second), fl_FencingToken = 1\<rparr>)"
    by code_simp
  have s: "snd (Redis_AcquireStrict simple_redis background (9 * second) ?d1 (ex_strict ''b'')) =
      Inr \<lparr>fl_Lease = buildLeaseRecord ''order'' ''order:1'' ''b'' (30 * second) (9 * second), fl_FencingToken = 1\<rparr>"
    by (subst 2) simp
  show ?thesis unfolding s sum.case by (rule redis_force_release_restarts_tokens[OF ex_server inv 1 2])
qed

text \<open>
  C7. Children block their ancestors on Redis, also when the clocks differ. After an acquire with lineage has been granted at the client's
  clock reading \<open>t0\<close>, every acquire with lineage of one of its ancestors, as a parent or as a child of others, is refused
  that the server serves more than \<open>D\<close> before the lease's expiry, \<open>t0\<close> plus the lease time, whatever calls came in between, provided those
  are served before then too and do not name the member of this lease. \<open>D\<close> bounds how far the clock of any of the clients involved runs ahead of the
  server's: at each call the server's time is the client's reading plus an offset of its own, at least \<open>- D\<close>, which also holds the time the
  request was on its way. With a clock further ahead the scripts, which prune by the client's time, would drop the member early.
  (On the in-memory backend only a parent is refused.)
\<close>

theorem redis_child_blocks_ancestors:
  assumes "redis_server S ok look alive" and "redis_inv ok look d"
    and "Redis_AcquireWithLineage (at_offset S off0) ctx t0 d rq = (d1, Inr l)" and "a \<in> set (lm_AncestorKeys (lq_Lineage rq))"
    and "e = UnixMilli t0 + Milliseconds (lq_LeaseTTL rq)" and "- D \<le> off0"
    and "\<forall>(off', t', op) \<in> set ops. - D \<le> off' \<and> UnixMilli t' + off' + D < e
      \<and> op_member op \<noteq> Some (lineageMember (lm_LeaseID (lq_Lineage rq)) (lq_DefinitionID rq) (lq_ResourceKey rq))"
    and "- D \<le> off" and "UnixMilli t + off + D < e"
    and "UnixMilli t0 + off0 \<le> UnixMilli t + off"
    and "lq_DefinitionID pq = ak_DefinitionID a" and "lq_ResourceKey pq = ak_ResourceKey a"
  shows "Redis_AcquireWithLineage (at_offset S off) ctx t (skewed_run S ctx ops d1) pq \<noteq> (d2, Inr l2)"
proof -
  note srv = at_offset_server[OF assms(1)]
  have "UnixMilli t0 + off0 < e - D" using assms(9,10) by simp
  moreover have "e - D \<le> UnixMilli t0 + off0 + Milliseconds (lq_LeaseTTL rq)" using assms(5,6) by simp
  ultimately have guards: "redis_server.guarded look (rds_keyPrefix d1) (rds_db d1) (ak_DefinitionID a) (ak_ResourceKey a)
      (lineageMember (lm_LeaseID (lq_Lineage rq)) (lq_DefinitionID rq) (lq_ResourceKey rq)) e (e - D)"
    unfolding assms(5) using redis_server.lineage_acquire_guards[OF srv assms(2,3,4)] by simp
  have inv: "redis_inv ok look d1" by (rule redis_server.Redis_AcquireWithLineage_step(1)[OF srv assms(2,3)])
  note run = skewed_run_guard[OF assms(1) inv guards assms(7), of ctx]
  show ?thesis
    by (rule redis_server.guarded_acquire_refused[OF srv run[THEN conjunct1] offset_in_time[OF assms(8,9)]])
      (simp only: assms(11,12), rule run[THEN conjunct2])
qed

definition ex_lin :: "string \<Rightarrow> string \<Rightarrow> string \<Rightarrow> LockKind \<Rightarrow> AncestorKey list \<Rightarrow> LineageAcquireRequest" where
  "ex_lin ow i k kind as = \<lparr>lq_DefinitionID = i, lq_ResourceKey = k, lq_OwnerID = ow, lq_LeaseTTL = 30 * second,
     lq_Lineage = \<lparr>lm_LeaseID = ow, lm_Kind = kind, lm_AncestorKeys = as\<rparr>\<rparr>"

text \<open>The three clients' clocks are ahead of the server's by 40 milliseconds, right, and behind by 500.\<close>

theorem redis_child_blocks_ancestors_witness:
  "\<exists>err. snd (Redis_AcquireWithLineage (at_offset simple_redis 500) background (20 * second)
     (skewed_run simple_redis background
       [(0, 9 * second, RAcquireWithLineage (ex_lin ''b'' ''part'' ''p'' KindChild [\<lparr>ak_DefinitionID = ''order'', ak_ResourceKey = ''o''\<rparr>]))]
       (fst (Redis_AcquireWithLineage (at_offset simple_redis (- 40)) background 0 ex_redis
          (ex_lin ''a'' ''item'' ''i'' KindChild [\<lparr>ak_DefinitionID = ''order'', ak_ResourceKey = ''o''\<rparr>]))))
     (ex_lin ''c'' ''order'' ''o'' KindParent [])) = Inl err"
proof -
  let ?a = "\<lparr>ak_DefinitionID = ''order'', ak_ResourceKey = ''o''\<rparr>"
  let ?rq = "ex_lin ''a'' ''item'' ''i'' KindChild [?a]" and ?ops = "[(0, 9 * second, RAcquireWithLineage (ex_lin ''b'' ''part'' ''p'' KindChild [?a]))]"
  let ?d1 = "fst (Redis_AcquireWithLineage (at_offset simple_redis (- 40)) background 0 ex_redis ?rq)"
  have 1: "Redis_AcquireWithLineage (at_offset simple_redis (- 40)) background 0 ex_redis ?rq
      = (?d1, Inr (buildLeaseRecord ''item'' ''i'' ''a'' (30 * second) 0))"
    by code_simp
  have "Redis_AcquireWithLineage (at_offset simple_redis 500) background (20 * second) (skewed_run simple_redis background ?ops ?d1)
      (ex_lin ''c'' ''order'' ''o'' KindParent []) \<noteq> (d2, Inr l2)" for d2 l2
    by (rule redis_child_blocks_ancestors[OF ex_server ex_redis_inv 1, where a = ?a and D = 40 and e = 30000])
      (simp_all add: ex_lin_def lineageMember_def UnixMilli_def Milliseconds_def quot_def duration_units)
  then show ?thesis by (metis prod.collapse sum.exhaust)
qed

text \<open>
  C9. The key space stays well typed. Every run of the backend's methods, whichever requests fail before they are sent, keeps the invariant: the
  caches agree with the key scheme, a lease key holds an owner, a counter is positive and never expires, a token key holds a number, and
  a lineage key holds a sorted set. No script can therefore meet a value of the wrong type.
\<close>

theorem redis_run_well_typed:
  assumes "redis_server S ok look alive" and "redis_inv ok look d"
  shows "redis_inv ok look (redis_run S ctx ops d)"
  by (rule redis_server.run_step(1)[OF assms])

theorem redis_run_well_typed_witness:
  "redis_inv (\<lambda>db. True) mget (redis_run simple_redis background
     [(0, RAcquireStrict (ex_strict ''a'')), (5 * second, RForceRelease ''order'' ''order:1''), (6 * second, RAcquire (ex_acq ''b''))] ex_redis)"
  by (rule redis_run_well_typed[OF ex_server ex_redis_inv])

text \<open>
  The keys of the Redis backend never collide. With right caches, whatever is cached, two of the four builders give the same
  key only if they are the same builder, for the same definition and the same resource key, whatever bytes the identifiers contain.
\<close>

theorem redis_keys_never_collide:
  assumes "cache_ok d" and "cache_ok d'" and "rds_keyPrefix d' = rds_keyPrefix d"
    and "a < 4" and "b < 4"
    and "bs = [buildLeaseKey, buildStrictFenceCounterKey, buildStrictTokenKey, buildLineageKey]"
  shows "snd ((bs ! a) i k d) = snd ((bs ! b) i' k' d') \<longleftrightarrow> a = b \<and> i = i' \<and> k = k'"
proof -
  let ?fs = "[LeaseKey, FenceKey, TokenKey, LineageKey]"
  have eq: "bs ! n = family_key (?fs ! n)" if "n < 4" for n
    using that assms(6) by (auto simp: less_Suc_eq numeral_eq_Suc family_key_eqs)
  have key: "cache_ok d \<Longrightarrow> snd (family_key f i k d) = redis_key (rds_keyPrefix d) f i k" for f i k and d :: "'a RedisDriver"
    using family_key_ok(1)[OF _ prod.collapse[symmetric]] by blast
  have "?fs ! a = ?fs ! b \<longleftrightarrow> a = b" using assms(4,5) by (auto simp: less_Suc_eq numeral_eq_Suc)
  then show ?thesis using assms(1-5) by (simp only: eq key redis_key_inject)
qed

theorem redis_keys_never_collide_witness:
  "snd (buildLeaseKey ''fence'' ''x'' ex_redis) \<noteq> snd (buildStrictFenceCounterKey ''x'' [] ex_redis)"
proof -
  have "cache_ok ex_redis" using ex_redis_inv by (simp add: redis_inv_def drv_ok_def)
  from redis_keys_never_collide[OF this this refl, of 0 1 _ "''fence''" "''x''" "''x''" "[]"] show ?thesis by simp
qed

section \<open>The runtime manager on Redis\<close>

text \<open>
  The check put in front of the callback: the lease context names the definition, the resource key and
  the owner of the request, and the server has that key for that owner at the clock reading of the
  grant.
\<close>

definition redis_if_held ::
  "'r RedisServer \<Rightarrow> ('r \<Rightarrow> keyspace) \<Rightarrow> (int \<Rightarrow> int \<Rightarrow> bool) \<Rightarrow> 'r RedisDriver Manager \<Rightarrow> Env \<Rightarrow> SyncLockRequest
    \<Rightarrow> 'r RedisDriver world \<Rightarrow> go_err \<Rightarrow> 'r RedisDriver callback \<Rightarrow> 'r RedisDriver callback"
where
  "redis_if_held S look alive m e req w0 x fn c lc w =
     (if \<exists>def plan. Get (mg_registry m) (sy_DefinitionID req) = Some def
           \<and> snd (buildAcquirePlan m e def (sy_ResourceKey req) (sy_KeyInput req) w0) = Inr plan
           \<and> lc_DefinitionID lc = ld_ID def \<and> lc_ResourceKey lc = rp_resourceKey plan \<and> lc_Ownership lc = sy_Ownership req
           \<and> redis_holds S look alive (env_clock e (w_tick w - 2)) (w_driver w) (ld_ID def, rp_resourceKey plan)
               = Some (om_OwnerID (sy_Ownership req))
      then fn c lc w else (w, x))"

text \<open>
  C10. The callback of \<^verbatim>\<open>ExecuteExclusive\<close> on Redis starts under the lease: a check in front of the
  callback, that the lease context names the definition, key and owner of the request and that the
  server has that key locked for that owner at the clock reading of the grant, makes no difference to
  any run, in standard and strict mode and with lineage. What happens to the lease while the callback
  runs is not claimed: it may expire.
\<close>

theorem redis_exclusive_starts_under_lease:
  assumes "redis_server S ok look alive" and "mg_driver m = redis_driver S" and "redis_inv ok look (w_driver w)"
  shows "ExecuteExclusive m e ctx req (redis_if_held S look alive m e req w x fn) w = ExecuteExclusive m e ctx req fn w"
  by (rule lock_driver.ExecuteExclusive_under_lease[OF redis_server.redis_lock_driver[OF assms(1)] assms(2,3)])
     (auto simp: redis_if_held_def)

definition ex_redis_manager :: "rdb RedisDriver Manager" where
  "ex_redis_manager = \<lparr>mg_registry = ex_one, mg_driver = redis_driver simple_redis, mg_bridge = False,
     mg_lineageDefs = [(''order'', False)], mg_cachedDefsByID = [(''order'', ex_parent)]\<rparr>"

theorem redis_exclusive_starts_under_lease_witness:
  "ExecuteExclusive ex_redis_manager ex_env background (ex_sync ''a'')
     (redis_if_held simple_redis mget (<) ex_redis_manager ex_env (ex_sync ''a'') (new_world ex_redis) None
        (\<lambda>_ _ w. (w, Some (Sentinel ErrLockBusy)))) (new_world ex_redis)
   = ExecuteExclusive ex_redis_manager ex_env background (ex_sync ''a'')
     (\<lambda>_ _ w. (w, Some (Sentinel ErrLockBusy))) (new_world ex_redis)"
  by (rule redis_exclusive_starts_under_lease[OF ex_server]) (simp_all add: ex_redis_manager_def new_world_def ex_redis_inv)

end
