(* ===== verification/Idempotency.thy ===== *)
theory Idempotency
  imports Prelude
begin

text \<open>
  The idempotency store (\<^verbatim>\<open>src/idempotency\<close>): its contract as a record of functions and as a locale, and
  the in-memory store, which spreads its records over sixteen shards by the FNV-1a hash of the key.
\<close>

unbundle bit_operations_syntax

section \<open>Contract\<close>

text \<open>\<^verbatim>\<open>Status\<close> is a string type; any other string is \<open>StatusOther\<close>.\<close>

datatype Status = StatusMissing | StatusInProgress | StatusCompleted | StatusFailed | StatusOther string

record Record =
  rd_Key :: string
  rd_Status :: Status
  rd_OwnerID :: string
  rd_MessageID :: string
  rd_ConsumerGroup :: string
  rd_Attempt :: int
  rd_UpdatedAt :: time
  rd_ExpiresAt :: time

record BeginInput =
  bi_OwnerID :: string
  bi_MessageID :: string
  bi_ConsumerGroup :: string
  bi_Attempt :: int
  bi_TTL :: duration

record BeginResult =
  br_Record :: Record
  br_Acquired :: bool
  br_Duplicate :: bool

record CompleteInput =
  ci_OwnerID :: string
  ci_MessageID :: string
  ci_TTL :: duration

record FailInput =
  fi_OwnerID :: string
  fi_MessageID :: string
  fi_TTL :: duration

record 'i Store =
  st_Get :: "go_ctx \<Rightarrow> time \<Rightarrow> 'i \<Rightarrow> string \<Rightarrow> 'i \<times> Record result"
  st_Begin :: "go_ctx \<Rightarrow> time \<Rightarrow> 'i \<Rightarrow> string \<Rightarrow> BeginInput \<Rightarrow> 'i \<times> BeginResult result"
  st_Complete :: "go_ctx \<Rightarrow> time \<Rightarrow> 'i \<Rightarrow> string \<Rightarrow> CompleteInput \<Rightarrow> 'i \<times> go_err"
  st_Fail :: "go_ctx \<Rightarrow> time \<Rightarrow> 'i \<Rightarrow> string \<Rightarrow> FailInput \<Rightarrow> 'i \<times> go_err"

definition missing_record :: "string \<Rightarrow> Record" where
  "missing_record key = \<lparr>rd_Key = key, rd_Status = StatusMissing, rd_OwnerID = [], rd_MessageID = [],
     rd_ConsumerGroup = [], rd_Attempt = 0, rd_UpdatedAt = zero_time, rd_ExpiresAt = zero_time\<rparr>"

section \<open>The in-memory store\<close>

text \<open>FNV-1a with 32 bits (\<^verbatim>\<open>hash/fnv\<close>).\<close>

definition fnv32a :: "string \<Rightarrow> 32 word" where
  "fnv32a key = fold (\<lambda>c h. (h XOR of_nat (of_char c)) * 16777619) key 2166136261"

type_synonym memoryShard = "(string, Record) gomap"

record MemoryStore =
  ms_shards :: "memoryShard list"

definition NewStore :: MemoryStore where
  "NewStore = \<lparr>ms_shards = replicate 16 []\<rparr>"

definition shard :: "string \<Rightarrow> nat" where
  "shard key = unat (fnv32a key mod 16)"

definition shard_records :: "MemoryStore \<Rightarrow> string \<Rightarrow> memoryShard" where
  "shard_records s key = ms_shards s ! shard key"

definition set_shard :: "string \<Rightarrow> memoryShard \<Rightarrow> MemoryStore \<Rightarrow> MemoryStore" where
  "set_shard key sh s = s\<lparr>ms_shards := (ms_shards s)[shard key := sh]\<rparr>"

definition isExpired :: "time \<Rightarrow> time \<Rightarrow> bool" where
  "isExpired expiresAt now = (\<not> now < expiresAt)"

definition MemoryStore_Get :: "go_ctx \<Rightarrow> time \<Rightarrow> MemoryStore \<Rightarrow> string \<Rightarrow> MemoryStore \<times> Record result" where
  "MemoryStore_Get ctx now s key =
     (case ctx_err ctx now of
        Some err \<Rightarrow> (s, Inl err)
      | None \<Rightarrow>
          (case mget (shard_records s key) key of
             None \<Rightarrow> (s, Inr (missing_record key))
           | Some record \<Rightarrow>
               if isExpired (rd_ExpiresAt record) now
               then (set_shard key (mdel key (shard_records s key)) s, Inr (missing_record key))
               else (s, Inr record)))"

definition MemoryStore_Begin ::
  "go_ctx \<Rightarrow> time \<Rightarrow> MemoryStore \<Rightarrow> string \<Rightarrow> BeginInput \<Rightarrow> MemoryStore \<times> BeginResult result"
where
  "MemoryStore_Begin ctx now s key input =
     (case ctx_err ctx now of
        Some err \<Rightarrow> (s, Inl err)
      | None \<Rightarrow>
          if bi_TTL input \<le> 0 then (s, Inl (Sentinel ErrInvalidTTL))
          else
            let fresh = (\<lambda>s.
                  let record = \<lparr>rd_Key = key, rd_Status = StatusInProgress, rd_OwnerID = bi_OwnerID input,
                        rd_MessageID = bi_MessageID input, rd_ConsumerGroup = bi_ConsumerGroup input,
                        rd_Attempt = bi_Attempt input, rd_UpdatedAt = now, rd_ExpiresAt = now + bi_TTL input\<rparr>
                  in (set_shard key (mput key record (shard_records s key)) s,
                      Inr \<lparr>br_Record = record, br_Acquired = True, br_Duplicate = False\<rparr>))
            in case mget (shard_records s key) key of
                 Some record \<Rightarrow>
                   if \<not> isExpired (rd_ExpiresAt record) now
                   then (s, Inr \<lparr>br_Record = record, br_Acquired = False, br_Duplicate = True\<rparr>)
                   else fresh (set_shard key (mdel key (shard_records s key)) s)
               | None \<Rightarrow> fresh s)"

definition setTerminalStatus ::
  "go_ctx \<Rightarrow> time \<Rightarrow> MemoryStore \<Rightarrow> string \<Rightarrow> string \<Rightarrow> string \<Rightarrow> duration \<Rightarrow> Status \<Rightarrow> MemoryStore \<times> go_err"
where
  "setTerminalStatus ctx now s key ownerID messageID ttl status =
     (case ctx_err ctx now of
        Some err \<Rightarrow> (s, Some err)
      | None \<Rightarrow>
          if ttl \<le> 0 then (s, Some (Sentinel ErrInvalidTTL))
          else
            let record = \<lparr>rd_Key = key, rd_Status = status, rd_OwnerID = ownerID, rd_MessageID = messageID,
                  rd_ConsumerGroup = [], rd_Attempt = 0, rd_UpdatedAt = now, rd_ExpiresAt = now + ttl\<rparr>;
                record' = (case mget (shard_records s key) key of
                    Some existing \<Rightarrow>
                      if \<not> isExpired (rd_ExpiresAt existing) now
                      then record\<lparr>rd_OwnerID := rd_OwnerID existing, rd_MessageID := rd_MessageID existing,
                                  rd_ConsumerGroup := rd_ConsumerGroup existing, rd_Attempt := rd_Attempt existing\<rparr>
                      else record
                  | None \<Rightarrow> record)
            in (set_shard key (mput key record' (shard_records s key)) s, None))"

definition MemoryStore_Complete ::
  "go_ctx \<Rightarrow> time \<Rightarrow> MemoryStore \<Rightarrow> string \<Rightarrow> CompleteInput \<Rightarrow> MemoryStore \<times> go_err"
where
  "MemoryStore_Complete ctx now s key input =
     setTerminalStatus ctx now s key (ci_OwnerID input) (ci_MessageID input) (ci_TTL input) StatusCompleted"

definition MemoryStore_Fail ::
  "go_ctx \<Rightarrow> time \<Rightarrow> MemoryStore \<Rightarrow> string \<Rightarrow> FailInput \<Rightarrow> MemoryStore \<times> go_err"
where
  "MemoryStore_Fail ctx now s key input =
     setTerminalStatus ctx now s key (fi_OwnerID input) (fi_MessageID input) (fi_TTL input) StatusFailed"

definition memory_store :: "MemoryStore Store" where
  "memory_store = \<lparr>st_Get = MemoryStore_Get, st_Begin = MemoryStore_Begin, st_Complete = MemoryStore_Complete,
     st_Fail = MemoryStore_Fail\<rparr>"

section \<open>Abstract specification\<close>

text \<open>
  What a store promises, over one map from keys to records: a record is visible until the moment it
  expires; the four operations read or replace the visible record of one key.
\<close>

type_synonym records = "string \<rightharpoonup> Record"

definition visible_at :: "time \<Rightarrow> records \<Rightarrow> records" where
  "visible_at t R key = (case R key of Some r \<Rightarrow> if t < rd_ExpiresAt r then Some r else None | None \<Rightarrow> None)"

definition begun :: "time \<Rightarrow> string \<Rightarrow> BeginInput \<Rightarrow> Record" where
  "begun t key i = \<lparr>rd_Key = key, rd_Status = StatusInProgress, rd_OwnerID = bi_OwnerID i,
     rd_MessageID = bi_MessageID i, rd_ConsumerGroup = bi_ConsumerGroup i, rd_Attempt = bi_Attempt i,
     rd_UpdatedAt = t, rd_ExpiresAt = t + bi_TTL i\<rparr>"

definition finished :: "time \<Rightarrow> string \<Rightarrow> Status \<Rightarrow> string \<Rightarrow> string \<Rightarrow> duration \<Rightarrow> Record option \<Rightarrow> Record" where
  "finished t key status ow msg ttl old =
     \<lparr>rd_Key = key, rd_Status = status,
      rd_OwnerID = (case old of None \<Rightarrow> ow | Some r \<Rightarrow> rd_OwnerID r),
      rd_MessageID = (case old of None \<Rightarrow> msg | Some r \<Rightarrow> rd_MessageID r),
      rd_ConsumerGroup = (case old of None \<Rightarrow> [] | Some r \<Rightarrow> rd_ConsumerGroup r),
      rd_Attempt = (case old of None \<Rightarrow> 0 | Some r \<Rightarrow> rd_Attempt r), rd_UpdatedAt = t, rd_ExpiresAt = t + ttl\<rparr>"

text \<open>
  The laws a client may use. \<open>vis t s\<close> are the records visible at \<open>t\<close>; an operation may drop expired
  records, so the laws speak about times from \<open>t\<close> on.
\<close>

definition same_from :: "(time \<Rightarrow> 'i \<Rightarrow> records) \<Rightarrow> time \<Rightarrow> 'i \<Rightarrow> 'i \<Rightarrow> bool" where
  "same_from vis t s s' \<longleftrightarrow> (\<forall>t'\<ge>t. vis t' s' = vis t' s)"

definition put_from :: "(time \<Rightarrow> 'i \<Rightarrow> records) \<Rightarrow> time \<Rightarrow> 'i \<Rightarrow> 'i \<Rightarrow> string \<Rightarrow> Record \<Rightarrow> bool" where
  "put_from vis t s s' key r \<longleftrightarrow>
     (\<forall>t'\<ge>t. vis t' s' = (vis t' s)(key := if t' < rd_ExpiresAt r then Some r else None))"

locale idempotency_store =
  fixes S :: "'i Store"
    and inv :: "'i \<Rightarrow> bool"
    and vis :: "time \<Rightarrow> 'i \<Rightarrow> records"
  assumes vis_mono: "inv s \<Longrightarrow> vis t' s key = Some r \<Longrightarrow> t \<le> t' \<Longrightarrow> vis t s key = Some r"
    and vis_expires: "inv s \<Longrightarrow> vis t s key = Some r \<Longrightarrow> t < rd_ExpiresAt r \<and> (\<forall>t'\<ge>t. t' < rd_ExpiresAt r \<longrightarrow> vis t' s key = Some r)"
    and vis_status: "inv s \<Longrightarrow> vis t s key = Some r \<Longrightarrow> rd_Status r \<in> {StatusInProgress, StatusCompleted, StatusFailed}"
    and get_law: "inv s \<Longrightarrow> ctx_err c t = None \<Longrightarrow>
      \<exists>s'. st_Get S c t s key = (s', Inr (case vis t s key of Some r \<Rightarrow> r | None \<Rightarrow> missing_record key))
        \<and> inv s' \<and> same_from vis t s s'"
    and begin_law: "inv s \<Longrightarrow> ctx_err c t = None \<Longrightarrow> 0 < bi_TTL i \<Longrightarrow>
      \<exists>s'. inv s' \<and> (case vis t s key of
          Some r \<Rightarrow> st_Begin S c t s key i = (s', Inr \<lparr>br_Record = r, br_Acquired = False, br_Duplicate = True\<rparr>)
            \<and> same_from vis t s s'
        | None \<Rightarrow> st_Begin S c t s key i =
              (s', Inr \<lparr>br_Record = begun t key i, br_Acquired = True, br_Duplicate = False\<rparr>)
            \<and> put_from vis t s s' key (begun t key i))"
    and complete_law: "inv s \<Longrightarrow> ctx_err c t = None \<Longrightarrow> 0 < ci_TTL ci \<Longrightarrow>
      \<exists>s'. st_Complete S c t s key ci = (s', None) \<and> inv s' \<and>
        put_from vis t s s' key (finished t key StatusCompleted (ci_OwnerID ci) (ci_MessageID ci) (ci_TTL ci) (vis t s key))"
    and fail_law: "inv s \<Longrightarrow> ctx_err c t = None \<Longrightarrow> 0 < fi_TTL fi \<Longrightarrow>
      \<exists>s'. st_Fail S c t s key fi = (s', None) \<and> inv s' \<and>
        put_from vis t s s' key (finished t key StatusFailed (fi_OwnerID fi) (fi_MessageID fi) (fi_TTL fi) (vis t s key))"
    and refused_ctx: "ctx_err c t = Some err \<Longrightarrow>
      st_Get S c t s key = (s, Inl err) \<and> st_Begin S c t s key i = (s, Inl err)
        \<and> st_Complete S c t s key ci = (s, Some err) \<and> st_Fail S c t s key fi = (s, Some err)"

section \<open>The sharded store meets it\<close>

definition flat :: "MemoryStore \<Rightarrow> records" where
  "flat s key = mget (shard_records s key) key"

definition store_inv :: "MemoryStore \<Rightarrow> bool" where
  "store_inv s \<longleftrightarrow> length (ms_shards s) = 16
     \<and> (\<forall>key r. flat s key = Some r \<longrightarrow> rd_Status r \<in> {StatusInProgress, StatusCompleted, StatusFailed})"

lemma shard_less: "shard key < 16"
proof -
  have "fnv32a key mod 16 < (16 :: 32 word)" by (rule word_mod_less_divisor) simp
  then show ?thesis by (simp add: shard_def word_less_nat_alt)
qed

text \<open>Two keys may share a shard, but an update of one key's entry is seen for that key only.\<close>

lemma flat_set_shard:
  assumes "length (ms_shards s) = 16"
  shows "flat (set_shard key (mput key r (shard_records s key)) s) = (flat s)(key \<mapsto> r)"
    and "flat (set_shard key (mdel key (shard_records s key)) s) = (flat s)(key := None)"
  using assms shard_less[of key]
  by (auto simp: flat_def set_shard_def shard_records_def fun_eq_iff nth_list_update)

lemma length_set_shard [simp]: "length (ms_shards (set_shard key sh s)) = length (ms_shards s)"
  by (simp add: set_shard_def)

lemma set_shard_twice [simp]: "set_shard key sh (set_shard key sh' s) = set_shard key sh s"
  by (simp add: set_shard_def)

lemma shard_records_set [simp]:
  "length (ms_shards s) = 16 \<Longrightarrow> shard_records (set_shard key sh s) key = sh"
  using shard_less[of key] by (simp add: shard_records_def set_shard_def)


abbreviation mem_vis :: "time \<Rightarrow> MemoryStore \<Rightarrow> records" where
  "mem_vis t s \<equiv> visible_at t (flat s)"

lemma visible_at_upd: "visible_at t (R(key \<mapsto> r)) = (visible_at t R)(key := if t < rd_ExpiresAt r then Some r else None)"
  by (auto simp: visible_at_def fun_eq_iff)

lemma visible_at_drop:
  "(case R key of Some r \<Rightarrow> rd_ExpiresAt r \<le> t | None \<Rightarrow> True) \<Longrightarrow> t \<le> t' \<Longrightarrow>
   visible_at t' (R(key := None)) = visible_at t' R"
  by (auto simp: visible_at_def fun_eq_iff split: option.splits)

lemma MemoryStore_Get_eq:
  assumes "length (ms_shards s) = 16" and "ctx_err c t = None"
  shows "snd (MemoryStore_Get c t s key) = Inr (case mem_vis t s key of Some r \<Rightarrow> r | None \<Rightarrow> missing_record key)"
    and "length (ms_shards (fst (MemoryStore_Get c t s key))) = 16"
    and "flat (fst (MemoryStore_Get c t s key)) = (if mem_vis t s key = None then (flat s)(key := None) else flat s)"
  using assms flat_set_shard[OF assms(1), of key]
  by (auto simp: MemoryStore_Get_def visible_at_def isExpired_def flat_def[symmetric] fun_eq_iff split: option.splits)

lemma MemoryStore_Begin_eq:
  assumes "length (ms_shards s) = 16" and "ctx_err c t = None" and "0 < bi_TTL i"
  shows "length (ms_shards (fst (MemoryStore_Begin c t s key i))) = 16"
    and "mem_vis t s key = Some r \<Longrightarrow>
      MemoryStore_Begin c t s key i = (s, Inr \<lparr>br_Record = r, br_Acquired = False, br_Duplicate = True\<rparr>)"
    and "mem_vis t s key = None \<Longrightarrow>
      snd (MemoryStore_Begin c t s key i) = Inr \<lparr>br_Record = begun t key i, br_Acquired = True, br_Duplicate = False\<rparr>
      \<and> flat (fst (MemoryStore_Begin c t s key i)) = (flat s)(key \<mapsto> begun t key i)"
  using assms flat_set_shard[OF assms(1), of key]
    flat_set_shard[of "set_shard key (mdel key (shard_records s key)) s" key]
  by (auto simp: MemoryStore_Begin_def visible_at_def isExpired_def flat_def[symmetric] begun_def Let_def
      split: option.splits if_splits)

lemma setTerminalStatus_eq:
  assumes "length (ms_shards s) = 16" and "ctx_err c t = None" and "0 < ttl"
  shows "snd (setTerminalStatus c t s key ow msg ttl st) = None"
    and "length (ms_shards (fst (setTerminalStatus c t s key ow msg ttl st))) = 16"
    and "flat (fst (setTerminalStatus c t s key ow msg ttl st)) =
      (flat s)(key \<mapsto> finished t key st ow msg ttl (mem_vis t s key))"
  using assms flat_set_shard(1)[OF assms(1), of key]
  by (auto simp: setTerminalStatus_def visible_at_def isExpired_def flat_def[symmetric] finished_def Let_def
      split: option.splits)

lemma put_from_mem:
  "flat s' = (flat s)(key \<mapsto> r) \<Longrightarrow> put_from mem_vis t s s' key r"
  by (simp add: put_from_def visible_at_upd)

lemma finished_Status [simp]: "rd_Status (finished t key st ow msg ttl old) = st"
  and begun_Status [simp]: "rd_Status (begun t key i) = StatusInProgress"
  and finished_ExpiresAt [simp]: "rd_ExpiresAt (finished t key st ow msg ttl old) = t + ttl"
  and begun_ExpiresAt [simp]: "rd_ExpiresAt (begun t key i) = t + bi_TTL i"
  by (simp_all add: finished_def begun_def)

lemma store_inv_put:
  "store_inv s \<Longrightarrow> length (ms_shards s') = 16 \<Longrightarrow> flat s' = (flat s)(key \<mapsto> r) \<Longrightarrow>
   rd_Status r \<in> {StatusInProgress, StatusCompleted, StatusFailed} \<Longrightarrow> store_inv s'"
  by (auto simp: store_inv_def split: if_splits)

lemma store_inv_New: "store_inv NewStore"
  using shard_less by (simp add: store_inv_def NewStore_def flat_def shard_records_def)

interpretation mem_store: idempotency_store memory_store store_inv mem_vis
proof (unfold_locales, goal_cases)
  case (1 s t' key r t)
  then show ?case by (auto simp: visible_at_def split: option.splits if_splits)
next
  case (2 s t key r)
  then show ?case by (auto simp: visible_at_def split: option.splits if_splits)
next
  case (3 s t key r)
  then show ?case by (auto simp: store_inv_def visible_at_def split: option.splits if_splits)
next
  case (4 s c t key)
  then have l: "length (ms_shards s) = 16" by (simp add: store_inv_def)
  let ?s = "fst (MemoryStore_Get c t s key)"
  have "same_from mem_vis t s ?s"
    using MemoryStore_Get_eq(3)[OF l 4(2), of key]
    by (auto simp: same_from_def visible_at_drop[where R = "flat s" and key = key and t = t] visible_at_def split: option.splits if_splits)
  moreover have "store_inv ?s"
    using 4(1) MemoryStore_Get_eq(2,3)[OF l 4(2), of key] by (auto simp: store_inv_def split: if_splits)
  ultimately show ?case
    using MemoryStore_Get_eq(1)[OF l 4(2), of key]
    by (intro exI[of _ ?s]) (auto simp: memory_store_def prod_eq_iff)
next
  case (5 s c t i key)
  then have l: "length (ms_shards s) = 16" by (simp add: store_inv_def)
  note eqs = MemoryStore_Begin_eq[OF l 5(2,3)]
  let ?s = "fst (MemoryStore_Begin c t s key i)"
  show ?case
  proof (cases "mem_vis t s key")
    case None
    have "store_inv ?s" by (rule store_inv_put[OF 5(1) eqs(1) conjunct2[OF eqs(3)[OF None]]]) simp
    with eqs(3)[OF None] None show ?thesis
      by (intro exI[of _ ?s]) (simp add: memory_store_def prod_eq_iff put_from_mem)
  next
    case (Some r)
    with eqs(2)[OF Some] 5(1) show ?thesis by (simp add: memory_store_def same_from_def)
  qed
next
  case (6 s c t ci key)
  then have l: "length (ms_shards s) = 16" by (simp add: store_inv_def)
  let ?r = "MemoryStore_Complete c t s key ci"
  note eqs = setTerminalStatus_eq[OF l 6(2,3), of key "ci_OwnerID ci" "ci_MessageID ci" StatusCompleted]
  have "store_inv (fst ?r)" unfolding MemoryStore_Complete_def by (rule store_inv_put[OF 6(1) eqs(2,3)]) simp
  with eqs show ?case
    by (intro exI[of _ "fst ?r"]) (simp add: memory_store_def MemoryStore_Complete_def prod_eq_iff put_from_mem)
next
  case (7 s c t fi key)
  then have l: "length (ms_shards s) = 16" by (simp add: store_inv_def)
  let ?r = "MemoryStore_Fail c t s key fi"
  note eqs = setTerminalStatus_eq[OF l 7(2,3), of key "fi_OwnerID fi" "fi_MessageID fi" StatusFailed]
  have "store_inv (fst ?r)" unfolding MemoryStore_Fail_def by (rule store_inv_put[OF 7(1) eqs(2,3)]) simp
  with eqs show ?case
    by (intro exI[of _ "fst ?r"]) (simp add: memory_store_def MemoryStore_Fail_def prod_eq_iff put_from_mem)
next
  case (8 c t err s key i ci fi)
  then show ?case
    by (simp add: memory_store_def MemoryStore_Get_def MemoryStore_Begin_def MemoryStore_Complete_def
        MemoryStore_Fail_def setTerminalStatus_def)
qed


section \<open>Properties\<close>

text \<open>
  C25. The sharded store behaves like one map from keys to records, whichever shards the keys fall into:
  \<^verbatim>\<open>Get\<close> reads the visible record; \<^verbatim>\<open>Begin\<close> returns the visible record as a duplicate and changes nothing,
  or else stores an in-progress record; \<^verbatim>\<open>Complete\<close> and \<^verbatim>\<open>Fail\<close> replace the record of that key, keeping
  the owner, message, group and attempt of a visible one. No other key is affected.
\<close>

theorem sharded_store_refines_map:
  assumes "store_inv s" and "ctx_err c t = None" and "0 < bi_TTL i" and "0 < ci_TTL ci" and "0 < fi_TTL fi"
  shows "snd (MemoryStore_Get c t s key) = Inr (case visible_at t (flat s) key of Some r \<Rightarrow> r | None \<Rightarrow> missing_record key)
    \<and> (case visible_at t (flat s) key of
         Some r \<Rightarrow> MemoryStore_Begin c t s key i = (s, Inr \<lparr>br_Record = r, br_Acquired = False, br_Duplicate = True\<rparr>)
       | None \<Rightarrow> snd (MemoryStore_Begin c t s key i) =
             Inr \<lparr>br_Record = begun t key i, br_Acquired = True, br_Duplicate = False\<rparr>
           \<and> flat (fst (MemoryStore_Begin c t s key i)) = (flat s)(key \<mapsto> begun t key i))
    \<and> snd (MemoryStore_Complete c t s key ci) = None
    \<and> flat (fst (MemoryStore_Complete c t s key ci)) = (flat s)(key \<mapsto>
         finished t key StatusCompleted (ci_OwnerID ci) (ci_MessageID ci) (ci_TTL ci) (visible_at t (flat s) key))
    \<and> snd (MemoryStore_Fail c t s key fi) = None
    \<and> flat (fst (MemoryStore_Fail c t s key fi)) = (flat s)(key \<mapsto>
         finished t key StatusFailed (fi_OwnerID fi) (fi_MessageID fi) (fi_TTL fi) (visible_at t (flat s) key))"
proof -
  have l: "length (ms_shards s) = 16" using assms(1) by (simp add: store_inv_def)
  show ?thesis
    using MemoryStore_Get_eq(1)[OF l assms(2)] MemoryStore_Begin_eq(2,3)[OF l assms(2,3)]
      setTerminalStatus_eq(1,3)[OF l assms(2,4)] setTerminalStatus_eq(1,3)[OF l assms(2,5)]
    by (auto simp: MemoryStore_Complete_def MemoryStore_Fail_def split: option.split)
qed

definition ex_begin :: "string \<Rightarrow> BeginInput" where
  "ex_begin ow = \<lparr>bi_OwnerID = ow, bi_MessageID = ''m'', bi_ConsumerGroup = ''g'', bi_Attempt = 1, bi_TTL = 10\<rparr>"

theorem sharded_store_refines_map_witness:
  "flat (fst (MemoryStore_Begin background 0 NewStore ''k'' (ex_begin ''a''))) = [''k'' \<mapsto> begun 0 ''k'' (ex_begin ''a'')]"
proof -
  have "flat NewStore = Map.empty"
    using shard_less by (simp add: fun_eq_iff NewStore_def flat_def shard_records_def)
  then show ?thesis
    using sharded_store_refines_map[OF store_inv_New, of background 0 "ex_begin ''a''"
        "\<lparr>ci_OwnerID = [], ci_MessageID = [], ci_TTL = 1\<rparr>" "\<lparr>fi_OwnerID = [], fi_MessageID = [], fi_TTL = 1\<rparr>" "''k''"]
    by (simp add: ex_begin_def background_def ctx_err_def visible_at_def)
qed

text \<open>Sequences of calls by any number of clients, in the order the shard locks admit them.\<close>

datatype store_op =
    OpGet string
  | OpBegin string BeginInput
  | OpComplete string CompleteInput
  | OpFail string FailInput

definition apply_op :: "go_ctx \<Rightarrow> time \<Rightarrow> store_op \<Rightarrow> MemoryStore \<Rightarrow> MemoryStore" where
  "apply_op c t op s = (case op of
     OpGet key \<Rightarrow> fst (MemoryStore_Get c t s key)
   | OpBegin key i \<Rightarrow> fst (MemoryStore_Begin c t s key i)
   | OpComplete key ci \<Rightarrow> fst (MemoryStore_Complete c t s key ci)
   | OpFail key fi \<Rightarrow> fst (MemoryStore_Fail c t s key fi))"

definition begin_wins :: "string \<Rightarrow> go_ctx \<Rightarrow> time \<Rightarrow> store_op \<Rightarrow> MemoryStore \<Rightarrow> bool" where
  "begin_wins key c t op s = (case op of
     OpBegin k i \<Rightarrow> k = key \<and> (case snd (MemoryStore_Begin c t s k i) of Inr r \<Rightarrow> br_Acquired r | Inl _ \<Rightarrow> False)
   | _ \<Rightarrow> False)"

fun winners :: "string \<Rightarrow> (go_ctx \<times> time \<times> store_op) list \<Rightarrow> MemoryStore \<Rightarrow> nat" where
  "winners key [] s = 0"
| "winners key ((c, t, op) # ops) s = (if begin_wins key c t op s then 1 else 0) + winners key ops (apply_op c t op s)"

fun terminal_on :: "string \<Rightarrow> store_op \<Rightarrow> bool" where
  "terminal_on key (OpComplete k ci) = (k = key)"
| "terminal_on key (OpFail k fi) = (k = key)"
| "terminal_on key _ = False"

lemma apply_op_length: "length (ms_shards (apply_op c t op s)) = length (ms_shards s)"
  by (auto simp: apply_op_def MemoryStore_Get_def MemoryStore_Begin_def MemoryStore_Complete_def MemoryStore_Fail_def
      setTerminalStatus_def Let_def split: store_op.split option.split)

lemma apply_op_keeps:
  assumes "length (ms_shards s) = 16" and "flat s key = Some r" and "t < rd_ExpiresAt r" and "\<not> terminal_on key op"
  shows "flat (apply_op c t op s) key = Some r" and "\<not> begin_wins key c t op s"
proof -
  have "flat (set_shard k sh s) key = (if shard key = shard k then mget sh key else flat s key)" for k sh
    using assms(1) shard_less[of k] by (simp add: flat_def set_shard_def shard_records_def)
  moreover have "shard key = shard k \<Longrightarrow> mget (shard_records s k) key = Some r" for k
    using assms(2) by (simp add: flat_def shard_records_def)
  ultimately show "flat (apply_op c t op s) key = Some r"
    using assms
    by (cases op) (auto simp: apply_op_def MemoryStore_Get_def MemoryStore_Begin_def MemoryStore_Complete_def
        MemoryStore_Fail_def setTerminalStatus_def Let_def isExpired_def flat_def[symmetric] split: option.split)
  show "\<not> begin_wins key c t op s"
    using assms(2,3)
    by (cases op) (auto simp: begin_wins_def MemoryStore_Begin_def Let_def isExpired_def flat_def[symmetric] split: option.split)
qed

text \<open>
  C24. \<^verbatim>\<open>Begin\<close> has one winner. When a \<^verbatim>\<open>Begin\<close> acquires a key, then in whatever sequence of calls follows,
  on this key and on any others, no other \<^verbatim>\<open>Begin\<close> acquires it before the record expires, as long as
  the key is not completed or failed.
\<close>

theorem begin_wins_once:
  assumes "store_inv s" and "MemoryStore_Begin c t s key i = (s', Inr r)" and "br_Acquired r"
    and "\<forall>(c', t', op) \<in> set ops. t' < t + bi_TTL i \<and> \<not> terminal_on key op"
  shows "winners key ops s' = 0"
proof -
  have cond: "ctx_err c t = None" "0 < bi_TTL i"
    using assms(2) by (auto simp: MemoryStore_Begin_def Let_def split: option.splits if_splits)
  have l: "length (ms_shards s) = 16" using assms(1) by (simp add: store_inv_def)
  note eqs = MemoryStore_Begin_eq[OF l cond, of key]
  have "visible_at t (flat s) key = None"
    using eqs(2) assms(2,3) by (cases "visible_at t (flat s) key") auto
  from eqs(1) eqs(3)[OF this] assms(2) have *: "length (ms_shards s') = 16" "flat s' key = Some (begun t key i)" by auto
  have "length (ms_shards s) = 16 \<Longrightarrow> flat s key = Some (begun t key i) \<Longrightarrow> winners key ops s = 0" for s
    using assms(4)
    by (induction ops arbitrary: s) (auto simp: apply_op_keeps apply_op_length)
  with * show ?thesis by blast
qed

theorem begin_wins_once_witness:
  "winners ''k'' [(background, 3, OpBegin ''k'' (ex_begin ''b'')), (background, 4, OpGet ''j''),
      (background, 5, OpBegin ''k'' (ex_begin ''a''))]
     (fst (MemoryStore_Begin background 0 NewStore ''k'' (ex_begin ''a''))) = 0"
proof (rule begin_wins_once[OF store_inv_New])
  show "MemoryStore_Begin background 0 NewStore ''k'' (ex_begin ''a'') =
      (fst (MemoryStore_Begin background 0 NewStore ''k'' (ex_begin ''a'')),
       Inr \<lparr>br_Record = begun 0 ''k'' (ex_begin ''a''), br_Acquired = True, br_Duplicate = False\<rparr>)"
    by code_simp
qed (simp_all add: ex_begin_def)

end
