(* ===== verification/Redis_Store.thy ===== *)
theory Redis_Store
  imports Redis_Keys Idempotency
begin

text \<open>
  The idempotency store on Redis (\<^verbatim>\<open>src/idempotency/redis/store.go\<close>). The JSON encoder and decoder of the server's Lua, and Go's
  \<^verbatim>\<open>json.Unmarshal\<close>, are parameters: a record is stored as the string that \<open>cjson_encode\<close> gives for its fields. Server,
  network and script values are those of the Redis backend.
\<close>

section \<open>Records as JSON\<close>

record recordPayload =
  pl_Key :: string
  pl_Status :: string
  pl_OwnerID :: string
  pl_MessageID :: string
  pl_ConsumerGroup :: string
  pl_Attempt :: int
  pl_UpdatedAtUnixMS :: int
  pl_ExpiresAtUnixMS :: int

text \<open>The fields of a decoded table that the terminal script looks at; a missing field is \<open>None\<close>.\<close>

record lua_fields =
  lf_owner_id :: "string option"
  lf_message_id :: "string option"
  lf_consumer_group :: "string option"
  lf_attempt :: "int option"

record Codec =
  cjson_encode :: "recordPayload \<Rightarrow> string"
  cjson_decode :: "string \<Rightarrow> lua_fields result"
  json_Unmarshal :: "string \<Rightarrow> recordPayload option"

definition status_string :: "Status \<Rightarrow> string" where
  "status_string st = (case st of StatusMissing \<Rightarrow> ''missing'' | StatusInProgress \<Rightarrow> ''in_progress''
     | StatusCompleted \<Rightarrow> ''completed'' | StatusFailed \<Rightarrow> ''failed'' | StatusOther s \<Rightarrow> s)"

definition string_status :: "string \<Rightarrow> Status" where
  "string_status s = (if s = ''missing'' then StatusMissing else if s = ''in_progress'' then StatusInProgress
     else if s = ''completed'' then StatusCompleted else if s = ''failed'' then StatusFailed else StatusOther s)"

definition errInvalidRequest :: go_error where
  "errInvalidRequest = Errorf ''redis idempotency store: invalid request'' [] []"

definition errInvalidScriptResponse :: go_error where
  "errInvalidScriptResponse = Errorf ''redis idempotency store: invalid script response'' [] []"

text \<open>\<^verbatim>\<open>time.UnixMilli\<close> gives the time of a number of milliseconds.\<close>

definition decodeRecord :: "Codec \<Rightarrow> string \<Rightarrow> Record result" where
  "decodeRecord J raw =
     (case json_Unmarshal J raw of
        None \<Rightarrow> Inl errInvalidScriptResponse
      | Some payload \<Rightarrow>
          Inr \<lparr>rd_Key = pl_Key payload, rd_Status = string_status (pl_Status payload), rd_OwnerID = pl_OwnerID payload,
               rd_MessageID = pl_MessageID payload, rd_ConsumerGroup = pl_ConsumerGroup payload, rd_Attempt = pl_Attempt payload,
               rd_UpdatedAt = pl_UpdatedAtUnixMS payload * millisecond, rd_ExpiresAt = pl_ExpiresAtUnixMS payload * millisecond\<rparr>)"

section \<open>Scripts\<close>

definition beginScript :: "'r RedisServer \<Rightarrow> Codec \<Rightarrow> int \<Rightarrow> string \<Rightarrow> recordPayload \<Rightarrow> int \<Rightarrow> 'r script" where
  "beginScript S J ms key payload ttl r =
     (case GET S ms r key of
        Some existing \<Rightarrow> (r, Inr (AnyList [AnyInt 0, AnyString (val_text S existing)]))
      | None \<Rightarrow>
          (case SETPX S ms r key (RStr (cjson_encode J payload)) ttl False of
             (r', _) \<Rightarrow> (r', Inr (AnyList [AnyInt 1, AnyString (cjson_encode J payload)]))))"

definition or_else :: "'a option \<Rightarrow> 'a \<Rightarrow> 'a" where
  "or_else x y = (case x of Some v \<Rightarrow> v | None \<Rightarrow> y)"

text \<open>The payload comes with the owner and message of the call, no group and attempt 0; a stored record overrides them.\<close>

definition terminalScript :: "'r RedisServer \<Rightarrow> Codec \<Rightarrow> int \<Rightarrow> string \<Rightarrow> recordPayload \<Rightarrow> int \<Rightarrow> 'r script" where
  "terminalScript S J ms key payload ttl r =
     (let store = (\<lambda>payload. case SETPX S ms r key (RStr (cjson_encode J payload)) ttl False of
            (r', _) \<Rightarrow> (r', Inr (AnyString (cjson_encode J payload))))
      in case GET S ms r key of
           None \<Rightarrow> store payload
         | Some existingRaw \<Rightarrow>
             (case cjson_decode J (val_text S existingRaw) of
                Inl err \<Rightarrow> (r, Inl err)
              | Inr existing \<Rightarrow>
                  store (payload\<lparr>pl_OwnerID := or_else (lf_owner_id existing) (pl_OwnerID payload),
                    pl_MessageID := or_else (lf_message_id existing) (pl_MessageID payload),
                    pl_ConsumerGroup := or_else (lf_consumer_group existing) (pl_ConsumerGroup payload),
                    pl_Attempt := or_else (lf_attempt existing) (pl_Attempt payload)\<rparr>)))"

section \<open>The store\<close>

record 'r RedisStore =
  rst_client :: bool
  rst_keyPrefix :: string
  rst_db :: 'r
  rst_net :: "net list"

definition store_defaultKeyPrefix :: string where
  "store_defaultKeyPrefix = ''lockman:idempotency''"

definition NewRedisStore :: "bool \<Rightarrow> string \<Rightarrow> 'r \<Rightarrow> net list \<Rightarrow> 'r RedisStore" where
  "NewRedisStore client keyPrefix db net =
     \<lparr>rst_client = client, rst_keyPrefix = (if trim_space keyPrefix = [] then store_defaultKeyPrefix else keyPrefix),
      rst_db = db, rst_net = net\<rparr>"

definition store_send :: "('r \<Rightarrow> 'r \<times> 'a result) \<Rightarrow> 'r RedisStore \<Rightarrow> 'r RedisStore \<times> 'a result" where
  "store_send f s =
     (let s1 = s\<lparr>rst_net := tl (rst_net s)\<rparr> in
      case (case rst_net s of [] \<Rightarrow> Answered | n # _ \<Rightarrow> n) of
        Answered \<Rightarrow> (case f (rst_db s) of (r, x) \<Rightarrow> (s1\<lparr>rst_db := r\<rparr>, x))
      | NotSent err \<Rightarrow> (s1, Inl err)
      | ReplyLost err \<Rightarrow> (s1\<lparr>rst_db := fst (f (rst_db s))\<rparr>, Inl err)
      | Resent \<Rightarrow> (case f (fst (f (rst_db s))) of (r, x) \<Rightarrow> (s1\<lparr>rst_db := r\<rparr>, x)))"

definition store_encodeSegment :: "string \<Rightarrow> string" where
  "store_encodeSegment v = b64_encode v"

definition buildKey :: "'r RedisStore \<Rightarrow> string \<Rightarrow> string" where
  "buildKey s key = rst_keyPrefix s @ '':'' @ store_encodeSegment key"

definition validateKeyedRequest :: "'r RedisStore \<Rightarrow> string \<Rightarrow> go_err" where
  "validateKeyedRequest s key =
     (if \<not> rst_client s then Some errInvalidRequest
      else if trim_space key = [] then Some errInvalidRequest else None)"

text \<open>The number of milliseconds, rounded up.\<close>

definition durationToMillis :: "duration \<Rightarrow> int result" where
  "durationToMillis ttl =
     (if ttl \<le> 0 then Inl errInvalidRequest
      else
        let n = quot ttl millisecond; n' = (if ttl - quot ttl millisecond * millisecond \<noteq> 0 then n + 1 else n) in
        if n' \<le> 0 then Inl errInvalidRequest else Inr n')"

definition store_toInt64 :: "go_any \<Rightarrow> int result" where
  "store_toInt64 v = (case v of
     AnyInt n \<Rightarrow> Inr n
   | AnyString s \<Rightarrow> (case ParseInt64 s of Some n \<Rightarrow> Inr n | None \<Rightarrow> Inl errInvalidScriptResponse)
   | _ \<Rightarrow> Inl errInvalidScriptResponse)"

definition store_toString :: "go_any \<Rightarrow> string result" where
  "store_toString v = (case v of AnyString s \<Rightarrow> Inr s | AnyBytes s \<Rightarrow> Inr s | _ \<Rightarrow> Inl errInvalidScriptResponse)"

definition parseBeginResponse :: "Codec \<Rightarrow> go_any \<Rightarrow> (bool \<times> Record) result" where
  "parseBeginResponse J raw = (case raw of
     AnyList [v, w] \<Rightarrow>
       (case store_toInt64 v of
          Inl err \<Rightarrow> Inl err
        | Inr code \<Rightarrow>
            (case store_toString w of
               Inl err \<Rightarrow> Inl err
             | Inr recordRaw \<Rightarrow>
                 (case decodeRecord J recordRaw of
                    Inl err \<Rightarrow> Inl err
                  | Inr record \<Rightarrow>
                      if code = 1 then Inr (True, record)
                      else if code = 0 then Inr (False, record)
                      else Inl errInvalidScriptResponse)))
   | _ \<Rightarrow> Inl errInvalidScriptResponse)"

definition RedisStore_Get ::
  "'r RedisServer \<Rightarrow> Codec \<Rightarrow> go_ctx \<Rightarrow> time \<Rightarrow> 'r RedisStore \<Rightarrow> string \<Rightarrow> 'r RedisStore \<times> Record result"
where
  "RedisStore_Get S J ctx now s key =
     (case first_err [ctx_err ctx now, validateKeyedRequest s key] of
        Some err \<Rightarrow> (s, Inl err)
      | None \<Rightarrow>
          (case store_send (\<lambda>r. (r, Inr (GET S (clock S now) r (buildKey s key)))) s of
             (s1, Inl err) \<Rightarrow> (s1, Inl err)
           | (s1, Inr None) \<Rightarrow> (s1, Inr (missing_record key))
           | (s1, Inr (Some raw)) \<Rightarrow> (s1, decodeRecord J (val_text S raw))))"

definition RedisStore_Begin ::
  "'r RedisServer \<Rightarrow> Codec \<Rightarrow> go_ctx \<Rightarrow> time \<Rightarrow> 'r RedisStore \<Rightarrow> string \<Rightarrow> BeginInput \<Rightarrow> 'r RedisStore \<times> BeginResult result"
where
  "RedisStore_Begin S J ctx now s key input =
     (case first_err [ctx_err ctx now, validateKeyedRequest s key] of
        Some err \<Rightarrow> (s, Inl err)
      | None \<Rightarrow>
          (case durationToMillis (bi_TTL input) of
             Inl err \<Rightarrow> (s, Inl err)
           | Inr ttlMillis \<Rightarrow>
               (case store_send (beginScript S J (clock S now) (buildKey s key)
                       \<lparr>pl_Key = key, pl_Status = status_string StatusInProgress, pl_OwnerID = bi_OwnerID input,
                        pl_MessageID = bi_MessageID input, pl_ConsumerGroup = bi_ConsumerGroup input, pl_Attempt = bi_Attempt input,
                        pl_UpdatedAtUnixMS = UnixMilli now, pl_ExpiresAtUnixMS = UnixMilli (now + bi_TTL input)\<rparr> ttlMillis) s of
                  (s1, Inl err) \<Rightarrow> (s1, Inl err)
                | (s1, Inr raw) \<Rightarrow>
                    (s1, case parseBeginResponse J raw of
                       Inl err \<Rightarrow> Inl err
                     | Inr (acquired, record) \<Rightarrow> Inr \<lparr>br_Record = record, br_Acquired = acquired, br_Duplicate = \<not> acquired\<rparr>))))"

definition RedisStore_setTerminalStatus ::
  "'r RedisServer \<Rightarrow> Codec \<Rightarrow> go_ctx \<Rightarrow> time \<Rightarrow> 'r RedisStore \<Rightarrow> string \<Rightarrow> string \<Rightarrow> string \<Rightarrow> duration \<Rightarrow> Status
    \<Rightarrow> 'r RedisStore \<times> go_err"
where
  "RedisStore_setTerminalStatus S J ctx now s key ownerID messageID ttl status =
     (case first_err [ctx_err ctx now, validateKeyedRequest s key] of
        Some err \<Rightarrow> (s, Some err)
      | None \<Rightarrow>
          (case durationToMillis ttl of
             Inl err \<Rightarrow> (s, Some err)
           | Inr ttlMillis \<Rightarrow>
               (case store_send (terminalScript S J (clock S now) (buildKey s key)
                       \<lparr>pl_Key = key, pl_Status = status_string status, pl_OwnerID = ownerID, pl_MessageID = messageID,
                        pl_ConsumerGroup = [], pl_Attempt = 0, pl_UpdatedAtUnixMS = UnixMilli now,
                        pl_ExpiresAtUnixMS = UnixMilli (now + ttl)\<rparr> ttlMillis) s of
                  (s1, Inl err) \<Rightarrow> (s1, Some err)
                | (s1, Inr _) \<Rightarrow> (s1, None))))"

definition RedisStore_Complete ::
  "'r RedisServer \<Rightarrow> Codec \<Rightarrow> go_ctx \<Rightarrow> time \<Rightarrow> 'r RedisStore \<Rightarrow> string \<Rightarrow> CompleteInput \<Rightarrow> 'r RedisStore \<times> go_err"
where
  "RedisStore_Complete S J ctx now s key input =
     RedisStore_setTerminalStatus S J ctx now s key (ci_OwnerID input) (ci_MessageID input) (ci_TTL input) StatusCompleted"

definition RedisStore_Fail ::
  "'r RedisServer \<Rightarrow> Codec \<Rightarrow> go_ctx \<Rightarrow> time \<Rightarrow> 'r RedisStore \<Rightarrow> string \<Rightarrow> FailInput \<Rightarrow> 'r RedisStore \<times> go_err"
where
  "RedisStore_Fail S J ctx now s key input =
     RedisStore_setTerminalStatus S J ctx now s key (fi_OwnerID input) (fi_MessageID input) (fi_TTL input) StatusFailed"

definition redis_store :: "'r RedisServer \<Rightarrow> Codec \<Rightarrow> 'r RedisStore Store" where
  "redis_store S J = \<lparr>st_Get = RedisStore_Get S J, st_Begin = RedisStore_Begin S J, st_Complete = RedisStore_Complete S J,
     st_Fail = RedisStore_Fail S J\<rparr>"

section \<open>Runs\<close>

fun redis_store_exec :: "'r RedisServer \<Rightarrow> Codec \<Rightarrow> go_ctx \<Rightarrow> time \<Rightarrow> store_op \<Rightarrow> 'r RedisStore \<Rightarrow> 'r RedisStore" where
  "redis_store_exec S J c t (OpGet key) s = fst (RedisStore_Get S J c t s key)"
| "redis_store_exec S J c t (OpBegin key i) s = fst (RedisStore_Begin S J c t s key i)"
| "redis_store_exec S J c t (OpComplete key ci) s = fst (RedisStore_Complete S J c t s key ci)"
| "redis_store_exec S J c t (OpFail key fi) s = fst (RedisStore_Fail S J c t s key fi)"

fun redis_store_run :: "'r RedisServer \<Rightarrow> Codec \<Rightarrow> (go_ctx \<times> time \<times> store_op) list \<Rightarrow> 'r RedisStore \<Rightarrow> 'r RedisStore" where
  "redis_store_run S J [] s = s"
| "redis_store_run S J ((c, t, op) # ops) s = redis_store_run S J ops (redis_store_exec S J c t op s)"

text \<open>The keys of the store hold strings; the network runs a request at most once.\<close>

definition redis_store_inv :: "('r \<Rightarrow> bool) \<Rightarrow> ('r \<Rightarrow> keyspace) \<Rightarrow> 'r RedisStore \<Rightarrow> bool" where
  "redis_store_inv ok look s \<longleftrightarrow> list_all net_ok (rst_net s) \<and> ok (rst_db s)
     \<and> (\<forall>key v x. look (rst_db s) (buildKey s key) = Some (v, x) \<longrightarrow> (\<exists>raw. v = RStr raw))"

lemma buildKey_inject [simp]: "buildKey s key = buildKey s key' \<longleftrightarrow> key = key'"
  by (simp add: buildKey_def store_encodeSegment_def)

lemma buildKey_prefix: "rst_keyPrefix s' = rst_keyPrefix s \<Longrightarrow> buildKey s' = buildKey s"
  by (simp add: buildKey_def fun_eq_iff)

lemma store_send_cases:
  assumes "list_all net_ok (rst_net s)" and "store_send f s = (s', x)"
  shows "list_all net_ok (rst_net s') \<and> rst_keyPrefix s' = rst_keyPrefix s
    \<and> (f (rst_db s) = (rst_db s', x) \<or> rst_db s' = rst_db s \<and> (\<exists>e. x = Inl e))"
  using assms by (auto simp: store_send_def net_ok_def Let_def split: list.splits net.splits prod.splits)

lemma durationToMillis_pos: "durationToMillis ttl = Inr n \<Longrightarrow> 0 < n"
  by (auto simp: durationToMillis_def Let_def split: if_splits)

definition begin_payload :: "time \<Rightarrow> string \<Rightarrow> BeginInput \<Rightarrow> recordPayload" where
  "begin_payload t key i = \<lparr>pl_Key = key, pl_Status = status_string StatusInProgress, pl_OwnerID = bi_OwnerID i,
     pl_MessageID = bi_MessageID i, pl_ConsumerGroup = bi_ConsumerGroup i, pl_Attempt = bi_Attempt i,
     pl_UpdatedAtUnixMS = UnixMilli t, pl_ExpiresAtUnixMS = UnixMilli (t + bi_TTL i)\<rparr>"

context redis_server
begin

text \<open>A method on \<open>key\<close> leaves the other keys alone.\<close>

definition store_step :: "time \<Rightarrow> string \<Rightarrow> 'r RedisStore \<Rightarrow> 'r RedisStore \<Rightarrow> bool" where
  "store_step t key s s' \<longleftrightarrow> redis_store_inv ok look s' \<and> rst_keyPrefix s' = rst_keyPrefix s
     \<and> (\<forall>key'. key' \<noteq> key \<longrightarrow> decay alive (clock S t) (look (rst_db s')) (buildKey s key') = decay alive (clock S t) (look (rst_db s)) (buildKey s key'))"

lemma store_idle: "redis_store_inv ok look s \<Longrightarrow> list_all net_ok (rst_net s') \<Longrightarrow> rst_keyPrefix s' = rst_keyPrefix s \<Longrightarrow> rst_db s' = rst_db s \<Longrightarrow> store_step t key s s'"
  using buildKey_prefix[of s' s] by (simp add: store_step_def redis_store_inv_def)

lemma store_get:
  assumes "redis_store_inv ok look s"
  shows "GET S ms (rst_db s) (buildKey s key) = map_option fst (decay alive ms (look (rst_db s)) (buildKey s key))"
proof -
  have "plain_at (decay alive ms (look (rst_db s))) (buildKey s key)"
    using assms decay_Some[of alive ms "look (rst_db s)" "buildKey s key"]
    by (fastforce simp: redis_store_inv_def plain_at_def split: option.splits rval.splits)
  then show ?thesis using get_law[OF _ refl] assms by (simp add: redis_store_inv_def)
qed

lemma store_put:
  assumes "redis_store_inv ok look s" and "0 < ttl" and "SETPX S (clock S t) (rst_db s) (buildKey s key) (RStr raw) ttl False = (rst_db s', b)"
    and "list_all net_ok (rst_net s')" and "rst_keyPrefix s' = rst_keyPrefix s"
  shows "store_step t key s s'" and "look (rst_db s') (buildKey s key) = Some (RStr raw, Some (clock S t + ttl))"
proof -
  let ?m = "(look (rst_db s))(buildKey s key \<mapsto> (RStr raw, Some (clock S t + ttl)))"
  have law: "ok (rst_db s')" "settles alive (clock S t) ?m (look (rst_db s'))"
    using setpx_law[OF _ assms(2,3)] assms(1) by (auto simp: redis_store_inv_def)
  have v: "decay alive (clock S t) (look (rst_db s')) = decay alive (clock S t) ?m" by (rule settles_decay[OF law(2) order_refl])
  have "\<exists>raw. v = RStr raw" if "look (rst_db s') (buildKey s key') = Some (v, x)" for key' v x
    using settles_Some[OF law(2) that] assms(1) by (auto simp: redis_store_inv_def split: if_splits)
  then show "store_step t key s s'" using law(1) assms(4,5) v buildKey_prefix[OF assms(5)]
    by (simp add: store_step_def redis_store_inv_def decay_upd)
  have "decay alive (clock S t) (look (rst_db s')) (buildKey s key) = Some (RStr raw, Some (clock S t + ttl))"
    unfolding v using alive_now[OF assms(2)] by (simp add: decay_def)
  then show "look (rst_db s') (buildKey s key) = Some (RStr raw, Some (clock S t + ttl))" by (rule decay_Some)
qed

text \<open>The three kinds of call: read, begin, finish.\<close>

lemma Get_step:
  assumes "redis_store_inv ok look s" and "RedisStore_Get S J c t s key = (s', r)"
  shows "store_step t key' s s' \<and> rst_db s' = rst_db s" and "r = Inr rec \<Longrightarrow> decay alive (clock S t) (look (rst_db s)) (buildKey s key) = Some (RStr raw, x)
    \<Longrightarrow> decodeRecord J raw = Inr rec"
proof -
  have n: "list_all net_ok (rst_net s)" using assms(1) by (simp add: redis_store_inv_def)
  obtain s1 x1 where sd: "store_send (\<lambda>r. (r, Inr (GET S (clock S t) r (buildKey s key)) :: rval option result)) s = (s1, x1)" by fastforce
  note c = store_send_cases[OF n sd]
  have "s' = s \<or> s' = s1" using assms(2) sd by (auto simp: RedisStore_Get_def split: option.splits sum.splits)
  moreover have "rst_db s1 = rst_db s" using c by auto
  ultimately show "store_step t key' s s' \<and> rst_db s' = rst_db s" using store_idle[OF assms(1)] n c by auto
  show "decodeRecord J raw = Inr rec" if "r = Inr rec" "decay alive (clock S t) (look (rst_db s)) (buildKey s key) = Some (RStr raw, x)"
    using assms(2) sd c that store_get[OF assms(1), of "clock S t" key]
    by (auto simp: RedisStore_Get_def val_text_def split: option.splits sum.splits)
qed

lemma parse_begin: "parseBeginResponse J (AnyList [AnyInt n, AnyString raw]) =
    (case decodeRecord J raw of Inl err \<Rightarrow> Inl err
     | Inr record \<Rightarrow> if n = 1 then Inr (True, record) else if n = 0 then Inr (False, record) else Inl errInvalidScriptResponse)"
  by (simp add: parseBeginResponse_def store_toInt64_def store_toString_def)

lemma Begin_step:
  assumes "redis_store_inv ok look s" and "RedisStore_Begin S J c t s key i = (s', r)"
  shows "store_step t key s s'"
    and "decay alive (clock S t) (look (rst_db s)) (buildKey s key) = Some (RStr raw, x) \<Longrightarrow>
      rst_db s' = rst_db s \<and> (\<forall>b. r = Inr b \<longrightarrow> \<not> br_Acquired b \<and> br_Duplicate b \<and> decodeRecord J raw = Inr (br_Record b))"
    and "r = Inr b \<Longrightarrow> br_Acquired b \<Longrightarrow> \<exists>n. durationToMillis (bi_TTL i) = Inr n
      \<and> look (rst_db s') (buildKey s key) = Some (RStr (cjson_encode J (begin_payload t key i)), Some (clock S t + n))
      \<and> decodeRecord J (cjson_encode J (begin_payload t key i)) = Inr (br_Record b)"
proof -
  let ?p = "begin_payload t key i" and ?K = "buildKey s key"
  let ?v = "decay alive (clock S t) (look (rst_db s)) ?K"
  have n: "list_all net_ok (rst_net s)" using assms(1) by (simp add: redis_store_inv_def)
  have str: "\<exists>raw. v = RStr raw" if "?v = Some (v, x)" for v x
    using decay_Some[OF that] assms(1) by (auto simp: redis_store_inv_def)
  have "store_step t key s s' \<and> (\<forall>raw x. ?v = Some (RStr raw, x) \<longrightarrow>
      rst_db s' = rst_db s \<and> (\<forall>b. r = Inr b \<longrightarrow> \<not> br_Acquired b \<and> br_Duplicate b \<and> decodeRecord J raw = Inr (br_Record b)))
    \<and> (\<forall>b. r = Inr b \<and> br_Acquired b \<longrightarrow> (\<exists>n. durationToMillis (bi_TTL i) = Inr n
      \<and> look (rst_db s') ?K = Some (RStr (cjson_encode J ?p), Some (clock S t + n)) \<and> decodeRecord J (cjson_encode J ?p) = Inr (br_Record b)))"
  proof (cases "first_err [ctx_err c t, validateKeyedRequest s key] = None \<and> (\<exists>m. durationToMillis (bi_TTL i) = Inr m)")
    case True
    then obtain m where m: "durationToMillis (bi_TTL i) = Inr m" by blast
    obtain s1 y where sd: "store_send (beginScript S J (clock S t) ?K ?p m) s = (s1, y)" by fastforce
    note c = store_send_cases[OF n sd]
    have s': "s' = s1" "r = (case y of Inl err \<Rightarrow> Inl err | Inr raw \<Rightarrow> (case parseBeginResponse J raw of Inl err \<Rightarrow> Inl err
         | Inr (acquired, record) \<Rightarrow> Inr \<lparr>br_Record = record, br_Acquired = acquired, br_Duplicate = \<not> acquired\<rparr>))"
      using assms(2) True m sd by (auto simp: RedisStore_Begin_def begin_payload_def split: sum.splits)
    from c consider e where "rst_db s1 = rst_db s" "y = Inl e" | "beginScript S J (clock S t) ?K ?p m (rst_db s) = (rst_db s1, y)" by blast
    then show ?thesis
    proof cases
      case 1
      then show ?thesis using store_idle[OF assms(1)] c s' by simp
    next
      case 2
      show ?thesis
      proof (cases ?v)
        case None
        obtain b' where put: "SETPX S (clock S t) (rst_db s) ?K (RStr (cjson_encode J ?p)) m False = (rst_db s1, b')"
          "y = Inr (AnyList [AnyInt 1, AnyString (cjson_encode J ?p)])"
          using 2 store_get[OF assms(1), of "clock S t" key] None by (auto simp: beginScript_def split: prod.splits)
        note st = store_put[OF assms(1) durationToMillis_pos[OF m] put(1)]
        show ?thesis using st c s' put(2) None m by (auto simp: parse_begin split: sum.splits)
      next
        case (Some e)
        obtain raw x where e: "e = (RStr raw, x)" using str[of "fst e" "snd e"] Some by (cases e) auto
        have "rst_db s1 = rst_db s" "y = Inr (AnyList [AnyInt 0, AnyString raw])"
          using 2 store_get[OF assms(1), of "clock S t" key] Some e by (auto simp: beginScript_def val_text_def)
        then show ?thesis using store_idle[OF assms(1)] c s' Some e by (auto simp: parse_begin split: sum.splits)
      qed
    qed
  next
    case False
    then have "s' = s" "\<exists>e. r = Inl e" using assms(2) by (auto simp: RedisStore_Begin_def split: option.splits sum.splits)
    then show ?thesis using store_idle[OF assms(1) n] by auto
  qed
  then show "store_step t key s s'"
    and "?v = Some (RStr raw, x) \<Longrightarrow>
      rst_db s' = rst_db s \<and> (\<forall>b. r = Inr b \<longrightarrow> \<not> br_Acquired b \<and> br_Duplicate b \<and> decodeRecord J raw = Inr (br_Record b))"
    and "r = Inr b \<Longrightarrow> br_Acquired b \<Longrightarrow> \<exists>n. durationToMillis (bi_TTL i) = Inr n
      \<and> look (rst_db s') ?K = Some (RStr (cjson_encode J ?p), Some (clock S t + n)) \<and> decodeRecord J (cjson_encode J ?p) = Inr (br_Record b)"
    by blast+
qed

lemma Terminal_step:
  assumes "redis_store_inv ok look s" and "RedisStore_setTerminalStatus S J c t s key ow msg ttl st = (s', r)"
  shows "store_step t key s s'"
    and "r = None \<Longrightarrow> \<exists>n p. durationToMillis ttl = Inr n \<and> pl_Key p = key \<and> pl_Status p = status_string st
      \<and> look (rst_db s') (buildKey s key) = Some (RStr (cjson_encode J p), Some (clock S t + n))"
proof -
  let ?K = "buildKey s key"
  have n: "list_all net_ok (rst_net s)" using assms(1) by (simp add: redis_store_inv_def)
  have "store_step t key s s' \<and> (r = None \<longrightarrow> (\<exists>n p. durationToMillis ttl = Inr n \<and> pl_Key p = key \<and> pl_Status p = status_string st
      \<and> look (rst_db s') ?K = Some (RStr (cjson_encode J p), Some (clock S t + n))))"
  proof (cases "first_err [ctx_err c t, validateKeyedRequest s key] = None \<and> (\<exists>m. durationToMillis ttl = Inr m)")
    case True
    then obtain m where m: "durationToMillis ttl = Inr m" by blast
    let ?p = "\<lparr>pl_Key = key, pl_Status = status_string st, pl_OwnerID = ow, pl_MessageID = msg, pl_ConsumerGroup = [], pl_Attempt = 0,
       pl_UpdatedAtUnixMS = UnixMilli t, pl_ExpiresAtUnixMS = UnixMilli (t + ttl)\<rparr>"
    obtain s1 y where sd: "store_send (terminalScript S J (clock S t) ?K ?p m) s = (s1, y)" by fastforce
    note c = store_send_cases[OF n sd]
    have s': "s' = s1" "r = None \<Longrightarrow> \<exists>v. y = Inr v"
      using assms(2) True m sd by (auto simp: RedisStore_setTerminalStatus_def split: sum.splits)
    have "(\<exists>e. y = Inl e) \<and> rst_db s1 = rst_db s \<or> (\<exists>p b. pl_Key p = key \<and> pl_Status p = status_string st
        \<and> SETPX S (clock S t) (rst_db s) ?K (RStr (cjson_encode J p)) m False = (rst_db s1, b))"
      using c by (fastforce simp: terminalScript_def Let_def split: option.splits sum.splits prod.splits)
    then show ?thesis
    proof
      assume "(\<exists>e. y = Inl e) \<and> rst_db s1 = rst_db s"
      then show ?thesis using store_idle[OF assms(1)] c s' by auto
    next
      assume "\<exists>p b. pl_Key p = key \<and> pl_Status p = status_string st
        \<and> SETPX S (clock S t) (rst_db s) ?K (RStr (cjson_encode J p)) m False = (rst_db s1, b)"
      then obtain p b where p: "pl_Key p = key" "pl_Status p = status_string st"
        and put: "SETPX S (clock S t) (rst_db s) ?K (RStr (cjson_encode J p)) m False = (rst_db s1, b)" by blast
      from store_put[OF assms(1) durationToMillis_pos[OF m] put] c s' m p show ?thesis by blast
    qed
  next
    case False
    then obtain e where "first_err [ctx_err c t, validateKeyedRequest s key] = Some e
        \<or> first_err [ctx_err c t, validateKeyedRequest s key] = None \<and> durationToMillis ttl = Inl e"
      by (cases "first_err [ctx_err c t, validateKeyedRequest s key]"; cases "durationToMillis ttl") blast+
    then have "RedisStore_setTerminalStatus S J c t s key ow msg ttl st = (s, Some e)" unfolding RedisStore_setTerminalStatus_def by force
    then have "s' = s \<and> r = Some e" using assms(2) by simp
    then show ?thesis using store_idle[OF assms(1) n] by auto
  qed
  then show "store_step t key s s'" and "r = None \<Longrightarrow> \<exists>n p. durationToMillis ttl = Inr n \<and> pl_Key p = key \<and> pl_Status p = status_string st
      \<and> look (rst_db s') ?K = Some (RStr (cjson_encode J p), Some (clock S t + n))" by blast+
qed

text \<open>\<open>recorded x key raw s\<close>: the record \<open>raw\<close> of \<open>key\<close> stays until the server's clock reaches \<open>x\<close>.\<close>

definition recorded :: "int \<Rightarrow> string \<Rightarrow> string \<Rightarrow> 'r RedisStore \<Rightarrow> bool" where
  "recorded x key raw s \<longleftrightarrow> look (rst_db s) (buildKey s key) = Some (RStr raw, Some x)"

lemma recorded_view: "recorded x key raw s \<Longrightarrow> ms < x \<Longrightarrow> decay alive ms (look (rst_db s)) (buildKey s key) = Some (RStr raw, Some x)"
  using alive_before by (simp add: recorded_def decay_def)

lemma store_step_recorded:
  assumes "store_step t key' s s'" and "key' \<noteq> key" and "recorded x key raw s" and "clock S t < x"
  shows "recorded x key raw s'"
proof -
  have "decay alive (clock S t) (look (rst_db s')) (buildKey s key) = Some (RStr raw, Some x)"
    using assms recorded_view[OF assms(3,4)] by (simp add: store_step_def)
  then show ?thesis using buildKey_prefix[of s' s] assms(1) decay_Some by (auto simp: recorded_def store_step_def)
qed

lemma exec_recorded:
  assumes "redis_store_inv ok look s"
  shows "redis_store_inv ok look (redis_store_exec S J c t op s)"
    and "recorded x key raw s \<Longrightarrow> clock S t < x \<Longrightarrow> \<not> terminal_on key op \<Longrightarrow> recorded x key raw (redis_store_exec S J c t op s)"
proof -
  let ?s = "redis_store_exec S J c t op s"
  have "\<exists>key'. store_step t key' s ?s"
    by (cases op) (use Get_step(1)[OF assms prod.collapse[symmetric]] Begin_step(1)[OF assms prod.collapse[symmetric]]
      Terminal_step(1)[OF assms prod.collapse[symmetric]] in \<open>force simp: RedisStore_Complete_def RedisStore_Fail_def\<close>)+
  then show "redis_store_inv ok look ?s" by (auto simp: store_step_def)
  show "recorded x key raw ?s" if r: "recorded x key raw s" "clock S t < x" "\<not> terminal_on key op"
  proof -
    have same: "recorded x key raw s'" if "rst_db s' = rst_db s" "rst_keyPrefix s' = rst_keyPrefix s" for s'
      using r(1) that buildKey_prefix[of s' s] by (simp add: recorded_def)
    show ?thesis
    proof (cases op)
      case (OpGet k)
      then show ?thesis using Get_step(1)[OF assms, of J c t k, OF prod.collapse[symmetric]] same by (simp add: store_step_def)
    next
      case (OpBegin k i)
      note b = Begin_step[OF assms, of J c t k i, OF prod.collapse[symmetric]]
      show ?thesis
      proof (cases "k = key")
        case True
        then show ?thesis using b(2) b(1) recorded_view[OF r(1,2)] same OpBegin by (auto simp: store_step_def)
      next
        case False
        then show ?thesis using store_step_recorded[OF b(1) _ r(1,2)] OpBegin by simp
      qed
    next
      case (OpComplete k ci)
      then show ?thesis using store_step_recorded[OF Terminal_step(1)[OF assms prod.collapse[symmetric]] _ r(1,2)] r(3)
        by (auto simp: RedisStore_Complete_def)
    next
      case (OpFail k fi)
      then show ?thesis using store_step_recorded[OF Terminal_step(1)[OF assms prod.collapse[symmetric]] _ r(1,2)] r(3)
        by (auto simp: RedisStore_Fail_def)
    qed
  qed
qed

lemma run_recorded:
  assumes "redis_store_inv ok look s" and "recorded x key raw s"
    and "\<forall>(c, t, op) \<in> set ops. clock S t < x \<and> \<not> terminal_on key op"
  shows "redis_store_inv ok look (redis_store_run S J ops s) \<and> recorded x key raw (redis_store_run S J ops s)"
  using assms
proof (induction ops arbitrary: s)
  case (Cons y ops)
  obtain c t op where y: "y = (c, t, op)" by (cases y)
  show ?case
    using Cons.IH[OF exec_recorded(1)[OF Cons.prems(1)], of J c t op] exec_recorded(2)[OF Cons.prems(1,2), of t op J c] Cons.prems(3)
    by (simp add: y)
qed simp

text \<open>While the record stays, reads and begins answer with it.\<close>

lemma recorded_answers:
  assumes "redis_store_inv ok look s" and "recorded x key raw s" and "clock S t < x"
  shows "RedisStore_Begin S J c t s key i = (s', Inr r) \<Longrightarrow> \<not> br_Acquired r \<and> br_Duplicate r \<and> decodeRecord J raw = Inr (br_Record r)"
    and "RedisStore_Get S J c t s key = (s', Inr rec) \<Longrightarrow> decodeRecord J raw = Inr rec"
  using Begin_step(2)[OF assms(1) _ recorded_view[OF assms(2,3)]] Get_step(2)[OF assms(1) _ refl recorded_view[OF assms(2,3)]] by auto

end

section \<open>Properties\<close>

lemma string_status_roundtrip: "st \<in> {StatusMissing, StatusInProgress, StatusCompleted, StatusFailed} \<Longrightarrow> string_status (status_string st) = st"
  by (auto simp: string_status_def status_string_def)

text \<open>An encoding for the examples: a dot before each character, a colon after each field, numbers as six decimal digits.\<close>

definition ex_quote :: "string \<Rightarrow> string" where
  "ex_quote s = concat (map (\<lambda>c. [CHR ''.'', c]) s) @ '':''"

definition ex_decimal :: "int \<Rightarrow> string" where
  "ex_decimal n = map (\<lambda>p. char_of (48 + nat (n div p mod 10))) [100000, 10000, 1000, 100, 10, 1]"

fun ex_fields :: "nat \<Rightarrow> string \<Rightarrow> string \<Rightarrow> string list" where
  "ex_fields (Suc n) f (q # raw) =
     (if q = CHR ''.'' then (case raw of [] \<Rightarrow> [] | c # raw' \<Rightarrow> ex_fields (Suc n) (c # f) raw') else rev f # ex_fields n [] raw)"
| "ex_fields n f raw = []"

fun ex_payload :: "string list \<Rightarrow> recordPayload option" where
  "ex_payload [st, key, ow, msg, grp, att, upd, ex] =
     Some \<lparr>pl_Key = key, pl_Status = st, pl_OwnerID = ow, pl_MessageID = msg, pl_ConsumerGroup = grp, pl_Attempt = or_else (ParseInt64 att) 0,
       pl_UpdatedAtUnixMS = or_else (ParseInt64 upd) 0, pl_ExpiresAtUnixMS = or_else (ParseInt64 ex) 0\<rparr>"
| "ex_payload _ = None"

definition ex_codec :: Codec where
  "ex_codec = \<lparr>
     cjson_encode = (\<lambda>p. concat (map ex_quote [pl_Status p, pl_Key p, pl_OwnerID p, pl_MessageID p, pl_ConsumerGroup p,
       ex_decimal (pl_Attempt p), ex_decimal (pl_UpdatedAtUnixMS p), ex_decimal (pl_ExpiresAtUnixMS p)])),
     cjson_decode = (\<lambda>raw. case ex_payload (ex_fields 8 [] raw) of
       None \<Rightarrow> Inl errInvalidScriptResponse
     | Some p \<Rightarrow> Inr \<lparr>lf_owner_id = Some (pl_OwnerID p), lf_message_id = Some (pl_MessageID p), lf_consumer_group = Some (pl_ConsumerGroup p),
         lf_attempt = Some (pl_Attempt p)\<rparr>),
     json_Unmarshal = (\<lambda>raw. ex_payload (ex_fields 8 [] raw))\<rparr>"

definition ex_store :: "rdb RedisStore" where
  "ex_store = NewRedisStore True ''p'' [] []"

definition ex_job :: "string \<Rightarrow> BeginInput" where
  "ex_job ow = (ex_begin ow)\<lparr>bi_TTL := 10 * second\<rparr>"

definition ex_finish :: CompleteInput where
  "ex_finish = \<lparr>ci_OwnerID = ''a'', ci_MessageID = ''m'', ci_TTL = 60 * second\<rparr>"

lemma ex_clock: "clock simple_redis t = t div millisecond"
  by (simp add: simple_redis_def)

lemma ex_store_inv: "redis_store_inv (\<lambda>db. True) mget ex_store"
  by (simp add: redis_store_inv_def ex_store_def NewRedisStore_def)

lemma ex_fields_quote: "ex_fields (Suc n) f (ex_quote g @ raw) = (rev f @ g) # ex_fields n [] raw"
  by (induction g arbitrary: f) (auto simp: ex_quote_def)

lemma ex_payload_status: "ex_payload (f # fs) = Some p \<Longrightarrow> pl_Status p = f"
  by (auto elim!: ex_payload.elims)

lemma ex_codec_status: "json_Unmarshal ex_codec (cjson_encode ex_codec p) = Some p' \<Longrightarrow> pl_Status p' = pl_Status p"
proof -
  assume p': "json_Unmarshal ex_codec (cjson_encode ex_codec p) = Some p'"
  obtain rest where raw: "cjson_encode ex_codec p = ex_quote (pl_Status p) @ rest" by (simp add: ex_codec_def)
  have "ex_fields 8 [] (cjson_encode ex_codec p) = pl_Status p # ex_fields 7 [] rest"
    unfolding raw using ex_fields_quote[of 7 "[]"] by simp
  then show ?thesis using p' ex_payload_status by (auto simp: ex_codec_def)
qed

text \<open>
  C11. \<^verbatim>\<open>Begin\<close> has one winner on Redis. When a \<^verbatim>\<open>Begin\<close> acquires a key, then in whatever sequence of calls follows, on this key
  and others and by any number of clients, until the server's clock has advanced by the TTL in milliseconds (rounded up), and as
  long as no call completes or fails the key: every \<^verbatim>\<open>Begin\<close> of the key that gets an answer is a duplicate and carries the winner's
  record, and every \<^verbatim>\<open>Get\<close> that gets an answer reads it. If the JSON decoder gives back the payload that the encoder wrote, that
  record is the caller's, in progress, with its times cut to milliseconds.
\<close>

theorem redis_begin_wins_once:
  assumes "redis_server S ok look alive" and "redis_store_inv ok look s"
    and "RedisStore_Begin S J c t0 s key i = (s1, Inr r)" and "br_Acquired r" and "durationToMillis (bi_TTL i) = Inr n"
    and "\<forall>(c', t', op) \<in> set ops. clock S t' < clock S t0 + n \<and> \<not> terminal_on key op"
    and "clock S t < clock S t0 + n"
  shows "(\<forall>c' i' s' r'. RedisStore_Begin S J c' t (redis_store_run S J ops s1) key i' = (s', Inr r') \<longrightarrow>
       \<not> br_Acquired r' \<and> br_Duplicate r' \<and> br_Record r' = br_Record r)
    \<and> (\<forall>c' s' rec. RedisStore_Get S J c' t (redis_store_run S J ops s1) key = (s', Inr rec) \<longrightarrow> rec = br_Record r)
    \<and> (json_Unmarshal J (cjson_encode J (begin_payload t0 key i)) = Some (begin_payload t0 key i) \<longrightarrow>
       br_Record r = (begun t0 key i)\<lparr>rd_UpdatedAt := UnixMilli t0 * millisecond, rd_ExpiresAt := UnixMilli (t0 + bi_TTL i) * millisecond\<rparr>)"
proof -
  let ?raw = "cjson_encode J (begin_payload t0 key i)" and ?s = "redis_store_run S J ops s1"
  note won = redis_server.Begin_step[OF assms(1-3)] and rec_def = redis_server.recorded_def[OF assms(1)]
  have st: "redis_store_inv ok look s1" "rst_keyPrefix s1 = rst_keyPrefix s"
    using won(1) by (simp_all add: redis_server.store_step_def[OF assms(1)])
  have dec: "decodeRecord J ?raw = Inr (br_Record r)" and put: "redis_server.recorded look (clock S t0 + n) key ?raw s1"
    using won(3)[OF refl assms(4)] assms(5) buildKey_prefix[OF st(2)] by (auto simp: rec_def)
  note run = redis_server.run_recorded[OF assms(1) st(1) put assms(6)]
  note answers = redis_server.recorded_answers[OF assms(1) conjunct1[OF run] conjunct2[OF run] assms(7)]
  have "json_Unmarshal J ?raw = Some (begin_payload t0 key i) \<longrightarrow>
       br_Record r = (begun t0 key i)\<lparr>rd_UpdatedAt := UnixMilli t0 * millisecond, rd_ExpiresAt := UnixMilli (t0 + bi_TTL i) * millisecond\<rparr>"
    using dec by (auto simp: decodeRecord_def begin_payload_def begun_def string_status_roundtrip)
  then show ?thesis using answers dec by fastforce
qed

theorem redis_begin_wins_once_witness:
  "snd (RedisStore_Begin simple_redis ex_codec background (9 * second)
     (redis_store_run simple_redis ex_codec [(background, 5 * second, OpBegin ''k'' (ex_job ''b'')), (background, 6 * second, OpComplete ''j'' ex_finish)]
       (fst (RedisStore_Begin simple_redis ex_codec background second ex_store ''k'' (ex_job ''a'')))) ''k'' (ex_job ''c''))
   = Inr \<lparr>br_Record = (begun second ''k'' (ex_job ''a'')), br_Acquired = False, br_Duplicate = True\<rparr>"
proof -
  let ?s1 = "fst (RedisStore_Begin simple_redis ex_codec background second ex_store ''k'' (ex_job ''a''))"
  let ?ops = "[(background, 5 * second, OpBegin ''k'' (ex_job ''b'')), (background, 6 * second, OpComplete ''j'' ex_finish)]"
  let ?r = "\<lparr>br_Record = begun second ''k'' (ex_job ''a''), br_Acquired = True, br_Duplicate = False\<rparr>"
  let ?b = "RedisStore_Begin simple_redis ex_codec background (9 * second) (redis_store_run simple_redis ex_codec ?ops ?s1) ''k'' (ex_job ''c'')"
  have "snd (RedisStore_Begin simple_redis ex_codec background second ex_store ''k'' (ex_job ''a'')) = Inr ?r" by code_simp
  then have won: "RedisStore_Begin simple_redis ex_codec background second ex_store ''k'' (ex_job ''a'') = (?s1, Inr ?r)" by (metis prod.collapse)
  have ttl: "durationToMillis (bi_TTL (ex_job ''a'')) = Inr 10000" by code_simp
  have "\<not> isl (snd ?b)" by code_simp
  then obtain r where b: "?b = (fst ?b, Inr r)" by (metis prod.collapse sum.collapse(2))
  have "\<not> br_Acquired r \<and> br_Duplicate r \<and> br_Record r = br_Record ?r"
    by (rule redis_begin_wins_once[OF sr.redis_server_axioms ex_store_inv won _ ttl, THEN conjunct1, rule_format, OF _ _ _ b])
      (auto simp: ex_clock duration_units)
  then have "r = \<lparr>br_Record = begun second ''k'' (ex_job ''a''), br_Acquired = False, br_Duplicate = True\<rparr>" by (cases r) simp
  with b show ?thesis by (metis snd_conv)
qed

text \<open>
  C12. A finished key stays finished on Redis. When \<^verbatim>\<open>Complete\<close> or \<^verbatim>\<open>Fail\<close> returns without an error, then in whatever sequence of
  calls follows, until the server's clock has advanced by the TTL and as long as no later call completes or fails the key, no \<^verbatim>\<open>Begin\<close>
  of it acquires, and each answer of \<^verbatim>\<open>Begin\<close> and \<^verbatim>\<open>Get\<close> carries the terminal status, if decoding keeps the encoded status.
\<close>

theorem redis_terminal_sticks:
  assumes "redis_server S ok look alive" and "redis_store_inv ok look s" and "\<forall>p p'. json_Unmarshal J (cjson_encode J p) = Some p' \<longrightarrow> pl_Status p' = pl_Status p"
    and "RedisStore_Complete S J c t0 s key ci = (s1, None) \<and> st = StatusCompleted \<and> ttl = ci_TTL ci
      \<or> RedisStore_Fail S J c t0 s key fi = (s1, None) \<and> st = StatusFailed \<and> ttl = fi_TTL fi"
    and "durationToMillis ttl = Inr n"
    and "\<forall>(c', t', op) \<in> set ops. clock S t' < clock S t0 + n \<and> \<not> terminal_on key op"
    and "clock S t < clock S t0 + n"
  shows "(\<forall>c' i' s' r'. RedisStore_Begin S J c' t (redis_store_run S J ops s1) key i' = (s', Inr r') \<longrightarrow>
       \<not> br_Acquired r' \<and> br_Duplicate r' \<and> rd_Status (br_Record r') = st)
    \<and> (\<forall>c' s' rec. RedisStore_Get S J c' t (redis_store_run S J ops s1) key = (s', Inr rec) \<longrightarrow> rd_Status rec = st)"
proof -
  let ?s = "redis_store_run S J ops s1"
  obtain ow msg where fin: "RedisStore_setTerminalStatus S J c t0 s key ow msg ttl st = (s1, None)"
    using assms(4) by (auto simp: RedisStore_Complete_def RedisStore_Fail_def)
  have st: "st \<in> {StatusCompleted, StatusFailed}" using assms(4) by auto
  note fin' = redis_server.Terminal_step[OF assms(1,2) fin] and rec_def = redis_server.recorded_def[OF assms(1)]
  have s1: "redis_store_inv ok look s1" "rst_keyPrefix s1 = rst_keyPrefix s"
    using fin'(1) by (simp_all add: redis_server.store_step_def[OF assms(1)])
  obtain p where p: "pl_Key p = key" "pl_Status p = status_string st"
    and put: "redis_server.recorded look (clock S t0 + n) key (cjson_encode J p) s1"
    using fin'(2)[OF refl] assms(5) buildKey_prefix[OF s1(2)] by (auto simp: rec_def)
  have dec: "decodeRecord J (cjson_encode J p) = Inr rec \<Longrightarrow> rd_Status rec = st" for rec
    using assms(3) p st by (auto simp: decodeRecord_def string_status_roundtrip split: option.splits)
  note run = redis_server.run_recorded[OF assms(1) s1(1) put assms(6)]
  note answers = redis_server.recorded_answers[OF assms(1) conjunct1[OF run] conjunct2[OF run] assms(7)]
  show ?thesis using answers dec by blast
qed

theorem redis_terminal_sticks_witness:
  "\<exists>r. snd (RedisStore_Begin simple_redis ex_codec background (50 * second)
     (redis_store_run simple_redis ex_codec [(background, 20 * second, OpBegin ''k'' (ex_job ''b''))]
       (fst (RedisStore_Complete simple_redis ex_codec background (5 * second)
         (fst (RedisStore_Begin simple_redis ex_codec background second ex_store ''k'' (ex_job ''a''))) ''k'' ex_finish))) ''k'' (ex_job ''c''))
     = Inr r \<and> \<not> br_Acquired r \<and> rd_Status (br_Record r) = StatusCompleted"
proof -
  let ?s = "fst (RedisStore_Begin simple_redis ex_codec background second ex_store ''k'' (ex_job ''a''))"
  let ?s1 = "fst (RedisStore_Complete simple_redis ex_codec background (5 * second) ?s ''k'' ex_finish)"
  let ?ops = "[(background, 20 * second, OpBegin ''k'' (ex_job ''b''))]"
  let ?b = "RedisStore_Begin simple_redis ex_codec background (50 * second) (redis_store_run simple_redis ex_codec ?ops ?s1) ''k'' (ex_job ''c'')"
  have inv: "redis_store_inv (\<lambda>db. True) mget ?s"
    using sr.Begin_step(1)[OF ex_store_inv prod.collapse[symmetric]] by (simp add: sr.store_step_def)
  have "snd (RedisStore_Complete simple_redis ex_codec background (5 * second) ?s ''k'' ex_finish) = None" by code_simp
  then have fin: "RedisStore_Complete simple_redis ex_codec background (5 * second) ?s ''k'' ex_finish = (?s1, None)" by (metis prod.collapse)
  have ttl: "durationToMillis (ci_TTL ex_finish) = Inr 60000" by code_simp
  have "\<not> isl (snd ?b)" by code_simp
  then obtain r where b: "?b = (fst ?b, Inr r)" by (metis prod.collapse sum.collapse(2))
  have "\<not> br_Acquired r \<and> rd_Status (br_Record r) = StatusCompleted"
    using redis_terminal_sticks[OF sr.redis_server_axioms inv _ disjI1[OF conjI[OF fin conjI[OF refl refl]]] ttl,
      THEN conjunct1, rule_format, OF ex_codec_status _ _ b] by (auto simp: ex_clock duration_units)
  then show ?thesis using b by (metis snd_conv)
qed

end
