(* ===== verification/Runtime_Shutdown.thy ===== *)
theory Runtime_Shutdown
  imports Prelude
begin

text \<open>
  Admission and shutdown of the runtime manager (\<^verbatim>\<open>src/lockkit/runtime/manager.go\<close>) under concurrency.
  Executions and one call of \<^verbatim>\<open>Shutdown\<close> run in parallel; every load, store or add on the atomics
  \<^verbatim>\<open>shuttingDown\<close> and \<^verbatim>\<open>inFlight\<close> is one step, interleaved in any order. The program point of an
  execution says what it has done so far:

  \<^item> \<open>Idle\<close>: before \<^verbatim>\<open>tryAdmitInFlightExecution\<close>; \<open>Checked\<close>: after its first load saw false;
    \<open>Added\<close>: after \<^verbatim>\<open>inFlight.Add(1)\<close>; \<open>BackOut\<close>: after its second load saw true, before
    \<^verbatim>\<open>releaseInFlightExecution\<close>;
  \<^item> \<open>Running\<close>: admitted; \<open>Finished\<close>: after the deferred \<^verbatim>\<open>releaseInFlightExecution\<close>;
    \<open>Rejected\<close>: not admitted.

  \<^verbatim>\<open>Shutdown\<close> stores the flag (once), then waits until it reads zero in flight or its context ends. The
  condition variable only decides when it reads again, so waiting is a step that changes nothing.
\<close>

datatype exec_pc = Idle | Checked | Added | BackOut | Running | Finished | Rejected

datatype shutdown_pc = NotStarted | Draining | Drained | GaveUp

record drain_state =
  ds_shuttingDown :: bool
  ds_inFlight :: int
  ds_execs :: "exec_pc list"
  ds_shutdown :: shutdown_pc

definition drain_init :: "nat \<Rightarrow> drain_state" where
  "drain_init n = \<lparr>ds_shuttingDown = False, ds_inFlight = 0, ds_execs = replicate n Idle, ds_shutdown = NotStarted\<rparr>"

text \<open>The steps of execution \<open>i\<close>.\<close>

inductive exec_step :: "nat \<Rightarrow> drain_state \<Rightarrow> drain_state \<Rightarrow> bool" for i :: nat where
  first_load_true: "i < length (ds_execs s) \<Longrightarrow> ds_execs s ! i = Idle \<Longrightarrow> ds_shuttingDown s \<Longrightarrow>
    exec_step i s (s\<lparr>ds_execs := (ds_execs s)[i := Rejected]\<rparr>)"
| first_load_false: "i < length (ds_execs s) \<Longrightarrow> ds_execs s ! i = Idle \<Longrightarrow> \<not> ds_shuttingDown s \<Longrightarrow>
    exec_step i s (s\<lparr>ds_execs := (ds_execs s)[i := Checked]\<rparr>)"
| add: "i < length (ds_execs s) \<Longrightarrow> ds_execs s ! i = Checked \<Longrightarrow>
    exec_step i s (s\<lparr>ds_execs := (ds_execs s)[i := Added], ds_inFlight := ds_inFlight s + 1\<rparr>)"
| second_load_true: "i < length (ds_execs s) \<Longrightarrow> ds_execs s ! i = Added \<Longrightarrow> ds_shuttingDown s \<Longrightarrow>
    exec_step i s (s\<lparr>ds_execs := (ds_execs s)[i := BackOut]\<rparr>)"
| second_load_false: "i < length (ds_execs s) \<Longrightarrow> ds_execs s ! i = Added \<Longrightarrow> \<not> ds_shuttingDown s \<Longrightarrow>
    exec_step i s (s\<lparr>ds_execs := (ds_execs s)[i := Running]\<rparr>)"
| back_out: "i < length (ds_execs s) \<Longrightarrow> ds_execs s ! i = BackOut \<Longrightarrow>
    exec_step i s (s\<lparr>ds_execs := (ds_execs s)[i := Rejected], ds_inFlight := ds_inFlight s - 1\<rparr>)"
| finish: "i < length (ds_execs s) \<Longrightarrow> ds_execs s ! i = Running \<Longrightarrow>
    exec_step i s (s\<lparr>ds_execs := (ds_execs s)[i := Finished], ds_inFlight := ds_inFlight s - 1\<rparr>)"

text \<open>
  The steps of \<^verbatim>\<open>Shutdown\<close>. Its context may end at any moment; it gives up after a read that was not
  zero, but the counter may have moved since, so giving up has no guard on the counter.
\<close>

inductive shutdown_step :: "drain_state \<Rightarrow> drain_state \<Rightarrow> bool" where
  start: "ds_shutdown s = NotStarted \<Longrightarrow>
    shutdown_step s (s\<lparr>ds_shuttingDown := True, ds_shutdown := Draining\<rparr>)"
| wait: "ds_shutdown s = Draining \<Longrightarrow> 0 < ds_inFlight s \<Longrightarrow> shutdown_step s s"
| drained: "ds_shutdown s = Draining \<Longrightarrow> \<not> 0 < ds_inFlight s \<Longrightarrow>
    shutdown_step s (s\<lparr>ds_shutdown := Drained\<rparr>)"
| give_up: "ds_shutdown s = Draining \<Longrightarrow>
    shutdown_step s (s\<lparr>ds_shutdown := GaveUp\<rparr>)"

inductive_cases exec_stepE: "exec_step i s s'"
inductive_cases shutdown_stepE: "shutdown_step s s'"

inductive drain_reachable :: "nat \<Rightarrow> drain_state \<Rightarrow> bool" for n :: nat where
  init: "drain_reachable n (drain_init n)"
| exec: "drain_reachable n s \<Longrightarrow> exec_step i s s' \<Longrightarrow> drain_reachable n s'"
| shut: "drain_reachable n s \<Longrightarrow> shutdown_step s s' \<Longrightarrow> drain_reachable n s'"

section \<open>The invariant\<close>

definition counted :: "exec_pc \<Rightarrow> bool" where
  "counted pc \<longleftrightarrow> pc = Added \<or> pc = BackOut \<or> pc = Running"

definition drain_inv :: "drain_state \<Rightarrow> bool" where
  "drain_inv s \<longleftrightarrow> ds_inFlight s = int (length (filter counted (ds_execs s)))
     \<and> (ds_shuttingDown s \<longleftrightarrow> ds_shutdown s \<noteq> NotStarted)
     \<and> (ds_shutdown s = Drained \<longrightarrow> Running \<notin> set (ds_execs s))"

lemma count_update:
  assumes "i < length xs"
  shows "int (length (filter P (xs[i := y]))) =
    int (length (filter P xs)) + (if P y then 1 else 0) - (if P (xs ! i) then 1 else 0)"
proof -
  have "length (filter P xs) =
      length (filter P (take i xs)) + (if P (xs ! i) then 1 else 0) + length (filter P (drop (Suc i) xs))"
    using arg_cong[OF id_take_nth_drop[OF assms], of "\<lambda>ys. length (filter P ys)"] by simp
  then show ?thesis using assms by (simp add: upd_conv_take_nth_drop)
qed

lemma exec_step_inv: "exec_step i s s' \<Longrightarrow> drain_inv s \<Longrightarrow> drain_inv s'"
  by (erule exec_stepE) (auto simp: drain_inv_def count_update counted_def dest!: set_update_subset_insert[THEN subsetD])

lemma running_counted: "Running \<in> set xs \<Longrightarrow> 0 < length (filter counted xs)"
  by (auto simp: counted_def filter_empty_conv)

lemma shutdown_step_inv: "shutdown_step s s' \<Longrightarrow> drain_inv s \<Longrightarrow> drain_inv s'"
  by (erule shutdown_stepE) (auto simp: drain_inv_def dest: running_counted)

lemma drain_reachable_inv: "drain_reachable n s \<Longrightarrow> drain_inv s"
proof (induction rule: drain_reachable.induct)
  case init
  then show ?case by (simp add: drain_inv_def drain_init_def counted_def)
qed (auto dest: exec_step_inv shutdown_step_inv)

text \<open>
  C20. Shutdown is a barrier. Whatever the interleaving of any number of executions with
  \<^verbatim>\<open>Shutdown\<close>: the in-flight counter always equals the number of executions between their increment
  and their decrement, and once \<^verbatim>\<open>Shutdown\<close> has returned without error no execution is running, now or
  at any later time.
\<close>

theorem shutdown_is_barrier:
  assumes "drain_reachable n s"
  shows "ds_inFlight s = int (length (filter counted (ds_execs s)))
    \<and> (ds_shutdown s = Drained \<longrightarrow> Running \<notin> set (ds_execs s))"
  using drain_reachable_inv[OF assms] by (simp add: drain_inv_def)

theorem shutdown_is_barrier_witness:
  "\<exists>s. drain_reachable 2 s \<and> ds_shutdown s = Drained \<and> Finished \<in> set (ds_execs s) \<and> Running \<notin> set (ds_execs s)"
proof -
  let ?s = "\<lambda>sd n xs pc. \<lparr>ds_shuttingDown = sd, ds_inFlight = n, ds_execs = xs, ds_shutdown = pc\<rparr>"
  have "drain_reachable 2 (?s False 0 [Idle, Idle] NotStarted)"
    using drain_reachable.init[of 2] by (simp add: drain_init_def numeral_2_eq_2)
  moreover have "exec_step 0 (?s False 0 [Idle, Idle] NotStarted) (?s False 0 [Checked, Idle] NotStarted)"
    using exec_step.first_load_false[of 0 "?s False 0 [Idle, Idle] NotStarted"] by simp
  ultimately have "drain_reachable 2 (?s False 0 [Checked, Idle] NotStarted)" by (rule drain_reachable.exec)
  moreover have "exec_step 0 (?s False 0 [Checked, Idle] NotStarted) (?s False 1 [Added, Idle] NotStarted)"
    using exec_step.add[of 0 "?s False 0 [Checked, Idle] NotStarted"] by simp
  ultimately have "drain_reachable 2 (?s False 1 [Added, Idle] NotStarted)" by (rule drain_reachable.exec)
  moreover have "exec_step 0 (?s False 1 [Added, Idle] NotStarted) (?s False 1 [Running, Idle] NotStarted)"
    using exec_step.second_load_false[of 0 "?s False 1 [Added, Idle] NotStarted"] by simp
  ultimately have "drain_reachable 2 (?s False 1 [Running, Idle] NotStarted)" by (rule drain_reachable.exec)
  moreover have "shutdown_step (?s False 1 [Running, Idle] NotStarted) (?s True 1 [Running, Idle] Draining)"
    using shutdown_step.start[of "?s False 1 [Running, Idle] NotStarted"] by simp
  ultimately have "drain_reachable 2 (?s True 1 [Running, Idle] Draining)" by (rule drain_reachable.shut)
  moreover have "exec_step 0 (?s True 1 [Running, Idle] Draining) (?s True 0 [Finished, Idle] Draining)"
    using exec_step.finish[of 0 "?s True 1 [Running, Idle] Draining"] by simp
  ultimately have "drain_reachable 2 (?s True 0 [Finished, Idle] Draining)" by (rule drain_reachable.exec)
  moreover have "shutdown_step (?s True 0 [Finished, Idle] Draining) (?s True 0 [Finished, Idle] Drained)"
    using shutdown_step.drained[of "?s True 0 [Finished, Idle] Draining"] by simp
  ultimately have "drain_reachable 2 (?s True 0 [Finished, Idle] Drained)" by (rule drain_reachable.shut)
  with shutdown_is_barrier[OF this] show ?thesis by (intro exI[of _ "?s True 0 [Finished, Idle] Drained"]) simp
qed

section \<open>Draining terminates\<close>

fun remaining :: "exec_pc \<Rightarrow> nat" where
  "remaining Idle = 4" | "remaining Checked = 3" | "remaining Added = 2" | "remaining BackOut = 1"
| "remaining Running = 1" | "remaining Finished = 0" | "remaining Rejected = 0"

definition work :: "drain_state \<Rightarrow> nat" where
  "work s = sum_list (map remaining (ds_execs s))"

lemma work_update:
  assumes "i < length xs" and "remaining y < remaining (xs ! i)"
  shows "sum_list (map remaining (xs[i := y])) < sum_list (map remaining xs)"
proof -
  have "sum_list (map remaining xs) =
      sum_list (map remaining (take i xs)) + remaining (xs ! i) + sum_list (map remaining (drop (Suc i) xs))"
    using arg_cong[OF id_take_nth_drop[OF assms(1)], of "\<lambda>ys. sum_list (map remaining ys)"] by simp
  then show ?thesis using assms by (simp add: upd_conv_take_nth_drop)
qed

lemma exec_step_work: "exec_step i s s' \<Longrightarrow> work s' < work s"
  by (erule exec_stepE) (auto simp: work_def intro!: work_update)

lemma exec_enabled: "i < length (ds_execs s) \<Longrightarrow> remaining (ds_execs s ! i) \<noteq> 0 \<Longrightarrow> \<exists>s'. exec_step i s s'"
  by (cases "ds_execs s ! i"; cases "ds_shuttingDown s") (auto intro: exec_step.intros)

text \<open>
  Shutdown drains. Every step of an execution uses up work that is bounded by four steps per
  execution, and as long as an execution is in flight some execution can take a step; so while
  callbacks return, the counter reaches zero after finitely many steps, and from then on \<^verbatim>\<open>Shutdown\<close>
  can return without error.
\<close>

theorem shutdown_drains:
  assumes "drain_reachable n s"
  shows "(\<forall>i s'. exec_step i s s' \<longrightarrow> work s' < work s)
    \<and> (0 < ds_inFlight s \<longrightarrow> (\<exists>i s'. exec_step i s s'))
    \<and> ((\<forall>i s'. \<not> exec_step i s s') \<and> ds_shutdown s = Draining \<longrightarrow>
         shutdown_step s (s\<lparr>ds_shutdown := Drained\<rparr>))"
proof -
  have inv: "ds_inFlight s = int (length (filter counted (ds_execs s)))"
    using drain_reachable_inv[OF assms] by (simp add: drain_inv_def)
  have ex: "\<exists>i s'. exec_step i s s'" if "0 < ds_inFlight s"
  proof -
    from that inv have "filter counted (ds_execs s) \<noteq> []" by auto
    then obtain pc where "pc \<in> set (ds_execs s)" "counted pc" by (auto simp: filter_empty_conv)
    then obtain i where "i < length (ds_execs s)" "remaining (ds_execs s ! i) \<noteq> 0"
      by (force simp: in_set_conv_nth counted_def)
    then show ?thesis using exec_enabled by blast
  qed
  then show ?thesis using exec_step_work by (auto intro: shutdown_step.drained)
qed

theorem shutdown_drains_witness:
  "\<exists>i s'. exec_step i (drain_init 1) s' \<and> work s' < work (drain_init 1)"
proof -
  have "exec_step 0 (drain_init 1) ((drain_init 1)\<lparr>ds_execs := (ds_execs (drain_init 1))[0 := Checked]\<rparr>)"
    by (rule exec_step.first_load_false) (simp_all add: drain_init_def)
  with shutdown_drains[OF drain_reachable.init[of 1]] show ?thesis by blast
qed

end
