(* ===== verification/Workers.thy ===== *)
theory Workers
  imports Runtime Idempotency
begin

text \<open>
  The worker manager (\<^verbatim>\<open>src/lockkit/workers\<close>): claims of queue messages under one lock or the members of
  a composite, with the idempotency record of the message, lease renewal while the callback runs, the
  reentrancy guard and the in-flight count.

  The renewal loops run concurrently with the callback. The callback is therefore given in segments:
  \<open>fn ctx claim n w\<close> is what it does between the \<open>n\<close>-th and the next ticker event, and its outcome says
  whether it has returned (\<open>Return\<close>) or which renewal loop's ticker fires next (\<open>Tick j\<close>). The context
  it sees is cancelled once a renewal has failed. A callback may never return, so execution is an
  option: \<open>None\<close> means that it does not return. Whatever else happens to the shared state meanwhile is
  part of the segments.

  After the callback each renewal loop is stopped and waited for. A loop whose context has been
  cancelled may still serve a ticker event before it takes the cancellation, and the loops not yet
  stopped go on: \<open>env_late e n\<close> says which loop's ticker is served at step \<open>n\<close> of such a wait, or, with
  \<open>None\<close>, that the loop waited for takes the cancellation. A loop that never does keeps the claim
  waiting for ever, which is \<open>None\<close> as well.
\<close>

section \<open>State\<close>

record reentryKey =
  rk_definitionID :: string
  rk_resourceKey :: string

record claimAcquirePlan =
  cp_resourceKey :: string
  cp_lineage :: "LineageLeaseMeta option"

record renewableLease =
  rl_lease :: LeaseRecord
  rl_lineage :: "LineageLeaseMeta option"
  rl_fencingToken :: token

datatype wk_call =
    PublishWorkerAcquireStarted Event
  | PublishWorkerAcquireSucceeded Event
  | PublishWorkerAcquireFailed Event go_error
  | PublishWorkerReleased Event
  | PublishWorkerRenewalSucceeded Event
  | PublishWorkerLeaseLost Event
  | PublishWorkerShutdownStarted
  | PublishWorkerShutdownCompleted

record ('s, 'i) wworld =
  ww_active :: "(reentryKey, unit) gomap"
  ww_shuttingDown :: bool
  ww_inFlight :: int
  ww_renewals :: "(64 word, unit) gomap"
  ww_nextRenewal :: "64 word"
  ww_driver :: 's
  ww_store :: 'i
  ww_tick :: nat
  ww_draw :: nat
  ww_log :: "wk_call list"

record ('s, 'i) WorkerManager =
  wm_registry :: Registry
  wm_driver :: "'s Driver"
  wm_idempotency :: "'i Store option"
  wm_bridge :: bool
  wm_lineageDefs :: "(string, bool) gomap"
  wm_cachedDefsByID :: "(string, LockDefinition) gomap"

section \<open>Construction\<close>

definition registryRequiresIdempotencyStore :: "Registry \<Rightarrow> bool" where
  "registryRequiresIdempotencyStore reg =
     list_ex (\<lambda>def. ld_IdempotencyRequired def
       \<and> (ld_ExecutionKind def = ExecutionAsync \<or> ld_ExecutionKind def = ExecutionBoth)) (Registry_Definitions reg)"

text \<open>The driver is pinged at time \<open>t\<close>; its new state is returned with the manager.\<close>

definition NewWorkerManager ::
  "Registry \<Rightarrow> ('s Driver \<times> 's) option \<Rightarrow> time \<Rightarrow> 'i Store option \<Rightarrow> bool \<Rightarrow> ('s \<times> ('s, 'i) WorkerManager) result"
where
  "NewWorkerManager reg driver t store bridge =
     (case Validate reg of
        Some e \<Rightarrow> Inl (Errorf ''%w: %v'' [] [Sentinel ErrRegistryViolation])
      | None \<Rightarrow>
          (case driver of
             None \<Rightarrow> Inl (Sentinel ErrPolicyViolation)
           | Some (D, s) \<Rightarrow>
               (case Ping D background t s of
                  (s', Some e) \<Rightarrow> Inl (Errorf ''%w: %v'' [] [Sentinel ErrPolicyViolation])
                | (s', None) \<Rightarrow>
                    if RequiresLineageDriver reg \<and> as_LineageDriver D = None then Inl (Sentinel ErrPolicyViolation)
                    else if RequiresStrictWorkerDriver reg \<and> as_StrictDriver D = None
                    then Inl (Sentinel ErrPolicyViolation)
                    else if store = None \<and> registryRequiresIdempotencyStore reg then Inl (Sentinel ErrPolicyViolation)
                    else
                      let defs = Registry_Definitions reg;
                          defsByID = fold (\<lambda>d m. mput (ld_ID d) d m) defs [];
                          childrenByParent = children_index defs;
                          lineageDefs = fold (\<lambda>d m. mput (ld_ID d)
                            (ld_ParentRef d \<noteq> [] \<or>
                             (case mget childrenByParent (ld_ID d) of None \<Rightarrow> False | Some ids \<Rightarrow> 0 < length ids)) m)
                            defs []
                      in Inr (s', \<lparr>wm_registry = reg, wm_driver = D, wm_idempotency = store, wm_bridge = bridge,
                                   wm_lineageDefs = lineageDefs, wm_cachedDefsByID = defsByID\<rparr>))))"

definition new_wworld :: "'s \<Rightarrow> 'i \<Rightarrow> ('s, 'i) wworld" where
  "new_wworld s i = \<lparr>ww_active = [], ww_shuttingDown = False, ww_inFlight = 0, ww_renewals = [],
     ww_nextRenewal = 0, ww_driver = s, ww_store = i, ww_tick = 0, ww_draw = 0, ww_log = []\<rparr>"

section \<open>Clock, driver, store, bridge\<close>

definition wtime_now :: "Env \<Rightarrow> ('s, 'i) wworld \<Rightarrow> time \<times> ('s, 'i) wworld" where
  "wtime_now e w = (env_clock e (ww_tick w), w\<lparr>ww_tick := Suc (ww_tick w)\<rparr>)"

definition call_wdriver :: "Env \<Rightarrow> (time \<Rightarrow> 's \<Rightarrow> 's \<times> 'r) \<Rightarrow> ('s, 'i) wworld \<Rightarrow> ('s, 'i) wworld \<times> 'r" where
  "call_wdriver e f w =
     (let (t, w1) = wtime_now e w; (s, r) = f t (ww_driver w1) in (w1\<lparr>ww_driver := s\<rparr>, r))"

definition call_store :: "Env \<Rightarrow> (time \<Rightarrow> 'i \<Rightarrow> 'i \<times> 'r) \<Rightarrow> ('s, 'i) wworld \<Rightarrow> ('s, 'i) wworld \<times> 'r" where
  "call_store e f w =
     (let (t, w1) = wtime_now e w; (s, r) = f t (ww_store w1) in (w1\<lparr>ww_store := s\<rparr>, r))"

definition workerEvent :: "string \<Rightarrow> string \<Rightarrow> string \<Rightarrow> string \<Rightarrow> Event" where
  "workerEvent defID resourceID ownerID requestID =
     \<lparr>ev_DefinitionID = defID, ev_ResourceID = resourceID, ev_OwnerID = ownerID, ev_RequestID = requestID,
      ev_Wait = 0, ev_Held = 0\<rparr>"

definition wpublish :: "('s, 'i) WorkerManager \<Rightarrow> wk_call \<Rightarrow> ('s, 'i) wworld \<Rightarrow> ('s, 'i) wworld" where
  "wpublish m c w = (if wm_bridge m then w\<lparr>ww_log := ww_log w @ [c]\<rparr> else w)"

section \<open>Admission\<close>

definition worker_releaseInFlight :: "('s, 'i) wworld \<Rightarrow> ('s, 'i) wworld" where
  "worker_releaseInFlight w = w\<lparr>ww_inFlight := ww_inFlight w - 1\<rparr>"

definition worker_tryAdmit :: "('s, 'i) wworld \<Rightarrow> ('s, 'i) wworld \<times> bool" where
  "worker_tryAdmit w =
     (if ww_shuttingDown w then (w, False)
      else let w1 = w\<lparr>ww_inFlight := ww_inFlight w + 1\<rparr> in
        if ww_shuttingDown w1 then (worker_releaseInFlight w1, False) else (w1, True))"

section \<open>Retention times\<close>

definition inProgressTTL :: "duration \<Rightarrow> duration" where
  "inProgressTTL leaseTTL =
     (if leaseTTL \<le> 0 then 30 * second
      else let ttl = wrap64 (leaseTTL * 2) in if ttl < 30 * second then 30 * second else ttl)"

definition terminalTTL :: "duration \<Rightarrow> duration" where
  "terminalTTL leaseTTL =
     (if leaseTTL \<le> 0 then minute
      else let ttl = wrap64 (leaseTTL * 10) in
        if ttl < minute then minute else if 24 * hour < ttl then 24 * hour else ttl)"

definition renewalInterval :: "duration \<Rightarrow> duration" where
  "renewalInterval ttl =
     (if ttl \<le> 0 then 25 * millisecond
      else let interval = quot ttl 3 in
        if interval < 25 * millisecond then 25 * millisecond
        else if 30 * second < interval then 30 * second else interval)"

section \<open>Requests\<close>

definition shouldUseIdempotency :: "LockDefinition \<Rightarrow> MessageClaimRequest \<Rightarrow> bool" where
  "shouldUseIdempotency def req =
     (if ld_IdempotencyRequired def then True else trim_space (mc_IdempotencyKey req) \<noteq> [])"

definition validateClaimRequest :: "LockDefinition \<Rightarrow> MessageClaimRequest \<Rightarrow> go_err" where
  "validateClaimRequest def req =
     (if trim_space (mc_DefinitionID req) = [] then Some (Sentinel ErrPolicyViolation)
      else if ld_ExecutionKind def \<noteq> ExecutionAsync \<and> ld_ExecutionKind def \<noteq> ExecutionBoth
      then Some (Sentinel ErrPolicyViolation)
      else if trim_space (om_OwnerID (mc_Ownership req)) = [] then Some (Sentinel ErrPolicyViolation)
      else if ld_IdempotencyRequired def \<and> trim_space (mc_IdempotencyKey req) = []
      then Some (Sentinel ErrPolicyViolation)
      else if shouldUseIdempotency def req
      then (if trim_space (om_MessageID (mc_Ownership req)) = [] then Some (Sentinel ErrPolicyViolation)
            else if trim_space (om_ConsumerGroup (mc_Ownership req)) = [] then Some (Sentinel ErrPolicyViolation)
            else if om_Attempt (mc_Ownership req) \<le> 0 then Some (Sentinel ErrPolicyViolation)
            else None)
      else None)"

definition applyWorkerOverrides :: "LockDefinition \<Rightarrow> RuntimeOverrides option \<Rightarrow> waitConfig result" where
  "applyWorkerOverrides def overrides =
     (let cfg = \<lparr>wc_timeout = ld_WaitTimeout def, wc_explicit = False\<rparr> in
      case overrides of
        None \<Rightarrow> Inr cfg
      | Some ov \<Rightarrow>
          if ro_MaxRetries ov \<noteq> None then Inl (Sentinel ErrPolicyViolation)
          else case ro_WaitTimeout ov of
            None \<Rightarrow> Inr cfg
          | Some wait \<Rightarrow>
              if wait < 0 then Inl (Sentinel ErrPolicyViolation)
              else if 0 < ld_WaitTimeout def \<and> ld_WaitTimeout def < wait then Inl (Sentinel ErrPolicyViolation)
              else Inr \<lparr>wc_timeout = wait, wc_explicit = True\<rparr>)"

definition worker_contextWithAcquireTimeout ::
  "Env \<Rightarrow> go_ctx \<Rightarrow> waitConfig \<Rightarrow> ('s, 'i) wworld \<Rightarrow> go_ctx \<times> ('s, 'i) wworld"
where
  "worker_contextWithAcquireTimeout e ctx cfg w =
     (if wc_timeout cfg \<le> 0
      then (if wc_explicit cfg
            then let (t, w1) = wtime_now e w in (with_deadline ctx t, w1)
            else (ctx, w))
      else
        let (t, w1) = wtime_now e w; deadline = t + wc_timeout cfg in
        case ctx_deadline ctx of
          Some ctxDeadline \<Rightarrow>
            if \<not> deadline < ctxDeadline then (ctx, w1) else (with_deadline ctx deadline, w1)
        | None \<Rightarrow> (with_deadline ctx deadline, w1))"

definition worker_mapAcquireError :: "go_error \<Rightarrow> go_error" where
  "worker_mapAcquireError err =
     (if errors_is err ErrOverlapRejected then Sentinel ErrOverlapRejected
      else if errors_is err ErrLeaseAlreadyHeld then Sentinel ErrLockBusy
      else if errors_is err ContextDeadlineExceeded then Sentinel ErrLockAcquireTimeout
      else err)"

section \<open>Leases\<close>

definition buildClaimAcquirePlan ::
  "('s, 'i) WorkerManager \<Rightarrow> Env \<Rightarrow> LockDefinition \<Rightarrow> key_input \<Rightarrow> ('s, 'i) wworld
    \<Rightarrow> ('s, 'i) wworld \<times> claimAcquirePlan result"
where
  "buildClaimAcquirePlan m e def input w =
     (if mget (wm_lineageDefs m) (ld_ID def) \<noteq> Some True
      then (case build_key (ld_KeyBuilder def) input of
              Inl err \<Rightarrow> (w, Inl err)
            | Inr key \<Rightarrow> (w, Inr \<lparr>cp_resourceKey = key, cp_lineage = None\<rparr>))
      else
        let r = ResolveAcquirePlan def (wm_cachedDefsByID m) input (env_rand e (ww_draw w));
            w1 = w\<lparr>ww_draw := Suc (ww_draw w)\<rparr>
        in case r of
             Inl err \<Rightarrow> (w1, Inl err)
           | Inr plan \<Rightarrow> (w1, Inr \<lparr>cp_resourceKey = ap_ResourceKey plan, cp_lineage = Some (LeaseMeta plan)\<rparr>))"

definition acquireClaimLease ::
  "('s, 'i) WorkerManager \<Rightarrow> Env \<Rightarrow> go_ctx \<Rightarrow> LockDefinition \<Rightarrow> claimAcquirePlan \<Rightarrow> string \<Rightarrow> ('s, 'i) wworld
    \<Rightarrow> ('s, 'i) wworld \<times> renewableLease result"
where
  "acquireClaimLease m e ctx def plan ownerID w =
     (if ld_Mode def = ModeStrict
      then (if cp_lineage plan \<noteq> None then (w, Inl (Sentinel ErrPolicyViolation))
            else case as_StrictDriver (wm_driver m) of
              None \<Rightarrow> (w, Inl (Sentinel ErrPolicyViolation))
            | Some strictDriver \<Rightarrow>
                (case call_wdriver e (\<lambda>t s. AcquireStrict strictDriver ctx t s
                    \<lparr>sq_DefinitionID = ld_ID def, sq_ResourceKey = cp_resourceKey plan,
                     sq_OwnerID = ownerID, sq_LeaseTTL = ld_LeaseTTL def\<rparr>) w of
                   (w1, Inl err) \<Rightarrow> (w1, Inl err)
                 | (w1, Inr fenced) \<Rightarrow>
                     (w1, Inr \<lparr>rl_lease = fl_Lease fenced, rl_lineage = None,
                               rl_fencingToken = fl_FencingToken fenced\<rparr>)))
      else case cp_lineage plan of
        None \<Rightarrow>
          (case call_wdriver e (\<lambda>t s. Acquire (wm_driver m) ctx t s
              \<lparr>aq_DefinitionID = ld_ID def, aq_ResourceKeys = [cp_resourceKey plan],
               aq_OwnerID = ownerID, aq_LeaseTTL = ld_LeaseTTL def\<rparr>) w of
             (w1, Inl err) \<Rightarrow> (w1, Inl err)
           | (w1, Inr lease) \<Rightarrow> (w1, Inr \<lparr>rl_lease = lease, rl_lineage = None, rl_fencingToken = 0\<rparr>))
      | Some meta \<Rightarrow>
          (case as_LineageDriver (wm_driver m) of
             None \<Rightarrow> (w, Inl (Sentinel ErrPolicyViolation))
           | Some lineageDriver \<Rightarrow>
               (case call_wdriver e (\<lambda>t s. AcquireWithLineage lineageDriver ctx t s
                   \<lparr>lq_DefinitionID = ld_ID def, lq_ResourceKey = cp_resourceKey plan,
                    lq_OwnerID = ownerID, lq_LeaseTTL = ld_LeaseTTL def, lq_Lineage = meta\<rparr>) w of
                  (w1, Inl err) \<Rightarrow> (w1, Inl err)
                | (w1, Inr lease) \<Rightarrow>
                    (w1, Inr \<lparr>rl_lease = lease, rl_lineage = Some meta, rl_fencingToken = 0\<rparr>))))"

definition releaseClaimLease ::
  "('s, 'i) WorkerManager \<Rightarrow> Env \<Rightarrow> go_ctx \<Rightarrow> renewableLease \<Rightarrow> ('s, 'i) wworld \<Rightarrow> ('s, 'i) wworld \<times> go_err"
where
  "releaseClaimLease m e ctx held w =
     (if 0 < rl_fencingToken held
      then (if rl_lineage held \<noteq> None then (w, Some (Sentinel ErrPolicyViolation))
            else case as_StrictDriver (wm_driver m) of
              None \<Rightarrow> (w, Some (Sentinel ErrPolicyViolation))
            | Some strictDriver \<Rightarrow>
                call_wdriver e (\<lambda>t s. ReleaseStrict strictDriver ctx t s (rl_lease held) (rl_fencingToken held)) w)
      else case rl_lineage held of
        None \<Rightarrow> call_wdriver e (\<lambda>t s. Release (wm_driver m) ctx t s (rl_lease held)) w
      | Some meta \<Rightarrow>
          (case as_LineageDriver (wm_driver m) of
             None \<Rightarrow> (w, Some (Sentinel ErrPolicyViolation))
           | Some lineageDriver \<Rightarrow>
               call_wdriver e (\<lambda>t s. ReleaseWithLineage lineageDriver ctx t s (rl_lease held) meta) w))"

definition renewLease ::
  "('s, 'i) WorkerManager \<Rightarrow> Env \<Rightarrow> go_ctx \<Rightarrow> renewableLease \<Rightarrow> ('s, 'i) wworld \<Rightarrow> ('s, 'i) wworld \<times> renewableLease result"
where
  "renewLease m e ctx current w =
     (if 0 < rl_fencingToken current
      then (if rl_lineage current \<noteq> None then (w, Inl (Sentinel ErrPolicyViolation))
            else case as_StrictDriver (wm_driver m) of
              None \<Rightarrow> (w, Inl (Sentinel ErrPolicyViolation))
            | Some strictDriver \<Rightarrow>
                (case call_wdriver e (\<lambda>t s. RenewStrict strictDriver ctx t s (rl_lease current) (rl_fencingToken current)) w of
                   (w1, Inl err) \<Rightarrow> (w1, Inl err)
                 | (w1, Inr updated) \<Rightarrow>
                     if fl_FencingToken updated \<noteq> rl_fencingToken current then (w1, Inl (Sentinel ErrLeaseNotFound))
                     else (w1, Inr \<lparr>rl_lease = fl_Lease updated, rl_lineage = None,
                                    rl_fencingToken = rl_fencingToken current\<rparr>)))
      else case rl_lineage current of
        None \<Rightarrow>
          (case call_wdriver e (\<lambda>t s. Renew (wm_driver m) ctx t s (rl_lease current)) w of
             (w1, Inl err) \<Rightarrow> (w1, Inl err)
           | (w1, Inr updated) \<Rightarrow> (w1, Inr \<lparr>rl_lease = updated, rl_lineage = None, rl_fencingToken = 0\<rparr>))
      | Some meta \<Rightarrow>
          (case as_LineageDriver (wm_driver m) of
             None \<Rightarrow> (w, Inl (Sentinel ErrPolicyViolation))
           | Some lineageDriver \<Rightarrow>
               (case call_wdriver e (\<lambda>t s. RenewWithLineage lineageDriver ctx t s (rl_lease current) meta) w of
                  (w1, Inl err) \<Rightarrow> (w1, Inl err)
                | (w1, Inr (updatedLease, updatedMeta)) \<Rightarrow>
                    (w1, Inr \<lparr>rl_lease = updatedLease, rl_lineage = Some updatedMeta, rl_fencingToken = 0\<rparr>))))"


section \<open>Idempotency of a claim\<close>

text \<open>
  \<^verbatim>\<open>handleIdempotencyRecord\<close> calls itself again with the status \<^verbatim>\<open>Begin\<close> returned; a store whose \<^verbatim>\<open>Begin\<close>
  keeps answering "missing, not acquired" would make it recurse for ever, hence the option.
\<close>

partial_function (option) handleIdempotencyRecord ::
  "'i Store \<Rightarrow> Env \<Rightarrow> go_ctx \<Rightarrow> LockDefinition \<Rightarrow> MessageClaimRequest \<Rightarrow> Status \<Rightarrow> ('s, 'i) wworld
    \<Rightarrow> (('s, 'i) wworld \<times> go_err) option"
where
  "handleIdempotencyRecord S e ctx def req status w =
     (case status of
        StatusMissing \<Rightarrow>
          (case call_store e (\<lambda>t s. st_Begin S ctx t s (mc_IdempotencyKey req)
              \<lparr>bi_OwnerID = om_OwnerID (mc_Ownership req), bi_MessageID = om_MessageID (mc_Ownership req),
               bi_ConsumerGroup = om_ConsumerGroup (mc_Ownership req), bi_Attempt = om_Attempt (mc_Ownership req),
               bi_TTL = inProgressTTL (ld_LeaseTTL def)\<rparr>) w of
             (w1, Inl err) \<Rightarrow> Some (w1, Some err)
           | (w1, Inr beginResult) \<Rightarrow>
               if br_Acquired beginResult then Some (w1, None)
               else handleIdempotencyRecord S e ctx def req (rd_Status (br_Record beginResult)) w1)
      | StatusInProgress \<Rightarrow> Some (w, Some (Sentinel ErrLockBusy))
      | StatusCompleted \<Rightarrow>
          (case call_store e (\<lambda>t s. st_Complete S background t s (mc_IdempotencyKey req)
              \<lparr>ci_OwnerID = om_OwnerID (mc_Ownership req), ci_MessageID = om_MessageID (mc_Ownership req),
               ci_TTL = terminalTTL (ld_LeaseTTL def)\<rparr>) w of
             (w1, Some err) \<Rightarrow> Some (w1, Some err)
           | (w1, None) \<Rightarrow> Some (w1, Some (Sentinel ErrDuplicateIgnored)))
      | StatusFailed \<Rightarrow>
          (case call_store e (\<lambda>t s. st_Fail S background t s (mc_IdempotencyKey req)
              \<lparr>fi_OwnerID = om_OwnerID (mc_Ownership req), fi_MessageID = om_MessageID (mc_Ownership req),
               fi_TTL = terminalTTL (ld_LeaseTTL def)\<rparr>) w of
             (w1, Some err) \<Rightarrow> Some (w1, Some err)
           | (w1, None) \<Rightarrow> Some (w1, Some (Sentinel ErrDuplicateIgnored)))
      | StatusOther _ \<Rightarrow> Some (w, Some (Sentinel ErrLockBusy)))"

declare handleIdempotencyRecord.simps [code]

definition preAcquireIdempotency ::
  "('s, 'i) WorkerManager \<Rightarrow> Env \<Rightarrow> go_ctx \<Rightarrow> LockDefinition \<Rightarrow> MessageClaimRequest \<Rightarrow> ('s, 'i) wworld
    \<Rightarrow> (('s, 'i) wworld \<times> go_err) option"
where
  "preAcquireIdempotency m e ctx def req w =
     (if \<not> shouldUseIdempotency def req then Some (w, None)
      else case wm_idempotency m of
        None \<Rightarrow> Some (w, Some (Sentinel ErrPolicyViolation))
      | Some S \<Rightarrow>
          (case call_store e (\<lambda>t s. st_Get S ctx t s (mc_IdempotencyKey req)) w of
             (w1, Inl err) \<Rightarrow> Some (w1, Some err)
           | (w1, Inr record) \<Rightarrow> handleIdempotencyRecord S e ctx def req (rd_Status record) w1))"

text \<open>
  Without a store \<^verbatim>\<open>preAcquireIdempotency\<close> has already refused a claim that uses idempotency, so the
  first branch below is never taken with \<open>shouldUseIdempotency\<close>.
\<close>

definition persistTerminalIdempotency ::
  "('s, 'i) WorkerManager \<Rightarrow> Env \<Rightarrow> LockDefinition \<Rightarrow> MessageClaimRequest \<Rightarrow> WorkerOutcome \<Rightarrow> ('s, 'i) wworld
    \<Rightarrow> ('s, 'i) wworld \<times> go_err"
where
  "persistTerminalIdempotency m e def req outcome w =
     (case (wm_idempotency m, shouldUseIdempotency def req) of
        (None, _) \<Rightarrow> (w, None)
      | (Some S, False) \<Rightarrow> (w, None)
      | (Some S, True) \<Rightarrow>
          (case outcome of
             OutcomeAck \<Rightarrow>
               call_store e (\<lambda>t s. st_Complete S background t s (mc_IdempotencyKey req)
                 \<lparr>ci_OwnerID = om_OwnerID (mc_Ownership req), ci_MessageID = om_MessageID (mc_Ownership req),
                  ci_TTL = terminalTTL (ld_LeaseTTL def)\<rparr>) w
           | OutcomeRetry \<Rightarrow> (w, None)
           | _ \<Rightarrow>
               call_store e (\<lambda>t s. st_Fail S background t s (mc_IdempotencyKey req)
                 \<lparr>fi_OwnerID = om_OwnerID (mc_Ownership req), fi_MessageID = om_MessageID (mc_Ownership req),
                  fi_TTL = terminalTTL (ld_LeaseTTL def)\<rparr>) w))"

section \<open>Renewal\<close>

definition registerRenewalCancel :: "('s, 'i) wworld \<Rightarrow> ('s, 'i) wworld \<times> 64 word" where
  "registerRenewalCancel w =
     (let n = ww_nextRenewal w + 1 in (w\<lparr>ww_nextRenewal := n, ww_renewals := mput n () (ww_renewals w)\<rparr>, n))"

definition unregisterRenewalCancel :: "64 word \<Rightarrow> ('s, 'i) wworld \<Rightarrow> ('s, 'i) wworld" where
  "unregisterRenewalCancel n w = (if n = 0 then w else w\<lparr>ww_renewals := mdel n (ww_renewals w)\<rparr>)"

text \<open>
  A renewal session: its loop's current lease, its failure, whether its context is cancelled, whether
  its loop has ended (\<^verbatim>\<open>done\<close> is closed).
\<close>

record renewalSession =
  rs_current :: renewableLease
  rs_err :: go_err
  rs_canceled :: bool
  rs_done :: bool
  rs_registration :: "64 word"
  rs_event :: Event

definition startLeaseRenewalWithMeta ::
  "renewableLease \<Rightarrow> Event \<Rightarrow> ('s, 'i) wworld \<Rightarrow> ('s, 'i) wworld \<times> renewalSession"
where
  "startLeaseRenewalWithMeta lease ev w =
     (let (w1, n) = registerRenewalCancel w in
      (w1, \<lparr>rs_current = lease, rs_err = None, rs_canceled = False, rs_done = False, rs_registration = n, rs_event = ev\<rparr>))"

definition setFailure :: "go_error \<Rightarrow> renewalSession \<Rightarrow> renewalSession" where
  "setFailure err s = (if rs_err s = None then s\<lparr>rs_err := Some err\<rparr> else s)"

text \<open>The loop ends: the deferred calls unregister the cancellation and close \<^verbatim>\<open>done\<close>.\<close>

definition loop_exit :: "renewalSession \<Rightarrow> ('s, 'i) wworld \<Rightarrow> ('s, 'i) wworld \<times> renewalSession" where
  "loop_exit s w = (unregisterRenewalCancel (rs_registration s) w, s\<lparr>rs_done := True\<rparr>)"

text \<open>One pass of the loop after its ticker fired.\<close>

definition renew_ctx :: "renewalSession \<Rightarrow> go_ctx" where
  "renew_ctx s = background\<lparr>ctx_canceled := rs_canceled s\<rparr>"

definition renewal_pass ::
  "('s, 'i) WorkerManager \<Rightarrow> Env \<Rightarrow> renewalSession \<Rightarrow> ('s, 'i) wworld \<Rightarrow> ('s, 'i) wworld \<times> renewalSession"
where
  "renewal_pass m e s w =
     (if rs_done s then (w, s)
      else case renewLease m e (renew_ctx s) (rs_current s) w of
        (w1, Inl err) \<Rightarrow>
          if rs_canceled s \<and> (errors_is err ContextCanceled \<or> errors_is err ContextDeadlineExceeded)
          then loop_exit s w1
          else loop_exit (setFailure (Errorf ''%w: %v'' [] [Sentinel ErrLeaseLost]) s) w1
      | (w1, Inr updated) \<Rightarrow>
          (wpublish m (PublishWorkerRenewalSucceeded (rs_event s)) w1, s\<lparr>rs_current := updated\<rparr>))"

text \<open>The ticker of loop \<open>j\<close> fires.\<close>

definition tick_session ::
  "('s, 'i) WorkerManager \<Rightarrow> Env \<Rightarrow> nat \<Rightarrow> renewalSession list \<Rightarrow> ('s, 'i) wworld \<Rightarrow> ('s, 'i) wworld \<times> renewalSession list"
where
  "tick_session m e j ss w =
     (if j < length ss then (let (w1, s) = renewal_pass m e (ss ! j) w in (w1, ss[j := s])) else (w, ss))"

text \<open>\<^verbatim>\<open><-s.done\<close>: wait until loop \<open>i\<close> has ended; \<open>n\<close> counts the steps of the wait.\<close>

partial_function (option) await_done ::
  "('s, 'i) WorkerManager \<Rightarrow> Env \<Rightarrow> nat \<Rightarrow> nat \<Rightarrow> renewalSession list \<Rightarrow> ('s, 'i) wworld
    \<Rightarrow> (('s, 'i) wworld \<times> renewalSession list) option"
where
  "await_done m e i n ss w =
     (if rs_done (ss ! i) then Some (w, ss)
      else case env_late e n of
        None \<Rightarrow> (let (w1, s) = loop_exit (ss ! i) w in Some (w1, ss[i := s]))
      | Some j \<Rightarrow> (let (w1, ss') = tick_session m e j ss w in await_done m e i (Suc n) ss' w1))"

declare await_done.simps [code]

definition stopAndWait ::
  "('s, 'i) WorkerManager \<Rightarrow> Env \<Rightarrow> nat \<Rightarrow> renewalSession list \<Rightarrow> ('s, 'i) wworld
    \<Rightarrow> (('s, 'i) wworld \<times> renewalSession list) option"
where
  "stopAndWait m e i ss w =
     await_done m e i (ww_tick w) (ss[i := (ss ! i)\<lparr>rs_canceled := True\<rparr>])
       (unregisterRenewalCancel (rs_registration (ss ! i)) w)"

text \<open>Composite sessions.\<close>

fun start_sessions ::
  "(renewableLease \<times> Event) list \<Rightarrow> ('s, 'i) wworld \<Rightarrow> ('s, 'i) wworld \<times> renewalSession list"
where
  "start_sessions [] w = (w, [])"
| "start_sessions ((lease, ev) # rest) w =
     (let (w1, s) = startLeaseRenewalWithMeta lease ev w; (w2, ss) = start_sessions rest w1 in (w2, s # ss))"

text \<open>The loops with an index below \<open>k\<close> are stopped one after the other, the last one first.\<close>

fun stop_sessions ::
  "('s, 'i) WorkerManager \<Rightarrow> Env \<Rightarrow> nat \<Rightarrow> renewalSession list \<Rightarrow> ('s, 'i) wworld
    \<Rightarrow> (('s, 'i) wworld \<times> renewalSession list) option"
where
  "stop_sessions m e 0 ss w = Some (w, ss)"
| "stop_sessions m e (Suc i) ss w =
     (case stopAndWait m e i ss w of
        None \<Rightarrow> None
      | Some (w1, ss1) \<Rightarrow> stop_sessions m e i ss1 w1)"

definition sessions_failure :: "renewalSession list \<Rightarrow> go_err" where
  "sessions_failure ss = fold (\<lambda>s err. case rs_err s of None \<Rightarrow> err | Some renewErr \<Rightarrow> join_errs err renewErr) ss None"

section \<open>The callback and the renewal loops\<close>

datatype cb_step = Tick nat | Return go_err

type_synonym ('s, 'i) claim_fn = "go_ctx \<Rightarrow> ClaimContext \<Rightarrow> nat \<Rightarrow> ('s, 'i) wworld \<Rightarrow> ('s, 'i) wworld \<times> cb_step"

definition callback_ctx :: "go_ctx \<Rightarrow> renewalSession list \<Rightarrow> go_ctx" where
  "callback_ctx ctx ss = (if \<exists>s \<in> set ss. rs_err s \<noteq> None then ctx\<lparr>ctx_canceled := True\<rparr> else ctx)"

partial_function (option) run_callback ::
  "('s, 'i) WorkerManager \<Rightarrow> Env \<Rightarrow> ('s, 'i) claim_fn \<Rightarrow> go_ctx \<Rightarrow> ClaimContext \<Rightarrow> renewalSession list \<Rightarrow> nat
    \<Rightarrow> ('s, 'i) wworld \<Rightarrow> (('s, 'i) wworld \<times> renewalSession list \<times> go_err) option"
where
  "run_callback m e fn ctx cc ss n w =
     (let (w1, step) = fn (callback_ctx ctx ss) cc n w in
      case step of
        Return err \<Rightarrow> Some (w1, ss, err)
      | Tick j \<Rightarrow>
          (let (w2, ss') = tick_session m e j ss w1 in run_callback m e fn ctx cc ss' (Suc n) w2))"

declare run_callback.simps [code]

section \<open>ExecuteClaimed\<close>

definition claim_context :: "LockDefinition \<Rightarrow> MessageClaimRequest \<Rightarrow> string \<Rightarrow> renewableLease \<Rightarrow> ClaimContext" where
  "claim_context def req resourceKey lease =
     \<lparr>cx_DefinitionID = ld_ID def, cx_ResourceKey = resourceKey, cx_ResourceKeys = [],
      cx_Ownership = mc_Ownership req, cx_FencingToken = rl_fencingToken lease,
      cx_LeaseTTL = lr_LeaseTTL (rl_lease lease), cx_LeaseDeadline = lr_ExpiresAt (rl_lease lease),
      cx_IdempotencyKey = mc_IdempotencyKey req\<rparr>"

definition persist_outcome ::
  "('s, 'i) WorkerManager \<Rightarrow> Env \<Rightarrow> LockDefinition \<Rightarrow> MessageClaimRequest \<Rightarrow> go_err \<Rightarrow> ('s, 'i) wworld \<Rightarrow> ('s, 'i) wworld \<times> go_err"
where
  "persist_outcome m e def req callbackErr w =
     (case persistTerminalIdempotency m e def req (OutcomeFromError callbackErr) w of
        (w1, None) \<Rightarrow> (w1, callbackErr)
      | (w1, Some err) \<Rightarrow> (w1, join_errs callbackErr err))"

definition claim_run ::
  "('s, 'i) WorkerManager \<Rightarrow> Env \<Rightarrow> go_ctx \<Rightarrow> MessageClaimRequest \<Rightarrow> LockDefinition \<Rightarrow> string \<Rightarrow> renewableLease
    \<Rightarrow> ('s, 'i) claim_fn \<Rightarrow> ('s, 'i) wworld \<Rightarrow> (('s, 'i) wworld \<times> go_err) option"
where
  "claim_run m e ctx req def resourceKey lease fn w =
     (let ev = workerEvent (ld_ID def) resourceKey (om_OwnerID (mc_Ownership req)) (mc_IdempotencyKey req);
          (w1, session) = startLeaseRenewalWithMeta lease ev w
      in case run_callback m e fn ctx (claim_context def req resourceKey lease) [session] 0 w1 of
           None \<Rightarrow> None
         | Some (w2, ss, callbackErr) \<Rightarrow>
             (case stopAndWait m e 0 ss w2 of
                None \<Rightarrow> None
              | Some (w3, ss') \<Rightarrow>
                  (let (w4, callbackErr') = (case sessions_failure ss' of
                           None \<Rightarrow> (w3, callbackErr)
                         | Some renewErr \<Rightarrow> (wpublish m (PublishWorkerLeaseLost ev) w3, Some renewErr));
                       (w5, callbackErr'') = persist_outcome m e def req callbackErr' w4;
                       (w6, _) = releaseClaimLease m e background lease w5
                   in Some (wpublish m (PublishWorkerReleased ev) w6, callbackErr''))))"

definition claim_acquire ::
  "('s, 'i) WorkerManager \<Rightarrow> Env \<Rightarrow> go_ctx \<Rightarrow> waitConfig \<Rightarrow> LockDefinition \<Rightarrow> claimAcquirePlan \<Rightarrow> string \<Rightarrow> string
    \<Rightarrow> ('s, 'i) wworld \<Rightarrow> ('s, 'i) wworld \<times> renewableLease result"
where
  "claim_acquire m e ctx cfg def plan ownerID requestID w =
     (let ev = workerEvent (ld_ID def) (cp_resourceKey plan) ownerID requestID;
          (acquireCtx, w1) = worker_contextWithAcquireTimeout e ctx cfg w;
          w2 = wpublish m (PublishWorkerAcquireStarted ev) w1
      in case acquireClaimLease m e acquireCtx def plan ownerID w2 of
           (w3, Inl err) \<Rightarrow>
             (wpublish m (PublishWorkerAcquireFailed ev (worker_mapAcquireError err)) w3, Inl (worker_mapAcquireError err))
         | (w3, Inr lease) \<Rightarrow> (wpublish m (PublishWorkerAcquireSucceeded ev) w3, Inr lease))"

definition claim_guarded ::
  "('s, 'i) WorkerManager \<Rightarrow> Env \<Rightarrow> go_ctx \<Rightarrow> MessageClaimRequest \<Rightarrow> LockDefinition \<Rightarrow> claimAcquirePlan
    \<Rightarrow> ('s, 'i) claim_fn \<Rightarrow> ('s, 'i) wworld \<Rightarrow> (('s, 'i) wworld \<times> go_err) option"
where
  "claim_guarded m e ctx req def plan fn w =
     (case preAcquireIdempotency m e ctx def req w of
        None \<Rightarrow> None
      | Some (w1, Some err) \<Rightarrow> Some (w1, Some err)
      | Some (w1, None) \<Rightarrow>
          (case applyWorkerOverrides def (mc_Overrides req) of
             Inl err \<Rightarrow> Some (w1, Some err)
           | Inr cfg \<Rightarrow>
               (case claim_acquire m e ctx cfg def plan (om_OwnerID (mc_Ownership req)) (mc_IdempotencyKey req) w1 of
                  (w2, Inl err) \<Rightarrow> Some (w2, Some err)
                | (w2, Inr lease) \<Rightarrow> claim_run m e ctx req def (cp_resourceKey plan) lease fn w2)))"

definition remove_reentry :: "reentryKey \<Rightarrow> ('s, 'i) wworld \<Rightarrow> ('s, 'i) wworld" where
  "remove_reentry guard w = w\<lparr>ww_active := mdel guard (ww_active w)\<rparr>"

definition claim_admitted ::
  "('s, 'i) WorkerManager \<Rightarrow> Env \<Rightarrow> go_ctx \<Rightarrow> MessageClaimRequest \<Rightarrow> LockDefinition \<Rightarrow> claimAcquirePlan
    \<Rightarrow> ('s, 'i) claim_fn \<Rightarrow> ('s, 'i) wworld \<Rightarrow> (('s, 'i) wworld \<times> go_err) option"
where
  "claim_admitted m e ctx req def plan fn w =
     (let guard = \<lparr>rk_definitionID = ld_ID def, rk_resourceKey = cp_resourceKey plan\<rparr> in
      if mget (ww_active w) guard \<noteq> None then Some (w, Some (Sentinel ErrReentrantAcquire))
      else map_option (map_prod (remove_reentry guard) id)
             (claim_guarded m e ctx req def plan fn (w\<lparr>ww_active := mput guard () (ww_active w)\<rparr>)))"

definition ExecuteClaimed ::
  "('s, 'i) WorkerManager \<Rightarrow> Env \<Rightarrow> go_ctx \<Rightarrow> MessageClaimRequest \<Rightarrow> ('s, 'i) claim_fn \<Rightarrow> ('s, 'i) wworld
    \<Rightarrow> (('s, 'i) wworld \<times> go_err) option"
where
  "ExecuteClaimed m e ctx req fn w =
     (if ww_shuttingDown w then Some (w, Some (Sentinel ErrWorkerShuttingDown))
      else case Get (wm_registry m) (mc_DefinitionID req) of
        None \<Rightarrow> Some (w, Some (Sentinel ErrPolicyViolation))
      | Some def \<Rightarrow>
          (case validateClaimRequest def req of
             Some err \<Rightarrow> Some (w, Some err)
           | None \<Rightarrow>
               (case buildClaimAcquirePlan m e def (mc_KeyInput req) w of
                  (w1, Inl err) \<Rightarrow> Some (w1, Some err)
                | (w1, Inr plan) \<Rightarrow>
                    (case worker_tryAdmit w1 of
                       (w2, False) \<Rightarrow> Some (w2, Some (Sentinel ErrWorkerShuttingDown))
                     | (w2, True) \<Rightarrow>
                         map_option (map_prod worker_releaseInFlight id) (claim_admitted m e ctx req def plan fn w2)))))"


section \<open>ExecuteCompositeClaimed\<close>

type_synonym claim_plan_queue = "(string \<times> string, claimAcquirePlan list) gomap"

definition popCompositeClaimAcquirePlan ::
  "claim_plan_queue \<Rightarrow> string \<Rightarrow> string \<Rightarrow> (claim_plan_queue \<times> claimAcquirePlan) option"
where
  "popCompositeClaimAcquirePlan plans definitionID resourceKey =
     (case mget plans (definitionID, resourceKey) of
        None \<Rightarrow> None
      | Some [] \<Rightarrow> None
      | Some [plan] \<Rightarrow> Some (mdel (definitionID, resourceKey) plans, plan)
      | Some (plan # queue) \<Rightarrow> Some (mput (definitionID, resourceKey) queue plans, plan))"

definition validateCompositeClaimRequest :: "CompositeClaimRequest \<Rightarrow> go_err" where
  "validateCompositeClaimRequest req =
     (if trim_space (cc_DefinitionID req) = [] then Some (Sentinel ErrPolicyViolation)
      else if trim_space (om_OwnerID (cc_Ownership req)) = [] then Some (Sentinel ErrPolicyViolation)
      else None)"

text \<open>The tables of the member loop, with the idempotency requirement and the longest lease so far.\<close>

record claim_members =
  cmm_defs :: "LockDefinition list"
  cmm_keys :: "string list"
  cmm_plans :: claim_plan_queue
  cmm_idempotencyRequired :: bool
  cmm_leaseTTLBasis :: duration

fun resolve_claim_members ::
  "('s, 'i) WorkerManager \<Rightarrow> Env \<Rightarrow> (string \<times> key_input) list \<Rightarrow> claim_members \<Rightarrow> ('s, 'i) wworld
    \<Rightarrow> ('s, 'i) wworld \<times> claim_members result"
where
  "resolve_claim_members m e [] acc w = (w, Inr acc)"
| "resolve_claim_members m e ((memberID, input) # ms) acc w =
     (case Get (wm_registry m) memberID of
        None \<Rightarrow> (w, Inl (Sentinel ErrPolicyViolation))
      | Some memberDef \<Rightarrow>
          if ld_Mode memberDef \<noteq> ModeStandard then (w, Inl (Sentinel ErrPolicyViolation))
          else if ld_ExecutionKind memberDef \<noteq> ExecutionAsync \<and> ld_ExecutionKind memberDef \<noteq> ExecutionBoth
          then (w, Inl (Sentinel ErrPolicyViolation))
          else case buildClaimAcquirePlan m e memberDef input w of
            (w1, Inl err) \<Rightarrow> (w1, Inl err)
          | (w1, Inr plan) \<Rightarrow>
              let key = (ld_ID memberDef, cp_resourceKey plan);
                  queue = (case mget (cmm_plans acc) key of None \<Rightarrow> [] | Some q \<Rightarrow> q)
              in resolve_claim_members m e ms
                   \<lparr>cmm_defs = cmm_defs acc @ [memberDef], cmm_keys = cmm_keys acc @ [cp_resourceKey plan],
                    cmm_plans = mput key (queue @ [plan]) (cmm_plans acc),
                    cmm_idempotencyRequired = (cmm_idempotencyRequired acc \<or> ld_IdempotencyRequired memberDef),
                    cmm_leaseTTLBasis = (if cmm_defs acc = [] \<or> cmm_leaseTTLBasis acc < ld_LeaseTTL memberDef
                                         then ld_LeaseTTL memberDef else cmm_leaseTTLBasis acc)\<rparr> w1)"

text \<open>
  The definition under which the composite is executed; the fields Go leaves at their zero values are
  not read by the code that gets it, except for the mode, whose zero value is not strict.
\<close>

definition exec_def :: "CompositeDefinition \<Rightarrow> claim_members \<Rightarrow> LockDefinition" where
  "exec_def compositeDef members =
     \<lparr>ld_ID = cd_ID compositeDef, ld_Kind = KindOther [], ld_Resource = [], ld_Mode = ModeOther [],
      ld_ExecutionKind = cd_ExecutionKind compositeDef, ld_LeaseTTL = cmm_leaseTTLBasis members,
      ld_WaitTimeout = 0, ld_MaxRetries = 0, ld_BackendFailurePolicy = BackendPolicyOther [],
      ld_FencingRequired = False, ld_IdempotencyRequired = cmm_idempotencyRequired members,
      ld_CheckOnlyAllowed = False, ld_FailIfHeld = False, ld_Rank = 0, ld_ParentRef = [],
      ld_OverlapPolicy = OverlapOther [], ld_KeyBuilder = None, ld_Tags = None\<rparr>"

definition exec_request :: "CompositeClaimRequest \<Rightarrow> MessageClaimRequest" where
  "exec_request req =
     \<lparr>mc_DefinitionID = cc_DefinitionID req, mc_KeyInput = None, mc_Ownership = cc_Ownership req,
      mc_IdempotencyKey = cc_IdempotencyKey req, mc_Overrides = cc_Overrides req\<rparr>"

fun worker_overlap_with :: "MemberLeasePlan \<Rightarrow> MemberLeasePlan list \<Rightarrow> go_err" where
  "worker_overlap_with left [] = None"
| "worker_overlap_with left (right # rest) =
     (case RejectOverlap (mp_Definition left) (mp_Definition right) (mp_ResourceKey left) (mp_ResourceKey right) of
        Some err \<Rightarrow> Some err
      | None \<Rightarrow>
          (case RejectOverlap (mp_Definition right) (mp_Definition left) (mp_ResourceKey right) (mp_ResourceKey left) of
             Some err \<Rightarrow> Some err
           | None \<Rightarrow> worker_overlap_with left rest))"

fun worker_rejectCompositeOverlap :: "MemberLeasePlan list \<Rightarrow> go_err" where
  "worker_rejectCompositeOverlap [] = None"
| "worker_rejectCompositeOverlap (left # rest) =
     (case worker_overlap_with left rest of Some err \<Rightarrow> Some err | None \<Rightarrow> worker_rejectCompositeOverlap rest)"

fun claim_wait_configs :: "RuntimeOverrides option \<Rightarrow> MemberLeasePlan list \<Rightarrow> waitConfig list result" where
  "claim_wait_configs ov [] = Inr []"
| "claim_wait_configs ov (member # rest) =
     (case applyWorkerOverrides (mp_Definition member) ov of
        Inl err \<Rightarrow> Inl err
      | Inr cfg \<Rightarrow> (case claim_wait_configs ov rest of Inl err \<Rightarrow> Inl err | Inr cfgs \<Rightarrow> Inr (cfg # cfgs)))"

text \<open>The guard loop, which like the one of the runtime returns without removing what it installed.\<close>

fun install_reentry :: "reentryKey list \<Rightarrow> ('s, 'i) wworld \<Rightarrow> ('s, 'i) wworld \<times> bool" where
  "install_reentry [] w = (w, True)"
| "install_reentry (guard # guards) w =
     (if mget (ww_active w) guard \<noteq> None then (w, False)
      else install_reentry guards (w\<lparr>ww_active := mput guard () (ww_active w)\<rparr>))"

fun acquire_claims ::
  "('s, 'i) WorkerManager \<Rightarrow> Env \<Rightarrow> go_ctx \<Rightarrow> CompositeClaimRequest \<Rightarrow> (MemberLeasePlan \<times> waitConfig) list
    \<Rightarrow> claim_plan_queue \<Rightarrow> (MemberLeasePlan \<times> renewableLease) list \<Rightarrow> ('s, 'i) wworld
    \<Rightarrow> ('s, 'i) wworld \<times> (MemberLeasePlan \<times> renewableLease) list \<times> go_err"
where
  "acquire_claims m e ctx req [] plans acquired w = (w, acquired, None)"
| "acquire_claims m e ctx req ((member, cfg) # rest) plans acquired w =
     (case popCompositeClaimAcquirePlan plans (ld_ID (mp_Definition member)) (mp_ResourceKey member) of
        None \<Rightarrow> (w, acquired, Some (Sentinel ErrPolicyViolation))
      | Some (plans', plan) \<Rightarrow>
          (case claim_acquire m e ctx cfg (mp_Definition member) plan (om_OwnerID (cc_Ownership req))
              (cc_IdempotencyKey req) w of
             (w1, Inl err) \<Rightarrow> (w1, acquired, Some err)
           | (w1, Inr lease) \<Rightarrow> acquire_claims m e ctx req rest plans' (acquired @ [(member, lease)]) w1))"

definition claim_event :: "CompositeClaimRequest \<Rightarrow> MemberLeasePlan \<Rightarrow> Event" where
  "claim_event req member = workerEvent (ld_ID (mp_Definition member)) (mp_ResourceKey member)
     (om_OwnerID (cc_Ownership req)) (cc_IdempotencyKey req)"

definition release_claims ::
  "('s, 'i) WorkerManager \<Rightarrow> Env \<Rightarrow> CompositeClaimRequest \<Rightarrow> (MemberLeasePlan \<times> renewableLease) list
    \<Rightarrow> ('s, 'i) wworld \<Rightarrow> ('s, 'i) wworld"
where
  "release_claims m e req acquired w =
     fold (\<lambda>(member, lease) w. wpublish m (PublishWorkerReleased (claim_event req member))
         (fst (releaseClaimLease m e background lease w)))
       (rev acquired) w"

definition buildCompositeClaimContext ::
  "CompositeClaimRequest \<Rightarrow> (MemberLeasePlan \<times> renewableLease) list \<Rightarrow> ClaimContext"
where
  "buildCompositeClaimContext req acquired =
     (let (ttl, deadline) = lease_bounds (map (\<lambda>(_, l). \<lparr>hl_lease = rl_lease l, hl_lineage = None, hl_fencingToken = 0\<rparr>) acquired) in
      \<lparr>cx_DefinitionID = cc_DefinitionID req, cx_ResourceKey = [],
       cx_ResourceKeys = map (\<lambda>(member, _). mp_ResourceKey member) acquired,
       cx_Ownership = cc_Ownership req, cx_FencingToken = 0, cx_LeaseTTL = ttl, cx_LeaseDeadline = deadline,
       cx_IdempotencyKey = cc_IdempotencyKey req\<rparr>)"

definition composite_claim_run ::
  "('s, 'i) WorkerManager \<Rightarrow> Env \<Rightarrow> go_ctx \<Rightarrow> CompositeClaimRequest \<Rightarrow> LockDefinition
    \<Rightarrow> (MemberLeasePlan \<times> renewableLease) list \<Rightarrow> ('s, 'i) claim_fn \<Rightarrow> ('s, 'i) wworld
    \<Rightarrow> (('s, 'i) wworld \<times> go_err) option"
where
  "composite_claim_run m e ctx req execDef acquired fn w =
     (let (w1, ss0) = start_sessions (map (\<lambda>(member, lease). (lease, claim_event req member)) acquired) w in
      case run_callback m e fn ctx (buildCompositeClaimContext req acquired) ss0 0 w1 of
        None \<Rightarrow> None
      | Some (w2, ss, callbackErr) \<Rightarrow>
          (case stop_sessions m e (length ss) ss w2 of
             None \<Rightarrow> None
           | Some (w3, ss') \<Rightarrow>
               (let (w4, callbackErr') = (case sessions_failure ss' of
                        None \<Rightarrow> (w3, callbackErr)
                      | Some renewErr \<Rightarrow>
                          (fold (\<lambda>(member, _). wpublish m (PublishWorkerLeaseLost (claim_event req member))) acquired w3,
                           Some renewErr))
                in Some (persist_outcome m e execDef (exec_request req) callbackErr' w4))))"

definition composite_claim_guarded ::
  "('s, 'i) WorkerManager \<Rightarrow> Env \<Rightarrow> go_ctx \<Rightarrow> CompositeClaimRequest \<Rightarrow> LockDefinition \<Rightarrow> MemberLeasePlan list
    \<Rightarrow> waitConfig list \<Rightarrow> claim_plan_queue \<Rightarrow> ('s, 'i) claim_fn \<Rightarrow> ('s, 'i) wworld \<Rightarrow> (('s, 'i) wworld \<times> go_err) option"
where
  "composite_claim_guarded m e ctx req execDef plan cfgs plans fn w =
     (case preAcquireIdempotency m e ctx execDef (exec_request req) w of
        None \<Rightarrow> None
      | Some (w1, Some err) \<Rightarrow> Some (w1, Some err)
      | Some (w1, None) \<Rightarrow>
          (case acquire_claims m e ctx req (zip plan cfgs) plans [] w1 of
             (w2, acquired, Some err) \<Rightarrow> Some (release_claims m e req acquired w2, Some err)
           | (w2, acquired, None) \<Rightarrow>
               map_option (map_prod (release_claims m e req acquired) id)
                 (composite_claim_run m e ctx req execDef acquired fn w2)))"

definition composite_claim_admitted ::
  "('s, 'i) WorkerManager \<Rightarrow> Env \<Rightarrow> go_ctx \<Rightarrow> CompositeClaimRequest \<Rightarrow> LockDefinition \<Rightarrow> MemberLeasePlan list
    \<Rightarrow> waitConfig list \<Rightarrow> claim_plan_queue \<Rightarrow> ('s, 'i) claim_fn \<Rightarrow> ('s, 'i) wworld \<Rightarrow> (('s, 'i) wworld \<times> go_err) option"
where
  "composite_claim_admitted m e ctx req execDef plan cfgs plans fn w =
     (let guardKeys = map (\<lambda>member. \<lparr>rk_definitionID = ld_ID (mp_Definition member),
                                     rk_resourceKey = mp_ResourceKey member\<rparr>) plan
      in case install_reentry guardKeys w of
           (w1, False) \<Rightarrow> Some (w1, Some (Sentinel ErrReentrantAcquire))
         | (w1, True) \<Rightarrow>
             map_option (map_prod (fold remove_reentry guardKeys) id)
               (composite_claim_guarded m e ctx req execDef plan cfgs plans fn w1))"

definition ExecuteCompositeClaimed ::
  "('s, 'i) WorkerManager \<Rightarrow> Env \<Rightarrow> go_ctx \<Rightarrow> CompositeClaimRequest \<Rightarrow> ('s, 'i) claim_fn \<Rightarrow> ('s, 'i) wworld
    \<Rightarrow> (('s, 'i) wworld \<times> go_err) option"
where
  "ExecuteCompositeClaimed m e ctx req fn w =
     (if ww_shuttingDown w then Some (w, Some (Sentinel ErrWorkerShuttingDown))
      else case validateCompositeClaimRequest req of
        Some err \<Rightarrow> Some (w, Some err)
      | None \<Rightarrow>
          (case GetComposite (wm_registry m) (cc_DefinitionID req) of
             None \<Rightarrow> Some (w, Some (Sentinel ErrPolicyViolation))
           | Some compositeDef \<Rightarrow>
               if length (cc_MemberInputs req) \<noteq> length (cd_Members compositeDef)
               then Some (w, Some (Sentinel ErrPolicyViolation))
               else case resolve_claim_members m e (zip (cd_Members compositeDef) (cc_MemberInputs req))
                   \<lparr>cmm_defs = [], cmm_keys = [], cmm_plans = [], cmm_idempotencyRequired = False,
                    cmm_leaseTTLBasis = 0\<rparr> w of
                 (w1, Inl err) \<Rightarrow> Some (w1, Some err)
               | (w1, Inr members) \<Rightarrow>
                   let execDef = exec_def compositeDef members in
                   (case validateClaimRequest execDef (exec_request req) of
                      Some err \<Rightarrow> Some (w1, Some err)
                    | None \<Rightarrow>
                        (case CanonicalizeMembers (cmm_defs members) (cmm_keys members) of
                           Inl err \<Rightarrow> Some (w1, Some (Sentinel ErrPolicyViolation))
                         | Inr plan \<Rightarrow>
                             (case worker_rejectCompositeOverlap plan of
                                Some err \<Rightarrow> Some (w1, Some err)
                              | None \<Rightarrow>
                                  (case claim_wait_configs (cc_Overrides req) plan of
                                     Inl err \<Rightarrow> Some (w1, Some err)
                                   | Inr cfgs \<Rightarrow>
                                       (case worker_tryAdmit w1 of
                                          (w2, False) \<Rightarrow> Some (w2, Some (Sentinel ErrWorkerShuttingDown))
                                        | (w2, True) \<Rightarrow>
                                            map_option (map_prod worker_releaseInFlight id)
                                              (composite_claim_admitted m e ctx req execDef plan cfgs
                                                 (cmm_plans members) fn w2))))))))"

end
