(* ===== verification/Worker_Correct.thy ===== *)
theory Worker_Correct
  imports Workers Runtime_Correct
begin

text \<open>
  Lemmas on the worker manager: its lease code agrees with the runtime's, the idempotency step
  terminates on a lawful store and lets at most one claim through, and a claim runs under its lease.
\<close>

section \<open>Calls\<close>

lemma call_store_eq:
  "call_store e f w =
     (w\<lparr>ww_tick := Suc (ww_tick w), ww_store := fst (f (env_clock e (ww_tick w)) (ww_store w))\<rparr>,
      snd (f (env_clock e (ww_tick w)) (ww_store w)))"
  by (simp add: call_store_def wtime_now_def case_prod_beta Let_def)

lemma call_wdriver_eq:
  "call_wdriver e f w =
     (w\<lparr>ww_tick := Suc (ww_tick w), ww_driver := fst (f (env_clock e (ww_tick w)) (ww_driver w))\<rparr>,
      snd (f (env_clock e (ww_tick w)) (ww_driver w)))"
  by (simp add: call_wdriver_def wtime_now_def case_prod_beta Let_def)

lemma wpublish_simps [simp]:
  "ww_driver (wpublish m c w) = ww_driver w" "ww_store (wpublish m c w) = ww_store w"
  "ww_tick (wpublish m c w) = ww_tick w" "ww_active (wpublish m c w) = ww_active w"
  "ww_inFlight (wpublish m c w) = ww_inFlight w" "ww_shuttingDown (wpublish m c w) = ww_shuttingDown w"
  "ww_renewals (wpublish m c w) = ww_renewals w"
  by (simp_all add: wpublish_def)

lemma worker_tryAdmit_eq:
  "worker_tryAdmit w = (if ww_shuttingDown w then (w, False) else (w\<lparr>ww_inFlight := ww_inFlight w + 1\<rparr>, True))"
  by (simp add: worker_tryAdmit_def)

section \<open>The lease code agrees with the runtime's\<close>

definition as_manager :: "('s, 'i) WorkerManager \<Rightarrow> 's Manager" where
  "as_manager m = \<lparr>mg_registry = wm_registry m, mg_driver = wm_driver m, mg_bridge = wm_bridge m,
     mg_lineageDefs = wm_lineageDefs m, mg_cachedDefsByID = wm_cachedDefsByID m\<rparr>"

definition as_world :: "('s, 'i) wworld \<Rightarrow> 's world" where
  "as_world w = \<lparr>w_active = [], w_activeByDef = [], w_shuttingDown = ww_shuttingDown w, w_inFlight = ww_inFlight w,
     w_driver = ww_driver w, w_tick = ww_tick w, w_draw = ww_draw w, w_log = []\<rparr>"

definition as_plan :: "claimAcquirePlan \<Rightarrow> runtimeAcquirePlan" where
  "as_plan p = \<lparr>rp_resourceKey = cp_resourceKey p, rp_lineage = cp_lineage p\<rparr>"

definition as_held :: "renewableLease \<Rightarrow> heldLease" where
  "as_held l = \<lparr>hl_lease = rl_lease l, hl_lineage = rl_lineage l, hl_fencingToken = rl_fencingToken l\<rparr>"

text \<open>What a call of the runtime's code on the projected world does to the worker's world.\<close>

definition lift_world :: "('s, 'i) wworld \<Rightarrow> 's world \<Rightarrow> ('s, 'i) wworld" where
  "lift_world w v = w\<lparr>ww_driver := w_driver v, ww_tick := w_tick v\<rparr>"

lemma acquireClaimLease_sim:
  "map_prod id (map_sum id as_held) (acquireClaimLease m e ctx def plan ow w) =
   map_prod (lift_world w) id (acquireLease (as_manager m) e ctx def (as_plan plan) ow (as_world w))"
  by (auto simp: acquireClaimLease_def acquireLease_def call_wdriver_eq call_driver_eq as_manager_def as_world_def
      as_plan_def as_held_def lift_world_def split: option.split sum.split)

lemma releaseClaimLease_sim:
  "releaseClaimLease m e ctx held w =
   map_prod (lift_world w) id (releaseLease (as_manager m) e ctx (as_held held) (as_world w))"
  by (auto simp: releaseClaimLease_def releaseLease_def call_wdriver_eq call_driver_eq as_manager_def as_world_def
      as_held_def lift_world_def split: option.split)

lemma worker_context_sim:
  "worker_contextWithAcquireTimeout e ctx cfg w =
   map_prod id (lift_world w) (contextWithAcquireTimeout e ctx cfg (as_world w))"
  by (auto simp: worker_contextWithAcquireTimeout_def contextWithAcquireTimeout_def wtime_now_def time_now_def
      lift_world_def as_world_def Let_def split: option.split)

lemma worker_overlap_with_eq: "worker_overlap_with l rs = overlap_with l rs"
  by (induction rs) (simp_all split: option.split)

lemma worker_overlap_eq: "worker_rejectCompositeOverlap plan = rejectCompositeOverlap plan"
  by (induction plan) (simp_all add: worker_overlap_with_eq split: option.split)

section \<open>The idempotency step\<close>

lemma inProgressTTL_pos: "0 < inProgressTTL t"
  by (simp add: inProgressTTL_def Let_def duration_units)

lemma terminalTTL_bounds: "minute \<le> terminalTTL t" "terminalTTL t \<le> 24 * hour"
  by (simp_all add: terminalTTL_def Let_def duration_units)

lemma terminalTTL_pos: "0 < terminalTTL t"
  using terminalTTL_bounds(1)[of t] by (simp add: duration_units)

lemma ctx_err_background [simp]: "ctx_err background t = None"
  by (simp add: ctx_err_def background_def)

context idempotency_store
begin

text \<open>A visible record: the claim is refused, whatever the record's status.\<close>

lemma handle_visible:
  assumes "inv (ww_store w)" and "st \<in> {StatusInProgress, StatusCompleted, StatusFailed}"
  shows "\<exists>s' n err. handleIdempotencyRecord S e ctx def req st w = Some (w\<lparr>ww_store := s', ww_tick := n\<rparr>, Some err)
    \<and> inv s' \<and> ww_tick w \<le> n"
proof -
  let ?t = "env_clock e (ww_tick w)" and ?key = "mc_IdempotencyKey req"
  obtain s1 where s1: "st_Complete S background ?t (ww_store w) ?key
      \<lparr>ci_OwnerID = om_OwnerID (mc_Ownership req), ci_MessageID = om_MessageID (mc_Ownership req),
       ci_TTL = terminalTTL (ld_LeaseTTL def)\<rparr> = (s1, None)" "inv s1"
    using complete_law[OF assms(1), of background ?t] terminalTTL_pos by force
  obtain s2 where s2: "st_Fail S background ?t (ww_store w) ?key
      \<lparr>fi_OwnerID = om_OwnerID (mc_Ownership req), fi_MessageID = om_MessageID (mc_Ownership req),
       fi_TTL = terminalTTL (ld_LeaseTTL def)\<rparr> = (s2, None)" "inv s2"
    using fail_law[OF assms(1), of background ?t] terminalTTL_pos by force
  consider "st = StatusInProgress" | "st = StatusCompleted" | "st = StatusFailed" using assms(2) by blast
  then show ?thesis
  proof cases
    case 1
    then show ?thesis using assms(1)
      by (intro exI[of _ "ww_store w"] exI[of _ "ww_tick w"]) (simp add: handleIdempotencyRecord.simps)
  next
    case 2
    then show ?thesis using s1
      by (intro exI[of _ s1] exI[of _ "Suc (ww_tick w)"]) (simp add: handleIdempotencyRecord.simps call_store_eq)
  next
    case 3
    then show ?thesis using s2
      by (intro exI[of _ s2] exI[of _ "Suc (ww_tick w)"]) (simp add: handleIdempotencyRecord.simps call_store_eq)
  qed
qed

text \<open>No visible record: \<^verbatim>\<open>Begin\<close> decides, and answers at once.\<close>

lemma handle_missing:
  assumes "inv (ww_store w)"
  shows "\<exists>s' n err. handleIdempotencyRecord S e ctx def req StatusMissing w = Some (w\<lparr>ww_store := s', ww_tick := n\<rparr>, err)
    \<and> inv s' \<and> ww_tick w \<le> n"
proof -
  let ?t = "env_clock e (ww_tick w)" and ?key = "mc_IdempotencyKey req"
  let ?i = "\<lparr>bi_OwnerID = om_OwnerID (mc_Ownership req), bi_MessageID = om_MessageID (mc_Ownership req),
     bi_ConsumerGroup = om_ConsumerGroup (mc_Ownership req), bi_Attempt = om_Attempt (mc_Ownership req),
     bi_TTL = inProgressTTL (ld_LeaseTTL def)\<rparr>"
  show ?thesis
  proof (cases "ctx_err ctx ?t")
    case (Some err)
    then have "st_Begin S ctx ?t (ww_store w) ?key ?i = (ww_store w, Inl err)"
      using refused_ctx[OF Some, of "ww_store w" ?key ?i] by blast
    then show ?thesis using assms
      by (intro exI[of _ "ww_store w"] exI[of _ "Suc (ww_tick w)"])
         (simp add: handleIdempotencyRecord.simps[of _ _ _ _ _ StatusMissing] call_store_eq)
  next
    case None
    obtain s' where s': "inv s'" "case vis ?t (ww_store w) ?key of
        Some r \<Rightarrow> st_Begin S ctx ?t (ww_store w) ?key ?i = (s', Inr \<lparr>br_Record = r, br_Acquired = False, br_Duplicate = True\<rparr>)
          \<and> same_from vis ?t (ww_store w) s'
      | None \<Rightarrow> st_Begin S ctx ?t (ww_store w) ?key ?i =
            (s', Inr \<lparr>br_Record = begun ?t ?key ?i, br_Acquired = True, br_Duplicate = False\<rparr>)
          \<and> put_from vis ?t (ww_store w) s' ?key (begun ?t ?key ?i)"
      using begin_law[OF assms None, of ?i ?key] inProgressTTL_pos by auto
    let ?w = "w\<lparr>ww_tick := Suc (ww_tick w), ww_store := s'\<rparr>"
    show ?thesis
    proof (cases "vis ?t (ww_store w) ?key")
      case (Some r)
      with vis_status[OF assms Some] handle_visible[of ?w "rd_Status r" e ctx def req] s'
      obtain s2 n err where "handleIdempotencyRecord S e ctx def req (rd_Status r) ?w = Some (?w\<lparr>ww_store := s2, ww_tick := n\<rparr>, Some err)"
        "inv s2" "Suc (ww_tick w) \<le> n" by auto
      then show ?thesis using s' Some
        by (intro exI[of _ s2] exI[of _ n] exI[of _ "Some err"])
           (simp add: handleIdempotencyRecord.simps[of _ _ _ _ _ StatusMissing] call_store_eq)
    next
      case nov: None
      then show ?thesis using s'
        by (intro exI[of _ s'] exI[of _ "Suc (ww_tick w)"] exI[of _ None])
           (simp add: handleIdempotencyRecord.simps[of _ _ _ _ _ StatusMissing] call_store_eq)
    qed
  qed
qed

lemma preAcquire_total:
  assumes "inv (ww_store w)" and "wm_idempotency m = Some S \<or> wm_idempotency m = None"
  shows "\<exists>s' n err. preAcquireIdempotency m e ctx def req w = Some (w\<lparr>ww_store := s', ww_tick := n\<rparr>, err)
    \<and> inv s' \<and> ww_tick w \<le> n
    \<and> (shouldUseIdempotency def req \<and> vis (env_clock e (ww_tick w)) (ww_store w) (mc_IdempotencyKey req) \<noteq> None
        \<longrightarrow> err \<noteq> None)"
proof -
  let ?t = "env_clock e (ww_tick w)" and ?key = "mc_IdempotencyKey req"
  have id: "w\<lparr>ww_store := ww_store w, ww_tick := ww_tick w\<rparr> = w" by simp
  consider "\<not> shouldUseIdempotency def req \<or> wm_idempotency m = None"
    | err where "shouldUseIdempotency def req" "wm_idempotency m = Some S" "ctx_err ctx ?t = Some err"
    | "shouldUseIdempotency def req" "wm_idempotency m = Some S" "ctx_err ctx ?t = None"
    using assms(2) by (cases "ctx_err ctx ?t") auto
  then show ?thesis
  proof cases
    case 1
    then show ?thesis using assms(1)
      by (intro exI[of _ "ww_store w"] exI[of _ "ww_tick w"]) (auto simp: preAcquireIdempotency_def split: option.split)
  next
    case (2 err)
    then have "st_Get S ctx ?t (ww_store w) ?key = (ww_store w, Inl err)" using refused_ctx[of ctx ?t err] by blast
    then show ?thesis using 2 assms(1)
      by (intro exI[of _ "ww_store w"] exI[of _ "Suc (ww_tick w)"] exI[of _ "Some err"])
         (simp add: preAcquireIdempotency_def call_store_eq)
  next
    case 3
    let ?r = "case vis ?t (ww_store w) ?key of Some r \<Rightarrow> r | None \<Rightarrow> missing_record ?key"
    obtain s1 where s1: "st_Get S ctx ?t (ww_store w) ?key = (s1, Inr ?r)" "inv s1" using get_law[OF assms(1) 3(3)] by blast
    let ?w = "w\<lparr>ww_tick := Suc (ww_tick w), ww_store := s1\<rparr>"
    have eq: "preAcquireIdempotency m e ctx def req w = handleIdempotencyRecord S e ctx def req (rd_Status ?r) ?w"
      using 3 s1 by (simp add: preAcquireIdempotency_def call_store_eq)
    show ?thesis
    proof (cases "vis ?t (ww_store w) ?key")
      case None
      then obtain s2 n err where "handleIdempotencyRecord S e ctx def req StatusMissing ?w =
          Some (?w\<lparr>ww_store := s2, ww_tick := n\<rparr>, err)" "inv s2" "Suc (ww_tick w) \<le> n"
        using handle_missing[of ?w e ctx def req] s1(2) by auto
      then show ?thesis using eq None by (intro exI[of _ s2] exI[of _ n] exI[of _ err]) (simp add: missing_record_def)
    next
      case (Some r)
      then obtain s2 n err where "handleIdempotencyRecord S e ctx def req (rd_Status r) ?w =
          Some (?w\<lparr>ww_store := s2, ww_tick := n\<rparr>, Some err)" "inv s2" "Suc (ww_tick w) \<le> n"
        using handle_visible[of ?w "rd_Status r" e ctx def req] s1(2) vis_status[OF assms(1) Some] by auto
      then show ?thesis using eq Some by (intro exI[of _ s2] exI[of _ n] exI[of _ "Some err"]) simp
    qed
  qed
qed

text \<open>A claim whose key has a visible record never gets to its callback.\<close>

lemma claim_guarded_visible:
  assumes "inv (ww_store w)" and "wm_idempotency m = Some S" and "shouldUseIdempotency def req"
    and "vis (env_clock e (ww_tick w)) (ww_store w) (mc_IdempotencyKey req) \<noteq> None"
  shows "\<exists>w' err. \<forall>fn. claim_guarded m e ctx req def plan fn w = Some (w', Some err)"
proof -
  obtain s' n err where "preAcquireIdempotency m e ctx def req w = Some (w\<lparr>ww_store := s', ww_tick := n\<rparr>, err)" "err \<noteq> None"
    using preAcquire_total[OF assms(1), of m e ctx def req] assms(2-4) by auto
  then show ?thesis by (auto simp: claim_guarded_def)
qed

lemma ExecuteClaimed_visible:
  assumes "inv (ww_store w)" and "wm_idempotency m = Some S" and "trim_space (mc_IdempotencyKey req) \<noteq> []"
    and "vis (env_clock e (ww_tick w)) (ww_store w) (mc_IdempotencyKey req) \<noteq> None"
  shows "\<exists>w' err. \<forall>fn. ExecuteClaimed m e ctx req fn w = Some (w', Some err)"
proof -
  have use: "shouldUseIdempotency def req" for def using assms(3) by (simp add: shouldUseIdempotency_def)
  have g: "\<exists>w' err. \<forall>fn. claim_guarded m e ctx req def plan fn (w\<lparr>ww_draw := d, ww_inFlight := n, ww_active := a\<rparr>) = Some (w', Some err)"
    for def plan d n a using assms use by (intro claim_guarded_visible) auto
  have adm: "\<exists>w' err. \<forall>fn. claim_admitted m e ctx req def plan fn (w\<lparr>ww_draw := d, ww_inFlight := n\<rparr>) = Some (w', Some err)"
    for def plan d n
  proof -
    let ?guard = "\<lparr>rk_definitionID = ld_ID def, rk_resourceKey = cp_resourceKey plan\<rparr>"
    obtain w' err where "\<forall>fn. claim_guarded m e ctx req def plan fn
        (w\<lparr>ww_draw := d, ww_inFlight := n, ww_active := mput ?guard () (ww_active w)\<rparr>) = Some (w', Some err)"
      using g by blast
    then show ?thesis by (cases "mget (ww_active w) ?guard") (auto simp: claim_admitted_def Let_def)
  qed
  have build: "\<exists>d r. buildClaimAcquirePlan m e def inp w = (w\<lparr>ww_draw := d\<rparr>, r)" for def inp
    unfolding buildClaimAcquirePlan_def Let_def
    by (auto split: sum.split intro: exI[of _ "ww_draw w"])
  show ?thesis
  proof (cases "ww_shuttingDown w \<or> Get (wm_registry m) (mc_DefinitionID req) = None")
    case True
    then show ?thesis by (cases "ww_shuttingDown w") (auto simp: ExecuteClaimed_def)
  next
    case False
    then obtain def where def: "Get (wm_registry m) (mc_DefinitionID req) = Some def" "\<not> ww_shuttingDown w" by auto
    obtain d r where r: "buildClaimAcquirePlan m e def (mc_KeyInput req) w = (w\<lparr>ww_draw := d\<rparr>, r)" using build by blast
    show ?thesis
      using def r adm[where def = def and d = d and n = "ww_inFlight w + 1"]
      by (cases "validateClaimRequest def req"; cases r) (fastforce simp: ExecuteClaimed_def worker_tryAdmit_eq)+
  qed
qed

end

section \<open>What the callback phase leaves alone\<close>

lemma renewLease_simps [simp]: "ww_store (fst (renewLease m e c l w)) = ww_store w"
  and renewLease_tick: "ww_tick w \<le> ww_tick (fst (renewLease m e c l w))"
  by (simp_all add: renewLease_def call_wdriver_eq split: option.split sum.split)

lemma unregister_simps [simp]:
  "ww_store (unregisterRenewalCancel n w) = ww_store w" "ww_driver (unregisterRenewalCancel n w) = ww_driver w"
  "ww_tick (unregisterRenewalCancel n w) = ww_tick w"
  by (simp_all add: unregisterRenewalCancel_def)

lemma loop_exit_simps [simp]:
  "ww_store (fst (loop_exit s w)) = ww_store w" "ww_tick (fst (loop_exit s w)) = ww_tick w"
  "rs_err (snd (loop_exit s w)) = rs_err s" "rs_done (snd (loop_exit s w))"
  by (simp_all add: loop_exit_def)

lemma renewal_pass_store [simp]: "ww_store (fst (renewal_pass m e s w)) = ww_store w"
  and renewal_pass_tick: "ww_tick w \<le> ww_tick (fst (renewal_pass m e s w))"
  using renewLease_simps[of m e "renew_ctx s" "rs_current s" w] renewLease_tick[of w m e "renew_ctx s" "rs_current s"]
  by (cases "renewLease m e (renew_ctx s) (rs_current s) w"; auto simp: renewal_pass_def split: sum.split)+

lemma tick_session_store [simp]: "ww_store (fst (tick_session m e j ss w)) = ww_store w"
  and tick_session_tick: "ww_tick w \<le> ww_tick (fst (tick_session m e j ss w))"
  and tick_session_length [simp]: "length (snd (tick_session m e j ss w)) = length ss"
  by (simp_all add: tick_session_def case_prod_beta Let_def renewal_pass_tick)

text \<open>What every step keeps, the run of the callback and the wait for a loop keep.\<close>

lemma run_callback_inv:
  assumes "run_callback m e fn ctx cc ss n w = Some y"
  shows "(\<forall>c cc n w ss. Q w ss \<longrightarrow> Q (fst (fn c cc n w)) ss) \<longrightarrow>
    (\<forall>j w ss. Q w ss \<longrightarrow> Q (fst (tick_session m e j ss w)) (snd (tick_session m e j ss w))) \<longrightarrow>
    Q w ss \<longrightarrow> Q (fst y) (fst (snd y))"
proof (rule run_callback.raw_induct[where P = "\<lambda>m e fn ctx cc ss n w y.
    (\<forall>c cc n w ss. Q w ss \<longrightarrow> Q (fst (fn c cc n w)) ss) \<longrightarrow>
    (\<forall>j w ss. Q w ss \<longrightarrow> Q (fst (tick_session m e j ss w)) (snd (tick_session m e j ss w))) \<longrightarrow>
    Q w ss \<longrightarrow> Q (fst y) (fst (snd y))", OF _ assms])
  fix rec m e fn ctx cc ss n w y
  assume IH: "\<And>m e fn ctx cc ss n w y. rec m e fn ctx cc ss n w = Some y \<Longrightarrow>
      (\<forall>c cc n w ss. Q w ss \<longrightarrow> Q (fst (fn c cc n w)) ss) \<longrightarrow>
      (\<forall>j w ss. Q w ss \<longrightarrow> Q (fst (tick_session m e j ss w)) (snd (tick_session m e j ss w))) \<longrightarrow>
      Q w ss \<longrightarrow> Q (fst y) (fst (snd y))"
    and eq: "(let (w1, step) = fn (callback_ctx ctx ss) cc n w in
       case step of Tick j \<Rightarrow> let (w2, ss') = tick_session m e j ss w1 in rec m e fn ctx cc ss' (Suc n) w2
       | Return err \<Rightarrow> Some (w1, ss, err)) = Some y"
  let ?f = "fn (callback_ctx ctx ss) cc n w"
  show "(\<forall>c cc n w ss. Q w ss \<longrightarrow> Q (fst (fn c cc n w)) ss) \<longrightarrow>
      (\<forall>j w ss. Q w ss \<longrightarrow> Q (fst (tick_session m e j ss w)) (snd (tick_session m e j ss w))) \<longrightarrow>
      Q w ss \<longrightarrow> Q (fst y) (fst (snd y))"
  proof (intro impI)
    assume p: "\<forall>c cc n w ss. Q w ss \<longrightarrow> Q (fst (fn c cc n w)) ss"
      "\<forall>j w ss. Q w ss \<longrightarrow> Q (fst (tick_session m e j ss w)) (snd (tick_session m e j ss w))" and w: "Q w ss"
    then have f: "Q (fst ?f) ss" by blast
    show "Q (fst y) (fst (snd y))"
    proof (cases "snd ?f")
      case (Return err)
      then show ?thesis using eq f by (auto simp: case_prod_beta Let_def)
    next
      case (Tick j)
      let ?t = "tick_session m e j ss (fst ?f)"
      have "rec m e fn ctx cc (snd ?t) (Suc n) (fst ?t) = Some y" using eq Tick by (simp add: case_prod_beta Let_def)
      from IH[OF this] p f show ?thesis by blast
    qed
  qed
qed

lemma await_done_inv:
  assumes "await_done m e i n ss w = Some y"
  shows "(\<forall>j w ss. Q w ss \<longrightarrow> Q (fst (tick_session m e j ss w)) (snd (tick_session m e j ss w))) \<longrightarrow>
    (\<forall>w ss. Q w ss \<longrightarrow> Q (fst (loop_exit (ss ! i) w)) (ss[i := snd (loop_exit (ss ! i) w)])) \<longrightarrow>
    Q w ss \<longrightarrow> Q (fst y) (snd y)"
proof (rule await_done.raw_induct[where P = "\<lambda>m e i n ss w y.
    (\<forall>j w ss. Q w ss \<longrightarrow> Q (fst (tick_session m e j ss w)) (snd (tick_session m e j ss w))) \<longrightarrow>
    (\<forall>w ss. Q w ss \<longrightarrow> Q (fst (loop_exit (ss ! i) w)) (ss[i := snd (loop_exit (ss ! i) w)])) \<longrightarrow>
    Q w ss \<longrightarrow> Q (fst y) (snd y)", OF _ assms])
  fix rec m e i n ss w y
  assume IH: "\<And>m e i n ss w y. rec m e i n ss w = Some y \<Longrightarrow>
      (\<forall>j w ss. Q w ss \<longrightarrow> Q (fst (tick_session m e j ss w)) (snd (tick_session m e j ss w))) \<longrightarrow>
      (\<forall>w ss. Q w ss \<longrightarrow> Q (fst (loop_exit (ss ! i) w)) (ss[i := snd (loop_exit (ss ! i) w)])) \<longrightarrow>
      Q w ss \<longrightarrow> Q (fst y) (snd y)"
    and eq: "(if rs_done (ss ! i) then Some (w, ss)
      else case env_late e n of None \<Rightarrow> let (w1, s) = loop_exit (ss ! i) w in Some (w1, ss[i := s])
        | Some j \<Rightarrow> let (w1, ss') = tick_session m e j ss w in rec m e i (Suc n) ss' w1) = Some y"
  show "(\<forall>j w ss. Q w ss \<longrightarrow> Q (fst (tick_session m e j ss w)) (snd (tick_session m e j ss w))) \<longrightarrow>
      (\<forall>w ss. Q w ss \<longrightarrow> Q (fst (loop_exit (ss ! i) w)) (ss[i := snd (loop_exit (ss ! i) w)])) \<longrightarrow>
      Q w ss \<longrightarrow> Q (fst y) (snd y)"
    using eq IH[of m e i "Suc n"]
    by (cases "rs_done (ss ! i)"; cases "env_late e n") (auto simp: case_prod_beta Let_def)
qed

lemma stopAndWait_inv:
  assumes "stopAndWait m e i ss w = Some y" and "Q w ss"
    and "\<And>j w ss. Q w ss \<Longrightarrow> Q (fst (tick_session m e j ss w)) (snd (tick_session m e j ss w))"
    and "\<And>w ss. Q w ss \<Longrightarrow> Q (fst (loop_exit (ss ! i) w)) (ss[i := snd (loop_exit (ss ! i) w)])"
    and "\<And>w ss k. Q w ss \<Longrightarrow> Q (unregisterRenewalCancel k w) (ss[i := (ss ! i)\<lparr>rs_canceled := True\<rparr>])"
  shows "Q (fst y) (snd y)"
  using await_done_inv[OF assms(1)[unfolded stopAndWait_def], of Q] assms(2-5) by blast

lemma stopAndWait_keeps:
  assumes "stopAndWait m e i ss w = Some (w', ss')"
  shows "ww_store w' = ww_store w" and "ww_tick w \<le> ww_tick w'" and "length ss' = length ss"
proof -
  let ?Q = "\<lambda>v (us :: renewalSession list). ww_store v = ww_store w \<and> ww_tick w \<le> ww_tick v \<and> length us = length ss"
  have "?Q (fst (w', ss')) (snd (w', ss'))"
    by (rule stopAndWait_inv[OF assms(1), of ?Q]) (auto intro: order_trans[OF _ tick_session_tick])
  then show "ww_store w' = ww_store w" and "ww_tick w \<le> ww_tick w'" and "length ss' = length ss" by auto
qed

lemma start_simps [simp]:
  "ww_store (fst (startLeaseRenewalWithMeta l ev w)) = ww_store w"
  "ww_driver (fst (startLeaseRenewalWithMeta l ev w)) = ww_driver w"
  "ww_tick (fst (startLeaseRenewalWithMeta l ev w)) = ww_tick w"
  by (simp_all add: startLeaseRenewalWithMeta_def registerRenewalCancel_def Let_def)

lemma run_callback_store:
  assumes "run_callback m e fn ctx cc ss n w = Some y" and "\<And>c cc n w. P (ww_store w) \<Longrightarrow> P (ww_store (fst (fn c cc n w)))"
    and "P (ww_store w)"
  shows "P (ww_store (fst y))"
  using run_callback_inv[OF assms(1), of "\<lambda>v _. P (ww_store v)"] assms(2,3) by auto

lemma releaseClaimLease_store [simp]: "ww_store (fst (releaseClaimLease m e c l w)) = ww_store w"
  and releaseClaimLease_tick: "ww_tick w \<le> ww_tick (fst (releaseClaimLease m e c l w))"
  by (simp_all add: releaseClaimLease_def call_wdriver_eq split: option.split)

lemma claim_acquire_store: "ww_store (fst (claim_acquire m e ctx cfg def plan ow rq w)) = ww_store w"
proof -
  have "ww_store (fst (acquireClaimLease m e c def plan ow w)) = ww_store w" for c w
    by (simp add: acquireClaimLease_def call_wdriver_eq split: option.split sum.split)
  then show ?thesis
    by (auto simp: claim_acquire_def Let_def worker_context_sim lift_world_def case_prod_beta split: sum.split)
qed

text \<open>
  The record of \<open>key\<close> is completed and visible from \<open>c\<close> until \<open>limit\<close>, which is at most a minute away.
\<close>

definition completed_in :: "('i \<Rightarrow> bool) \<Rightarrow> (time \<Rightarrow> 'i \<Rightarrow> records) \<Rightarrow> string \<Rightarrow> time \<Rightarrow> time \<Rightarrow> 'i \<Rightarrow> bool" where
  "completed_in I vis key limit c s \<longleftrightarrow> I s \<and> limit \<le> c + minute
     \<and> (\<forall>T. c \<le> T \<longrightarrow> T < limit \<longrightarrow> (\<exists>r. vis T s key = Some r \<and> rd_Status r = StatusCompleted))"

text \<open>The lease a claim has acquired is released with one driver call.\<close>

lemma acquired_release_tick:
  assumes "acquireClaimLease m e ctx def plan ow w = (w', Inr lease)"
  shows "ww_tick (fst (releaseClaimLease m e c lease v)) = Suc (ww_tick v)"
  using assms
  by (auto simp: acquireClaimLease_def releaseClaimLease_def call_wdriver_eq split: if_splits option.splits sum.splits)

lemma claim_acquire_release_tick:
  assumes "claim_acquire m e ctx cfg def plan ow rq w = (w', Inr lease)"
  shows "ww_tick (fst (releaseClaimLease m e c lease v)) = Suc (ww_tick v)"
  using assms acquired_release_tick
  by (auto simp: claim_acquire_def Let_def split: prod.splits sum.splits)

text \<open>A claim that returns without error has completed its idempotency record, just before the release.\<close>

context idempotency_store
begin

abbreviation "kept \<equiv> completed_in inv vis"

lemma claim_run_completes:
  assumes "wm_idempotency m = Some S" and "shouldUseIdempotency def req" and "inv (ww_store w)"
    and "\<And>c cc n w. inv (ww_store w) \<Longrightarrow> inv (ww_store (fst (fn c cc n w)))"
    and "claim_run m e ctx req def rk lease fn w = Some (w', None)"
    and "\<And>v. ww_tick (fst (releaseClaimLease m e background lease v)) = Suc (ww_tick v)"
  shows "2 \<le> ww_tick w' \<and> kept (mc_IdempotencyKey req) (env_clock e (ww_tick w' - 2) + minute) (env_clock e (ww_tick w' - 2)) (ww_store w')"
proof -
  let ?ev = "workerEvent (ld_ID def) rk (om_OwnerID (mc_Ownership req)) (mc_IdempotencyKey req)"
  obtain w1 session where w1: "startLeaseRenewalWithMeta lease ?ev w = (w1, session)" by fastforce
  then have s1: "ww_store w1 = ww_store w" using start_simps(1)[of lease ?ev w] by simp
  obtain w2 ss err where run: "run_callback m e fn ctx (claim_context def req rk lease) [session] 0 w1 = Some (w2, ss, err)"
    using assms(5) w1 by (auto simp: claim_run_def Let_def split: option.splits)
  obtain w3 ss' where stop: "stopAndWait m e 0 ss w2 = Some (w3, ss')"
    using assms(5) w1 run by (auto simp: claim_run_def Let_def split: option.splits)
  have "inv (ww_store (fst (w2, ss, err)))"
    by (rule run_callback_store[OF run, of inv]) (use assms(3,4) s1 in auto)
  then have i3: "inv (ww_store w3)" using stopAndWait_keeps(1)[OF stop] by simp
  have ok: "sessions_failure ss' = None" "err = None"
    and p: "persist_outcome m e def req None w3 = (fst (persist_outcome m e def req None w3), None)"
    using assms(5) w1 run stop
    by (auto simp: claim_run_def Let_def persist_outcome_def join_errs_def split: option.splits prod.splits)
  let ?t = "env_clock e (ww_tick w3)" and ?key = "mc_IdempotencyKey req"
  let ?ci = "\<lparr>ci_OwnerID = om_OwnerID (mc_Ownership req), ci_MessageID = om_MessageID (mc_Ownership req),
      ci_TTL = terminalTTL (ld_LeaseTTL def)\<rparr>"
  obtain s' where s': "st_Complete S background ?t (ww_store w3) ?key ?ci = (s', None)" "inv s'"
    "put_from vis ?t (ww_store w3) s' ?key (finished ?t ?key StatusCompleted (ci_OwnerID ?ci) (ci_MessageID ?ci) (ci_TTL ?ci)
        (vis ?t (ww_store w3) ?key))"
    using complete_law[OF i3, of background ?t ?ci] terminalTTL_pos by force
  let ?w5 = "w3\<lparr>ww_tick := Suc (ww_tick w3), ww_store := s'\<rparr>"
  have "persist_outcome m e def req None w3 = (?w5, None)"
    using s'(1) assms(1,2)
    by (simp add: persist_outcome_def persistTerminalIdempotency_def OutcomeFromError_def call_store_eq)
  then have w': "w' = wpublish m (PublishWorkerReleased ?ev) (fst (releaseClaimLease m e background lease ?w5))"
    using assms(5) w1 run ok stop by (simp add: claim_run_def Let_def case_prod_beta)
  then have "ww_tick w' = Suc (Suc (ww_tick w3))" using assms(6) by simp
  moreover have "\<exists>r. vis T (ww_store w') ?key = Some r \<and> rd_Status r = StatusCompleted" if "?t \<le> T" "T < ?t + minute" for T
    using s'(3) that terminalTTL_bounds(1)[of "ld_LeaseTTL def"] w' by (simp add: put_from_def finished_def)
  ultimately show ?thesis using s'(2) w' by (simp add: completed_in_def)
qed

lemma ExecuteClaimed_completes:
  assumes "wm_idempotency m = Some S" and "trim_space (mc_IdempotencyKey req) \<noteq> []" and "inv (ww_store w)"
    and "\<And>c cc n w. inv (ww_store w) \<Longrightarrow> inv (ww_store (fst (fn c cc n w)))"
    and "ExecuteClaimed m e ctx req fn w = Some (w', None)"
  shows "2 \<le> ww_tick w' \<and> kept (mc_IdempotencyKey req) (env_clock e (ww_tick w' - 2) + minute) (env_clock e (ww_tick w' - 2)) (ww_store w')"
proof -
  have use: "shouldUseIdempotency def req" for def using assms(2) by (simp add: shouldUseIdempotency_def)
  obtain def plan w1 where w1: "buildClaimAcquirePlan m e def (mc_KeyInput req) w = (w1, Inr plan)"
    and r: "map_option (map_prod worker_releaseInFlight id) (claim_admitted m e ctx req def plan fn
       (w1\<lparr>ww_inFlight := ww_inFlight w1 + 1\<rparr>)) = Some (w', None)"
    using assms(5) by (auto simp: ExecuteClaimed_def worker_tryAdmit_eq split: if_splits option.splits prod.splits sum.splits)
  have s1: "ww_store w1 = ww_store w"
    using w1 by (auto simp: buildClaimAcquirePlan_def Let_def split: if_splits sum.splits)
  let ?guard = "\<lparr>rk_definitionID = ld_ID def, rk_resourceKey = cp_resourceKey plan\<rparr>"
  let ?w2 = "w1\<lparr>ww_inFlight := ww_inFlight w1 + 1, ww_active := mput ?guard () (ww_active w1)\<rparr>"
  obtain w3 where w3: "claim_guarded m e ctx req def plan fn ?w2 = Some (w3, None)"
    and w': "w' = worker_releaseInFlight (remove_reentry ?guard w3)"
    using r by (auto simp: claim_admitted_def Let_def split: if_splits)
  obtain s4 n4 err where pre: "preAcquireIdempotency m e ctx def req ?w2 = Some (?w2\<lparr>ww_store := s4, ww_tick := n4\<rparr>, err)" "inv s4"
    using preAcquire_total[of ?w2 m e ctx def req] assms(1,3) s1 by auto
  let ?w4 = "?w2\<lparr>ww_store := s4, ww_tick := n4\<rparr>"
  obtain cfg w5 lease where acq: "claim_acquire m e ctx cfg def plan (om_OwnerID (mc_Ownership req)) (mc_IdempotencyKey req) ?w4 = (w5, Inr lease)"
    and run: "claim_run m e ctx req def (cp_resourceKey plan) lease fn w5 = Some (w3, None)"
    using w3 pre(1) by (auto simp: claim_guarded_def split: option.splits sum.splits prod.splits)
  have "inv (ww_store w5)"
    using claim_acquire_store[of m e ctx cfg def plan "om_OwnerID (mc_Ownership req)" "mc_IdempotencyKey req" ?w4] acq pre(2) by simp
  from claim_run_completes[where fn = fn, OF assms(1) use this assms(4) run claim_acquire_release_tick[OF acq]]
  show ?thesis using w' by (simp add: worker_releaseInFlight_def remove_reentry_def)
qed

end

section \<open>A completed record stays\<close>

text \<open>A callback, with whatever runs beside it, keeps the completed record.\<close>

definition callback_keeps ::
  "('i \<Rightarrow> bool) \<Rightarrow> (time \<Rightarrow> 'i \<Rightarrow> records) \<Rightarrow> string \<Rightarrow> time \<Rightarrow> Env \<Rightarrow> ('s, 'i) claim_fn \<Rightarrow> bool"
where
  "callback_keeps I vis key limit e fn \<longleftrightarrow>
     (\<forall>c cc n w. completed_in I vis key limit (env_clock e (ww_tick w)) (ww_store w) \<longrightarrow>
        completed_in I vis key limit (env_clock e (ww_tick (fst (fn c cc n w)))) (ww_store (fst (fn c cc n w)))
        \<and> ww_tick w \<le> ww_tick (fst (fn c cc n w)))"

context idempotency_store
begin

lemma kept_later: "kept key limit c s \<Longrightarrow> c \<le> c' \<Longrightarrow> kept key limit c' s"
  by (auto simp: completed_in_def)

lemma kept_same: "kept key limit c s \<Longrightarrow> c \<le> t \<Longrightarrow> inv s' \<Longrightarrow> same_from vis t s s' \<Longrightarrow> kept key limit t s'"
  by (auto simp: completed_in_def same_from_def)

lemma kept_put:
  assumes "kept key limit c s" and "c \<le> t" and "inv s'" and "put_from vis t s s' k r"
    and "k = key \<Longrightarrow> limit \<le> t \<or> rd_Status r = StatusCompleted \<and> t + minute \<le> rd_ExpiresAt r"
  shows "kept key limit t s'"
  using assms by (auto simp: completed_in_def put_from_def)

lemma kept_visible: "kept key limit c s \<Longrightarrow> c < limit \<Longrightarrow> \<exists>r. vis c s key = Some r \<and> rd_Status r = StatusCompleted"
  by (auto simp: completed_in_def)

text \<open>The world's record is kept at the world's next clock reading.\<close>

abbreviation "keptw key limit e w \<equiv> kept key limit (env_clock e (ww_tick w)) (ww_store w)"

lemma kept_call:
  assumes "mono (env_clock e)" and "kept key limit (env_clock e (ww_tick w)) s'"
  shows "keptw key limit e (w\<lparr>ww_tick := Suc (ww_tick w), ww_store := s'\<rparr>)"
  using kept_later[OF assms(2), of "env_clock e (Suc (ww_tick w))"] monoD[OF assms(1), of "ww_tick w" "Suc (ww_tick w)"] by simp

lemma keptw_tick: "keptw key limit e w \<Longrightarrow> mono (env_clock e) \<Longrightarrow> ww_store w' = ww_store w \<Longrightarrow> ww_tick w \<le> ww_tick w' \<Longrightarrow>
    keptw key limit e w'"
  using kept_later monoD by metis

lemma complete_kept:
  assumes "mono (env_clock e)" and "keptw key limit e w" and "minute \<le> ci_TTL ci"
  shows "\<exists>s'. call_store e (\<lambda>t s. st_Complete S background t s k ci) w = (w\<lparr>ww_tick := Suc (ww_tick w), ww_store := s'\<rparr>, None)
    \<and> keptw key limit e (w\<lparr>ww_tick := Suc (ww_tick w), ww_store := s'\<rparr>)"
proof -
  let ?t = "env_clock e (ww_tick w)"
  have "inv (ww_store w)" using assms(2) by (simp add: completed_in_def)
  with complete_law[of "ww_store w" background ?t ci k] assms(3)
  obtain s' where s': "st_Complete S background ?t (ww_store w) k ci = (s', None)" "inv s'"
    "put_from vis ?t (ww_store w) s' k (finished ?t k StatusCompleted (ci_OwnerID ci) (ci_MessageID ci) (ci_TTL ci) (vis ?t (ww_store w) k))"
    by (auto simp: duration_units)
  have "kept key limit ?t s'"
    by (rule kept_put[OF assms(2) _ s'(2,3)]) (use assms(3) in \<open>simp_all add: finished_def\<close>)
  then show ?thesis using s'(1) kept_call[OF assms(1)] by (intro exI[of _ s']) (simp add: call_store_eq)
qed

lemma fail_kept:
  assumes "mono (env_clock e)" and "keptw key limit e w" and "0 < fi_TTL fi" and "k = key \<Longrightarrow> limit \<le> env_clock e (ww_tick w)"
  shows "\<exists>s'. call_store e (\<lambda>t s. st_Fail S background t s k fi) w = (w\<lparr>ww_tick := Suc (ww_tick w), ww_store := s'\<rparr>, None)
    \<and> keptw key limit e (w\<lparr>ww_tick := Suc (ww_tick w), ww_store := s'\<rparr>)"
proof -
  let ?t = "env_clock e (ww_tick w)"
  have "inv (ww_store w)" using assms(2) by (simp add: completed_in_def)
  with fail_law[of "ww_store w" background ?t fi k] assms(3)
  obtain s' where s': "st_Fail S background ?t (ww_store w) k fi = (s', None)" "inv s'"
    "put_from vis ?t (ww_store w) s' k (finished ?t k StatusFailed (fi_OwnerID fi) (fi_MessageID fi) (fi_TTL fi) (vis ?t (ww_store w) k))"
    by auto
  have "kept key limit ?t s'" by (rule kept_put[OF assms(2) _ s'(2,3)]) (use assms(4) in simp_all)
  then show ?thesis using s'(1) kept_call[OF assms(1)] by (intro exI[of _ s']) (simp add: call_store_eq)
qed

lemma handle_visible_kept:
  assumes "mono (env_clock e)" and "keptw key limit e w" and "st \<in> {StatusInProgress, StatusCompleted, StatusFailed}"
    and "mc_IdempotencyKey req = key \<Longrightarrow> st = StatusCompleted \<or> limit \<le> env_clock e (ww_tick w)"
    and "handleIdempotencyRecord S e ctx def req st w = Some (w', err)"
  shows "keptw key limit e w' \<and> ww_tick w \<le> ww_tick w' \<and> err \<noteq> None"
proof -
  let ?c = "call_store e (\<lambda>t s. st_Complete S background t s (mc_IdempotencyKey req) \<lparr>ci_OwnerID = om_OwnerID (mc_Ownership req),
      ci_MessageID = om_MessageID (mc_Ownership req), ci_TTL = terminalTTL (ld_LeaseTTL def)\<rparr>) w"
  let ?f = "call_store e (\<lambda>t s. st_Fail S background t s (mc_IdempotencyKey req) \<lparr>fi_OwnerID = om_OwnerID (mc_Ownership req),
      fi_MessageID = om_MessageID (mc_Ownership req), fi_TTL = terminalTTL (ld_LeaseTTL def)\<rparr>) w"
  consider "st = StatusInProgress" | "st = StatusCompleted" | "st = StatusFailed" using assms(3) by blast
  then show ?thesis
  proof cases
    case 1
    then show ?thesis using assms(2,5) by (auto simp: handleIdempotencyRecord.simps)
  next
    case 2
    obtain s' where "?c = (w\<lparr>ww_tick := Suc (ww_tick w), ww_store := s'\<rparr>, None)"
      "keptw key limit e (w\<lparr>ww_tick := Suc (ww_tick w), ww_store := s'\<rparr>)"
      using complete_kept[OF assms(1,2)] terminalTTL_bounds(1) by force
    then show ?thesis using 2 assms(5) by (auto simp: handleIdempotencyRecord.simps)
  next
    case 3
    obtain s' where "?f = (w\<lparr>ww_tick := Suc (ww_tick w), ww_store := s'\<rparr>, None)"
      "keptw key limit e (w\<lparr>ww_tick := Suc (ww_tick w), ww_store := s'\<rparr>)"
      using fail_kept[OF assms(1,2)] terminalTTL_pos assms(4) 3 by force
    then show ?thesis using 3 assms(5) by (auto simp: handleIdempotencyRecord.simps)
  qed
qed

lemma handle_missing_kept:
  assumes "mono (env_clock e)" and "keptw key limit e w"
    and "mc_IdempotencyKey req = key \<Longrightarrow> limit \<le> env_clock e (ww_tick w)"
    and "handleIdempotencyRecord S e ctx def req StatusMissing w = Some (w', err)"
  shows "keptw key limit e w' \<and> ww_tick w \<le> ww_tick w'"
proof -
  let ?t = "env_clock e (ww_tick w)" and ?key = "mc_IdempotencyKey req"
  let ?i = "\<lparr>bi_OwnerID = om_OwnerID (mc_Ownership req), bi_MessageID = om_MessageID (mc_Ownership req),
     bi_ConsumerGroup = om_ConsumerGroup (mc_Ownership req), bi_Attempt = om_Attempt (mc_Ownership req),
     bi_TTL = inProgressTTL (ld_LeaseTTL def)\<rparr>"
  have i: "inv (ww_store w)" using assms(2) by (simp add: completed_in_def)
  note unfold = assms(4)[unfolded handleIdempotencyRecord.simps[of _ _ _ _ _ StatusMissing]]
  show ?thesis
  proof (cases "ctx_err ctx ?t")
    case (Some x)
    then have "st_Begin S ctx ?t (ww_store w) ?key ?i = (ww_store w, Inl x)"
      using refused_ctx[OF Some, of "ww_store w" ?key ?i] by blast
    then show ?thesis using unfold keptw_tick[OF assms(2,1), of "w\<lparr>ww_tick := Suc (ww_tick w)\<rparr>"] by (auto simp: call_store_eq)
  next
    case None
    obtain s' where s': "inv s'" "case vis ?t (ww_store w) ?key of
        Some r \<Rightarrow> st_Begin S ctx ?t (ww_store w) ?key ?i = (s', Inr \<lparr>br_Record = r, br_Acquired = False, br_Duplicate = True\<rparr>)
          \<and> same_from vis ?t (ww_store w) s'
      | None \<Rightarrow> st_Begin S ctx ?t (ww_store w) ?key ?i =
            (s', Inr \<lparr>br_Record = begun ?t ?key ?i, br_Acquired = True, br_Duplicate = False\<rparr>)
          \<and> put_from vis ?t (ww_store w) s' ?key (begun ?t ?key ?i)"
      using begin_law[OF i None, of ?i ?key] inProgressTTL_pos by auto
    let ?w = "w\<lparr>ww_tick := Suc (ww_tick w), ww_store := s'\<rparr>"
    show ?thesis
    proof (cases "vis ?t (ww_store w) ?key")
      case (Some r)
      have k: "keptw key limit e ?w" using kept_call[OF assms(1) kept_same[OF assms(2) order_refl s'(1)]] s'(2) Some by simp
      have "handleIdempotencyRecord S e ctx def req (rd_Status r) ?w = Some (w', err)"
        using unfold s'(2) Some by (simp add: call_store_eq)
      moreover have "limit \<le> env_clock e (ww_tick ?w)" if "?key = key"
        using assms(3)[OF that] monoD[OF assms(1), of "ww_tick w" "Suc (ww_tick w)"] by simp
      ultimately show ?thesis
        using handle_visible_kept[OF assms(1) k vis_status[OF i Some]] by force
    next
      case nov: None
      have "kept key limit ?t s'" by (rule kept_put[OF assms(2) order_refl s'(1)]) (use s'(2) nov assms(3) in auto)
      then have "keptw key limit e ?w" by (rule kept_call[OF assms(1)])
      then show ?thesis using unfold s'(2) nov by (auto simp: call_store_eq)
    qed
  qed
qed

text \<open>A claim for the key itself is let through only after the limit.\<close>

lemma preAcquire_kept:
  assumes "mono (env_clock e)" and "keptw key limit e w" and "wm_idempotency m = Some S"
    and "preAcquireIdempotency m e ctx def req w = Some (w', err)"
  shows "keptw key limit e w' \<and> ww_tick w \<le> ww_tick w' \<and>
    (err = None \<longrightarrow> shouldUseIdempotency def req \<longrightarrow> mc_IdempotencyKey req = key \<longrightarrow> limit \<le> env_clock e (ww_tick w'))"
proof (cases "shouldUseIdempotency def req")
  case False
  then show ?thesis using assms(2,4) by (simp add: preAcquireIdempotency_def)
next
  case True
  let ?t = "env_clock e (ww_tick w)" and ?key = "mc_IdempotencyKey req"
  have i: "inv (ww_store w)" using assms(2) by (simp add: completed_in_def)
  show ?thesis
  proof (cases "ctx_err ctx ?t")
    case (Some x)
    then have "st_Get S ctx ?t (ww_store w) ?key = (ww_store w, Inl x)" using refused_ctx[of ctx ?t x] by blast
    then show ?thesis using True assms(3,4) keptw_tick[OF assms(2,1), of "w\<lparr>ww_tick := Suc (ww_tick w)\<rparr>"]
      by (auto simp: preAcquireIdempotency_def call_store_eq)
  next
    case None
    let ?r = "case vis ?t (ww_store w) ?key of Some r \<Rightarrow> r | None \<Rightarrow> missing_record ?key"
    obtain s1 where s1: "st_Get S ctx ?t (ww_store w) ?key = (s1, Inr ?r)" "inv s1" "same_from vis ?t (ww_store w) s1"
      using get_law[OF i None] by blast
    let ?w = "w\<lparr>ww_tick := Suc (ww_tick w), ww_store := s1\<rparr>"
    have k: "keptw key limit e ?w" by (rule kept_call[OF assms(1) kept_same[OF assms(2) order_refl s1(2,3)]])
    have eq: "handleIdempotencyRecord S e ctx def req (rd_Status ?r) ?w = Some (w', err)"
      using True assms(3,4) s1(1) by (simp add: preAcquireIdempotency_def call_store_eq)
    have le: "env_clock e i \<le> env_clock e j" if "i \<le> j" for i j using monoD[OF assms(1) that] .
    have own: "limit \<le> ?t \<or> (\<exists>r. vis ?t (ww_store w) ?key = Some r \<and> rd_Status r = StatusCompleted)" if "?key = key"
      using kept_visible[OF assms(2)] that by (meson not_le)
    show ?thesis
    proof (cases "vis ?t (ww_store w) ?key")
      case n: None
      have "limit \<le> env_clock e (ww_tick ?w)" if "?key = key" using own[OF that] n le[of "ww_tick w" "Suc (ww_tick w)"] by simp
      from handle_missing_kept[OF assms(1) k this] eq n have h: "keptw key limit e w'" "ww_tick ?w \<le> ww_tick w'"
        by (auto simp: missing_record_def)
      moreover have "limit \<le> env_clock e (ww_tick w')" if "?key = key"
        using own[OF that] n le[of "ww_tick w" "ww_tick w'"] h(2) by simp
      ultimately show ?thesis by simp
    next
      case (Some r)
      have "rd_Status r = StatusCompleted \<or> limit \<le> env_clock e (ww_tick ?w)" if "?key = key"
        using own[OF that] Some le[of "ww_tick w" "Suc (ww_tick w)"] by auto
      moreover have "handleIdempotencyRecord S e ctx def req (rd_Status r) ?w = Some (w', err)" using eq Some by simp
      ultimately have "keptw key limit e w' \<and> ww_tick ?w \<le> ww_tick w' \<and> err \<noteq> None"
        by (intro handle_visible_kept[OF assms(1) k vis_status[OF i Some]])
      then show ?thesis by auto
    qed
  qed
qed

lemma persist_outcome_kept:
  assumes "mono (env_clock e)" and "keptw key limit e w" and "wm_idempotency m = Some S"
    and "shouldUseIdempotency def req \<Longrightarrow> mc_IdempotencyKey req = key \<Longrightarrow> limit \<le> env_clock e (ww_tick w)"
  shows "keptw key limit e (fst (persist_outcome m e def req ce w)) \<and> ww_tick w \<le> ww_tick (fst (persist_outcome m e def req ce w))"
proof -
  obtain s1 where s1: "call_store e (\<lambda>t s. st_Complete S background t s (mc_IdempotencyKey req) \<lparr>ci_OwnerID = om_OwnerID (mc_Ownership req),
      ci_MessageID = om_MessageID (mc_Ownership req), ci_TTL = terminalTTL (ld_LeaseTTL def)\<rparr>) w
        = (w\<lparr>ww_tick := Suc (ww_tick w), ww_store := s1\<rparr>, None)"
      "keptw key limit e (w\<lparr>ww_tick := Suc (ww_tick w), ww_store := s1\<rparr>)"
    using complete_kept[OF assms(1,2)] terminalTTL_bounds(1) by force
  show ?thesis
  proof (cases "shouldUseIdempotency def req")
    case True
    obtain s2 where s2: "call_store e (\<lambda>t s. st_Fail S background t s (mc_IdempotencyKey req) \<lparr>fi_OwnerID = om_OwnerID (mc_Ownership req),
        fi_MessageID = om_MessageID (mc_Ownership req), fi_TTL = terminalTTL (ld_LeaseTTL def)\<rparr>) w
          = (w\<lparr>ww_tick := Suc (ww_tick w), ww_store := s2\<rparr>, None)"
        "keptw key limit e (w\<lparr>ww_tick := Suc (ww_tick w), ww_store := s2\<rparr>)"
      using fail_kept[OF assms(1,2) _ assms(4)[OF True]] terminalTTL_pos by force
    then show ?thesis using s1 assms(2,3) True
      by (cases "OutcomeFromError ce") (simp_all add: persist_outcome_def persistTerminalIdempotency_def)
  qed (use assms(2) in \<open>simp add: persist_outcome_def persistTerminalIdempotency_def split: option.split\<close>)
qed

lemma claim_run_kept:
  assumes "mono (env_clock e)" and "keptw key limit e w" and "wm_idempotency m = Some S"
    and "callback_keeps inv vis key limit e fn"
    and "shouldUseIdempotency def req \<Longrightarrow> mc_IdempotencyKey req = key \<Longrightarrow> limit \<le> env_clock e (ww_tick w)"
    and "claim_run m e ctx req def rk lease fn w = Some (w', err)"
  shows "keptw key limit e w' \<and> ww_tick w \<le> ww_tick w'"
proof -
  let ?ev = "workerEvent (ld_ID def) rk (om_OwnerID (mc_Ownership req)) (mc_IdempotencyKey req)"
  let ?Q = "\<lambda>v (us :: renewalSession list). keptw key limit e v \<and> ww_tick w \<le> ww_tick v"
  obtain w1 session where w1: "startLeaseRenewalWithMeta lease ?ev w = (w1, session)" by fastforce
  then have q1: "?Q w1 [session]" using start_simps(1,3)[of lease ?ev w] assms(2) by simp
  obtain w2 ss ce where run: "run_callback m e fn ctx (claim_context def req rk lease) [session] 0 w1 = Some (w2, ss, ce)"
    using assms(6) w1 by (auto simp: claim_run_def Let_def split: option.splits)
  obtain w3 ss' where stop: "stopAndWait m e 0 ss w2 = Some (w3, ss')"
    using assms(6) w1 run by (auto simp: claim_run_def Let_def split: option.splits)
  have fn: "\<forall>c cc n v us. ?Q v us \<longrightarrow> ?Q (fst (fn c cc n v)) us"
    using assms(4) order_trans unfolding callback_keeps_def by meson
  have tick: "\<forall>j v us. ?Q v us \<longrightarrow> ?Q (fst (tick_session m e j us v)) (snd (tick_session m e j us v))"
    using keptw_tick[OF _ assms(1) tick_session_store tick_session_tick] order_trans[OF _ tick_session_tick] by blast
  have "?Q w2 ss" using run_callback_inv[OF run, of ?Q] fn tick q1 by simp
  then have q3: "?Q w3 ss'"
    using keptw_tick[OF _ assms(1) stopAndWait_keeps(1,2)[OF stop]] stopAndWait_keeps(2)[OF stop] by simp
  obtain w4 ce' where w4: "(case sessions_failure ss' of None \<Rightarrow> (w3, ce)
      | Some renewErr \<Rightarrow> (wpublish m (PublishWorkerLeaseLost ?ev) w3, Some renewErr)) = (w4, ce')" by fastforce
  then have q4: "?Q w4 []" using q3 by (auto split: option.splits)
  let ?w5 = "fst (persist_outcome m e def req ce' w4)"
  have "limit \<le> env_clock e (ww_tick w4)" if "shouldUseIdempotency def req" "mc_IdempotencyKey req = key"
    using assms(5)[OF that] monoD[OF assms(1), of "ww_tick w" "ww_tick w4"] q4 by simp
  from persist_outcome_kept[OF assms(1) _ assms(3) this] q4
  have q5: "keptw key limit e ?w5 \<and> ww_tick w \<le> ww_tick ?w5" by (meson order_trans)
  have "w' = wpublish m (PublishWorkerReleased ?ev) (fst (releaseClaimLease m e background lease ?w5))"
    using assms(6) w1 run stop w4 by (simp add: claim_run_def Let_def split: prod.splits)
  then show ?thesis
    using q5 keptw_tick[OF _ assms(1), of key limit ?w5 w'] releaseClaimLease_tick[of ?w5 m e background lease] by auto
qed

lemma claim_acquire_tick: "ww_tick w \<le> ww_tick (fst (claim_acquire m e ctx cfg def plan ow rq w))"
proof -
  have "ww_tick w \<le> ww_tick (fst (acquireClaimLease m e c def plan ow w))" for c w
    by (simp add: acquireClaimLease_def call_wdriver_eq split: option.split sum.split)
  moreover have "ww_tick w \<le> ww_tick (snd (worker_contextWithAcquireTimeout e ctx cfg w))"
    by (simp add: worker_contextWithAcquireTimeout_def wtime_now_def Let_def split: option.split)
  ultimately have "ww_tick w \<le> ww_tick (fst (acquireClaimLease m e c def plan ow
      (wpublish m ev (snd (worker_contextWithAcquireTimeout e ctx cfg w)))))" for c ev
    by (metis order_trans wpublish_simps(3))
  then show ?thesis by (simp add: claim_acquire_def Let_def case_prod_beta split: sum.split)
qed

lemma ExecuteClaimed_kept:
  assumes "mono (env_clock e)" and "keptw key limit e w" and "wm_idempotency m = Some S"
    and "callback_keeps inv vis key limit e fn" and "ExecuteClaimed m e ctx req fn w = Some (w', err)"
  shows "keptw key limit e w'"
proof -
  have g: "keptw key limit e v'" if k: "keptw key limit e v" and r: "claim_guarded m e ctx req def plan fn v = Some (v', x)" for def plan v v' x
  proof -
    obtain v1 y where pre: "preAcquireIdempotency m e ctx def req v = Some (v1, y)"
      using r by (auto simp: claim_guarded_def split: option.splits)
    note p = preAcquire_kept[OF assms(1) k assms(3) pre]
    have acq: "keptw key limit e v2 \<and> (shouldUseIdempotency def req \<longrightarrow> mc_IdempotencyKey req = key \<longrightarrow> limit \<le> env_clock e (ww_tick v2))"
      if "claim_acquire m e ctx cfg def plan (om_OwnerID (mc_Ownership req)) (mc_IdempotencyKey req) v1 = (v2, z)" "y = None" for cfg v2 z
    proof -
      have s: "ww_store v2 = ww_store v1" "ww_tick v1 \<le> ww_tick v2"
        using claim_acquire_store[of m e ctx cfg def plan "om_OwnerID (mc_Ownership req)" "mc_IdempotencyKey req" v1]
          claim_acquire_tick[of v1 m e ctx cfg def plan "om_OwnerID (mc_Ownership req)" "mc_IdempotencyKey req"] that(1) by simp_all
      then show ?thesis using p that(2) keptw_tick[OF _ assms(1) s] monoD[OF assms(1) s(2)] order_trans by blast
    qed
    show ?thesis
    proof (cases "y = None \<and> \<not> isl (applyWorkerOverrides def (mc_Overrides req))")
      case True
      then obtain cfg where cfg: "applyWorkerOverrides def (mc_Overrides req) = Inr cfg"
        by (cases "applyWorkerOverrides def (mc_Overrides req)") auto
      obtain v2 z where z: "claim_acquire m e ctx cfg def plan (om_OwnerID (mc_Ownership req)) (mc_IdempotencyKey req) v1 = (v2, z)"
        by fastforce
      from acq[OF z] True have k2: "keptw key limit e v2"
        "shouldUseIdempotency def req \<Longrightarrow> mc_IdempotencyKey req = key \<Longrightarrow> limit \<le> env_clock e (ww_tick v2)" by auto
      show ?thesis
      proof (cases z)
        case (Inl x')
        then show ?thesis using r pre True cfg z k2 by (simp add: claim_guarded_def)
      next
        case (Inr lease)
        then have "claim_run m e ctx req def (cp_resourceKey plan) lease fn v2 = Some (v', x)"
          using r pre True cfg z by (simp add: claim_guarded_def)
        from claim_run_kept[OF assms(1) k2(1) assms(3,4) k2(2) this] show ?thesis by simp
      qed
    next
      case False
      then have "v' = v1" using r pre by (auto simp: claim_guarded_def split: option.splits sum.splits)
      then show ?thesis using p by simp
    qed
  qed
  have a: "keptw key limit e v'" if k: "keptw key limit e v" and r: "claim_admitted m e ctx req def plan fn v = Some (v', x)" for def plan v v' x
  proof (cases "mget (ww_active v) \<lparr>rk_definitionID = ld_ID def, rk_resourceKey = cp_resourceKey plan\<rparr>")
    case None
    let ?v = "v\<lparr>ww_active := mput \<lparr>rk_definitionID = ld_ID def, rk_resourceKey = cp_resourceKey plan\<rparr> () (ww_active v)\<rparr>"
    have "keptw key limit e ?v" using k by simp
    from g[OF this] r None show ?thesis by (auto simp: claim_admitted_def Let_def remove_reentry_def)
  qed (use k r in \<open>auto simp: claim_admitted_def Let_def\<close>)
  show ?thesis
  proof (cases "ww_shuttingDown w \<or> Get (wm_registry m) (mc_DefinitionID req) = None")
    case True
    then show ?thesis using assms(2,5) by (auto simp: ExecuteClaimed_def split: if_splits)
  next
    case False
    then obtain def where def: "Get (wm_registry m) (mc_DefinitionID req) = Some def" "\<not> ww_shuttingDown w" by auto
    obtain w1 z where z: "buildClaimAcquirePlan m e def (mc_KeyInput req) w = (w1, z)" by fastforce
    then have w1: "ww_store w1 = ww_store w" "ww_tick w1 = ww_tick w" "ww_shuttingDown w1 = ww_shuttingDown w"
      by (auto simp: buildClaimAcquirePlan_def Let_def split: if_splits sum.splits)
    then have "keptw key limit e (w1\<lparr>ww_inFlight := ww_inFlight w1 + 1\<rparr>)" using assms(2) by simp
    from a[OF this] show ?thesis using assms(2,5) def z w1
      by (auto simp: ExecuteClaimed_def worker_tryAdmit_eq worker_releaseInFlight_def split: option.splits sum.splits)
  qed
qed

end

section \<open>Claims return\<close>

text \<open>
  A callback returns when, in whatever worlds and contexts its segments run, one of them returns. The
  scheduler is fair when a loop that is waited for takes its cancellation at some step.
\<close>

definition callback_returns :: "('s, 'i) claim_fn \<Rightarrow> bool" where
  "callback_returns fn \<longleftrightarrow> (\<forall>cs cc ws. \<exists>n w' err. fn (cs n) cc n (ws n) = (w', Return err))"

definition fair_env :: "Env \<Rightarrow> bool" where
  "fair_env e \<longleftrightarrow> (\<forall>n. \<exists>n' \<ge> n. env_late e n' = None)"

fun callback_trace ::
  "('s, 'i) WorkerManager \<Rightarrow> Env \<Rightarrow> ('s, 'i) claim_fn \<Rightarrow> go_ctx \<Rightarrow> ClaimContext \<Rightarrow> renewalSession list
    \<Rightarrow> ('s, 'i) wworld \<Rightarrow> nat \<Rightarrow> ('s, 'i) wworld \<times> renewalSession list"
where
  "callback_trace m e fn ctx cc ss w 0 = (w, ss)"
| "callback_trace m e fn ctx cc ss w (Suc n) =
     (let (v, us) = callback_trace m e fn ctx cc ss w n in
      case fn (callback_ctx ctx us) cc n v of
        (v1, Tick j) \<Rightarrow> tick_session m e j us v1
      | (v1, Return _) \<Rightarrow> (v1, us))"

lemma run_callback_returns:
  assumes "callback_returns fn"
  shows "\<exists>y. run_callback m e fn ctx cc ss 0 w = Some y"
proof -
  let ?tr = "callback_trace m e fn ctx cc ss w"
  obtain n w' err where n: "fn (callback_ctx ctx (snd (?tr n))) cc n (fst (?tr n)) = (w', Return err)"
    using assms[unfolded callback_returns_def, rule_format,
        of "\<lambda>n. callback_ctx ctx (snd (?tr n))" cc "\<lambda>n. fst (?tr n)"] by blast
  have "\<exists>y. run_callback m e fn ctx cc (snd (?tr k)) k (fst (?tr k)) = Some y" if "k \<le> n" for k
    using that
  proof (induction rule: inc_induct)
    case base
    then show ?case using n by (subst run_callback.simps) simp
  next
    case (step k)
    obtain v us where tr: "?tr k = (v, us)" by fastforce
    show ?case
    proof (cases "snd (fn (callback_ctx ctx us) cc k v)")
      case (Return err)
      then show ?thesis using tr by (subst run_callback.simps) (simp add: case_prod_beta)
    next
      case (Tick j)
      then have "?tr (Suc k) = tick_session m e j us (fst (fn (callback_ctx ctx us) cc k v))"
        using tr by (simp add: case_prod_beta split: cb_step.split)
      with step.IH show ?thesis using tr Tick by (subst run_callback.simps) (simp add: case_prod_beta)
    qed
  qed
  from this[of 0] show ?thesis by simp
qed

lemma await_done_returns:
  assumes "fair_env e"
  shows "\<exists>y. await_done m e i n ss w = Some y"
proof -
  obtain n' where n': "n \<le> n'" "env_late e n' = None" using assms by (auto simp: fair_env_def)
  from n'(1) show ?thesis
  proof (induction arbitrary: ss w rule: inc_induct)
    case base
    then show ?case using n'(2) by (subst await_done.simps) (simp add: case_prod_beta Let_def)
  next
    case (step k)
    then show ?case by (subst await_done.simps) (simp add: case_prod_beta Let_def split: option.split)
  qed
qed

lemma stopAndWait_returns: "fair_env e \<Longrightarrow> \<exists>w' ss'. stopAndWait m e i ss w = Some (w', ss')"
  using await_done_returns[of e m i "ww_tick w"] by (fastforce simp: stopAndWait_def)

lemma stop_sessions_returns: "fair_env e \<Longrightarrow> \<exists>w' ss'. stop_sessions m e k ss w = Some (w', ss')"
proof (induction k arbitrary: ss w)
  case (Suc k)
  obtain w1 ss1 where "stopAndWait m e k ss w = Some (w1, ss1)" using stopAndWait_returns[OF Suc.prems] by blast
  with Suc.IH[OF Suc.prems] show ?case by simp
qed simp

lemma claim_run_returns:
  assumes "callback_returns fn" and "fair_env e"
  shows "\<exists>y. claim_run m e ctx req def rk lease fn w = Some y"
proof -
  let ?ev = "workerEvent (ld_ID def) rk (om_OwnerID (mc_Ownership req)) (mc_IdempotencyKey req)"
  obtain w1 session where w1: "startLeaseRenewalWithMeta lease ?ev w = (w1, session)" by fastforce
  obtain w2 ss err where run: "run_callback m e fn ctx (claim_context def req rk lease) [session] 0 w1 = Some (w2, ss, err)"
    using run_callback_returns[OF assms(1)] by (metis prod_cases3)
  obtain w3 ss' where "stopAndWait m e 0 ss w2 = Some (w3, ss')" using stopAndWait_returns[OF assms(2)] by blast
  then show ?thesis using w1 run by (simp add: claim_run_def Let_def case_prod_beta)
qed

lemma composite_claim_run_returns:
  assumes "callback_returns fn" and "fair_env e"
  shows "\<exists>y. composite_claim_run m e ctx req def acquired fn w = Some y"
proof -
  let ?ss = "start_sessions (map (\<lambda>(member, lease). (lease, claim_event req member)) acquired) w"
  obtain w2 ss err where run: "run_callback m e fn ctx (buildCompositeClaimContext req acquired) (snd ?ss) 0 (fst ?ss) = Some (w2, ss, err)"
    using run_callback_returns[OF assms(1)] by (metis prod_cases3)
  obtain w3 ss' where "stop_sessions m e (length ss) ss w2 = Some (w3, ss')" using stop_sessions_returns[OF assms(2)] by blast
  then show ?thesis using run by (simp add: composite_claim_run_def Let_def case_prod_beta)
qed

lemma buildClaimAcquirePlan_store [simp]: "ww_store (fst (buildClaimAcquirePlan m e def inp w)) = ww_store w"
  by (simp add: buildClaimAcquirePlan_def Let_def split: sum.split)

lemma resolve_claim_members_store: "ww_store (fst (resolve_claim_members m e ms acc w)) = ww_store w"
proof (induction m e ms acc w rule: resolve_claim_members.induct)
  case (2 m e memberID input ms acc w)
  show ?case
  proof (cases "Get (wm_registry m) memberID")
    case (Some d)
    obtain w1 r where b: "buildClaimAcquirePlan m e d input w = (w1, r)" by fastforce
    then have "ww_store w1 = ww_store w" using buildClaimAcquirePlan_store[of m e d input w] by simp
    then show ?thesis using 2[OF Some] Some b by (auto simp: Let_def split: sum.split)
  qed simp
qed simp

lemma install_reentry_store: "ww_store (fst (install_reentry gs w)) = ww_store w"
  by (induction gs w rule: install_reentry.induct) auto

context idempotency_store
begin

lemma ExecuteClaimed_returns:
  assumes "inv (ww_store w)" and "wm_idempotency m = Some S \<or> wm_idempotency m = None"
    and "callback_returns fn" and "fair_env e"
  shows "\<exists>y. ExecuteClaimed m e ctx req fn w = Some y"
proof -
  have g: "\<exists>y. claim_guarded m e ctx req def plan fn w = Some y" if i: "inv (ww_store w)" for def plan w
  proof -
    obtain s' n err where "preAcquireIdempotency m e ctx def req w = Some (w\<lparr>ww_store := s', ww_tick := n\<rparr>, err)"
      using preAcquire_total[OF i assms(2)] by blast
    then show ?thesis using claim_run_returns[OF assms(3,4)]
      by (simp add: claim_guarded_def split: option.split sum.split prod.split)
  qed
  have a: "\<exists>y. claim_admitted m e ctx req def plan fn w = Some y" if "inv (ww_store w)" for def plan w
  proof -
    let ?guard = "\<lparr>rk_definitionID = ld_ID def, rk_resourceKey = cp_resourceKey plan\<rparr>"
    from g[of "w\<lparr>ww_active := mput ?guard () (ww_active w)\<rparr>" def plan] that show ?thesis
      by (auto simp: claim_admitted_def Let_def)
  qed
  show ?thesis
  proof (cases "Get (wm_registry m) (mc_DefinitionID req)")
    case (Some def)
    obtain w1 r where r: "buildClaimAcquirePlan m e def (mc_KeyInput req) w = (w1, r)" by fastforce
    with buildClaimAcquirePlan_store[of m e def "mc_KeyInput req" w] assms(1)
    have "inv (ww_store (w1\<lparr>ww_inFlight := ww_inFlight w1 + 1\<rparr>))" by simp
    from a[OF this] Some r show ?thesis
      by (auto simp: ExecuteClaimed_def worker_tryAdmit_eq split: option.split sum.split) meson
  qed (simp add: ExecuteClaimed_def)
qed

lemma ExecuteCompositeClaimed_returns:
  assumes "inv (ww_store w)" and "wm_idempotency m = Some S \<or> wm_idempotency m = None"
    and "callback_returns fn" and "fair_env e"
  shows "\<exists>y. ExecuteCompositeClaimed m e ctx req fn w = Some y"
proof -
  have g: "\<exists>y. composite_claim_guarded m e ctx req def plan cfgs plans fn w = Some y" if i: "inv (ww_store w)" for def plan cfgs plans w
  proof -
    obtain s' n err where "preAcquireIdempotency m e ctx def (exec_request req) w = Some (w\<lparr>ww_store := s', ww_tick := n\<rparr>, err)"
      using preAcquire_total[OF i assms(2)] by blast
    then show ?thesis using composite_claim_run_returns[OF assms(3,4)]
      by (fastforce simp: composite_claim_guarded_def split: option.split prod.split)
  qed
  have a: "\<exists>y. composite_claim_admitted m e ctx req def plan cfgs plans fn w = Some y" if "inv (ww_store w)" for def plan cfgs plans w
  proof -
    let ?gs = "map (\<lambda>member. \<lparr>rk_definitionID = ld_ID (mp_Definition member), rk_resourceKey = mp_ResourceKey member\<rparr>) plan"
    obtain w1 ok where i: "install_reentry ?gs w = (w1, ok)" by fastforce
    with install_reentry_store[of ?gs w] that have "inv (ww_store w1)" by simp
    from g[OF this, of def plan cfgs plans] i show ?thesis
      by (cases ok) (auto simp: composite_claim_admitted_def Let_def)
  qed
  have "\<exists>y. map_option (map_prod worker_releaseInFlight id) (composite_claim_admitted m e ctx req def plan cfgs plans fn
      (w1\<lparr>ww_inFlight := ww_inFlight w1 + 1\<rparr>)) = Some y"
    if "resolve_claim_members m e ms acc w = (w1, x)" for w1 x ms acc def plan cfgs plans
    using a[of "w1\<lparr>ww_inFlight := ww_inFlight w1 + 1\<rparr>" def plan cfgs plans] resolve_claim_members_store[of m e ms acc w] that assms(1)
    by auto
  then show ?thesis
    by (simp add: ExecuteCompositeClaimed_def worker_tryAdmit_eq Let_def split: option.split sum.split prod.split)
qed

end

section \<open>Claims run under their lease\<close>

text \<open>Two callbacks that agree from segment \<open>k\<close> on cannot be told apart by a run that starts there.\<close>

lemma run_callback_mono_fn:
  assumes "run_callback m e fn ctx cc ss n w = Some y" and "\<And>c cc n w. 0 < n \<Longrightarrow> fn c cc n w = gn c cc n w" and "0 < n"
  shows "run_callback m e gn ctx cc ss n w = Some y"
proof -
  have "(\<forall>c cc n w. 0 < n \<longrightarrow> fn c cc n w = gn c cc n w) \<longrightarrow> 0 < n \<longrightarrow> run_callback m e gn ctx cc ss n w = Some y"
  proof (rule run_callback.raw_induct[where P = "\<lambda>m e fn ctx cc ss n w y. (\<forall>c cc n w. 0 < n \<longrightarrow> fn c cc n w = gn c cc n w)
      \<longrightarrow> 0 < n \<longrightarrow> run_callback m e gn ctx cc ss n w = Some y", OF _ assms(1)])
    fix rec m e fn ctx cc ss n w y
    assume IH: "\<And>m e fn ctx cc ss n w y. rec m e fn ctx cc ss n w = Some y \<Longrightarrow>
        (\<forall>c cc n w. 0 < n \<longrightarrow> fn c cc n w = gn c cc n w) \<longrightarrow> 0 < n \<longrightarrow> run_callback m e gn ctx cc ss n w = Some y"
      and eq: "(let (w1, step) = fn (callback_ctx ctx ss) cc n w in
         case step of Tick j \<Rightarrow> let (w2, ss') = tick_session m e j ss w1 in rec m e fn ctx cc ss' (Suc n) w2
         | Return err \<Rightarrow> Some (w1, ss, err)) = Some y"
    show "(\<forall>c cc n w. 0 < n \<longrightarrow> fn c cc n w = gn c cc n w) \<longrightarrow> 0 < n \<longrightarrow> run_callback m e gn ctx cc ss n w = Some y"
    proof (intro impI)
      assume p: "\<forall>c cc n w. 0 < n \<longrightarrow> fn c cc n w = gn c cc n w" and n: "0 < n"
      obtain w1 st where fn: "fn (callback_ctx ctx ss) cc n w = (w1, st)" by fastforce
      then have gn: "gn (callback_ctx ctx ss) cc n w = (w1, st)" using p n by metis
      show "run_callback m e gn ctx cc ss n w = Some y"
      proof (cases st)
        case (Return err)
        then show ?thesis using eq fn gn by (subst run_callback.simps) simp
      next
        case (Tick j)
        obtain w2 ss2 where t: "tick_session m e j ss w1 = (w2, ss2)" by fastforce
        have "rec m e fn ctx cc ss2 (Suc n) w2 = Some y" using eq fn Tick t by simp
        from IH[OF this] p gn Tick t show ?thesis by (subst run_callback.simps) simp
      qed
    qed
  qed
  then show ?thesis using assms(2,3) by simp
qed

lemma run_callback_cong:
  assumes "fn (callback_ctx ctx ss) cc 0 w = gn (callback_ctx ctx ss) cc 0 w"
    and "\<And>c cc n w. 0 < n \<Longrightarrow> fn c cc n w = gn c cc n w"
  shows "run_callback m e fn ctx cc ss 0 w = run_callback m e gn ctx cc ss 0 w"
proof -
  have "run_callback m e fn ctx cc ss' (Suc 0) w' = run_callback m e gn ctx cc ss' (Suc 0) w'" for ss' w'
  proof (cases "run_callback m e fn ctx cc ss' (Suc 0) w'")
    case None
    then show ?thesis using run_callback_mono_fn[of m e gn ctx cc ss' "Suc 0" w' _ fn] assms(2)
      by (metis not_Some_eq zero_less_Suc)
  qed (use run_callback_mono_fn[of m e fn ctx cc ss' "Suc 0" w' _ gn] assms(2) in simp)
  then show ?thesis
    by (subst (1 2) run_callback.simps) (simp add: assms(1) split: prod.split cb_step.split)
qed

context lock_driver
begin

lemma claim_acquire_granted:
  assumes "wm_driver m = D" and "inv (ww_driver w)" and "claim_acquire m e ctx cfg def plan ow rq w = (w', Inr lease)"
  shows "inv (ww_driver w') \<and> 0 < ww_tick w' \<and> granted slot holds (env_clock e (ww_tick w' - 1)) (ww_driver w) (ww_driver w')
    (ld_ID def) [cp_resourceKey plan] ow (rl_lease lease)"
proof -
  let ?ev = "workerEvent (ld_ID def) (cp_resourceKey plan) ow rq"
  obtain c w1 where c: "worker_contextWithAcquireTimeout e ctx cfg w = (c, w1)" by fastforce
  then have d1: "ww_driver w1 = ww_driver w"
    by (auto simp: worker_contextWithAcquireTimeout_def wtime_now_def Let_def split: if_splits option.splits)
  let ?w2 = "wpublish m (PublishWorkerAcquireStarted ?ev) w1"
  from assms(3) c obtain w3 where w3: "acquireClaimLease m e c def plan ow ?w2 = (w3, Inr lease)"
    and w': "w' = wpublish m (PublishWorkerAcquireSucceeded ?ev) w3"
    by (auto simp: claim_acquire_def Let_def split: prod.splits sum.splits)
  obtain v r where v: "acquireLease (as_manager m) e c def (as_plan plan) ow (as_world ?w2) = (v, r)" by fastforce
  with w3 acquireClaimLease_sim[of m e c def plan ow ?w2]
  have r: "r = Inr (as_held lease)" "w3 = lift_world ?w2 v" by auto
  have "mg_driver (as_manager m) = D" "inv (w_driver (as_world ?w2))" using assms(1,2) d1 by (simp_all add: as_manager_def as_world_def)
  from acquireLease_granted[OF this v[unfolded r]] show ?thesis
    using w' r d1 by (simp add: lift_world_def as_world_def as_plan_def as_held_def)
qed

lemma claim_guarded_under_lease:
  assumes "wm_driver m = D" and "inv (ww_driver w)"
    and "\<And>c cc n w'. 0 < n \<or> inv (ww_driver w') \<and> 0 < ww_tick w' \<and>
      holds (env_clock e (ww_tick w' - 1)) (ww_driver w') (slot (cx_DefinitionID cc) (cx_ResourceKey cc))
        = Some (om_OwnerID (cx_Ownership cc)) \<Longrightarrow> fn c cc n w' = gn c cc n w'"
    and "\<And>w'. preAcquireIdempotency m e ctx def req w = Some (w', None) \<Longrightarrow> ww_driver w' = ww_driver w"
  shows "claim_guarded m e ctx req def plan fn w = claim_guarded m e ctx req def plan gn w"
proof -
  let ?ow = "om_OwnerID (mc_Ownership req)"
  have run: "claim_run m e ctx req def (cp_resourceKey plan) lease fn w2 = claim_run m e ctx req def (cp_resourceKey plan) lease gn w2"
    if "claim_acquire m e ctx cfg def plan ?ow (mc_IdempotencyKey req) w1 = (w2, Inr lease)" "inv (ww_driver w1)" for cfg lease w1 w2
  proof -
    let ?ev = "workerEvent (ld_ID def) (cp_resourceKey plan) ?ow (mc_IdempotencyKey req)"
    let ?cc = "claim_context def req (cp_resourceKey plan) lease"
    obtain w3 session where w3: "startLeaseRenewalWithMeta lease ?ev w2 = (w3, session)" by fastforce
    then have eq: "ww_driver w3 = ww_driver w2" "ww_tick w3 = ww_tick w2" using start_simps(2,3)[of lease ?ev w2] by auto
    from claim_acquire_granted[OF assms(1) that(2,1)]
    have "fn c ?cc 0 w3 = gn c ?cc 0 w3" for c
      using eq by (intro assms(3)) (auto simp: claim_context_def granted_def)
    then have "run_callback m e fn ctx ?cc [session] 0 w3 = run_callback m e gn ctx ?cc [session] 0 w3"
      using assms(3) by (intro run_callback_cong) auto
    then show ?thesis using w3 by (simp add: claim_run_def Let_def)
  qed
  show ?thesis
    using assms(2) run assms(4) by (auto simp: claim_guarded_def split: option.split sum.split prod.split)
qed

end

end
