(* ===== verification/Worker_Props.thy ===== *)
theory Worker_Props
  imports Worker_Correct Runtime_Props
begin

text \<open>
  What the worker manager guarantees, on the in-memory driver and the in-memory idempotency store.
\<close>

section \<open>A concrete manager\<close>

definition ex_async :: LockDefinition where
  "ex_async = ex_parent\<lparr>ld_ExecutionKind := ExecutionAsync, ld_LeaseTTL := 100 * second, ld_IdempotencyRequired := True\<rparr>"

definition ex_worker :: "(MemoryDriver, MemoryStore) WorkerManager" where
  "ex_worker = \<lparr>wm_registry = \<lparr>rg_definitions = [(''order'', ex_async)], rg_composites = []\<rparr>,
     wm_driver = memory_driver, wm_idempotency = Some memory_store, wm_bridge = True,
     wm_lineageDefs = [(''order'', False)], wm_cachedDefsByID = [(''order'', ex_async)]\<rparr>"

definition ex_claim :: "string \<Rightarrow> MessageClaimRequest" where
  "ex_claim ow = \<lparr>mc_DefinitionID = ''order'', mc_KeyInput = Some [(''id'', ''7'')],
     mc_Ownership = (ex_own ow)\<lparr>om_MessageID := ''m'', om_ConsumerGroup := ''g'', om_Attempt := 1\<rparr>,
     mc_IdempotencyKey = ''msg'', mc_Overrides = None\<rparr>"

definition ex_work :: "(MemoryDriver, MemoryStore) claim_fn" where
  "ex_work c cc n w = (w, if n < 2 then Tick 0 else Return None)"

definition ex_world :: "(MemoryDriver, MemoryStore) wworld" where
  "ex_world = new_wworld NewMemoryDriver NewStore"

lemma ex_world_simps: "store_inv (ww_store ex_world)" "md_inv (ww_driver ex_world)" "ww_tick ex_world = 0"
  "ww_store ex_world = NewStore" "ww_driver ex_world = NewMemoryDriver"
  by (simp_all add: ex_world_def new_wworld_def store_inv_New md_inv_New)

lemma ex_claim_key: "mc_IdempotencyKey (ex_claim ow) = ''msg''" "trim_space ''msg'' = ''msg''"
  by (simp_all add: ex_claim_def trim_space_visible visible_def)

definition ex_done :: "(MemoryDriver, MemoryStore) wworld \<times> go_err" where
  "ex_done = the (ExecuteClaimed ex_worker ex_env background (ex_claim ''a'') ex_work ex_world)"

lemma ex_done_eq: "ExecuteClaimed ex_worker ex_env background (ex_claim ''a'') ex_work ex_world = Some (fst ex_done, None)"
proof -
  have "map_option snd (ExecuteClaimed ex_worker ex_env background (ex_claim ''a'') ex_work ex_world) = Some None"
    by code_simp
  then show ?thesis by (auto simp: ex_done_def)
qed

section \<open>At most once\<close>

text \<open>
  A later claim on a store shared by several managers, and a sequence of such claims: each meets the
  store as the one before it left it, at a clock reading that is not earlier. What the callback of
  a claim does must keep the completed record of \<open>key\<close>.
\<close>

record 't delivery =
  dl_manager :: "('t, MemoryStore) WorkerManager"
  dl_env :: Env
  dl_ctx :: go_ctx
  dl_request :: MessageClaimRequest
  dl_fn :: "('t, MemoryStore) claim_fn"
  dl_world :: "('t, MemoryStore) wworld"

fun delivered :: "string \<Rightarrow> time \<Rightarrow> time \<Rightarrow> MemoryStore \<Rightarrow> 't delivery list \<Rightarrow> time \<Rightarrow> MemoryStore \<Rightarrow> bool" where
  "delivered key limit c s [] c' s' \<longleftrightarrow> c' = c \<and> s' = s"
| "delivered key limit c s (d # ds) c' s' \<longleftrightarrow>
     wm_idempotency (dl_manager d) = Some memory_store \<and> mono (env_clock (dl_env d))
     \<and> ww_store (dl_world d) = s \<and> c \<le> env_clock (dl_env d) (ww_tick (dl_world d))
     \<and> callback_keeps store_inv mem_vis key limit (dl_env d) (dl_fn d)
     \<and> (\<exists>w err. ExecuteClaimed (dl_manager d) (dl_env d) (dl_ctx d) (dl_request d) (dl_fn d) (dl_world d) = Some (w, err)
          \<and> delivered key limit (env_clock (dl_env d) (ww_tick w)) (ww_store w) ds c' s')"

lemma delivered_kept:
  "delivered key limit c s ds c' s' \<Longrightarrow> completed_in store_inv mem_vis key limit c s \<Longrightarrow>
   completed_in store_inv mem_vis key limit c' s'"
proof (induction ds arbitrary: c s)
  case (Cons d ds)
  let ?e = "dl_env d"
  obtain w err where d: "wm_idempotency (dl_manager d) = Some memory_store" "mono (env_clock ?e)"
    "c \<le> env_clock ?e (ww_tick (dl_world d))" "callback_keeps store_inv mem_vis key limit ?e (dl_fn d)"
    and run: "ExecuteClaimed (dl_manager d) ?e (dl_ctx d) (dl_request d) (dl_fn d) (dl_world d) = Some (w, err)"
    and rest: "delivered key limit (env_clock ?e (ww_tick w)) (ww_store w) ds c' s'" and "ww_store (dl_world d) = s"
    using Cons.prems(1) by auto
  then have "completed_in store_inv mem_vis key limit (env_clock ?e (ww_tick (dl_world d))) (ww_store (dl_world d))"
    using mem_store.kept_later[OF Cons.prems(2) d(3)] by simp
  from mem_store.ExecuteClaimed_kept[OF d(2) this d(1,4) run] show ?case by (rule Cons.IH[OF rest])
qed simp

text \<open>
  C21. A message is processed once. When a claim with an idempotency key returns without error, its
  outcome was stored at the last clock reading but one, \<open>t0\<close>. From then on, for a minute, whatever
  sequence of claims by whatever managers sharing the store follows, among them refused redeliveries of the
  same message, which store the outcome again: the record stays completed, and a claim that presents
  the same key is refused with an error without its callback being called, the result being the
  same for every callback. Callbacks of the claims in between may do anything that keeps the record.
\<close>

theorem message_processed_once:
  assumes "wm_idempotency m = Some memory_store" and "trim_space (mc_IdempotencyKey req) \<noteq> []"
    and "store_inv (ww_store w)" and "\<forall>c cc n w. store_inv (ww_store w) \<longrightarrow> store_inv (ww_store (fst (fn c cc n w)))"
    and "ExecuteClaimed m e ctx req fn w = Some (w', None)" and "t0 = env_clock e (ww_tick w' - 2)"
    and "delivered (mc_IdempotencyKey req) (t0 + minute) t0 (ww_store w') ds c s"
    and "wm_idempotency m2 = Some memory_store" and "mc_IdempotencyKey req2 = mc_IdempotencyKey req"
    and "ww_store w2 = s" and "c \<le> env_clock e2 (ww_tick w2)" and "env_clock e2 (ww_tick w2) < t0 + minute"
  shows "2 \<le> ww_tick w'
    \<and> (\<exists>r. mem_vis (env_clock e2 (ww_tick w2)) s (mc_IdempotencyKey req) = Some r \<and> rd_Status r = StatusCompleted)
    \<and> (\<exists>w3 err. \<forall>gn. ExecuteClaimed m2 e2 ctx2 req2 gn w2 = Some (w3, Some err))"
proof -
  have "2 \<le> ww_tick w' \<and> completed_in store_inv mem_vis (mc_IdempotencyKey req) (t0 + minute) t0 (ww_store w')"
    unfolding assms(6) by (rule mem_store.ExecuteClaimed_completes[OF assms(1-3) _ assms(5)]) (use assms(4) in blast)
  then have tick: "2 \<le> ww_tick w'"
    and k: "completed_in store_inv mem_vis (mc_IdempotencyKey req) (t0 + minute) c s"
    using delivered_kept[OF assms(7)] by blast+
  then obtain r where r: "mem_vis (env_clock e2 (ww_tick w2)) s (mc_IdempotencyKey req) = Some r" "rd_Status r = StatusCompleted"
    using assms(11,12) unfolding completed_in_def by blast
  have "\<exists>w3 err. \<forall>gn. ExecuteClaimed m2 e2 ctx2 req2 gn w2 = Some (w3, Some err)"
    by (rule mem_store.ExecuteClaimed_visible) (use k r assms(2,8-10) in \<open>auto simp: completed_in_def\<close>)
  then show ?thesis using tick r by blast
qed

text \<open>
  The message is delivered again to another owner, and then a third time, at the clock reading at which
  the first outcome was stored.
\<close>

definition ex_t0 :: time where
  "ex_t0 = env_clock ex_env (ww_tick (fst ex_done) - 2)"

definition ex_again :: "MemoryDriver delivery" where
  "ex_again = \<lparr>dl_manager = ex_worker, dl_env = ex_env\<lparr>env_clock := \<lambda>_. ex_t0\<rparr>, dl_ctx = background,
     dl_request = ex_claim ''b'', dl_fn = (\<lambda>c cc n w. (w, Return None)), dl_world = fst ex_done\<rparr>"

theorem message_processed_once_witness:
  "\<exists>c s w3 err. delivered ''msg'' (ex_t0 + minute) ex_t0 (ww_store (fst ex_done)) [ex_again] c s
     \<and> ExecuteClaimed ex_worker (ex_env\<lparr>env_clock := \<lambda>_. c\<rparr>) background (ex_claim ''c'')
         (\<lambda>c cc n w. (w, Return None)) ((fst ex_done)\<lparr>ww_store := s\<rparr>) = Some (w3, Some err)"
proof -
  have keeps: "\<forall>c cc n w. store_inv (ww_store w) \<longrightarrow> store_inv (ww_store (fst (ex_work c cc n w)))" by (simp add: ex_work_def)
  have "\<exists>y. ExecuteClaimed (dl_manager ex_again) (dl_env ex_again) (dl_ctx ex_again) (dl_request ex_again) (dl_fn ex_again)
      (dl_world ex_again) = Some y"
  proof -
    have "map_option (\<lambda>_. ()) (ExecuteClaimed (dl_manager ex_again) (dl_env ex_again) (dl_ctx ex_again) (dl_request ex_again)
        (dl_fn ex_again) (dl_world ex_again)) = Some ()" by code_simp
    then show ?thesis by auto
  qed
  then obtain w err where run: "ExecuteClaimed (dl_manager ex_again) (dl_env ex_again) (dl_ctx ex_again) (dl_request ex_again)
      (dl_fn ex_again) (dl_world ex_again) = Some (w, err)" by fastforce
  have d: "delivered ''msg'' (ex_t0 + minute) ex_t0 (ww_store (fst ex_done)) [ex_again] ex_t0 (ww_store w)"
    using run by (simp add: ex_again_def ex_worker_def mono_def callback_keeps_def)
  have "\<exists>w3 err. \<forall>gn. ExecuteClaimed ex_worker (ex_env\<lparr>env_clock := \<lambda>_. ex_t0\<rparr>) background (ex_claim ''c'') gn
      ((fst ex_done)\<lparr>ww_store := ww_store w\<rparr>) = Some (w3, Some err)"
    using message_processed_once[OF _ _ ex_world_simps(1) keeps ex_done_eq ex_t0_def,
        where ds = "[ex_again]" and c = ex_t0 and s = "ww_store w" and ?m2.0 = ex_worker and ?req2.0 = "ex_claim ''c''"
          and ?w2.0 = "(fst ex_done)\<lparr>ww_store := ww_store w\<rparr>" and ?e2.0 = "ex_env\<lparr>env_clock := \<lambda>_. ex_t0\<rparr>"
          and ?ctx2.0 = background] d
    by (simp add: ex_worker_def ex_claim_key duration_units)
  then show ?thesis using d by blast
qed

section \<open>Under the lease\<close>

definition only_if_claimed :: "Env \<Rightarrow> go_err \<Rightarrow> (MemoryDriver, 'i) claim_fn \<Rightarrow> (MemoryDriver, 'i) claim_fn" where
  "only_if_claimed e x fn c cc n w =
     (if n = 0 \<and> mem_holds (env_clock e (ww_tick w - 1)) (ww_driver w) (mem_slot (cx_DefinitionID cc) (cx_ResourceKey cc))
          \<noteq> Some (om_OwnerID (cx_Ownership cc))
      then (w, Return x) else fn c cc n w)"

text \<open>
  C22. The callback of a claim starts under the lease: a check in front of its first segment, at the
  clock reading of the grant, that the owner of the claim context holds the resource key changes no
  run of \<^verbatim>\<open>ExecuteClaimed\<close>.
\<close>

theorem claim_starts_under_lease:
  assumes "wm_driver m = memory_driver" and "md_inv (ww_driver w)" and "wm_idempotency m = Some memory_store"
    and "store_inv (ww_store w)"
  shows "ExecuteClaimed m e ctx req (only_if_claimed e x fn) w = ExecuteClaimed m e ctx req fn w"
proof -
  have g: "claim_guarded m e ctx req def plan (only_if_claimed e x fn) v = claim_guarded m e ctx req def plan fn v"
    if "md_inv (ww_driver v)" "store_inv (ww_store v)" for def plan v
  proof (rule mem.claim_guarded_under_lease[OF assms(1) that(1)])
    fix c :: go_ctx and cc :: ClaimContext and n :: nat and w' :: "(MemoryDriver, MemoryStore) wworld"
    assume "0 < n \<or> md_inv (ww_driver w') \<and> 0 < ww_tick w' \<and>
      mem_holds (env_clock e (ww_tick w' - 1)) (ww_driver w') (mem_slot (cx_DefinitionID cc) (cx_ResourceKey cc))
        = Some (om_OwnerID (cx_Ownership cc))"
    then show "only_if_claimed e x fn c cc n w' = fn c cc n w'" by (auto simp: only_if_claimed_def)
  next
    fix w' assume "preAcquireIdempotency m e ctx def req v = Some (w', None)"
    then show "ww_driver w' = ww_driver v"
      using mem_store.preAcquire_total[OF that(2), of m e ctx def req] assms(3) by auto
  qed
  have s: "ww_store (fst (buildClaimAcquirePlan m e def inp w)) = ww_store w \<and>
      ww_driver (fst (buildClaimAcquirePlan m e def inp w)) = ww_driver w" for def inp
    by (simp add: buildClaimAcquirePlan_def Let_def split: sum.split)
  have a: "claim_admitted m e ctx req def plan (only_if_claimed e x fn) v = claim_admitted m e ctx req def plan fn v"
    if "md_inv (ww_driver v)" "store_inv (ww_store v)" for def plan v
    using that by (simp add: claim_admitted_def Let_def g)
  show ?thesis
  proof (cases "Get (wm_registry m) (mc_DefinitionID req)")
    case (Some def)
    obtain w1 r where "buildClaimAcquirePlan m e def (mc_KeyInput req) w = (w1, r)" by fastforce
    with s[of def "mc_KeyInput req"] assms(2,4) Some show ?thesis
      by (auto simp: ExecuteClaimed_def worker_tryAdmit_eq a split: option.split sum.split)
  qed (simp add: ExecuteClaimed_def)
qed

theorem claim_starts_under_lease_witness:
  "ExecuteClaimed ex_worker ex_env background (ex_claim ''a'') (only_if_claimed ex_env None ex_work) ex_world
   = ExecuteClaimed ex_worker ex_env background (ex_claim ''a'') ex_work ex_world"
  by (rule claim_starts_under_lease) (simp_all add: ex_worker_def ex_world_simps md_inv_New store_inv_New)





section \<open>Lost leases\<close>

text \<open>
  A renewal fails while the callback runs: after some segment a ticker fires whose loop is still
  running, and the driver call of that loop's renewal ends with an error.
\<close>

inductive renewal_fails ::
  "('s, 'i) WorkerManager \<Rightarrow> Env \<Rightarrow> ('s, 'i) claim_fn \<Rightarrow> go_ctx \<Rightarrow> ClaimContext \<Rightarrow> renewalSession list \<Rightarrow> nat
    \<Rightarrow> ('s, 'i) wworld \<Rightarrow> bool"
  for m e fn ctx cc
where
  now: "fn (callback_ctx ctx ss) cc n w = (w1, Tick j) \<Longrightarrow> j < length ss \<Longrightarrow> \<not> rs_done (ss ! j) \<Longrightarrow>
    renewLease m e background (rs_current (ss ! j)) w1 = (w2, Inl x) \<Longrightarrow> renewal_fails m e fn ctx cc ss n w"
| later: "fn (callback_ctx ctx ss) cc n w = (w1, Tick j) \<Longrightarrow> tick_session m e j ss w1 = (w2, ss') \<Longrightarrow>
    renewal_fails m e fn ctx cc ss' (Suc n) w2 \<Longrightarrow> renewal_fails m e fn ctx cc ss n w"

abbreviation "lost_error \<equiv> Errorf ''%w: %v'' [] [Sentinel ErrLeaseLost]"

text \<open>A session while the callback runs, and a session that has failed.\<close>

definition session_ok :: "renewalSession \<Rightarrow> bool" where
  "session_ok s \<longleftrightarrow> \<not> rs_canceled s \<and> (rs_err s = None \<or> rs_err s = Some lost_error \<and> rs_done s)"

lemma renewal_pass_ok: "session_ok s \<Longrightarrow> session_ok (snd (renewal_pass m e s w))"
  by (auto simp: session_ok_def renewal_pass_def setFailure_def loop_exit_def split: prod.split sum.split)

lemma renewal_pass_failed: "rs_err s \<noteq> None \<Longrightarrow> rs_err (snd (renewal_pass m e s w)) \<noteq> None"
  by (auto simp: renewal_pass_def setFailure_def loop_exit_def split: prod.split sum.split)

lemma tick_session_ok: "list_all session_ok ss \<Longrightarrow> list_all session_ok (snd (tick_session m e j ss w))"
  by (auto simp: tick_session_def list_all_length nth_list_update case_prod_beta Let_def intro: renewal_pass_ok)

lemma tick_session_failed:
  "k < length ss \<Longrightarrow> rs_err (ss ! k) \<noteq> None \<Longrightarrow> rs_err (snd (tick_session m e j ss w) ! k) \<noteq> None"
  using renewal_pass_failed[of "ss ! k" m e w]
  by (auto simp: tick_session_def nth_list_update case_prod_beta Let_def)

lemma run_callback_sessions:
  assumes "run_callback m e fn ctx cc ss n w = Some (w', ss', err)" and "list_all session_ok ss"
  shows "list_all session_ok ss' \<and> length ss' = length ss \<and>
    (\<forall>k < length ss. rs_err (ss ! k) \<noteq> None \<longrightarrow> rs_err (ss' ! k) \<noteq> None)"
proof -
  let ?Q = "\<lambda>(v :: ('a, 'b) wworld) us. list_all session_ok us \<and> length us = length ss \<and>
    (\<forall>k < length ss. rs_err (ss ! k) \<noteq> None \<longrightarrow> rs_err (us ! k) \<noteq> None)"
  have "?Q v us \<Longrightarrow> ?Q (fst (tick_session m e j us v)) (snd (tick_session m e j us v))" for j v us
    using tick_session_ok[of us m e j v] tick_session_failed[of _ us m e j v] by auto
  with run_callback_inv[OF assms(1), of ?Q] assms(2) show ?thesis by auto
qed

lemma renewal_fails_failure:
  assumes "renewal_fails m e fn ctx cc ss n w" and "run_callback m e fn ctx cc ss n w = Some (w', ss', err)"
    and "list_all session_ok ss"
  shows "\<exists>k < length ss. rs_err (ss' ! k) \<noteq> None"
  using assms
proof (induction rule: renewal_fails.induct)
  case (now ss n w w1 j w2 x)
  let ?t = "tick_session m e j ss w1"
  have "renew_ctx (ss ! j) = background" using now.prems(2) now.hyps(2) by (simp add: list_all_length session_ok_def renew_ctx_def background_def)
  then have "rs_err (snd ?t ! j) \<noteq> None" using now.hyps now.prems(2)
    by (auto simp: tick_session_def renewal_pass_def loop_exit_def setFailure_def list_all_length session_ok_def)
  moreover have "run_callback m e fn ctx cc (snd ?t) (Suc n) (fst ?t) = Some (w', ss', err)"
    using now.prems(1) now.hyps(1) by (subst (asm) run_callback.simps) (simp add: case_prod_beta)
  ultimately show ?case
    using run_callback_sessions[OF _ tick_session_ok[OF now.prems(2)]] now.hyps(2) by fastforce
next
  case (later ss n w w1 j w2 ss1)
  have "run_callback m e fn ctx cc ss1 (Suc n) w2 = Some (w', ss', err)"
    using later.prems(1) later.hyps(1,2) by (subst (asm) run_callback.simps) simp
  moreover have "list_all session_ok ss1" "length ss1 = length ss"
    using tick_session_ok[OF later.prems(2), of m e j w1] tick_session_length[of m e j ss w1] later.hyps(2) by simp_all
  ultimately show ?case using later.IH by simp
qed

text \<open>
  C23. A claim that lost its lease is not acknowledged. If a renewal fails while the callback runs, the
  claim returns an error that is \<^verbatim>\<open>ErrLeaseLost\<close>, whatever the callback returned, its outcome is a
  retry, and the idempotency record is left as the callback phase left it.
\<close>

theorem lost_lease_not_acked:
  assumes "startLeaseRenewalWithMeta lease
      (workerEvent (ld_ID def) rk (om_OwnerID (mc_Ownership req)) (mc_IdempotencyKey req)) w = (w1, session)"
    and "renewal_fails m e fn ctx (claim_context def req rk lease) [session] 0 w1"
    and "run_callback m e fn ctx (claim_context def req rk lease) [session] 0 w1 = Some (w2, ss, callbackErr)"
    and "claim_run m e ctx req def rk lease fn w = Some (w', err)"
  shows "\<exists>x. err = Some x \<and> errors_is x ErrLeaseLost \<and> OutcomeFromError err = OutcomeRetry \<and> ww_store w' = ww_store w2"
proof -
  have ok: "list_all session_ok [session]"
    using assms(1) by (auto simp: session_ok_def startLeaseRenewalWithMeta_def registerRenewalCancel_def Let_def)
  obtain s where "ss = [s]" "session_ok s" "rs_err s \<noteq> None"
    using run_callback_sessions[OF assms(3) ok] renewal_fails_failure[OF assms(2,3) ok] by (cases ss) auto
  then have s: "ss = [s]" "rs_err s = Some lost_error" "rs_done s" by (auto simp: session_ok_def)
  obtain v where stop: "stopAndWait m e 0 ss w2 = Some (v, [s\<lparr>rs_canceled := True\<rparr>])" "ww_store v = ww_store w2"
    using s by (simp add: stopAndWait_def await_done.simps)
  have f: "sessions_failure [s\<lparr>rs_canceled := True\<rparr>] = Some lost_error" using s by (simp add: sessions_failure_def join_errs_def)
  have out: "OutcomeFromError (Some lost_error) = OutcomeRetry" by (simp add: OutcomeFromError_def)
  then have "persist_outcome m e def req (Some lost_error) v' = (v', Some lost_error)" for v'
    by (simp add: persist_outcome_def persistTerminalIdempotency_def split: option.split bool.split)
  with assms(1,3,4) stop f have "err = Some lost_error" "ww_store w' = ww_store w2"
    by (auto simp: claim_run_def Let_def case_prod_beta)
  with out show ?thesis by simp
qed

text \<open>The backend has lost the lease when the first tick comes.\<close>

definition ex_steal :: "(MemoryDriver, MemoryStore) claim_fn" where
  "ex_steal c cc n w = (if n = 0 then (w\<lparr>ww_driver := NewMemoryDriver\<rparr>, Tick 0) else (w, Return None))"

definition ex_lease :: renewableLease where
  "ex_lease = \<lparr>rl_lease = \<lparr>lr_DefinitionID = ''order'', lr_ResourceKeys = [''order:7''], lr_OwnerID = ''a'',
     lr_LeaseTTL = 100 * second, lr_AcquiredAt = 0, lr_ExpiresAt = 100 * second\<rparr>, rl_lineage = None, rl_fencingToken = 0\<rparr>"

theorem lost_lease_not_acked_witness:
  "\<exists>w' x. claim_run ex_worker ex_env background (ex_claim ''a'') ex_async ''order:7'' ex_lease ex_steal ex_world = Some (w', Some x)
     \<and> errors_is x ErrLeaseLost"
proof -
  let ?ev = "workerEvent (ld_ID ex_async) ''order:7'' (om_OwnerID (mc_Ownership (ex_claim ''a''))) (mc_IdempotencyKey (ex_claim ''a''))"
  let ?st = "startLeaseRenewalWithMeta ex_lease ?ev ex_world"
  let ?cc = "claim_context ex_async (ex_claim ''a'') ''order:7'' ex_lease"
  let ?w = "(fst ?st)\<lparr>ww_driver := NewMemoryDriver\<rparr>"
  have "snd (renewLease ex_worker ex_env background (rs_current (snd ?st)) ?w) = Inl (Sentinel ErrLeaseNotFound)" by code_simp
  then have "renewLease ex_worker ex_env background (rs_current ([snd ?st] ! 0)) ?w
      = (fst (renewLease ex_worker ex_env background (rs_current (snd ?st)) ?w), Inl (Sentinel ErrLeaseNotFound))"
    by (simp add: prod_eq_iff)
  from renewal_fails.now[OF _ _ _ this, of ex_steal background ?cc 0 "fst ?st"]
  have fails: "renewal_fails ex_worker ex_env ex_steal background ?cc [snd ?st] 0 (fst ?st)"
    by (simp add: ex_steal_def startLeaseRenewalWithMeta_def registerRenewalCancel_def Let_def)
  have ret: "callback_returns ex_steal"
    by (auto simp: callback_returns_def ex_steal_def intro: exI[of _ 1])
  obtain w2 ss err where run: "run_callback ex_worker ex_env ex_steal background ?cc [snd ?st] 0 (fst ?st) = Some (w2, ss, err)"
    using run_callback_returns[OF ret] by (metis prod_cases3)
  have "fair_env ex_env" by (auto simp: fair_env_def ex_env_def)
  then obtain w' x where "claim_run ex_worker ex_env background (ex_claim ''a'') ex_async ''order:7'' ex_lease ex_steal ex_world = Some (w', x)"
    using claim_run_returns[OF ret] by (metis surj_pair)
  with lost_lease_not_acked[OF surjective_pairing fails run this] show ?thesis by auto
qed

section \<open>Retention and renewal times\<close>

text \<open>
  Retention and renewal times stay in their bounds for every 64-bit lease time, also where the
  product with the lease time wraps around: an in-progress record lives for at least 30 seconds, a
  terminal one between a minute and a day, leases are renewed every 25 milliseconds to 30 seconds. For
  lease times from 75 milliseconds on, three renewals fit into a lease, and up to 2^62 - 1 nanoseconds
  the in-progress record outlives the lease.
\<close>

theorem retention_bounds:
  assumes "- (2 ^ 63) \<le> ttl" and "ttl < 2 ^ 63"
  shows "30 * second \<le> inProgressTTL ttl \<and> minute \<le> terminalTTL ttl \<and> terminalTTL ttl \<le> 24 * hour
    \<and> 25 * millisecond \<le> renewalInterval ttl \<and> renewalInterval ttl \<le> 30 * second
    \<and> (75 * millisecond \<le> ttl \<longrightarrow> 3 * renewalInterval ttl \<le> ttl)
    \<and> (0 < ttl \<and> ttl < 2 ^ 62 \<longrightarrow> 2 * ttl \<le> inProgressTTL ttl)"
proof -
  have "0 < ttl \<and> ttl < 2 ^ 62 \<longrightarrow> wrap64 (ttl * 2) = ttl * 2" by (auto intro!: wrap64_id)
  then have "0 < ttl \<and> ttl < 2 ^ 62 \<longrightarrow> 2 * ttl \<le> inProgressTTL ttl" by (auto simp: inProgressTTL_def Let_def)
  moreover have "75 * millisecond \<le> ttl \<longrightarrow> 3 * renewalInterval ttl \<le> ttl"
    by (auto simp: renewalInterval_def Let_def duration_units quot_nonneg)
  moreover have "30 * second \<le> inProgressTTL ttl" by (simp add: inProgressTTL_def Let_def)
  moreover have "25 * millisecond \<le> renewalInterval ttl" "renewalInterval ttl \<le> 30 * second"
    by (auto simp: renewalInterval_def Let_def duration_units)
  ultimately show ?thesis using terminalTTL_bounds by blast
qed

theorem retention_bounds_witness:
  "3 * renewalInterval (75 * millisecond) \<le> 75 * millisecond \<and> 30 * second \<le> inProgressTTL (75 * millisecond)"
  using retention_bounds[of "75 * millisecond"] by (simp add: duration_units)

section \<open>Two copies of the lease code\<close>

text \<open>
  The worker package has its own copies of the runtime's wait-time, error-mapping, overlap, acquire and
  release code. They agree with the originals: seen through the projections of manager, world, plan
  and lease, every call gives the same result and makes the same driver calls.
\<close>

theorem worker_agrees_with_runtime:
  "applyWorkerOverrides def ov = applyRuntimeOverrides def ov
    \<and> worker_mapAcquireError err = mapAcquireError err
    \<and> worker_rejectCompositeOverlap members = rejectCompositeOverlap members
    \<and> worker_contextWithAcquireTimeout e ctx cfg w =
        map_prod id (lift_world w) (contextWithAcquireTimeout e ctx cfg (as_world w))
    \<and> map_prod id (map_sum id as_held) (acquireClaimLease m e ctx def plan ow w) =
        map_prod (lift_world w) id (acquireLease (as_manager m) e ctx def (as_plan plan) ow (as_world w))
    \<and> releaseClaimLease m e ctx held w =
        map_prod (lift_world w) id (releaseLease (as_manager m) e ctx (as_held held) (as_world w))"
  by (simp add: applyWorkerOverrides_def applyRuntimeOverrides_def worker_mapAcquireError_def mapAcquireError_def
      worker_overlap_eq worker_context_sim acquireClaimLease_sim releaseClaimLease_sim)

end
