(* ===== verification/Drain.thy ===== *)
theory Drain
  imports Prelude
begin

text \<open>
  Shutdown of the worker manager with its mutex and condition variable: \<^verbatim>\<open>src/lockkit/workers/shutdown.go\<close> and the admission functions of
  \<^verbatim>\<open>src/lockkit/workers/manager.go\<close> (the runtime manager has the same code). Claims, one call of \<^verbatim>\<open>Shutdown\<close>, the goroutines that watch its
  context and the end of that context interleave; each load, add, lock, unlock, wait and broadcast is one step. The two
  events \<^verbatim>\<open>Shutdown\<close> publishes are not part of this model.
\<close>

section \<open>Threads\<close>

text \<open>
  A claim: \<open>ReleaseLock\<close>, \<open>Broadcasting\<close>, \<open>Unlocking\<close> are the points of \<^verbatim>\<open>releaseInFlightExecution\<close> after it counted down to zero; their flag
  tells a finished claim from one that backs out of its admission.
\<close>

datatype claim_pc = ClaimIdle | ClaimChecked | ClaimAdded | ClaimBackOut | ClaimRunning
  | ReleaseLock bool | Broadcasting bool | Unlocking bool | ClaimFinished | ClaimRejected

text \<open>
  \<^verbatim>\<open>Shutdown\<close>: before and after the flag, at the load of its loop, at the check of its context, entering \<^verbatim>\<open>waitForDrainWithContext\<close>, at the
  load of the inner loop, about to wait, waiting, woken, at the two parts of the \<^verbatim>\<open>select\<close> after a wait, returned.
\<close>

datatype drain_pc = DrainStart | DrainLock | DrainLoop | DrainCtx | DrainEnter | DrainTest | DrainWait | DrainWaiting | DrainWoken
  | DrainSelect | DrainRecheck | DrainReturned bool

text \<open>A watcher: in its \<^verbatim>\<open>select\<close> (with its stop channel closed or not), before its lock, before the broadcast, before the unlock, gone.\<close>

datatype watch_pc = WatchSelect bool | WatchLock | WatchBroadcast | WatchUnlock | WatchGone

record drain =
  dr_shuttingDown :: bool
  dr_inFlight :: int
  dr_locked :: bool
  dr_claims :: "claim_pc list"
  dr_pc :: drain_pc
  dr_watchers :: "watch_pc list"
  dr_hasDone :: bool
  dr_ctxDone :: bool

definition new_drain :: "nat \<Rightarrow> bool \<Rightarrow> drain" where
  "new_drain n hasDone = \<lparr>dr_shuttingDown = False, dr_inFlight = 0, dr_locked = False, dr_claims = replicate n ClaimIdle, dr_pc = DrainStart,
     dr_watchers = [], dr_hasDone = hasDone, dr_ctxDone = False\<rparr>"

text \<open>\<^verbatim>\<open>Broadcast\<close> wakes the waiting \<^verbatim>\<open>Shutdown\<close>; it has to get the mutex before it goes on.\<close>

definition wake :: "drain \<Rightarrow> drain" where
  "wake s = (if dr_pc s = DrainWaiting then s\<lparr>dr_pc := DrainWoken\<rparr> else s)"

definition release_claim :: "nat \<Rightarrow> bool \<Rightarrow> drain \<Rightarrow> drain" where
  "release_claim i fin s = s\<lparr>dr_inFlight := dr_inFlight s - 1,
     dr_claims := (dr_claims s)[i := if dr_inFlight s - 1 \<noteq> 0 then (if fin then ClaimFinished else ClaimRejected) else ReleaseLock fin]\<rparr>"

definition claim_step :: "nat \<Rightarrow> drain \<Rightarrow> drain option" where
  "claim_step i s =
     (if i \<ge> length (dr_claims s) then None
      else
        let goto = (\<lambda>p s. Some (s\<lparr>dr_claims := (dr_claims s)[i := p]\<rparr>)) in
        case dr_claims s ! i of
          ClaimIdle \<Rightarrow> goto (if dr_shuttingDown s then ClaimRejected else ClaimChecked) s
        | ClaimChecked \<Rightarrow> goto ClaimAdded (s\<lparr>dr_inFlight := dr_inFlight s + 1\<rparr>)
        | ClaimAdded \<Rightarrow> goto (if dr_shuttingDown s then ClaimBackOut else ClaimRunning) s
        | ClaimBackOut \<Rightarrow> Some (release_claim i False s)
        | ClaimRunning \<Rightarrow> Some (release_claim i True s)
        | ReleaseLock fin \<Rightarrow> if dr_locked s then None else goto (Broadcasting fin) (s\<lparr>dr_locked := True\<rparr>)
        | Broadcasting fin \<Rightarrow> goto (Unlocking fin) (wake s)
        | Unlocking fin \<Rightarrow> goto (if fin then ClaimFinished else ClaimRejected) (s\<lparr>dr_locked := False\<rparr>)
        | ClaimFinished \<Rightarrow> None
        | ClaimRejected \<Rightarrow> None)"

definition close_stop :: "watch_pc list \<Rightarrow> watch_pc list" where
  "close_stop ws = map (\<lambda>w. if w = WatchSelect False then WatchSelect True else w) ws"

text \<open>The stop channel of the one open watcher is closed when \<^verbatim>\<open>waitForDrainWithContext\<close> returns.\<close>

definition drain_step :: "drain \<Rightarrow> drain option" where
  "drain_step s = (case dr_pc s of
     DrainStart \<Rightarrow> Some (s\<lparr>dr_shuttingDown := True, dr_pc := DrainLock\<rparr>)
   | DrainLock \<Rightarrow> if dr_locked s then None else Some (s\<lparr>dr_locked := True, dr_pc := DrainLoop\<rparr>)
   | DrainLoop \<Rightarrow> if dr_inFlight s > 0 then Some (s\<lparr>dr_pc := DrainCtx\<rparr>) else Some (s\<lparr>dr_locked := False, dr_pc := DrainReturned True\<rparr>)
   | DrainCtx \<Rightarrow> if dr_ctxDone s then Some (s\<lparr>dr_locked := False, dr_pc := DrainReturned False\<rparr>) else Some (s\<lparr>dr_pc := DrainEnter\<rparr>)
   | DrainEnter \<Rightarrow>
       if dr_inFlight s = 0 then Some (s\<lparr>dr_pc := DrainLoop\<rparr>)
       else if dr_hasDone s then Some (s\<lparr>dr_watchers := dr_watchers s @ [WatchSelect False], dr_pc := DrainTest\<rparr>)
       else Some (s\<lparr>dr_pc := DrainTest\<rparr>)
   | DrainTest \<Rightarrow>
       if dr_inFlight s = 0 then Some (s\<lparr>dr_watchers := close_stop (dr_watchers s), dr_pc := DrainLoop\<rparr>) else Some (s\<lparr>dr_pc := DrainWait\<rparr>)
   | DrainWait \<Rightarrow> Some (s\<lparr>dr_locked := False, dr_pc := DrainWaiting\<rparr>)
   | DrainWaiting \<Rightarrow> None
   | DrainWoken \<Rightarrow>
       if dr_locked s then None else Some (s\<lparr>dr_locked := True, dr_pc := if dr_hasDone s then DrainSelect else DrainTest\<rparr>)
   | DrainSelect \<Rightarrow> Some (s\<lparr>dr_pc := if dr_ctxDone s then DrainRecheck else DrainTest\<rparr>)
   | DrainRecheck \<Rightarrow>
       if dr_inFlight s \<noteq> 0 then Some (s\<lparr>dr_watchers := close_stop (dr_watchers s), dr_locked := False, dr_pc := DrainReturned False\<rparr>)
       else Some (s\<lparr>dr_pc := DrainTest\<rparr>)
   | DrainReturned ok \<Rightarrow> None)"

text \<open>When both channels are ready the \<^verbatim>\<open>select\<close> takes either; \<open>takeDone\<close> is that choice.\<close>

definition watch_step :: "nat \<Rightarrow> bool \<Rightarrow> drain \<Rightarrow> drain option" where
  "watch_step k takeDone s =
     (if k \<ge> length (dr_watchers s) then None
      else
        let goto = (\<lambda>p s. Some (s\<lparr>dr_watchers := (dr_watchers s)[k := p]\<rparr>)) in
        case dr_watchers s ! k of
          WatchSelect stopped \<Rightarrow> if dr_ctxDone s \<and> (takeDone \<or> \<not> stopped) then goto WatchLock s else if stopped then goto WatchGone s else None
        | WatchLock \<Rightarrow> if dr_locked s then None else goto WatchBroadcast (s\<lparr>dr_locked := True\<rparr>)
        | WatchBroadcast \<Rightarrow> goto WatchUnlock (wake s)
        | WatchUnlock \<Rightarrow> goto WatchGone (s\<lparr>dr_locked := False\<rparr>)
        | WatchGone \<Rightarrow> None)"

datatype drain_thread = ClaimThread nat | ShutdownThread | WatchThread nat bool | ContextEnds

fun thread_step :: "drain_thread \<Rightarrow> drain \<Rightarrow> drain option" where
  "thread_step (ClaimThread i) s = claim_step i s"
| "thread_step ShutdownThread s = drain_step s"
| "thread_step (WatchThread k takeDone) s = watch_step k takeDone s"
| "thread_step ContextEnds s = Some (s\<lparr>dr_ctxDone := dr_hasDone s\<rparr>)"

inductive drain_run :: "nat \<Rightarrow> bool \<Rightarrow> drain \<Rightarrow> bool" for n :: nat and hasDone :: bool where
  drain_new: "drain_run n hasDone (new_drain n hasDone)"
| drain_next: "drain_run n hasDone s \<Longrightarrow> thread_step th s = Some s' \<Longrightarrow> drain_run n hasDone s'"

section \<open>The invariant\<close>

fun in_claim :: "claim_pc \<Rightarrow> nat" where
  "in_claim ClaimAdded = 1" | "in_claim ClaimBackOut = 1" | "in_claim ClaimRunning = 1" | "in_claim _ = 0"

fun claim_holds :: "claim_pc \<Rightarrow> nat" where
  "claim_holds (Broadcasting b) = 1" | "claim_holds (Unlocking b) = 1" | "claim_holds _ = 0"

fun watch_holds :: "watch_pc \<Rightarrow> nat" where
  "watch_holds WatchBroadcast = 1" | "watch_holds WatchUnlock = 1" | "watch_holds _ = 0"

fun drain_holds :: "drain_pc \<Rightarrow> nat" where
  "drain_holds DrainStart = 0" | "drain_holds DrainLock = 0" | "drain_holds DrainWaiting = 0" | "drain_holds DrainWoken = 0"
| "drain_holds (DrainReturned ok) = 0" | "drain_holds _ = 1"

definition will_broadcast :: "claim_pc \<Rightarrow> bool" where
  "will_broadcast p \<longleftrightarrow> (\<exists>b. p = ReleaseLock b \<or> p = Broadcasting b)"

text \<open>The counter is exact, the mutex has at most one holder, and nobody sleeps through the last release.\<close>

definition drain_ok :: "drain \<Rightarrow> bool" where
  "drain_ok s \<longleftrightarrow> dr_inFlight s = int (sum_list (map in_claim (dr_claims s)))
     \<and> sum_list (map claim_holds (dr_claims s)) + sum_list (map watch_holds (dr_watchers s)) + drain_holds (dr_pc s) = (if dr_locked s then 1 else 0)
     \<and> (dr_pc s \<in> {DrainWait, DrainWaiting} \<and> dr_inFlight s = 0 \<longrightarrow> (\<exists>p \<in> set (dr_claims s). will_broadcast p))"

lemma sum_update:
  fixes f :: "'a \<Rightarrow> nat"
  shows "k < length xs \<Longrightarrow> sum_list (map f (xs[k := y])) + f (xs ! k) = sum_list (map f xs) + f y"
proof (induction xs arbitrary: k)
  case (Cons x xs)
  then show ?case by (cases k) simp_all
qed simp

lemma elem_le_sum: "k < length xs \<Longrightarrow> f (xs ! k) \<le> sum_list (map f xs)" for f :: "'a \<Rightarrow> nat"
  by (metis elem_le_sum_list length_map nth_map)

lemma keep_witness: "p \<in> set xs \<Longrightarrow> will_broadcast p \<Longrightarrow> \<not> will_broadcast (xs ! i) \<Longrightarrow> \<exists>q \<in> set (xs[i := y]). will_broadcast q"
  by (metis in_set_conv_nth length_list_update nth_list_update_neq)

lemma new_witness: "i < length xs \<Longrightarrow> will_broadcast y \<Longrightarrow> \<exists>q \<in> set (xs[i := y]). will_broadcast q"
  by (meson set_update_memI)

lemma drain_ok_new: "drain_ok (new_drain n hasDone)"
  by (simp add: drain_ok_def new_drain_def sum_list_replicate map_replicate)

text \<open>A claim's step changes its own entry only, so the invariant after it is arithmetic over that entry.\<close>

lemma claim_move:
  assumes "drain_ok s" and "i < length (dr_claims s)"
    and "s' = s\<lparr>dr_inFlight := n', dr_locked := l', dr_pc := pc', dr_claims := (dr_claims s)[i := p']\<rparr>"
    and "n' + int (in_claim (dr_claims s ! i)) = dr_inFlight s + int (in_claim p')"
    and "claim_holds (dr_claims s ! i) + drain_holds (dr_pc s) + (if l' then 1 else 0) = claim_holds p' + drain_holds pc' + (if dr_locked s then 1 else 0)"
    and "pc' \<in> {DrainWait, DrainWaiting} \<and> n' = 0 \<Longrightarrow> will_broadcast p' \<or> pc' = dr_pc s \<and> n' = dr_inFlight s \<and> \<not> will_broadcast (dr_claims s ! i)"
  shows "drain_ok s'"
proof -
  have "n' = int (sum_list (map in_claim ((dr_claims s)[i := p'])))"
    using assms(1,4) sum_update[OF assms(2), of in_claim p'] by (simp add: drain_ok_def)
  moreover have "sum_list (map claim_holds ((dr_claims s)[i := p'])) + sum_list (map watch_holds (dr_watchers s)) + drain_holds pc' = (if l' then 1 else 0)"
  proof -
    have "sum_list (map claim_holds (dr_claims s)) + sum_list (map watch_holds (dr_watchers s)) + drain_holds (dr_pc s) = (if dr_locked s then 1 else 0)"
      using assms(1) unfolding drain_ok_def by blast
    then show ?thesis using assms(5) sum_update[OF assms(2), of claim_holds p'] by linarith
  qed
  moreover have "\<exists>p \<in> set ((dr_claims s)[i := p']). will_broadcast p" if "pc' \<in> {DrainWait, DrainWaiting}" "n' = 0"
    using assms(6) that new_witness[OF assms(2), of p'] keep_witness[of _ "dr_claims s" i p'] assms(1) unfolding drain_ok_def by metis
  ultimately show ?thesis unfolding drain_ok_def assms(3) by simp
qed

lemma claim_step_ok:
  assumes "drain_ok s" and "claim_step i s = Some s'"
  shows "drain_ok s'"
proof -
  let ?p = "dr_claims s ! i"
  have i: "i < length (dr_claims s)" using assms(2) by (auto simp: claim_step_def split: if_splits)
  note move = claim_move[OF assms(1) i] and step = assms(2)[unfolded claim_step_def Let_def]
  have held: "drain_holds (dr_pc s) = 0 \<and> dr_locked s" if "claim_holds ?p = 1"
    using assms(1) elem_le_sum[OF i, of claim_holds] that unfolding drain_ok_def by (auto split: if_splits)
  show ?thesis
  proof (cases ?p)
    case ClaimIdle
    then show ?thesis using step i
      by (intro move[where n' = "dr_inFlight s" and l' = "dr_locked s" and pc' = "dr_pc s" and p' = "if dr_shuttingDown s then ClaimRejected else ClaimChecked"]) (auto simp: will_broadcast_def)
  next
    case ClaimChecked
    then show ?thesis using step i assms(1)
      by (intro move[where n' = "dr_inFlight s + 1" and l' = "dr_locked s" and pc' = "dr_pc s" and p' = ClaimAdded]) (auto simp: drain_ok_def)
  next
    case ClaimAdded
    then show ?thesis using step i
      by (intro move[where n' = "dr_inFlight s" and l' = "dr_locked s" and pc' = "dr_pc s" and p' = "if dr_shuttingDown s then ClaimBackOut else ClaimRunning"]) (auto simp: will_broadcast_def)
  next
    case ClaimBackOut
    then show ?thesis using step i
      by (intro move[where n' = "dr_inFlight s - 1" and l' = "dr_locked s" and pc' = "dr_pc s" and p' = "if dr_inFlight s - 1 \<noteq> 0 then ClaimRejected else ReleaseLock False"])
        (auto simp: will_broadcast_def release_claim_def)
  next
    case ClaimRunning
    then show ?thesis using step i
      by (intro move[where n' = "dr_inFlight s - 1" and l' = "dr_locked s" and pc' = "dr_pc s" and p' = "if dr_inFlight s - 1 \<noteq> 0 then ClaimFinished else ReleaseLock True"])
        (auto simp: will_broadcast_def release_claim_def)
  next
    case (ReleaseLock b)
    then show ?thesis using step i
      by (intro move[where n' = "dr_inFlight s" and l' = True and pc' = "dr_pc s" and p' = "Broadcasting b"]) (auto simp: will_broadcast_def split: if_splits)
  next
    case (Broadcasting b)
    then show ?thesis using step i held
      by (intro move[where n' = "dr_inFlight s" and l' = "dr_locked s" and pc' = "if dr_pc s = DrainWaiting then DrainWoken else dr_pc s" and p' = "Unlocking b"]) (auto simp: wake_def split: if_splits)
  next
    case (Unlocking b)
    then show ?thesis using step i held
      by (intro move[where n' = "dr_inFlight s" and l' = False and pc' = "dr_pc s" and p' = "if b then ClaimFinished else ClaimRejected"]) (auto simp: will_broadcast_def)
  qed (use step i in simp_all)
qed

lemma watch_close [simp]: "sum_list (map watch_holds (close_stop ws)) = sum_list (map watch_holds ws)"
  by (induction ws) (auto simp: close_stop_def)

lemma drain_step_ok: "drain_ok s \<Longrightarrow> drain_step s = Some s' \<Longrightarrow> drain_ok s'"
  by (cases "dr_pc s") (auto simp: drain_step_def drain_ok_def split: if_splits simp del: sum_list_eq_0_iff)

lemma watch_step_ok:
  assumes "drain_ok s" and "watch_step k c s = Some s'"
  shows "drain_ok s'"
proof -
  have k: "k < length (dr_watchers s)" using assms(2) by (auto simp: watch_step_def split: if_splits simp del: sum_list_eq_0_iff)
  note upd = sum_update[OF k, of watch_holds] and le = elem_le_sum[OF k, of watch_holds]
  note step = assms(2)[unfolded watch_step_def Let_def] and ok = assms(1)[unfolded drain_ok_def]
  show ?thesis
  proof (cases "dr_watchers s ! k")
    case (WatchSelect b)
    then show ?thesis using step ok k upd[of WatchLock] upd[of WatchGone] by (auto simp: drain_ok_def split: if_splits simp del: sum_list_eq_0_iff)
  next
    case WatchLock
    then show ?thesis using step ok k upd[of WatchBroadcast] by (auto simp: drain_ok_def split: if_splits simp del: sum_list_eq_0_iff)
  next
    case WatchBroadcast
    then show ?thesis using step ok k upd[of WatchUnlock]
      by (cases "dr_pc s = DrainWaiting") (auto simp: drain_ok_def wake_def simp del: sum_list_eq_0_iff)
  next
    case WatchUnlock
    then show ?thesis using step ok k upd[of WatchGone] le by (auto simp: drain_ok_def split: if_splits simp del: sum_list_eq_0_iff)
  qed (use step k in simp)
qed

lemma drain_run_ok: "drain_run n hasDone s \<Longrightarrow> drain_ok s"
proof (induction rule: drain_run.induct)
  case (drain_next s th s')
  show ?case
  proof (cases th)
    case (ClaimThread i)
    then show ?thesis using drain_next claim_step_ok by simp
  next
    case ShutdownThread
    then show ?thesis using drain_next drain_step_ok by simp
  next
    case (WatchThread k c)
    then show ?thesis using drain_next watch_step_ok by simp
  next
    case ContextEnds
    then have "s' = s\<lparr>dr_ctxDone := dr_hasDone s\<rparr>" using drain_next(2) by simp
    then show ?thesis using drain_next(3) unfolding drain_ok_def by simp
  qed
qed (rule drain_ok_new)

section \<open>Shutdown is not left asleep\<close>

fun drain_rank :: "drain_pc \<Rightarrow> nat" where
  "drain_rank DrainStart = 4" | "drain_rank DrainLock = 3" | "drain_rank DrainLoop = 1" | "drain_rank DrainCtx = 3" | "drain_rank DrainEnter = 2"
| "drain_rank DrainTest = 2" | "drain_rank DrainWait = 7" | "drain_rank DrainWaiting = 6" | "drain_rank DrainWoken = 5"
| "drain_rank DrainSelect = 4" | "drain_rank DrainRecheck = 3" | "drain_rank (DrainReturned ok) = 0"

fun watch_rank :: "watch_pc \<Rightarrow> nat" where
  "watch_rank (WatchSelect b) = 4" | "watch_rank WatchLock = 3" | "watch_rank WatchBroadcast = 2" | "watch_rank WatchUnlock = 1" | "watch_rank WatchGone = 0"

definition steps_left :: "drain \<Rightarrow> nat" where
  "steps_left s = drain_rank (dr_pc s) + sum_list (map watch_rank (dr_watchers s))"

definition ended :: "claim_pc \<Rightarrow> bool" where
  "ended p \<longleftrightarrow> p \<in> {ClaimIdle, ClaimFinished, ClaimRejected}"

lemma ended_sums: "list_all ended ps \<Longrightarrow> sum_list (map in_claim ps) = 0 \<and> sum_list (map claim_holds ps) = 0 \<and> \<not> (\<exists>p \<in> set ps. will_broadcast p)"
  by (induction ps) (auto simp: ended_def will_broadcast_def)

lemma ended_awake:
  assumes "drain_ok s" and "list_all ended (dr_claims s)"
  shows "dr_inFlight s = 0" "dr_pc s \<noteq> DrainWaiting" "dr_pc s \<noteq> DrainWait"
  using assms ended_sums[OF assms(2)] by (auto simp: drain_ok_def)

lemma rank_close [simp]: "sum_list (map watch_rank (close_stop ws)) = sum_list (map watch_rank ws)"
  by (induction ws) (auto simp: close_stop_def)

lemma steps_decrease:
  assumes "drain_ok s" and "list_all ended (dr_claims s)"
  shows "drain_step s = Some s' \<Longrightarrow> steps_left s' < steps_left s \<and> dr_claims s' = dr_claims s"
    and "watch_step k c s = Some s' \<Longrightarrow> steps_left s' < steps_left s \<and> dr_claims s' = dr_claims s"
proof -
  note awake = ended_awake[OF assms]
  show "drain_step s = Some s' \<Longrightarrow> steps_left s' < steps_left s \<and> dr_claims s' = dr_claims s"
    using awake by (cases "dr_pc s") (auto simp: drain_step_def steps_left_def split: if_splits simp del: sum_list_eq_0_iff)
  show "steps_left s' < steps_left s \<and> dr_claims s' = dr_claims s" if st: "watch_step k c s = Some s'"
  proof -
    have k: "k < length (dr_watchers s)" using st by (auto simp: watch_step_def split: if_splits simp del: sum_list_eq_0_iff)
    note upd = sum_update[OF k, of watch_rank]
    show ?thesis using st k awake upd[of WatchLock] upd[of WatchGone] upd[of WatchBroadcast] upd[of WatchUnlock]
      by (cases "dr_watchers s ! k") (auto simp: watch_step_def Let_def steps_left_def wake_def split: if_splits simp del: sum_list_eq_0_iff)
  qed
qed

lemma somebody_steps:
  assumes "drain_ok s" and "list_all ended (dr_claims s)" and "dr_pc s \<noteq> DrainReturned True" and "dr_pc s \<noteq> DrainReturned False"
  shows "drain_step s \<noteq> None \<or> (\<exists>k c. watch_step k c s \<noteq> None)"
proof (cases "dr_locked s \<and> drain_holds (dr_pc s) = 0")
  case True
  then have "sum_list (map watch_holds (dr_watchers s)) \<noteq> 0" using assms(1) ended_sums[OF assms(2)] by (auto simp: drain_ok_def)
  then obtain k where k: "k < length (dr_watchers s)" "watch_holds (dr_watchers s ! k) \<noteq> 0"
    by (auto simp: sum_list_eq_0_iff in_set_conv_nth)
  then have "watch_step k True s \<noteq> None" by (cases "dr_watchers s ! k") (simp_all add: watch_step_def Let_def)
  then show ?thesis by blast
next
  case False
  have "dr_pc s \<noteq> DrainReturned ok" for ok using assms(3,4) by (cases ok) auto
  then show ?thesis using False ended_awake[OF assms(1,2)] by (cases "dr_pc s") (auto simp: drain_step_def)
qed

text \<open>
  C27. \<^verbatim>\<open>Shutdown\<close> is never left asleep. Under every interleaving with claims and with the end of its context: whenever \<^verbatim>\<open>Shutdown\<close> waits
  and nothing is in flight, some claim is about to broadcast. So once no claim is under way, \<^verbatim>\<open>Shutdown\<close> is not waiting, it or a
  watcher that holds the mutex can take a step until it has returned, and each such step brings it closer to that.
\<close>

theorem worker_shutdown_wakes:
  assumes "drain_run n hasDone s"
  shows "(dr_pc s = DrainWaiting \<and> dr_inFlight s = 0 \<longrightarrow> (\<exists>p \<in> set (dr_claims s). will_broadcast p))
    \<and> (list_all ended (dr_claims s) \<longrightarrow>
         dr_pc s \<noteq> DrainWaiting
         \<and> ((\<exists>ok. dr_pc s = DrainReturned ok) \<or> drain_step s \<noteq> None \<or> (\<exists>k c. watch_step k c s \<noteq> None))
         \<and> (\<forall>s'. drain_step s = Some s' \<or> (\<exists>k c. watch_step k c s = Some s') \<longrightarrow> steps_left s' < steps_left s \<and> list_all ended (dr_claims s')))"
proof -
  have ok: "drain_ok s" by (rule drain_run_ok[OF assms])
  have "(\<exists>ok. dr_pc s = DrainReturned ok) \<or> drain_step s \<noteq> None \<or> (\<exists>k c. watch_step k c s \<noteq> None)" if "list_all ended (dr_claims s)"
    using somebody_steps[OF ok that] by blast
  moreover have "dr_pc s = DrainWaiting \<and> dr_inFlight s = 0 \<longrightarrow> (\<exists>p \<in> set (dr_claims s). will_broadcast p)" using ok by (simp add: drain_ok_def)
  ultimately show ?thesis using ended_awake(2)[OF ok] steps_decrease[OF ok] by (metis (no_types, lifting))
qed

fun thread_run :: "drain_thread list \<Rightarrow> drain \<Rightarrow> drain option" where
  "thread_run [] s = Some s"
| "thread_run (th # ths) s = Option.bind (thread_step th s) (thread_run ths)"

lemma thread_run_reaches: "thread_run ths s = Some s' \<Longrightarrow> drain_run n hasDone s \<Longrightarrow> drain_run n hasDone s'"
  by (induction ths arbitrary: s) (auto simp: bind_eq_Some_conv intro: drain_next)

definition ex_threads :: "drain_thread list" where
  "ex_threads = [ClaimThread 0, ClaimThread 0, ClaimThread 0, ShutdownThread, ShutdownThread, ShutdownThread, ShutdownThread, ShutdownThread,
     ShutdownThread, ShutdownThread, ClaimThread 0]"

theorem worker_shutdown_wakes_witness:
  "\<exists>s p. thread_run ex_threads (new_drain 1 True) = Some s \<and> dr_pc s = DrainWaiting \<and> dr_inFlight s = 0 \<and> p \<in> set (dr_claims s) \<and> will_broadcast p"
proof -
  have "map_option (\<lambda>s. (dr_pc s, dr_inFlight s)) (thread_run ex_threads (new_drain 1 True)) = Some (DrainWaiting, 0)" by code_simp
  then obtain s where s: "thread_run ex_threads (new_drain 1 True) = Some s" "dr_pc s = DrainWaiting" "dr_inFlight s = 0" by auto
  from worker_shutdown_wakes[OF thread_run_reaches[OF s(1) drain_new]] s show ?thesis by blast
qed

end
