(* ===== verification/Sdk.thy ===== *)
theory Sdk
  imports Definitions
begin

text \<open>
  The value side of the public SDK: definitions, use cases and their registry (\<^verbatim>\<open>src/definition.go\<close>,
  \<^verbatim>\<open>src/binding.go\<close>, \<^verbatim>\<open>src/registry.go\<close>, \<^verbatim>\<open>src/usecase_*.go\<close>), and the internal use-case descriptors and
  requests (\<^verbatim>\<open>src/internal/sdk\<close>).

  Use cases and definitions are shared by pointer in Go. A pointer is a number here (\<open>co_ref\<close>, \<open>dr_ref\<close>),
  and a registry is identified by its link, which \<^verbatim>\<open>NewRegistryLink\<close> never gives out twice. The input
  type of use cases, a type parameter in Go and \<^verbatim>\<open>any\<close> inside, is the type variable \<open>'v\<close>.
\<close>

unbundle bit_operations_syntax

section \<open>Definitions\<close>

record definitionConfig =
  dc_strict :: bool
  dc_failIfHeld :: bool

record definitionRef =
  df_ref :: nat
  df_name :: string
  df_id :: string
  df_config :: definitionConfig

definition stableDefinitionID :: "string \<Rightarrow> string" where
  "stableDefinitionID name = name"

type_synonym 'v Binding = "('v \<Rightarrow> string result) option"

definition StrictDef :: "definitionConfig \<Rightarrow> definitionConfig" where
  "StrictDef cfg = cfg\<lparr>dc_strict := True\<rparr>"

definition FailIfHeldDef :: "definitionConfig \<Rightarrow> definitionConfig" where
  "FailIfHeldDef cfg = cfg\<lparr>dc_failIfHeld := True\<rparr>"

text \<open>
  A definition without a name or a binding panics in Go, here \<open>None\<close>. An option that is \<^verbatim>\<open>nil\<close> is skipped,
  so only the others are in the lists of options.
\<close>

definition DefineLock ::
  "nat \<Rightarrow> string \<Rightarrow> 'v Binding \<Rightarrow> (definitionConfig \<Rightarrow> definitionConfig) list \<Rightarrow> (definitionRef \<times> 'v Binding) option"
where
  "DefineLock ref name binding opts =
     (let name = trim_space name in
      if name = [] \<or> binding = None then None
      else Some (\<lparr>df_ref = ref, df_name = name, df_id = stableDefinitionID name,
             df_config = fold (\<lambda>opt. opt) opts \<lparr>dc_strict = False, dc_failIfHeld = False\<rparr>\<rparr>, binding))"

section \<open>Bindings\<close>

definition BindResourceID :: "string \<Rightarrow> ('v \<Rightarrow> string) option \<Rightarrow> 'v \<Rightarrow> string result" where
  "BindResourceID resource fn input =
     (let resource = trim_space resource in
      case fn of
        None \<Rightarrow> Inl (Sentinel ErrBindingFunctionRequired)
      | Some f \<Rightarrow>
          if resource = [] \<or> CHR '':'' \<in> set resource then Inl (Sentinel ErrResourcePrefixInvalid)
          else let id = trim_space (f input) in
            if id = [] then Inl (Sentinel ErrEmptyBindingValue) else Inr (resource @ '':'' @ id))"

definition BindKey :: "('v \<Rightarrow> string) option \<Rightarrow> 'v \<Rightarrow> string result" where
  "BindKey fn input =
     (case fn of
        None \<Rightarrow> Inl (Sentinel ErrBindingFunctionRequired)
      | Some f \<Rightarrow> let key = trim_space (f input) in
          if key = [] then Inl (Sentinel ErrEmptyBindingValue) else Inr key)"

section \<open>Use cases\<close>

datatype useCaseKind = useCaseKindRun | useCaseKindClaim | useCaseKindHold

record 'v compositeMemberConfig =
  mb_name :: string
  mb_rank :: int
  mb_definitionID :: string
  mb_memberIsStrict :: bool
  mb_failIfHeld :: bool
  mb_build :: "('v \<Rightarrow> (string, string) gomap result) option"

record 'v useCaseConfig =
  cg_ttl :: duration
  cg_wait :: duration
  cg_idempotent :: bool
  cg_lineageParent :: string
  cg_composite :: "'v compositeMemberConfig list"
  cg_definitionRef :: "definitionRef option"

type_synonym link = "64 word"

record 'v useCaseCore =
  co_ref :: nat
  co_name :: string
  co_kind :: useCaseKind
  co_config :: "'v useCaseConfig"
  co_definition :: "definitionRef option"
  co_registry :: "link option"

definition ResourceKeyInputKey :: string where
  "ResourceKeyInputKey = ''resource_key''"

definition DefinitionIDInputKey :: string where
  "DefinitionIDInputKey = ''definition_id''"

definition newUseCaseCoreWithDefinition ::
  "nat \<Rightarrow> string \<Rightarrow> useCaseKind \<Rightarrow> definitionRef \<Rightarrow> ('v useCaseConfig \<Rightarrow> 'v useCaseConfig) list \<Rightarrow> 'v useCaseCore"
where
  "newUseCaseCoreWithDefinition ref name kind def opts =
     \<lparr>co_ref = ref, co_name = trim_space name, co_kind = kind,
      co_config = fold (\<lambda>opt. opt) opts
        \<lparr>cg_ttl = 0, cg_wait = 0, cg_idempotent = False, cg_lineageParent = [], cg_composite = [],
         cg_definitionRef = Some def\<rparr>,
      co_definition = Some def, co_registry = None\<rparr>"

text \<open>A composite member as the caller declares it: name, definition, flags, and its binding.\<close>

record 'v CompositeMember =
  cmb_name :: string
  cmb_definitionID :: string
  cmb_isStrict :: bool
  cmb_failIfHeld :: bool
  cmb_build :: "('v \<Rightarrow> (string \<times> string) result) option"

definition TTL :: "duration \<Rightarrow> 'v useCaseConfig \<Rightarrow> 'v useCaseConfig" where
  "TTL ttl cfg = cfg\<lparr>cg_ttl := ttl\<rparr>"

definition WaitTimeout :: "duration \<Rightarrow> 'v useCaseConfig \<Rightarrow> 'v useCaseConfig" where
  "WaitTimeout timeout cfg = cfg\<lparr>cg_wait := timeout\<rparr>"

definition Idempotent :: "'v useCaseConfig \<Rightarrow> 'v useCaseConfig" where
  "Idempotent cfg = cfg\<lparr>cg_idempotent := True\<rparr>"

text \<open>The panics of \<^verbatim>\<open>MemberWithFlags\<close> are \<open>None\<close>.\<close>

definition MemberWithFlags ::
  "string \<Rightarrow> definitionRef option \<times> 'm Binding \<Rightarrow> bool \<Rightarrow> bool \<Rightarrow> ('v \<Rightarrow> 'm) option \<Rightarrow> 'v CompositeMember option"
where
  "MemberWithFlags name def isStrict failIfHeld project =
     (case project of
        None \<Rightarrow> None
      | Some proj \<Rightarrow>
          (case fst def of
             None \<Rightarrow> None
           | Some ref \<Rightarrow>
               (case snd def of
                  None \<Rightarrow> None
                | Some build \<Rightarrow>
                    if trim_space name = [] then None
                    else Some \<lparr>cmb_name = trim_space name, cmb_definitionID = df_id ref, cmb_isStrict = isStrict,
                      cmb_failIfHeld = failIfHeld,
                      cmb_build = Some (\<lambda>input. case build (proj input) of Inl err \<Rightarrow> Inl err
                        | Inr resourceKey \<Rightarrow> Inr (df_id ref, resourceKey))\<rparr>)))"

text \<open>\<^verbatim>\<open>Member\<close> reads the flags of its definition first; \<^verbatim>\<open>Config\<close> panics on a definition without reference.\<close>

definition Member ::
  "string \<Rightarrow> definitionRef option \<times> 'm Binding \<Rightarrow> ('v \<Rightarrow> 'm) option \<Rightarrow> 'v CompositeMember option"
where
  "Member name def project =
     (case fst def of
        None \<Rightarrow> None
      | Some ref \<Rightarrow> MemberWithFlags name def (dc_strict (df_config ref)) (dc_failIfHeld (df_config ref)) project)"

definition member_inputs :: "'v CompositeMember \<Rightarrow> 'v \<Rightarrow> (string, string) gomap result" where
  "member_inputs member input =
     (case cmb_build member of
        None \<Rightarrow> Inl (Sentinel ErrBindingFunctionRequired)
      | Some build \<Rightarrow>
          (case build input of
             Inl err \<Rightarrow> Inl err
           | Inr (definitionID, resourceKey) \<Rightarrow>
               let result = [(ResourceKeyInputKey, resourceKey)] in
               Inr (if definitionID \<noteq> [] then mput DefinitionIDInputKey definitionID result else result)))"

definition newUseCaseCoreWithComposite ::
  "nat \<Rightarrow> string \<Rightarrow> 'v CompositeMember list \<Rightarrow> ('v useCaseConfig \<Rightarrow> 'v useCaseConfig) list \<Rightarrow> 'v useCaseCore"
where
  "newUseCaseCoreWithComposite ref name members opts =
     (let composite = map (\<lambda>(index, member).
            \<lparr>mb_name = trim_space (cmb_name member), mb_rank = int index + 1,
             mb_definitionID = cmb_definitionID member, mb_memberIsStrict = cmb_isStrict member,
             mb_failIfHeld = cmb_failIfHeld member, mb_build = Some (member_inputs member)\<rparr>) (enumerate 0 members)
      in \<lparr>co_ref = ref, co_name = trim_space name, co_kind = useCaseKindRun,
          co_config = fold (\<lambda>opt. opt) opts
            \<lparr>cg_ttl = 0, cg_wait = 0, cg_idempotent = False, cg_lineageParent = [], cg_composite = composite,
             cg_definitionRef = None\<rparr>,
          co_definition = None, co_registry = None\<rparr>)"

definition DefineCompositeRunWithOptions ::
  "nat \<Rightarrow> string \<Rightarrow> ('v useCaseConfig \<Rightarrow> 'v useCaseConfig) list \<Rightarrow> 'v CompositeMember list \<Rightarrow> 'v useCaseCore \<times> 'v Binding"
where
  "DefineCompositeRunWithOptions ref name opts members = (newUseCaseCoreWithComposite ref name members opts, None)"

section \<open>The use-case registry\<close>

record 'v UseCaseRegistry =
  ur_byName :: "(string, 'v useCaseCore) gomap"
  ur_byDefName :: "(string, definitionRef) gomap"
  ur_byDefID :: "(string, definitionRef) gomap"
  ur_link :: link

definition newRegistryLink :: "link \<Rightarrow> link" where
  "newRegistryLink counter = counter + 1"

definition RegistryLinkMismatch :: "link \<Rightarrow> link \<Rightarrow> bool" where
  "RegistryLinkMismatch left right = (left \<noteq> right)"

definition NewUseCaseRegistry :: "link \<Rightarrow> 'v UseCaseRegistry" where
  "NewUseCaseRegistry counter = \<lparr>ur_byName = [], ur_byDefName = [], ur_byDefID = [], ur_link = newRegistryLink counter\<rparr>"

definition definitionRefForUseCase :: "'v useCaseCore \<Rightarrow> definitionRef option" where
  "definitionRefForUseCase core =
     (case co_definition core of Some d \<Rightarrow> Some d | None \<Rightarrow> cg_definitionRef (co_config core))"

text \<open>The checks of \<^verbatim>\<open>Register\<close>, in order; \<open>seen\<close> and \<open>seenDefNames\<close> are those of this call only.\<close>

fun plan_registration ::
  "'v UseCaseRegistry \<Rightarrow> 'v useCaseCore option list \<Rightarrow> string list \<Rightarrow> (string, definitionRef) gomap \<Rightarrow> 'v useCaseCore list
    \<Rightarrow> 'v useCaseCore list result"
where
  "plan_registration r [] seen seenDefNames planned = Inr planned"
| "plan_registration r (None # rest) seen seenDefNames planned = Inl (Errorf ''lockman: use case is nil'' [] [])"
| "plan_registration r (Some core # rest) seen seenDefNames planned =
     (if co_name core = [] then Inl (Errorf ''lockman: use case name is required'' [] [])
      else if co_registry core \<noteq> None \<and> co_registry core \<noteq> Some (ur_link r)
      then Inl (Errorf ''lockman: use case %q belongs to a different registry'' [co_name core] [])
      else if mget (ur_byName r) (co_name core) \<noteq> None
      then Inl (Errorf ''lockman: duplicate use case name %q'' [co_name core] [])
      else if co_name core \<in> set seen
      then Inl (Errorf ''lockman: duplicate use case name %q'' [co_name core] [])
      else case definitionRefForUseCase core of
        None \<Rightarrow> plan_registration r rest (co_name core # seen) seenDefNames (planned @ [core])
      | Some defRef \<Rightarrow>
          (case mget seenDefNames (df_name defRef) of
             Some existing \<Rightarrow>
               if df_ref existing \<noteq> df_ref defRef
               then Inl (Errorf ''lockman: duplicate definition name %q'' [df_name defRef] [])
               else plan_registration r rest (co_name core # seen) (mput (df_name defRef) defRef seenDefNames)
                      (planned @ [core])
           | None \<Rightarrow> plan_registration r rest (co_name core # seen) (mput (df_name defRef) defRef seenDefNames)
                      (planned @ [core])))"

definition register_core :: "'v useCaseCore \<Rightarrow> 'v UseCaseRegistry \<Rightarrow> 'v UseCaseRegistry" where
  "register_core core r =
     (let r1 = r\<lparr>ur_byName := mput (co_name core) (core\<lparr>co_registry := Some (ur_link r)\<rparr>) (ur_byName r)\<rparr> in
      case definitionRefForUseCase core of
        None \<Rightarrow> r1
      | Some defRef \<Rightarrow>
          let r2 = (if df_id defRef \<noteq> [] then r1\<lparr>ur_byDefID := mput (df_id defRef) defRef (ur_byDefID r1)\<rparr> else r1)
          in if df_name defRef \<noteq> [] then r2\<lparr>ur_byDefName := mput (df_name defRef) defRef (ur_byDefName r2)\<rparr> else r2)"

definition UseCaseRegistry_Register :: "'v UseCaseRegistry \<Rightarrow> 'v useCaseCore option list \<Rightarrow> 'v UseCaseRegistry \<times> go_err" where
  "UseCaseRegistry_Register r useCases =
     (case plan_registration r useCases [] [] [] of
        Inl err \<Rightarrow> (r, Some err)
      | Inr planned \<Rightarrow> (fold register_core planned r, None))"

definition registeredUseCases :: "'v UseCaseRegistry \<Rightarrow> 'v useCaseCore list" where
  "registeredUseCases r =
     (let names = sort (map fst (ur_byName r)) in map (\<lambda>name. the (mget (ur_byName r) name)) names)"

definition findDefinition :: "'v UseCaseRegistry \<Rightarrow> string \<Rightarrow> definitionRef option" where
  "findDefinition r i =
     (case mget (ur_byDefID r) i of
        Some def \<Rightarrow> Some def
      | None \<Rightarrow>
          (case mget (ur_byDefName r) i of
             Some def \<Rightarrow> Some def
           | None \<Rightarrow>
               find (\<lambda>def. df_id def = i \<or> df_name def = i)
                 (concat (map (\<lambda>(_, core).
                    (case co_definition core of None \<Rightarrow> [] | Some d \<Rightarrow> [d]) @
                    (case cg_definitionRef (co_config core) of None \<Rightarrow> [] | Some d \<Rightarrow> [d])) (ur_byName r)))))"

section \<open>Use-case descriptors\<close>

record CapabilityRequirements =
  rq_RequiresIdempotency :: bool
  rq_RequiresStrict :: bool
  rq_RequiresLineage :: bool

record UseCase =
  su_id :: string
  su_publicName :: string
  su_kind :: useCaseKind
  su_requirements :: CapabilityRequirements
  su_registryLink :: link

definition fnv64a :: "string \<Rightarrow> 64 word" where
  "fnv64a s = fold (\<lambda>c h. (h XOR of_nat (of_char c)) * 1099511628211) s 14695981039346656037"

definition nameDelimiter :: "useCaseKind \<Rightarrow> char" where
  "nameDelimiter kind = (case kind of
     useCaseKindRun \<Rightarrow> CHR ''r'' | useCaseKindClaim \<Rightarrow> CHR ''c'' | useCaseKindHold \<Rightarrow> CHR ''h'')"

fun hex_digits :: "nat \<Rightarrow> 64 word \<Rightarrow> string \<Rightarrow> string" where
  "hex_digits 0 v out = out"
| "hex_digits (Suc n) v out = hex_digits n (drop_bit 4 v) ((''0123456789abcdef'' ! unat (v AND 15)) # out)"

definition toHex :: "64 word \<Rightarrow> string" where
  "toHex v = hex_digits 16 v []"

definition stableUseCaseID :: "string \<Rightarrow> useCaseKind \<Rightarrow> string" where
  "stableUseCaseID name kind = ''sdk_uc_'' @ toHex (fnv64a (nameDelimiter kind # name))"

definition NewUseCase :: "string \<Rightarrow> useCaseKind \<Rightarrow> CapabilityRequirements \<Rightarrow> link \<Rightarrow> UseCase" where
  "NewUseCase name kind requirements lnk =
     \<lparr>su_id = stableUseCaseID (trim_space name) kind, su_publicName = trim_space name, su_kind = kind,
      su_requirements = requirements, su_registryLink = lnk\<rparr>"

definition NewUseCaseWithID :: "string \<Rightarrow> string \<Rightarrow> useCaseKind \<Rightarrow> CapabilityRequirements \<Rightarrow> link \<Rightarrow> UseCase" where
  "NewUseCaseWithID name definitionID kind requirements lnk =
     \<lparr>su_id = (if definitionID = [] then stableUseCaseID (trim_space name) kind else definitionID),
      su_publicName = trim_space name, su_kind = kind, su_requirements = requirements, su_registryLink = lnk\<rparr>"

record BackendCapabilities =
  bc_HasIdempotencyStore :: bool
  bc_HasStrictBackend :: bool
  bc_HasLineageBackend :: bool

fun ValidateCapabilities :: "UseCase list \<Rightarrow> BackendCapabilities \<Rightarrow> go_err" where
  "ValidateCapabilities [] capabilities = None"
| "ValidateCapabilities (uc # rest) capabilities =
     (if rq_RequiresIdempotency (su_requirements uc) \<and> \<not> bc_HasIdempotencyStore capabilities
      then Some (Sentinel ErrIdempotencyCapabilityRequired)
      else if rq_RequiresStrict (su_requirements uc) \<and> \<not> bc_HasStrictBackend capabilities
      then Some (Sentinel ErrStrictCapabilityRequired)
      else if rq_RequiresLineage (su_requirements uc) \<and> \<not> bc_HasLineageBackend capabilities
      then Some (Sentinel ErrLineageCapabilityRequired)
      else ValidateCapabilities rest capabilities)"

section \<open>Bound requests\<close>

record claimDelivery =
  cv_messageID :: string
  cv_consumerGroup :: string
  cv_attempt :: int

record sdkRunRequest =
  sr_useCaseID :: string
  sr_publicName :: string
  sr_resourceKey :: string
  sr_ownerID :: string
  sr_registryLink :: link

record sdkClaimRequest =
  sc_useCaseID :: string
  sc_publicName :: string
  sc_resourceKey :: string
  sc_ownerID :: string
  sc_delivery :: claimDelivery
  sc_idempotent :: bool
  sc_registryLink :: link

definition BindRunRequest :: "UseCase \<Rightarrow> string \<Rightarrow> string \<Rightarrow> sdkRunRequest" where
  "BindRunRequest uc resourceKey ownerID =
     \<lparr>sr_useCaseID = su_id uc, sr_publicName = su_publicName uc, sr_resourceKey = trim_space resourceKey,
      sr_ownerID = trim_space ownerID, sr_registryLink = su_registryLink uc\<rparr>"

definition BindClaimRequest :: "UseCase \<Rightarrow> string \<Rightarrow> string \<Rightarrow> claimDelivery \<Rightarrow> sdkClaimRequest" where
  "BindClaimRequest uc resourceKey ownerID delivery =
     \<lparr>sc_useCaseID = su_id uc, sc_publicName = su_publicName uc, sc_resourceKey = trim_space resourceKey,
      sc_ownerID = trim_space ownerID,
      sc_delivery = \<lparr>cv_messageID = trim_space (cv_messageID delivery),
        cv_consumerGroup = trim_space (cv_consumerGroup delivery), cv_attempt = cv_attempt delivery\<rparr>,
      sc_idempotent = rq_RequiresIdempotency (su_requirements uc), sc_registryLink = su_registryLink uc\<rparr>"

definition blank_ownership :: OwnershipMeta where
  "blank_ownership = \<lparr>om_ServiceName = [], om_InstanceID = [], om_HandlerName = [], om_OwnerID = [],
     om_RequestID = [], om_MessageID = [], om_Attempt = 0, om_ConsumerGroup = []\<rparr>"

definition TranslateRun :: "sdkRunRequest \<Rightarrow> SyncLockRequest" where
  "TranslateRun req =
     \<lparr>sy_DefinitionID = sr_useCaseID req, sy_ResourceKey = [],
      sy_KeyInput = Some [(ResourceKeyInputKey, sr_resourceKey req)],
      sy_Ownership = blank_ownership\<lparr>om_HandlerName := sr_publicName req, om_OwnerID := sr_ownerID req\<rparr>,
      sy_Overrides = None\<rparr>"

definition TranslateClaim :: "sdkClaimRequest \<Rightarrow> MessageClaimRequest" where
  "TranslateClaim req =
     \<lparr>mc_DefinitionID = sc_useCaseID req, mc_KeyInput = Some [(ResourceKeyInputKey, sc_resourceKey req)],
      mc_Ownership = blank_ownership\<lparr>om_HandlerName := sc_publicName req, om_OwnerID := sc_ownerID req,
        om_MessageID := cv_messageID (sc_delivery req), om_Attempt := cv_attempt (sc_delivery req),
        om_ConsumerGroup := cv_consumerGroup (sc_delivery req)\<rparr>,
      mc_IdempotencyKey = (if sc_idempotent req then cv_messageID (sc_delivery req) else []), mc_Overrides = None\<rparr>"

end
