(* ===== verification/Client_Plan.thy ===== *)
theory Client_Plan
  imports Sdk Engine_Registry Idempotency
begin

text \<open>
  Start-up of the client (\<^verbatim>\<open>src/client_validation.go\<close>, \<^verbatim>\<open>src/identity.go\<close>): use cases are checked against the
  backend's capabilities, merged into lock definitions and composites, and registered in an engine
  registry. A Go map that is ranged over is a list in insertion order here.
\<close>

section \<open>Configuration\<close>

record Identity =
  id_OwnerID :: string
  id_Service :: string
  id_Instance :: string

record ('s, 'i, 'v) clientConfig =
  cf_identity :: Identity
  cf_identityProvider :: "(go_ctx \<Rightarrow> Identity) option"
  cf_registry :: "'v UseCaseRegistry option"
  cf_backend :: "'s Driver option"
  cf_idempotency :: "'i Store option"
  cf_observer :: bool
  cf_inspectStore :: bool

record clientPlan =
  pl_engineRegistry :: Registry
  pl_hasRunUseCases :: bool
  pl_hasClaimUseCases :: bool
  pl_hasHoldUseCases :: bool
  pl_definitionIDByUseCase :: "(string, string) gomap"
  pl_lineageDefinitionIDs :: "string list option"

section \<open>Use cases\<close>

definition resolveDefinitionID :: "'v useCaseCore \<Rightarrow> string" where
  "resolveDefinitionID uc =
     (case co_definition uc of
        Some d \<Rightarrow> df_id d
      | None \<Rightarrow> (case cg_definitionRef (co_config uc) of Some d \<Rightarrow> df_id d | None \<Rightarrow> []))"

definition useCaseIsStrict :: "'v useCaseCore \<Rightarrow> bool" where
  "useCaseIsStrict uc =
     (case co_definition uc of
        Some d \<Rightarrow> dc_strict (df_config d)
      | None \<Rightarrow> (case cg_definitionRef (co_config uc) of Some d \<Rightarrow> dc_strict (df_config d) | None \<Rightarrow> False))"

definition hasStartupIdentity :: "('s, 'i, 'v) clientConfig \<Rightarrow> bool" where
  "hasStartupIdentity cfg =
     (if trim_space (id_OwnerID (cf_identity cfg)) \<noteq> [] then True else cf_identityProvider cfg \<noteq> None)"

type_synonym child_counts = "(string, int) gomap"

definition child_count :: "child_counts \<Rightarrow> string \<Rightarrow> int" where
  "child_count counts name = (case mget counts name of None \<Rightarrow> 0 | Some n \<Rightarrow> n)"

definition requirements :: "'v useCaseCore \<Rightarrow> child_counts \<Rightarrow> CapabilityRequirements" where
  "requirements uc counts =
     \<lparr>rq_RequiresIdempotency = (co_kind uc = useCaseKindClaim \<and> cg_idempotent (co_config uc)),
      rq_RequiresStrict = useCaseIsStrict uc,
      rq_RequiresLineage = (trim_space (cg_lineageParent (co_config uc)) \<noteq> [] \<or> 0 < child_count counts (co_name uc))\<rparr>"

definition normalizeUseCase :: "'v useCaseCore \<Rightarrow> child_counts \<Rightarrow> link \<Rightarrow> UseCase" where
  "normalizeUseCase uc counts lnk =
     (if resolveDefinitionID uc \<noteq> []
      then NewUseCaseWithID (co_name uc) (resolveDefinitionID uc) (co_kind uc) (requirements uc counts) lnk
      else NewUseCase (co_name uc) (co_kind uc) (requirements uc counts) lnk)"

definition toExecutionKind :: "useCaseKind \<Rightarrow> ExecutionKind" where
  "toExecutionKind kind = (if kind = useCaseKindClaim then ExecutionAsync else ExecutionSync)"

text \<open>The key builder of every SDK definition; \<^verbatim>\<open>MustTemplateKeyBuilder\<close> does not panic on it.\<close>

definition resource_key_builder :: "KeyBuilder option" where
  "resource_key_builder =
     (case NewTemplateKeyBuilder (''{'' @ ResourceKeyInputKey @ ''}'') [ResourceKeyInputKey] of
        Inl _ \<Rightarrow> None
      | Inr b \<Rightarrow> Some (template_builder b))"

definition defaultLeaseTTL :: duration where
  "defaultLeaseTTL = 30 * second"

definition base_definition :: "string \<Rightarrow> string \<Rightarrow> ExecutionKind \<Rightarrow> duration \<Rightarrow> duration \<Rightarrow> LockDefinition" where
  "base_definition i resource execKind ttl wait =
     \<lparr>ld_ID = i, ld_Kind = KindParent, ld_Resource = resource, ld_Mode = ModeStandard,
      ld_ExecutionKind = execKind, ld_LeaseTTL = ttl, ld_WaitTimeout = wait, ld_MaxRetries = 0,
      ld_BackendFailurePolicy = BackendPolicyOther [], ld_FencingRequired = False,
      ld_IdempotencyRequired = False, ld_CheckOnlyAllowed = False, ld_FailIfHeld = False,
      ld_Rank = 0, ld_ParentRef = [], ld_OverlapPolicy = OverlapOther [],
      ld_KeyBuilder = resource_key_builder, ld_Tags = None\<rparr>"

definition make_strict :: "LockDefinition \<Rightarrow> LockDefinition" where
  "make_strict def = def\<lparr>ld_Mode := ModeStrict, ld_FencingRequired := True, ld_BackendFailurePolicy := BackendFailClosed\<rparr>"

definition link_parent ::
  "string \<Rightarrow> string \<Rightarrow> (string, UseCase) gomap \<Rightarrow> LockDefinition \<Rightarrow> LockDefinition result"
where
  "link_parent ucName parentName normalizedByName def =
     (if parentName = [] then Inr def
      else case mget normalizedByName parentName of
        None \<Rightarrow> Inl (Errorf ''lockman: use case %q references unknown lineage parent %q: %w'' [ucName, parentName]
                  [Sentinel ErrUseCaseNotFound])
      | Some parent \<Rightarrow> Inr (def\<lparr>ld_Kind := KindChild, ld_ParentRef := su_id parent, ld_OverlapPolicy := OverlapReject\<rparr>))"

definition translateUseCaseDefinition ::
  "'v useCaseCore \<Rightarrow> UseCase \<Rightarrow> (string, UseCase) gomap \<Rightarrow> LockDefinition result"
where
  "translateUseCaseDefinition uc normalized normalizedByName =
     (let ttl = (if cg_ttl (co_config uc) \<le> 0 then defaultLeaseTTL else cg_ttl (co_config uc));
          def = base_definition (su_id normalized) (co_name uc) (toExecutionKind (co_kind uc)) ttl (cg_wait (co_config uc));
          def1 = (if co_kind uc = useCaseKindClaim \<and> cg_idempotent (co_config uc)
                  then def\<lparr>ld_IdempotencyRequired := True\<rparr> else def);
          def2 = (if useCaseIsStrict uc then make_strict def1 else def1)
      in link_parent (co_name uc) (trim_space (cg_lineageParent (co_config uc))) normalizedByName def2)"

definition replace_blanks :: "string \<Rightarrow> string" where
  "replace_blanks s = map (\<lambda>c. if c = CHR '' '' then CHR ''_'' else c) s"

definition compositeMemberDefinitionID :: "string \<Rightarrow> string \<Rightarrow> string" where
  "compositeMemberDefinitionID useCaseDefinitionID memberName =
     useCaseDefinitionID @ ''.member.'' @ replace_blanks memberName"

definition translateCompositeMemberDefinition ::
  "'v useCaseCore \<Rightarrow> UseCase \<Rightarrow> 'v compositeMemberConfig \<Rightarrow> LockDefinition result"
where
  "translateCompositeMemberDefinition uc normalized member =
     (let ttl = (if cg_ttl (co_config uc) \<le> 0 then defaultLeaseTTL else cg_ttl (co_config uc)) in
      if mb_name member = [] then Inl (Errorf ''lockman: composite member name is required for use case %q'' [co_name uc] [])
      else Inr ((base_definition (compositeMemberDefinitionID (su_id normalized) (mb_name member)) (mb_name member)
             ExecutionSync ttl (cg_wait (co_config uc)))
           \<lparr>ld_Rank := mb_rank member, ld_FailIfHeld := mb_failIfHeld member, ld_CheckOnlyAllowed := mb_failIfHeld member\<rparr>))"

section \<open>Shared definitions\<close>

text \<open>What the three passes collect for one definition id.\<close>

record 'v collected =
  cl_kinds :: "useCaseKind list"
  cl_useCases :: "'v useCaseCore list"
  cl_strict :: bool
  cl_ttls :: "(duration, string list) gomap"
  cl_waits :: "(duration, string list) gomap"
  cl_idempotent :: bool
  cl_lineage :: string
  cl_failIfHeld :: bool

type_synonym 'v collection = "(string, 'v collected) gomap"

definition no_collected :: "'v collected" where
  "no_collected = \<lparr>cl_kinds = [], cl_useCases = [], cl_strict = False, cl_ttls = [], cl_waits = [],
     cl_idempotent = False, cl_lineage = [], cl_failIfHeld = False\<rparr>"

definition collect :: "string \<Rightarrow> ('v collected \<Rightarrow> 'v collected) \<Rightarrow> 'v collection \<Rightarrow> 'v collection" where
  "collect i f c = mput i (f (case mget c i of None \<Rightarrow> no_collected | Some x \<Rightarrow> x)) c"

definition add_kind :: "useCaseKind \<Rightarrow> 'v collected \<Rightarrow> 'v collected" where
  "add_kind k c = (if k \<in> set (cl_kinds c) then c else c\<lparr>cl_kinds := cl_kinds c @ [k]\<rparr>)"

definition add_value :: "duration \<Rightarrow> string \<Rightarrow> (duration, string list) gomap \<Rightarrow> (duration, string list) gomap" where
  "add_value v name m = (if 0 < v then mput v ((case mget m v of None \<Rightarrow> [] | Some ns \<Rightarrow> ns) @ [name]) m else m)"

text \<open>The members of a use case that has no definition of its own.\<close>

definition shared_members :: "'v useCaseCore \<Rightarrow> 'v compositeMemberConfig list" where
  "shared_members uc = filter (\<lambda>member. mb_definitionID member \<noteq> []) (cg_composite (co_config uc))"

definition first_pass :: "'v useCaseCore \<Rightarrow> 'v collection \<Rightarrow> 'v collection" where
  "first_pass uc c =
     (if resolveDefinitionID uc = []
      then fold (\<lambda>member. collect (mb_definitionID member) (add_kind useCaseKindRun)) (shared_members uc) c
      else collect (resolveDefinitionID uc) id c)"

definition second_pass :: "'v useCaseCore \<Rightarrow> 'v collection \<Rightarrow> 'v collection" where
  "second_pass uc c =
     (if \<not> useCaseIsStrict uc then c
      else if resolveDefinitionID uc \<noteq> [] then collect (resolveDefinitionID uc) (\<lambda>x. x\<lparr>cl_strict := True\<rparr>) c
      else fold (\<lambda>member. collect (mb_definitionID member) (\<lambda>x. x\<lparr>cl_strict := True\<rparr>)) (shared_members uc) c)"

definition add_use_case :: "'v useCaseCore \<Rightarrow> 'v collected \<Rightarrow> 'v collected" where
  "add_use_case uc x =
     x\<lparr>cl_useCases := cl_useCases x @ [uc],
       cl_ttls := add_value (cg_ttl (co_config uc)) (co_name uc) (cl_ttls x),
       cl_waits := add_value (cg_wait (co_config uc)) (co_name uc) (cl_waits x)\<rparr>"

definition third_pass :: "'v useCaseCore \<Rightarrow> 'v collection \<Rightarrow> 'v collection" where
  "third_pass uc c =
     (if resolveDefinitionID uc = []
      then fold (\<lambda>member. collect (mb_definitionID member)
             (\<lambda>x. (add_use_case uc x)\<lparr>cl_failIfHeld := (cl_failIfHeld x \<or> mb_failIfHeld member)\<rparr>)) (shared_members uc) c
      else collect (resolveDefinitionID uc) (\<lambda>x. let x1 = add_use_case uc (add_kind (co_kind uc) x) in
             x1\<lparr>cl_idempotent := (cl_idempotent x1 \<or> co_kind uc = useCaseKindClaim \<and> cg_idempotent (co_config uc)),
                cl_lineage := (let parent = trim_space (cg_lineageParent (co_config uc)) in
                   if parent \<noteq> [] then parent else cl_lineage x1)\<rparr>) c)"

definition collect_all :: "'v useCaseCore list \<Rightarrow> 'v collection" where
  "collect_all useCases = fold third_pass useCases (fold second_pass useCases (fold first_pass useCases []))"

definition resolveDefinitionOption ::
  "string \<Rightarrow> string \<Rightarrow> (duration, string list) gomap \<Rightarrow> duration result"
where
  "resolveDefinitionOption optionName defID values =
     (case values of
        [] \<Rightarrow> Inr 0
      | [(v, _)] \<Rightarrow> Inr v
      | _ \<Rightarrow> Inl (Errorf ''lockman: shared definition %q has conflicting %s values across use cases: %s''
               (defID # optionName # concat (map snd values)) []))"

definition executionKindForDefinition :: "useCaseKind list \<Rightarrow> ExecutionKind" where
  "executionKindForDefinition kinds =
     (if useCaseKindRun \<in> set kinds \<and> useCaseKindClaim \<in> set kinds then ExecutionBoth
      else if useCaseKindClaim \<in> set kinds then ExecutionBoth
      else ExecutionSync)"

record plannedDefinition =
  pd_definition :: LockDefinition
  pd_useCaseNames :: "string list"

text \<open>One definition of the result loop. Every collected id has a use case, so the name list is not empty.\<close>

definition plan_definition ::
  "(string, UseCase) gomap \<Rightarrow> string \<Rightarrow> 'v collected \<Rightarrow> plannedDefinition result"
where
  "plan_definition normalizedByName defID c =
     (let useCaseNames = map co_name (cl_useCases c) in
      case resolveDefinitionOption ''TTL'' defID (cl_ttls c) of
        Inl err \<Rightarrow> Inl err
      | Inr ttl0 \<Rightarrow>
          (let ttl = (if ttl0 \<le> 0 then defaultLeaseTTL else ttl0) in
           case resolveDefinitionOption ''WaitTimeout'' defID (cl_waits c) of
             Inl err \<Rightarrow> Inl err
           | Inr wait \<Rightarrow>
               if cl_strict c \<and> length (cl_kinds c) = 1 \<and> useCaseKindHold \<in> set (cl_kinds c)
               then Inl (Errorf ''lockman: hold use case %q does not support strict mode'' (take 1 useCaseNames) [])
               else
                 let resourceName = (case useCaseNames of [n] \<Rightarrow> n | _ \<Rightarrow> defID);
                     def = base_definition defID resourceName (executionKindForDefinition (cl_kinds c)) ttl wait;
                     def1 = (if cl_idempotent c then def\<lparr>ld_IdempotencyRequired := True\<rparr> else def);
                     def2 = (if cl_strict c then make_strict def1 else def1);
                     def3 = (if cl_failIfHeld c then def2\<lparr>ld_FailIfHeld := True, ld_CheckOnlyAllowed := True\<rparr> else def2)
                 in (case link_parent (case useCaseNames of [] \<Rightarrow> [] | n # _ \<Rightarrow> n) (cl_lineage c) normalizedByName def3 of
                       Inl err \<Rightarrow> Inl err
                     | Inr def4 \<Rightarrow> Inr \<lparr>pd_definition = def4, pd_useCaseNames = useCaseNames\<rparr>)))"

fun plan_definitions ::
  "(string, UseCase) gomap \<Rightarrow> 'v collection \<Rightarrow> (string, plannedDefinition) gomap result"
where
  "plan_definitions normalizedByName [] = Inr []"
| "plan_definitions normalizedByName ((defID, c) # rest) =
     (case plan_definition normalizedByName defID c of
        Inl err \<Rightarrow> Inl err
      | Inr p \<Rightarrow> (case plan_definitions normalizedByName rest of Inl err \<Rightarrow> Inl err | Inr ps \<Rightarrow> Inr ((defID, p) # ps)))"

definition collectPlannedDefinitions ::
  "'v useCaseCore list \<Rightarrow> (string, UseCase) gomap \<Rightarrow> (string, plannedDefinition) gomap result"
where
  "collectPlannedDefinitions useCases normalizedByName = plan_definitions normalizedByName (collect_all useCases)"

definition isUseCaseUsingStrictDefinition :: "'v useCaseCore list \<Rightarrow> 'v useCaseCore \<Rightarrow> string \<Rightarrow> bool" where
  "isUseCaseUsingStrictDefinition useCases uc definitionID =
     (if useCaseIsStrict uc then True
      else list_ex (\<lambda>other.
        (resolveDefinitionID other = definitionID \<and> useCaseIsStrict other) \<or>
        list_ex (\<lambda>member. mb_definitionID member = definitionID \<and> useCaseIsStrict other) (cg_composite (co_config other)))
        useCases)"

definition isDefinitionStrict :: "'v useCaseCore list \<Rightarrow> string \<Rightarrow> bool" where
  "isDefinitionStrict useCases definitionID =
     list_ex (\<lambda>uc. list_ex (\<lambda>member. mb_definitionID member = definitionID
         \<and> isUseCaseUsingStrictDefinition useCases uc definitionID) (cg_composite (co_config uc))) useCases"

section \<open>Lineage\<close>

text \<open>The first loop: the parent of every definition, and the definitions that have one.\<close>

fun mark_children ::
  "LockDefinition list \<Rightarrow> (string, string) gomap \<Rightarrow> string list \<Rightarrow> (string, string) gomap \<times> string list"
where
  "mark_children [] parentByID marked = (parentByID, marked)"
| "mark_children (def # defs) parentByID marked =
     (let parent = trim_space (ld_ParentRef def) in
      mark_children defs (mput (ld_ID def) parent parentByID)
        (if parent \<noteq> [] \<and> ld_ID def \<notin> set marked then marked @ [ld_ID def] else marked))"

definition mark_pass :: "(string, string) gomap \<Rightarrow> string list \<Rightarrow> string list" where
  "mark_pass parentByID marked =
     fold (\<lambda>i marked. case mget parentByID i of
        None \<Rightarrow> marked
      | Some parent \<Rightarrow> if parent = [] \<or> parent \<in> set marked then marked else marked @ [parent]) marked marked"

lemma mark_pass_mono: "set marked \<subseteq> set (mark_pass parentByID marked)"
proof -
  have "set acc \<subseteq> set (fold (\<lambda>i marked. case mget parentByID i of
        None \<Rightarrow> marked
      | Some parent \<Rightarrow> if parent = [] \<or> parent \<in> set marked then marked else marked @ [parent]) xs acc)" for xs acc
    by (induction xs arbitrary: acc) (force split: option.split)+
  then show ?thesis by (simp add: mark_pass_def)
qed

lemma mark_pass_fold:
  "\<exists>new. fold (\<lambda>i marked. case mget parentByID i of
        None \<Rightarrow> marked
      | Some parent \<Rightarrow> if parent = [] \<or> parent \<in> set marked then marked else marked @ [parent]) xs acc = acc @ new
    \<and> set new \<subseteq> {p. p \<noteq> [] \<and> (\<exists>i \<in> set xs. mget parentByID i = Some p)} - set acc"
proof (induction xs arbitrary: acc)
  case (Cons x xs)
  show ?case
  proof (cases "case mget parentByID x of None \<Rightarrow> True | Some p \<Rightarrow> p = [] \<or> p \<in> set acc")
    case True
    then show ?thesis using Cons[of acc] by (fastforce split: option.splits)
  next
    case False
    then obtain p where p: "mget parentByID x = Some p" "p \<noteq> []" "p \<notin> set acc" by (auto split: option.splits)
    from Cons[of "acc @ [p]"] obtain new where
      "fold (\<lambda>i marked. case mget parentByID i of None \<Rightarrow> marked
        | Some parent \<Rightarrow> if parent = [] \<or> parent \<in> set marked then marked else marked @ [parent]) xs (acc @ [p]) = (acc @ [p]) @ new"
      "set new \<subseteq> {p. p \<noteq> [] \<and> (\<exists>i \<in> set xs. mget parentByID i = Some p)} - set (acc @ [p])" by blast
    then show ?thesis using p by (intro exI[of _ "p # new"]) auto
  qed
qed simp

text \<open>The outer loop, until a pass changes nothing.\<close>

function mark_loop :: "(string, string) gomap \<Rightarrow> string list \<Rightarrow> string list" where
  "mark_loop parentByID marked =
     (let marked' = mark_pass parentByID marked in
      if length marked' = length marked then marked' else mark_loop parentByID marked')"
  by pat_completeness auto
termination
proof (relation "measure (\<lambda>(parentByID, marked). card (snd ` set parentByID - set marked))", goal_cases)
  case (2 parentByID marked marked')
  obtain new where new: "marked' = marked @ new"
    "set new \<subseteq> {p. p \<noteq> [] \<and> (\<exists>i \<in> set marked. mget parentByID i = Some p)} - set marked"
    using mark_pass_fold[of parentByID marked marked] 2(1) by (auto simp: mark_pass_def)
  with 2(2) obtain p where p: "p \<in> set new" by (cases new) auto
  with new(2) have "p \<in> snd ` set parentByID - set marked" by (force dest: map_of_SomeD)
  moreover have "p \<in> set marked'" using p new(1) by simp
  ultimately have "snd ` set parentByID - set marked' \<subset> snd ` set parentByID - set marked" using new(1) by auto
  then show ?case by (simp add: psubset_card_mono)
qed simp

declare mark_loop.simps [simp del]

definition lineageDefinitionIDs :: "LockDefinition list \<Rightarrow> string list" where
  "lineageDefinitionIDs defs = (let (parentByID, marked) = mark_children defs [] [] in mark_loop parentByID marked)"

section \<open>The start-up plan\<close>

definition hasStrictBackend :: "'s Driver option \<Rightarrow> bool" where
  "hasStrictBackend drv = (case drv of None \<Rightarrow> False | Some D \<Rightarrow> as_StrictDriver D \<noteq> None)"

definition hasLineageBackend :: "'s Driver option \<Rightarrow> bool" where
  "hasLineageBackend drv = (case drv of None \<Rightarrow> False | Some D \<Rightarrow> as_LineageDriver D \<noteq> None)"

fun wrap_for_use_case :: "'v useCaseCore list \<Rightarrow> child_counts \<Rightarrow> go_error \<Rightarrow> go_err" where
  "wrap_for_use_case [] counts err = None"
| "wrap_for_use_case (uc # rest) counts err =
     (let requiresLineage = (trim_space (cg_lineageParent (co_config uc)) \<noteq> [] \<or> 0 < child_count counts (co_name uc)) in
      if errors_is err ErrIdempotencyCapabilityRequired \<and> co_kind uc = useCaseKindClaim \<and> cg_idempotent (co_config uc)
      then Some (Errorf ''lockman: use case %q requires WithIdempotency(...): %w'' [co_name uc] [Sentinel ErrIdempotencyRequired])
      else if errors_is err ErrStrictCapabilityRequired \<and> useCaseIsStrict uc
      then Some (Errorf ''lockman: use case %q requires strict backend support: %w'' [co_name uc] [Sentinel ErrBackendCapabilityRequired])
      else if errors_is err ErrLineageCapabilityRequired \<and> requiresLineage
      then Some (Errorf ''lockman: use case %q requires lineage backend support: %w'' [co_name uc] [Sentinel ErrBackendCapabilityRequired])
      else wrap_for_use_case rest counts err)"

definition wrapCapabilityError :: "'v useCaseCore list \<Rightarrow> child_counts \<Rightarrow> go_error \<Rightarrow> go_error" where
  "wrapCapabilityError useCases counts err =
     (case wrap_for_use_case useCases counts err of
        Some e \<Rightarrow> e
      | None \<Rightarrow>
          if errors_is err ErrIdempotencyCapabilityRequired
          then Errorf ''lockman: configure WithIdempotency(...): %w'' [] [Sentinel ErrIdempotencyRequired]
          else if errors_is err ErrStrictCapabilityRequired
          then Errorf ''lockman: backend must implement strict locking: %w'' [] [Sentinel ErrBackendCapabilityRequired]
          else if errors_is err ErrLineageCapabilityRequired
          then Errorf ''lockman: backend must implement lineage locking: %w'' [] [Sentinel ErrBackendCapabilityRequired]
          else err)"

definition wrapStartupManagerError :: "string \<Rightarrow> go_error \<Rightarrow> go_error" where
  "wrapStartupManagerError component err =
     (if errors_is err ErrRegistryViolation
      then Errorf ''lockman: %s setup invalid: %w'' [component] [Sentinel ErrRegistryRequired]
      else if errors_is err ErrPolicyViolation
      then Errorf ''lockman: %s backend rejected startup configuration: %w'' [component] [Sentinel ErrBackendCapabilityRequired]
      else err)"

text \<open>The first loop: modes that are not supported, and how many use cases name each parent.\<close>

definition check_mode :: "'v useCaseCore \<Rightarrow> go_err" where
  "check_mode uc =
     (if co_kind uc = useCaseKindHold \<and> useCaseIsStrict uc
      then Some (Errorf ''lockman: hold use case %q does not support strict mode'' [co_name uc] [])
      else if co_kind uc = useCaseKindHold \<and> cg_composite (co_config uc) \<noteq> []
      then Some (Errorf ''lockman: hold use case %q does not support composite mode'' [co_name uc] [])
      else if cg_composite (co_config uc) \<noteq> [] \<and> useCaseIsStrict uc
      then Some (Errorf ''lockman: composite use case %q does not support strict mode'' [co_name uc] [])
      else case find mb_memberIsStrict (cg_composite (co_config uc)) of
        Some member \<Rightarrow> Some (Errorf ''lockman: composite use case %q does not support strict member %q''
                         [co_name uc, mb_name member] [])
      | None \<Rightarrow> None)"

fun check_use_cases :: "'v useCaseCore list \<Rightarrow> child_counts \<Rightarrow> child_counts result" where
  "check_use_cases [] counts = Inr counts"
| "check_use_cases (uc # rest) counts =
     (case check_mode uc of
        Some err \<Rightarrow> Inl err
      | None \<Rightarrow>
          (let parentName = trim_space (cg_lineageParent (co_config uc)) in
           check_use_cases rest
             (if parentName = [] then counts else mput parentName (child_count counts parentName + 1) counts)))"

fun put_normalized :: "child_counts \<Rightarrow> link \<Rightarrow> 'v useCaseCore list \<Rightarrow> (string, UseCase) gomap \<Rightarrow> (string, UseCase) gomap" where
  "put_normalized counts lnk [] m = m"
| "put_normalized counts lnk (uc # rest) m =
     put_normalized counts lnk rest (mput (co_name uc) (normalizeUseCase uc counts lnk) m)"

definition normalized_by_name :: "'v useCaseCore list \<Rightarrow> child_counts \<Rightarrow> link \<Rightarrow> (string, UseCase) gomap" where
  "normalized_by_name useCases counts lnk = put_normalized counts lnk useCases []"

primrec normalized_list :: "'v useCaseCore list \<Rightarrow> child_counts \<Rightarrow> link \<Rightarrow> UseCase list" where
  "normalized_list [] counts lnk = []"
| "normalized_list (uc # rest) counts lnk = normalizeUseCase uc counts lnk # normalized_list rest counts lnk"

type_synonym plan_state = "Registry \<times> (string, string) gomap"

fun register_planned :: "plannedDefinition list \<Rightarrow> plan_state \<Rightarrow> plan_state result" where
  "register_planned [] st = Inr st"
| "register_planned (p # rest) (reg, ids) =
     (case Register reg (pd_definition p) of
        (_, Some err) \<Rightarrow> Inl (Errorf ''lockman: register definition %q: %w'' [ld_ID (pd_definition p)] [err])
      | (reg1, None) \<Rightarrow>
          register_planned rest (reg1, fold (\<lambda>ucName. mput ucName (ld_ID (pd_definition p))) (pd_useCaseNames p) ids))"

text \<open>The member loop of a composite use case. The result carries the flag \<^verbatim>\<open>hasStrictMember\<close>, which ends the loop.\<close>

fun register_members ::
  "'v useCaseCore list \<Rightarrow> 'v useCaseCore \<Rightarrow> UseCase \<Rightarrow> 'v compositeMemberConfig list \<Rightarrow> Registry \<Rightarrow> string list
    \<Rightarrow> (Registry \<times> string list \<times> bool) result"
where
  "register_members useCases uc norm [] reg memberIDs = Inr (reg, memberIDs, False)"
| "register_members useCases uc norm (member # rest) reg memberIDs =
     (if mb_definitionID member \<noteq> [] then
        if isDefinitionStrict useCases (mb_definitionID member) then Inr (reg, memberIDs, True)
        else register_members useCases uc norm rest reg (memberIDs @ [mb_definitionID member])
      else case translateCompositeMemberDefinition uc norm member of
        Inl err \<Rightarrow> Inl err
      | Inr def \<Rightarrow>
          (case Register reg def of
             (_, Some err) \<Rightarrow> Inl (Errorf ''lockman: register composite member %q for use case %q: %w''
                                [mb_name member, co_name uc] [err])
           | (reg1, None) \<Rightarrow> register_members useCases uc norm rest reg1 (memberIDs @ [ld_ID def])))"

definition composite_definition :: "string \<Rightarrow> string list \<Rightarrow> CompositeDefinition" where
  "composite_definition i memberIDs =
     \<lparr>cd_ID = i, cd_Members = memberIDs, cd_OrderingPolicy = OrderingCanonical, cd_AcquirePolicy = AcquireAllOrNothing,
      cd_EscalationPolicy = EscalationReject, cd_ModeResolution = ModeResolutionHomogeneous,
      cd_MaxMemberCount = int (length memberIDs), cd_ExecutionKind = ExecutionSync\<rparr>"

text \<open>One round of the loop over the use cases that have no definition of their own.\<close>

definition register_use_case ::
  "'v useCaseCore list \<Rightarrow> (string, UseCase) gomap \<Rightarrow> 'v useCaseCore \<Rightarrow> UseCase \<Rightarrow> plan_state \<Rightarrow> plan_state result"
where
  "register_use_case useCases normalizedByName uc norm = (\<lambda>(reg, ids).
     if cg_composite (co_config uc) = [] then
       case translateUseCaseDefinition uc norm normalizedByName of
         Inl err \<Rightarrow> Inl err
       | Inr def \<Rightarrow>
           (case Register reg def of
              (_, Some err) \<Rightarrow> Inl (Errorf ''lockman: register use case %q: %w'' [co_name uc] [err])
            | (reg1, None) \<Rightarrow> Inr (reg1, mput (co_name uc) (ld_ID def) ids))
     else case register_members useCases uc norm (cg_composite (co_config uc)) reg [] of
       Inl err \<Rightarrow> Inl err
     | Inr (reg1, memberIDs, hasStrictMember) \<Rightarrow>
         if hasStrictMember
         then Inl (Errorf ''lockman: composite use case %q does not support strict members'' [co_name uc] [])
         else case RegisterComposite reg1 (composite_definition (su_id norm) memberIDs) of
           (_, Some err) \<Rightarrow> Inl (Errorf ''lockman: register composite use case %q: %w'' [co_name uc] [err])
         | (reg2, None) \<Rightarrow> Inr (reg2, mput (co_name uc) (su_id norm) ids))"

fun register_use_cases ::
  "'v useCaseCore list \<Rightarrow> (string, UseCase) gomap \<Rightarrow> 'v useCaseCore list \<Rightarrow> plan_state \<Rightarrow> plan_state result"
where
  "register_use_cases useCases normalizedByName [] st = Inr st"
| "register_use_cases useCases normalizedByName (uc # rest) st =
     (if resolveDefinitionID uc \<noteq> [] then register_use_cases useCases normalizedByName rest st
      else case register_use_case useCases normalizedByName uc (the (mget normalizedByName (co_name uc))) st of
        Inl err \<Rightarrow> Inl err
      | Inr st1 \<Rightarrow> register_use_cases useCases normalizedByName rest st1)"

definition plan_registry ::
  "'v useCaseCore list \<Rightarrow> child_counts \<Rightarrow> link \<Rightarrow> plan_state result"
where
  "plan_registry useCases counts lnk =
     (let normalizedByName = normalized_by_name useCases counts lnk in
      case collectPlannedDefinitions useCases normalizedByName of
        Inl err \<Rightarrow> Inl err
      | Inr plannedDefs \<Rightarrow>
          (case register_planned (map snd plannedDefs) (NewRegistry, []) of
             Inl err \<Rightarrow> Inl err
           | Inr st \<Rightarrow> register_use_cases useCases normalizedByName useCases st))"

definition buildClientPlan :: "('s, 'i, 'v) clientConfig \<Rightarrow> clientPlan result" where
  "buildClientPlan cfg =
     (case cf_registry cfg of
        None \<Rightarrow> Inl (Sentinel ErrRegistryRequired)
      | Some registry \<Rightarrow>
          (let useCases = registeredUseCases registry in
           if useCases = [] then
             if \<not> hasStartupIdentity cfg then Inl (Sentinel ErrIdentityRequired)
             else Inr \<lparr>pl_engineRegistry = NewRegistry, pl_hasRunUseCases = False, pl_hasClaimUseCases = False,
                    pl_hasHoldUseCases = False, pl_definitionIDByUseCase = [], pl_lineageDefinitionIDs = None\<rparr>
           else if \<not> hasStartupIdentity cfg
           then Inl (Errorf ''lockman: configure WithIdentity(...) or WithIdentityProvider(...): %w'' []
                  [Sentinel ErrIdentityRequired])
           else if cf_backend cfg = None
           then Inl (Errorf ''lockman: configure WithBackend(...): %w'' [] [Sentinel ErrBackendRequired])
           else case check_use_cases useCases [] of
             Inl err \<Rightarrow> Inl err
           | Inr childCounts \<Rightarrow>
               (case ValidateCapabilities (normalized_list useCases childCounts (ur_link registry))
                   \<lparr>bc_HasIdempotencyStore = (cf_idempotency cfg \<noteq> None),
                    bc_HasStrictBackend = hasStrictBackend (cf_backend cfg),
                    bc_HasLineageBackend = hasLineageBackend (cf_backend cfg)\<rparr> of
                  Some err \<Rightarrow> Inl (wrapCapabilityError useCases childCounts err)
                | None \<Rightarrow>
                    (case plan_registry useCases childCounts (ur_link registry) of
                       Inl err \<Rightarrow> Inl err
                     | Inr (engineRegistry, definitionIDByUseCase) \<Rightarrow>
                         Inr \<lparr>pl_engineRegistry = engineRegistry,
                           pl_hasRunUseCases = list_ex (\<lambda>uc. co_kind uc = useCaseKindRun) useCases,
                           pl_hasClaimUseCases = list_ex (\<lambda>uc. co_kind uc = useCaseKindClaim) useCases,
                           pl_hasHoldUseCases = list_ex (\<lambda>uc. co_kind uc = useCaseKindHold) useCases,
                           pl_definitionIDByUseCase = definitionIDByUseCase,
                           pl_lineageDefinitionIDs = Some (lineageDefinitionIDs (Registry_Definitions engineRegistry))\<rparr>))))"

end
