(* ===== verification/Hold_Token.thy ===== *)
theory Hold_Token
  imports Base64
begin

text \<open>
  Hold tokens (\<^verbatim>\<open>src/internal/sdk/token.go\<close>): the keys and the owner of a hold, written with 16-bit
  big-endian length prefixes and then in unpadded URL-safe base64.
\<close>

section \<open>Tokens\<close>

definition holdTokenPrefix :: string where
  "holdTokenPrefix = ''h1_''"

definition appendUint16 :: "nat \<Rightarrow> string" where
  "appendUint16 n = [char_of (n div 256), char_of (n mod 256)]"

fun encode_keys :: "string list \<Rightarrow> string result" where
  "encode_keys [] = Inr []"
| "encode_keys (key # keys) =
     (if 65535 < length key then Inl (Sentinel ErrInvalidHoldToken)
      else case encode_keys keys of
        Inl err \<Rightarrow> Inl err
      | Inr payload \<Rightarrow> Inr (appendUint16 (length key) @ key @ payload))"

definition EncodeHoldToken :: "string list \<Rightarrow> string \<Rightarrow> string result" where
  "EncodeHoldToken resourceKeys ownerID =
     (if 65535 < length resourceKeys then Inl (Sentinel ErrInvalidHoldToken)
      else case encode_keys resourceKeys of
        Inl err \<Rightarrow> Inl err
      | Inr keys \<Rightarrow>
          if 65535 < length ownerID then Inl (Sentinel ErrInvalidHoldToken)
          else Inr (holdTokenPrefix @ b64_encode
            (appendUint16 (length resourceKeys) @ keys @ appendUint16 (length ownerID) @ ownerID)))"

text \<open>The readers work on the part of the payload that follows the offset.\<close>

definition readUint16 :: "string \<Rightarrow> (nat \<times> string) result" where
  "readUint16 bs = (case bs of
     hi # lo # rest \<Rightarrow> Inr (of_char hi * 256 + of_char lo, rest)
   | _ \<Rightarrow> Inl (Sentinel ErrInvalidHoldToken))"

definition read_string :: "string \<Rightarrow> (string \<times> string) result" where
  "read_string bs = (case readUint16 bs of
     Inl err \<Rightarrow> Inl err
   | Inr (n, rest) \<Rightarrow> if length rest < n then Inl (Sentinel ErrInvalidHoldToken) else Inr (take n rest, drop n rest))"

fun read_keys :: "nat \<Rightarrow> string \<Rightarrow> (string list \<times> string) result" where
  "read_keys 0 bs = Inr ([], bs)"
| "read_keys (Suc n) bs = (case read_string bs of
     Inl err \<Rightarrow> Inl err
   | Inr (key, rest) \<Rightarrow>
       (case read_keys n rest of
          Inl err \<Rightarrow> Inl err
        | Inr (keys, rest') \<Rightarrow> Inr (key # keys, rest')))"

definition DecodeHoldToken :: "string \<Rightarrow> (string list \<times> string) result" where
  "DecodeHoldToken token =
     (if token = [] \<or> \<not> prefix holdTokenPrefix token then Inl (Sentinel ErrInvalidHoldToken)
      else case b64_decode (drop (length holdTokenPrefix) token) of
        None \<Rightarrow> Inl (Sentinel ErrInvalidHoldToken)
      | Some decoded \<Rightarrow>
          (case readUint16 decoded of
             Inl err \<Rightarrow> Inl err
           | Inr (keyCount, rest) \<Rightarrow>
               (case read_keys keyCount rest of
                  Inl err \<Rightarrow> Inl err
                | Inr (resourceKeys, rest1) \<Rightarrow>
                    (case read_string rest1 of
                       Inl err \<Rightarrow> Inl err
                     | Inr (ownerID, rest2) \<Rightarrow>
                         if rest2 \<noteq> [] then Inl (Sentinel ErrInvalidHoldToken)
                         else Inr (resourceKeys, ownerID)))))"

lemma readUint16_append: "n \<le> 65535 \<Longrightarrow> readUint16 (appendUint16 n @ bs) = Inr (n, bs)"
  by (simp add: readUint16_def appendUint16_def of_char_mod_256 div_less_iff_less_mult)

lemma read_string_append: "length s \<le> 65535 \<Longrightarrow> read_string (appendUint16 (length s) @ s @ bs) = Inr (s, bs)"
  by (simp add: read_string_def readUint16_append)

lemma encode_keys_ok:
  "encode_keys keys = (if \<exists>key \<in> set keys. 65535 < length key then Inl (Sentinel ErrInvalidHoldToken)
     else Inr (concat (map (\<lambda>key. appendUint16 (length key) @ key) keys)))"
  by (induction keys) auto

lemma read_keys_concat:
  "\<forall>key \<in> set keys. length key \<le> 65535 \<Longrightarrow>
   read_keys (length keys) (concat (map (\<lambda>key. appendUint16 (length key) @ key) keys) @ bs) = Inr (keys, bs)"
  by (induction keys) (simp_all add: read_string_append)

lemma EncodeHoldToken_eq:
  "EncodeHoldToken keys ow =
     (if 65535 < length keys \<or> 65535 < length ow \<or> (\<exists>key \<in> set keys. 65535 < length key)
      then Inl (Sentinel ErrInvalidHoldToken)
      else Inr (holdTokenPrefix @ b64_encode
        (appendUint16 (length keys) @ concat (map (\<lambda>key. appendUint16 (length key) @ key) keys) @ appendUint16 (length ow) @ ow)))"
  by (auto simp: EncodeHoldToken_def encode_keys_ok)

lemma DecodeHoldToken_Encode:
  assumes "EncodeHoldToken keys ow = Inr token"
  shows "DecodeHoldToken token = Inr (keys, ow)"
proof -
  have le: "length keys \<le> 65535" "length ow \<le> 65535" "\<forall>key \<in> set keys. length key \<le> 65535"
    and token: "token = holdTokenPrefix @ b64_encode
      (appendUint16 (length keys) @ concat (map (\<lambda>key. appendUint16 (length key) @ key) keys) @ appendUint16 (length ow) @ ow)"
    using assms by (auto simp: EncodeHoldToken_eq not_less split: if_splits)
  have "prefix holdTokenPrefix (holdTokenPrefix @ x)" "drop (length holdTokenPrefix) (holdTokenPrefix @ x) = x"
    "holdTokenPrefix @ x \<noteq> []" for x by (simp_all add: holdTokenPrefix_def)
  then show ?thesis
    using le read_string_append[of ow "[]"] unfolding token
    by (simp add: DecodeHoldToken_def b64_decode_encode readUint16_append read_keys_concat)
qed

text \<open>
  C33. Hold tokens round-trip. Encoding fails exactly when the number of keys, a key or the owner exceeds
  65535, and a token that was encoded decodes to the same keys, in the same order, and the same owner,
  for keys and owners of arbitrary bytes.
\<close>

theorem hold_token_roundtrip:
  "(case EncodeHoldToken keys ow of
      Inr token \<Rightarrow> DecodeHoldToken token = Inr (keys, ow)
    | Inl err \<Rightarrow> err = Sentinel ErrInvalidHoldToken
        \<and> (65535 < length keys \<or> 65535 < length ow \<or> (\<exists>key. key \<in> set keys \<and> 65535 < length key)))"
proof (cases "EncodeHoldToken keys ow")
  case (Inl err)
  then show ?thesis by (auto simp: EncodeHoldToken_eq split: if_splits)
next
  case (Inr token)
  then show ?thesis using DecodeHoldToken_Encode by simp
qed

end
