(* ===== verification/Client.thy ===== *)
theory Client
  imports Client_Plan Hold_Token Runtime Workers
begin

text \<open>
  The public client (\<^verbatim>\<open>src/client*.go\<close>, \<^verbatim>\<open>src/usecase_*.go\<close>, \<^verbatim>\<open>src/request.go\<close>) and the hold manager
  (\<^verbatim>\<open>src/lockkit/holds\<close>): requests are bound from use cases, checked against the client's registry and
  identity, and handed to the runtime manager, the worker manager or the hold manager.

  \<^item> A \<^verbatim>\<open>nil\<close> client, use case, binding or callback is \<open>None\<close>.
  \<^item> An operation loads the flag \<^verbatim>\<open>shuttingDown\<close> at its start and once more when it maps an engine error;
    another goroutine may set it in between, so the two values are arguments, \<open>down\<close> and \<open>down'\<close>.
  \<^item> \<^verbatim>\<open>Run\<close>, \<^verbatim>\<open>Hold\<close> and \<^verbatim>\<open>Forfeit\<close> act on the world of the runtime manager, whose backend and clock the
    hold manager shares, \<^verbatim>\<open>Claim\<close> on the world of the worker manager.
\<close>

section \<open>Use cases and their requests\<close>

record callConfig =
  ca_ownerID :: string
  ca_ownerIDSet :: bool

definition applyCallOptions :: "(callConfig \<Rightarrow> callConfig) option list \<Rightarrow> callConfig" where
  "applyCallOptions opts =
     fold (\<lambda>opt. case opt of None \<Rightarrow> id | Some f \<Rightarrow> f) opts \<lparr>ca_ownerID = [], ca_ownerIDSet = False\<rparr>"

definition OwnerID :: "string \<Rightarrow> callConfig \<Rightarrow> callConfig" where
  "OwnerID i cfg = cfg\<lparr>ca_ownerIDSet := True, ca_ownerID := trim_space i\<rparr>"

record 'v RunRequest =
  rr_useCaseName :: string
  rr_resourceKey :: string
  rr_compositeMemberInputs :: "(string, string) gomap list"
  rr_ownerID :: string
  rr_useCaseCore :: "'v useCaseCore option"
  rr_cachedNormalized :: UseCase
  rr_registryLink :: link
  rr_boundToRegistry :: bool

record Delivery =
  de_MessageID :: string
  de_ConsumerGroup :: string
  de_Attempt :: int

record 'v ClaimRequest =
  cq_useCaseName :: string
  cq_resourceKey :: string
  cq_ownerID :: string
  cq_delivery :: Delivery
  cq_useCaseCore :: "'v useCaseCore option"
  cq_registryLink :: link
  cq_boundToRegistry :: bool

record 'v HoldRequest =
  hr_useCaseName :: string
  hr_resourceKey :: string
  hr_ownerID :: string
  hr_useCaseCore :: "'v useCaseCore option"
  hr_registryLink :: link
  hr_boundToRegistry :: bool

record 'v ForfeitRequest =
  fr_useCaseName :: string
  fr_token :: string
  fr_useCaseCore :: "'v useCaseCore option"
  fr_registryLink :: link
  fr_boundToRegistry :: bool

record Lease =
  le_UseCase :: string
  le_ResourceKey :: string
  le_ResourceKeys :: "string list"
  le_LeaseTTL :: duration
  le_Deadline :: time
  le_FencingToken :: token

record Claim =
  cn_UseCase :: string
  cn_ResourceKey :: string
  cn_LeaseTTL :: duration
  cn_Deadline :: time
  cn_FencingToken :: token
  cn_IdempotencyKey :: string

definition DefineRunOn ::
  "nat \<Rightarrow> string \<Rightarrow> definitionRef \<Rightarrow> 'v Binding \<Rightarrow> ('v useCaseConfig \<Rightarrow> 'v useCaseConfig) list \<Rightarrow> 'v useCaseCore \<times> 'v Binding"
where
  "DefineRunOn ref name def binding opts = (newUseCaseCoreWithDefinition ref name useCaseKindRun def opts, binding)"

definition DefineClaimOn ::
  "nat \<Rightarrow> string \<Rightarrow> definitionRef \<Rightarrow> 'v Binding \<Rightarrow> ('v useCaseConfig \<Rightarrow> 'v useCaseConfig) list \<Rightarrow> 'v useCaseCore \<times> 'v Binding"
where
  "DefineClaimOn ref name def binding opts = (newUseCaseCoreWithDefinition ref name useCaseKindClaim def opts, binding)"

text \<open>A hold on a strict definition panics, here \<open>None\<close>.\<close>

definition DefineHoldOn ::
  "nat \<Rightarrow> string \<Rightarrow> definitionRef \<Rightarrow> 'v Binding \<Rightarrow> ('v useCaseConfig \<Rightarrow> 'v useCaseConfig) list \<Rightarrow> ('v useCaseCore \<times> 'v Binding) option"
where
  "DefineHoldOn ref name def binding opts =
     (if dc_strict (df_config def) then None
      else Some (newUseCaseCoreWithDefinition ref name useCaseKindHold def opts, binding))"

fun buildCompositeMemberInputs ::
  "'v \<Rightarrow> 'v compositeMemberConfig list \<Rightarrow> (string, string) gomap list result"
where
  "buildCompositeMemberInputs input [] = Inr []"
| "buildCompositeMemberInputs input (member # rest) =
     (case mb_build member of
        None \<Rightarrow> Inl (Sentinel ErrBindingFunctionRequired)
      | Some build \<Rightarrow>
          if mb_name member = [] then Inl (Errorf ''lockman: composite member name is required'' [] [])
          else case build input of
            Inl err \<Rightarrow> Inl err
          | Inr bound \<Rightarrow>
              (case buildCompositeMemberInputs input rest of Inl err \<Rightarrow> Inl err | Inr inputs \<Rightarrow> Inr (bound # inputs)))"

definition owner_override :: "(callConfig \<Rightarrow> callConfig) option list \<Rightarrow> string result" where
  "owner_override opts =
     (let call = applyCallOptions opts in
      if ca_ownerIDSet call \<and> ca_ownerID call = []
      then Inl (Errorf ''lockman: owner override is required: %w'' [] [Sentinel ErrIdentityRequired])
      else Inr (ca_ownerID call))"

definition link_of :: "'v useCaseCore \<Rightarrow> link" where
  "link_of core = (case co_registry core of None \<Rightarrow> 0 | Some l \<Rightarrow> l)"

definition run_request :: "'v useCaseCore \<Rightarrow> string \<Rightarrow> (string, string) gomap list \<Rightarrow> string \<Rightarrow> 'v RunRequest" where
  "run_request core key inputs owner =
     \<lparr>rr_useCaseName = co_name core, rr_resourceKey = key, rr_compositeMemberInputs = inputs, rr_ownerID = owner,
      rr_useCaseCore = Some core, rr_cachedNormalized = normalizeUseCase core [] (link_of core),
      rr_registryLink = link_of core, rr_boundToRegistry = (co_registry core \<noteq> None)\<rparr>"

definition Run_With ::
  "'v useCaseCore option \<times> 'v Binding \<Rightarrow> 'v \<Rightarrow> (callConfig \<Rightarrow> callConfig) option list \<Rightarrow> 'v RunRequest result"
where
  "Run_With u input opts =
     (case fst u of
        None \<Rightarrow> Inl (Errorf ''lockman: run use case is not defined'' [] [])
      | Some core \<Rightarrow>
          if cg_composite (co_config core) = [] \<and> snd u = None
          then Inl (Errorf ''lockman: run use case binding is required'' [] [])
          else case owner_override opts of
            Inl err \<Rightarrow> Inl err
          | Inr owner \<Rightarrow>
              if cg_composite (co_config core) \<noteq> [] then
                (case buildCompositeMemberInputs input (cg_composite (co_config core)) of
                   Inl err \<Rightarrow> Inl (Errorf ''lockman: bind composite run request: %w'' [] [err])
                 | Inr inputs \<Rightarrow> Inr (run_request core [] inputs owner))
              else
                (case the (snd u) input of
                   Inl err \<Rightarrow> Inl (Errorf ''lockman: bind run request: %w'' [] [err])
                 | Inr key \<Rightarrow> Inr (run_request core key [] owner)))"

definition validateDelivery :: "Delivery \<Rightarrow> go_err" where
  "validateDelivery delivery =
     (if trim_space (de_MessageID delivery) = [] then Some (Errorf ''lockman: delivery message id is required'' [] [])
      else if trim_space (de_ConsumerGroup delivery) = []
      then Some (Errorf ''lockman: delivery consumer group is required'' [] [])
      else if de_Attempt delivery \<le> 0 then Some (Errorf ''lockman: delivery attempt must be positive'' [] [])
      else None)"

definition Claim_With ::
  "'v useCaseCore option \<times> 'v Binding \<Rightarrow> 'v \<Rightarrow> Delivery \<Rightarrow> (callConfig \<Rightarrow> callConfig) option list \<Rightarrow> 'v ClaimRequest result"
where
  "Claim_With u input delivery opts =
     (case fst u of
        None \<Rightarrow> Inl (Errorf ''lockman: claim use case is not defined'' [] [])
      | Some core \<Rightarrow>
          (case snd u of
             None \<Rightarrow> Inl (Errorf ''lockman: claim use case binding is required'' [] [])
           | Some build \<Rightarrow>
               (case validateDelivery delivery of
                  Some err \<Rightarrow> Inl err
                | None \<Rightarrow>
                    (case build input of
                       Inl err \<Rightarrow> Inl (Errorf ''lockman: bind claim request: %w'' [] [err])
                     | Inr key \<Rightarrow>
                         (case owner_override opts of
                            Inl err \<Rightarrow> Inl err
                          | Inr owner \<Rightarrow>
                              Inr \<lparr>cq_useCaseName = co_name core, cq_resourceKey = key, cq_ownerID = owner,
                                cq_delivery = delivery, cq_useCaseCore = Some core, cq_registryLink = link_of core,
                                cq_boundToRegistry = (co_registry core \<noteq> None)\<rparr>)))))"

definition Hold_With ::
  "'v useCaseCore option \<times> 'v Binding \<Rightarrow> 'v \<Rightarrow> (callConfig \<Rightarrow> callConfig) option list \<Rightarrow> 'v HoldRequest result"
where
  "Hold_With u input opts =
     (case fst u of
        None \<Rightarrow> Inl (Errorf ''lockman: hold use case is not defined'' [] [])
      | Some core \<Rightarrow>
          (case snd u of
             None \<Rightarrow> Inl (Errorf ''lockman: hold use case binding is required'' [] [])
           | Some build \<Rightarrow>
               (case owner_override opts of
                  Inl err \<Rightarrow> Inl err
                | Inr owner \<Rightarrow>
                    (case build input of
                       Inl err \<Rightarrow> Inl (Errorf ''lockman: bind hold request: %w'' [] [err])
                     | Inr key \<Rightarrow>
                         Inr \<lparr>hr_useCaseName = co_name core, hr_resourceKey = key, hr_ownerID = owner,
                           hr_useCaseCore = Some core, hr_registryLink = link_of core,
                           hr_boundToRegistry = (co_registry core \<noteq> None)\<rparr>))))"

definition ForfeitWith :: "'v useCaseCore option \<Rightarrow> string \<Rightarrow> 'v ForfeitRequest" where
  "ForfeitWith u token =
     (case u of
        None \<Rightarrow> \<lparr>fr_useCaseName = [], fr_token = token, fr_useCaseCore = None, fr_registryLink = 0, fr_boundToRegistry = False\<rparr>
      | Some core \<Rightarrow>
          \<lparr>fr_useCaseName = co_name core, fr_token = token, fr_useCaseCore = Some core, fr_registryLink = link_of core,
           fr_boundToRegistry = (co_registry core \<noteq> None)\<rparr>)"

section \<open>The hold manager\<close>

record 's HoldManager =
  hm_registry :: Registry
  hm_driver :: "'s Driver"

definition NewHoldManager :: "Registry \<Rightarrow> 's Driver option \<Rightarrow> 's HoldManager result" where
  "NewHoldManager reg driver =
     (case Validate reg of
        Some e \<Rightarrow> Inl (Errorf ''%w: %v'' [] [Sentinel ErrRegistryViolation])
      | None \<Rightarrow>
          (case driver of
             None \<Rightarrow> Inl (Sentinel ErrPolicyViolation)
           | Some D \<Rightarrow> Inr \<lparr>hm_registry = reg, hm_driver = D\<rparr>))"

text \<open>The recovered panic of \<^verbatim>\<open>MustGet\<close> becomes \<^verbatim>\<open>ErrPolicyViolation\<close>.\<close>

definition getDefinition :: "'s HoldManager \<Rightarrow> string \<Rightarrow> LockDefinition result" where
  "getDefinition m i = (case MustGet (hm_registry m) i of Inl _ \<Rightarrow> Inl (Sentinel ErrPolicyViolation) | Inr def \<Rightarrow> Inr def)"

definition HoldManager_Acquire ::
  "'s HoldManager \<Rightarrow> bool \<Rightarrow> Env \<Rightarrow> go_ctx \<Rightarrow> DetachedAcquireRequest \<Rightarrow> 's world \<Rightarrow> 's world \<times> LeaseRecord result"
where
  "HoldManager_Acquire m shuttingDown e ctx req w =
     (if shuttingDown then (w, Inl (Sentinel ErrPolicyViolation))
      else case getDefinition m (dq_DefinitionID req) of
        Inl err \<Rightarrow> (w, Inl err)
      | Inr def \<Rightarrow>
          call_driver e (\<lambda>t s. Acquire (hm_driver m) ctx t s
            \<lparr>aq_DefinitionID = dq_DefinitionID req, aq_ResourceKeys = dq_ResourceKeys req,
             aq_OwnerID = dq_OwnerID req, aq_LeaseTTL = ld_LeaseTTL def\<rparr>) w)"

definition HoldManager_Release ::
  "'s HoldManager \<Rightarrow> Env \<Rightarrow> go_ctx \<Rightarrow> DetachedReleaseRequest \<Rightarrow> 's world \<Rightarrow> 's world \<times> go_err"
where
  "HoldManager_Release m e ctx req w =
     call_driver e (\<lambda>t s. Release (hm_driver m) ctx t s
       \<lparr>lr_DefinitionID = dr_DefinitionID req, lr_ResourceKeys = dr_ResourceKeys req, lr_OwnerID = dr_OwnerID req,
        lr_LeaseTTL = 0, lr_AcquiredAt = zero_time, lr_ExpiresAt = zero_time\<rparr>) w"

section \<open>The client\<close>

record ('s, 'i, 'v) Client =
  ct_registry :: "'v UseCaseRegistry option"
  ct_backend :: "'s Driver option"
  ct_identity :: Identity
  ct_identityProvider :: "(go_ctx \<Rightarrow> Identity) option"
  ct_runtime :: "'s Manager option"
  ct_worker :: "('s, 'i) WorkerManager option"
  ct_holds :: "'s HoldManager option"
  ct_bridge :: bool
  ct_plan :: clientPlan

text \<open>
  \<^verbatim>\<open>New\<close>; the options have been applied to \<open>cfg\<close>. The worker manager pings the backend, so the state \<open>s\<close> of the
  backend and the time \<open>t\<close> of the ping are arguments and the backend's state is returned.
\<close>

definition NewClient :: "('s, 'i, 'v) clientConfig \<Rightarrow> time \<Rightarrow> 's \<Rightarrow> ('s \<times> ('s, 'i, 'v) Client) result" where
  "NewClient cfg t s =
     (case buildClientPlan cfg of
        Inl err \<Rightarrow> Inl err
      | Inr plan \<Rightarrow>
          (let bridge = (cf_inspectStore cfg \<or> cf_observer cfg);
               reg = pl_engineRegistry plan;
               client = \<lparr>ct_registry = cf_registry cfg, ct_backend = cf_backend cfg, ct_identity = cf_identity cfg,
                 ct_identityProvider = cf_identityProvider cfg, ct_runtime = None, ct_worker = None, ct_holds = None,
                 ct_bridge = bridge, ct_plan = plan\<rparr>
           in case (if pl_hasRunUseCases plan
                    then case NewManager reg (cf_backend cfg) bridge of
                      Inl err \<Rightarrow> Inl (wrapStartupManagerError ''runtime'' err)
                    | Inr m \<Rightarrow> Inr (client\<lparr>ct_runtime := Some m\<rparr>)
                    else Inr client) of
             Inl err \<Rightarrow> Inl err
           | Inr client1 \<Rightarrow>
               (case (if pl_hasClaimUseCases plan
                      then case NewWorkerManager reg (map_option (\<lambda>D. (D, s)) (cf_backend cfg)) t (cf_idempotency cfg) bridge of
                        Inl err \<Rightarrow> Inl (wrapStartupManagerError ''worker'' err)
                      | Inr (s', m) \<Rightarrow> Inr (s', client1\<lparr>ct_worker := Some m\<rparr>)
                      else Inr (s, client1)) of
                  Inl err \<Rightarrow> Inl err
                | Inr (s', client2) \<Rightarrow>
                    if pl_hasHoldUseCases plan
                    then (case NewHoldManager reg (cf_backend cfg) of
                      Inl err \<Rightarrow> Inl (wrapStartupManagerError ''holds'' err)
                    | Inr m \<Rightarrow> Inr (s', client2\<lparr>ct_holds := Some m\<rparr>))
                    else Inr (s', client2))))"

definition non_blank :: "string \<Rightarrow> string \<Rightarrow> string" where
  "non_blank provided old = (if trim_space provided \<noteq> [] then trim_space provided else old)"

definition resolveIdentity :: "('s, 'i, 'v) Client \<Rightarrow> go_ctx \<Rightarrow> string \<Rightarrow> Identity result" where
  "resolveIdentity c ctx requestOwnerID =
     (let identity = (case ct_identityProvider c of
            None \<Rightarrow> ct_identity c
          | Some provider \<Rightarrow>
              let provided = provider ctx in
              \<lparr>id_OwnerID = non_blank (id_OwnerID provided) (id_OwnerID (ct_identity c)),
               id_Service = non_blank (id_Service provided) (id_Service (ct_identity c)),
               id_Instance = non_blank (id_Instance provided) (id_Instance (ct_identity c))\<rparr>);
          owner = trim_space (non_blank requestOwnerID (id_OwnerID identity))
      in if owner = []
         then Inl (Errorf ''lockman: effective owner id is empty: %w'' [] [Sentinel ErrIdentityRequired])
         else Inr \<lparr>id_OwnerID = owner, id_Service = trim_space (id_Service identity),
                   id_Instance = trim_space (id_Instance identity)\<rparr>)"

definition linked :: "('s, 'i, 'v) Client \<Rightarrow> link \<Rightarrow> bool" where
  "linked c lnk = (case ct_registry c of None \<Rightarrow> False | Some r \<Rightarrow> \<not> RegistryLinkMismatch (ur_link r) lnk)"

text \<open>The checks the four validations begin with.\<close>

definition check_request :: "('s, 'i, 'v) Client \<Rightarrow> 'v useCaseCore option \<Rightarrow> string \<Rightarrow> bool \<Rightarrow> link \<Rightarrow> 'v useCaseCore result" where
  "check_request c core useCaseName bound lnk =
     (case core of
        None \<Rightarrow> Inl (Sentinel ErrUseCaseNotFound)
      | Some uc \<Rightarrow>
          if \<not> bound
          then Inl (Errorf ''lockman: use case %q is not registered: %w'' [useCaseName] [Sentinel ErrUseCaseNotFound])
          else if \<not> linked c lnk
          then Inl (Errorf ''lockman: use case %q belongs to a different registry: %w'' [useCaseName] [Sentinel ErrRegistryMismatch])
          else Inr uc)"

text \<open>For a composite request the bound request is the zero value, which \<^verbatim>\<open>Run\<close> does not use; here \<open>None\<close>.\<close>

definition validateRunRequest ::
  "('s, 'i, 'v) Client \<Rightarrow> go_ctx \<Rightarrow> 'v RunRequest \<Rightarrow> (sdkRunRequest option \<times> Identity \<times> 'v useCaseCore) result"
where
  "validateRunRequest c ctx req =
     (case check_request c (rr_useCaseCore req) (rr_useCaseName req) (rr_boundToRegistry req) (rr_registryLink req) of
        Inl err \<Rightarrow> Inl err
      | Inr uc \<Rightarrow>
          (case resolveIdentity c ctx (rr_ownerID req) of
             Inl err \<Rightarrow> Inl err
           | Inr identity \<Rightarrow>
               if rr_compositeMemberInputs req \<noteq> [] then Inr (None, identity, uc)
               else
                 let normalized = (if su_id (rr_cachedNormalized req) = [] then normalizeUseCase uc [] (rr_registryLink req)
                                   else rr_cachedNormalized req)
                 in Inr (Some (BindRunRequest normalized (rr_resourceKey req) (id_OwnerID identity)), identity, uc)))"

definition client_validateClaimRequest ::
  "('s, 'i, 'v) Client \<Rightarrow> go_ctx \<Rightarrow> 'v ClaimRequest \<Rightarrow> (sdkClaimRequest \<times> Identity) result"
where
  "client_validateClaimRequest c ctx req =
     (case check_request c (cq_useCaseCore req) (cq_useCaseName req) (cq_boundToRegistry req) (cq_registryLink req) of
        Inl err \<Rightarrow> Inl err
      | Inr uc \<Rightarrow>
          (case resolveIdentity c ctx (cq_ownerID req) of
             Inl err \<Rightarrow> Inl err
           | Inr identity \<Rightarrow>
               Inr (BindClaimRequest (normalizeUseCase uc [] (cq_registryLink req)) (cq_resourceKey req) (id_OwnerID identity)
                 \<lparr>cv_messageID = de_MessageID (cq_delivery req), cv_consumerGroup = de_ConsumerGroup (cq_delivery req),
                  cv_attempt = de_Attempt (cq_delivery req)\<rparr>, identity)))"

definition validateHoldRequest ::
  "('s, 'i, 'v) Client \<Rightarrow> go_ctx \<Rightarrow> 'v HoldRequest \<Rightarrow> (Identity \<times> 'v useCaseCore) result"
where
  "validateHoldRequest c ctx req =
     (case check_request c (hr_useCaseCore req) (hr_useCaseName req) (hr_boundToRegistry req) (hr_registryLink req) of
        Inl err \<Rightarrow> Inl err
      | Inr uc \<Rightarrow>
          (case resolveIdentity c ctx (hr_ownerID req) of Inl err \<Rightarrow> Inl err | Inr identity \<Rightarrow> Inr (identity, uc)))"

definition validateForfeitRequest :: "('s, 'i, 'v) Client \<Rightarrow> 'v ForfeitRequest \<Rightarrow> 'v useCaseCore result" where
  "validateForfeitRequest c req =
     check_request c (fr_useCaseCore req) (fr_useCaseName req) (fr_boundToRegistry req) (fr_registryLink req)"

section \<open>Error mapping\<close>

definition mapEngineError :: "go_err \<Rightarrow> bool \<Rightarrow> go_err" where
  "mapEngineError err shuttingDown =
     (case err of
        None \<Rightarrow> None
      | Some er \<Rightarrow>
          if errors_is er ErrDuplicateIgnored then Some (Sentinel ErrDuplicate)
          else if errors_is er ErrOverlapRejected then Some (Sentinel ErrOverlapRejected)
          else if errors_is er ErrLockAcquireTimeout then Some (Sentinel ErrTimeout)
          else if errors_is er ErrLockBusy \<or> errors_is er ErrReentrantAcquire then Some (Sentinel ErrBusy)
          else if errors_is er ErrLeaseLost then Some (Sentinel ErrPublicLeaseLost)
          else if errors_is er ErrInvariantRejected then Some (Sentinel ErrPublicInvariantRejected)
          else if errors_is er ErrWorkerShuttingDown then Some (Sentinel ErrShuttingDown)
          else if shuttingDown \<and> errors_is er ErrPolicyViolation then Some (Sentinel ErrShuttingDown)
          else if errors_is er ErrPreconditionFailed then Some (Sentinel ErrPreconditionFailed)
          else Some er)"

definition mapHoldAcquireError :: "go_error \<Rightarrow> bool \<Rightarrow> go_error" where
  "mapHoldAcquireError er shuttingDown =
     (if errors_is er ErrLeaseAlreadyHeld \<or> errors_is er ErrLeaseOwnerMismatch then Sentinel ErrBusy
      else if errors_is er ErrLeaseNotFound \<or> errors_is er ErrLeaseExpired then Sentinel ErrHoldExpired
      else if shuttingDown \<and> errors_is er ErrPolicyViolation then Sentinel ErrShuttingDown
      else er)"

definition mapHoldReleaseError :: "go_err \<Rightarrow> go_err" where
  "mapHoldReleaseError err =
     (case err of
        None \<Rightarrow> None
      | Some er \<Rightarrow>
          if errors_is er ErrLeaseNotFound \<or> errors_is er ErrLeaseExpired then Some (Sentinel ErrHoldExpired)
          else if errors_is er ErrLeaseAlreadyHeld \<or> errors_is er ErrLeaseOwnerMismatch then Some (Sentinel ErrBusy)
          else Some er)"

definition joinErrors :: "go_err \<Rightarrow> go_err \<Rightarrow> go_err" where
  "joinErrors left right =
     (case left of None \<Rightarrow> right | Some l \<Rightarrow> (case right of None \<Rightarrow> left | Some r \<Rightarrow> Some (Joined [l, r])))"

section \<open>Run\<close>

definition to_lease :: "string \<Rightarrow> LeaseContext \<Rightarrow> Lease" where
  "to_lease useCaseName lc =
     \<lparr>le_UseCase = useCaseName, le_ResourceKey = lc_ResourceKey lc, le_ResourceKeys = lc_ResourceKeys lc,
      le_LeaseTTL = lc_LeaseTTL lc, le_Deadline = lc_LeaseDeadline lc, le_FencingToken = lc_FencingToken lc\<rparr>"

type_synonym 's run_fn = "go_ctx \<Rightarrow> Lease \<Rightarrow> 's world \<Rightarrow> 's world \<times> go_err"

definition identity_ownership :: "Identity \<Rightarrow> string \<Rightarrow> OwnershipMeta" where
  "identity_ownership identity handler =
     blank_ownership\<lparr>om_ServiceName := id_Service identity, om_InstanceID := id_Instance identity,
       om_HandlerName := handler, om_OwnerID := id_OwnerID identity\<rparr>"

text \<open>The request for the runtime manager: outside any lineage the key is passed on as it is.\<close>

definition run_sync_request :: "clientPlan \<Rightarrow> sdkRunRequest \<Rightarrow> Identity \<Rightarrow> SyncLockRequest" where
  "run_sync_request plan bound identity =
     (let translated = TranslateRun bound;
          translated1 = (case pl_lineageDefinitionIDs plan of
              Some marked \<Rightarrow>
                if sy_DefinitionID translated \<notin> set marked
                then translated\<lparr>sy_ResourceKey := sr_resourceKey bound, sy_KeyInput := None\<rparr> else translated
            | None \<Rightarrow> translated)
      in translated1\<lparr>sy_Ownership := (sy_Ownership translated1)\<lparr>om_ServiceName := id_Service identity,
           om_InstanceID := id_Instance identity\<rparr>\<rparr>)"

definition Run ::
  "('s, 'i, 'v) Client option \<Rightarrow> Env \<Rightarrow> go_ctx \<Rightarrow> 'v RunRequest \<Rightarrow> 's run_fn option \<Rightarrow> bool \<Rightarrow> bool \<Rightarrow> 's world
    \<Rightarrow> 's world \<times> go_err"
where
  "Run client e ctx req callback down down' w =
     (case client of
        None \<Rightarrow> (w, Some (Errorf ''lockman: client is nil'' [] []))
      | Some c \<Rightarrow>
          (case callback of
             None \<Rightarrow> (w, Some (Errorf ''lockman: run callback is required'' [] []))
           | Some fn \<Rightarrow>
               if down then (w, Some (Sentinel ErrShuttingDown))
               else case validateRunRequest c ctx req of
                 Inl err \<Rightarrow> (w, Some err)
               | Inr (normalized, identity, uc) \<Rightarrow>
                   (case ct_runtime c of
                      None \<Rightarrow> (w, Some (Sentinel ErrUseCaseNotFound))
                    | Some m \<Rightarrow>
                        let fn' = (\<lambda>ctx lc. fn ctx (to_lease (rr_useCaseName req) lc));
                            (w', err) = (case normalized of
                                None \<Rightarrow>
                                  ExecuteCompositeExclusive m e ctx
                                    \<lparr>cl_DefinitionID = su_id (normalizeUseCase uc [] (rr_registryLink req)),
                                     cl_MemberInputs = map Some (rr_compositeMemberInputs req),
                                     cl_Ownership = identity_ownership identity (rr_useCaseName req),
                                     cl_Overrides = None\<rparr> fn' w
                              | Some bound \<Rightarrow> ExecuteExclusive m e ctx (run_sync_request (ct_plan c) bound identity) fn' w)
                        in (w', mapEngineError err down'))))"

section \<open>Claim\<close>

definition to_claim :: "string \<Rightarrow> ClaimContext \<Rightarrow> Claim" where
  "to_claim useCaseName cx =
     \<lparr>cn_UseCase = useCaseName, cn_ResourceKey = cx_ResourceKey cx, cn_LeaseTTL = cx_LeaseTTL cx,
      cn_Deadline = cx_LeaseDeadline cx, cn_FencingToken = cx_FencingToken cx, cn_IdempotencyKey = cx_IdempotencyKey cx\<rparr>"

type_synonym ('s, 'i) public_claim_fn = "go_ctx \<Rightarrow> Claim \<Rightarrow> nat \<Rightarrow> ('s, 'i) wworld \<Rightarrow> ('s, 'i) wworld \<times> cb_step"

definition claim_message :: "sdkClaimRequest \<Rightarrow> Identity \<Rightarrow> MessageClaimRequest" where
  "claim_message bound identity =
     (let translated = TranslateClaim bound in
      translated\<lparr>mc_Ownership := (mc_Ownership translated)\<lparr>om_ServiceName := id_Service identity,
        om_InstanceID := id_Instance identity\<rparr>\<rparr>)"

definition Client_Claim ::
  "('s, 'i, 'v) Client option \<Rightarrow> Env \<Rightarrow> go_ctx \<Rightarrow> 'v ClaimRequest \<Rightarrow> ('s, 'i) public_claim_fn option \<Rightarrow> bool \<Rightarrow> bool
    \<Rightarrow> ('s, 'i) wworld \<Rightarrow> (('s, 'i) wworld \<times> go_err) option"
where
  "Client_Claim client e ctx req callback down down' w =
     (case client of
        None \<Rightarrow> Some (w, Some (Errorf ''lockman: client is nil'' [] []))
      | Some c \<Rightarrow>
          (case callback of
             None \<Rightarrow> Some (w, Some (Errorf ''lockman: claim callback is required'' [] []))
           | Some fn \<Rightarrow>
               if down then Some (w, Some (Sentinel ErrShuttingDown))
               else case client_validateClaimRequest c ctx req of
                 Inl err \<Rightarrow> Some (w, Some err)
               | Inr (bound, identity) \<Rightarrow>
                   (case ct_worker c of
                      None \<Rightarrow> Some (w, Some (Sentinel ErrUseCaseNotFound))
                    | Some m \<Rightarrow>
                        map_option (\<lambda>(w', err). (w', mapEngineError err down'))
                          (ExecuteClaimed m e ctx (claim_message bound identity)
                            (\<lambda>ctx cx. fn ctx (to_claim (cq_useCaseName req) cx)) w))))"

section \<open>Hold and forfeit\<close>

text \<open>\<open>hdown\<close> is the hold manager's own flag, loaded by its \<^verbatim>\<open>Acquire\<close>. The result is the token of the handle.\<close>

definition Hold ::
  "('s, 'i, 'v) Client option \<Rightarrow> Env \<Rightarrow> go_ctx \<Rightarrow> 'v HoldRequest \<Rightarrow> bool \<Rightarrow> bool \<Rightarrow> bool \<Rightarrow> 's world
    \<Rightarrow> 's world \<times> string result"
where
  "Hold client e ctx req down hdown down' w =
     (case client of
        None \<Rightarrow> (w, Inl (Errorf ''lockman: client is nil'' [] []))
      | Some c \<Rightarrow>
          if down then (w, Inl (Sentinel ErrShuttingDown))
          else case validateHoldRequest c ctx req of
            Inl err \<Rightarrow> (w, Inl err)
          | Inr (identity, uc) \<Rightarrow>
              (case ct_holds c of
                 None \<Rightarrow> (w, Inl (Sentinel ErrUseCaseNotFound))
               | Some m \<Rightarrow>
                   (let definitionID = su_id (normalizeUseCase uc [] (hr_registryLink req)) in
                    case EncodeHoldToken [hr_resourceKey req] (id_OwnerID identity) of
                      Inl _ \<Rightarrow> (w, Inl (Errorf ''lockman: encode hold token: %w'' [] [Sentinel ErrHoldTokenInvalid]))
                    | Inr token \<Rightarrow>
                        (case HoldManager_Acquire m hdown e ctx
                            \<lparr>dq_DefinitionID = definitionID, dq_ResourceKeys = [hr_resourceKey req],
                             dq_OwnerID = id_OwnerID identity\<rparr> w of
                           (w', Inl err) \<Rightarrow> (w', Inl (mapHoldAcquireError err down'))
                         | (w', Inr _) \<Rightarrow> (w', Inr token)))))"

definition Forfeit ::
  "('s, 'i, 'v) Client option \<Rightarrow> Env \<Rightarrow> go_ctx \<Rightarrow> 'v ForfeitRequest \<Rightarrow> bool \<Rightarrow> 's world \<Rightarrow> 's world \<times> go_err"
where
  "Forfeit client e ctx req down w =
     (case client of
        None \<Rightarrow> (w, Some (Errorf ''lockman: client is nil'' [] []))
      | Some c \<Rightarrow>
          if down then (w, Some (Sentinel ErrShuttingDown))
          else case validateForfeitRequest c req of
            Inl err \<Rightarrow> (w, Some err)
          | Inr uc \<Rightarrow>
              (case ct_holds c of
                 None \<Rightarrow> (w, Some (Sentinel ErrUseCaseNotFound))
               | Some m \<Rightarrow>
                   (case DecodeHoldToken (fr_token req) of
                      Inl _ \<Rightarrow> (w, Some (Sentinel ErrHoldTokenInvalid))
                    | Inr (resourceKeys, ownerID) \<Rightarrow>
                        (case HoldManager_Release m e ctx
                            \<lparr>dr_DefinitionID = su_id (normalizeUseCase uc [] (fr_registryLink req)),
                             dr_ResourceKeys = resourceKeys, dr_OwnerID = ownerID\<rparr> w of
                           (w', err) \<Rightarrow> (w', mapHoldReleaseError err)))))"

section \<open>Forced release\<close>

definition ForceRelease :: "definitionRef \<Rightarrow> go_ctx \<Rightarrow> time \<Rightarrow> ('s, 'i, 'v) Client option \<Rightarrow> string \<Rightarrow> 's \<Rightarrow> 's \<times> go_err"
where
  "ForceRelease def ctx now client resourceKey s =
     (case client of
        None \<Rightarrow> (s, Some (Sentinel ErrBackendRequired))
      | Some c \<Rightarrow>
          (case ct_backend c of
             None \<Rightarrow> (s, Some (Sentinel ErrBackendCapabilityRequired))
           | Some D \<Rightarrow>
               (case as_ForceReleaseDriver D of
                  None \<Rightarrow> (s, Some (Sentinel ErrBackendCapabilityRequired))
                | Some force \<Rightarrow> force ctx now s (df_id def) resourceKey)))"

section \<open>Several keys\<close>

definition maxMultipleKeys :: nat where
  "maxMultipleKeys = 100"

text \<open>
  The loop of \<^verbatim>\<open>extractRunRequests\<close> and \<^verbatim>\<open>extractHoldRequests\<close>, which differ only in the request type; a
  request is its use case and its key here. Use cases are compared by pointer.
\<close>

fun extract_keys ::
  "('v useCaseCore option \<times> string) list \<Rightarrow> 'v useCaseCore option \<Rightarrow> string list \<Rightarrow> (string list \<times> 'v useCaseCore option) result"
where
  "extract_keys [] uc keys = Inr (keys, uc)"
| "extract_keys ((None, key) # rest) uc keys = Inl (Errorf ''lockman: request %d has no use case'' [] [])"
| "extract_keys ((Some core, key) # rest) uc keys =
     (if (case uc of None \<Rightarrow> False | Some first \<Rightarrow> co_ref first \<noteq> co_ref core)
      then Inl (Errorf ''lockman: all requests must belong to the same use case'' [] [])
      else if key \<in> set keys then Inl (Errorf ''lockman: duplicate key %q'' [key] [])
      else extract_keys rest (Some (case uc of None \<Rightarrow> core | Some first \<Rightarrow> first)) (keys @ [key]))"

definition validateRegisteredUseCase :: "('s, 'i, 'v) Client \<Rightarrow> go_ctx \<Rightarrow> 'v useCaseCore \<Rightarrow> Identity result" where
  "validateRegisteredUseCase c ctx uc =
     (case co_registry uc of
        None \<Rightarrow> Inl (Errorf ''lockman: use case %q is not registered: %w'' [co_name uc] [Sentinel ErrUseCaseNotFound])
      | Some lnk \<Rightarrow>
          if \<not> linked c lnk
          then Inl (Errorf ''lockman: use case %q belongs to a different registry: %w'' [co_name uc] [Sentinel ErrRegistryMismatch])
          else resolveIdentity c ctx [])"

definition extract_requests ::
  "('s, 'i, 'v) Client \<Rightarrow> go_ctx \<Rightarrow> ('v useCaseCore option \<times> string) list \<Rightarrow> (string list \<times> 'v useCaseCore \<times> Identity) result"
where
  "extract_requests c ctx requests =
     (if requests = [] then Inl (Errorf ''lockman: requests must not be empty'' [] [])
      else if maxMultipleKeys < length requests then Inl (Errorf ''lockman: requests must not exceed %d'' [] [])
      else case extract_keys requests None [] of
        Inl err \<Rightarrow> Inl err
      | Inr (keys, None) \<Rightarrow> Inl (Sentinel ErrUseCaseNotFound)
      | Inr (keys, Some uc) \<Rightarrow>
          (case validateRegisteredUseCase c ctx uc of Inl err \<Rightarrow> Inl err | Inr identity \<Rightarrow> Inr (keys, uc, identity)))"

definition extractRunRequests ::
  "('s, 'i, 'v) Client \<Rightarrow> go_ctx \<Rightarrow> 'v RunRequest list \<Rightarrow> (string list \<times> 'v useCaseCore \<times> Identity) result"
where
  "extractRunRequests c ctx requests = extract_requests c ctx (map (\<lambda>req. (rr_useCaseCore req, rr_resourceKey req)) requests)"

definition extractHoldRequests ::
  "('s, 'i, 'v) Client \<Rightarrow> go_ctx \<Rightarrow> 'v HoldRequest list \<Rightarrow> (string list \<times> 'v useCaseCore \<times> Identity) result"
where
  "extractHoldRequests c ctx requests = extract_requests c ctx (map (\<lambda>req. (hr_useCaseCore req, hr_resourceKey req)) requests)"

definition planned_id :: "clientPlan \<Rightarrow> string \<Rightarrow> string" where
  "planned_id plan name = (case mget (pl_definitionIDByUseCase plan) name of None \<Rightarrow> [] | Some i \<Rightarrow> i)"

definition RunMultiple ::
  "('s, 'i, 'v) Client option \<Rightarrow> Env \<Rightarrow> go_ctx \<Rightarrow> 'v RunRequest list \<Rightarrow> 's run_fn option \<Rightarrow> bool \<Rightarrow> bool \<Rightarrow> 's world
    \<Rightarrow> 's world \<times> go_err"
where
  "RunMultiple client e ctx requests callback down down' w =
     (case client of
        None \<Rightarrow> (w, Some (Errorf ''lockman: client is nil'' [] []))
      | Some c \<Rightarrow>
          (case callback of
             None \<Rightarrow> (w, Some (Errorf ''lockman: run multiple callback is required'' [] []))
           | Some fn \<Rightarrow>
               if down then (w, Some (Sentinel ErrShuttingDown))
               else case extractRunRequests c ctx requests of
                 Inl err \<Rightarrow> (w, Some err)
               | Inr (keys, uc, identity) \<Rightarrow>
                   (case ct_runtime c of
                      None \<Rightarrow> (w, Some (Sentinel ErrUseCaseNotFound))
                    | Some m \<Rightarrow>
                        let definitionID = planned_id (ct_plan c) (co_name uc) in
                        if definitionID = [] then (w, Some (Sentinel ErrUseCaseNotFound))
                        else
                          let (w', err) = ExecuteMultipleExclusive m e ctx
                                \<lparr>ml_DefinitionID = definitionID, ml_Keys = keys,
                                 ml_Ownership = identity_ownership identity (co_name uc), ml_Overrides = None\<rparr>
                                (\<lambda>ctx lc. fn ctx ((to_lease (co_name uc) lc)\<lparr>le_ResourceKey := []\<rparr>)) w
                          in (w', mapEngineError err down'))))"

definition HoldMultiple ::
  "('s, 'i, 'v) Client option \<Rightarrow> Env \<Rightarrow> go_ctx \<Rightarrow> 'v HoldRequest list \<Rightarrow> bool \<Rightarrow> bool \<Rightarrow> bool \<Rightarrow> 's world
    \<Rightarrow> 's world \<times> string result"
where
  "HoldMultiple client e ctx requests down hdown down' w =
     (case client of
        None \<Rightarrow> (w, Inl (Errorf ''lockman: client is nil'' [] []))
      | Some c \<Rightarrow>
          if down then (w, Inl (Sentinel ErrShuttingDown))
          else case extractHoldRequests c ctx requests of
            Inl err \<Rightarrow> (w, Inl err)
          | Inr (keys, uc, identity) \<Rightarrow>
              (case ct_holds c of
                 None \<Rightarrow> (w, Inl (Sentinel ErrUseCaseNotFound))
               | Some m \<Rightarrow>
                   let definitionID = planned_id (ct_plan c) (co_name uc) in
                   if definitionID = [] then (w, Inl (Sentinel ErrUseCaseNotFound))
                   else case EncodeHoldToken keys (id_OwnerID identity) of
                     Inl _ \<Rightarrow> (w, Inl (Errorf ''lockman: encode hold token: %w'' [] [Sentinel ErrHoldTokenInvalid]))
                   | Inr token \<Rightarrow>
                       (case HoldManager_Acquire m hdown e ctx
                           \<lparr>dq_DefinitionID = definitionID, dq_ResourceKeys = keys, dq_OwnerID = id_OwnerID identity\<rparr> w of
                          (w', Inl err) \<Rightarrow> (w', Inl (mapHoldAcquireError err down'))
                        | (w', Inr _) \<Rightarrow> (w', Inr token))))"

section \<open>Shutdown\<close>

datatype shutdown_call =
    StoreShuttingDown | PublishClientShutdownStarted | RuntimeShutdown | WorkerShutdown | HoldsShutdown
  | PublishClientShutdownCompleted | BridgeShutdown

text \<open>The calls \<^verbatim>\<open>Shutdown\<close> makes and its error, given the errors its three fallible calls return.\<close>

definition Client_Shutdown ::
  "('s, 'i, 'v) Client option \<Rightarrow> go_err \<Rightarrow> go_err \<Rightarrow> go_err \<Rightarrow> shutdown_call list \<times> go_err"
where
  "Client_Shutdown client runtimeErr workerErr bridgeErr =
     (case client of
        None \<Rightarrow> ([], None)
      | Some c \<Rightarrow>
          ([StoreShuttingDown]
           @ (if ct_bridge c then [PublishClientShutdownStarted] else [])
           @ (if ct_runtime c \<noteq> None then [RuntimeShutdown] else [])
           @ (if ct_worker c \<noteq> None then [WorkerShutdown] else [])
           @ (if ct_holds c \<noteq> None then [HoldsShutdown] else [])
           @ (if ct_bridge c then [PublishClientShutdownCompleted, BridgeShutdown] else []),
           let err = (if ct_runtime c \<noteq> None then runtimeErr else None);
               err1 = (if ct_worker c \<noteq> None then joinErrors err workerErr else err)
           in if ct_bridge c then joinErrors err1 bridgeErr else err1))"

end
