(* ===== verification/Client_Plan_Correct.thy ===== *)
theory Client_Plan_Correct
  imports Client Runtime_Props
begin

text \<open>
  What the start-up plan guarantees: the client's lineage marks agree with those of the managers, and
  every registered use case finds its definition in the engine registry.
\<close>

section \<open>Lineage marks\<close>

lemma mark_pass_set:
  "set (mark_pass P marked) = set marked \<union> {p. p \<noteq> [] \<and> (\<exists>i \<in> set marked. mget P i = Some p)}"
proof -
  let ?f = "\<lambda>i marked. case mget P i of
        None \<Rightarrow> marked
      | Some parent \<Rightarrow> if parent = [] \<or> parent \<in> set marked then marked else marked @ [parent]"
  have "set (fold ?f xs acc) = set acc \<union> {p. p \<noteq> [] \<and> (\<exists>i \<in> set xs. mget P i = Some p)}" for xs acc
  proof (induction xs arbitrary: acc)
    case (Cons x xs)
    have "set (?f x acc) = set acc \<union> {p. p \<noteq> [] \<and> mget P x = Some p}"
      by (auto split: option.splits)
    then show ?case using Cons[of "?f x acc"] by auto
  qed simp
  then show ?thesis by (simp add: mark_pass_def)
qed

lemma mark_pass_length: "length (mark_pass P marked) = length marked \<Longrightarrow> mark_pass P marked = marked"
  using mark_pass_fold[of P marked marked] by (auto simp: mark_pass_def)

lemma mark_loop_set:
  assumes "S \<subseteq> set marked" and "set marked \<subseteq> S \<union> {p. p \<noteq> [] \<and> (\<exists>i \<in> S. mget P i = Some p)}"
    and "\<forall>i p. mget P i = Some p \<longrightarrow> p \<noteq> [] \<longrightarrow> i \<in> S"
  shows "set (mark_loop P marked) = S \<union> {p. p \<noteq> [] \<and> (\<exists>i \<in> S. mget P i = Some p)}"
  using assms
proof (induction P marked rule: mark_loop.induct)
  case (1 P marked)
  let ?m = "mark_pass P marked" and ?T = "S \<union> {p. p \<noteq> [] \<and> (\<exists>i \<in> S. mget P i = Some p)}"
  have "S \<subseteq> set ?m" and sub: "set ?m \<subseteq> ?T" and sup: "?T \<subseteq> set ?m"
    using 1(2-4) by (auto simp: mark_pass_set)
  then show ?case
  proof (cases "length ?m = length marked")
    case True
    then have "mark_loop P marked = ?m" by (simp add: mark_loop.simps[of P marked])
    then show ?thesis using sub sup by (simp only:)
  next
    case False
    then have "mark_loop P marked = mark_loop P ?m" by (simp add: mark_loop.simps[of P marked])
    then show ?thesis using 1(1)[OF refl False \<open>S \<subseteq> set ?m\<close> sub 1(4)] by simp
  qed
qed

definition lineage_children :: "LockDefinition list \<Rightarrow> string set" where
  "lineage_children defs = {ld_ID d | d. d \<in> set defs \<and> trim_space (ld_ParentRef d) \<noteq> []}"

definition lineage_roots :: "LockDefinition list \<Rightarrow> string set" where
  "lineage_roots defs = {trim_space (ld_ParentRef d) | d. d \<in> set defs \<and> trim_space (ld_ParentRef d) \<noteq> []}"

lemma mark_children_spec:
  assumes "distinct (map ld_ID defs)"
  shows "mget (fst (mark_children defs P marked)) i = Some p \<longleftrightarrow>
      (\<exists>d \<in> set defs. ld_ID d = i \<and> p = trim_space (ld_ParentRef d)) \<or> i \<notin> ld_ID ` set defs \<and> mget P i = Some p"
    and "set (snd (mark_children defs P marked)) = set marked \<union> lineage_children defs"
  using assms by (induction defs P marked rule: mark_children.induct) (auto simp: lineage_children_def Let_def)

lemma lineageDefinitionIDs_set:
  assumes "distinct (map ld_ID defs)"
  shows "set (lineageDefinitionIDs defs) = lineage_children defs \<union> lineage_roots defs"
proof -
  obtain P marked where c: "mark_children defs [] [] = (P, marked)" by (cases "mark_children defs [] []")
  have P: "mget P i = Some p \<longleftrightarrow> (\<exists>d \<in> set defs. ld_ID d = i \<and> p = trim_space (ld_ParentRef d))" for i p
    using mark_children_spec(1)[OF assms, of "[]" "[]"] c by simp
  have m: "set marked = lineage_children defs" using mark_children_spec(2)[OF assms, of "[]" "[]"] c by simp
  have "set (mark_loop P marked) = lineage_children defs \<union> {p. p \<noteq> [] \<and> (\<exists>i \<in> lineage_children defs. mget P i = Some p)}"
    using m P by (intro mark_loop_set) (auto simp: lineage_children_def)
  also have "{p. p \<noteq> [] \<and> (\<exists>i \<in> lineage_children defs. mget P i = Some p)} = lineage_roots defs"
    using P by (auto simp: lineage_children_def lineage_roots_def)
  finally show ?thesis by (simp add: lineageDefinitionIDs_def c)
qed

lemma children_index_get:
  "(case mget (children_index defs) i of None \<Rightarrow> False | Some ids \<Rightarrow> 0 < length ids)
     \<longleftrightarrow> i \<in> {ld_ParentRef d | d. d \<in> set defs \<and> ld_ParentRef d \<noteq> []}"
proof -
  let ?f = "\<lambda>def out. if ld_ParentRef def = [] then out
       else mput (ld_ParentRef def) ((case mget out (ld_ParentRef def) of None \<Rightarrow> [] | Some ids \<Rightarrow> ids) @ [ld_ID def]) out"
  have "(case mget (fold ?f defs acc) i of None \<Rightarrow> False | Some ids \<Rightarrow> 0 < length ids) \<longleftrightarrow>
      i \<in> {ld_ParentRef d | d. d \<in> set defs \<and> ld_ParentRef d \<noteq> []} \<or>
      (case mget acc i of None \<Rightarrow> False | Some ids \<Rightarrow> 0 < length ids)" for acc
    by (induction defs arbitrary: acc) (auto split: option.splits)
  then show ?thesis by (simp add: children_index_def)
qed

lemma fold_flags_get:
  assumes "distinct (map ld_ID defs)" and "d \<in> set defs"
  shows "mget (fold (\<lambda>d m. mput (ld_ID d) (f d) m) defs acc) (ld_ID d) = Some (f d)"
proof -
  have "mget (fold (\<lambda>d m. mput (ld_ID d) (f d) m) ds acc) k = mget acc k" if "k \<notin> ld_ID ` set ds" for ds acc k
    using that by (induction ds arbitrary: acc) auto
  then show ?thesis using assms by (induction defs arbitrary: acc) auto
qed

lemma reg_inv_distinct: "reg_inv r \<Longrightarrow> distinct (map ld_ID (Registry_Definitions r))"
proof -
  assume inv: "reg_inv r"
  have "map ld_ID (Registry_Definitions r) = map fst (rg_definitions r)"
    using inv by (auto simp: Registry_Definitions_def reg_inv_def)
  then show ?thesis using inv by (simp add: reg_inv_def)
qed

text \<open>
  Client and runtime manager agree on which definitions are in a lineage. The client marks
  children and then repeats passes over the marked ids until nothing changes; the manager looks at a
  definition's own parent and at an index of children. On a registry whose parent references carry no
  surrounding blanks both find the same definitions, so the client passes a key on unbuilt exactly
  when the manager does not need its parts.
\<close>

theorem lineage_marks_agree:
  assumes "reg_inv reg" and "\<forall>def \<in> set (Registry_Definitions reg). trim_space (ld_ParentRef def) = ld_ParentRef def"
    and "NewManager reg drv bridge = Inr m" and "Get reg i = Some def"
  shows "i \<in> set (lineageDefinitionIDs (Registry_Definitions reg)) \<longleftrightarrow> mget (mg_lineageDefs m) i = Some True"
proof -
  let ?defs = "Registry_Definitions reg"
  let ?f = "\<lambda>d. ld_ParentRef d \<noteq> [] \<or>
        (case mget (children_index ?defs) (ld_ID d) of None \<Rightarrow> False | Some ids \<Rightarrow> 0 < length ids)"
  have d: "distinct (map ld_ID ?defs)" using assms(1) by (rule reg_inv_distinct)
  note get = assms(4)[unfolded Get_def]
  have mem: "def \<in> set ?defs" using imageI[OF map_of_SomeD[OF get], of snd] by (simp add: Registry_Definitions_def)
  have i: "ld_ID def = i" by (rule reg_inv_ID[OF assms(1) get])
  have "mg_lineageDefs m = fold (\<lambda>d m. mput (ld_ID d) (?f d) m) ?defs []"
    using assms(3) by (auto simp: NewManager_def Let_def split: option.splits if_splits)
  then have "mget (mg_lineageDefs m) i = Some (?f def)" using fold_flags_get[OF d mem, of ?f] i by simp
  moreover have "?f def \<longleftrightarrow> i \<in> lineage_children ?defs \<union> lineage_roots ?defs"
  proof -
    have u: "def' = def" if "def' \<in> set ?defs" "ld_ID def' = i" for def'
      using d mem i that by (metis distinct_map inj_on_eq_iff)
    have "i \<in> lineage_children ?defs \<longleftrightarrow> ld_ParentRef def \<noteq> []"
      using u mem i bspec[OF assms(2) mem] unfolding lineage_children_def by force
    moreover have "lineage_roots ?defs = {ld_ParentRef d | d. d \<in> set ?defs \<and> ld_ParentRef d \<noteq> []}"
      unfolding lineage_roots_def using assms(2) by metis
    ultimately show ?thesis unfolding children_index_get i by simp
  qed
  ultimately show ?thesis by (simp add: lineageDefinitionIDs_set[OF d])
qed

theorem lineage_marks_agree_witness:
  "\<exists>m. NewManager ex_registry (Some memory_driver) False = Inr m \<and> mget (mg_lineageDefs m) ''order'' = Some True"
proof -
  let ?defs = "Registry_Definitions ex_registry"
  have d: "?defs = [ex_parent, ex_child]" by (simp add: Registry_Definitions_def ex_registry_defs)
  have p: "ld_ParentRef ex_parent = []" "ld_ParentRef ex_child = ''order''" by (simp_all add: ex_child_def ex_parent_simps)
  have t: "trim_space ''order'' = ''order''" by (simp add: trim_space_visible visible_def)
  have "''order'' \<in> set (lineageDefinitionIDs ?defs)"
    using lineageDefinitionIDs_set[OF reg_inv_distinct[OF ex_registry_inv]]
    unfolding d lineage_roots_def using p t by force
  moreover obtain m where m: "NewManager ex_registry (Some memory_driver) False = Inr m"
    by (simp add: NewManager_def ex_registry_valid memory_driver_def Let_def)
  ultimately show ?thesis
    using lineage_marks_agree[OF ex_registry_inv _ m, of "''order''" ex_parent] d p t
    by (simp add: Get_def ex_registry_defs)
qed

section \<open>The use-case registry\<close>

text \<open>Every core is filed under its own name, and carries the link of the registry it is in.\<close>

definition uc_inv :: "'v UseCaseRegistry \<Rightarrow> bool" where
  "uc_inv r \<longleftrightarrow> map_ok (ur_byName r)
     \<and> (\<forall>n core. mget (ur_byName r) n = Some core \<longrightarrow> co_name core = n \<and> n \<noteq> [] \<and> co_registry core = Some (ur_link r))"

lemma uc_inv_New: "uc_inv (NewUseCaseRegistry l)"
  by (simp add: uc_inv_def NewUseCaseRegistry_def)

lemma register_core_inv:
  "uc_inv r \<Longrightarrow> co_name core \<noteq> [] \<Longrightarrow> uc_inv (register_core core r) \<and> ur_link (register_core core r) = ur_link r"
  by (auto simp: uc_inv_def register_core_def Let_def split: option.split)

lemma plan_registration_step:
  "plan_registration r (Some core # rest) seen defs planned = Inr planned' \<Longrightarrow>
   co_name core \<noteq> [] \<and> (\<exists>defs'. plan_registration r rest (co_name core # seen) defs' (planned @ [core]) = Inr planned')"
  unfolding plan_registration.simps by (auto split: if_split_asm option.split_asm)

lemma plan_registration_named:
  "plan_registration r ucs seen defs planned = Inr planned' \<Longrightarrow> \<forall>core \<in> set planned. co_name core \<noteq> [] \<Longrightarrow>
   \<forall>core \<in> set planned'. co_name core \<noteq> []"
proof (induction ucs arbitrary: seen defs planned)
  case (Cons uc ucs)
  show ?case
  proof (cases uc)
    case (Some core)
    from plan_registration_step[OF Cons.prems(1)[unfolded Some]] obtain defs' where n:
      "co_name core \<noteq> []" "plan_registration r ucs (co_name core # seen) defs' (planned @ [core]) = Inr planned'" by blast
    show ?thesis by (rule Cons.IH[OF n(2)]) (use n(1) Cons.prems(2) in simp)
  qed (use Cons.prems in simp)
qed simp

lemma UseCaseRegistry_Register_inv:
  assumes "uc_inv r"
  shows "uc_inv (fst (UseCaseRegistry_Register r ucs))"
proof -
  have "uc_inv (fold register_core planned r')" if "\<forall>core \<in> set planned. co_name core \<noteq> []" "uc_inv r'" for planned r'
    using that by (induction planned arbitrary: r') (auto simp: register_core_inv)
  then show ?thesis
    using assms plan_registration_named[of r ucs "[]" "[]" "[]"] by (auto simp: UseCaseRegistry_Register_def split: sum.split)
qed

lemma registered_names:
  assumes "uc_inv r"
  shows "map co_name (registeredUseCases r) = sort (map fst (ur_byName r))"
    and "distinct (map co_name (registeredUseCases r))"
    and "uc \<in> set (registeredUseCases r) \<Longrightarrow> co_registry uc = Some (ur_link r)"
proof -
  let ?names = "sort (map fst (ur_byName r))" and ?core = "\<lambda>n. the (mget (ur_byName r) n)"
  have core: "co_name (?core n) = n \<and> co_registry (?core n) = Some (ur_link r)" if n: "n \<in> set ?names" for n
  proof -
    from n obtain core where "mget (ur_byName r) n = Some core" by (cases "mget (ur_byName r) n") (auto simp: map_of_eq_None_iff)
    then show ?thesis using assms by (simp add: uc_inv_def)
  qed
  have r: "registeredUseCases r = map ?core ?names" by (simp add: registeredUseCases_def)
  show names: "map co_name (registeredUseCases r) = ?names" unfolding r map_map by (rule map_idI) (simp add: core del: set_sort)
  show "distinct (map co_name (registeredUseCases r))" unfolding names using assms by (simp add: uc_inv_def)
  show "uc \<in> set (registeredUseCases r) \<Longrightarrow> co_registry uc = Some (ur_link r)" unfolding r using core by auto
qed

section \<open>Collecting shared definitions\<close>

lemma su_id_normalize:
  "su_id (normalizeUseCase uc counts lnk) =
     (if resolveDefinitionID uc \<noteq> [] then resolveDefinitionID uc else stableUseCaseID (trim_space (co_name uc)) (co_kind uc))"
  by (simp add: normalizeUseCase_def NewUseCase_def NewUseCaseWithID_def Let_def)

definition collected_for :: "'v collection \<Rightarrow> string \<Rightarrow> 'v collected" where
  "collected_for c i = (case mget c i of None \<Rightarrow> no_collected | Some x \<Rightarrow> x)"

abbreviation users :: "'v collection \<Rightarrow> string \<Rightarrow> 'v useCaseCore list" where
  "users c i \<equiv> cl_useCases (collected_for c i)"

lemma collected_for_collect:
  "collected_for (collect i f c) j = (if j = i then f (collected_for c i) else collected_for c j)"
  by (simp add: collected_for_def collect_def)

text \<open>The definitions a use case is counted for.\<close>

definition counted_for :: "'v useCaseCore \<Rightarrow> string set" where
  "counted_for uc = (if resolveDefinitionID uc \<noteq> [] then {resolveDefinitionID uc} else mb_definitionID ` set (shared_members uc))"

lemma users_kept:
  "(\<And>x. cl_useCases (f x) = cl_useCases x) \<Longrightarrow> users (collect i f c) j = users c j"
  by (simp add: collected_for_collect)

lemma add_kind_users: "cl_useCases (add_kind k x) = cl_useCases x"
  by (simp add: add_kind_def)

lemma fold_members_kept:
  assumes "\<And>member x. cl_useCases (f member x) = cl_useCases x"
  shows "users (fold (\<lambda>member. collect (mb_definitionID member) (f member)) members c) j = users c j"
  using assms by (induction members arbitrary: c) (simp_all add: users_kept)

lemma first_pass_users: "users (first_pass uc c) i = users c i"
  by (simp add: first_pass_def fold_members_kept users_kept add_kind_users)

lemma second_pass_users: "users (second_pass uc c) i = users c i"
  by (simp add: second_pass_def fold_members_kept users_kept)

lemma add_use_case_users: "cl_useCases (add_use_case uc x) = cl_useCases x @ [uc]"
  by (simp add: add_use_case_def)

lemma third_pass_users:
  fixes uc :: "'v useCaseCore"
  shows "set (users (third_pass uc c) i) = set (users c i) \<union> (if i \<in> counted_for uc then {uc} else {})"
proof (cases "resolveDefinitionID uc = []")
  case True
  let ?f = "\<lambda>member x. (add_use_case uc x)\<lparr>cl_failIfHeld := (cl_failIfHeld x \<or> mb_failIfHeld member)\<rparr>"
  have "set (users (fold (\<lambda>member. collect (mb_definitionID member) (?f member)) members c) i) =
      set (users c i) \<union> (if i \<in> mb_definitionID ` set members then {uc} else {})"
    for members :: "'v compositeMemberConfig list"
    by (induction members arbitrary: c) (auto simp: collected_for_collect add_use_case_users)
  then show ?thesis using True by (simp add: third_pass_def counted_for_def)
next
  case False
  then show ?thesis
    by (simp add: third_pass_def counted_for_def collected_for_collect add_use_case_users add_kind_users Let_def)
qed

lemma collect_all_users:
  fixes ucs :: "'v useCaseCore list"
  shows "set (users (collect_all ucs) i) = {uc \<in> set ucs. i \<in> counted_for uc}"
proof -
  have "users (fold first_pass ucs c) i = users c i" for c by (induction ucs arbitrary: c) (simp_all add: first_pass_users)
  moreover have "users (fold second_pass ucs c) i = users c i" for c
    by (induction ucs arbitrary: c) (simp_all add: second_pass_users)
  moreover have "set (users (fold third_pass ucs c) i) = set (users c i) \<union> {uc \<in> set ucs. i \<in> counted_for uc}" for c
    by (induction ucs arbitrary: c) (auto simp: third_pass_users)
  moreover have "users ([] :: 'v collection) i = []" by (simp add: collected_for_def no_collected_def)
  ultimately show ?thesis by (simp add: collect_all_def)
qed

lemma collect_map_ok: "map_ok c \<Longrightarrow> map_ok (collect i f c)"
  by (simp add: collect_def)

lemma fold_collect_map_ok: "map_ok c \<Longrightarrow> map_ok (fold (\<lambda>member. collect (g member) (f member)) members c)"
  by (induction members arbitrary: c) (simp_all add: collect_map_ok)

lemma fold_pass_map_ok: "(\<And>uc c. map_ok c \<Longrightarrow> map_ok (pass uc c)) \<Longrightarrow> map_ok c \<Longrightarrow> map_ok (fold pass ucs c)"
  by (induction ucs arbitrary: c) simp_all

lemma collect_all_map_ok: "map_ok (collect_all ucs)"
  unfolding collect_all_def
  by (intro fold_pass_map_ok) (simp_all add: first_pass_def second_pass_def third_pass_def collect_map_ok fold_collect_map_ok)

section \<open>Registration of the plan\<close>

lemma link_parent_ID: "link_parent n p N def = Inr def' \<Longrightarrow> ld_ID def' = ld_ID def"
  by (auto simp: link_parent_def split: if_splits option.splits)

lemma plan_definition_ID:
  assumes "plan_definition N defID c = Inr p"
  shows "ld_ID (pd_definition p) = defID" and "pd_useCaseNames p = map co_name (cl_useCases c)"
  using assms
  by (auto simp: plan_definition_def Let_def make_strict_def base_definition_def
      split: if_splits sum.splits dest!: link_parent_ID)

lemma plan_definitions_spec:
  "plan_definitions N cs = Inr ps \<Longrightarrow>
   map fst ps = map fst cs \<and> (\<forall>(d, p) \<in> set ps. ld_ID (pd_definition p) = d
     \<and> (\<exists>c. (d, c) \<in> set cs \<and> pd_useCaseNames p = map co_name (cl_useCases c)))"
proof (induction N cs arbitrary: ps rule: plan_definitions.induct)
  case (2 N defID c rest)
  from "2.prems" obtain p ps' where p: "plan_definition N defID c = Inr p" and ps': "plan_definitions N rest = Inr ps'"
    and ps: "ps = (defID, p) # ps'" by (auto split: sum.splits)
  show ?case using "2.IH"[OF p ps'] plan_definition_ID[OF p] unfolding ps by fastforce
qed simp

text \<open>A registration that succeeds adds to the registry.\<close>

definition grows :: "Registry \<Rightarrow> Registry \<Rightarrow> bool" where
  "grows r r' \<longleftrightarrow> (reg_inv r \<longrightarrow> reg_inv r') \<and> (\<forall>i. Get r i \<noteq> None \<longrightarrow> Get r' i \<noteq> None)
     \<and> (\<forall>i. GetComposite r i \<noteq> None \<longrightarrow> GetComposite r' i \<noteq> None)"

lemma grows_refl [simp]: "grows r r"
  by (simp add: grows_def)

lemma grows_trans: "grows r r' \<Longrightarrow> grows r' r'' \<Longrightarrow> grows r r''"
  by (simp add: grows_def)

lemma Register_grows:
  assumes "Register r def = (r', None)"
  shows "grows r r' \<and> Get r' (ld_ID def) = Some def"
  using assms Register_inv[of r def]
  by (auto simp: Register_def grows_def Get_def GetComposite_def split: option.splits if_splits)

lemma RegisterComposite_grows:
  assumes "RegisterComposite r def = (r', None)"
  shows "grows r r' \<and> GetComposite r' (cd_ID def) = Some def"
  using assms RegisterComposite_inv[of r def]
  by (auto simp: RegisterComposite_def grows_def Get_def GetComposite_def split: option.splits if_splits)

lemma fold_names_get:
  "mget (fold (\<lambda>ucName. mput ucName i) names ids) n = (if n \<in> set names then Some i else mget ids n)"
  by (induction names arbitrary: ids) auto

lemma register_planned_ok:
  assumes "register_planned ps (reg, ids) = Inr (reg', ids')"
    and "\<forall>p \<in> set ps. n \<in> set (pd_useCaseNames p) \<longrightarrow> ld_ID (pd_definition p) = d"
  shows "grows reg reg' \<and> (\<forall>p \<in> set ps. Get reg' (ld_ID (pd_definition p)) \<noteq> None)
    \<and> mget ids' n = (if \<exists>p \<in> set ps. n \<in> set (pd_useCaseNames p) then Some d else mget ids n)"
  using assms
proof (induction ps arbitrary: reg ids)
  case (Cons p ps)
  obtain reg1 where r: "Register reg (pd_definition p) = (reg1, None)"
    and rest: "register_planned ps (reg1, fold (\<lambda>ucName. mput ucName (ld_ID (pd_definition p))) (pd_useCaseNames p) ids) = Inr (reg', ids')"
    using Cons.prems(1) by (auto split: prod.splits option.splits)
  note ih = Cons.IH[OF rest] and g = Register_grows[OF r]
  have "\<forall>p \<in> set ps. n \<in> set (pd_useCaseNames p) \<longrightarrow> ld_ID (pd_definition p) = d" using Cons.prems(2) by simp
  from ih[OF this] g Cons.prems(2) show ?case
    by (auto simp: fold_names_get grows_def)
qed simp

lemma register_planned_grows: "register_planned ps (reg, ids) = Inr (reg', ids') \<Longrightarrow> grows reg reg'"
proof (induction ps arbitrary: reg ids)
  case (Cons p ps)
  then show ?case by (auto split: prod.splits option.splits dest!: Register_grows intro: grows_trans)
qed simp

lemma translateUseCaseDefinition_ID: "translateUseCaseDefinition uc norm N = Inr def \<Longrightarrow> ld_ID def = su_id norm"
  by (auto simp: translateUseCaseDefinition_def Let_def make_strict_def base_definition_def dest!: link_parent_ID split: if_splits)

lemma register_members_grows:
  "register_members ucs uc norm members reg ids = Inr (reg', ids', b) \<Longrightarrow> grows reg reg'"
proof (induction ucs uc norm members reg ids rule: register_members.induct)
  case (2 ucs uc norm member rest reg ids)
  show ?case
  proof (cases "mb_definitionID member = []")
    case True
    with "2.prems" obtain def reg1 where d: "translateCompositeMemberDefinition uc norm member = Inr def"
      and r: "Register reg def = (reg1, None)"
      and rest: "register_members ucs uc norm rest reg1 (ids @ [ld_ID def]) = Inr (reg', ids', b)"
      by (auto split: sum.splits prod.splits option.splits)
    have "grows reg1 reg'" using 2(2) True d r rest by force
    then show ?thesis using Register_grows[OF r] by (blast intro: grows_trans)
  next
    case False
    then show ?thesis using "2.prems" 2(1) by (auto split: if_splits)
  qed
qed simp

text \<open>Where the id of a use case is looked up: a composite, or a lock definition.\<close>

definition resolves :: "Registry \<Rightarrow> 'v useCaseCore \<Rightarrow> string \<Rightarrow> bool" where
  "resolves reg uc i =
     (if resolveDefinitionID uc = [] \<and> cg_composite (co_config uc) \<noteq> [] then GetComposite reg i \<noteq> None else Get reg i \<noteq> None)"

lemma resolves_grows: "resolves reg uc i \<Longrightarrow> grows reg reg' \<Longrightarrow> resolves reg' uc i"
  by (auto simp: resolves_def grows_def split: if_splits)

lemma register_use_case_ok:
  assumes "register_use_case ucs N uc norm (reg, ids) = Inr (reg', ids')" and "resolveDefinitionID uc = []"
  shows "grows reg reg' \<and> ids' = mput (co_name uc) (su_id norm) ids \<and> resolves reg' uc (su_id norm)"
proof (cases "cg_composite (co_config uc) = []")
  case True
  with assms(1) obtain def where d: "translateUseCaseDefinition uc norm N = Inr def"
    and r: "Register reg def = (reg', None)" and ids: "ids' = mput (co_name uc) (ld_ID def) ids"
    by (auto simp: register_use_case_def split: sum.splits prod.splits option.splits)
  show ?thesis using Register_grows[OF r] translateUseCaseDefinition_ID[OF d] ids True by (simp add: resolves_def)
next
  case False
  with assms(1) obtain reg1 ms where m: "register_members ucs uc norm (cg_composite (co_config uc)) reg [] = Inr (reg1, ms, False)"
    and r: "RegisterComposite reg1 (composite_definition (su_id norm) ms) = (reg', None)"
    and ids: "ids' = mput (co_name uc) (su_id norm) ids"
    by (auto simp: register_use_case_def split: sum.splits prod.splits option.splits if_splits)
  show ?thesis using register_members_grows[OF m] RegisterComposite_grows[OF r] ids False assms(2)
    by (auto intro: grows_trans simp: composite_definition_def resolves_def)
qed

lemma register_use_cases_ok:
  assumes "register_use_cases all N ucs (reg, ids) = Inr (reg', ids')" and "distinct (map co_name ucs)"
  shows "grows reg reg'
    \<and> (\<forall>n. n \<notin> co_name ` {uc \<in> set ucs. resolveDefinitionID uc = []} \<longrightarrow> mget ids' n = mget ids n)
    \<and> (\<forall>uc \<in> set ucs. resolveDefinitionID uc = [] \<longrightarrow>
         mget ids' (co_name uc) = Some (su_id (the (mget N (co_name uc))))
         \<and> resolves reg' uc (su_id (the (mget N (co_name uc)))))"
  using assms
proof (induction ucs arbitrary: reg ids)
  case (Cons uc ucs)
  show ?case
  proof (cases "resolveDefinitionID uc = []")
    case True
    let ?norm = "the (mget N (co_name uc))"
    from Cons.prems(1) True obtain reg1 ids1 where r: "register_use_case all N uc ?norm (reg, ids) = Inr (reg1, ids1)"
      and rest: "register_use_cases all N ucs (reg1, ids1) = Inr (reg', ids')"
      by (auto split: sum.splits)
    note ih = Cons.IH[OF rest] and one = register_use_case_ok[OF r True]
    have d: "distinct (map co_name ucs)" and new: "co_name uc \<notin> co_name ` {uc \<in> set ucs. resolveDefinitionID uc = []}"
      using Cons.prems(2) by auto
    have g: "grows reg reg'" using ih[OF d] one by (blast intro: grows_trans)
    moreover have "mget ids' n = mget ids n" if "n \<notin> co_name ` {u \<in> set (uc # ucs). resolveDefinitionID u = []}" for n
    proof -
      have "n \<noteq> co_name uc" "n \<notin> co_name ` {u \<in> set ucs. resolveDefinitionID u = []}" using that True by auto
      then show ?thesis using ih[OF d] one by simp
    qed
    moreover have "mget ids' (co_name uc) = Some (su_id ?norm)" using ih[OF d] one new by simp
    moreover have "resolves reg' uc (su_id ?norm)" using ih[OF d] one by (blast intro: resolves_grows)
    ultimately show ?thesis using ih[OF d] by simp
  next
    case False
    then have "{u \<in> set (uc # ucs). resolveDefinitionID u = []} = {u \<in> set ucs. resolveDefinitionID u = []}" by auto
    then show ?thesis using Cons False by auto
  qed
qed simp

lemma normalized_by_name_get:
  assumes "distinct (map co_name ucs)" and "uc \<in> set ucs"
  shows "mget (normalized_by_name ucs counts lnk) (co_name uc) = Some (normalizeUseCase uc counts lnk)"
proof -
  have o: "n \<notin> co_name ` set us \<Longrightarrow> mget (put_normalized counts lnk us m) n = mget m n" for us n m
    by (induction us arbitrary: m) auto
  have "mget (put_normalized counts lnk ucs m) (co_name uc) = Some (normalizeUseCase uc counts lnk)" for m
    using assms
  proof (induction ucs arbitrary: m)
    case (Cons u us)
    then show ?case by (cases "u = uc") (simp_all add: o)
  qed simp
  then show ?thesis by (simp add: normalized_by_name_def)
qed

lemma planned_names:
  fixes ucs :: "'v useCaseCore list"
  assumes "collectPlannedDefinitions ucs N = Inr ps" and "p \<in> set (map snd ps)" and "distinct (map co_name ucs)"
    and "uc \<in> set ucs" and "co_name uc \<in> set (pd_useCaseNames p)"
  shows "ld_ID (pd_definition p) \<in> counted_for uc"
proof -
  from assms(2) obtain d where dp: "(d, p) \<in> set ps" by auto
  have spec: "map fst ps = map fst (collect_all ucs) \<and> (\<forall>(d, p) \<in> set ps. ld_ID (pd_definition p) = d
     \<and> (\<exists>c. (d, c) \<in> set (collect_all ucs) \<and> pd_useCaseNames p = map co_name (cl_useCases c)))"
    using plan_definitions_spec[OF assms(1)[unfolded collectPlannedDefinitions_def]] .
  with dp obtain c where c: "(d, c) \<in> set (collect_all ucs)" "pd_useCaseNames p = map co_name (cl_useCases c)"
    "ld_ID (pd_definition p) = d" by blast
  then have "collected_for (collect_all ucs) d = c" using collect_all_map_ok[of ucs] by (simp add: collected_for_def)
  then have u: "set (cl_useCases c) = {uc \<in> set ucs. d \<in> counted_for uc}" using collect_all_users[of ucs d] by simp
  from assms(5) c(2) obtain u where "u \<in> set (cl_useCases c)" "co_name u = co_name uc" by auto
  moreover have "u = uc" using calculation u assms(3,4) by (auto simp: distinct_map inj_on_def)
  ultimately show ?thesis using u c(3) by simp
qed

lemma planned_covers:
  fixes ucs :: "'v useCaseCore list"
  assumes "collectPlannedDefinitions ucs N = Inr ps" and "uc \<in> set ucs" and "d \<in> counted_for uc"
  shows "\<exists>p \<in> set (map snd ps). ld_ID (pd_definition p) = d \<and> co_name uc \<in> set (pd_useCaseNames p)"
proof -
  have "uc \<in> set (users (collect_all ucs) d)" using assms(2,3) by (simp add: collect_all_users)
  then obtain c where c: "mget (collect_all ucs) d = Some c" "uc \<in> set (cl_useCases c)"
    by (auto simp: collected_for_def no_collected_def split: option.splits)
  have spec: "map fst ps = map fst (collect_all ucs) \<and> (\<forall>(d, p) \<in> set ps. ld_ID (pd_definition p) = d
     \<and> (\<exists>c. (d, c) \<in> set (collect_all ucs) \<and> pd_useCaseNames p = map co_name (cl_useCases c)))"
    using plan_definitions_spec[OF assms(1)[unfolded collectPlannedDefinitions_def]] .
  have "d \<in> set (map fst ps)" using spec map_of_SomeD[OF c(1)] by force
  then obtain p where p: "(d, p) \<in> set ps" by auto
  with spec obtain c' where c': "(d, c') \<in> set (collect_all ucs)" "pd_useCaseNames p = map co_name (cl_useCases c')"
    "ld_ID (pd_definition p) = d" by blast
  have "c' = c" using c'(1) c(1) collect_all_map_ok[of ucs] by simp
  then show ?thesis using p c(2) c'(2,3) by force
qed

lemma plan_registry_resolves:
  fixes ucs :: "'v useCaseCore list"
  assumes "plan_registry ucs counts lnk = Inr (reg, ids)" and "distinct (map co_name ucs)" and "uc \<in> set ucs"
  shows "reg_inv reg \<and> mget ids (co_name uc) = Some (su_id (normalizeUseCase uc [] lnk))
    \<and> resolves reg uc (su_id (normalizeUseCase uc [] lnk))"
proof -
  let ?N = "normalized_by_name ucs counts lnk"
  from assms(1) obtain ps reg1 ids1 where ps: "collectPlannedDefinitions ucs ?N = Inr ps"
    and r1: "register_planned (map snd ps) (NewRegistry, []) = Inr (reg1, ids1)"
    and r2: "register_use_cases ucs ?N ucs (reg1, ids1) = Inr (reg, ids)"
    by (auto simp: plan_registry_def Let_def split: sum.splits)
  note two = register_use_cases_ok[OF r2 assms(2)]
  have i: "su_id (normalizeUseCase uc c l) = su_id (normalizeUseCase uc [] lnk)" for c l by (simp add: su_id_normalize)
  have inv: "reg_inv reg" using register_planned_grows[OF r1] two reg_inv_New by (simp add: grows_def)
  show ?thesis
  proof (cases "resolveDefinitionID uc = []")
    case True
    have n: "su_id (the (mget ?N (co_name uc))) = su_id (normalizeUseCase uc [] lnk)"
      using normalized_by_name_get[OF assms(2,3), of counts lnk] i[of counts lnk] by simp
    from two have "resolveDefinitionID uc = [] \<longrightarrow> mget ids (co_name uc) = Some (su_id (the (mget ?N (co_name uc))))
        \<and> resolves reg uc (su_id (the (mget ?N (co_name uc))))" using assms(3) by blast
    then show ?thesis using True inv unfolding n by blast
  next
    case False
    let ?d = "resolveDefinitionID uc"
    have c: "counted_for uc = {?d}" using False by (simp add: counted_for_def)
    have "\<forall>p \<in> set (map snd ps). co_name uc \<in> set (pd_useCaseNames p) \<longrightarrow> ld_ID (pd_definition p) = ?d"
      using planned_names[OF ps _ assms(2,3)] c by blast
    note one = register_planned_ok[OF r1 this]
    obtain p where p: "p \<in> set (map snd ps)" "ld_ID (pd_definition p) = ?d" "co_name uc \<in> set (pd_useCaseNames p)"
      using planned_covers[OF ps assms(3)] c by blast
    have "mget ids1 (co_name uc) = Some ?d" "Get reg1 ?d \<noteq> None" using one p by auto
    moreover have "co_name uc \<notin> co_name ` {u \<in> set ucs. resolveDefinitionID u = []}"
      using assms(2,3) False by (auto simp: distinct_map inj_on_def)
    ultimately show ?thesis using two inv False by (simp add: su_id_normalize resolves_def grows_def)
  qed
qed

definition ex_ref :: "string \<Rightarrow> bool \<Rightarrow> definitionRef" where
  "ex_ref name strict = \<lparr>df_ref = length name, df_name = name, df_id = name, df_config = \<lparr>dc_strict = strict, dc_failIfHeld = False\<rparr>\<rparr>"

definition ex_run :: "string useCaseCore" where
  "ex_run = newUseCaseCoreWithDefinition 1 ''pay'' useCaseKindRun (ex_ref ''order'' False) []"

definition ex_hold :: "string useCaseCore" where
  "ex_hold = newUseCaseCoreWithDefinition 2 ''park'' useCaseKindHold (ex_ref ''order'' False) []"

definition ex_use_cases :: "string UseCaseRegistry" where
  "ex_use_cases = fst (UseCaseRegistry_Register (NewUseCaseRegistry 0) [Some ex_run, Some ex_hold])"

definition ex_config :: "(MemoryDriver, MemoryStore, string) clientConfig" where
  "ex_config = \<lparr>cf_identity = \<lparr>id_OwnerID = ''a'', id_Service = ''svc'', id_Instance = ''i''\<rparr>, cf_identityProvider = None,
     cf_registry = Some ex_use_cases, cf_backend = Some memory_driver, cf_idempotency = None, cf_observer = False,
     cf_inspectStore = False\<rparr>"

lemma ex_use_cases_inv: "uc_inv ex_use_cases"
  unfolding ex_use_cases_def by (intro UseCaseRegistry_Register_inv uc_inv_New)

text \<open>
  C32. Start-up leaves no use case without its lock. If the plan is built, every registered use case is
  mapped to the id under which its requests will look up their definition, that id is registered in
  the engine registry, as a composite for a composite use case and as a lock definition otherwise, the
  engine registry satisfies its invariant, and the manager the use case needs is set up.
\<close>

theorem plan_resolves_use_cases:
  assumes "uc_inv r" and "cf_registry cfg = Some r" and "buildClientPlan cfg = Inr plan"
    and "uc \<in> set (registeredUseCases r)"
  shows "reg_inv (pl_engineRegistry plan)
    \<and> mget (pl_definitionIDByUseCase plan) (co_name uc) = Some (su_id (normalizeUseCase uc [] (link_of uc)))
    \<and> (if resolveDefinitionID uc = [] \<and> cg_composite (co_config uc) \<noteq> []
       then GetComposite (pl_engineRegistry plan) (su_id (normalizeUseCase uc [] (link_of uc))) \<noteq> None
       else Get (pl_engineRegistry plan) (su_id (normalizeUseCase uc [] (link_of uc))) \<noteq> None)
    \<and> (case co_kind uc of useCaseKindRun \<Rightarrow> pl_hasRunUseCases plan | useCaseKindClaim \<Rightarrow> pl_hasClaimUseCases plan
        | useCaseKindHold \<Rightarrow> pl_hasHoldUseCases plan)"
proof -
  have ne: "registeredUseCases r \<noteq> []" using assms(4) by auto
  obtain counts reg ids where p: "plan_registry (registeredUseCases r) counts (ur_link r) = Inr (reg, ids)"
    and plan: "pl_engineRegistry plan = reg" "pl_definitionIDByUseCase plan = ids"
      "pl_hasRunUseCases plan = list_ex (\<lambda>uc. co_kind uc = useCaseKindRun) (registeredUseCases r)"
      "pl_hasClaimUseCases plan = list_ex (\<lambda>uc. co_kind uc = useCaseKindClaim) (registeredUseCases r)"
      "pl_hasHoldUseCases plan = list_ex (\<lambda>uc. co_kind uc = useCaseKindHold) (registeredUseCases r)"
    using assms(2,3) ne by (auto simp: buildClientPlan_def Let_def split: if_splits sum.splits option.splits prod.splits)
  have "link_of uc = ur_link r" using registered_names(3)[OF assms(1,4)] by (simp add: link_of_def)
  moreover have "case co_kind uc of useCaseKindRun \<Rightarrow> pl_hasRunUseCases plan | useCaseKindClaim \<Rightarrow> pl_hasClaimUseCases plan
        | useCaseKindHold \<Rightarrow> pl_hasHoldUseCases plan"
    using assms(4) unfolding plan list_ex_iff by (auto split: useCaseKind.split)
  ultimately show ?thesis
    using plan_registry_resolves[OF p registered_names(2)[OF assms(1)] assms(4)] plan(1,2) by (simp add: resolves_def)
qed

lemma register_use_cases_shared:
  "list_all (\<lambda>uc. resolveDefinitionID uc \<noteq> []) us \<Longrightarrow> register_use_cases ucs N us st = Inr st"
  by (induction us) auto

definition ex_planned :: "Registry \<times> (string, string) gomap" where
  "ex_planned =
     (\<lparr>rg_definitions = [(''order'', base_definition ''order'' ''order'' ExecutionSync defaultLeaseTTL 0)], rg_composites = []\<rparr>,
      [(''park'', ''order''), (''pay'', ''order'')])"

lemma ex_trim: "trim_space ''pay'' = ''pay''" "trim_space ''park'' = ''park''" "trim_space ''order'' = ''order''" "trim_space ''a'' = ''a''"
  by (simp_all add: trim_space_visible visible_def)

lemmas ex_core_simps = ex_run_def ex_hold_def ex_ref_def newUseCaseCoreWithDefinition_def ex_trim
  resolveDefinitionID_def useCaseIsStrict_def

lemma ex_registered:
  "registeredUseCases ex_use_cases = [ex_hold\<lparr>co_registry := Some 1\<rparr>, ex_run\<lparr>co_registry := Some 1\<rparr>]"
  and ex_use_cases_link: "ur_link ex_use_cases = 1"
proof -
  have "sort [''pay'', ''park''] = [''park'', ''pay'']" by code_simp
  then show "registeredUseCases ex_use_cases = [ex_hold\<lparr>co_registry := Some 1\<rparr>, ex_run\<lparr>co_registry := Some 1\<rparr>]"
    by (simp add: registeredUseCases_def ex_use_cases_def UseCaseRegistry_Register_def NewUseCaseRegistry_def newRegistryLink_def
        register_core_def definitionRefForUseCase_def ex_core_simps)
  show "ur_link ex_use_cases = 1"
    by (simp add: ex_use_cases_def UseCaseRegistry_Register_def NewUseCaseRegistry_def newRegistryLink_def
        register_core_def definitionRefForUseCase_def ex_core_simps)
qed

lemma ex_collected: "collect_all (registeredUseCases ex_use_cases) =
    [(''order'', no_collected\<lparr>cl_kinds := [useCaseKindHold, useCaseKindRun],
       cl_useCases := [ex_hold\<lparr>co_registry := Some 1\<rparr>, ex_run\<lparr>co_registry := Some 1\<rparr>]\<rparr>)]"
  by (simp add: ex_registered collect_all_def first_pass_def second_pass_def third_pass_def collect_def no_collected_def
      add_use_case_def add_kind_def add_value_def ex_core_simps)

lemma ex_plan_registry: "plan_registry (registeredUseCases ex_use_cases) [] (ur_link ex_use_cases) = Inr ex_planned"
proof -
  let ?ucs = "registeredUseCases ex_use_cases"
  let ?def = "base_definition ''order'' ''order'' ExecutionSync defaultLeaseTTL 0"
  have "collectPlannedDefinitions ?ucs N = Inr [(''order'', \<lparr>pd_definition = ?def, pd_useCaseNames = [''park'', ''pay'']\<rparr>)]" for N
    unfolding collectPlannedDefinitions_def ex_collected
    by (simp add: plan_definition_def resolveDefinitionOption_def no_collected_def executionKindForDefinition_def
        link_parent_def ex_core_simps)
  moreover have "register_planned [\<lparr>pd_definition = ?def, pd_useCaseNames = [''park'', ''pay'']\<rparr>] (NewRegistry, []) = Inr ex_planned"
    by (simp add: Register_def requireDefinitionID_def base_definition_def NewRegistry_def ex_planned_def ex_trim)
  moreover have "register_use_cases ?ucs N ?ucs st = Inr st" for N st
    by (rule register_use_cases_shared) (simp add: ex_registered ex_core_simps)
  ultimately show ?thesis by (simp add: plan_registry_def)
qed

lemma ex_plan:
  "\<exists>plan. buildClientPlan ex_config = Inr plan \<and> pl_engineRegistry plan = fst ex_planned
     \<and> pl_hasRunUseCases plan \<and> \<not> pl_hasClaimUseCases plan \<and> pl_hasHoldUseCases plan"
proof -
  let ?ucs = "registeredUseCases ex_use_cases"
  have "?ucs \<noteq> []" "check_use_cases ?ucs [] = Inr []" by (simp_all add: ex_registered check_mode_def ex_core_simps)
  moreover have "hasStartupIdentity ex_config" by (simp add: hasStartupIdentity_def ex_config_def ex_trim)
  moreover have "ValidateCapabilities (normalized_list ?ucs [] (ur_link ex_use_cases)) caps = None" for caps
    by (simp add: ex_registered normalizeUseCase_def NewUseCaseWithID_def requirements_def child_count_def ex_core_simps)
  moreover have "cf_registry ex_config = Some ex_use_cases" "cf_backend ex_config \<noteq> None" by (simp_all add: ex_config_def)
  moreover have "list_ex (\<lambda>uc. co_kind uc = useCaseKindRun) ?ucs" "\<not> list_ex (\<lambda>uc. co_kind uc = useCaseKindClaim) ?ucs"
    "list_ex (\<lambda>uc. co_kind uc = useCaseKindHold) ?ucs" by (simp_all add: ex_registered ex_core_simps)
  ultimately show ?thesis using ex_plan_registry by (auto simp: buildClientPlan_def Let_def case_prod_beta)
qed

theorem plan_resolves_use_cases_witness:
  "\<exists>plan. buildClientPlan ex_config = Inr plan \<and> mget (pl_definitionIDByUseCase plan) ''pay'' = Some ''order''
    \<and> Get (pl_engineRegistry plan) ''order'' \<noteq> None \<and> pl_hasRunUseCases plan"
proof -
  obtain plan where plan: "buildClientPlan ex_config = Inr plan" using ex_plan by blast
  let ?uc = "ex_run\<lparr>co_registry := Some 1\<rparr>"
  have uc: "?uc \<in> set (registeredUseCases ex_use_cases)" "co_name ?uc = ''pay''" "resolveDefinitionID ?uc = ''order''"
    "co_kind ?uc = useCaseKindRun" by (simp_all add: ex_registered ex_core_simps)
  have "cf_registry ex_config = Some ex_use_cases" by (simp add: ex_config_def)
  from plan_resolves_use_cases[OF ex_use_cases_inv this plan uc(1)] uc plan show ?thesis by (auto simp: su_id_normalize)
qed

end
