(* ===== verification/Client_Props.thy ===== *)
theory Client_Props
  imports Client_Plan_Correct
begin

text \<open>
  What the public client guarantees on the in-memory backend, from start-up to the single operations.
\<close>

section \<open>What start-up sets up\<close>

lemma NewClient_parts:
  assumes "NewClient cfg t s = Inr (s', c)" and "cf_backend cfg = Some D"
  shows "ct_runtime c = Some m \<Longrightarrow>
      NewManager (pl_engineRegistry (ct_plan c)) (Some D) (ct_bridge c) = Inr m \<and> mg_driver m = D
      \<and> mg_registry m = pl_engineRegistry (ct_plan c) \<and> pl_hasRunUseCases (ct_plan c)"
    and "ct_holds c = Some h \<Longrightarrow> hm_driver h = D \<and> hm_registry h = pl_engineRegistry (ct_plan c)"
    and "buildClientPlan cfg = Inr (ct_plan c)"
    and "ct_registry c = cf_registry cfg"
proof -
  have m: "mg_driver m = D \<and> mg_registry m = reg" if "NewManager reg (Some D) b = Inr m" for reg b m
    using that by (auto simp: NewManager_def Let_def split: option.splits if_splits)
  have h: "hm_driver h = D \<and> hm_registry h = reg" if "NewHoldManager reg (Some D) = Inr h" for reg h
    using that by (auto simp: NewHoldManager_def split: option.splits)
  show "ct_runtime c = Some m \<Longrightarrow>
      NewManager (pl_engineRegistry (ct_plan c)) (Some D) (ct_bridge c) = Inr m \<and> mg_driver m = D
      \<and> mg_registry m = pl_engineRegistry (ct_plan c) \<and> pl_hasRunUseCases (ct_plan c)"
    and "ct_holds c = Some h \<Longrightarrow> hm_driver h = D \<and> hm_registry h = pl_engineRegistry (ct_plan c)"
    and "buildClientPlan cfg = Inr (ct_plan c)" and "ct_registry c = cf_registry cfg"
    using assms m h by (auto simp: NewClient_def Let_def split: sum.splits if_splits prod.splits)
qed

lemma planned_marks:
  assumes "buildClientPlan cfg = Inr plan" and "pl_hasRunUseCases plan"
  shows "pl_lineageDefinitionIDs plan = Some (lineageDefinitionIDs (Registry_Definitions (pl_engineRegistry plan)))"
  using assms by (auto simp: buildClientPlan_def Let_def split: option.splits sum.splits if_splits prod.splits)

section \<open>Run\<close>

text \<open>What a callback of \<^verbatim>\<open>ExecuteExclusive\<close> finds, for a key that is passed on as it is.\<close>

lemma exclusive_locked_cong:
  assumes "mg_driver m = memory_driver" and "md_inv (w_driver w)"
    and "\<And>def. Get (mg_registry m) (sy_DefinitionID req) = Some def \<Longrightarrow> mget (mg_lineageDefs m) (ld_ID def) \<noteq> Some True"
    and "sy_ResourceKey req \<noteq> []"
    and "\<And>c lc w. lc_ResourceKey lc = sy_ResourceKey req \<Longrightarrow>
      mem_holds (env_clock e (w_tick w - 2)) (w_driver w) (sy_ResourceKey req) = Some (om_OwnerID (sy_Ownership req)) \<Longrightarrow>
      (\<forall>T. env_clock e (w_tick w - 2) \<le> T \<longrightarrow> T \<le> lc_LeaseDeadline lc \<longrightarrow>
        mem_holds T (w_driver w) (sy_ResourceKey req) = Some (om_OwnerID (sy_Ownership req))) \<Longrightarrow>
      fn c lc w = gn c lc w"
  shows "ExecuteExclusive m e ctx req fn w = ExecuteExclusive m e ctx req gn w"
  by (rule mem.ExecuteExclusive_under_lease_until[OF assms(1,2)])
     (use assms(3,4) in \<open>auto simp: mem_slot_def buildAcquirePlan_def intro: assms(5)\<close>)

text \<open>A registry without lineage parents has no lineage marks, neither for the client nor for a manager.\<close>

lemma mark_children_none:
  "\<forall>def \<in> set defs. ld_ParentRef def = [] \<Longrightarrow> snd (mark_children defs P marked) = marked"
  by (induction defs P marked rule: mark_children.induct) auto

lemma no_lineage:
  assumes "\<forall>def \<in> set (Registry_Definitions reg). ld_ParentRef def = []"
  shows "lineageDefinitionIDs (Registry_Definitions reg) = []"
    and "NewManager reg drv b = Inr m \<Longrightarrow> mget (mg_lineageDefs m) i \<noteq> Some True"
proof -
  let ?defs = "Registry_Definitions reg"
  have "mark_pass P [] = []" for P by (simp add: mark_pass_def)
  then have "mark_loop P [] = []" for P by (subst mark_loop.simps) simp
  then show "lineageDefinitionIDs ?defs = []"
    using mark_children_none[OF assms, of "[]" "[]"] by (simp add: lineageDefinitionIDs_def case_prod_beta)
  assume m: "NewManager reg drv b = Inr m"
  let ?f = "\<lambda>d. ld_ParentRef d \<noteq> [] \<or>
        (case mget (children_index ?defs) (ld_ID d) of None \<Rightarrow> False | Some ids \<Rightarrow> 0 < length ids)"
  have "mg_lineageDefs m = fold (\<lambda>d m. mput (ld_ID d) (?f d) m) ?defs []"
    using m by (auto simp: NewManager_def Let_def split: option.splits if_splits)
  moreover have "\<not> ?f d" if "d \<in> set ?defs" for d unfolding children_index_get using assms that by auto
  moreover have "mget acc i \<noteq> Some True \<Longrightarrow> \<forall>d \<in> set ds. \<not> f d \<Longrightarrow> mget (fold (\<lambda>d m. mput (ld_ID d) (f d) m) ds acc) i \<noteq> Some True"
    for acc f and ds :: "LockDefinition list" by (induction ds arbitrary: acc) auto
  ultimately show "mget (mg_lineageDefs m) i \<noteq> Some True" by simp
qed

definition only_if_locked :: "Env \<Rightarrow> string \<Rightarrow> string \<Rightarrow> go_err \<Rightarrow> MemoryDriver run_fn \<Rightarrow> MemoryDriver run_fn" where
  "only_if_locked e key owner x fn ctx lease w =
     (if le_ResourceKey lease = key \<and> mem_holds (env_clock e (w_tick w - 2)) (w_driver w) key = Some owner
         \<and> (\<forall>T. env_clock e (w_tick w - 2) \<le> T \<longrightarrow> T \<le> le_Deadline lease \<longrightarrow> mem_holds T (w_driver w) key = Some owner)
      then fn ctx lease w else (w, x))"

lemma ex_client:
  "\<exists>c. NewClient ex_config 0 NewMemoryDriver = Inr (NewMemoryDriver, c) \<and> ct_runtime c \<noteq> None \<and> ct_holds c \<noteq> None
     \<and> (\<forall>def \<in> set (Registry_Definitions (pl_engineRegistry (ct_plan c))). ld_ParentRef def = [])"
proof -
  obtain plan where plan: "buildClientPlan ex_config = Inr plan" "pl_engineRegistry plan = fst ex_planned"
    "pl_hasRunUseCases plan" "\<not> pl_hasClaimUseCases plan" "pl_hasHoldUseCases plan" using ex_plan by blast
  let ?def = "base_definition ''order'' ''order'' ExecutionSync defaultLeaseTTL 0"
  have "resource_key_builder \<noteq> None" by code_simp
  then obtain kb where kb: "resource_key_builder = Some kb" by blast
  have "ValidateDefinition ?def = None"
    by (simp add: ValidateDefinition_def definitionValidations_def requireDefinitionID_def kb
        requireDefinitionResource_def requireKeyBuilder_def requireStrictFencing_def requireStrictFailClosed_def
        requireStrictAsyncIdempotency_def base_definition_def ex_trim)
  then have "Validate (fst ex_planned) = None"
    by (simp add: Validate_def ex_planned_def validate_definition_entry_def ValidateDefinitionAgainstRegistry_def)
       (simp add: base_definition_def)
  moreover have p: "list_all (\<lambda>d. ld_ParentRef d = []) (Registry_Definitions (fst ex_planned))"
    by (simp add: Registry_Definitions_def ex_planned_def base_definition_def)
  moreover have "cf_backend ex_config = Some memory_driver" by (simp add: ex_config_def)
  ultimately show ?thesis using plan
    by (auto simp: NewClient_def Let_def NewManager_def NewHoldManager_def memory_driver_def list_all_iff)
qed

text \<open>
  C30. The callback of \<^verbatim>\<open>Client.Run\<close> starts with the key bound in the request locked for the effective
  owner. For a client that started up on the in-memory backend with a registry in which no definition
  has a parent, and a request that is not a composite and has a non-blank key: put a check in front of the
  callback that the lease names that key and that the backend has it locked for the owner of the resolved
  identity, at the clock reading of the grant and, as the lease is on record, until the deadline the
  lease announces. No run of \<^verbatim>\<open>Run\<close> can tell the difference.
\<close>

theorem run_starts_with_bound_key:
  assumes "NewClient cfg t s = Inr (s', c)" and "cf_backend cfg = Some memory_driver"
    and "\<forall>def \<in> set (Registry_Definitions (pl_engineRegistry (ct_plan c))). ld_ParentRef def = []"
    and "md_inv (w_driver w)" and "rr_compositeMemberInputs req = []" and "trim_space (rr_resourceKey req) \<noteq> []"
    and "resolveIdentity c ctx (rr_ownerID req) = Inr identity"
  shows "Run (Some c) e ctx req (Some (only_if_locked e (trim_space (rr_resourceKey req)) (trim_space (id_OwnerID identity)) x fn))
      down down' w
    = Run (Some c) e ctx req (Some fn) down down' w"
proof (cases "ct_runtime c")
  case None
  then show ?thesis by (simp add: Run_def split: sum.split)
next
  case (Some m)
  note m = NewClient_parts(1)[OF assms(1,2) Some]
  have lin: "mget (mg_lineageDefs m) i \<noteq> Some True" for i using no_lineage(2)[OF assms(3)] m by blast
  show ?thesis
  proof (cases "validateRunRequest c ctx req")
    case (Inr v)
    then obtain norm uc where v: "v = (Some (BindRunRequest norm (rr_resourceKey req) (id_OwnerID identity)), identity, uc)"
      using assms(5,7) by (auto simp: validateRunRequest_def Let_def split: sum.splits)
    let ?bound = "BindRunRequest norm (rr_resourceKey req) (id_OwnerID identity)"
    let ?sync = "run_sync_request (ct_plan c) ?bound identity"
    have own: "om_OwnerID (sy_Ownership ?sync) = trim_space (id_OwnerID identity)"
      by (simp add: run_sync_request_def TranslateRun_def BindRunRequest_def Let_def blank_ownership_def split: option.split)
    have key: "sy_ResourceKey ?sync = trim_space (rr_resourceKey req)"
    proof -
      have "pl_lineageDefinitionIDs (ct_plan c) = Some []"
        using planned_marks[OF NewClient_parts(3)[OF assms(1,2)]] m no_lineage(1)[OF assms(3)] by simp
      then show ?thesis by (simp add: run_sync_request_def BindRunRequest_def Let_def)
    qed
    have "ExecuteExclusive m e ctx ?sync (\<lambda>ctx lc. only_if_locked e (trim_space (rr_resourceKey req)) (trim_space (id_OwnerID identity)) x fn ctx (to_lease (rr_useCaseName req) lc)) w
        = ExecuteExclusive m e ctx ?sync (\<lambda>ctx lc. fn ctx (to_lease (rr_useCaseName req) lc)) w"
      using m lin key own assms(4,6)
      by (intro exclusive_locked_cong) (auto simp: only_if_locked_def to_lease_def)
    then show ?thesis using Inr v Some by (simp add: Run_def)
  qed (simp add: Run_def Some)
qed

lemma ex_identity:
  "NewClient ex_config t s = Inr (s', c) \<Longrightarrow>
   resolveIdentity c ctx [] = Inr \<lparr>id_OwnerID = ''a'', id_Service = ''svc'', id_Instance = ''i''\<rparr>"
proof -
  assume "NewClient ex_config t s = Inr (s', c)"
  then have "ct_identity c = \<lparr>id_OwnerID = ''a'', id_Service = ''svc'', id_Instance = ''i''\<rparr>" "ct_identityProvider c = None"
    by (auto simp: NewClient_def Let_def ex_config_def split: sum.splits if_splits)
  moreover have "trim_space ''svc'' = ''svc''" "trim_space ''i'' = ''i''" by (simp_all add: trim_space_visible visible_def)
  ultimately show ?thesis by (simp add: resolveIdentity_def non_blank_def ex_trim)
qed

definition ex_run_request :: "string RunRequest" where
  "ex_run_request = run_request (ex_run\<lparr>co_registry := Some 1\<rparr>) ''order:1'' [] []"

lemma ex_order_key: "trim_space ''order:1'' = ''order:1''"
  by (simp add: trim_space_visible visible_def)

theorem run_starts_with_bound_key_witness:
  "\<exists>c. NewClient ex_config 0 NewMemoryDriver = Inr (NewMemoryDriver, c)
    \<and> Run (Some c) ex_env background ex_run_request
        (Some (only_if_locked ex_env ''order:1'' ''a'' (Some (Sentinel ErrBusy)) (\<lambda>_ _ w. (w, None)))) False False
        (new_world NewMemoryDriver)
      = Run (Some c) ex_env background ex_run_request (Some (\<lambda>_ _ w. (w, None))) False False (new_world NewMemoryDriver)"
proof -
  obtain c where c: "NewClient ex_config 0 NewMemoryDriver = Inr (NewMemoryDriver, c)"
    "\<forall>def \<in> set (Registry_Definitions (pl_engineRegistry (ct_plan c))). ld_ParentRef def = []" using ex_client by blast
  have "cf_backend ex_config = Some memory_driver" by (simp add: ex_config_def)
  from run_starts_with_bound_key[OF c(1) this c(2), where w = "new_world NewMemoryDriver" and req = ex_run_request
      and ctx = background and identity = "\<lparr>id_OwnerID = ''a'', id_Service = ''svc'', id_Instance = ''i''\<rparr>"]
  show ?thesis using c(1) ex_identity[OF c(1)]
    by (auto simp: ex_run_request_def run_request_def new_world_def md_inv_New ex_order_key ex_trim)
qed

section \<open>Hold and forfeit\<close>

lemma Hold_With_request:
  "Hold_With (Some core, b) input opts = Inr req \<Longrightarrow> hr_useCaseCore req = Some core \<and> hr_registryLink req = link_of core
     \<and> hr_useCaseName req = co_name core \<and> hr_boundToRegistry req = (co_registry core \<noteq> None)"
  by (auto simp: Hold_With_def split: option.splits sum.splits)

lemma HoldManager_Release_memory:
  assumes "hm_driver m = memory_driver" and "md_inv (w_driver w)" and "dr_ResourceKeys req = [k]"
    and "HoldManager_Release m e ctx req w = (w', err)"
  defines "T \<equiv> env_clock e (w_tick w)" and "x \<equiv> mem_slot (dr_DefinitionID req) k"
  shows "if mem_holds T (w_driver w) x = Some (dr_OwnerID req)
    then err = None \<and> (\<forall>t' \<ge> T. mem_holds t' (w_driver w') = (mem_holds t' (w_driver w))(x := None))
    else err \<noteq> None \<and> (\<forall>t' \<ge> T. mem_holds t' (w_driver w') = mem_holds t' (w_driver w))"
proof -
  let ?l = "\<lparr>lr_DefinitionID = dr_DefinitionID req, lr_ResourceKeys = [k], lr_OwnerID = dr_OwnerID req,
        lr_LeaseTTL = 0, lr_AcquiredAt = zero_time, lr_ExpiresAt = zero_time\<rparr>"
  have r: "Release memory_driver ctx T (w_driver w) ?l = (w_driver w', err)"
    using assms by (auto simp: HoldManager_Release_def call_driver_def time_now_def case_prod_beta)
  show ?thesis
  proof (cases err)
    case None
    then show ?thesis using mem.release_done[OF assms(2) r[unfolded None]] by (auto simp: released_def x_def)
  next
    case (Some er)
    then show ?thesis
      using mem.release_refused[OF assms(2) r[unfolded Some]] mem.release_refused_gone[OF assms(2) r[unfolded Some]]
      by (auto simp: untouched_def x_def)
  qed
qed

text \<open>
  C31. A hold token gives back exactly the lease it stands for. When \<^verbatim>\<open>Client.Hold\<close> returns a handle, the
  key was free and is now held by an owner; and whatever happens on the backend in between, a later
  \<^verbatim>\<open>Forfeit\<close> with the handle's token, by the same use case, frees the key if that owner still holds it
  and touches no other key, and otherwise reports an error and changes no lease at all.
\<close>

theorem hold_forfeit_roundtrip:
  assumes "NewClient cfg t s = Inr (s', c)" and "cf_backend cfg = Some memory_driver"
    and "Hold_With (Some core, binding) input opts = Inr req" and "md_inv (w_driver w)"
    and "Hold (Some c) e ctx req down hdown down' w = (w1, Inr token)"
    and "md_inv (w_driver w2)" and "Forfeit (Some c) e ctx' (ForfeitWith (Some core) token) False w2 = (w3, err)"
  shows "\<exists>ow x. mem_holds (env_clock e (w_tick w)) (w_driver w) x = None
    \<and> mem_holds (env_clock e (w_tick w)) (w_driver w1) x = Some ow
    \<and> (if mem_holds (env_clock e (w_tick w2)) (w_driver w2) x = Some ow
       then err = None \<and> (\<forall>t' \<ge> env_clock e (w_tick w2). mem_holds t' (w_driver w3) = (mem_holds t' (w_driver w2))(x := None))
       else err \<noteq> None \<and> (\<forall>t' \<ge> env_clock e (w_tick w2). mem_holds t' (w_driver w3) = mem_holds t' (w_driver w2)))"
proof -
  note req = Hold_With_request[OF assms(3)]
  let ?d = "su_id (normalizeUseCase core [] (link_of core))" and ?k = "hr_resourceKey req"
  obtain identity m l where v: "validateHoldRequest c ctx req = Inr (identity, core)" and m: "ct_holds c = Some m"
    and token: "EncodeHoldToken [?k] (id_OwnerID identity) = Inr token"
    and acq: "HoldManager_Acquire m hdown e ctx \<lparr>dq_DefinitionID = ?d, dq_ResourceKeys = [?k], dq_OwnerID = id_OwnerID identity\<rparr> w
      = (w1, Inr l)"
    using assms(5) req
    by (auto simp: Hold_def validateHoldRequest_def check_request_def Let_def split: if_splits sum.splits option.splits prod.splits)
  have D: "hm_driver m = memory_driver" using NewClient_parts(2)[OF assms(1,2) m] by simp
  let ?x = "mem_slot ?d ?k" and ?ow = "id_OwnerID identity"
  obtain def :: LockDefinition where cd: "call_driver e (\<lambda>t s. Acquire (hm_driver m) ctx t s
      \<lparr>aq_DefinitionID = ?d, aq_ResourceKeys = [?k], aq_OwnerID = ?ow, aq_LeaseTTL = ld_LeaseTTL def\<rparr>) w = (w1, Inr l)"
    using acq by (auto simp: HoldManager_Acquire_def split: if_splits sum.splits)
  have a: "Acquire memory_driver ctx (env_clock e (w_tick w)) (w_driver w)
      \<lparr>aq_DefinitionID = ?d, aq_ResourceKeys = [?k], aq_OwnerID = ?ow, aq_LeaseTTL = ld_LeaseTTL def\<rparr> = (w_driver w1, Inr l)"
    using cd D by (auto simp: call_driver_def time_now_def case_prod_beta prod_eq_iff)
  have granted: "mem_holds (env_clock e (w_tick w)) (w_driver w) ?x = None"
    "mem_holds (env_clock e (w_tick w)) (w_driver w1) ?x = Some ?ow"
    using mem.acquire_granted[OF assms(4) a] by (auto simp: granted_def)
  have "check_request c (Some core) (co_name core) (co_registry core \<noteq> None) (link_of core) = Inr core"
    using v req by (auto simp: validateHoldRequest_def split: sum.splits)
  then obtain er where rel: "HoldManager_Release m e ctx'
      \<lparr>dr_DefinitionID = ?d, dr_ResourceKeys = [?k], dr_OwnerID = ?ow\<rparr> w2 = (w3, er)" and err: "err = mapHoldReleaseError er"
    using assms(7) m DecodeHoldToken_Encode[OF token]
    by (auto simp: Forfeit_def ForfeitWith_def validateForfeitRequest_def split: prod.splits)
  have "err = None \<longleftrightarrow> er = None" unfolding err by (auto simp: mapHoldReleaseError_def split: option.splits)
  then show ?thesis
    using granted HoldManager_Release_memory[OF D assms(6) _ rel, of ?k] by (intro exI[of _ ?ow] exI[of _ ?x]) auto
qed

definition ex_hold_request :: "string HoldRequest" where
  "ex_hold_request = projr (Hold_With (Some (ex_hold\<lparr>co_registry := Some 1\<rparr>), Some Inr) ''order:1'' [])"

lemma ex_hold_request: "Hold_With (Some (ex_hold\<lparr>co_registry := Some 1\<rparr>), Some Inr) ''order:1'' [] = Inr ex_hold_request"
  and ex_hold_request_owner: "hr_ownerID ex_hold_request = []" "hr_resourceKey ex_hold_request = ''order:1''"
  by (simp_all add: ex_hold_request_def Hold_With_def owner_override_def applyCallOptions_def)

lemma ex_hold_ok:
  assumes c: "NewClient ex_config 0 NewMemoryDriver = Inr (NewMemoryDriver, c)" and h: "ct_holds c = Some m"
  shows "\<exists>w1 token. Hold (Some c) ex_env background ex_hold_request False False False (new_world NewMemoryDriver) = (w1, Inr token)
    \<and> md_inv (w_driver w1)"
proof -
  have b: "cf_backend ex_config = Some memory_driver" by (simp add: ex_config_def)
  obtain plan where plan: "buildClientPlan ex_config = Inr plan" "pl_engineRegistry plan = fst ex_planned" using ex_plan by blast
  have reg: "hm_registry m = fst ex_planned" and D: "hm_driver m = memory_driver"
    using NewClient_parts(2)[OF c b h] NewClient_parts(3)[OF c b] plan by auto
  have r: "ct_registry c = Some ex_use_cases" using NewClient_parts(4)[OF c b] by (simp add: ex_config_def)
  let ?core = "ex_hold\<lparr>co_registry := Some 1\<rparr>" and ?def = "base_definition ''order'' ''order'' ExecutionSync defaultLeaseTTL 0"
  have v: "validateHoldRequest c background ex_hold_request = Inr (\<lparr>id_OwnerID = ''a'', id_Service = ''svc'', id_Instance = ''i''\<rparr>, ?core)"
    using Hold_With_request[OF ex_hold_request] ex_identity[OF c] r
    by (simp add: validateHoldRequest_def check_request_def linked_def ex_use_cases_link link_of_def RegistryLinkMismatch_def
        ex_hold_request_owner)
  have d: "su_id (normalizeUseCase ?core [] l) = ''order''" for l by (simp add: su_id_normalize ex_core_simps)
  have "\<not> isl (EncodeHoldToken [''order:1''] ''a'')" by (simp add: EncodeHoldToken_eq)
  then obtain token where token: "EncodeHoldToken [''order:1''] ''a'' = Inr token" by (cases "EncodeHoldToken [''order:1''] ''a''") auto
  have g: "getDefinition m ''order'' = Inr ?def" by (simp add: getDefinition_def MustGet_def reg ex_planned_def)
  let ?rq = "\<lparr>aq_DefinitionID = ''order'', aq_ResourceKeys = [''order:1''], aq_OwnerID = ''a'', aq_LeaseTTL = ld_LeaseTTL ?def\<rparr>"
  have "0 < ld_LeaseTTL ?def" by (simp add: base_definition_def defaultLeaseTTL_def duration_units)
  then obtain s1 l where acq: "Acquire memory_driver background (env_clock ex_env 0) NewMemoryDriver ?rq = (s1, Inr l)"
    using mem.acquire_free[OF md_inv_New, of ?rq "''order:1''" "env_clock ex_env 0" background] mem_never_New by auto
  have "md_inv s1" by (rule mem.acquire_inv[OF md_inv_New acq])
  then show ?thesis
    using h v token g acq D by (simp add: Hold_def d HoldManager_Acquire_def call_driver_def time_now_def new_world_def
        ex_hold_request_owner)
qed

theorem hold_forfeit_roundtrip_witness:
  "\<exists>c w1 token. NewClient ex_config 0 NewMemoryDriver = Inr (NewMemoryDriver, c)
    \<and> Hold (Some c) ex_env background ex_hold_request False False False (new_world NewMemoryDriver) = (w1, Inr token)
    \<and> snd (Forfeit (Some c) ex_env background (ForfeitWith (Some (ex_hold\<lparr>co_registry := Some 1\<rparr>)) token) False
        (w1\<lparr>w_tick := 0\<rparr>)) = None"
proof -
  obtain c m where c: "NewClient ex_config 0 NewMemoryDriver = Inr (NewMemoryDriver, c)" "ct_holds c = Some m"
    using ex_client by blast
  obtain w1 token where h: "Hold (Some c) ex_env background ex_hold_request False False False (new_world NewMemoryDriver) = (w1, Inr token)"
    "md_inv (w_driver w1)" using ex_hold_ok[OF c] by blast
  have "cf_backend ex_config = Some memory_driver" "md_inv (w_driver (new_world NewMemoryDriver))" "w_tick (new_world NewMemoryDriver) = 0"
    by (simp_all add: ex_config_def new_world_def md_inv_New)
  with hold_forfeit_roundtrip[OF c(1) _ ex_hold_request _ h(1) _ surjective_pairing, of "w1\<lparr>w_tick := 0\<rparr>" background] h c(1)
  show ?thesis by (auto split: if_splits)
qed

text \<open>
  \<^verbatim>\<open>HoldMultiple\<close> never succeeds with more than one key on the in-memory backend. It passes all keys in
  one acquire, and the backend accepts exactly one key; the Redis backend has the same check.
\<close>

theorem hold_multiple_fails:
  assumes "NewClient cfg t s = Inr (s', c)" and "cf_backend cfg = Some memory_driver" and "1 < length requests"
  shows "isl (snd (HoldMultiple (Some c) e ctx requests down hdown down' w))"
proof -
  have keys: "length keys' = length keys + length reqs" if "extract_keys reqs uc keys = Inr (keys', uc')" for reqs uc keys keys' uc'
    using that by (induction reqs uc keys rule: extract_keys.induct) (auto split: if_splits)
  have n: "length ks = length requests" if "extractHoldRequests c ctx requests = Inr (ks, uc, i)" for ks uc i
    using that keys[of _ None "[]"]
    by (fastforce simp: extractHoldRequests_def extract_requests_def split: if_splits sum.splits option.splits)
  have "isl (snd (Acquire memory_driver ctx t s \<lparr>aq_DefinitionID = d, aq_ResourceKeys = ks, aq_OwnerID = ow, aq_LeaseTTL = ttl\<rparr>))"
    if "length ks = length requests" for t s d ks ow ttl
    using that assms(3) by (simp add: memory_driver_def MemoryDriver_Acquire_def)
  then show ?thesis
    using n NewClient_parts(2)[OF assms(1,2)]
    by (auto simp: HoldMultiple_def HoldManager_Acquire_def call_driver_def time_now_def Let_def case_prod_beta
        split: sum.splits option.splits prod.splits) (metis isl_def sum.disc(2) snd_conv)+
qed

theorem hold_multiple_fails_witness:
  "\<exists>c. NewClient ex_config 0 NewMemoryDriver = Inr (NewMemoryDriver, c)
    \<and> isl (snd (HoldMultiple (Some c) ex_env background [ex_hold_request, ex_hold_request\<lparr>hr_resourceKey := ''order:2''\<rparr>]
        False False False (new_world NewMemoryDriver)))"
proof -
  obtain c where c: "NewClient ex_config 0 NewMemoryDriver = Inr (NewMemoryDriver, c)" using ex_client by blast
  have "cf_backend ex_config = Some memory_driver" by (simp add: ex_config_def)
  from hold_multiple_fails[OF c this] c show ?thesis by simp
qed

end
