(* ===== verification/Advanced.thy ===== *)
theory Advanced
  imports Sdk
begin

text \<open>
  Composite locks over shared definitions (\<^verbatim>\<open>src/advanced/composite/api.go\<close>): several definitions of one input type are put under one lock,
  each a member named after its definition. Panics are \<open>None\<close>, of a definition without reference too.
\<close>

type_synonym 'v LockDefinition_of = "definitionRef option \<times> 'v Binding"

text \<open>The check for duplicates; \<open>seen\<close> holds the identifiers so far.\<close>

fun distinct_ids :: "'v LockDefinition_of list \<Rightarrow> string list \<Rightarrow> bool" where
  "distinct_ids [] seen = True"
| "distinct_ids (def # defs) seen =
     (case fst def of None \<Rightarrow> False | Some ref \<Rightarrow> df_name ref \<notin> set seen \<and> distinct_ids defs (df_name ref # seen))"

fun lock_members :: "'v LockDefinition_of list \<Rightarrow> 'v CompositeMember list option" where
  "lock_members [] = Some []"
| "lock_members (def # defs) =
     (case fst def of None \<Rightarrow> None
      | Some ref \<Rightarrow> (case Member (df_name ref) def (Some (\<lambda>input. input)) of None \<Rightarrow> None
          | Some m \<Rightarrow> map_option (Cons m) (lock_members defs)))"

definition Composite_DefineLock :: "string \<Rightarrow> 'v LockDefinition_of list \<Rightarrow> 'v CompositeMember list option" where
  "Composite_DefineLock name defs = (if defs = [] \<or> \<not> distinct_ids defs [] then None else lock_members defs)"

definition Composite_AttachRun ::
  "nat \<Rightarrow> string \<Rightarrow> 'v CompositeMember list \<Rightarrow> ('v useCaseConfig \<Rightarrow> 'v useCaseConfig) list \<Rightarrow> 'v useCaseCore \<times> 'v Binding"
where
  "Composite_AttachRun ref name members opts = DefineCompositeRunWithOptions ref name opts members"

section \<open>Correctness\<close>

lemma distinct_ids_iff:
  "distinct_ids defs seen \<longleftrightarrow> (\<forall>def \<in> set defs. fst def \<noteq> None \<and> df_name (the (fst def)) \<notin> set seen)
    \<and> distinct (map (\<lambda>def. df_name (the (fst def))) defs)"
  by (induction defs seen rule: distinct_ids.induct) (force split: option.splits simp: image_iff)+

lemma lock_members_ids:
  "lock_members defs = Some ms \<Longrightarrow> map cmb_definitionID ms = map (\<lambda>def. df_id (the (fst def))) defs
    \<and> map cmb_name ms = map (\<lambda>def. trim_space (df_name (the (fst def)))) defs \<and> list_all (\<lambda>m. cmb_build m \<noteq> None) ms"
  by (induction defs arbitrary: ms) (auto simp: Member_def MemberWithFlags_def split: option.splits if_splits)

text \<open>
  A composite lock that is defined has one member per definition, in order and without repetition, each with a binding; attached to a use
  case they are its members, ranked from one in that order, whatever options follow that leave the members alone.
\<close>

theorem composite_lock_members:
  assumes "Composite_DefineLock name defs = Some ms" and "\<And>opt cfg. opt \<in> set opts \<Longrightarrow> cg_composite (opt cfg) = cg_composite cfg"
  shows "ms \<noteq> [] \<and> map cmb_definitionID ms = map (\<lambda>def. df_id (the (fst def))) defs
    \<and> distinct (map (\<lambda>def. df_name (the (fst def))) defs)
    \<and> map mb_definitionID (cg_composite (co_config (fst (Composite_AttachRun ref use ms opts)))) = map cmb_definitionID ms
    \<and> map mb_rank (cg_composite (co_config (fst (Composite_AttachRun ref use ms opts)))) = map (\<lambda>i. int i + 1) [0..<length ms]"
proof -
  have d: "defs \<noteq> []" "distinct_ids defs []" "lock_members defs = Some ms" using assms(1) by (auto simp: Composite_DefineLock_def split: if_splits)
  have keep: "cg_composite (fold (\<lambda>opt. opt) opts cfg) = cg_composite cfg" for cfg
    using assms(2) by (induction opts arbitrary: cfg) simp_all
  have len: "length ms = length defs" using lock_members_ids[OF d(3)] by (metis length_map)
  have "map mb_definitionID (cg_composite (co_config (fst (Composite_AttachRun ref use ms opts)))) = map cmb_definitionID ms"
    "map mb_rank (cg_composite (co_config (fst (Composite_AttachRun ref use ms opts)))) = map (\<lambda>i. int i + 1) [0..<length ms]"
    by (rule nth_equalityI; simp add: Composite_AttachRun_def DefineCompositeRunWithOptions_def newUseCaseCoreWithComposite_def Let_def keep enumerate_eq_zip)+
  then show ?thesis using d len lock_members_ids[OF d(3)] distinct_ids_iff[of defs "[]"] by auto
qed

end
