(* ===== verification/Guard.thy ===== *)
theory Guard
  imports Definitions
begin

text \<open>
  Guarded writes: \<^verbatim>\<open>src/guard/context.go\<close>, \<^verbatim>\<open>src/guard/postgres/existing_row.go\<close>, \<^verbatim>\<open>src/internal/guardbridge/from_engine.go\<close>, and the
  guarded update statement that the example \<^verbatim>\<open>src/examples/core/strict-guarded-write/main.go\<close> runs. A table is a map from the
  primary key to the row; the statement runs as one atomic step of the database, which may also fail before it or lose its reply.
\<close>

section \<open>Contexts and outcomes\<close>

record GuardContext =
  g_LockID :: string
  g_ResourceKey :: string
  g_FencingToken :: token
  g_OwnerID :: string
  g_MessageID :: string
  g_IdempotencyKey :: string

datatype GuardOutcome =
    OutcomeApplied | OutcomeDuplicateIgnored | OutcomeStaleRejected | OutcomeVersionConflict | OutcomeInvariantRejected

definition FromLeaseContext :: "LeaseContext \<Rightarrow> GuardContext" where
  "FromLeaseContext lease = \<lparr>g_LockID = lc_DefinitionID lease, g_ResourceKey = lc_ResourceKey lease,
     g_FencingToken = lc_FencingToken lease, g_OwnerID = om_OwnerID (lc_Ownership lease), g_MessageID = [], g_IdempotencyKey = []\<rparr>"

definition FromClaimContext :: "ClaimContext \<Rightarrow> GuardContext" where
  "FromClaimContext claim = \<lparr>g_LockID = cx_DefinitionID claim, g_ResourceKey = cx_ResourceKey claim,
     g_FencingToken = cx_FencingToken claim, g_OwnerID = om_OwnerID (cx_Ownership claim), g_MessageID = om_MessageID (cx_Ownership claim),
     g_IdempotencyKey = cx_IdempotencyKey claim\<rparr>"

section \<open>Classification of an update\<close>

record ExistingRowStatus =
  er_Found :: bool
  er_Applied :: bool
  er_CurrentToken :: token
  er_CurrentResourceKey :: string
  er_CurrentLockID :: string

text \<open>
  The columns of the result row. The token column is a signed 64-bit integer; scanning a negative one into a \<^verbatim>\<open>uint64\<close> is an error.
\<close>

record result_row =
  rr_found :: bool
  rr_applied :: bool
  rr_current_token :: int
  rr_current_resource_key :: string
  rr_current_lock_id :: string

definition ScanExistingRowStatus :: "result_row result \<Rightarrow> ExistingRowStatus result" where
  "ScanExistingRowStatus scanner = (case scanner of
     Inl err \<Rightarrow> Inl err
   | Inr row \<Rightarrow>
       if rr_current_token row < 0 then Inl (Errorf ''converting driver.Value type int64 to a uint64: invalid syntax'' [] [])
       else Inr \<lparr>er_Found = rr_found row, er_Applied = rr_applied row, er_CurrentToken = word_of_int (rr_current_token row),
              er_CurrentResourceKey = rr_current_resource_key row, er_CurrentLockID = rr_current_lock_id row\<rparr>)"

definition ClassifyExistingRowUpdate :: "GuardContext \<Rightarrow> ExistingRowStatus \<Rightarrow> GuardOutcome result" where
  "ClassifyExistingRowUpdate g status =
     (if \<not> er_Found status then
        Inl (Errorf ''%w: guarded row not found for %s'' [g_ResourceKey g] [Sentinel ErrInvariantRejected])
      else if er_Applied status then Inr OutcomeApplied
      else if er_CurrentLockID status \<noteq> g_LockID g then
        Inl (Errorf ''%w: guarded boundary mismatch want lock=%s got lock=%s'' [g_LockID g, er_CurrentLockID status] [Sentinel ErrInvariantRejected])
      else if er_CurrentResourceKey status \<noteq> g_ResourceKey g then
        Inl (Errorf ''%w: guarded boundary mismatch want=%s got=%s'' [g_ResourceKey g, er_CurrentResourceKey status] [Sentinel ErrInvariantRejected])
      else if g_FencingToken g \<le> er_CurrentToken status then Inr OutcomeStaleRejected
      else Inl (Errorf ''%w: inconsistent guarded update state'' [] [Sentinel ErrInvariantRejected]))"

section \<open>The guarded update of the example\<close>

record order_row =
  row_strict_lock_id :: string
  row_resource_key :: string
  row_status :: string
  row_last_fencing_token :: int
  row_updated_at :: time
  row_updated_by_owner :: string

type_synonym orders = "(string, order_row) gomap"

record orderState =
  os_Status :: string
  os_FencingToken :: token
  os_OwnerID :: string
  os_LockID :: string

datatype pg_outcome = PgAnswered | PgNotRun go_error | PgReplyLost go_error

definition setupExampleOrder :: "time \<Rightarrow> orders" where
  "setupExampleOrder now = [(''order-123'', \<lparr>row_strict_lock_id = ''StrictOrderClaim'', row_resource_key = ''order:123'', row_status = ''pending'',
     row_last_fencing_token = 0, row_updated_at = now, row_updated_by_owner = ''seed''\<rparr>)]"

text \<open>
  The statement: \<open>target\<close> reads the row as it was before the statement, \<open>updated\<close> changes it if the boundary matches and its token is
  smaller, and the result row reports both. The token parameter is \<^verbatim>\<open>int64(g.FencingToken)\<close>, the signed reading of the word.
  The statement is one step. Under read committed isolation a concurrent write can commit between the snapshot of \<open>target\<close> and the re-checked
  update; the row is then left alone as well, but the result row is inconsistent and the write ends with an error instead of stale.
\<close>

definition guarded_update :: "time \<Rightarrow> GuardContext \<Rightarrow> string \<Rightarrow> string \<Rightarrow> orders \<Rightarrow> orders \<times> result_row" where
  "guarded_update now g orderID status db = (case mget db orderID of
     None \<Rightarrow> (db, \<lparr>rr_found = False, rr_applied = False, rr_current_token = 0, rr_current_resource_key = [], rr_current_lock_id = []\<rparr>)
   | Some target \<Rightarrow>
       let applied = (row_resource_key target = g_ResourceKey g \<and> row_strict_lock_id target = g_LockID g
             \<and> row_last_fencing_token target < sint (g_FencingToken g));
           db' = (if applied then mput orderID (target\<lparr>row_status := status, row_last_fencing_token := sint (g_FencingToken g),
                    row_updated_at := now, row_updated_by_owner := g_OwnerID g\<rparr>) db else db)
       in (db', \<lparr>rr_found = True, rr_applied = applied, rr_current_token = row_last_fencing_token target,
                 rr_current_resource_key = row_resource_key target, rr_current_lock_id = row_strict_lock_id target\<rparr>))"

definition applyOrderStatus ::
  "time \<Rightarrow> pg_outcome \<Rightarrow> GuardContext \<Rightarrow> string \<Rightarrow> string \<Rightarrow> orders \<Rightarrow> orders \<times> GuardOutcome result"
where
  "applyOrderStatus now pg g orderID status db =
     (let (db', row) = guarded_update now g orderID status db;
          (db1, scanner) = (case pg of PgAnswered \<Rightarrow> (db', Inr row) | PgNotRun err \<Rightarrow> (db, Inl err) | PgReplyLost err \<Rightarrow> (db', Inl err))
      in (db1, case ScanExistingRowStatus scanner of
                 Inl err \<Rightarrow> Inl err
               | Inr updateStatus \<Rightarrow> ClassifyExistingRowUpdate g updateStatus))"

definition loadOrderState :: "orders \<Rightarrow> string \<Rightarrow> orderState result" where
  "loadOrderState db orderID = (case mget db orderID of
     None \<Rightarrow> Inl (Errorf ''sql: no rows in result set'' [] [])
   | Some row \<Rightarrow> Inr \<lparr>os_Status = row_status row, os_FencingToken = word_of_int (row_last_fencing_token row),
       os_OwnerID = row_updated_by_owner row, os_LockID = row_strict_lock_id row\<rparr>)"

definition outcome_text :: "GuardOutcome \<Rightarrow> string" where
  "outcome_text out = (case out of OutcomeApplied \<Rightarrow> ''applied'' | OutcomeDuplicateIgnored \<Rightarrow> ''duplicate_ignored''
     | OutcomeStaleRejected \<Rightarrow> ''stale_rejected'' | OutcomeVersionConflict \<Rightarrow> ''version_conflict'' | OutcomeInvariantRejected \<Rightarrow> ''invariant_rejected'')"

definition mapGuardOutcomeForWorker :: "GuardOutcome \<Rightarrow> go_err" where
  "mapGuardOutcomeForWorker out =
     (if out \<in> {OutcomeApplied, OutcomeStaleRejected, OutcomeDuplicateIgnored} then None
      else Some (Errorf ''%w: unsupported guard outcome %s'' [outcome_text out] [Sentinel ErrInvariantRejected]))"

section \<open>Runs of guarded writes\<close>

type_synonym guarded_write = "time \<times> pg_outcome \<times> GuardContext \<times> string \<times> string"

fun write_run :: "guarded_write list \<Rightarrow> orders \<Rightarrow> orders" where
  "write_run [] db = db"
| "write_run ((now, pg, g, orderID, status) # ws) db = write_run ws (fst (applyOrderStatus now pg g orderID status db))"

definition tokens_ok :: "orders \<Rightarrow> bool" where
  "tokens_ok db \<longleftrightarrow> (\<forall>i row. mget db i = Some row \<longrightarrow> 0 \<le> row_last_fencing_token row \<and> row_last_fencing_token row < 2 ^ 63)"

lemma uint_token_less: "uint (g :: token) < 2 ^ 64"
  using unsigned_less[where 'a = int, of g] by simp

lemma sint_token: "sint (g :: token) = (if uint g < 2 ^ 63 then uint g else uint g - 2 ^ 64)"
proof -
  define x where "x = uint g"
  have x: "sint g = (x + 2 ^ 63) mod 2 ^ 64 - 2 ^ 63" "0 \<le> x" "x < 2 ^ 64"
    using uint_token_less[of g] by (simp_all add: x_def sint_uint signed_take_bit_eq_take_bit_shift take_bit_eq_mod)
  show ?thesis
  proof (cases "x < 2 ^ 63")
    case True
    then have "(x + 2 ^ 63) mod 2 ^ 64 = x + 2 ^ 63" using x by (intro mod_pos_pos_trivial) auto
    then show ?thesis using True x(1) by (simp add: x_def)
  next
    case False
    then have "(x + 2 ^ 63 - 2 ^ 64) mod 2 ^ 64 = x + 2 ^ 63 - 2 ^ 64" using x by (intro mod_pos_pos_trivial) auto
    then have "(x + 2 ^ 63) mod 2 ^ 64 = x + 2 ^ 63 - 2 ^ 64" by (metis minus_mod_self2)
    then show ?thesis using False x(1) by (simp add: x_def)
  qed
qed

text \<open>What one write does to a table: boundaries stay, tokens never decrease.\<close>

definition row_step :: "orders \<Rightarrow> orders \<Rightarrow> bool" where
  "row_step db db' \<longleftrightarrow> tokens_ok db' \<and> (\<forall>i row. mget db i = Some row \<longrightarrow> (\<exists>row'. mget db' i = Some row'
     \<and> row_strict_lock_id row' = row_strict_lock_id row \<and> row_resource_key row' = row_resource_key row
     \<and> row_last_fencing_token row \<le> row_last_fencing_token row'))"

lemma apply_step: "tokens_ok db \<Longrightarrow> row_step db (fst (applyOrderStatus now pg g orderID status db))"
  using sint_lt[of "g_FencingToken g"]
  by (fastforce simp: row_step_def applyOrderStatus_def guarded_update_def tokens_ok_def Let_def split: option.splits pg_outcome.splits prod.splits if_splits)

lemma row_step_trans:
  assumes "row_step a b" and "row_step b c"
  shows "row_step a c"
  unfolding row_step_def
proof (intro conjI allI impI)
  show "tokens_ok c" using assms(2) by (simp add: row_step_def)
  fix i row
  assume "mget a i = Some row"
  with assms(1) obtain row' where 1: "mget b i = Some row'" "row_strict_lock_id row' = row_strict_lock_id row"
    "row_resource_key row' = row_resource_key row" "row_last_fencing_token row \<le> row_last_fencing_token row'" by (auto simp: row_step_def)
  with assms(2) obtain row'' where "mget c i = Some row''" "row_strict_lock_id row'' = row_strict_lock_id row'"
    "row_resource_key row'' = row_resource_key row'" "row_last_fencing_token row' \<le> row_last_fencing_token row''" unfolding row_step_def by blast
  with 1 show "\<exists>row'. mget c i = Some row' \<and> row_strict_lock_id row' = row_strict_lock_id row
     \<and> row_resource_key row' = row_resource_key row \<and> row_last_fencing_token row \<le> row_last_fencing_token row'" by auto
qed

lemma run_step_rows: "tokens_ok db \<Longrightarrow> row_step db (write_run ws db)"
proof (induction ws db rule: write_run.induct)
  case (2 now pg g orderID status ws db)
  note step = apply_step[OF 2(2), of now pg g orderID status]
  then show ?case using row_step_trans[OF step 2(1)] by (simp add: row_step_def)
qed (simp add: row_step_def)

definition on_boundary :: "GuardContext \<Rightarrow> order_row \<Rightarrow> bool" where
  "on_boundary g row \<longleftrightarrow> row_strict_lock_id row = g_LockID g \<and> row_resource_key row = g_ResourceKey g"

text \<open>The three fates of a write on a row.\<close>

lemma apply_row:
  assumes "tokens_ok db" and "mget db i = Some row"
  shows "on_boundary g row \<Longrightarrow> uint (g_FencingToken g) \<le> row_last_fencing_token row \<Longrightarrow>
      fst (applyOrderStatus now pg g i status db) = db \<and> snd (applyOrderStatus now PgAnswered g i status db) = Inr OutcomeStaleRejected"
    and "on_boundary g row \<Longrightarrow> row_last_fencing_token row < uint (g_FencingToken g) \<Longrightarrow> uint (g_FencingToken g) < 2 ^ 63 \<Longrightarrow>
      applyOrderStatus now PgAnswered g i status db = (mput i (row\<lparr>row_status := status, row_last_fencing_token := uint (g_FencingToken g),
         row_updated_at := now, row_updated_by_owner := g_OwnerID g\<rparr>) db, Inr OutcomeApplied)"
    and "\<not> on_boundary g row \<or> 2 ^ 63 \<le> uint (g_FencingToken g) \<Longrightarrow>
      \<exists>e. applyOrderStatus now PgAnswered g i status db = (db, Inl e) \<and> errors_is e ErrInvariantRejected"
proof -
  have r: "0 \<le> row_last_fencing_token row" "row_last_fencing_token row < 2 ^ 63" using assms(1,2) by (auto simp: tokens_ok_def)
  have u: "uint (word_of_int (row_last_fencing_token row) :: token) = row_last_fencing_token row"
    using r by (simp add: uint_word_of_int)
  have le: "g_FencingToken g \<le> word_of_int (row_last_fencing_token row) \<longleftrightarrow> uint (g_FencingToken g) \<le> row_last_fencing_token row"
    by (simp add: word_le_def u)
  note defs = applyOrderStatus_def guarded_update_def ScanExistingRowStatus_def ClassifyExistingRowUpdate_def Let_def sint_token le
  have big: "uint (g_FencingToken g) < 2 ^ 64" by (rule uint_token_less)
  show "on_boundary g row \<Longrightarrow> uint (g_FencingToken g) \<le> row_last_fencing_token row \<Longrightarrow>
      fst (applyOrderStatus now pg g i status db) = db \<and> snd (applyOrderStatus now PgAnswered g i status db) = Inr OutcomeStaleRejected"
    using assms(2) r big by (auto simp: defs on_boundary_def split: pg_outcome.split)
  show "on_boundary g row \<Longrightarrow> row_last_fencing_token row < uint (g_FencingToken g) \<Longrightarrow> uint (g_FencingToken g) < 2 ^ 63 \<Longrightarrow>
      applyOrderStatus now PgAnswered g i status db = (mput i (row\<lparr>row_status := status, row_last_fencing_token := uint (g_FencingToken g),
         row_updated_at := now, row_updated_by_owner := g_OwnerID g\<rparr>) db, Inr OutcomeApplied)"
    using assms(2) r by (simp add: defs on_boundary_def)
  show "\<not> on_boundary g row \<or> 2 ^ 63 \<le> uint (g_FencingToken g) \<Longrightarrow>
      \<exists>e. applyOrderStatus now PgAnswered g i status db = (db, Inl e) \<and> errors_is e ErrInvariantRejected"
    using assms(2) r big by (auto simp: defs on_boundary_def)
qed

end
