(* ===== verification/Guard_Props.thy ===== *)
theory Guard_Props
  imports Guard Redis_Props
begin

text \<open>
  What guarded writes guarantee, alone and behind the fencing tokens of the Redis backend.
\<close>

lemma FromLeaseContext_simps [simp]:
  "g_LockID (FromLeaseContext l) = lc_DefinitionID l" "g_ResourceKey (FromLeaseContext l) = lc_ResourceKey l"
  "g_FencingToken (FromLeaseContext l) = lc_FencingToken l"
  by (simp_all add: FromLeaseContext_def)

lemma setup_tokens_ok: "tokens_ok (setupExampleOrder now)"
  by (simp add: tokens_ok_def setupExampleOrder_def)

lemma applied_row:
  assumes "tokens_ok db" and "applyOrderStatus now PgAnswered g i status db = (db1, Inr OutcomeApplied)"
  obtains row where "mget db1 i = Some row" and "on_boundary g row" and "row_last_fencing_token row = uint (g_FencingToken g)"
    and "uint (g_FencingToken g) < 2 ^ 63"
proof (cases "mget db i")
  case None
  with assms(2) show ?thesis
    by (simp add: applyOrderStatus_def guarded_update_def ScanExistingRowStatus_def ClassifyExistingRowUpdate_def)
next
  case (Some row)
  note fates = apply_row[OF assms(1) Some]
  have b: "on_boundary g row" "uint (g_FencingToken g) < 2 ^ 63" using fates(3)[of g now status] assms(2) not_less by force+
  moreover have "row_last_fencing_token row < uint (g_FencingToken g)" using fates(1)[OF b(1), of now PgAnswered status] assms(2) by fastforce
  ultimately have "db1 = mput i (row\<lparr>row_status := status, row_last_fencing_token := uint (g_FencingToken g),
      row_updated_at := now, row_updated_by_owner := g_OwnerID g\<rparr>) db" using fates(2)[OF b(1) _ b(2), of now status] assms(2) by simp
  then show ?thesis using that b by (simp add: on_boundary_def)
qed

text \<open>
  C29. The outcome of a guarded write is exact. On a row whose token is a valid \<^verbatim>\<open>BIGINT\<close>, the write of a context is applied exactly when
  the row is its boundary and its token is larger than the row's and fits into 63 bits; it is rejected as stale exactly when the row is
  its boundary and the row's token is at least as large; in every other case it is an invariant error. Only an applied write changes
  the table, and then only this row.
\<close>

theorem guarded_write_exact:
  assumes "tokens_ok db" and "mget db i = Some row" and "applyOrderStatus now PgAnswered g i status db = (db', r)"
  shows "(r = Inr OutcomeApplied \<longleftrightarrow>
       on_boundary g row \<and> row_last_fencing_token row < uint (g_FencingToken g) \<and> uint (g_FencingToken g) < 2 ^ 63)
    \<and> (r = Inr OutcomeStaleRejected \<longleftrightarrow> on_boundary g row \<and> uint (g_FencingToken g) \<le> row_last_fencing_token row)
    \<and> (r = Inr OutcomeApplied \<or> r = Inr OutcomeStaleRejected \<or> (\<exists>e. r = Inl e \<and> errors_is e ErrInvariantRejected))
    \<and> db' = (if r = Inr OutcomeApplied
         then mput i (row\<lparr>row_status := status, row_last_fencing_token := uint (g_FencingToken g), row_updated_at := now,
           row_updated_by_owner := g_OwnerID g\<rparr>) db
         else db)"
proof -
  note fates = apply_row[OF assms(1,2), of g]
  have row: "row_last_fencing_token row < 2 ^ 63" using assms(1,2) by (simp add: tokens_ok_def)
  consider "on_boundary g row" "uint (g_FencingToken g) \<le> row_last_fencing_token row"
    | "on_boundary g row" "row_last_fencing_token row < uint (g_FencingToken g)" "uint (g_FencingToken g) < 2 ^ 63"
    | "\<not> on_boundary g row \<or> 2 ^ 63 \<le> uint (g_FencingToken g)"
    by linarith
  then show ?thesis
  proof cases
    case 1
    then show ?thesis using fates(1)[of now PgAnswered status] assms(3) by simp
  next
    case 2
    then show ?thesis using fates(2)[of now status] assms(3) by simp
  next
    case 3
    then show ?thesis using fates(3)[of now status] row assms(3) by auto
  qed
qed

theorem guarded_write_exact_witness:
  "snd (applyOrderStatus 5 PgAnswered \<lparr>g_LockID = ''StrictOrderClaim'', g_ResourceKey = ''order:123'', g_FencingToken = 2 ^ 63,
      g_OwnerID = ''a'', g_MessageID = [], g_IdempotencyKey = []\<rparr> ''order-123'' ''done'' (setupExampleOrder 0)) \<noteq> Inr OutcomeApplied
   \<and> snd (applyOrderStatus 5 PgAnswered \<lparr>g_LockID = ''StrictOrderClaim'', g_ResourceKey = ''order:123'', g_FencingToken = 7,
      g_OwnerID = ''a'', g_MessageID = [], g_IdempotencyKey = []\<rparr> ''order-123'' ''done'' (setupExampleOrder 0)) = Inr OutcomeApplied"
  using guarded_write_exact[OF _ _ prod.collapse[symmetric], of "setupExampleOrder 0" "''order-123''" "snd (hd (setupExampleOrder 0))" 5
      "\<lparr>g_LockID = ''StrictOrderClaim'', g_ResourceKey = ''order:123'', g_FencingToken = 2 ^ 63,
      g_OwnerID = ''a'', g_MessageID = [], g_IdempotencyKey = []\<rparr>" "''done''"]
    guarded_write_exact[OF _ _ prod.collapse[symmetric], of "setupExampleOrder 0" "''order-123''" "snd (hd (setupExampleOrder 0))" 5
      "\<lparr>g_LockID = ''StrictOrderClaim'', g_ResourceKey = ''order:123'', g_FencingToken = 7,
      g_OwnerID = ''a'', g_MessageID = [], g_IdempotencyKey = []\<rparr>" "''done''"]
  by (simp add: setup_tokens_ok) (simp add: setupExampleOrder_def on_boundary_def)

definition ex_write_lease :: "string \<Rightarrow> token \<Rightarrow> LeaseContext" where
  "ex_write_lease ow tok = \<lparr>lc_DefinitionID = ''order'', lc_ResourceKey = ''order:1'', lc_ResourceKeys = [''order:1''],
     lc_Ownership = \<lparr>om_ServiceName = [], om_InstanceID = [], om_HandlerName = [], om_OwnerID = ow, om_RequestID = [], om_MessageID = [],
       om_Attempt = 0, om_ConsumerGroup = []\<rparr>, lc_FencingToken = tok, lc_LeaseTTL = 30 * second, lc_LeaseDeadline = 0\<rparr>"

text \<open>
  C28. A stale writer is rejected. Two strict leases of one boundary are granted by the Redis backend, one after the other, with no
  forced release in between. Once a guarded write under the later lease has been applied, then after any further guarded writes by
  anyone a write under the earlier lease leaves the table as it is, whatever becomes of the request, and is answered as stale.
\<close>

theorem stale_writer_rejected:
  assumes "redis_server S ok look alive" and "redis_inv ok look d" and "Redis_AcquireStrict S ctx t1 d rq1 = (d1, Inr f1)"
    and "\<forall>(t, op) \<in> set ops. op \<noteq> RForceRelease (sq_DefinitionID rq1) (sq_ResourceKey rq1)"
    and "Redis_AcquireStrict S ctx t2 (redis_run S ctx ops d1) rq2 = (d2, Inr f2)"
    and "sq_DefinitionID rq2 = sq_DefinitionID rq1" and "sq_ResourceKey rq2 = sq_ResourceKey rq1"
    and "lc_DefinitionID l1 = sq_DefinitionID rq1" "lc_ResourceKey l1 = sq_ResourceKey rq1" "lc_FencingToken l1 = fl_FencingToken f1"
    and "lc_DefinitionID l2 = sq_DefinitionID rq2" "lc_ResourceKey l2 = sq_ResourceKey rq2" "lc_FencingToken l2 = fl_FencingToken f2"
    and "tokens_ok db" and "applyOrderStatus now PgAnswered (FromLeaseContext l2) i status db = (db1, Inr OutcomeApplied)"
  shows "fst (applyOrderStatus now' pg (FromLeaseContext l1) i status' (write_run ws db1)) = write_run ws db1
    \<and> snd (applyOrderStatus now' PgAnswered (FromLeaseContext l1) i status' (write_run ws db1)) = Inr OutcomeStaleRejected"
proof -
  have order: "uint (fl_FencingToken f1) < uint (fl_FencingToken f2)" using redis_token_order[OF assms(1-7)] by simp
  obtain row where row: "mget db1 i = Some row" "on_boundary (FromLeaseContext l2) row" "row_last_fencing_token row = uint (fl_FencingToken f2)"
    using applied_row[OF assms(14,15)] assms(13) by auto
  have "tokens_ok db1" using apply_step[OF assms(14), of now PgAnswered "FromLeaseContext l2" i status] assms(15) by (simp add: row_step_def)
  note run = run_step_rows[OF this, of ws]
  with row obtain row' where row': "mget (write_run ws db1) i = Some row'" "on_boundary (FromLeaseContext l2) row'"
    "uint (fl_FencingToken f2) \<le> row_last_fencing_token row'" by (fastforce simp: row_step_def on_boundary_def)
  have "tokens_ok (write_run ws db1)" using run by (simp add: row_step_def)
  from apply_row(1)[OF this row'(1), of "FromLeaseContext l1"] row'(2,3) order assms(6-13) show ?thesis by (simp add: on_boundary_def)
qed

theorem stale_writer_rejected_witness:
  "\<exists>db1. applyOrderStatus 5 PgAnswered (FromLeaseContext (ex_write_lease ''b'' 2)) ''order-123'' ''completed''
       (mput ''order-123'' ((snd (hd (setupExampleOrder 0)))\<lparr>row_strict_lock_id := ''order'', row_resource_key := ''order:1''\<rparr>) []) = (db1, Inr OutcomeApplied)
     \<and> snd (applyOrderStatus 9 PgAnswered (FromLeaseContext (ex_write_lease ''a'' 1)) ''order-123'' ''stale-write'' db1) = Inr OutcomeStaleRejected"
proof -
  let ?db = "mput ''order-123'' ((snd (hd (setupExampleOrder 0)))\<lparr>row_strict_lock_id := ''order'', row_resource_key := ''order:1''\<rparr>) []"
  let ?w = "applyOrderStatus 5 PgAnswered (FromLeaseContext (ex_write_lease ''b'' 2)) ''order-123'' ''completed'' ?db"
  let ?d1 = "fst (Redis_AcquireStrict simple_redis background 0 ex_redis (ex_strict ''a''))"
  have 1: "Redis_AcquireStrict simple_redis background 0 ex_redis (ex_strict ''a'') =
      (?d1, Inr \<lparr>fl_Lease = buildLeaseRecord ''order'' ''order:1'' ''a'' (30 * second) 0, fl_FencingToken = 1\<rparr>)"
    by code_simp
  have 2: "Redis_AcquireStrict simple_redis background (50 * second) (redis_run simple_redis background [] ?d1) (ex_strict ''b'') =
      (fst (Redis_AcquireStrict simple_redis background (50 * second) ?d1 (ex_strict ''b'')),
       Inr \<lparr>fl_Lease = buildLeaseRecord ''order'' ''order:1'' ''b'' (30 * second) (50 * second), fl_FencingToken = 2\<rparr>)"
    by code_simp
  have ok: "tokens_ok ?db" by (simp add: tokens_ok_def setupExampleOrder_def)
  have w: "?w = (fst ?w, Inr OutcomeApplied)" by code_simp
  have "snd (applyOrderStatus 9 PgAnswered (FromLeaseContext (ex_write_lease ''a'' 1)) ''order-123'' ''stale-write'' (write_run [] (fst ?w))) = Inr OutcomeStaleRejected"
    by (rule stale_writer_rejected[OF ex_server ex_redis_inv 1 _ 2 _ _ _ _ _ _ _ _ ok w, THEN conjunct2]) (simp_all add: ex_strict_def ex_write_lease_def)
  with w show ?thesis by (metis write_run.simps(1))
qed

end
