(* ===== verification/Observe.thy ===== *)
theory Observe
  imports Prelude "HOL-Library.Multiset"
begin

text \<open>
  Events and their dispatcher: \<^verbatim>\<open>src/observe/event.go\<close>, \<^verbatim>\<open>options.go\<close>, \<^verbatim>\<open>dispatcher.go\<close>, \<^verbatim>\<open>noop.go\<close>. The dispatcher is modelled with its
  goroutines: publishers, workers and \<^verbatim>\<open>Shutdown\<close> calls interleave, one channel operation or counter update at a time. Sinks and
  exporters are named by numbers; what they answer is part of the action.
\<close>

section \<open>Events\<close>

datatype EventKind = NoKind
  | EventAcquireStarted | EventAcquireSucceeded | EventAcquireFailed | EventReleased | EventContention | EventOverlap | EventLeaseLost
  | EventRenewalSucceeded | EventRenewalFailed | EventShutdownStarted | EventShutdownCompleted | EventClientStarted
  | EventOverlapRejected | EventPresenceChecked

fun EventKind_String :: "EventKind \<Rightarrow> string" where
  "EventKind_String EventAcquireStarted = ''acquire_started''"
| "EventKind_String EventAcquireSucceeded = ''acquire_succeeded''"
| "EventKind_String EventAcquireFailed = ''acquire_failed''"
| "EventKind_String EventReleased = ''released''"
| "EventKind_String EventContention = ''contention''"
| "EventKind_String EventOverlap = ''overlap''"
| "EventKind_String EventLeaseLost = ''lease_lost''"
| "EventKind_String EventRenewalSucceeded = ''renewal_succeeded''"
| "EventKind_String EventRenewalFailed = ''renewal_failed''"
| "EventKind_String EventShutdownStarted = ''shutdown_started''"
| "EventKind_String EventShutdownCompleted = ''shutdown_completed''"
| "EventKind_String EventClientStarted = ''client_started''"
| "EventKind_String EventOverlapRejected = ''overlap_rejected''"
| "EventKind_String EventPresenceChecked = ''presence_checked''"
| "EventKind_String NoKind = []"

definition EventKind_IsValid :: "EventKind \<Rightarrow> bool" where
  "EventKind_IsValid k = (k \<noteq> NoKind)"

text \<open>\<^verbatim>\<open>observe.Event\<close>; the fields of the runtime's own event record carry another prefix.\<close>

record ObsEvent =
  oe_Kind :: EventKind
  oe_DefinitionID :: string
  oe_RequestID :: string
  oe_OwnerID :: string
  oe_ResourceID :: string
  oe_Wait :: duration
  oe_Held :: duration
  oe_Contention :: int
  oe_Success :: bool
  oe_Timestamp :: time
  oe_Error :: go_err

definition blank_event :: "EventKind \<Rightarrow> ObsEvent" where
  "blank_event kind = \<lparr>oe_Kind = kind, oe_DefinitionID = [], oe_RequestID = [], oe_OwnerID = [], oe_ResourceID = [], oe_Wait = 0, oe_Held = 0,
     oe_Contention = 0, oe_Success = False, oe_Timestamp = zero_time, oe_Error = None\<rparr>"

definition stamped :: "time \<Rightarrow> ObsEvent \<Rightarrow> ObsEvent" where
  "stamped now e = (if oe_Timestamp e = zero_time then e\<lparr>oe_Timestamp := now\<rparr> else e)"

section \<open>Options\<close>

datatype DropPolicy = DropPolicyDropOldest | DropPolicyDropNewest

record ObsConfig =
  oc_bufferSize :: int
  oc_dropPolicy :: DropPolicy
  oc_sinks :: "nat list"
  oc_exporters :: "nat list"
  oc_workerCount :: int

datatype ObsOption = WithBufferSize int | WithDropPolicy DropPolicy | WithSink nat | WithExporter nat | WithWorkerCount int

fun apply_option :: "ObsOption \<Rightarrow> ObsConfig \<Rightarrow> ObsConfig" where
  "apply_option (WithBufferSize n) c = c\<lparr>oc_bufferSize := n\<rparr>"
| "apply_option (WithDropPolicy policy) c = c\<lparr>oc_dropPolicy := policy\<rparr>"
| "apply_option (WithSink sink) c = c\<lparr>oc_sinks := oc_sinks c @ [sink]\<rparr>"
| "apply_option (WithExporter exporter) c = c\<lparr>oc_exporters := oc_exporters c @ [exporter]\<rparr>"
| "apply_option (WithWorkerCount n) c = c\<lparr>oc_workerCount := n\<rparr>"

definition buildConfig :: "ObsOption list \<Rightarrow> ObsConfig" where
  "buildConfig opts = fold apply_option opts
     \<lparr>oc_bufferSize = 100, oc_dropPolicy = DropPolicyDropOldest, oc_sinks = [], oc_exporters = [], oc_workerCount = 4\<rparr>"

section \<open>The dispatcher and its goroutines\<close>

text \<open>
  A worker waits in its \<^verbatim>\<open>select\<close>, or has an event and the sinks (exporters) whose calls have not returned yet. A publisher is before its
  first send, before counting a drop, before the receive of \<^verbatim>\<open>handleDrop\<close>, or before its second send.
\<close>

datatype Worker = Waiting | ToSinks ObsEvent "nat list" | ToExporters ObsEvent "nat list" | Exited

datatype Publisher = AtSend ObsEvent | AtDrop ObsEvent | AtEvict ObsEvent | AtResend ObsEvent

record Dispatcher =
  dp_eventCh :: "ObsEvent list"
  dp_cap :: nat
  dp_chClosed :: bool
  dp_sinks :: "nat list"
  dp_exporters :: "nat list"
  dp_dropPolicy :: DropPolicy
  dp_cancelled :: bool
  dp_droppedCount :: int
  dp_sinkFailureCount :: int
  dp_exporterFailureCount :: int
  dp_mu :: bool
  dp_closed :: bool
  dp_workers :: "Worker list"
  dp_pubs :: "Publisher list"
  \<comment> \<open>what happened so far: events published, sent into the channel, received from it, lost, delivered; sink and exporter calls\<close>
  dp_published :: "ObsEvent list"
  dp_sent :: "ObsEvent list"
  dp_received :: "ObsEvent list"
  dp_lost :: "ObsEvent list"
  dp_done :: "ObsEvent list"
  dp_sinkCalls :: "(nat \<times> ObsEvent) list"
  dp_exporterCalls :: "(nat \<times> ObsEvent) list"

text \<open>\<^verbatim>\<open>make(chan Event, n)\<close> panics for a negative \<open>n\<close>; the loop that starts workers runs zero times for a count below one.\<close>

definition NewDispatcher :: "ObsOption list \<Rightarrow> Dispatcher option" where
  "NewDispatcher opts = (let cfg = buildConfig opts in
     if oc_bufferSize cfg < 0 then None
     else Some \<lparr>dp_eventCh = [], dp_cap = nat (oc_bufferSize cfg), dp_chClosed = False, dp_sinks = oc_sinks cfg, dp_exporters = oc_exporters cfg,
       dp_dropPolicy = oc_dropPolicy cfg, dp_cancelled = False, dp_droppedCount = 0, dp_sinkFailureCount = 0, dp_exporterFailureCount = 0,
       dp_mu = False, dp_closed = False, dp_workers = replicate (nat (oc_workerCount cfg)) Waiting, dp_pubs = [], dp_published = [], dp_sent = [],
       dp_received = [], dp_lost = [], dp_done = [], dp_sinkCalls = [], dp_exporterCalls = []\<rparr>)"

datatype outcome = Disabled | Panics string | Continues Dispatcher

definition drop_nth :: "nat \<Rightarrow> 'a list \<Rightarrow> 'a list" where
  "drop_nth i xs = take i xs @ drop (Suc i) xs"

definition channel_send :: "ObsEvent \<Rightarrow> Dispatcher \<Rightarrow> Dispatcher" where
  "channel_send e d = d\<lparr>dp_eventCh := dp_eventCh d @ [e], dp_sent := dp_sent d @ [e]\<rparr>"

definition next_exporters :: "nat \<Rightarrow> ObsEvent \<Rightarrow> nat list \<Rightarrow> Dispatcher \<Rightarrow> Dispatcher" where
  "next_exporters k e es d =
     (if es = [] then d\<lparr>dp_workers := (dp_workers d)[k := Waiting], dp_done := dp_done d @ [e]\<rparr>
      else d\<lparr>dp_workers := (dp_workers d)[k := ToExporters e es]\<rparr>)"

definition next_sinks :: "nat \<Rightarrow> ObsEvent \<Rightarrow> nat list \<Rightarrow> Dispatcher \<Rightarrow> Dispatcher" where
  "next_sinks k e ss d =
     (if ss = [] then next_exporters k e (dp_exporters d) d else d\<lparr>dp_workers := (dp_workers d)[k := ToSinks e ss]\<rparr>)"

text \<open>
  \<^verbatim>\<open>Publish\<close> and \<^verbatim>\<open>handleDrop\<close>: the publisher's next step. A send on a closed channel panics, also inside \<^verbatim>\<open>select\<close>. A receive from an
  empty channel takes the default branch, or gets a zero value when the channel is closed. On an unbuffered channel (capacity 0) the default branch is possible here
  also while a worker waits to receive, which allows more runs than Go does.
\<close>

definition publisher_step :: "nat \<Rightarrow> Dispatcher \<Rightarrow> outcome" where
  "publisher_step i d =
     (if i \<ge> length (dp_pubs d) then Disabled
      else
        let gone = d\<lparr>dp_pubs := drop_nth i (dp_pubs d)\<rparr>;
            goto = (\<lambda>p d. d\<lparr>dp_pubs := (dp_pubs d)[i := p]\<rparr>)
        in case dp_pubs d ! i of
             AtSend e \<Rightarrow>
               if dp_chClosed d then Panics ''send on closed channel''
               else if length (dp_eventCh d) < dp_cap d then Continues (channel_send e gone)
               else Continues (goto (AtDrop e) d)
           | AtDrop e \<Rightarrow>
               (case dp_dropPolicy d of
                  DropPolicyDropOldest \<Rightarrow> Continues (goto (AtEvict e) (d\<lparr>dp_droppedCount := dp_droppedCount d + 1\<rparr>))
                | DropPolicyDropNewest \<Rightarrow> Continues (gone\<lparr>dp_droppedCount := dp_droppedCount d + 1, dp_lost := dp_lost d @ [e]\<rparr>))
           | AtEvict e \<Rightarrow>
               (case dp_eventCh d of
                  [] \<Rightarrow> Continues (goto (AtResend e) d)
                | old # rest \<Rightarrow> Continues (goto (AtResend e) (d\<lparr>dp_eventCh := rest, dp_received := dp_received d @ [old],
                    dp_lost := dp_lost d @ [old]\<rparr>)))
           | AtResend e \<Rightarrow>
               if dp_chClosed d then Panics ''send on closed channel''
               else if length (dp_eventCh d) < dp_cap d then Continues (channel_send e gone)
               else Continues (gone\<lparr>dp_lost := dp_lost d @ [e]\<rparr>))"

text \<open>A channel of capacity 0 hands an event over when a sender meets a waiting worker.\<close>

definition rendezvous :: "nat \<Rightarrow> nat \<Rightarrow> Dispatcher \<Rightarrow> outcome" where
  "rendezvous i k d =
     (if i < length (dp_pubs d) \<and> k < length (dp_workers d) \<and> dp_cap d = 0 \<and> \<not> dp_chClosed d \<and> dp_workers d ! k = Waiting
      then
        let hand = (\<lambda>e. Continues (next_sinks k e (dp_sinks d)
              (d\<lparr>dp_pubs := drop_nth i (dp_pubs d), dp_sent := dp_sent d @ [e], dp_received := dp_received d @ [e]\<rparr>)))
        in case dp_pubs d ! i of AtSend e \<Rightarrow> hand e | AtResend e \<Rightarrow> hand e | _ \<Rightarrow> Disabled
      else Disabled)"

text \<open>\<^verbatim>\<open>worker\<close>: the receive branch of its \<^verbatim>\<open>select\<close>, the branch of the cancelled context, and a sink or exporter call that returns.\<close>

definition worker_receive :: "nat \<Rightarrow> Dispatcher \<Rightarrow> outcome" where
  "worker_receive k d =
     (if k < length (dp_workers d) \<and> dp_workers d ! k = Waiting then
        (case dp_eventCh d of
           e # rest \<Rightarrow> Continues (next_sinks k e (dp_sinks d) (d\<lparr>dp_eventCh := rest, dp_received := dp_received d @ [e]\<rparr>))
         | [] \<Rightarrow> if dp_chClosed d then Continues (d\<lparr>dp_workers := (dp_workers d)[k := Exited]\<rparr>) else Disabled)
      else Disabled)"

definition worker_done :: "nat \<Rightarrow> Dispatcher \<Rightarrow> outcome" where
  "worker_done k d =
     (if k < length (dp_workers d) \<and> dp_workers d ! k = Waiting \<and> dp_cancelled d
      then Continues (d\<lparr>dp_workers := (dp_workers d)[k := Exited]\<rparr>) else Disabled)"

definition sink_returns :: "nat \<Rightarrow> nat \<Rightarrow> bool \<Rightarrow> Dispatcher \<Rightarrow> outcome" where
  "sink_returns k j failed d =
     (if k < length (dp_workers d) then
        (case dp_workers d ! k of
           ToSinks e ss \<Rightarrow>
             if j < length ss
             then Continues (next_sinks k e (drop_nth j ss) (d\<lparr>dp_sinkCalls := dp_sinkCalls d @ [(ss ! j, e)],
                    dp_sinkFailureCount := dp_sinkFailureCount d + (if failed then 1 else 0)\<rparr>))
             else Disabled
         | _ \<Rightarrow> Disabled)
      else Disabled)"

definition exporter_returns :: "nat \<Rightarrow> nat \<Rightarrow> bool \<Rightarrow> Dispatcher \<Rightarrow> outcome" where
  "exporter_returns k j failed d =
     (if k < length (dp_workers d) then
        (case dp_workers d ! k of
           ToExporters e es \<Rightarrow>
             if j < length es
             then Continues (next_exporters k e (drop_nth j es) (d\<lparr>dp_exporterCalls := dp_exporterCalls d @ [(es ! j, e)],
                    dp_exporterFailureCount := dp_exporterFailureCount d + (if failed then 1 else 0)\<rparr>))
             else Disabled
         | _ \<Rightarrow> Disabled)
      else Disabled)"

text \<open>
  \<^verbatim>\<open>Shutdown\<close> holds the mutex while it cancels the context and closes the channel; a second call finds the flag and returns. Then it waits
  for the workers: it returns without an error when they are all gone, or with the error of its own context.
\<close>

definition shutdown_cancel :: "Dispatcher \<Rightarrow> outcome" where
  "shutdown_cancel d =
     (if dp_mu d then Disabled
      else if dp_closed d then Continues d
      else Continues (d\<lparr>dp_mu := True, dp_closed := True, dp_cancelled := True\<rparr>))"

definition shutdown_close :: "Dispatcher \<Rightarrow> outcome" where
  "shutdown_close d = (if dp_mu d then Continues (d\<lparr>dp_chClosed := True, dp_mu := False\<rparr>) else Disabled)"

definition shutdown_returns :: "go_err \<Rightarrow> Dispatcher \<Rightarrow> go_err \<Rightarrow> bool" where
  "shutdown_returns ctxErr d r \<longleftrightarrow> r = None \<and> list_all (\<lambda>w. w = Exited) (dp_workers d) \<or> (\<exists>e. ctxErr = Some e \<and> r = Some e)"

datatype action =
    Publish ObsEvent time | Pub nat | Rendezvous nat nat | Receive nat | Done nat | SinkReturns nat nat bool | ExporterReturns nat nat bool
  | ShutdownCancel | ShutdownClose

fun dispatcher_step :: "action \<Rightarrow> Dispatcher \<Rightarrow> outcome" where
  "dispatcher_step (Publish e now) d =
     Continues (d\<lparr>dp_pubs := dp_pubs d @ [AtSend (stamped now e)], dp_published := dp_published d @ [stamped now e]\<rparr>)"
| "dispatcher_step (Pub i) d = publisher_step i d"
| "dispatcher_step (Rendezvous i k) d = rendezvous i k d"
| "dispatcher_step (Receive k) d = worker_receive k d"
| "dispatcher_step (Done k) d = worker_done k d"
| "dispatcher_step (SinkReturns k j failed) d = sink_returns k j failed d"
| "dispatcher_step (ExporterReturns k j failed) d = exporter_returns k j failed d"
| "dispatcher_step ShutdownCancel d = shutdown_cancel d"
| "dispatcher_step ShutdownClose d = shutdown_close d"

inductive dispatches :: "Dispatcher \<Rightarrow> action list \<Rightarrow> Dispatcher \<Rightarrow> bool" where
  dispatches_start: "dispatches d [] d"
| dispatches_step: "dispatches d as d1 \<Longrightarrow> dispatcher_step a d1 = Continues d2 \<Longrightarrow> dispatches d (as @ [a]) d2"

end
