(* ===== verification/Observe_Correct.thy ===== *)
theory Observe_Correct
  imports Observe "HOL-Library.Sublist"
begin

text \<open>
  The dispatcher under every interleaving of its goroutines: the buffer keeps its bound, no event is duplicated or forgotten, the drop
  counter bounds the losses, each delivered event went to every sink and every exporter, and after \<^verbatim>\<open>Shutdown\<close> the workers end.
\<close>

section \<open>Accounting\<close>

fun worker_event :: "Worker \<Rightarrow> ObsEvent multiset" where
  "worker_event (ToSinks e ss) = {#e#}"
| "worker_event (ToExporters e es) = {#e#}"
| "worker_event _ = {#}"

fun sinks_left :: "Worker \<Rightarrow> (nat \<times> ObsEvent) multiset" where
  "sinks_left (ToSinks e ss) = image_mset (\<lambda>s. (s, e)) (mset ss)"
| "sinks_left _ = {#}"

fun exporters_left :: "nat list \<Rightarrow> Worker \<Rightarrow> (nat \<times> ObsEvent) multiset" where
  "exporters_left all (ToSinks e ss) = image_mset (\<lambda>x. (x, e)) (mset all)"
| "exporters_left all (ToExporters e es) = image_mset (\<lambda>x. (x, e)) (mset es)"
| "exporters_left all _ = {#}"

fun pub_event :: "Publisher \<Rightarrow> ObsEvent" where
  "pub_event (AtSend e) = e"
| "pub_event (AtDrop e) = e"
| "pub_event (AtEvict e) = e"
| "pub_event (AtResend e) = e"

text \<open>The losses that a publisher's counted drop may still cause.\<close>

fun credit :: "Publisher \<Rightarrow> nat" where
  "credit (AtEvict e) = 2"
| "credit (AtResend e) = 1"
| "credit _ = 0"

definition in_flight :: "Dispatcher \<Rightarrow> ObsEvent multiset" where
  "in_flight d = sum_list (map worker_event (dp_workers d))"

definition calls_for :: "nat list \<Rightarrow> ObsEvent multiset \<Rightarrow> (nat \<times> ObsEvent) multiset" where
  "calls_for xs es = sum_mset (image_mset (\<lambda>e. image_mset (\<lambda>x. (x, e)) (mset xs)) es)"

definition pending :: "Dispatcher \<Rightarrow> ObsEvent multiset" where
  "pending d = mset (map pub_event (dp_pubs d))"

lemma calls_for_simps [simp]:
  "calls_for xs {#} = {#}" "calls_for xs (add_mset e es) = image_mset (\<lambda>x. (x, e)) (mset xs) + calls_for xs es"
  by (simp_all add: calls_for_def)

lemma sum_list_update:
  fixes f :: "'a \<Rightarrow> 'b :: comm_monoid_add"
  shows "k < length xs \<Longrightarrow> sum_list (map f (xs[k := y])) + f (xs ! k) = sum_list (map f xs) + f y"
proof (induction xs arbitrary: k)
  case (Cons x xs)
  then show ?case by (cases k) (simp_all add: ac_simps)
qed simp

lemma sum_list_drop_nth:
  fixes f :: "'a \<Rightarrow> 'b :: comm_monoid_add"
  shows "k < length xs \<Longrightarrow> sum_list (map f (drop_nth k xs)) + f (xs ! k) = sum_list (map f xs)"
proof (induction xs arbitrary: k)
  case (Cons x xs)
  then show ?case by (cases k) (simp_all add: drop_nth_def ac_simps)
qed simp

lemma mset_drop_nth: "k < length xs \<Longrightarrow> add_mset (xs ! k) (mset (drop_nth k xs)) = mset xs"
proof (induction xs arbitrary: k)
  case (Cons x xs)
  then show ?case by (cases k) (simp_all add: drop_nth_def)
qed simp

lemma set_drop_nth: "set (drop_nth k xs) \<subseteq> set xs"
  by (auto simp: drop_nth_def dest: in_set_takeD in_set_dropD)

section \<open>The invariant\<close>

definition conserved :: "Dispatcher \<Rightarrow> bool" where
  "conserved d \<longleftrightarrow> mset (dp_published d) = pending d + mset (dp_eventCh d) + in_flight d + mset (dp_done d) + mset (dp_lost d)"

definition in_order :: "Dispatcher \<Rightarrow> bool" where
  "in_order d \<longleftrightarrow> dp_sent d = dp_received d @ dp_eventCh d \<and> length (dp_eventCh d) \<le> dp_cap d"

definition counted :: "Dispatcher \<Rightarrow> bool" where
  "counted d \<longleftrightarrow>
     int (length (dp_lost d) + sum_list (map credit (dp_pubs d))) \<le> 2 * dp_droppedCount d \<and>
     (dp_dropPolicy d = DropPolicyDropNewest \<longrightarrow> int (length (dp_lost d)) = dp_droppedCount d \<and> (\<forall>p \<in> set (dp_pubs d). credit p = 0))"

definition called :: "Dispatcher \<Rightarrow> bool" where
  "called d \<longleftrightarrow>
     mset (dp_sinkCalls d) + sum_list (map sinks_left (dp_workers d)) = calls_for (dp_sinks d) (in_flight d + mset (dp_done d)) \<and>
     mset (dp_exporterCalls d) + sum_list (map (exporters_left (dp_exporters d)) (dp_workers d))
       = calls_for (dp_exporters d) (in_flight d + mset (dp_done d))"

text \<open>A worker only holds a non-empty list of outstanding calls, and the context is cancelled before the channel is closed.\<close>

fun worker_ok :: "Worker \<Rightarrow> bool" where
  "worker_ok (ToSinks e ss) = (ss \<noteq> [])"
| "worker_ok (ToExporters e es) = (es \<noteq> [])"
| "worker_ok _ = True"

definition settled :: "Dispatcher \<Rightarrow> bool" where
  "settled d \<longleftrightarrow> list_all worker_ok (dp_workers d) \<and> (dp_chClosed d \<longrightarrow> dp_cancelled d) \<and> (dp_mu d \<longrightarrow> dp_cancelled d)"

text \<open>A worker that gets an event, or one of whose calls returns.\<close>

lemma worker_moves:
  assumes "k < length (dp_workers d)"
  shows "in_flight (next_sinks k e ss d) + mset (dp_done (next_sinks k e ss d)) + worker_event (dp_workers d ! k) = add_mset e (in_flight d + mset (dp_done d))"
    and "sum_list (map sinks_left (dp_workers (next_sinks k e ss d))) + sinks_left (dp_workers d ! k)
      = sum_list (map sinks_left (dp_workers d)) + image_mset (\<lambda>s. (s, e)) (mset ss)"
    and "sum_list (map (exporters_left xs) (dp_workers (next_sinks k e ss d))) + exporters_left xs (dp_workers d ! k)
      = sum_list (map (exporters_left xs) (dp_workers d)) + image_mset (\<lambda>x. (x, e)) (mset (if ss = [] then dp_exporters d else xs))"
    and "in_flight (next_exporters k e es d) + mset (dp_done (next_exporters k e es d)) + worker_event (dp_workers d ! k) = add_mset e (in_flight d + mset (dp_done d))"
    and "sum_list (map sinks_left (dp_workers (next_exporters k e es d))) + sinks_left (dp_workers d ! k) = sum_list (map sinks_left (dp_workers d))"
    and "sum_list (map (exporters_left xs) (dp_workers (next_exporters k e es d))) + exporters_left xs (dp_workers d ! k)
      = sum_list (map (exporters_left xs) (dp_workers d)) + image_mset (\<lambda>x. (x, e)) (mset es)"
  using sum_list_update[OF assms, of worker_event] sum_list_update[OF assms, of sinks_left] sum_list_update[OF assms, of "exporters_left xs"]
  by (simp_all add: next_sinks_def next_exporters_def in_flight_def add.assoc add.commute)

text \<open>What a hand-over to a worker leaves alone.\<close>

lemma next_fields [simp]:
  "dp_pubs (next_sinks k e ss d) = dp_pubs d" "dp_pubs (next_exporters k e ss d) = dp_pubs d"
  "dp_eventCh (next_sinks k e ss d) = dp_eventCh d" "dp_eventCh (next_exporters k e ss d) = dp_eventCh d"
  "dp_published (next_sinks k e ss d) = dp_published d" "dp_published (next_exporters k e ss d) = dp_published d"
  "dp_lost (next_sinks k e ss d) = dp_lost d" "dp_lost (next_exporters k e ss d) = dp_lost d"
  "dp_sent (next_sinks k e ss d) = dp_sent d" "dp_sent (next_exporters k e ss d) = dp_sent d"
  "dp_received (next_sinks k e ss d) = dp_received d" "dp_received (next_exporters k e ss d) = dp_received d"
  "dp_cap (next_sinks k e ss d) = dp_cap d" "dp_cap (next_exporters k e ss d) = dp_cap d"
  "dp_droppedCount (next_sinks k e ss d) = dp_droppedCount d" "dp_droppedCount (next_exporters k e ss d) = dp_droppedCount d"
  "dp_dropPolicy (next_sinks k e ss d) = dp_dropPolicy d" "dp_dropPolicy (next_exporters k e ss d) = dp_dropPolicy d"
  "dp_sinks (next_sinks k e ss d) = dp_sinks d" "dp_sinks (next_exporters k e ss d) = dp_sinks d"
  "dp_exporters (next_sinks k e ss d) = dp_exporters d" "dp_exporters (next_exporters k e ss d) = dp_exporters d"
  "dp_sinkCalls (next_sinks k e ss d) = dp_sinkCalls d" "dp_sinkCalls (next_exporters k e ss d) = dp_sinkCalls d"
  "dp_exporterCalls (next_sinks k e ss d) = dp_exporterCalls d" "dp_exporterCalls (next_exporters k e ss d) = dp_exporterCalls d"
  "dp_chClosed (next_sinks k e ss d) = dp_chClosed d" "dp_chClosed (next_exporters k e ss d) = dp_chClosed d"
  "dp_cancelled (next_sinks k e ss d) = dp_cancelled d" "dp_cancelled (next_exporters k e ss d) = dp_cancelled d"
  "dp_mu (next_sinks k e ss d) = dp_mu d" "dp_mu (next_exporters k e ss d) = dp_mu d"
  by (simp_all add: next_sinks_def next_exporters_def)

lemma pub_goto: "pub_event p = pub_event (ps ! i) \<Longrightarrow> map pub_event (ps[i := p]) = map pub_event ps"
  by (metis list_update_beyond list_update_id map_update not_less)

lemma pub_gone: "i < length ps \<Longrightarrow> mset (map pub_event ps) = add_mset (pub_event (ps ! i)) (mset (map pub_event (drop_nth i ps)))"
  using mset_drop_nth[of i "map pub_event ps"] by (simp add: drop_nth_def take_map drop_map)

text \<open>The steps, by what they do.\<close>

lemma publisher_cases:
  assumes "publisher_step i d = Continues d'"
  obtains (sent) e where "i < length (dp_pubs d)" "pub_event (dp_pubs d ! i) = e" "length (dp_eventCh d) < dp_cap d" "d' = channel_send e (d\<lparr>dp_pubs := drop_nth i (dp_pubs d)\<rparr>)"
  | (full) e where "i < length (dp_pubs d)" "dp_pubs d ! i = AtSend e" "d' = d\<lparr>dp_pubs := (dp_pubs d)[i := AtDrop e]\<rparr>"
  | (drop) e where "i < length (dp_pubs d)" "dp_pubs d ! i = AtDrop e" "dp_dropPolicy d = DropPolicyDropOldest"
      "d' = d\<lparr>dp_pubs := (dp_pubs d)[i := AtEvict e], dp_droppedCount := dp_droppedCount d + 1\<rparr>"
  | (newest) e where "i < length (dp_pubs d)" "dp_pubs d ! i = AtDrop e" "dp_dropPolicy d = DropPolicyDropNewest"
      "d' = d\<lparr>dp_pubs := drop_nth i (dp_pubs d), dp_droppedCount := dp_droppedCount d + 1, dp_lost := dp_lost d @ [e]\<rparr>"
  | (none) e where "i < length (dp_pubs d)" "dp_pubs d ! i = AtEvict e" "dp_eventCh d = []" "d' = d\<lparr>dp_pubs := (dp_pubs d)[i := AtResend e]\<rparr>"
  | (evict) e old rest where "i < length (dp_pubs d)" "dp_pubs d ! i = AtEvict e" "dp_eventCh d = old # rest"
      "d' = d\<lparr>dp_pubs := (dp_pubs d)[i := AtResend e], dp_eventCh := rest, dp_received := dp_received d @ [old], dp_lost := dp_lost d @ [old]\<rparr>"
  | (lost) e where "i < length (dp_pubs d)" "dp_pubs d ! i = AtResend e" "d' = d\<lparr>dp_pubs := drop_nth i (dp_pubs d), dp_lost := dp_lost d @ [e]\<rparr>"
proof -
  have i: "i < length (dp_pubs d)" using assms by (auto simp: publisher_step_def split: if_splits)
  note step = assms[unfolded publisher_step_def Let_def]
  show ?thesis
  proof (cases "dp_pubs d ! i")
    case (AtSend e)
    then show ?thesis using step i sent[OF i] full[OF i] by (auto split: if_splits)
  next
    case (AtDrop e)
    then show ?thesis using step i drop[OF i] newest[OF i] by (cases "dp_dropPolicy d") auto
  next
    case (AtEvict e)
    then show ?thesis using step i none[OF i] evict[OF i] by (cases "dp_eventCh d") auto
  next
    case (AtResend e)
    then show ?thesis using step i sent[OF i] lost[OF i] by (auto split: if_splits)
  qed
qed

lemma worker_step_cases:
  assumes "dispatcher_step a d = Continues d'"
  obtains (publish) e where "d' = d\<lparr>dp_pubs := dp_pubs d @ [AtSend e], dp_published := dp_published d @ [e]\<rparr>"
  | (publisher) i where "a = Pub i" "publisher_step i d = Continues d'"
  | (hand) i k e where "i < length (dp_pubs d)" "k < length (dp_workers d)" "dp_workers d ! k = Waiting" "dp_cap d = 0" "pub_event (dp_pubs d ! i) = e"
      "d' = next_sinks k e (dp_sinks d) (d\<lparr>dp_pubs := drop_nth i (dp_pubs d), dp_sent := dp_sent d @ [e], dp_received := dp_received d @ [e]\<rparr>)"
  | (receive) k e rest where "k < length (dp_workers d)" "dp_workers d ! k = Waiting" "dp_eventCh d = e # rest"
      "d' = next_sinks k e (dp_sinks d) (d\<lparr>dp_eventCh := rest, dp_received := dp_received d @ [e]\<rparr>)"
  | (exit) k where "k < length (dp_workers d)" "dp_workers d ! k = Waiting" "d' = d\<lparr>dp_workers := (dp_workers d)[k := Exited]\<rparr>"
  | (sink) k e ss j n where "k < length (dp_workers d)" "dp_workers d ! k = ToSinks e ss" "j < length ss"
      "d' = next_sinks k e (drop_nth j ss) (d\<lparr>dp_sinkCalls := dp_sinkCalls d @ [(ss ! j, e)], dp_sinkFailureCount := n\<rparr>)"
  | (exporter) k e es j n where "k < length (dp_workers d)" "dp_workers d ! k = ToExporters e es" "j < length es"
      "d' = next_exporters k e (drop_nth j es) (d\<lparr>dp_exporterCalls := dp_exporterCalls d @ [(es ! j, e)], dp_exporterFailureCount := n\<rparr>)"
  | (shutdown) mu cl ca ch where "d' = d\<lparr>dp_mu := mu, dp_closed := cl, dp_cancelled := ca, dp_chClosed := ch\<rparr>"
      "dp_cancelled d \<longrightarrow> ca" "dp_chClosed d \<longrightarrow> ch" "mu \<longrightarrow> ca" "ch \<longrightarrow> dp_chClosed d \<or> dp_mu d"
proof (cases a)
  case (SinkReturns k j f)
  then obtain e ss where w: "k < length (dp_workers d)" "dp_workers d ! k = ToSinks e ss" "j < length ss"
    using assms by (auto simp: sink_returns_def split: if_splits Worker.splits)
  with SinkReturns assms have "d' = next_sinks k e (drop_nth j ss) (d\<lparr>dp_sinkCalls := dp_sinkCalls d @ [(ss ! j, e)],
      dp_sinkFailureCount := dp_sinkFailureCount d + (if f then 1 else 0)\<rparr>)" by (simp add: sink_returns_def)
  with w show ?thesis by (rule sink)
next
  case (ExporterReturns k j f)
  then obtain e es where w: "k < length (dp_workers d)" "dp_workers d ! k = ToExporters e es" "j < length es"
    using assms by (auto simp: exporter_returns_def split: if_splits Worker.splits)
  with ExporterReturns assms have "d' = next_exporters k e (drop_nth j es) (d\<lparr>dp_exporterCalls := dp_exporterCalls d @ [(es ! j, e)],
      dp_exporterFailureCount := dp_exporterFailureCount d + (if f then 1 else 0)\<rparr>)" by (simp add: exporter_returns_def)
  with w show ?thesis by (rule exporter)
next
  case (Rendezvous i k)
  then show ?thesis using assms hand[of i k] by (auto simp: rendezvous_def Let_def split: if_splits Publisher.splits)
next
  case ShutdownCancel
  have id: "d = d\<lparr>dp_mu := dp_mu d, dp_closed := dp_closed d, dp_cancelled := dp_cancelled d, dp_chClosed := dp_chClosed d\<rparr>"
    "d\<lparr>dp_mu := True, dp_closed := True, dp_cancelled := True\<rparr> = d\<lparr>dp_mu := True, dp_closed := True, dp_cancelled := True, dp_chClosed := dp_chClosed d\<rparr>"
    by simp_all
  show ?thesis
  proof (cases "dp_closed d")
    case True
    then have "\<not> dp_mu d" "d' = d" using ShutdownCancel assms by (auto simp: shutdown_cancel_def split: if_splits)
    then show ?thesis using id(1) by (intro shutdown[of "dp_chClosed d" "dp_cancelled d" "dp_closed d" "dp_mu d"]) auto
  next
    case False
    then have "\<not> dp_mu d" "d' = d\<lparr>dp_mu := True, dp_closed := True, dp_cancelled := True\<rparr>"
      using ShutdownCancel assms by (auto simp: shutdown_cancel_def split: if_splits)
    then show ?thesis using id(2) by (intro shutdown[of "dp_chClosed d" True True True]) auto
  qed
next
  case ShutdownClose
  have "d\<lparr>dp_chClosed := True, dp_mu := False\<rparr> = d\<lparr>dp_mu := False, dp_closed := dp_closed d, dp_cancelled := dp_cancelled d, dp_chClosed := True\<rparr>" by simp
  moreover have "dp_mu d" "d' = d\<lparr>dp_chClosed := True, dp_mu := False\<rparr>"
    using ShutdownClose assms by (auto simp: shutdown_close_def split: if_splits)
  ultimately show ?thesis by (intro shutdown[of True "dp_cancelled d" "dp_closed d" False]) auto
next
  case (Publish e now)
  then show ?thesis using assms by (intro publish[of "stamped now e"]) simp
next
  case (Pub i)
  then show ?thesis using assms by (intro publisher) simp_all
next
  case (Receive k)
  then have k: "k < length (dp_workers d)" "dp_workers d ! k = Waiting" using assms by (auto simp: worker_receive_def split: if_splits)
  show ?thesis
  proof (cases "dp_eventCh d")
    case Nil
    then show ?thesis using Receive assms k by (intro exit[OF k]) (auto simp: worker_receive_def split: if_splits)
  next
    case (Cons e rest)
    then show ?thesis using Receive assms k by (intro receive[OF k Cons]) (simp add: worker_receive_def)
  qed
next
  case (Done k)
  then have "k < length (dp_workers d)" "dp_workers d ! k = Waiting" "d' = d\<lparr>dp_workers := (dp_workers d)[k := Exited]\<rparr>"
    using assms by (auto simp: worker_done_def split: if_splits)
  then show ?thesis by (rule exit)
qed

section \<open>Every step keeps it\<close>

lemma in_order_step: "in_order d \<Longrightarrow> dispatcher_step a d = Continues d' \<Longrightarrow> in_order d'"
proof (erule worker_step_cases)
  fix i assume "in_order d" "publisher_step i d = Continues d'"
  from this(2,1) show "in_order d'" by (cases rule: publisher_cases) (auto simp: in_order_def channel_send_def)
qed (auto simp: in_order_def)

lemma conserved_step:
  assumes "conserved d" and "dispatcher_step a d = Continues d'"
  shows "conserved d'"
  using assms(2)
proof (cases rule: worker_step_cases)
  case (publisher i)
  from publisher(2) show ?thesis
  proof (cases rule: publisher_cases)
    case (sent e)
    then show ?thesis using assms(1) pub_gone[OF sent(1)] by (simp add: conserved_def pending_def in_flight_def channel_send_def)
  next
    case (newest e)
    then show ?thesis using assms(1) pub_gone[OF newest(1)] by (simp add: conserved_def pending_def in_flight_def)
  next
    case (lost e)
    then show ?thesis using assms(1) pub_gone[OF lost(1)] by (simp add: conserved_def pending_def in_flight_def)
  qed (use assms(1) in \<open>simp_all add: conserved_def pending_def in_flight_def pub_goto\<close>)
next
  case (hand i k e)
  then show ?thesis using assms(1) pub_gone[OF hand(1)] worker_moves(1)[of k d' e]
    worker_moves(1)[of k "d\<lparr>dp_pubs := drop_nth i (dp_pubs d), dp_sent := dp_sent d @ [e], dp_received := dp_received d @ [e]\<rparr>" e "dp_sinks d"]
    by (simp add: conserved_def pending_def) (simp add: in_flight_def add.assoc)
next
  case (receive k e rest)
  then show ?thesis using assms(1)
    worker_moves(1)[of k "d\<lparr>dp_eventCh := rest, dp_received := dp_received d @ [e]\<rparr>" e "dp_sinks d"]
    by (simp add: conserved_def pending_def) (simp add: in_flight_def add.assoc)
next
  case (exit k)
  then show ?thesis using assms(1) sum_list_update[OF exit(1), of worker_event Exited] by (simp add: conserved_def pending_def in_flight_def)
next
  case (sink k e ss j n)
  then show ?thesis using assms(1) worker_moves(1)[of k "d\<lparr>dp_sinkCalls := dp_sinkCalls d @ [(ss ! j, e)], dp_sinkFailureCount := n\<rparr>" e "drop_nth j ss"]
    by (simp add: conserved_def pending_def) (simp add: in_flight_def add.assoc)
next
  case (exporter k e es j n)
  then show ?thesis using assms(1) worker_moves(4)[of k "d\<lparr>dp_exporterCalls := dp_exporterCalls d @ [(es ! j, e)], dp_exporterFailureCount := n\<rparr>" e "drop_nth j es"]
    by (simp add: conserved_def pending_def) (simp add: in_flight_def add.assoc)
qed (use assms(1) in \<open>simp_all add: conserved_def pending_def in_flight_def\<close>)

lemma counted_step:
  assumes "counted d" and "dispatcher_step a d = Continues d'"
  shows "counted d'"
  using assms(2)
proof (cases rule: worker_step_cases)
  case (publisher i)
  from publisher(2) have i: "i < length (dp_pubs d)" by (cases rule: publisher_cases) auto
  note gone = sum_list_drop_nth[OF i, of credit] and goto = sum_list_update[OF i, of credit]
  have sub: "\<forall>p \<in> set (dp_pubs d). credit p = 0 \<Longrightarrow> p \<in> set (drop_nth i (dp_pubs d)) \<Longrightarrow> credit p = 0" for p
    using set_drop_nth by fastforce
  from publisher(2) show ?thesis
  proof (cases rule: publisher_cases)
    case (sent e)
    then show ?thesis using assms(1) gone sub by (auto simp: counted_def channel_send_def)
  next
    case (full e)
    then show ?thesis using assms(1) goto[of "AtDrop e"] set_update_subset_insert[of "dp_pubs d" i "AtDrop e"] by (auto simp: counted_def)
  next
    case (drop e)
    then show ?thesis using assms(1) goto[of "AtEvict e"] by (auto simp: counted_def)
  next
    case (newest e)
    then show ?thesis using assms(1) gone sub by (auto simp: counted_def)
  next
    case (none e)
    then have "dp_dropPolicy d = DropPolicyDropOldest" using assms(1) nth_mem[OF i] by (cases "dp_dropPolicy d") (force simp: counted_def)+
    then show ?thesis using none assms(1) goto[of "AtResend e"] by (auto simp: counted_def)
  next
    case (evict e old rest)
    then have "dp_dropPolicy d = DropPolicyDropOldest" using assms(1) nth_mem[OF i] by (cases "dp_dropPolicy d") (force simp: counted_def)+
    then show ?thesis using evict assms(1) goto[of "AtResend e"] by (auto simp: counted_def)
  next
    case (lost e)
    then have "dp_dropPolicy d = DropPolicyDropOldest" using assms(1) nth_mem[OF i] by (cases "dp_dropPolicy d") (force simp: counted_def)+
    then show ?thesis using lost assms(1) gone by (auto simp: counted_def)
  qed
next
  case (hand i k e)
  have "\<forall>p \<in> set (dp_pubs d). credit p = 0 \<Longrightarrow> p \<in> set (drop_nth i (dp_pubs d)) \<Longrightarrow> credit p = 0" for p
    using set_drop_nth by fastforce
  then show ?thesis using assms(1) hand sum_list_drop_nth[OF hand(1), of credit] by (auto simp: counted_def)
qed (use assms(1) in \<open>auto simp: counted_def\<close>)

lemma calls_left: "j < length xs \<Longrightarrow> image_mset (\<lambda>x. (x, e)) (mset xs) = add_mset (xs ! j, e) (image_mset (\<lambda>x. (x, e)) (mset (drop_nth j xs)))"
  using mset_drop_nth[of j xs] by (metis image_mset_add_mset)

lemma called_step:
  assumes "called d" and "dispatcher_step a d = Continues d'"
  shows "called d'"
  using assms(2)
proof (cases rule: worker_step_cases)
  case (publisher i)
  from publisher(2) show ?thesis
    by (cases rule: publisher_cases) (use assms(1) in \<open>simp_all add: called_def in_flight_def channel_send_def\<close>)
next
  case (hand i k e)
  let ?d = "d\<lparr>dp_pubs := drop_nth i (dp_pubs d), dp_sent := dp_sent d @ [e], dp_received := dp_received d @ [e]\<rparr>"
  show ?thesis using assms(1) hand worker_moves(1)[where k = k and d = ?d and e = e and ss = "dp_sinks d"] worker_moves(2)[where k = k and d = ?d and e = e and ss = "dp_sinks d"] worker_moves(3)[where k = k and d = ?d and e = e and ss = "dp_sinks d" and xs = "dp_exporters d"] unfolding called_def hand(6)
    by (simp add: in_flight_def)
next
  case (receive k e rest)
  let ?d = "d\<lparr>dp_eventCh := rest, dp_received := dp_received d @ [e]\<rparr>"
  show ?thesis using assms(1) receive worker_moves(1)[where k = k and d = ?d and e = e and ss = "dp_sinks d"] worker_moves(2)[where k = k and d = ?d and e = e and ss = "dp_sinks d"] worker_moves(3)[where k = k and d = ?d and e = e and ss = "dp_sinks d" and xs = "dp_exporters d"] unfolding called_def receive(4)
    by (simp add: in_flight_def)
next
  case (exit k)
  then show ?thesis using assms(1) sum_list_update[OF exit(1), of worker_event Exited] sum_list_update[OF exit(1), of sinks_left Exited]
    sum_list_update[OF exit(1), of "exporters_left (dp_exporters d)" Exited]
    by (simp add: called_def in_flight_def)
next
  case (sink k e ss j n)
  let ?d = "d\<lparr>dp_sinkCalls := dp_sinkCalls d @ [(ss ! j, e)], dp_sinkFailureCount := n\<rparr>"
  have "in_flight d' + mset (dp_done d') = in_flight d + mset (dp_done d)"
    using worker_moves(1)[of k ?d e "drop_nth j ss"] sink by (simp add: in_flight_def)
  moreover have "sum_list (map sinks_left (dp_workers d)) = add_mset (ss ! j, e) (sum_list (map sinks_left (dp_workers d')))"
    using worker_moves(2)[of k ?d e "drop_nth j ss"] sink calls_left[OF sink(3), of e] by simp
  moreover have "sum_list (map (exporters_left (dp_exporters d)) (dp_workers d')) = sum_list (map (exporters_left (dp_exporters d)) (dp_workers d))"
    using worker_moves(3)[where k = k and d = ?d and e = e and ss = "drop_nth j ss" and xs = "dp_exporters d"] sink by (simp split: if_splits)
  moreover have "dp_sinkCalls d' = dp_sinkCalls d @ [(ss ! j, e)]" "dp_sinks d' = dp_sinks d" "dp_exporters d' = dp_exporters d"
    "dp_exporterCalls d' = dp_exporterCalls d" using sink(4) by simp_all
  ultimately show ?thesis using assms(1) by (simp add: called_def)
next
  case (exporter k e es j n)
  let ?d = "d\<lparr>dp_exporterCalls := dp_exporterCalls d @ [(es ! j, e)], dp_exporterFailureCount := n\<rparr>"
  have "in_flight d' + mset (dp_done d') = in_flight d + mset (dp_done d)"
    using worker_moves(4)[of k ?d e "drop_nth j es"] exporter by (simp add: in_flight_def)
  moreover have "sum_list (map sinks_left (dp_workers d')) = sum_list (map sinks_left (dp_workers d))"
    using worker_moves(5)[of k ?d e "drop_nth j es"] exporter by simp
  moreover have "sum_list (map (exporters_left (dp_exporters d)) (dp_workers d)) = add_mset (es ! j, e) (sum_list (map (exporters_left (dp_exporters d)) (dp_workers d')))"
    using worker_moves(6)[where k = k and d = ?d and e = e and es = "drop_nth j es" and xs = "dp_exporters d"] exporter calls_left[OF exporter(3), of e] by simp
  moreover have "dp_exporterCalls d' = dp_exporterCalls d @ [(es ! j, e)]" "dp_sinks d' = dp_sinks d" "dp_exporters d' = dp_exporters d"
    "dp_sinkCalls d' = dp_sinkCalls d" using exporter(4) by simp_all
  ultimately show ?thesis using assms(1) by (simp add: called_def)
qed (use assms(1) in \<open>simp_all add: called_def in_flight_def\<close>)

lemma worker_ok_update: "list_all worker_ok ws \<Longrightarrow> worker_ok w \<Longrightarrow> list_all worker_ok (ws[k := w])"
  by (auto simp: list_all_iff dest!: set_update_subset_insert[THEN subsetD])

lemma settled_step:
  assumes "settled d" and "dispatcher_step a d = Continues d'"
  shows "settled d'"
  using assms(2)
proof (cases rule: worker_step_cases)
  case (publisher i)
  from publisher(2) show ?thesis by (cases rule: publisher_cases) (use assms(1) in \<open>simp_all add: settled_def channel_send_def\<close>)
qed (use assms(1) in \<open>auto simp: settled_def next_sinks_def next_exporters_def intro!: worker_ok_update\<close>)

section \<open>Order\<close>

fun held_events :: "Worker \<Rightarrow> ObsEvent list" where
  "held_events (ToSinks e ss) = [e]"
| "held_events (ToExporters e es) = [e]"
| "held_events _ = []"

definition fifo :: "Dispatcher \<Rightarrow> bool" where
  "fifo d \<longleftrightarrow> (\<forall>w. dp_workers d = [w] \<longrightarrow> subseq (dp_done d @ held_events w) (dp_received d))"

lemma subseq_snoc: "subseq xs ys \<Longrightarrow> subseq xs (ys @ [y])" "subseq xs ys \<Longrightarrow> subseq (xs @ [y]) (ys @ [y])"
  by (simp_all add: list_emb_append_mono subseq_rev_drop_many)

lemma next_length [simp]: "length (dp_workers (next_sinks k e ss d)) = length (dp_workers d)"
    "length (dp_workers (next_exporters k e ss d)) = length (dp_workers d)"
  by (simp_all add: next_sinks_def next_exporters_def)

lemma next_held:
  assumes "dp_workers d = [v]"
  shows "dp_workers (next_sinks 0 e ss d) = [w] \<Longrightarrow> dp_done (next_sinks 0 e ss d) @ held_events w = dp_done d @ [e]"
    and "dp_workers (next_exporters 0 e ss d) = [w] \<Longrightarrow> dp_done (next_exporters 0 e ss d) @ held_events w = dp_done d @ [e]"
  using assms by (auto simp: next_sinks_def next_exporters_def split: if_splits)

lemma fifo_step:
  assumes "fifo d" and "dispatcher_step a d = Continues d'"
  shows "fifo d'"
  unfolding fifo_def
proof (intro allI impI)
  fix w
  assume w: "dp_workers d' = [w]"
  show "subseq (dp_done d' @ held_events w) (dp_received d')"
    using assms(2)
  proof (cases rule: worker_step_cases)
    case (publisher i)
    from publisher(2) show ?thesis
      by (cases rule: publisher_cases) (use assms(1) w in \<open>auto simp: fifo_def channel_send_def subseq_snoc(1)\<close>)
  next
    case (hand i k e)
    let ?d = "d\<lparr>dp_pubs := drop_nth i (dp_pubs d), dp_sent := dp_sent d @ [e], dp_received := dp_received d @ [e]\<rparr>"
    have "length (dp_workers d) = 1" using arg_cong[OF w, of length] hand(6) by simp
    then have one: "dp_workers d = [Waiting]" "k = 0" using hand(2,3) by (auto simp: length_Suc_conv)
    from next_held(1)[of ?d Waiting e "dp_sinks d" w] one w hand(6) have "dp_done d' @ held_events w = dp_done d @ [e]" by simp
    moreover have "dp_received d' = dp_received d @ [e]" using hand(6) by simp
    ultimately show ?thesis using assms(1) one by (simp add: fifo_def subseq_snoc(2))
  next
    case (receive k e rest)
    let ?d = "d\<lparr>dp_eventCh := rest, dp_received := dp_received d @ [e]\<rparr>"
    have "length (dp_workers d) = 1" using arg_cong[OF w, of length] receive(4) by simp
    then have one: "dp_workers d = [Waiting]" "k = 0" using receive(1,2) by (auto simp: length_Suc_conv)
    from next_held(1)[of ?d Waiting e "dp_sinks d" w] one w receive(4) have "dp_done d' @ held_events w = dp_done d @ [e]" by simp
    moreover have "dp_received d' = dp_received d @ [e]" using receive(4) by simp
    ultimately show ?thesis using assms(1) one by (simp add: fifo_def subseq_snoc(2))
  next
    case (exit k)
    have "length (dp_workers d) = 1" using arg_cong[OF w, of length] exit(3) by simp
    then have "dp_workers d = [Waiting]" "w = Exited" using exit w by (auto simp: length_Suc_conv)
    then show ?thesis using assms(1) exit(3) by (simp add: fifo_def)
  next
    case (sink k e ss j n)
    let ?d = "d\<lparr>dp_sinkCalls := dp_sinkCalls d @ [(ss ! j, e)], dp_sinkFailureCount := n\<rparr>"
    have "length (dp_workers d) = 1" using arg_cong[OF w, of length] sink(4) by simp
    then have one: "dp_workers d = [ToSinks e ss]" "k = 0" using sink(1,2) by (auto simp: length_Suc_conv)
    from next_held(1)[of ?d "ToSinks e ss" e "drop_nth j ss" w] one w sink(4) have "dp_done d' @ held_events w = dp_done d @ [e]" by simp
    moreover have "dp_received d' = dp_received d" using sink(4) by simp
    ultimately show ?thesis using assms(1) one by (simp add: fifo_def)
  next
    case (exporter k e es j n)
    let ?d = "d\<lparr>dp_exporterCalls := dp_exporterCalls d @ [(es ! j, e)], dp_exporterFailureCount := n\<rparr>"
    have "length (dp_workers d) = 1" using arg_cong[OF w, of length] exporter(4) by simp
    then have one: "dp_workers d = [ToExporters e es]" "k = 0" using exporter(1,2) by (auto simp: length_Suc_conv)
    from next_held(2)[of ?d "ToExporters e es" e "drop_nth j es" w] one w exporter(4) have "dp_done d' @ held_events w = dp_done d @ [e]" by simp
    moreover have "dp_received d' = dp_received d" using exporter(4) by simp
    ultimately show ?thesis using assms(1) one by (simp add: fifo_def)
  qed (use assms(1) w in \<open>auto simp: fifo_def\<close>)
qed

section \<open>Reachable states\<close>

definition dispatcher_inv :: "Dispatcher \<Rightarrow> bool" where
  "dispatcher_inv d \<longleftrightarrow> conserved d \<and> in_order d \<and> counted d \<and> called d \<and> settled d \<and> fifo d"

lemma dispatcher_inv_step: "dispatcher_inv d \<Longrightarrow> dispatcher_step a d = Continues d' \<Longrightarrow> dispatcher_inv d'"
  unfolding dispatcher_inv_def using conserved_step in_order_step counted_step called_step settled_step fifo_step by blast

lemma sum_replicate_empty [simp]: "sum_list (replicate n {#}) = {#}"
  by (induction n) auto

lemma dispatcher_inv_New:
  assumes "NewDispatcher opts = Some d"
  shows "dispatcher_inv d"
proof -
  have "list_all worker_ok (replicate n Waiting)" for n by (simp add: list_all_length)
  moreover have "replicate n Waiting = [w] \<Longrightarrow> held_events w = []" for n w by (cases n) auto
  ultimately show ?thesis using assms
    by (auto simp: NewDispatcher_def Let_def dispatcher_inv_def conserved_def in_order_def counted_def called_def settled_def fifo_def
      pending_def in_flight_def map_replicate_const split: if_splits)
qed

lemma dispatches_inv: "dispatches d as d' \<Longrightarrow> dispatcher_inv d \<Longrightarrow> dispatcher_inv d'"
  by (induction rule: dispatches.induct) (auto intro: dispatcher_inv_step)

lemma dispatches_append: "dispatches d1 bs d2 \<Longrightarrow> dispatches d as d1 \<Longrightarrow> dispatches d (as @ bs) d2"
proof (induction rule: dispatches.induct)
  case (dispatches_step d1 bs d2 a d3)
  then show ?case using dispatches.dispatches_step by (metis append_assoc)
qed simp

section \<open>After Shutdown\<close>

fun worker_work :: "nat \<Rightarrow> Worker \<Rightarrow> nat" where
  "worker_work x Exited = 0"
| "worker_work x Waiting = 1"
| "worker_work x (ToExporters e es) = 1 + length es"
| "worker_work x (ToSinks e ss) = 1 + length ss + x"

text \<open>How many steps the workers can still take once the channel is closed.\<close>

definition work_left :: "Dispatcher \<Rightarrow> nat" where
  "work_left d = sum_list (map (worker_work (length (dp_exporters d))) (dp_workers d))
     + length (dp_eventCh d) * (length (dp_sinks d) + length (dp_exporters d) + 1)"

fun worker_action :: "action \<Rightarrow> bool" where
  "worker_action (Receive k) = True"
| "worker_action (Done k) = True"
| "worker_action (SinkReturns k j f) = True"
| "worker_action (ExporterReturns k j f) = True"
| "worker_action _ = False"

lemma next_work:
  assumes "k < length (dp_workers d)" and "x = length (dp_exporters d)"
  shows "sum_list (map (worker_work x) (dp_workers (next_sinks k e ss d))) + worker_work x (dp_workers d ! k)
      = sum_list (map (worker_work x) (dp_workers d)) + 1 + length ss + x"
    and "sum_list (map (worker_work x) (dp_workers (next_exporters k e ss d))) + worker_work x (dp_workers d ! k)
      = sum_list (map (worker_work x) (dp_workers d)) + 1 + length ss"
  using sum_list_update[OF assms(1), of "worker_work x"] assms(2) by (auto simp: next_sinks_def next_exporters_def)

lemma length_drop_nth: "j < length xs \<Longrightarrow> length (drop_nth j xs) + 1 = length xs"
  by (simp add: drop_nth_def)

lemma closed_step:
  assumes "dispatcher_step a d = Continues d'" and "dp_chClosed d"
  shows "dp_chClosed d' \<and> (if worker_action a then work_left d' < work_left d else work_left d' \<le> work_left d)"
proof (cases a)
  case (Pub i)
  then show ?thesis using assms by (auto simp: publisher_step_def Let_def work_left_def split: if_splits Publisher.splits list.splits DropPolicy.splits)
next
  case (Receive k)
  then have k: "k < length (dp_workers d)" "dp_workers d ! k = Waiting" using assms(1) by (auto simp: worker_receive_def split: if_splits)
  show ?thesis
  proof (cases "dp_eventCh d")
    case Nil
    then have "d' = d\<lparr>dp_workers := (dp_workers d)[k := Exited]\<rparr>" using Receive assms k by (simp add: worker_receive_def)
    then show ?thesis using assms(2) Receive k sum_list_update[OF k(1), of "worker_work (length (dp_exporters d))" Exited] by (simp add: work_left_def)
  next
    case (Cons e rest)
    let ?d = "d\<lparr>dp_eventCh := rest, dp_received := dp_received d @ [e]\<rparr>"
    have "d' = next_sinks k e (dp_sinks d) ?d" using Cons Receive assms k by (simp add: worker_receive_def)
    then show ?thesis using assms(2) Receive k Cons next_work(1)[of k ?d "length (dp_exporters d)" e "dp_sinks d"] by (simp add: work_left_def)
  qed
next
  case (Done k)
  then have k: "k < length (dp_workers d)" "dp_workers d ! k = Waiting" "d' = d\<lparr>dp_workers := (dp_workers d)[k := Exited]\<rparr>"
    using assms(1) by (auto simp: worker_done_def split: if_splits)
  then show ?thesis using assms(2) Done sum_list_update[OF k(1), of "worker_work (length (dp_exporters d))" Exited] by (simp add: work_left_def)
next
  case (SinkReturns k j f)
  then obtain e ss where w: "k < length (dp_workers d)" "dp_workers d ! k = ToSinks e ss" "j < length ss"
    using assms(1) by (auto simp: sink_returns_def split: if_splits Worker.splits)
  let ?d = "d\<lparr>dp_sinkCalls := dp_sinkCalls d @ [(ss ! j, e)], dp_sinkFailureCount := dp_sinkFailureCount d + (if f then 1 else 0)\<rparr>"
  have "d' = next_sinks k e (drop_nth j ss) ?d" using w SinkReturns assms(1) by (simp add: sink_returns_def)
  then show ?thesis using assms(2) SinkReturns w length_drop_nth[OF w(3)] next_work(1)[of k ?d "length (dp_exporters d)" e "drop_nth j ss"]
    by (simp add: work_left_def)
next
  case (ExporterReturns k j f)
  then obtain e es where w: "k < length (dp_workers d)" "dp_workers d ! k = ToExporters e es" "j < length es"
    using assms(1) by (auto simp: exporter_returns_def split: if_splits Worker.splits)
  let ?d = "d\<lparr>dp_exporterCalls := dp_exporterCalls d @ [(es ! j, e)], dp_exporterFailureCount := dp_exporterFailureCount d + (if f then 1 else 0)\<rparr>"
  have "d' = next_exporters k e (drop_nth j es) ?d" using w ExporterReturns assms(1) by (simp add: exporter_returns_def)
  then show ?thesis using assms(2) ExporterReturns w length_drop_nth[OF w(3)] next_work(2)[of k ?d "length (dp_exporters d)" e "drop_nth j es"]
    by (simp add: work_left_def)
qed (use assms in \<open>auto simp: rendezvous_def shutdown_cancel_def shutdown_close_def work_left_def split: if_splits\<close>)

lemma closed_run:
  "dispatches d as d' \<Longrightarrow> dp_chClosed d \<Longrightarrow> dp_chClosed d' \<and> length (filter worker_action as) + work_left d' \<le> work_left d"
proof (induction rule: dispatches.induct)
  case (dispatches_step d as d1 a d2)
  then show ?case using closed_step[OF dispatches_step(2)] by (auto split: if_splits)
qed simp

text \<open>A worker that has not ended can always take a step once the channel is closed.\<close>

lemma worker_enabled:
  assumes "dispatcher_inv d" and "dp_chClosed d" and "k < length (dp_workers d)" and "dp_workers d ! k \<noteq> Exited"
  shows "\<exists>a d'. worker_action a \<and> dispatcher_step a d = Continues d'"
proof (cases "dp_workers d ! k")
  case Waiting
  then have "dispatcher_step (Done k) d = Continues (d\<lparr>dp_workers := (dp_workers d)[k := Exited]\<rparr>)"
    using assms(1-3) by (simp add: worker_done_def dispatcher_inv_def settled_def)
  then show ?thesis using worker_action.simps(2) by blast
next
  case (ToSinks e ss)
  then have "ss \<noteq> []" using assms(1,3) by (force simp: dispatcher_inv_def settled_def list_all_length)
  then have "\<exists>d'. dispatcher_step (SinkReturns k 0 False) d = Continues d'" using ToSinks assms(3) by (simp add: sink_returns_def)
  then show ?thesis using worker_action.simps(3) by blast
next
  case (ToExporters e es)
  then have "es \<noteq> []" using assms(1,3) by (force simp: dispatcher_inv_def settled_def list_all_length)
  then have "\<exists>d'. dispatcher_step (ExporterReturns k 0 False) d = Continues d'" using ToExporters assms(3) by (simp add: exporter_returns_def)
  then show ?thesis using worker_action.simps(4) by blast
qed (use assms in simp)

end
