(* ===== verification/Observe_Props.thy ===== *)
theory Observe_Props
  imports Observe_Correct
begin

text \<open>
  What the dispatcher guarantees, for every set of options and every interleaving of publishers, workers and \<^verbatim>\<open>Shutdown\<close> calls.
\<close>

section \<open>An example\<close>

definition ex_event :: "string \<Rightarrow> ObsEvent" where
  "ex_event i = (blank_event EventReleased)\<lparr>oe_RequestID := i, oe_Timestamp := 7\<rparr>"

definition ex_new :: "DropPolicy \<Rightarrow> Dispatcher" where
  "ex_new p = the (NewDispatcher [WithBufferSize 1, WithWorkerCount 1, WithDropPolicy p, WithSink 4, WithExporter 5])"

fun run_actions :: "action list \<Rightarrow> Dispatcher \<Rightarrow> Dispatcher option" where
  "run_actions [] d = Some d"
| "run_actions (a # as) d = (case dispatcher_step a d of Continues d' \<Rightarrow> run_actions as d' | _ \<Rightarrow> None)"

lemma run_actions_dispatches: "run_actions as d = Some d' \<Longrightarrow> dispatches d as d'"
proof (induction as arbitrary: d)
  case (Cons a as)
  then obtain d1 where "dispatcher_step a d = Continues d1" "run_actions as d1 = Some d'" by (auto split: outcome.splits)
  with Cons.IH dispatches_append[OF _ dispatches_step[OF dispatches_start]] show ?case by fastforce
qed (simp add: dispatches_start)

lemma ex_new_Some: "NewDispatcher [WithBufferSize 1, WithWorkerCount 1, WithDropPolicy p, WithSink 4, WithExporter 5] = Some (ex_new p)"
  by (simp add: ex_new_def NewDispatcher_def buildConfig_def)

section \<open>Properties\<close>

text \<open>
  C34. The dispatcher loses no event silently. In every reachable state the buffer keeps its bound; every published event is in exactly one
  place, as often as it was published: with a publisher, in the buffer, with a worker, delivered, or lost; events leave the channel in
  the order in which they entered it; at most two events are lost per counted drop, and exactly one under the drop-newest policy.
\<close>

theorem dispatcher_accounts:
  assumes "NewDispatcher opts = Some d0" and "dispatches d0 as d"
  shows "length (dp_eventCh d) \<le> dp_cap d
    \<and> mset (dp_published d) = mset (map pub_event (dp_pubs d)) + mset (dp_eventCh d) + in_flight d + mset (dp_done d) + mset (dp_lost d)
    \<and> dp_sent d = dp_received d @ dp_eventCh d
    \<and> int (length (dp_lost d)) \<le> 2 * dp_droppedCount d
    \<and> (dp_dropPolicy d = DropPolicyDropNewest \<longrightarrow> int (length (dp_lost d)) = dp_droppedCount d)"
  using dispatches_inv[OF assms(2) dispatcher_inv_New[OF assms(1)]]
  by (auto simp: dispatcher_inv_def conserved_def in_order_def counted_def pending_def)

text \<open>
  Two publishers race for the slot that one of them freed: both the old event and the new one are lost, and the counter says one.
\<close>

definition ex_race :: "action list" where
  "ex_race = [Publish (ex_event ''a'') 0, Pub 0, Publish (ex_event ''b'') 0, Pub 0, Pub 0, Pub 0, Publish (ex_event ''c'') 0, Pub 1, Pub 0]"

theorem dispatcher_accounts_witness:
  "\<exists>d. run_actions ex_race (ex_new DropPolicyDropOldest) = Some d \<and> length (dp_lost d) = 2 \<and> dp_droppedCount d = 1
     \<and> int (length (dp_lost d)) \<le> 2 * dp_droppedCount d"
proof -
  have "map_option (\<lambda>d. (length (dp_lost d), dp_droppedCount d)) (run_actions ex_race (ex_new DropPolicyDropOldest)) = Some (2, 1)" by code_simp
  then obtain d where d: "run_actions ex_race (ex_new DropPolicyDropOldest) = Some d" "length (dp_lost d) = 2" "dp_droppedCount d = 1" by auto
  from dispatcher_accounts[OF ex_new_Some run_actions_dispatches[OF d(1)]] d show ?thesis by blast
qed

text \<open>
  A delivered event went everywhere. In every reachable state whose workers hold no event, the calls of the sinks are exactly one per
  delivered event and sink, and those of the exporters one per delivered event and exporter. With a single worker the events are
  delivered in the order in which they were sent.
\<close>

theorem dispatcher_delivers:
  assumes "NewDispatcher opts = Some d0" and "dispatches d0 as d" and "list_all (\<lambda>w. w \<in> {Waiting, Exited}) (dp_workers d)"
  shows "mset (dp_sinkCalls d) = calls_for (dp_sinks d) (mset (dp_done d))
    \<and> mset (dp_exporterCalls d) = calls_for (dp_exporters d) (mset (dp_done d))
    \<and> (length (dp_workers d) = 1 \<longrightarrow> subseq (dp_done d) (dp_sent d))"
proof -
  have inv: "called d" "fifo d" "in_order d"
    using dispatches_inv[OF assms(2) dispatcher_inv_New[OF assms(1)]] by (simp_all add: dispatcher_inv_def)
  have idle: "list_all (\<lambda>w. w \<in> {Waiting, Exited}) ws \<Longrightarrow> sum_list (map worker_event ws) = {#}"
    "list_all (\<lambda>w. w \<in> {Waiting, Exited}) ws \<Longrightarrow> sum_list (map sinks_left ws) = {#}"
    "list_all (\<lambda>w. w \<in> {Waiting, Exited}) ws \<Longrightarrow> sum_list (map (exporters_left xs) ws) = {#}" for ws xs
    by (induction ws) auto
  have "subseq (dp_done d) (dp_sent d)" if one: "length (dp_workers d) = 1"
  proof -
    obtain w where "dp_workers d = [w]" using one by (cases "dp_workers d") auto
    then have "subseq (dp_done d) (dp_received d)" using inv(2) assms(3) by (auto simp: fifo_def)
    then show ?thesis using inv(3) by (metis in_order_def list_emb_append2 list_emb_append_mono list_emb_Nil append_Nil2)
  qed
  then show ?thesis using inv(1) idle[OF assms(3)] by (simp add: called_def in_flight_def)
qed

definition ex_delivery :: "action list" where
  "ex_delivery = [Publish (ex_event ''a'') 0, Pub 0, Receive 0, SinkReturns 0 0 True, ExporterReturns 0 0 False]"

theorem dispatcher_delivers_witness:
  "\<exists>d. run_actions ex_delivery (ex_new DropPolicyDropOldest) = Some d \<and> dp_done d = [ex_event ''a'']
     \<and> mset (dp_sinkCalls d) = {#(4, ex_event ''a'')#}"
proof -
  have "map_option (\<lambda>d. (dp_done d, dp_workers d, dp_sinks d)) (run_actions ex_delivery (ex_new DropPolicyDropOldest)) = Some ([ex_event ''a''], [Waiting], [4])"
    by code_simp
  then obtain d where d: "run_actions ex_delivery (ex_new DropPolicyDropOldest) = Some d" "dp_done d = [ex_event ''a'']" "dp_workers d = [Waiting]" "dp_sinks d = [4]"
    by auto
  from dispatcher_delivers[OF ex_new_Some run_actions_dispatches[OF d(1)]] d show ?thesis by simp
qed

text \<open>
  C35. \<^verbatim>\<open>Shutdown\<close> ends. From a reachable state in which the channel is closed, every run has at most \<open>work_left\<close> worker steps; as long as
  \<^verbatim>\<open>Shutdown\<close> cannot return without an error, some worker can take a step. So it returns once the sinks and exporters return.
\<close>

theorem dispatcher_drains:
  assumes "NewDispatcher opts = Some d0" and "dispatches d0 as d" and "dp_chClosed d" and "dispatches d bs d'"
  shows "length (filter worker_action bs) \<le> work_left d
    \<and> (shutdown_returns None d' None \<or> (\<exists>a d2. worker_action a \<and> dispatcher_step a d' = Continues d2))"
proof -
  have inv: "dispatcher_inv d'" using dispatches_inv[OF assms(4) dispatches_inv[OF assms(2) dispatcher_inv_New[OF assms(1)]]] .
  have "\<exists>a d2. worker_action a \<and> dispatcher_step a d' = Continues d2" if no: "\<not> shutdown_returns None d' None"
  proof -
    obtain k where "k < length (dp_workers d')" "dp_workers d' ! k \<noteq> Exited" using no by (auto simp: shutdown_returns_def list_all_length)
    then show ?thesis using worker_enabled[OF inv] closed_run[OF assms(4,3)] by blast
  qed
  then show ?thesis using closed_run[OF assms(4,3)] by auto
qed

definition ex_closing :: "action list" where
  "ex_closing = [Publish (ex_event ''a'') 0, Pub 0, ShutdownCancel, ShutdownClose]"

theorem dispatcher_drains_witness:
  "\<exists>d. run_actions ex_closing (ex_new DropPolicyDropOldest) = Some d \<and> \<not> shutdown_returns None d None
     \<and> (\<exists>a d2. worker_action a \<and> dispatcher_step a d = Continues d2)"
proof -
  have "map_option (\<lambda>d. (dp_chClosed d, dp_workers d)) (run_actions ex_closing (ex_new DropPolicyDropOldest)) = Some (True, [Waiting])" by code_simp
  then obtain d where d: "run_actions ex_closing (ex_new DropPolicyDropOldest) = Some d" "dp_chClosed d" "dp_workers d = [Waiting]" by auto
  have "\<not> shutdown_returns None d None" using d(3) by (simp add: shutdown_returns_def)
  with dispatcher_drains[OF ex_new_Some run_actions_dispatches[OF d(1)] d(2) dispatches_start] d show ?thesis by blast
qed

lemma closed_publish:
  assumes "dp_chClosed d"
  shows "\<exists>d2. dispatcher_step (Publish e now) d = Continues d2 \<and> dispatcher_step (Pub (length (dp_pubs d))) d2 = Panics ''send on closed channel''"
  using assms by (simp add: publisher_step_def)

lemma exit_next: "(replicate k x @ y # ys)[k := x] = replicate (Suc k) x @ ys"
  by (induction k) auto

text \<open>
  C36. \<^verbatim>\<open>Shutdown\<close> does not flush, and publishing must have stopped. From every reachable state whose workers all wait and whose dispatcher
  is open, there is a run in which \<^verbatim>\<open>Shutdown\<close> returns without an error while all buffered events stay undelivered and uncounted; and
  once the channel is closed, a call of \<^verbatim>\<open>Publish\<close> panics.
\<close>

theorem shutdown_hazards:
  assumes "NewDispatcher opts = Some d0" and "dispatches d0 as d" and "list_all (\<lambda>w. w = Waiting) (dp_workers d)" and "\<not> dp_closed d" and "\<not> dp_mu d"
  shows "\<exists>bs d'. dispatches d bs d' \<and> shutdown_returns None d' None \<and> dp_eventCh d' = dp_eventCh d \<and> dp_done d' = dp_done d
    \<and> dp_droppedCount d' = dp_droppedCount d
    \<and> (\<exists>d2. dispatcher_step (Publish e now) d' = Continues d2 \<and> dispatcher_step (Pub (length (dp_pubs d'))) d2 = Panics ''send on closed channel'')"
proof -
  let ?d = "d\<lparr>dp_mu := False, dp_closed := True, dp_cancelled := True, dp_chClosed := True\<rparr>"
  let ?w = "\<lambda>k. ?d\<lparr>dp_workers := replicate k Exited @ drop k (dp_workers d)\<rparr>"
  have close: "dispatches d [ShutdownCancel, ShutdownClose] ?d"
    using assms(4,5) by (intro run_actions_dispatches) (simp add: shutdown_cancel_def shutdown_close_def)
  have "k \<le> length (dp_workers d) \<Longrightarrow> dispatches ?d (map Done [0..<k]) (?w k)" for k
  proof (induction k)
    case (Suc k)
    have w: "drop k (dp_workers d) = Waiting # drop (Suc k) (dp_workers d)"
      using assms(3) Suc.prems Cons_nth_drop_Suc[of k "dp_workers d"] by (simp add: list_all_length)
    have "length (dp_workers (?w k)) = length (dp_workers d)" "dp_workers (?w k) ! k = Waiting"
      "(dp_workers (?w k))[k := Exited] = dp_workers (?w (Suc k))" using Suc.prems by (simp_all add: w exit_next nth_append)
    then have "dispatcher_step (Done k) (?w k) = Continues (?w (Suc k))" using Suc.prems by (simp add: worker_done_def)
    from dispatches_step[OF Suc.IH this] Suc.prems show ?case by simp
  qed (simp add: dispatches_start)
  from dispatches_append[OF this[OF order_refl] close]
  have run: "dispatches d ([ShutdownCancel, ShutdownClose] @ map Done [0..<length (dp_workers d)]) (?w (length (dp_workers d)))" .
  show ?thesis
    by (intro exI[of _ "[ShutdownCancel, ShutdownClose] @ map Done [0..<length (dp_workers d)]"] exI[of _ "?w (length (dp_workers d))"] conjI run closed_publish)
      (simp_all add: shutdown_returns_def list_all_length)
qed

theorem shutdown_hazards_witness:
  "\<exists>d bs d'. run_actions [Publish (ex_event ''a'') 0, Pub 0] (ex_new DropPolicyDropOldest) = Some d \<and> dp_eventCh d = [ex_event ''a'']
     \<and> dispatches d bs d' \<and> shutdown_returns None d' None \<and> dp_eventCh d' = [ex_event ''a'']"
proof -
  have "map_option (\<lambda>d. (dp_eventCh d, dp_workers d, dp_closed d, dp_mu d)) (run_actions [Publish (ex_event ''a'') 0, Pub 0] (ex_new DropPolicyDropOldest))
      = Some ([ex_event ''a''], [Waiting], False, False)" by code_simp
  then obtain d where d: "run_actions [Publish (ex_event ''a'') 0, Pub 0] (ex_new DropPolicyDropOldest) = Some d"
    "dp_eventCh d = [ex_event ''a'']" "dp_workers d = [Waiting]" "\<not> dp_closed d" "\<not> dp_mu d" by auto
  from shutdown_hazards[OF ex_new_Some run_actions_dispatches[OF d(1)] _ d(4,5), of "ex_event ''b''" 9] d(3)
  obtain bs d' where "dispatches d bs d'" "shutdown_returns None d' None" "dp_eventCh d' = dp_eventCh d" by auto
  with d(1,2) show ?thesis by metis
qed

end
