(* ===== verification/Inspect.thy ===== *)
theory Inspect
  imports Observe Strconv
begin

text \<open>
  The inspect store and its HTTP handlers: \<^verbatim>\<open>src/inspect/store.go\<close>, \<^verbatim>\<open>types.go\<close>, \<^verbatim>\<open>http.go\<close>. Locks make every method one atomic step. A
  subscriber's channel is named by a number and holds its capacity and the events buffered in it.
\<close>

section \<open>Views\<close>

record LockInfo =
  li_DefinitionID :: string
  li_ResourceID :: string
  li_OwnerID :: string
  li_At :: time

text \<open>\<^verbatim>\<open>RuntimeLockInfo\<close>, \<^verbatim>\<open>WorkerClaimInfo\<close> and \<^verbatim>\<open>RenewalInfo\<close> have the same fields; the time is \<^verbatim>\<open>AcquiredAt\<close>, \<^verbatim>\<open>ClaimedAt\<close>, \<^verbatim>\<open>LastRenewed\<close>.\<close>

type_synonym RuntimeLockInfo = LockInfo
type_synonym WorkerClaimInfo = LockInfo
type_synonym RenewalInfo = LockInfo

record ShutdownInfo =
  si_Started :: bool
  si_Completed :: bool

record PipelineState =
  ps_DropPolicy :: string
  ps_BufferSize :: int
  ps_DroppedCount :: int
  ps_SinkFailureCount :: int
  ps_ExporterFailureCount :: int

record Snapshot =
  sn_RuntimeLocks :: "RuntimeLockInfo list"
  sn_WorkerClaims :: "WorkerClaimInfo list"
  sn_Renewals :: "RenewalInfo list"
  sn_Shutdown :: ShutdownInfo
  sn_Pipeline :: PipelineState

record QueryOptions =
  qo_DefinitionID :: string
  qo_ResourceID :: string
  qo_OwnerID :: string
  qo_Kind :: EventKind
  qo_Since :: time
  qo_Until :: time

section \<open>The store\<close>

record InspectStore =
  is_runtimeLocks :: "(string, RuntimeLockInfo) gomap"
  is_workerClaims :: "(string, WorkerClaimInfo) gomap"
  is_renewals :: "(string, RenewalInfo) gomap"
  is_shutdown :: ShutdownInfo
  is_pipeline :: PipelineState
  is_history :: "ObsEvent list"
  is_historyCap :: nat
  is_historyHead :: nat
  is_historyLen :: nat
  is_subs :: "(nat, nat \<times> ObsEvent list) gomap"

definition defaultHistoryLimit :: nat where
  "defaultHistoryLimit = 500"

definition WithHistoryLimit :: "int \<Rightarrow> InspectStore \<Rightarrow> InspectStore" where
  "WithHistoryLimit n s =
     (if n > 0 then s\<lparr>is_historyCap := nat n, is_history := replicate (nat n) (blank_event NoKind)\<rparr> else s)"

text \<open>The only options are history limits.\<close>

definition NewInspectStore :: "int list \<Rightarrow> InspectStore" where
  "NewInspectStore limits = fold WithHistoryLimit limits
     \<lparr>is_runtimeLocks = [], is_workerClaims = [], is_renewals = [], is_shutdown = \<lparr>si_Started = False, si_Completed = False\<rparr>,
      is_pipeline = \<lparr>ps_DropPolicy = [], ps_BufferSize = 0, ps_DroppedCount = 0, ps_SinkFailureCount = 0, ps_ExporterFailureCount = 0\<rparr>,
      is_history = replicate defaultHistoryLimit (blank_event NoKind), is_historyCap = defaultHistoryLimit, is_historyHead = 0, is_historyLen = 0,
      is_subs = []\<rparr>"

definition lockKey :: "string \<Rightarrow> string \<Rightarrow> string \<Rightarrow> string" where
  "lockKey definitionID resourceID ownerID = definitionID @ '':'' @ resourceID @ '':'' @ ownerID"

definition event_key :: "ObsEvent \<Rightarrow> string" where
  "event_key e = lockKey (oe_DefinitionID e) (oe_ResourceID e) (oe_OwnerID e)"

definition event_info :: "ObsEvent \<Rightarrow> LockInfo" where
  "event_info e = \<lparr>li_DefinitionID = oe_DefinitionID e, li_ResourceID = oe_ResourceID e, li_OwnerID = oe_OwnerID e, li_At = oe_Timestamp e\<rparr>"

definition applyEventLocked :: "ObsEvent \<Rightarrow> InspectStore \<Rightarrow> InspectStore" where
  "applyEventLocked e s = (let key = event_key e in case oe_Kind e of
     EventAcquireSucceeded \<Rightarrow> s\<lparr>is_runtimeLocks := mput key (event_info e) (is_runtimeLocks s), is_workerClaims := mdel key (is_workerClaims s)\<rparr>
   | EventAcquireFailed \<Rightarrow> s\<lparr>is_workerClaims := mdel key (is_workerClaims s)\<rparr>
   | EventAcquireStarted \<Rightarrow> s\<lparr>is_workerClaims := mput key (event_info e) (is_workerClaims s)\<rparr>
   | EventReleased \<Rightarrow> s\<lparr>is_runtimeLocks := mdel key (is_runtimeLocks s)\<rparr>
   | EventLeaseLost \<Rightarrow> s\<lparr>is_runtimeLocks := mdel key (is_runtimeLocks s)\<rparr>
   | EventRenewalSucceeded \<Rightarrow> s\<lparr>is_renewals := mput key (event_info e) (is_renewals s)\<rparr>
   | EventShutdownStarted \<Rightarrow> s\<lparr>is_shutdown := (is_shutdown s)\<lparr>si_Started := True\<rparr>\<rparr>
   | EventShutdownCompleted \<Rightarrow> s\<lparr>is_shutdown := (is_shutdown s)\<lparr>si_Completed := True\<rparr>\<rparr>
   | _ \<Rightarrow> s)"

definition appendToRingLocked :: "ObsEvent \<Rightarrow> InspectStore \<Rightarrow> InspectStore" where
  "appendToRingLocked e s =
     s\<lparr>is_history := (is_history s)[is_historyHead s := e], is_historyHead := (is_historyHead s + 1) mod is_historyCap s,
       is_historyLen := (if is_historyLen s < is_historyCap s then is_historyLen s + 1 else is_historyLen s)\<rparr>"

definition notifySubscribers :: "ObsEvent \<Rightarrow> InspectStore \<Rightarrow> InspectStore" where
  "notifySubscribers e s = s\<lparr>is_subs := map (\<lambda>(ch, cap, buf). (ch, cap, if length buf < cap then buf @ [e] else buf)) (is_subs s)\<rparr>"

text \<open>
  \<^verbatim>\<open>Consume\<close> is one step here. The code holds \<^verbatim>\<open>s.mu\<close> while it applies and stores the event and then
  notifies the subscribers under the read lock, so that of two concurrent calls one can be first in the
  ring and second in a stream; what is stated of the order of events is for calls that do not overlap.
\<close>

definition Consume :: "ObsEvent \<Rightarrow> InspectStore \<Rightarrow> InspectStore" where
  "Consume event s = notifySubscribers event (appendToRingLocked event (applyEventLocked event s))"

definition take_snapshot :: "InspectStore \<Rightarrow> Snapshot" where
  "take_snapshot s = \<lparr>sn_RuntimeLocks = map snd (is_runtimeLocks s), sn_WorkerClaims = map snd (is_workerClaims s),
     sn_Renewals = map snd (is_renewals s), sn_Shutdown = is_shutdown s, sn_Pipeline = is_pipeline s\<rparr>"

definition ring_start :: "InspectStore \<Rightarrow> nat" where
  "ring_start s = (if is_historyLen s = is_historyCap s then is_historyHead s else 0)"

definition ring_read :: "nat \<Rightarrow> InspectStore \<Rightarrow> ObsEvent list" where
  "ring_read n s = map (\<lambda>i. is_history s ! ((ring_start s + i) mod is_historyCap s)) [0..<n]"

definition RecentEvents :: "int \<Rightarrow> InspectStore \<Rightarrow> ObsEvent list" where
  "RecentEvents limit s =
     ring_read (if limit \<le> 0 \<or> limit > int (is_historyLen s) then is_historyLen s else nat limit) s"

definition ringEventsLocked :: "InspectStore \<Rightarrow> ObsEvent list" where
  "ringEventsLocked s = ring_read (is_historyLen s) s"

definition query_skips :: "QueryOptions \<Rightarrow> ObsEvent \<Rightarrow> bool" where
  "query_skips opts e \<longleftrightarrow>
     qo_DefinitionID opts \<noteq> [] \<and> oe_DefinitionID e \<noteq> qo_DefinitionID opts \<or>
     qo_ResourceID opts \<noteq> [] \<and> oe_ResourceID e \<noteq> qo_ResourceID opts \<or>
     qo_OwnerID opts \<noteq> [] \<and> oe_OwnerID e \<noteq> qo_OwnerID opts \<or>
     qo_Kind opts \<noteq> NoKind \<and> oe_Kind e \<noteq> qo_Kind opts \<or>
     qo_Since opts \<noteq> zero_time \<and> oe_Timestamp e < qo_Since opts \<or>
     qo_Until opts \<noteq> zero_time \<and> qo_Until opts < oe_Timestamp e"

fun query_loop :: "QueryOptions \<Rightarrow> ObsEvent list \<Rightarrow> ObsEvent list \<Rightarrow> ObsEvent list" where
  "query_loop opts [] out = out"
| "query_loop opts (e # es) out = (if query_skips opts e then query_loop opts es out else query_loop opts es (out @ [e]))"

definition Query :: "QueryOptions \<Rightarrow> InspectStore \<Rightarrow> ObsEvent list" where
  "Query opts s = query_loop opts (ringEventsLocked s) []"

definition Subscribe :: "nat \<Rightarrow> nat \<Rightarrow> InspectStore \<Rightarrow> InspectStore" where
  "Subscribe ch cap s = s\<lparr>is_subs := mput ch (cap, case mget (is_subs s) ch of None \<Rightarrow> [] | Some (_, buf) \<Rightarrow> buf) (is_subs s)\<rparr>"

definition Unsubscribe :: "nat \<Rightarrow> InspectStore \<Rightarrow> InspectStore" where
  "Unsubscribe ch s = s\<lparr>is_subs := mdel ch (is_subs s)\<rparr>"

definition UpdatePipelineState :: "PipelineState \<Rightarrow> InspectStore \<Rightarrow> InspectStore" where
  "UpdatePipelineState ps s = s\<lparr>is_pipeline := ps\<rparr>"

section \<open>HTTP handlers\<close>

text \<open>Responses before their encoding as JSON.\<close>

datatype response = HttpError string nat | SnapshotBody Snapshot | LocksBody "RuntimeLockInfo list" | EventsBody "ObsEvent list" | HealthBody

definition handleSnapshot :: "InspectStore \<Rightarrow> string \<Rightarrow> response" where
  "handleSnapshot s method = (if method \<noteq> ''GET'' then HttpError ''method not allowed'' 405 else SnapshotBody (take_snapshot s))"

definition handleActive :: "InspectStore \<Rightarrow> string \<Rightarrow> response" where
  "handleActive s method = (if method \<noteq> ''GET'' then HttpError ''method not allowed'' 405 else LocksBody (sn_RuntimeLocks (take_snapshot s)))"

definition parseKind :: "string \<Rightarrow> EventKind" where
  "parseKind s = (case map_of (map (\<lambda>k. (EventKind_String k, k))
     [EventAcquireStarted, EventAcquireSucceeded, EventAcquireFailed, EventReleased, EventContention, EventOverlap, EventLeaseLost,
      EventRenewalSucceeded, EventRenewalFailed, EventShutdownStarted, EventShutdownCompleted]) s of Some k \<Rightarrow> k | None \<Rightarrow> NoKind)"

text \<open>The query parameters are a function with \<open>[]\<close> for a missing one; \<open>parse\<close> is \<^verbatim>\<open>time.Parse(time.RFC3339, v)\<close>.\<close>

definition events_limit :: "(string \<Rightarrow> string) \<Rightarrow> int" where
  "events_limit q = (if q ''limit'' = [] then 100
     else case ParseInt64 (q ''limit'') of Some n \<Rightarrow> if n > 0 then n else 100 | None \<Rightarrow> 100)"

definition time_param :: "(string \<Rightarrow> time option) \<Rightarrow> string \<Rightarrow> time" where
  "time_param parse v = (if v = [] then zero_time else case parse v of Some t \<Rightarrow> t | None \<Rightarrow> zero_time)"

definition query_options :: "(string \<Rightarrow> time option) \<Rightarrow> (string \<Rightarrow> string) \<Rightarrow> QueryOptions" where
  "query_options parse q = \<lparr>qo_DefinitionID = q ''definition_id'', qo_ResourceID = q ''resource_id'', qo_OwnerID = q ''owner_id'',
     qo_Kind = (if q ''kind'' = [] then NoKind else parseKind (q ''kind'')),
     qo_Since = time_param parse (q ''since''), qo_Until = time_param parse (q ''until'')\<rparr>"

definition handleEvents :: "InspectStore \<Rightarrow> (string \<Rightarrow> time option) \<Rightarrow> string \<Rightarrow> (string \<Rightarrow> string) \<Rightarrow> response" where
  "handleEvents s parse method q =
     (if method \<noteq> ''GET'' then HttpError ''method not allowed'' 405
      else
        let events = Query (query_options parse q) s; limit = events_limit q in
        EventsBody (if int (length events) > limit then drop (nat (int (length events) - limit)) events else events))"

definition handleHealth :: "InspectStore \<Rightarrow> response" where
  "handleHealth s = HealthBody"

section \<open>The ring holds the latest events\<close>

definition ring_ok :: "ObsEvent list \<Rightarrow> InspectStore \<Rightarrow> bool" where
  "ring_ok es s \<longleftrightarrow> 0 < is_historyCap s \<and> length (is_history s) = is_historyCap s \<and> is_historyHead s < is_historyCap s
     \<and> is_historyLen s = min (length es) (is_historyCap s) \<and> is_historyHead s = length es mod is_historyCap s
     \<and> (\<forall>i < length es. length es \<le> i + is_historyCap s \<longrightarrow> is_history s ! (i mod is_historyCap s) = es ! i)"

lemma ring_ok_New: "ring_ok [] (NewInspectStore limits)"
proof -
  have "0 < is_historyCap s \<and> length (is_history s) = is_historyCap s \<and> is_historyHead s = 0 \<and> is_historyLen s = 0 \<Longrightarrow>
      ring_ok [] (fold WithHistoryLimit limits s)" for s
    by (induction limits arbitrary: s) (auto simp: ring_ok_def WithHistoryLimit_def)
  then show ?thesis by (simp add: NewInspectStore_def defaultHistoryLimit_def)
qed

lemma same_slot:
  assumes "i mod c = n mod c" and "i \<le> n" and "n < i + c"
  shows "i = (n :: nat)"
proof -
  have "(n - i) mod c = 0" using assms(1,2) by (metis mod_eq_dvd_iff_nat dvd_imp_mod_0)
  moreover have "n - i < c" using assms(2,3) by linarith
  ultimately show ?thesis using assms(2) by simp
qed

lemma ring_ok_append:
  assumes "ring_ok es s"
  shows "ring_ok (es @ [e]) (appendToRingLocked e s)"
proof -
  let ?c = "is_historyCap s" and ?n = "length es"
  have r: "0 < ?c" "length (is_history s) = ?c" "is_historyHead s = ?n mod ?c"
    and h: "\<And>i. i < ?n \<Longrightarrow> ?n \<le> i + ?c \<Longrightarrow> is_history s ! (i mod ?c) = es ! i" using assms by (auto simp: ring_ok_def)
  have "(is_history s)[?n mod ?c := e] ! (i mod ?c) = (es @ [e]) ! i" if "i < Suc ?n" "Suc ?n \<le> i + ?c" for i
  proof (cases "i = ?n")
    case False
    then have "i mod ?c \<noteq> ?n mod ?c" using same_slot[of i ?c ?n] that by auto
    then show ?thesis using h[of i] that False by (simp add: nth_append)
  qed (use r in simp)
  then show ?thesis using assms r by (auto simp: ring_ok_def appendToRingLocked_def mod_Suc_eq)
qed

lemma ring_ok_cong:
  "is_history s' = is_history s \<Longrightarrow> is_historyCap s' = is_historyCap s \<Longrightarrow> is_historyHead s' = is_historyHead s \<Longrightarrow> is_historyLen s' = is_historyLen s
    \<Longrightarrow> ring_ok es s' = ring_ok es s"
  by (simp add: ring_ok_def)

lemma ring_ok_Consume: "ring_ok es s \<Longrightarrow> ring_ok (es @ [e]) (Consume e s)"
proof -
  assume ok: "ring_ok es s"
  have "ring_ok es (applyEventLocked e s)"
    using ok ring_ok_cong[of "applyEventLocked e s" s es] by (cases "oe_Kind e") (simp_all add: applyEventLocked_def Let_def)
  from ring_ok_append[OF this, of e] show ?thesis
    using ring_ok_cong[of "Consume e s" "appendToRingLocked e (applyEventLocked e s)"] by (simp add: Consume_def notifySubscribers_def)
qed

lemma ring_ok_run: "ring_ok es s \<Longrightarrow> ring_ok (es @ es') (fold Consume es' s)"
proof (induction es' arbitrary: es s)
  case (Cons e es')
  from Cons.IH[OF ring_ok_Consume[OF Cons.prems, of e]] show ?case by simp
qed simp

lemma ring_read_latest:
  assumes "ring_ok es s" and "n \<le> is_historyLen s"
  shows "ring_read n s = take n (drop (length es - is_historyCap s) es)"
proof (rule nth_equalityI)
  let ?c = "is_historyCap s" and ?n = "length es"
  have r: "0 < ?c" "is_historyLen s = min ?n ?c" "is_historyHead s = ?n mod ?c"
    and h: "\<And>i. i < ?n \<Longrightarrow> ?n \<le> i + ?c \<Longrightarrow> is_history s ! (i mod ?c) = es ! i" using assms(1) by (auto simp: ring_ok_def)
  show "length (ring_read n s) = length (take n (drop (?n - ?c) es))" using assms(2) r by (cases "?n \<le> ?c") (auto simp: ring_read_def)
  fix i
  assume "i < length (ring_read n s)"
  then have i: "i < n" "i < ?n" "i < ?c" using assms(2) r by (auto simp: ring_read_def)
  have "is_history s ! ((ring_start s + i) mod ?c) = es ! (?n - ?c + i)"
  proof (cases "?n < ?c")
    case True
    then show ?thesis using h[of i] i r by (simp add: ring_start_def)
  next
    case False
    then have "(?n mod ?c + i) mod ?c = (?n - ?c + i) mod ?c" using r by (metis le_add_diff_inverse2 linorder_not_less mod_add_left_eq mod_add_self2)
    moreover have "ring_start s = ?n mod ?c" using False r by (simp add: ring_start_def)
    ultimately show ?thesis using h[of "?n - ?c + i"] i False by simp
  qed
  then show "ring_read n s ! i = take n (drop (?n - ?c) es) ! i" using i by (simp add: ring_read_def)
qed

lemma query_loop_filter: "query_loop opts es out = out @ filter (\<lambda>e. \<not> query_skips opts e) es"
  by (induction es arbitrary: out) auto

end
