(* ===== verification/Url.thy ===== *)
theory Url
  imports Prelude
begin

text \<open>
  Query strings, as Go's package \<^verbatim>\<open>net/url\<close> writes and reads them: \<^verbatim>\<open>QueryEscape\<close>, \<^verbatim>\<open>QueryUnescape\<close>, \<^verbatim>\<open>Values.Encode\<close>, \<^verbatim>\<open>ParseQuery\<close> and
  \<^verbatim>\<open>Values.Get\<close>. Strings are byte strings.
\<close>

section \<open>Escaping\<close>

definition byte_in :: "(char \<times> char) list \<Rightarrow> char \<Rightarrow> bool" where
  "byte_in ranges c = list_ex (\<lambda>(lo, hi). lo \<le> c \<and> c \<le> hi) ranges"

text \<open>\<^verbatim>\<open>shouldEscape\<close> for a query component, negated: letters, digits and four marks.\<close>

definition unreserved :: "char \<Rightarrow> bool" where
  "unreserved c = (byte_in (zip ''aA0'' ''zZ9'') c \<or> List.member ''-_.~'' c)"

definition upperhex :: "nat \<Rightarrow> char" where
  "upperhex n = ''0123456789ABCDEF'' ! n"

definition escape_char :: "char \<Rightarrow> string" where
  "escape_char c =
     (if c = CHR '' '' then ''+'' else if unreserved c then [c]
      else [CHR ''%'', upperhex (of_char c div 16), upperhex (of_char c mod 16)])"

definition QueryEscape :: "string \<Rightarrow> string" where
  "QueryEscape s = concat (map escape_char s)"

definition unhex :: "char \<Rightarrow> nat option" where
  "unhex c =
     (if byte_in [(CHR ''0'', CHR ''9'')] c then Some (of_char c - 48)
      else if byte_in [(CHR ''a'', CHR ''f'')] c then Some (of_char c - 97 + 10)
      else if byte_in [(CHR ''A'', CHR ''F'')] c then Some (of_char c - 65 + 10) else None)"

text \<open>\<open>None\<close> is an escape error.\<close>

function QueryUnescape :: "string \<Rightarrow> string option" where
  "QueryUnescape [] = Some []"
| "QueryUnescape (c # cs) =
     (if c = CHR ''%'' then
        (case cs of
           a # b # rest \<Rightarrow>
             (case (unhex a, unhex b) of (Some x, Some y) \<Rightarrow> map_option (\<lambda>t. char_of (16 * x + y) # t) (QueryUnescape rest) | _ \<Rightarrow> None)
         | _ \<Rightarrow> None)
      else map_option (\<lambda>t. (if c = CHR ''+'' then CHR '' '' else c) # t) (QueryUnescape cs))"
  by pat_completeness auto

termination by (relation "measure length") auto

section \<open>Queries\<close>

text \<open>\<^verbatim>\<open>url.Values\<close> with one value per key, as \<^verbatim>\<open>Set\<close> leaves it; \<^verbatim>\<open>Encode\<close> sorts by key.\<close>

definition encode_pair :: "string \<times> string \<Rightarrow> string" where
  "encode_pair kv = QueryEscape (fst kv) @ ''='' @ QueryEscape (snd kv)"

fun join_amp :: "string list \<Rightarrow> string" where
  "join_amp [] = []"
| "join_amp [s] = s"
| "join_amp (s # ss) = s @ ''&'' @ join_amp ss"

definition Encode :: "(string, string) gomap \<Rightarrow> string" where
  "Encode vs = join_amp (map encode_pair (sort_key fst vs))"

text \<open>\<^verbatim>\<open>strings.Cut\<close> at a one-byte separator.\<close>

definition cut :: "char \<Rightarrow> string \<Rightarrow> string \<times> string" where
  "cut sep s = (takeWhile (\<lambda>c. c \<noteq> sep) s, drop 1 (dropWhile (\<lambda>c. c \<noteq> sep) s))"

lemma cut_shorter: "s \<noteq> [] \<Longrightarrow> length (snd (cut sep s)) < length s"
  using length_dropWhile_le[of "\<lambda>c. c \<noteq> sep" s] by (cases s) (auto simp: cut_def)

text \<open>
  \<^verbatim>\<open>ParseQuery\<close>, with the error dropped as \<^verbatim>\<open>URL.Query\<close> does: parts that hold a semicolon or a bad escape are skipped. The result lists the
  values in order, so \<^verbatim>\<open>Get\<close> gives the first of a key.
\<close>

definition parse_pair :: "string \<Rightarrow> (string \<times> string) list" where
  "parse_pair part =
     (if CHR '';'' \<in> set part \<or> part = [] then []
      else case (QueryUnescape (fst (cut CHR ''='' part)), QueryUnescape (snd (cut CHR ''='' part))) of
        (Some k, Some v) \<Rightarrow> [(k, v)] | _ \<Rightarrow> [])"

function ParseQuery :: "string \<Rightarrow> (string \<times> string) list" where
  "ParseQuery s = (if s = [] then [] else parse_pair (fst (cut CHR ''&'' s)) @ ParseQuery (snd (cut CHR ''&'' s)))"
  by pat_completeness auto

termination by (relation "measure length") (use cut_shorter in auto)

declare ParseQuery.simps [simp del]

definition Values_Get :: "(string \<times> string) list \<Rightarrow> string \<Rightarrow> string" where
  "Values_Get vs k = (case map_of vs k of Some v \<Rightarrow> v | None \<Rightarrow> [])"

section \<open>Round trip\<close>

lemma unhex_upperhex: "n < 16 \<Longrightarrow> unhex (upperhex n) = Some n \<and> upperhex n \<notin> set ''%+&=; ''"
proof -
  have "\<forall>n \<in> set [0..<16]. unhex (upperhex n) = Some n \<and> upperhex n \<notin> set ''%+&=; ''" by code_simp
  then show "n < 16 \<Longrightarrow> ?thesis" by simp
qed

lemma unreserved_plain: "unreserved c \<Longrightarrow> c \<notin> set ''%+&=; ''"
  by (auto simp: unreserved_def byte_in_def)

lemma escape_char_plain: "set (escape_char c) \<inter> set ''&=;'' = {}"
proof -
  have "(of_char c :: nat) div 16 < 16" "(of_char c :: nat) mod 16 < 16" by (simp_all add: less_mult_imp_div_less)
  then have "upperhex (of_char c div 16) \<notin> set ''&=;''" "upperhex (of_char c mod 16) \<notin> set ''&=;''" using unhex_upperhex by auto
  then show ?thesis using unreserved_plain[of c] by (simp add: escape_char_def) metis
qed

lemma QueryEscape_plain: "c \<in> set (QueryEscape s) \<Longrightarrow> c \<noteq> CHR ''&'' \<and> c \<noteq> CHR ''='' \<and> c \<noteq> CHR '';''"
  using escape_char_plain by (force simp: QueryEscape_def)

lemma QueryUnescape_escape_char: "QueryUnescape (escape_char c @ s) = map_option (Cons c) (QueryUnescape s)"
proof -
  have h: "(of_char c :: nat) div 16 < 16" "(of_char c :: nat) mod 16 < 16" by (simp_all add: less_mult_imp_div_less)
  have "(char_of (16 * (of_char c div 16) + of_char c mod 16 :: nat) :: char) = c" by simp
  then show ?thesis using unhex_upperhex[OF h(1)] unhex_upperhex[OF h(2)] unreserved_plain[of c] by (auto simp: escape_char_def)
qed

lemma QueryUnescape_QueryEscape [simp]: "QueryUnescape (QueryEscape s) = Some s"
  by (induction s) (simp_all add: QueryEscape_def QueryUnescape_escape_char)

lemma cut_append: "sep \<notin> set a \<Longrightarrow> cut sep (a @ sep # b) = (a, b)"
  by (induction a) (auto simp: cut_def)

lemma cut_none: "sep \<notin> set a \<Longrightarrow> cut sep a = (a, [])"
  by (induction a) (auto simp: cut_def)

lemma parse_encode_pair: "parse_pair (encode_pair kv) = [kv]" "CHR ''&'' \<notin> set (encode_pair kv)" "encode_pair kv \<noteq> []"
proof -
  have "CHR ''='' \<notin> set (QueryEscape (fst kv))" "CHR '';'' \<notin> set (encode_pair kv)" using QueryEscape_plain by (auto simp: encode_pair_def)
  then show "parse_pair (encode_pair kv) = [kv]" using cut_append[of "CHR ''=''" "QueryEscape (fst kv)" "QueryEscape (snd kv)"]
    by (simp add: parse_pair_def encode_pair_def)
  show "CHR ''&'' \<notin> set (encode_pair kv)" using QueryEscape_plain by (auto simp: encode_pair_def)
  show "encode_pair kv \<noteq> []" by (simp add: encode_pair_def)
qed

lemma ParseQuery_join: "ParseQuery (join_amp (map encode_pair vs)) = vs"
proof (induction vs)
  case (Cons kv vs)
  show ?case
  proof (cases vs)
    case Nil
    then show ?thesis using cut_none[OF parse_encode_pair(2), of kv] parse_encode_pair[of kv] ParseQuery.simps[of "[]"] by (simp add: ParseQuery.simps[of "encode_pair kv"])
  next
    case (Cons kv' vs')
    then have "join_amp (map encode_pair (kv # vs)) = encode_pair kv @ CHR ''&'' # join_amp (map encode_pair vs)" by simp
    then show ?thesis using Cons.IH cut_append[OF parse_encode_pair(2), of kv] parse_encode_pair(1)[of kv]
      by (simp add: ParseQuery.simps[of "encode_pair kv @ _"])
  qed
qed (simp add: ParseQuery.simps)

lemma ParseQuery_Encode: "ParseQuery (Encode vs) = sort_key fst vs"
  by (simp add: Encode_def ParseQuery_join)

lemma map_of_sort_key: "distinct (map fst vs) \<Longrightarrow> map_of (sort_key fst vs) k = map_of vs k"
proof -
  assume d: "distinct (map fst vs)"
  then have "distinct (map fst (sort_key fst vs))" by (simp add: distinct_map)
  then show ?thesis using d map_of_inject_set[of "sort_key fst vs" vs] by simp
qed

text \<open>What the client sets the server gets, whatever bytes keys and values hold.\<close>

lemma query_roundtrip: "map_ok vs \<Longrightarrow> Values_Get (ParseQuery (Encode vs)) k = (case mget vs k of Some v \<Rightarrow> v | None \<Rightarrow> [])"
  by (simp add: Values_Get_def ParseQuery_Encode map_of_sort_key)

end
