(* ===== verification/Inspect_Client.thy ===== *)
theory Inspect_Client
  imports Inspect Url "HOL-Library.Sublist"
begin

text \<open>
  The client of the inspect endpoints (\<^verbatim>\<open>src/cmd/inspect/client/client.go\<close>), its parser of event streams (\<^verbatim>\<open>src/cmd/inspect/sse/parse.go\<close>) and
  the routes and the stream handler of the server (\<^verbatim>\<open>src/inspect/http.go\<close>). The HTTP transport, the JSON codec and the text form of times are
  parameters.
\<close>

section \<open>JSON and transport\<close>

record json_codec =
  jc_encode :: "response \<Rightarrow> string"
  jc_snapshot :: "string \<Rightarrow> Snapshot result"
  jc_locks :: "string \<Rightarrow> RuntimeLockInfo list result"
  jc_events :: "string \<Rightarrow> ObsEvent list result"
  jc_health :: "string \<Rightarrow> (string, string) gomap result"
  jc_marshal :: "ObsEvent \<Rightarrow> string"
  jc_raw :: "string \<Rightarrow> string result"
  jc_event :: "string \<Rightarrow> ObsEvent result"

record transport =
  tp_request :: "string \<Rightarrow> go_err"
  tp_do :: "string \<Rightarrow> (nat \<times> string) result"

text \<open>The error of an event is not part of its JSON form (\<^verbatim>\<open>json:"-"\<close>).\<close>

definition no_error :: "ObsEvent \<Rightarrow> ObsEvent" where
  "no_error e = e\<lparr>oe_Error := None\<rparr>"

section \<open>Requests\<close>

definition defaultLimit :: int where "defaultLimit = 100"
definition maxLimit :: int where "maxLimit = 500"

record Filter =
  fl_DefinitionID :: string
  fl_ResourceID :: string
  fl_OwnerID :: string
  fl_Kind :: EventKind
  fl_Since :: time
  fl_Until :: time
  fl_Limit :: int

fun kindToString :: "EventKind \<Rightarrow> string" where
  "kindToString EventAcquireStarted = ''acquire_started''"
| "kindToString EventAcquireSucceeded = ''acquire_succeeded''"
| "kindToString EventAcquireFailed = ''acquire_failed''"
| "kindToString EventReleased = ''released''"
| "kindToString EventContention = ''contention''"
| "kindToString EventOverlap = ''overlap''"
| "kindToString EventOverlapRejected = ''overlap_rejected''"
| "kindToString EventLeaseLost = ''lease_lost''"
| "kindToString EventRenewalSucceeded = ''renewal_succeeded''"
| "kindToString EventRenewalFailed = ''renewal_failed''"
| "kindToString EventShutdownStarted = ''shutdown_started''"
| "kindToString EventShutdownCompleted = ''shutdown_completed''"
| "kindToString EventClientStarted = ''client_started''"
| "kindToString EventPresenceChecked = ''presence_checked''"
| "kindToString NoKind = []"

definition ParseEventKind :: "string \<Rightarrow> EventKind" where
  "ParseEventKind s = (case map_of (map (\<lambda>k. (kindToString k, k))
     [EventAcquireStarted, EventAcquireSucceeded, EventAcquireFailed, EventReleased, EventContention, EventOverlap, EventOverlapRejected,
      EventLeaseLost, EventRenewalSucceeded, EventRenewalFailed, EventShutdownStarted, EventShutdownCompleted, EventClientStarted,
      EventPresenceChecked]) s of Some k \<Rightarrow> k | None \<Rightarrow> NoKind)"

definition set_if :: "bool \<Rightarrow> string \<Rightarrow> string \<Rightarrow> (string, string) gomap \<Rightarrow> (string, string) gomap" where
  "set_if b k v q = (if b then mput k v q else q)"

definition client_limit :: "int \<Rightarrow> int" where
  "client_limit n = (let limit = if n \<le> 0 then defaultLimit else n in if limit > maxLimit then maxLimit else limit)"

text \<open>\<open>fmt\<close> is \<^verbatim>\<open>Format(time.RFC3339)\<close>.\<close>

definition events_query :: "(time \<Rightarrow> string) \<Rightarrow> Filter \<Rightarrow> (string, string) gomap" where
  "events_query fmt f =
     mput ''limit'' (Itoa (client_limit (fl_Limit f)))
      (set_if (fl_Until f \<noteq> zero_time) ''until'' (fmt (fl_Until f))
       (set_if (fl_Since f \<noteq> zero_time) ''since'' (fmt (fl_Since f))
        (set_if (fl_Kind f \<noteq> NoKind) ''kind'' (kindToString (fl_Kind f))
         (set_if (fl_OwnerID f \<noteq> []) ''owner_id'' (fl_OwnerID f)
          (set_if (fl_ResourceID f \<noteq> []) ''resource_id'' (fl_ResourceID f)
           (set_if (fl_DefinitionID f \<noteq> []) ''definition_id'' (fl_DefinitionID f) []))))))"

definition doJSON :: "transport \<Rightarrow> string \<Rightarrow> string \<Rightarrow> (string \<Rightarrow> 'a result) \<Rightarrow> 'a result" where
  "doJSON tp baseURL path decode =
     (case tp_request tp (baseURL @ path) of
        Some err \<Rightarrow> Inl (Errorf ''client: build request: %w'' [] [err])
      | None \<Rightarrow>
          (case tp_do tp (baseURL @ path) of
             Inl err \<Rightarrow> Inl (Errorf ''client: request failed: %w'' [] [err])
           | Inr (code, body) \<Rightarrow>
               if code \<ge> 400 then Inl (Errorf ''client: server returned %d: %s'' [Itoa (int code), trim_space body] [])
               else (case decode body of Inl err \<Rightarrow> Inl (Errorf ''client: decode response: %w'' [] [err]) | Inr v \<Rightarrow> Inr v)))"

definition Client_Snapshot :: "transport \<Rightarrow> json_codec \<Rightarrow> string \<Rightarrow> Snapshot result" where
  "Client_Snapshot tp J baseURL = doJSON tp baseURL [] (jc_snapshot J)"

definition Client_Active :: "transport \<Rightarrow> json_codec \<Rightarrow> string \<Rightarrow> RuntimeLockInfo list result" where
  "Client_Active tp J baseURL = doJSON tp baseURL ''/active'' (jc_locks J)"

definition Client_Events :: "transport \<Rightarrow> json_codec \<Rightarrow> (time \<Rightarrow> string) \<Rightarrow> string \<Rightarrow> Filter \<Rightarrow> ObsEvent list result" where
  "Client_Events tp J fmt baseURL f = doJSON tp baseURL (''/events?'' @ Encode (events_query fmt f)) (jc_events J)"

definition Client_Health :: "transport \<Rightarrow> json_codec \<Rightarrow> string \<Rightarrow> (string, string) gomap result" where
  "Client_Health tp J baseURL = doJSON tp baseURL ''/health'' (jc_health J)"

section \<open>Routes\<close>

definition http_answer :: "json_codec \<Rightarrow> response \<Rightarrow> nat \<times> string" where
  "http_answer J r = (case r of HttpError msg code \<Rightarrow> (code, msg @ [CHR 0x0A]) | _ \<Rightarrow> (200, jc_encode J r))"

text \<open>
  The routes of \<^verbatim>\<open>NewHandler\<close>, for a route prefix that has no pattern syntax of the multiplexer and clean paths. \<open>None\<close> is the stream, which
  has no answer of its own (below).
\<close>

definition NewHandler :: "string \<Rightarrow> InspectStore \<Rightarrow> (string \<Rightarrow> time option) \<Rightarrow> json_codec \<Rightarrow> string \<Rightarrow> string \<Rightarrow> string \<Rightarrow> (nat \<times> string) option" where
  "NewHandler root s parse J method path rawQuery =
     (if path = root then Some (http_answer J (handleSnapshot s method))
      else if path = root @ ''/active'' then Some (http_answer J (handleActive s method))
      else if path = root @ ''/events'' then Some (http_answer J (handleEvents s parse method (Values_Get (ParseQuery rawQuery))))
      else if path = root @ ''/health'' then Some (http_answer J (handleHealth s))
      else if path = root @ ''/stream'' then None
      else Some (404, ''404 page not found'' @ [CHR 0x0A]))"

text \<open>A transport that reaches the handler: \<open>host\<close> is the scheme and host of the URL, the rest its path and its query.\<close>

definition connected :: "string \<Rightarrow> (string \<Rightarrow> string \<Rightarrow> string \<Rightarrow> (nat \<times> string) option) \<Rightarrow> transport" where
  "connected host handler = \<lparr>tp_request = (\<lambda>u. None),
     tp_do = (\<lambda>u. case cut CHR ''?'' (drop (length host) u) of (path, rawQuery) \<Rightarrow>
       (case handler ''GET'' path rawQuery of Some answer \<Rightarrow> Inr answer | None \<Rightarrow> Inl (Sentinel ContextDeadlineExceeded)))\<rparr>"

section \<open>Streams\<close>

definition stream_frame :: "json_codec \<Rightarrow> ObsEvent \<Rightarrow> string" where
  "stream_frame J e = ''data: '' @ jc_marshal J e @ [CHR 0x0A, CHR 0x0A]"

text \<open>The loop of \<^verbatim>\<open>handleStream\<close> takes one event from its channel and writes it.\<close>

definition stream_open :: "nat \<Rightarrow> InspectStore \<Rightarrow> InspectStore" where
  "stream_open ch s = Subscribe ch 64 s"

definition stream_take :: "json_codec \<Rightarrow> nat \<Rightarrow> InspectStore \<Rightarrow> (string \<times> InspectStore) option" where
  "stream_take J ch s =
     (case mget (is_subs s) ch of
        Some (cap, e # buf) \<Rightarrow> Some (stream_frame J e, s\<lparr>is_subs := mput ch (cap, buf) (is_subs s)\<rparr>)
      | _ \<Rightarrow> None)"

subsection \<open>The parser\<close>

text \<open>\<^verbatim>\<open>bufio.ScanLines\<close> on a whole body; a line that does not fit the buffer of 64 KiB ends the scan.\<close>

function raw_lines :: "string \<Rightarrow> string list" where
  "raw_lines s = (if s = [] then [] else fst (cut CHR 0x0A s) # raw_lines (snd (cut CHR 0x0A s)))"
  by pat_completeness auto

termination by (relation "measure length") (use cut_shorter in auto)

declare raw_lines.simps [simp del]

definition drop_cr :: "string \<Rightarrow> string" where
  "drop_cr l = (if l \<noteq> [] \<and> last l = CHR 0x0D then butlast l else l)"

definition line_fits :: "string \<Rightarrow> bool" where
  "line_fits l \<longleftrightarrow> length l < 64 * 1024"

definition errTooLong :: go_error where
  "errTooLong = Errorf ''bufio.Scanner: token too long'' [] []"

definition scanned :: "string \<Rightarrow> string list" where
  "scanned body = map drop_cr (takeWhile line_fits (raw_lines body))"

definition scanner_err :: "string \<Rightarrow> go_err \<Rightarrow> go_err" where
  "scanner_err body readErr = (if list_all line_fits (raw_lines body) then readErr else Some errTooLong)"

fun join_nl :: "string list \<Rightarrow> string" where
  "join_nl [] = []"
| "join_nl [s] = s"
| "join_nl (s # ss) = s @ [CHR 0x0A] @ join_nl ss"

definition flushData :: "(string \<Rightarrow> string result) \<Rightarrow> string list \<Rightarrow> string result list" where
  "flushData raw dataLines = (if dataLines = [] then [] else [raw (join_nl dataLines)])"

fun parse_lines :: "(string \<Rightarrow> string result) \<Rightarrow> string list \<Rightarrow> string list \<Rightarrow> string result list" where
  "parse_lines raw [] dataLines = flushData raw dataLines"
| "parse_lines raw (l # ls) dataLines =
     (if l = [] then flushData raw dataLines @ parse_lines raw ls []
      else if take 6 l = ''data: '' then parse_lines raw ls (dataLines @ [drop 6 l])
      else parse_lines raw ls dataLines)"

text \<open>What the parser sends, in order: \<open>Inl\<close> to its channel of errors, \<open>Inr\<close> to its channel of events.\<close>

definition ParseEvents :: "json_codec \<Rightarrow> string \<Rightarrow> go_err \<Rightarrow> string result list" where
  "ParseEvents J body readErr =
     parse_lines (jc_raw J) (scanned body) [] @ (case scanner_err body readErr of Some err \<Rightarrow> [Inl err] | None \<Rightarrow> [])"

subsection \<open>The client's goroutine\<close>

datatype stream_pc = AtSelect | SendEvent ObsEvent | SendError go_error | StreamEnded

record StreamClient =
  sc_parser :: "string result list"
  sc_rawCh :: "string list"
  sc_rawErrCh :: "go_error list"
  sc_rawClosed :: bool
  sc_rawErrClosed :: bool
  sc_pc :: stream_pc
  sc_eventCh :: "ObsEvent list"
  sc_errCh :: "go_error list"
  sc_ctxDone :: bool
  sc_received :: "ObsEvent list"
  sc_errors :: "go_error list"

definition new_stream :: "string result list \<Rightarrow> StreamClient" where
  "new_stream emitted = \<lparr>sc_parser = emitted, sc_rawCh = [], sc_rawErrCh = [], sc_rawClosed = False, sc_rawErrClosed = False, sc_pc = AtSelect,
     sc_eventCh = [], sc_errCh = [], sc_ctxDone = False, sc_received = [], sc_errors = []\<rparr>"

definition failed_stream :: "go_error \<Rightarrow> StreamClient" where
  "failed_stream err = (new_stream [])\<lparr>sc_pc := StreamEnded, sc_errCh := [err]\<rparr>"

text \<open>\<^verbatim>\<open>Stream\<close> up to its loop; the body is what arrives until the connection ends, \<open>readErr\<close> how it ends.\<close>

definition Client_Stream :: "transport \<Rightarrow> json_codec \<Rightarrow> string \<Rightarrow> go_err \<Rightarrow> StreamClient" where
  "Client_Stream tp J baseURL readErr =
     (case tp_request tp (baseURL @ ''/stream'') of
        Some err \<Rightarrow> failed_stream (Errorf ''client: build stream request: %w'' [] [err])
      | None \<Rightarrow>
          (case tp_do tp (baseURL @ ''/stream'') of
             Inl err \<Rightarrow> failed_stream (Errorf ''client: stream request failed: %w'' [] [err])
           | Inr (code, body) \<Rightarrow>
               if code \<ge> 400 then failed_stream (Errorf ''client: stream returned %d: %s'' [Itoa (int code), trim_space body] [])
               else new_stream (ParseEvents J body readErr)))"

datatype stream_act = ParserStep | TakeRaw | TakeRawErr | TakeDone | SendStep | CancelCtx | ReceiveEvent | ReceiveError

text \<open>The parser closes its channel of errors before its channel of events: its two deferred calls run in reverse order.\<close>

definition parser_step :: "StreamClient \<Rightarrow> StreamClient option" where
  "parser_step c = (case sc_parser c of
     Inr raw # rest \<Rightarrow> if length (sc_rawCh c) < 64 then Some (c\<lparr>sc_parser := rest, sc_rawCh := sc_rawCh c @ [raw]\<rparr>) else None
   | Inl err # rest \<Rightarrow> if length (sc_rawErrCh c) < 1 then Some (c\<lparr>sc_parser := rest, sc_rawErrCh := sc_rawErrCh c @ [err]\<rparr>) else None
   | [] \<Rightarrow> if \<not> sc_rawErrClosed c then Some (c\<lparr>sc_rawErrClosed := True\<rparr>) else Some (c\<lparr>sc_rawClosed := True\<rparr>))"

definition take_raw :: "json_codec \<Rightarrow> StreamClient \<Rightarrow> StreamClient option" where
  "take_raw J c = (if sc_pc c \<noteq> AtSelect then None else case sc_rawCh c of
     raw # rest \<Rightarrow> Some (c\<lparr>sc_rawCh := rest, sc_pc := (case jc_event J raw of
        Inr evt \<Rightarrow> SendEvent evt | Inl err \<Rightarrow> SendError (Errorf ''client: parse event: %w'' [] [err]))\<rparr>)
   | [] \<Rightarrow> if sc_rawClosed c then Some (c\<lparr>sc_pc := StreamEnded\<rparr>) else None)"

definition take_rawErr :: "StreamClient \<Rightarrow> StreamClient option" where
  "take_rawErr c = (if sc_pc c \<noteq> AtSelect then None else case sc_rawErrCh c of
     err # rest \<Rightarrow> Some (c\<lparr>sc_rawErrCh := rest, sc_pc := SendError (Errorf ''client: SSE parse: %w'' [] [err])\<rparr>)
   | [] \<Rightarrow> if sc_rawErrClosed c then Some (c\<lparr>sc_pc := StreamEnded\<rparr>) else None)"

text \<open>A send of an event gives up when the context ends; a send of an error does not.\<close>

definition take_done :: "StreamClient \<Rightarrow> StreamClient option" where
  "take_done c = (if \<not> sc_ctxDone c then None else case sc_pc c of
     AtSelect \<Rightarrow> Some (c\<lparr>sc_pc := StreamEnded\<rparr>) | SendEvent evt \<Rightarrow> Some (c\<lparr>sc_pc := StreamEnded\<rparr>) | _ \<Rightarrow> None)"

definition send_step :: "StreamClient \<Rightarrow> StreamClient option" where
  "send_step c = (case sc_pc c of
     SendEvent evt \<Rightarrow> if length (sc_eventCh c) < 64 then Some (c\<lparr>sc_eventCh := sc_eventCh c @ [evt], sc_pc := AtSelect\<rparr>) else None
   | SendError err \<Rightarrow> if length (sc_errCh c) < 1 then Some (c\<lparr>sc_errCh := sc_errCh c @ [err], sc_pc := AtSelect\<rparr>) else None
   | _ \<Rightarrow> None)"

fun stream_act_step :: "json_codec \<Rightarrow> stream_act \<Rightarrow> StreamClient \<Rightarrow> StreamClient option" where
  "stream_act_step J ParserStep c = parser_step c"
| "stream_act_step J TakeRaw c = take_raw J c"
| "stream_act_step J TakeRawErr c = take_rawErr c"
| "stream_act_step J TakeDone c = take_done c"
| "stream_act_step J SendStep c = send_step c"
| "stream_act_step J CancelCtx c = Some (c\<lparr>sc_ctxDone := True\<rparr>)"
| "stream_act_step J ReceiveEvent c = (case sc_eventCh c of
     e # es \<Rightarrow> Some (c\<lparr>sc_eventCh := es, sc_received := sc_received c @ [e]\<rparr>) | [] \<Rightarrow> None)"
| "stream_act_step J ReceiveError c = (case sc_errCh c of
     e # es \<Rightarrow> Some (c\<lparr>sc_errCh := es, sc_errors := sc_errors c @ [e]\<rparr>) | [] \<Rightarrow> None)"

fun stream_acts :: "json_codec \<Rightarrow> stream_act list \<Rightarrow> StreamClient \<Rightarrow> StreamClient option" where
  "stream_acts J [] c = Some c"
| "stream_acts J (a # as) c = Option.bind (stream_act_step J a c) (stream_acts J as)"

end
