(* ===== verification/Bridge.thy ===== *)
theory Bridge
  imports Inspect Workers
begin

text \<open>
  The observability bridge (\<^verbatim>\<open>src/internal/observebridge\<close>): it turns the calls of the runtime and worker managers and of the client into
  events, applies each event to the inspect store and then publishes it to the dispatcher. Either target may be missing.
\<close>

section \<open>Calls as events\<close>

definition full_event :: "EventKind \<Rightarrow> Event \<Rightarrow> ObsEvent" where
  "full_event kind re = (blank_event kind)\<lparr>oe_DefinitionID := ev_DefinitionID re, oe_ResourceID := ev_ResourceID re, oe_OwnerID := ev_OwnerID re,
     oe_RequestID := ev_RequestID re, oe_Wait := ev_Wait re, oe_Held := ev_Held re\<rparr>"

text \<open>The recorder's calls are no events.\<close>

fun runtime_event :: "rt_call \<Rightarrow> ObsEvent option" where
  "runtime_event (PublishRuntimeAcquireStarted re) = Some (full_event EventAcquireStarted re)"
| "runtime_event (PublishRuntimeAcquireSucceeded re) = Some (full_event EventAcquireSucceeded re)"
| "runtime_event (PublishRuntimeAcquireFailed re err) = Some ((full_event EventAcquireFailed re)\<lparr>oe_Error := Some err\<rparr>)"
| "runtime_event (PublishRuntimeReleased re) = Some (full_event EventReleased re)"
| "runtime_event (PublishRuntimeContention re) = Some (full_event EventContention re)"
| "runtime_event (PublishRuntimeOverlapRejected re) = Some (full_event EventOverlapRejected re)"
| "runtime_event (PublishRuntimePresenceChecked re) = Some (full_event EventPresenceChecked re)"
| "runtime_event PublishRuntimeShutdownStarted = Some (blank_event EventShutdownStarted)"
| "runtime_event PublishRuntimeShutdownCompleted = Some (blank_event EventShutdownCompleted)"
| "runtime_event _ = None"

fun worker_call_event :: "wk_call \<Rightarrow> ObsEvent" where
  "worker_call_event (PublishWorkerAcquireStarted e) = full_event EventAcquireStarted e"
| "worker_call_event (PublishWorkerAcquireSucceeded e) = full_event EventAcquireSucceeded e"
| "worker_call_event (PublishWorkerAcquireFailed e err) = (full_event EventAcquireFailed e)\<lparr>oe_Error := Some err\<rparr>"
| "worker_call_event (PublishWorkerReleased e) = full_event EventReleased e"
| "worker_call_event (PublishWorkerRenewalSucceeded e) = full_event EventRenewalSucceeded e"
| "worker_call_event (PublishWorkerLeaseLost e) = full_event EventLeaseLost e"
| "worker_call_event PublishWorkerShutdownStarted = blank_event EventShutdownStarted"
| "worker_call_event PublishWorkerShutdownCompleted = blank_event EventShutdownCompleted"

text \<open>The client's calls, the methods no manager calls, and the builders of \<^verbatim>\<open>event_builder.go\<close>.\<close>

datatype bridge_call = PublishClientStarted | PublishClientShutdownStarted | PublishClientShutdownCompleted
  | PublishRuntimeRenewalSucceeded Event | PublishRuntimeRenewalFailed Event go_error | PublishRuntimeLeaseLost Event | PublishWorkerOverlap Event

fun bridge_call_event :: "bridge_call \<Rightarrow> ObsEvent" where
  "bridge_call_event PublishClientStarted = blank_event EventClientStarted"
| "bridge_call_event PublishClientShutdownStarted = blank_event EventShutdownStarted"
| "bridge_call_event PublishClientShutdownCompleted = blank_event EventShutdownCompleted"
| "bridge_call_event (PublishRuntimeRenewalSucceeded re) = full_event EventRenewalSucceeded re"
| "bridge_call_event (PublishRuntimeRenewalFailed re err) = (full_event EventRenewalFailed re)\<lparr>oe_Error := Some err\<rparr>"
| "bridge_call_event (PublishRuntimeLeaseLost re) = full_event EventLeaseLost re"
| "bridge_call_event (PublishWorkerOverlap e) = full_event EventOverlap e"

record WorkerEvent = Event +
  we_Contention :: int

definition buildEvent :: "EventKind \<Rightarrow> string \<Rightarrow> string \<Rightarrow> string \<Rightarrow> string \<Rightarrow> ObsEvent" where
  "buildEvent kind defID resourceID ownerID requestID = (blank_event kind)\<lparr>oe_DefinitionID := defID, oe_ResourceID := resourceID, oe_OwnerID := ownerID,
     oe_RequestID := requestID\<rparr>"

definition buildWorkerEvent :: "EventKind \<Rightarrow> WorkerEvent \<Rightarrow> ObsEvent" where
  "buildWorkerEvent kind we = (blank_event kind)\<lparr>oe_DefinitionID := ev_DefinitionID we, oe_ResourceID := ev_ResourceID we, oe_OwnerID := ev_OwnerID we,
     oe_RequestID := ev_RequestID we, oe_Wait := ev_Wait we, oe_Held := ev_Held we, oe_Contention := we_Contention we\<rparr>"

lemma builders_agree:
  "ev_Wait re = 0 \<Longrightarrow> ev_Held re = 0 \<Longrightarrow> buildEvent kind (ev_DefinitionID re) (ev_ResourceID re) (ev_OwnerID re) (ev_RequestID re) = full_event kind re"
  "buildWorkerEvent kind we = (full_event kind (Event.truncate we))\<lparr>oe_Contention := we_Contention we\<rparr>"
  by (simp_all add: buildEvent_def buildWorkerEvent_def full_event_def blank_event_def Event.truncate_def)

section \<open>The bridge\<close>

text \<open>The targets: the store's state, and the events handed to the dispatcher's \<^verbatim>\<open>Publish\<close> so far.\<close>

record ObsBridge =
  ob_store :: "InspectStore option"
  ob_dispatcher :: "ObsEvent list option"

definition NewBridge :: "InspectStore option \<Rightarrow> ObsEvent list option \<Rightarrow> ObsBridge" where
  "NewBridge store dispatcher = \<lparr>ob_store = store, ob_dispatcher = dispatcher\<rparr>"

definition bridge_publish :: "time \<Rightarrow> ObsEvent \<Rightarrow> ObsBridge \<Rightarrow> ObsBridge" where
  "bridge_publish now event b = (let event' = stamped now event in
     b\<lparr>ob_store := map_option (Consume event') (ob_store b), ob_dispatcher := map_option (\<lambda>es. es @ [event']) (ob_dispatcher b)\<rparr>)"

definition Bridge_Shutdown :: "go_err \<Rightarrow> ObsBridge \<Rightarrow> go_err" where
  "Bridge_Shutdown dispatcherErr b = (if ob_dispatcher b = None then None else dispatcherErr)"

fun bridge_run :: "(time \<times> ObsEvent) list \<Rightarrow> ObsBridge \<Rightarrow> ObsBridge" where
  "bridge_run [] b = b"
| "bridge_run ((now, e) # es) b = bridge_run es (bridge_publish now e b)"

lemma bridge_run_targets:
  "ob_store (bridge_run es b) = map_option (fold Consume (map (\<lambda>(now, e). stamped now e) es)) (ob_store b)"
  "ob_dispatcher (bridge_run es b) = map_option (\<lambda>out. out @ map (\<lambda>(now, e). stamped now e) es) (ob_dispatcher b)"
  by (induction es b rule: bridge_run.induct) (simp_all add: bridge_publish_def Let_def option.map_comp comp_def option.map_ident option.map_id)

section \<open>Listed locks\<close>

definition ends_lock :: "ObsEvent \<Rightarrow> bool" where
  "ends_lock e \<longleftrightarrow> oe_Kind e \<in> {EventAcquireSucceeded, EventReleased, EventLeaseLost}"

lemma Consume_locks:
  "is_runtimeLocks (Consume e s) =
     (if oe_Kind e = EventAcquireSucceeded then mput (event_key e) (event_info e) (is_runtimeLocks s)
      else if ends_lock e then mdel (event_key e) (is_runtimeLocks s) else is_runtimeLocks s)"
  by (cases "oe_Kind e") (simp_all add: Consume_def notifySubscribers_def appendToRingLocked_def applyEventLocked_def Let_def ends_lock_def)

lemma append_char_inject:
  assumes "c \<notin> set xs" and "c \<notin> set xs'"
  shows "xs @ c # ys = xs' @ c # ys' \<longleftrightarrow> xs = xs' \<and> ys = ys'"
  using assms
proof (induction xs arbitrary: xs')
  case Nil
  then show ?case by (cases xs') auto
next
  case (Cons x xs)
  then show ?case by (cases xs') auto
qed

text \<open>Keys are unambiguous when definition and owner identifiers have no colon; resource keys may have some.\<close>

lemma lockKey_inject:
  assumes "CHR '':'' \<notin> set d" "CHR '':'' \<notin> set d'" "CHR '':'' \<notin> set ow" "CHR '':'' \<notin> set ow'"
  shows "lockKey d r ow = lockKey d' r' ow' \<longleftrightarrow> d = d' \<and> r = r' \<and> ow = ow'"
proof -
  have "rev ow @ CHR '':'' # rev r = rev ow' @ CHR '':'' # rev r' \<longleftrightarrow> rev ow = rev ow' \<and> rev r = rev r'"
    by (rule append_char_inject) (use assms in auto)
  then have "r @ CHR '':'' # ow = r' @ CHR '':'' # ow' \<longleftrightarrow> r = r' \<and> ow = ow'"
    by (metis append.assoc append_Cons append_Nil rev_append rev_rev_ident rev_singleton_conv rev.simps(2))
  then show ?thesis using append_char_inject[OF assms(1,2)] by (auto simp: lockKey_def)
qed

lemma lockKey_collides: "lockKey ''job'' ''a'' ''b:c'' = lockKey ''job'' ''a:b'' ''c''"
  by (simp add: lockKey_def)

text \<open>The listed locks after a sequence of events: those whose last deciding event is a successful acquire.\<close>

definition colon_free :: "ObsEvent \<Rightarrow> bool" where
  "colon_free e \<longleftrightarrow> CHR '':'' \<notin> set (oe_DefinitionID e) \<and> CHR '':'' \<notin> set (oe_OwnerID e)"

definition same_lock :: "ObsEvent \<Rightarrow> ObsEvent \<Rightarrow> bool" where
  "same_lock e e' \<longleftrightarrow> oe_DefinitionID e = oe_DefinitionID e' \<and> oe_ResourceID e = oe_ResourceID e' \<and> oe_OwnerID e = oe_OwnerID e'"

definition open_lock :: "ObsEvent list \<Rightarrow> LockInfo \<Rightarrow> bool" where
  "open_lock es info \<longleftrightarrow> (\<exists>es1 e es2. es = es1 @ e # es2 \<and> oe_Kind e = EventAcquireSucceeded \<and> info = event_info e
     \<and> (\<forall>e' \<in> set es2. same_lock e' e \<longrightarrow> \<not> ends_lock e'))"

lemma open_lock_snoc:
  "open_lock (es @ [e]) info \<longleftrightarrow> oe_Kind e = EventAcquireSucceeded \<and> info = event_info e
    \<or> open_lock es info \<and> \<not> (ends_lock e \<and> li_DefinitionID info = oe_DefinitionID e \<and> li_ResourceID info = oe_ResourceID e \<and> li_OwnerID info = oe_OwnerID e)"
  (is "?l = (?new \<or> ?old)")
proof
  assume ?l
  then obtain es1 a es2 where s: "es @ [e] = es1 @ a # es2" "oe_Kind a = EventAcquireSucceeded" "info = event_info a"
    "\<forall>e' \<in> set es2. same_lock e' a \<longrightarrow> \<not> ends_lock e'" unfolding open_lock_def by blast
  show "?new \<or> ?old"
  proof (cases es2 rule: rev_cases)
    case (snoc es3 x)
    then have "es = es1 @ a # es3" "x = e" using s(1) by auto
    then have "open_lock es info" unfolding open_lock_def using s(2-4) snoc by (intro exI[of _ es1] exI[of _ a] exI[of _ es3]) auto
    moreover have "same_lock e a \<longrightarrow> \<not> ends_lock e" using s(4) snoc \<open>x = e\<close> by auto
    ultimately show ?thesis using s(3) by (auto simp: same_lock_def event_info_def)
  qed (use s in auto)
next
  assume "?new \<or> ?old"
  then show ?l
  proof
    assume ?new
    then show ?l unfolding open_lock_def by (intro exI[of _ es] exI[of _ e] exI[of _ "[]"]) simp
  next
    assume old: ?old
    then obtain es1 a es2 where s: "es = es1 @ a # es2" "oe_Kind a = EventAcquireSucceeded" "info = event_info a"
      "\<forall>e' \<in> set es2. same_lock e' a \<longrightarrow> \<not> ends_lock e'" unfolding open_lock_def by blast
    moreover have "same_lock e a \<longrightarrow> \<not> ends_lock e" using old s(3) by (auto simp: same_lock_def event_info_def)
    ultimately show ?l unfolding open_lock_def by (intro exI[of _ es1] exI[of _ a] exI[of _ "es2 @ [e]"]) auto
  qed
qed

lemma open_lock_colon_free: "list_all colon_free es \<Longrightarrow> open_lock es info \<Longrightarrow> CHR '':'' \<notin> set (li_DefinitionID info) \<and> CHR '':'' \<notin> set (li_OwnerID info)"
  by (auto simp: open_lock_def colon_free_def event_info_def)

definition info_key :: "LockInfo \<Rightarrow> string" where
  "info_key i = lockKey (li_DefinitionID i) (li_ResourceID i) (li_OwnerID i)"

lemma locks_exact:
  assumes "list_all colon_free es" and "is_runtimeLocks s = []"
  shows "mget (is_runtimeLocks (fold Consume es s)) k = Some info \<longleftrightarrow> open_lock es info \<and> k = info_key info"
  using assms(1)
proof (induction es arbitrary: k info rule: rev_induct)
  case Nil
  then show ?case using assms(2) by (simp add: open_lock_def)
next
  case (snoc e es)
  let ?m = "is_runtimeLocks (fold Consume es s)"
  have IH: "mget ?m k = Some info \<longleftrightarrow> open_lock es info \<and> k = info_key info" for k info using snoc by simp
  have e: "CHR '':'' \<notin> set (oe_DefinitionID e)" "CHR '':'' \<notin> set (oe_OwnerID e)" using snoc.prems by (simp_all add: colon_free_def)
  have key: "info_key info = event_key e \<longleftrightarrow> li_DefinitionID info = oe_DefinitionID e \<and> li_ResourceID info = oe_ResourceID e \<and> li_OwnerID info = oe_OwnerID e"
    if "open_lock es info" for info
    using lockKey_inject[of "li_DefinitionID info" "oe_DefinitionID e" "li_OwnerID info" "oe_OwnerID e"] open_lock_colon_free[OF _ that] snoc.prems e
    by (simp add: info_key_def event_key_def)
  have new: "info_key (event_info e) = event_key e" by (simp add: info_key_def event_key_def event_info_def)
  have snoc_lock: "open_lock (es @ [e]) info \<longleftrightarrow> oe_Kind e = EventAcquireSucceeded \<and> info = event_info e
      \<or> open_lock es info \<and> \<not> (ends_lock e \<and> info_key info = event_key e)"
    unfolding open_lock_snoc using key[of info] by blast
  consider "oe_Kind e = EventAcquireSucceeded" "ends_lock e" | "oe_Kind e \<noteq> EventAcquireSucceeded" "ends_lock e"
    | "oe_Kind e \<noteq> EventAcquireSucceeded" "\<not> ends_lock e" by (auto simp: ends_lock_def)
  then show ?case
  proof cases
    case 1
    then show ?thesis unfolding snoc_lock using IH[of k info] new by (cases "k = event_key e") (auto simp: Consume_locks)
  next
    case 2
    then show ?thesis unfolding snoc_lock using IH[of k info] by (cases "k = event_key e") (auto simp: Consume_locks)
  next
    case 3
    then show ?thesis unfolding snoc_lock using IH[of k info] by (auto simp: Consume_locks)
  qed
qed

end
