(* ===== verification/Inspect_Props.thy ===== *)
theory Inspect_Props
  imports Bridge Runtime_Props
begin

text \<open>
  The inspect store behind the bridge: its history is the tail of what was published, its list of locks is exact, and it agrees with
  the runtime manager.
\<close>

section \<open>History\<close>

definition latest :: "nat \<Rightarrow> 'a list \<Rightarrow> 'a list" where
  "latest n xs = drop (length xs - n) xs"

definition stamped_events :: "(time \<times> ObsEvent) list \<Rightarrow> ObsEvent list" where
  "stamped_events es = map (\<lambda>(now, e). stamped now e) es"

lemma Consume_cap [simp]: "is_historyCap (fold Consume es s) = is_historyCap s"
proof (induction es arbitrary: s)
  case (Cons e es)
  have "is_historyCap (Consume e s) = is_historyCap s"
    by (cases "oe_Kind e") (simp_all add: Consume_def notifySubscribers_def appendToRingLocked_def applyEventLocked_def Let_def)
  then show ?case using Cons by simp
qed simp

text \<open>
  C37. The bridge and the inspect store keep the latest events. After any sequence of events went through the bridge, the dispatcher was
  handed every one of them once, in order; the ring buffer holds exactly the latest of them, as many as its capacity; a query gives
  those of the ring that match, in order; \<^verbatim>\<open>/events\<close> gives the latest matching ones up to its limit; and \<^verbatim>\<open>RecentEvents\<close> gives the
  oldest events of the ring up to its limit.
\<close>

theorem inspect_history_refines:
  assumes "ob_store b = Some (NewInspectStore limits)" and "ob_dispatcher b = Some []" and "c = is_historyCap (NewInspectStore limits)"
    and "ob_store (bridge_run es b) = Some s"
  shows "ob_dispatcher (bridge_run es b) = Some (stamped_events es)
    \<and> ringEventsLocked s = latest c (stamped_events es)
    \<and> Query opts s = filter (\<lambda>e. \<not> query_skips opts e) (latest c (stamped_events es))
    \<and> handleEvents s parse ''GET'' q = EventsBody (latest (nat (events_limit q))
        (filter (\<lambda>e. \<not> query_skips (query_options parse q) e) (latest c (stamped_events es))))
    \<and> RecentEvents n s = (if n \<le> 0 then latest c (stamped_events es) else take (nat n) (latest c (stamped_events es)))"
proof -
  let ?es = "stamped_events es"
  have s: "s = fold Consume ?es (NewInspectStore limits)" using assms(1,4) bridge_run_targets(1)[of es b] by (simp add: stamped_events_def)
  have ok: "ring_ok ?es s" using ring_ok_run[OF ring_ok_New[of limits], of ?es] s by simp
  have cap: "is_historyCap s = c" "is_historyLen s = min (length ?es) c" using s assms(3) ok by (auto simp: ring_ok_def)
  have ring: "ringEventsLocked s = latest c ?es"
    using ring_read_latest[OF ok order_refl] cap by (simp add: ringEventsLocked_def latest_def min_def)
  have query: "Query opts s = filter (\<lambda>e. \<not> query_skips opts e) (latest c ?es)" for opts by (simp add: Query_def ring query_loop_filter)
  have pos: "0 < events_limit q" by (auto simp: events_limit_def split: option.splits)
  have "handleEvents s parse ''GET'' q = EventsBody (latest (nat (events_limit q)) (Query (query_options parse q) s))"
    using pos by (auto simp: handleEvents_def Let_def latest_def nat_diff_distrib')
  moreover have "RecentEvents n s = (if n \<le> 0 then latest c ?es else take (nat n) (latest c ?es))"
  proof (cases "n \<le> 0 \<or> n > int (is_historyLen s)")
    case True
    then show ?thesis using ring cap by (auto simp: RecentEvents_def ringEventsLocked_def latest_def)
  next
    case False
    then have "nat n \<le> is_historyLen s" by linarith
    then show ?thesis using False ring_read_latest[OF ok, of "nat n"] cap(1) by (simp add: RecentEvents_def latest_def)
  qed
  moreover have "ob_dispatcher (bridge_run es b) = Some ?es" using assms(2) bridge_run_targets(2)[of es b] by (simp add: stamped_events_def)
  ultimately show ?thesis using ring by (simp add: query)
qed

definition ex_call :: "EventKind \<Rightarrow> string \<Rightarrow> ObsEvent" where
  "ex_call kind ow = (blank_event kind)\<lparr>oe_DefinitionID := ''order'', oe_ResourceID := ''order:1'', oe_OwnerID := ow, oe_Timestamp := 5\<rparr>"

theorem inspect_history_refines_witness:
  "\<exists>s. ob_store (bridge_run [(1, ex_call EventAcquireStarted ''a''), (2, ex_call EventAcquireSucceeded ''a''), (3, ex_call EventReleased ''a'')]
       \<lparr>ob_store = Some (NewInspectStore [2]), ob_dispatcher = Some []\<rparr>) = Some s
     \<and> ringEventsLocked s = [ex_call EventAcquireSucceeded ''a'', ex_call EventReleased ''a'']
     \<and> RecentEvents 1 s = [ex_call EventAcquireSucceeded ''a'']"
proof -
  let ?es = "[(1, ex_call EventAcquireStarted ''a''), (2, ex_call EventAcquireSucceeded ''a''), (3, ex_call EventReleased ''a'')]"
  let ?b = "\<lparr>ob_store = Some (NewInspectStore [2]), ob_dispatcher = Some []\<rparr>"
  obtain s where s: "ob_store (bridge_run ?es ?b) = Some s" using bridge_run_targets(1)[of ?es ?b] by simp
  have "is_historyCap (NewInspectStore [2]) = 2" by (simp add: NewInspectStore_def WithHistoryLimit_def)
  moreover have "stamped_events ?es = [ex_call EventAcquireStarted ''a'', ex_call EventAcquireSucceeded ''a'', ex_call EventReleased ''a'']"
    by (simp add: stamped_events_def stamped_def ex_call_def zero_time_def duration_units)
  ultimately show ?thesis using inspect_history_refines[OF _ _ refl s, where n = 1 and limits = "[2]"] s by (simp add: latest_def)
qed

section \<open>Locks\<close>

lemma locks_map_ok: "map_ok (is_runtimeLocks s) \<Longrightarrow> map_ok (is_runtimeLocks (fold Consume es s))"
  by (induction es arbitrary: s) (simp_all add: Consume_locks)

text \<open>
  The snapshot lists the open locks. After any sequence of events whose definition and owner identifiers have no colon, the runtime
  locks of the snapshot are, without repetition, those with a successful acquire after which the same definition, resource and owner
  had no release, loss or new acquire; each carries the time of that acquire.
\<close>

lemma inspect_snapshot:
  assumes "list_all colon_free es" and "s = fold Consume es (NewInspectStore limits)"
  shows "set (sn_RuntimeLocks (take_snapshot s)) = {info. open_lock es info} \<and> distinct (sn_RuntimeLocks (take_snapshot s))"
proof -
  have new: "is_runtimeLocks (NewInspectStore limits) = []"
  proof -
    have "is_runtimeLocks (fold WithHistoryLimit limits s) = is_runtimeLocks s" for s
      by (induction limits arbitrary: s) (simp_all add: WithHistoryLimit_def)
    then show ?thesis by (simp add: NewInspectStore_def)
  qed
  let ?m = "is_runtimeLocks s"
  have ok: "map_ok ?m" using locks_map_ok[of "NewInspectStore limits" es] new assms(2) by simp
  have entry: "(k, info) \<in> set ?m \<longleftrightarrow> open_lock es info \<and> k = info_key info" for k info
    using locks_exact[OF assms(1) new] ok assms(2) by (simp add: map_of_eq_Some_iff)
  have "inj_on snd (set ?m)" by (rule inj_onI) (use entry in auto)
  then have "distinct (map snd ?m)" using ok by (simp add: distinct_map)
  moreover have "info \<in> snd ` set ?m \<longleftrightarrow> open_lock es info" for info
    using entry[of "info_key info" info] entry[of _ info] by (metis (no_types, lifting) image_iff prod.collapse snd_conv)
  ultimately show ?thesis by (auto simp: take_snapshot_def)
qed

section \<open>The runtime manager's locks\<close>

definition shows_lock :: "ObsEvent list \<Rightarrow> string \<Rightarrow> string \<Rightarrow> string \<Rightarrow> bool" where
  "shows_lock es d r ow \<longleftrightarrow> (\<exists>info. open_lock es info \<and> li_DefinitionID info = d \<and> li_ResourceID info = r \<and> li_OwnerID info = ow)"

lemma shows_Nil [simp]: "\<not> shows_lock [] d r ow"
  by (simp add: shows_lock_def open_lock_def)

lemma shows_snoc:
  "shows_lock (es @ [e]) d r ow \<longleftrightarrow>
     (if ends_lock e \<and> oe_DefinitionID e = d \<and> oe_ResourceID e = r \<and> oe_OwnerID e = ow then oe_Kind e = EventAcquireSucceeded else shows_lock es d r ow)"
  unfolding shows_lock_def open_lock_snoc by (auto simp: event_info_def ends_lock_def)

lemma shows_quiet: "\<forall>e \<in> set es'. \<not> ends_lock e \<Longrightarrow> shows_lock (es @ es') d r ow = shows_lock es d r ow"
proof (induction es' rule: rev_induct)
  case (snoc e es')
  then show ?case using shows_snoc[of "es @ es'" e] by simp
qed simp

lemma stamped_fields [simp]:
  "oe_Kind (stamped t e) = oe_Kind e" "oe_DefinitionID (stamped t e) = oe_DefinitionID e" "oe_ResourceID (stamped t e) = oe_ResourceID e"
  "oe_OwnerID (stamped t e) = oe_OwnerID e" "ends_lock (stamped t e) = ends_lock e"
  by (simp_all add: stamped_def ends_lock_def)

lemma shows_stamped: "shows_lock (stamped_events es) d r ow = shows_lock (map snd es) d r ow"
proof (induction es rule: rev_induct)
  case (snoc x es)
  obtain t e where x: "x = (t, e)" by (cases x)
  show ?case using snoc shows_snoc[of "stamped_events es" "stamped t e"] shows_snoc[of "map snd es" e] by (simp add: x stamped_events_def)
qed (simp add: stamped_events_def)

definition log_events :: "rt_call list \<Rightarrow> ObsEvent list" where
  "log_events log = List.map_filter runtime_event log"

lemma log_events_simps [simp]:
  "log_events [] = []" "log_events (xs @ ys) = log_events xs @ log_events ys"
  "log_events (c # cs) = (case runtime_event c of None \<Rightarrow> log_events cs | Some e \<Rightarrow> e # log_events cs)"
  by (simp_all add: log_events_def List.map_filter_def split: option.splits)

text \<open>What the parts of \<^verbatim>\<open>ExecuteExclusive\<close> log.\<close>

lemma driver_log:
  "w_log (fst (acquireLease m e ctx def plan ow w)) = w_log w" "w_log (fst (releaseLease m e ctx held w)) = w_log w"
  "w_log (snd (contextWithAcquireTimeout e ctx cfg w)) = w_log w" "w_log (fst (buildAcquirePlan m e def k input w)) = w_log w"
  "w_log (fst (tryAdmitInFlightExecution w)) = w_log w"
  by (auto simp: acquireLease_def releaseLease_def contextWithAcquireTimeout_def buildAcquirePlan_def tryAdmitInFlightExecution_def
    releaseInFlightExecution_def call_driver_def time_now_def Let_def split: option.splits sum.splits prod.splits if_splits)

lemma guard_log:
  "log_events (w_log (remove_guard key w)) = log_events (w_log w)" "log_events (w_log (mark_held key d w)) = log_events (w_log w)"
  by (simp_all add: remove_guard_def mark_held_def recordActiveLocks_def record_call_def add_active_def Let_def)

lemma acquire_log:
  assumes "timed_acquire m e ctx cfg def plan own w = (w', Inl err)"
  shows "shows_lock (log_events (w_log w')) d r ow = shows_lock (log_events (w_log w)) d r ow"
proof -
  obtain c w1 where 1: "contextWithAcquireTimeout e ctx cfg w = (c, w1)" by fastforce
  let ?re = "acquire_event (ld_ID def) (rp_resourceKey plan) own"
  let ?w3 = "publish m (PublishRuntimeAcquireStarted ?re) (w1\<lparr>w_tick := Suc (w_tick w1)\<rparr>)"
  obtain w4 x where 4: "acquireLease m e c def plan (om_OwnerID own) ?w3 = (w4, x)" by fastforce
  have log: "w_log w1 = w_log w" "w_log w4 = w_log ?w3"
    using driver_log(3)[of e ctx cfg w] driver_log(1)[of m e c def plan "om_OwnerID own" ?w3] 1 4 by simp_all
  obtain err' where x: "x = Inl err'" using assms 1 4 by (cases x) (simp_all add: timed_acquire_def time_now_def Let_def)
  have "\<exists>suf. w_log w' = w_log w @ suf \<and> (\<forall>e \<in> set (log_events suf). \<not> ends_lock e)"
    using assms 1 4 log
    by (auto simp: x timed_acquire_def time_now_def Let_def publish_def record_call_def recordAcquireFailure_def recordBridgeAcquireFailure_def
      ends_lock_def full_event_def blank_event_def)
  then show ?thesis using shows_quiet by auto
qed

lemma release_log:
  assumes "mg_bridge m"
  shows "\<not> shows_lock (log_events (w_log (fst (release_held m e d key own held (w, ret))))) d key (om_OwnerID own)"
proof -
  obtain e1 where "log_events (w_log (fst (release_held m e d key own held (w, ret)))) = log_events (w_log w) @ [e1]"
    "oe_Kind e1 = EventReleased" "oe_DefinitionID e1 = d" "oe_ResourceID e1 = key" "oe_OwnerID e1 = om_OwnerID own"
    using assms by (auto simp: release_held_def time_now_def Let_def publish_def record_call_def full_event_def blank_event_def acquire_event_def
      case_prod_beta driver_log(2))
  then show ?thesis by (simp add: shows_snoc ends_lock_def)
qed

lemma exclusive_log:
  assumes "mg_bridge m" and "\<not> shows_lock (log_events (w_log w)) (ld_ID def) (rp_resourceKey plan) (om_OwnerID own)"
  shows "\<not> shows_lock (log_events (w_log (fst (exclusive_guarded m e ctx cfg def plan own fn w)))) (ld_ID def) (rp_resourceKey plan) (om_OwnerID own)"
proof -
  let ?key = "\<lparr>gk_definitionID = ld_ID def, gk_resourceKey = rp_resourceKey plan, gk_ownerID = om_OwnerID own\<rparr>"
  let ?w1 = "w\<lparr>w_active := mput ?key guardPending (w_active w)\<rparr>"
  obtain w2 x where x: "timed_acquire m e ctx cfg def plan own ?w1 = (w2, x)" by fastforce
  show ?thesis
  proof (cases x)
    case (Inl err)
    then show ?thesis using assms(2) x acquire_log[of m e ctx cfg def plan own ?w1 w2 err] by (simp add: exclusive_guarded_def Let_def guard_log)
  next
    case (Inr held)
    obtain w4 ret where "fn ctx (exclusive_lease_context def (rp_resourceKey plan) own held) (mark_held ?key (ld_ID def) w2) = (w4, ret)" by fastforce
    then show ?thesis using assms(2) x Inr release_log[OF assms(1), of e "ld_ID def" "rp_resourceKey plan" own held w4 ret]
      by (auto simp: exclusive_guarded_def Let_def guard_log split: prod.splits)
  qed
qed

text \<open>
  C38. The inspect store shows no lock that the runtime manager has given back. With a bridge, whatever the callback does: if the store
  built from the manager's calls so far does not list a definition, resource and owner, then it does not list them after
  \<^verbatim>\<open>ExecuteExclusive\<close> for them has returned, on whatever path, at whatever times its calls are stamped.
\<close>

theorem inspect_agrees_with_runtime:
  assumes "mg_bridge m" and "Get (mg_registry m) (sy_DefinitionID req) = Some def" and "mget (mg_lineageDefs m) (ld_ID def) \<noteq> Some True"
    and "sy_ResourceKey req = k" and "k \<noteq> []"
    and "\<not> shows_lock (log_events (w_log w)) (ld_ID def) k (om_OwnerID (sy_Ownership req))"
    and "ExecuteExclusive m e ctx req fn w = (w', err)"
    and "map snd es = log_events (w_log w')" and "list_all (colon_free \<circ> snd) es"
    and "s = fold Consume (stamped_events es) (NewInspectStore limits)"
  shows "\<forall>info \<in> set (sn_RuntimeLocks (take_snapshot s)).
    \<not> (li_DefinitionID info = ld_ID def \<and> li_ResourceID info = k \<and> li_OwnerID info = om_OwnerID (sy_Ownership req))"
proof -
  have "\<not> shows_lock (log_events (w_log w')) (ld_ID def) k (om_OwnerID (sy_Ownership req))"
  proof (rule exclusive_plain[OF assms(2-5), of e ctx w])
    fix x assume "\<And>fn. ExecuteExclusive m e ctx req fn w = (w, Some x)"
    then show ?thesis using assms(6,7) by simp
  next
    fix cfg
    assume "\<And>fn. ExecuteExclusive m e ctx req fn w = map_prod releaseInFlightExecution id
        (exclusive_guarded m e ctx cfg def \<lparr>rp_resourceKey = k, rp_lineage = None\<rparr> (sy_Ownership req) fn (w\<lparr>w_inFlight := w_inFlight w + 1\<rparr>))"
    with assms(7) have "w_log w' = w_log (fst (exclusive_guarded m e ctx cfg def \<lparr>rp_resourceKey = k, rp_lineage = None\<rparr> (sy_Ownership req) fn
        (w\<lparr>w_inFlight := w_inFlight w + 1\<rparr>)))" by (auto simp: prod_eq_iff releaseInFlightExecution_def)
    then show ?thesis using exclusive_log[OF assms(1), of "w\<lparr>w_inFlight := w_inFlight w + 1\<rparr>" def "\<lparr>rp_resourceKey = k, rp_lineage = None\<rparr>"] assms(6) by simp
  qed
  then have no: "\<not> shows_lock (stamped_events es) (ld_ID def) k (om_OwnerID (sy_Ownership req))" using shows_stamped assms(8) by simp
  have "list_all colon_free (stamped_events es)" using assms(9) by (auto simp: stamped_events_def list_all_iff colon_free_def)
  from inspect_snapshot[OF this assms(10)] no show ?thesis by (auto simp: shows_lock_def)
qed

definition ex_observed :: "MemoryDriver world" where
  "ex_observed = fst (ExecuteExclusive (ex_manager\<lparr>mg_bridge := True\<rparr>) ex_env background (ex_sync ''a'') (\<lambda>_ _ w. (w, None)) (new_world NewMemoryDriver))"

theorem inspect_agrees_with_runtime_witness:
  "\<lparr>li_DefinitionID = ''order'', li_ResourceID = ''order:1'', li_OwnerID = ''a'', li_At = 7\<rparr>
     \<notin> set (sn_RuntimeLocks (take_snapshot (fold Consume (stamped_events (map (Pair 7) (log_events (w_log ex_observed)))) (NewInspectStore []))))"
proof -
  have "list_all (colon_free \<circ> snd) (map (Pair 7) (log_events (w_log ex_observed)))" by code_simp
  note es = this
  have run: "ExecuteExclusive (ex_manager\<lparr>mg_bridge := True\<rparr>) ex_env background (ex_sync ''a'') (\<lambda>_ _ w. (w, None)) (new_world NewMemoryDriver) =
      (ex_observed, snd (ExecuteExclusive (ex_manager\<lparr>mg_bridge := True\<rparr>) ex_env background (ex_sync ''a'') (\<lambda>_ _ w. (w, None)) (new_world NewMemoryDriver)))"
    by (simp add: ex_observed_def)
  show ?thesis
    using inspect_agrees_with_runtime[where def = ex_parent and k = "''order:1''", OF _ _ _ _ _ _ run _ es refl, where limits = "[]"]
    by (force simp: ex_parent_simps ex_manager_simps Get_def comp_def)
qed

end
