(* ===== verification/Inspect_Client_Props.thy ===== *)
theory Inspect_Client_Props
  imports Inspect_Client Inspect_Props
begin

text \<open>
  The client of the inspect endpoints against the server: the events it asks for are the ones it gets, and a stream gives its caller the
  server's events in order.
\<close>

section \<open>Queries\<close>

text \<open>\<^verbatim>\<open>parseKind\<close> of the server does not know three kinds, which then do not filter; the text form of a time has no fraction of a second.\<close>

definition served_kind :: "EventKind \<Rightarrow> EventKind" where
  "served_kind k = (if k \<in> {EventClientStarted, EventOverlapRejected, EventPresenceChecked} then NoKind else k)"

definition whole_second :: "time \<Rightarrow> time" where
  "whole_second t = t div second * second"

definition asked :: "Filter \<Rightarrow> QueryOptions" where
  "asked f = \<lparr>qo_DefinitionID = fl_DefinitionID f, qo_ResourceID = fl_ResourceID f, qo_OwnerID = fl_OwnerID f, qo_Kind = served_kind (fl_Kind f),
     qo_Since = whole_second (fl_Since f), qo_Until = whole_second (fl_Until f)\<rparr>"

lemma parseKind_kindToString: "parseKind (kindToString k) = served_kind k"
  by (cases k) (simp_all add: parseKind_def served_kind_def)

lemma ParseEventKind_kindToString: "ParseEventKind (kindToString k) = k"
  by (cases k) (simp_all add: ParseEventKind_def)

lemma kindToString_nonempty: "k \<noteq> NoKind \<Longrightarrow> kindToString k \<noteq> []"
  by (cases k) simp_all

lemma whole_second_zero: "whole_second zero_time = zero_time"
  by (simp add: whole_second_def zero_time_def duration_units)

lemma map_ok_set_if [simp]: "map_ok q \<Longrightarrow> map_ok (set_if b k v q)"
  by (simp add: set_if_def)

lemma mget_set_if: "mget (set_if b k v q) k' = (if b \<and> k' = k then Some v else mget q k')"
  by (simp add: set_if_def)

lemma client_limit_range: "0 < client_limit n \<and> client_limit n \<le> 500"
  by (simp add: client_limit_def Let_def defaultLimit_def maxLimit_def)

lemma map_ok_events_query: "map_ok (events_query fmt f)"
  by (simp add: events_query_def)

lemma Itoa_nonempty: "Itoa n \<noteq> []"
  using digits_head[of "nat n"] by (auto simp: Itoa_def)

definition text_form :: "(time \<Rightarrow> string) \<Rightarrow> (string \<Rightarrow> time option) \<Rightarrow> time \<Rightarrow> bool" where
  "text_form fmt parse t \<longleftrightarrow> t = zero_time \<or> fmt t \<noteq> [] \<and> parse (fmt t) = Some (whole_second t)"

lemma server_reads_query:
  assumes "text_form fmt parse (fl_Since f)" and "text_form fmt parse (fl_Until f)"
    and "q = Values_Get (ParseQuery (Encode (events_query fmt f)))"
  shows "query_options parse q = asked f" and "events_limit q = client_limit (fl_Limit f)"
proof -
  have q: "q k = (case mget (events_query fmt f) k of Some v \<Rightarrow> v | None \<Rightarrow> [])" for k
    unfolding assms(3) by (rule query_roundtrip[OF map_ok_events_query])
  have ids: "q ''definition_id'' = fl_DefinitionID f" "q ''resource_id'' = fl_ResourceID f" "q ''owner_id'' = fl_OwnerID f"
    and kind: "q ''kind'' = (if fl_Kind f \<noteq> NoKind then kindToString (fl_Kind f) else [])"
    and since: "q ''since'' = (if fl_Since f \<noteq> zero_time then fmt (fl_Since f) else [])"
    and until: "q ''until'' = (if fl_Until f \<noteq> zero_time then fmt (fl_Until f) else [])"
    and limit: "q ''limit'' = Itoa (client_limit (fl_Limit f))"
    by (simp_all add: q events_query_def mget_set_if)
  have "time_param parse (q ''since'') = whole_second (fl_Since f)" "time_param parse (q ''until'') = whole_second (fl_Until f)"
    using assms(1,2) by (auto simp: since until time_param_def text_form_def whole_second_zero)
  moreover have "(if q ''kind'' = [] then NoKind else parseKind (q ''kind'')) = served_kind (fl_Kind f)"
    using kindToString_nonempty[of "fl_Kind f"] parseKind_kindToString[of "fl_Kind f"]
    by (cases "fl_Kind f = NoKind") (simp_all add: kind served_kind_def del: kindToString.simps)
  ultimately show "query_options parse q = asked f" by (simp add: query_options_def asked_def ids)
  show "events_limit q = client_limit (fl_Limit f)"
    using client_limit_range[of "fl_Limit f"] by (simp add: events_limit_def limit Itoa_nonempty ParseInt64_Itoa)
qed

lemma events_answer:
  assumes "s = fold Consume es (NewInspectStore limits)"
  shows "handleEvents s parse ''GET'' q = EventsBody (latest (nat (events_limit q))
      (filter (\<lambda>e. \<not> query_skips (query_options parse q) e) (latest (is_historyCap (NewInspectStore limits)) es)))"
proof -
  have ok: "ring_ok es s" using ring_ok_run[OF ring_ok_New[of limits], of es] assms by simp
  have "ringEventsLocked s = latest (is_historyCap (NewInspectStore limits)) es"
    using ring_read_latest[OF ok order_refl] ok assms by (auto simp: ringEventsLocked_def latest_def ring_ok_def min_def)
  moreover have "0 < events_limit q" by (auto simp: events_limit_def split: option.splits)
  ultimately show ?thesis by (auto simp: handleEvents_def Let_def latest_def nat_diff_distrib' Query_def query_loop_filter)
qed

text \<open>
  C39. The client gets the events it asks for. Whatever bytes the identifiers of a filter hold, the answer of \<^verbatim>\<open>Events\<close> is the latest events
  of the store that match it, at most its limit clamped to 1 to 500, without their errors: the query survives its encoding, the server's
  decoding and both clamps. The three kinds the server does not know select every kind, and the bounds on times are those of whole
  seconds.
\<close>

theorem inspect_events_roundtrip:
  assumes "s = fold Consume es (NewInspectStore limits)" and "CHR ''?'' \<notin> set root"
    and "text_form fmt parse (fl_Since f)" and "text_form fmt parse (fl_Until f)"
    and "out = latest (nat (client_limit (fl_Limit f))) (filter (\<lambda>e. \<not> query_skips (asked f) e) (latest (is_historyCap (NewInspectStore limits)) es))"
    and "jc_events J (jc_encode J (EventsBody out)) = Inr (map no_error out)"
  shows "Client_Events (connected host (NewHandler root s parse J)) J fmt (host @ root) f = Inr (map no_error out)"
proof -
  let ?raw = "Encode (events_query fmt f)"
  have "cut CHR ''?'' (drop (length host) ((host @ root) @ ''/events?'' @ ?raw)) = (root @ ''/events'', ?raw)"
    using cut_append[of "CHR ''?''" "root @ ''/events''" ?raw] assms(2) by simp
  moreover have "handleEvents s parse ''GET'' (Values_Get (ParseQuery ?raw)) = EventsBody out"
    using events_answer[OF assms(1)] server_reads_query[OF assms(3,4) refl] assms(5) by simp
  ultimately show ?thesis using assms(6)
    by (simp add: Client_Events_def doJSON_def connected_def NewHandler_def http_answer_def)
qed

definition ex_json :: "ObsEvent list \<Rightarrow> json_codec" where
  "ex_json out = \<lparr>jc_encode = (\<lambda>r. ''[]''), jc_snapshot = (\<lambda>t. Inl errTooLong), jc_locks = (\<lambda>t. Inr []), jc_events = (\<lambda>t. Inr out),
     jc_health = (\<lambda>t. Inr []), jc_marshal = (\<lambda>e. kindToString (oe_Kind e) @ ''}''),
     jc_raw = (\<lambda>t. if t \<noteq> [] \<and> last t = CHR ''}'' then Inr t else Inl errTooLong), jc_event = (\<lambda>t. Inr (blank_event (ParseEventKind (butlast t))))\<rparr>"

definition ex_seen :: "EventKind \<Rightarrow> ObsEvent" where
  "ex_seen kind = (blank_event kind)\<lparr>oe_DefinitionID := ''a&b=c'', oe_Timestamp := 1200000000\<rparr>"

definition ex_filter :: Filter where
  "ex_filter = \<lparr>fl_DefinitionID = ''a&b=c'', fl_ResourceID = [], fl_OwnerID = [], fl_Kind = EventReleased, fl_Since = 1500000000, fl_Until = zero_time, fl_Limit = 0\<rparr>"

theorem inspect_events_roundtrip_witness:
  "Client_Events (connected ''http://h'' (NewHandler ''/locks/inspect'' (fold Consume [ex_seen EventAcquireStarted, ex_seen EventReleased] (NewInspectStore [4]))
      (\<lambda>t. map_option (\<lambda>n. n * second) (ParseInt64 t)) (ex_json [ex_seen EventReleased])))
     (ex_json [ex_seen EventReleased]) (\<lambda>t. Itoa (t div second)) (''http://h'' @ ''/locks/inspect'') ex_filter = Inr [ex_seen EventReleased]"
proof -
  let ?es = "[ex_seen EventAcquireStarted, ex_seen EventReleased]" and ?J = "ex_json [ex_seen EventReleased]"
  have t: "text_form (\<lambda>t. Itoa (t div second)) (\<lambda>t. map_option (\<lambda>n. n * second) (ParseInt64 t)) (fl_Since ex_filter)"
    using Itoa_nonempty by (simp add: text_form_def ex_filter_def whole_second_def duration_units ParseInt64_Itoa)
  have u: "text_form (\<lambda>t. Itoa (t div second)) (\<lambda>t. map_option (\<lambda>n. n * second) (ParseInt64 t)) (fl_Until ex_filter)"
    by (simp add: text_form_def ex_filter_def)
  have cap: "is_historyCap (NewInspectStore [4]) = 4" by (simp add: NewInspectStore_def WithHistoryLimit_def)
  have out: "latest (nat (client_limit (fl_Limit ex_filter))) (filter (\<lambda>e. \<not> query_skips (asked ex_filter) e) (latest 4 ?es)) = [ex_seen EventReleased]"
    by (simp add: latest_def client_limit_def defaultLimit_def maxLimit_def ex_filter_def asked_def served_kind_def query_skips_def ex_seen_def blank_event_def
        whole_second_def zero_time_def duration_units)
  have e: "map no_error [ex_seen EventReleased] = [ex_seen EventReleased]" by (simp add: no_error_def ex_seen_def blank_event_def)
  show ?thesis
    using inspect_events_roundtrip[where es = ?es and limits = "[4]" and J = ?J and f = ex_filter and out = "[ex_seen EventReleased]"
        and host = "''http://h''" and root = "''/locks/inspect''", OF refl _ t u] out e
    by (simp add: cap) (simp add: ex_json_def)
qed

section \<open>Streams\<close>

text \<open>What the parser makes of frames: the bytes of the events, as far as the body goes.\<close>

definition event_codec :: "json_codec \<Rightarrow> ObsEvent \<Rightarrow> bool" where
  "event_codec J e \<longleftrightarrow> (let t = jc_marshal J e in
     jc_raw J t = Inr t \<and> jc_event J t = Inr (no_error e) \<and> CHR 0x0A \<notin> set t \<and> CHR 0x0D \<notin> set t \<and> length t + 6 < 64 * 1024
     \<and> list_all (\<lambda>n. \<not> isl (jc_raw J (take n t)) \<longrightarrow> n = length t) [0..<Suc (length t)])"

definition raws :: "string result list \<Rightarrow> string list" where
  "raws xs = concat (map (\<lambda>x. case x of Inr r \<Rightarrow> [r] | Inl _ \<Rightarrow> []) xs)"

lemma raws_simps [simp]: "raws [] = []" "raws (Inr r # xs) = r # raws xs" "raws (Inl e # xs) = raws xs" "raws (xs @ ys) = raws xs @ raws ys"
  by (simp_all add: raws_def)

lemma raw_lines_frame: "CHR 0x0A \<notin> set l \<Longrightarrow> raw_lines (l @ CHR 0x0A # CHR 0x0A # rest) = l # [] # raw_lines rest"
  using cut_append[of "CHR 0x0A" l "CHR 0x0A # rest"] cut_append[of "CHR 0x0A" "[]" rest]
  by (simp add: raw_lines.simps[of "l @ _"] raw_lines.simps[of "CHR 0x0A # rest"])

lemma raw_lines_part: "CHR 0x0A \<notin> set l \<Longrightarrow> l \<noteq> [] \<Longrightarrow> raw_lines l = [l] \<and> raw_lines (l @ [CHR 0x0A]) = [l]"
  using cut_none[of "CHR 0x0A" l] cut_append[of "CHR 0x0A" l "[]"] by (simp add: raw_lines.simps[of l] raw_lines.simps[of "l @ _"] raw_lines.simps[of "[]"])

lemma drop_cr_id: "CHR 0x0D \<notin> set l \<Longrightarrow> drop_cr l = l"
  by (auto simp: drop_cr_def dest: last_in_set)

lemma event_codecD:
  assumes "event_codec J e" and "t = jc_marshal J e"
  shows "jc_raw J t = Inr t" "jc_event J t = Inr (no_error e)" "CHR 0x0A \<notin> set (''data: '' @ t)" "CHR 0x0D \<notin> set (''data: '' @ t)" "line_fits (''data: '' @ t)"
    and "n < length t \<Longrightarrow> isl (jc_raw J (take n t))"
  using assms by (auto simp: event_codec_def Let_def line_fits_def list_all_iff)

lemma ParseEvents_frame:
  assumes "event_codec J e"
  shows "ParseEvents J (stream_frame J e @ rest) err = Inr (jc_marshal J e) # ParseEvents J rest err"
proof -
  let ?l = "''data: '' @ jc_marshal J e"
  note codec = event_codecD[OF assms refl]
  have lines: "raw_lines (stream_frame J e @ rest) = ?l # [] # raw_lines rest" using raw_lines_frame[OF codec(3)] by (simp add: stream_frame_def)
  have "line_fits []" by (simp add: line_fits_def)
  then have "scanned (stream_frame J e @ rest) = ?l # [] # scanned rest" "scanner_err (stream_frame J e @ rest) err = scanner_err rest err"
    using codec(5) drop_cr_id[OF codec(4)] lines by (simp_all add: scanned_def drop_cr_def scanner_err_def)
  then show ?thesis using codec(1) by (simp add: ParseEvents_def flushData_def)
qed

lemma raws_ParseEvents: "raws (ParseEvents J body err) = raws (parse_lines (jc_raw J) (scanned body) [])"
  by (simp add: ParseEvents_def split: option.split)

lemma ParseEvents_line:
  assumes "event_codec J e" and "prefix l (''data: '' @ jc_marshal J e)" and "l \<noteq> []" and "raw_lines body = [l]"
  shows "prefix (raws (ParseEvents J body err)) [jc_marshal J e]"
proof -
  let ?t = "jc_marshal J e"
  note codec = event_codecD[OF assms(1) refl]
  have l: "CHR 0x0D \<notin> set l" "line_fits l"
    using codec(4) set_mono_prefix[OF assms(2)] codec(5) prefix_length_le[OF assms(2)] by (blast, simp add: line_fits_def)
  then have sc: "scanned body = [l]" using assms(4) drop_cr_id[OF l(1)] by (simp add: scanned_def)
  show ?thesis
  proof (cases "take 6 l = ''data: ''")
    case True
    then have "l = ''data: '' @ drop 6 l" by (metis append_take_drop_id)
    then have "prefix (drop 6 l) ?t" using assms(2) by (metis same_prefix_prefix)
    then obtain n where n: "drop 6 l = take n ?t" "n \<le> length ?t" by (metis prefixE append_eq_conv_conj prefix_length_le)
    then have "raws [jc_raw J (drop 6 l)] \<in> {[], [?t]}" using codec(1) codec(6)[of n] by (cases "n = length ?t") (auto simp: isl_def)
    then show ?thesis using True assms(3) sc by (auto simp: raws_ParseEvents flushData_def)
  next
    case False
    then show ?thesis using assms(3) sc by (simp add: raws_ParseEvents flushData_def)
  qed
qed

lemma frame_cases:
  assumes "prefix body (l @ x # y # rest)"
  obtains (full) r where "body = l @ x # y # r" "prefix r rest" | (line) "prefix body l" | (ended) "body = l @ [x]"
proof -
  from assms consider "prefix body l" | us where "body = l @ us" "prefix us (x # y # rest)" by (auto simp: prefix_append)
  then show thesis
  proof cases
    case 2
    then have "us = [] \<or> us = [x] \<or> (\<exists>r. us = x # y # r \<and> prefix r rest)" by (auto simp: prefix_Cons)
    then show ?thesis using 2(1) line ended full by auto
  qed (rule line)
qed

text \<open>A body that ends anywhere, within a frame too, gives the first events and no other.\<close>

lemma parsed_prefix:
  "list_all (event_codec J) ts \<Longrightarrow> prefix body (concat (map (stream_frame J) ts)) \<Longrightarrow> prefix (raws (ParseEvents J body err)) (map (jc_marshal J) ts)"
proof (induction ts arbitrary: body)
  case Nil
  then show ?case by (simp add: raws_ParseEvents scanned_def raw_lines.simps flushData_def)
next
  case (Cons e ts)
  let ?l = "''data: '' @ jc_marshal J e"
  have e: "event_codec J e" using Cons.prems(1) by simp
  have first: "prefix rs [jc_marshal J e] \<Longrightarrow> prefix rs (map (jc_marshal J) (e # ts))" for rs by (auto simp: prefix_Cons)
  from Cons.prems(2) have "prefix body (?l @ CHR 0x0A # CHR 0x0A # concat (map (stream_frame J) ts))" by (simp add: stream_frame_def[of J e])
  then show ?case
  proof (cases rule: frame_cases)
    case (full r)
    then have "body = stream_frame J e @ r" by (simp add: stream_frame_def)
    then show ?thesis using Cons.IH[OF _ full(2)] Cons.prems(1) ParseEvents_frame[OF e] by simp
  next
    case line
    show ?thesis
    proof (cases "body = []")
      case True
      then show ?thesis by (simp add: raws_ParseEvents scanned_def raw_lines.simps flushData_def)
    next
      case False
      moreover have "CHR 0x0A \<notin> set body" using set_mono_prefix[OF line] event_codecD(3)[OF e refl] by blast
      ultimately have "raw_lines body = [body]" using raw_lines_part[of body] by simp
      from first[OF ParseEvents_line[OF e line False this]] show ?thesis .
    qed
  next
    case ended
    then have "raw_lines body = [?l]" using raw_lines_part[of ?l] event_codecD(3)[OF e refl] by simp
    from first[OF ParseEvents_line[OF e prefix_order.order_refl _ this]] show ?thesis by simp
  qed
qed

subsection \<open>The client's goroutine\<close>

definition decoded :: "json_codec \<Rightarrow> string list \<Rightarrow> ObsEvent list" where
  "decoded J rs = concat (map (\<lambda>r. case jc_event J r of Inr e \<Rightarrow> [e] | Inl _ \<Rightarrow> []) rs)"

lemma decoded_simps [simp]:
  "decoded J [] = []" "decoded J (r # rs) = (case jc_event J r of Inr e \<Rightarrow> [e] | Inl _ \<Rightarrow> []) @ decoded J rs" "decoded J (rs @ rs') = decoded J rs @ decoded J rs'"
  by (simp_all add: decoded_def)

fun in_hand :: "stream_pc \<Rightarrow> ObsEvent list" where
  "in_hand (SendEvent e) = [e]" | "in_hand _ = []"

text \<open>Every decoded event is with the caller, in the channel, in the goroutine's hands or still to come; the rest is lost only at the end.\<close>

definition stream_inv :: "json_codec \<Rightarrow> string result list \<Rightarrow> StreamClient \<Rightarrow> bool" where
  "stream_inv J emitted c \<longleftrightarrow> (\<exists>rest. sc_received c @ sc_eventCh c @ in_hand (sc_pc c) @ rest = decoded J (raws emitted)
     \<and> (sc_pc c \<noteq> StreamEnded \<longrightarrow> rest = decoded J (sc_rawCh c @ raws (sc_parser c))))"

lemma stream_inv_new: "stream_inv J emitted (new_stream emitted)"
  by (simp add: stream_inv_def new_stream_def)

lemma stream_inv_end: "stream_inv J emitted c \<Longrightarrow> stream_inv J emitted (c\<lparr>sc_pc := StreamEnded\<rparr>)"
  by (cases "sc_pc c") (auto simp: stream_inv_def)

lemma stream_inv_step:
  assumes "stream_inv J emitted c" and "stream_act_step J a c = Some c'"
  shows "stream_inv J emitted c'"
proof (cases a)
  case ParserStep
  with assms show ?thesis by (auto simp: parser_step_def stream_inv_def split: list.splits sum.splits if_splits)
next
  case TakeRaw
  show ?thesis
  proof (cases "sc_rawCh c")
    case Nil
    then show ?thesis using assms TakeRaw stream_inv_end by (auto simp: take_raw_def split: if_splits)
  next
    case (Cons raw rest)
    then show ?thesis using assms TakeRaw by (auto simp: take_raw_def stream_inv_def split: if_splits sum.splits)
  qed
next
  case TakeRawErr
  show ?thesis
  proof (cases "sc_rawErrCh c")
    case Nil
    then show ?thesis using assms TakeRawErr stream_inv_end by (auto simp: take_rawErr_def split: if_splits)
  next
    case (Cons err rest)
    then show ?thesis using assms TakeRawErr by (auto simp: take_rawErr_def stream_inv_def split: if_splits)
  qed
next
  case TakeDone
  then show ?thesis using assms stream_inv_end by (auto simp: take_done_def split: if_splits stream_pc.splits)
next
  case SendStep
  then show ?thesis using assms by (auto simp: send_step_def stream_inv_def split: if_splits stream_pc.splits)
qed (use assms in \<open>auto simp: stream_inv_def split: list.splits\<close>)

lemma stream_inv_acts: "stream_acts J as c = Some c' \<Longrightarrow> stream_inv J emitted c \<Longrightarrow> stream_inv J emitted c'"
  by (induction as arbitrary: c) (auto simp: bind_eq_Some_conv intro: stream_inv_step)

lemma decoded_prefix: "prefix rs rs' \<Longrightarrow> prefix (decoded J rs) (decoded J rs')"
  by (auto simp: prefix_def)

lemma decoded_marshal: "list_all (event_codec J) ts \<Longrightarrow> decoded J (map (jc_marshal J) ts) = map no_error ts"
  by (induction ts) (auto simp: event_codecD(2)[OF _ refl])

subsection \<open>The server's handler\<close>

text \<open>
  A run of the handler: events reach the store (\<open>es\<close>), the handler takes some from its channel (\<open>ts\<close>) and writes them (\<open>body\<close>).
\<close>

inductive served :: "json_codec \<Rightarrow> nat \<Rightarrow> InspectStore \<Rightarrow> ObsEvent list \<Rightarrow> ObsEvent list \<Rightarrow> string \<Rightarrow> InspectStore \<Rightarrow> bool"
  for J :: json_codec and ch :: nat and s0 :: InspectStore where
  served_open: "mget (is_subs s0) ch = None \<Longrightarrow> served J ch s0 [] [] [] (stream_open ch s0)"
| served_event: "served J ch s0 es ts body s \<Longrightarrow> served J ch s0 (es @ [e]) ts body (Consume e s)"
| served_take: "served J ch s0 es ts body s \<Longrightarrow> mget (is_subs s) ch = Some (cap, e # buf) \<Longrightarrow> stream_take J ch s = Some (frame, s')
    \<Longrightarrow> served J ch s0 es (ts @ [e]) (body @ frame) s'"

lemma Consume_subs: "mget (is_subs (Consume e s)) ch = map_option (\<lambda>(cap, buf). (cap, if length buf < cap then buf @ [e] else buf)) (mget (is_subs s) ch)"
proof -
  have "is_subs (applyEventLocked e s) = is_subs s" by (cases "oe_Kind e") (simp_all add: applyEventLocked_def Let_def)
  moreover have "mget (map (\<lambda>(ch, cap, buf). (ch, cap, if length buf < cap then buf @ [e] else buf)) m) ch
      = map_option (\<lambda>(cap, buf). (cap, if length buf < cap then buf @ [e] else buf)) (mget m ch)" for m
    by (induction m) auto
  ultimately show ?thesis by (simp add: Consume_def notifySubscribers_def appendToRingLocked_def)
qed

lemma served_inv:
  "served J ch s0 es ts body s \<Longrightarrow> body = concat (map (stream_frame J) ts)
    \<and> (\<exists>buf. mget (is_subs s) ch = Some (64, buf) \<and> length buf \<le> 64 \<and> subseq (ts @ buf) es)"
proof (induction rule: served.induct)
  case served_open
  then show ?case by (simp add: stream_open_def Subscribe_def)
next
  case (served_event es ts body s e)
  then obtain buf where "mget (is_subs s) ch = Some (64, buf)" "length buf \<le> 64" "subseq (ts @ buf) es" by blast
  moreover have "subseq (ts @ buf) (es @ [e])" "subseq (ts @ buf @ [e]) (es @ [e])"
    using calculation(3) list_emb_append_mono[of "(=)" "ts @ buf" es "[e]" "[e]"] by (auto intro: subseq_order.order_trans)
  ultimately show ?case using served_event.IH by (auto simp: Consume_subs)
next
  case (served_take es ts body s cap e buf frame s')
  then show ?case by (auto simp: stream_take_def)
qed

lemma parsed_frames: "list_all (event_codec J) ts \<Longrightarrow> raws (ParseEvents J (concat (map (stream_frame J) ts)) err) = map (jc_marshal J) ts"
proof (induction ts)
  case (Cons e ts)
  then show ?case using ParseEvents_frame[of J e "concat (map (stream_frame J) ts)"] by simp
qed (simp add: raws_ParseEvents scanned_def raw_lines.simps flushData_def)

text \<open>
  C40. A stream gives its caller the server's events in order. However publishing, the server's handler, the parser, the client's goroutine
  and its caller interleave, and wherever the connection breaks off: what the caller received and what is buffered for it is a prefix of
  the events the handler took from its channel, and those are a subsequence of the events the store consumed. While the goroutine runs
  nothing is lost: once the parser is through with a whole body, every event of it is received, buffered or being sent.
\<close>

theorem inspect_stream_in_order:
  assumes "served J ch s0 es ts body s" and "list_all (event_codec J) ts" and "prefix arrived body"
    and "tp_request tp (baseURL @ ''/stream'') = None" and "tp_do tp (baseURL @ ''/stream'') = Inr (200, arrived)"
    and "stream_acts J acts (Client_Stream tp J baseURL readErr) = Some c"
  shows "prefix (sc_received c @ sc_eventCh c) (map no_error ts) \<and> subseq ts es
    \<and> (arrived = body \<and> sc_pc c \<noteq> StreamEnded \<and> sc_parser c = [] \<and> sc_rawCh c = [] \<longrightarrow>
        sc_received c @ sc_eventCh c @ in_hand (sc_pc c) = map no_error ts)"
proof -
  let ?emitted = "ParseEvents J arrived readErr"
  have body: "body = concat (map (stream_frame J) ts)" and sub: "subseq ts es"
    using served_inv[OF assms(1)] by (auto intro: subseq_order.order_trans[OF prefix_imp_subseq[OF prefixI[OF refl]]])
  have "Client_Stream tp J baseURL readErr = new_stream ?emitted" using assms(4,5) by (simp add: Client_Stream_def)
  then have inv: "stream_inv J ?emitted c" using stream_inv_acts[OF _ stream_inv_new] assms(6) by metis
  have "prefix (decoded J (raws ?emitted)) (map no_error ts)"
    using decoded_prefix[OF parsed_prefix[OF assms(2)], of arrived J readErr] assms(3) body decoded_marshal[OF assms(2)] by simp
  moreover have "prefix (sc_received c @ sc_eventCh c) (decoded J (raws ?emitted))" using inv unfolding stream_inv_def prefix_def by (metis append.assoc)
  moreover have "decoded J (raws ?emitted) = map no_error ts" if "arrived = body"
    using that body parsed_frames[OF assms(2)] decoded_marshal[OF assms(2)] by simp
  ultimately show ?thesis using sub inv by (auto simp: stream_inv_def intro: prefix_order.order_trans)
qed

definition ex_inspect :: InspectStore where
  "ex_inspect = NewInspectStore [2]"

lemma ex_event_codec: "event_codec (ex_json []) (blank_event EventReleased)"
  by (simp add: event_codec_def ex_json_def Let_def no_error_def blank_event_def ParseEventKind_def upt_rec)

theorem inspect_stream_in_order_witness:
  "\<exists>c. stream_acts (ex_json []) [ParserStep, TakeRaw, SendStep, ReceiveEvent]
       (Client_Stream \<lparr>tp_request = (\<lambda>u. None), tp_do = (\<lambda>u. Inr (200, stream_frame (ex_json []) (blank_event EventReleased)))\<rparr> (ex_json []) ''http://h'' None) = Some c
     \<and> sc_received c @ sc_eventCh c @ in_hand (sc_pc c) = [blank_event EventReleased]"
proof -
  let ?J = "ex_json []" and ?e = "blank_event EventReleased"
  let ?tp = "\<lparr>tp_request = (\<lambda>u :: string. None :: go_err), tp_do = (\<lambda>u :: string. Inr (200 :: nat, stream_frame ?J ?e) :: (nat \<times> string) result)\<rparr>"
  let ?s = "Consume ?e (stream_open 0 ex_inspect)"
  have subs: "mget (is_subs ?s) 0 = Some (64, [?e])"
    by (simp add: Consume_subs stream_open_def Subscribe_def ex_inspect_def NewInspectStore_def WithHistoryLimit_def)
  then obtain s' where "stream_take ?J 0 ?s = Some (stream_frame ?J ?e, s')" by (simp add: stream_take_def)
  from served_take[OF served_event[OF served_open, of ex_inspect 0 ?J ?e] subs this]
  have sv: "served ?J 0 ex_inspect [?e] [?e] (stream_frame ?J ?e) s'" by (simp add: ex_inspect_def NewInspectStore_def WithHistoryLimit_def)
  have parsed: "ParseEvents ?J (stream_frame ?J ?e) None = [Inr (jc_marshal ?J ?e)]"
    using ParseEvents_frame[OF ex_event_codec, of "[]" None] by (simp add: ParseEvents_def scanned_def scanner_err_def raw_lines.simps flushData_def)
  obtain c where c: "stream_acts ?J [ParserStep, TakeRaw, SendStep, ReceiveEvent] (Client_Stream ?tp ?J ''http://h'' None) = Some c"
      "sc_pc c = AtSelect" "sc_parser c = []" "sc_rawCh c = []"
    using event_codecD(2)[OF ex_event_codec refl] by (simp add: Client_Stream_def parsed new_stream_def parser_step_def take_raw_def send_step_def)
  have "list_all (event_codec ?J) [?e]" by (simp add: ex_event_codec)
  from inspect_stream_in_order[OF sv this prefix_order.order_refl _ _ c(1)] c show ?thesis by (simp add: no_error_def blank_event_def)
qed

text \<open>
  The end of a stream can take events with it: the parser closes its channel of errors first, and the goroutine ends when it sees that,
  although events are still in the other channel.
\<close>

theorem stream_tail_lost:
  "\<exists>c. stream_acts (ex_json []) [ParserStep, ParserStep, TakeRawErr] (new_stream [Inr ''released}'']) = Some c
     \<and> sc_pc c = StreamEnded \<and> sc_received c = [] \<and> sc_eventCh c = [] \<and> sc_rawCh c \<noteq> []"
  by (simp add: new_stream_def parser_step_def take_rawErr_def)

end
