(* ===== verification/Sinks.thy ===== *)
theory Sinks
  imports Bridge
begin

text \<open>
  The metric sinks: \<^verbatim>\<open>src/observe/prometheus/sink.go\<close> and \<^verbatim>\<open>src/observe/otel/sink.go\<close>. The client libraries are represented by the calls made to
  them, in order; durations are passed in seconds as floating point numbers, the log has them in nanoseconds.
\<close>

section \<open>Prometheus\<close>

datatype instrument = CounterVec | GaugeVec | HistogramVec "int list"

text \<open>A registered metric: namespace, subsystem, name, kind (with its bucket bounds in milliseconds) and labels.\<close>

record metric_desc =
  md_Namespace :: string
  md_Subsystem :: string
  md_Name :: string
  md_Kind :: instrument
  md_Labels :: "string list"

datatype prom_call = PromInc string "string list" | PromObserve string "string list" duration | PromSet string "string list" int

record PrometheusSink =
  pr_metrics :: "metric_desc list"
  pr_activeLocksMap :: "(string \<times> string, int) gomap"
  pr_calls :: "prom_call list"

definition NewPrometheusSink :: "string \<Rightarrow> string \<Rightarrow> PrometheusSink" where
  "NewPrometheusSink cfgNamespace subsystem =
     (let metric = (\<lambda>name kind labels. \<lparr>md_Namespace = (if cfgNamespace = [] then ''lockman'' else cfgNamespace), md_Subsystem = subsystem,
        md_Name = name, md_Kind = kind, md_Labels = labels\<rparr>) in
      \<lparr>pr_metrics = [
         metric ''acquire_total'' CounterVec [''definition_id'', ''outcome''],
         metric ''acquire_duration_seconds'' (HistogramVec [1, 5, 10, 25, 50, 100, 250, 500, 1000, 2500, 5000, 10000]) [''definition_id''],
         metric ''hold_duration_seconds'' (HistogramVec [10, 50, 100, 250, 500, 1000, 2500, 5000, 10000, 30000, 60000, 300000]) [''definition_id''],
         metric ''contention_total'' CounterVec [''definition_id''],
         metric ''active_locks'' GaugeVec [''definition_id'', ''owner_id''],
         metric ''renewal_total'' CounterVec [''definition_id'', ''outcome'']],
       pr_activeLocksMap = [], pr_calls = []\<rparr>)"

definition prom_log :: "prom_call \<Rightarrow> PrometheusSink \<Rightarrow> PrometheusSink" where
  "prom_log c s = s\<lparr>pr_calls := pr_calls s @ [c]\<rparr>"

text \<open>A missing entry of the map reads as zero.\<close>

definition activeLocks_of :: "PrometheusSink \<Rightarrow> string \<Rightarrow> string \<Rightarrow> int" where
  "activeLocks_of s defID ownerID = (case mget (pr_activeLocksMap s) (defID, ownerID) of Some n \<Rightarrow> n | None \<Rightarrow> 0)"

definition incrementActiveLock :: "string \<Rightarrow> string \<Rightarrow> PrometheusSink \<Rightarrow> PrometheusSink" where
  "incrementActiveLock defID ownerID s =
     (let n = activeLocks_of s defID ownerID + 1 in
      prom_log (PromSet ''active_locks'' [defID, ownerID] n) (s\<lparr>pr_activeLocksMap := mput (defID, ownerID) n (pr_activeLocksMap s)\<rparr>))"

definition decrementActiveLock :: "string \<Rightarrow> string \<Rightarrow> PrometheusSink \<Rightarrow> PrometheusSink" where
  "decrementActiveLock defID ownerID s =
     (let s' = if activeLocks_of s defID ownerID > 0
               then s\<lparr>pr_activeLocksMap := mput (defID, ownerID) (activeLocks_of s defID ownerID - 1) (pr_activeLocksMap s)\<rparr> else s in
      if activeLocks_of s' defID ownerID = 0 then prom_log (PromSet ''active_locks'' [defID, ownerID] 0) s'
      else prom_log (PromSet ''active_locks'' [defID, ownerID] (activeLocks_of s' defID ownerID)) s')"

definition observe_if :: "string \<Rightarrow> string \<Rightarrow> duration \<Rightarrow> PrometheusSink \<Rightarrow> PrometheusSink" where
  "observe_if name defID d s = (if d > 0 then prom_log (PromObserve name [defID] d) s else s)"

definition Prometheus_Consume :: "ObsEvent \<Rightarrow> PrometheusSink \<Rightarrow> PrometheusSink" where
  "Prometheus_Consume event s = (let defID = oe_DefinitionID event in case oe_Kind event of
     EventAcquireSucceeded \<Rightarrow> incrementActiveLock defID (oe_OwnerID event)
       (observe_if ''acquire_duration_seconds'' defID (oe_Wait event) (prom_log (PromInc ''acquire_total'' [defID, ''success'']) s))
   | EventAcquireFailed \<Rightarrow> observe_if ''acquire_duration_seconds'' defID (oe_Wait event) (prom_log (PromInc ''acquire_total'' [defID, ''failure'']) s)
   | EventReleased \<Rightarrow> decrementActiveLock defID (oe_OwnerID event) (observe_if ''hold_duration_seconds'' defID (oe_Held event) s)
   | EventContention \<Rightarrow> prom_log (PromInc ''contention_total'' [defID]) s
   | EventLeaseLost \<Rightarrow> decrementActiveLock defID (oe_OwnerID event) s
   | EventRenewalSucceeded \<Rightarrow> prom_log (PromInc ''renewal_total'' [defID, ''success'']) s
   | EventRenewalFailed \<Rightarrow> prom_log (PromInc ''renewal_total'' [defID, ''failure'']) s
   | _ \<Rightarrow> s)"

section \<open>OpenTelemetry\<close>

text \<open>Attributes are pairs; a span is its name, attributes and the error it records.\<close>

datatype otel_call = OtelAdd string "(string \<times> string) list" | OtelRecord string "(string \<times> string) list" duration | OtelSpan string "(string \<times> string) list" go_err

record OTelSink =
  ot_tracer :: bool
  ot_meter :: bool
  ot_calls :: "otel_call list"

definition NewOTelSink :: "bool \<Rightarrow> bool \<Rightarrow> OTelSink" where
  "NewOTelSink tracerProvider meterProvider = \<lparr>ot_tracer = tracerProvider, ot_meter = meterProvider, ot_calls = []\<rparr>"

definition commonAttributes :: "ObsEvent \<Rightarrow> (string \<times> string) list" where
  "commonAttributes event = [(''lockman.definition_id'', oe_DefinitionID event)]"

definition with_outcome :: "bool \<Rightarrow> ObsEvent \<Rightarrow> (string \<times> string) list" where
  "with_outcome failed event = commonAttributes event @ [(''lockman.outcome'', if failed then ''failure'' else ''success'')]"

definition metric_calls :: "ObsEvent \<Rightarrow> otel_call list" where
  "metric_calls event = (let attrs = commonAttributes event;
       acquired = (\<lambda>failed. OtelAdd ''lockman.acquire.total'' (with_outcome failed event)
         # (if oe_Wait event > 0 then [OtelRecord ''lockman.acquire.duration'' attrs (oe_Wait event)] else [])) in
     case oe_Kind event of
       EventAcquireSucceeded \<Rightarrow> acquired False
     | EventAcquireFailed \<Rightarrow> acquired True
     | EventContention \<Rightarrow> [OtelAdd ''lockman.contention.count'' attrs]
     | EventReleased \<Rightarrow> if oe_Held event > 0 then [OtelRecord ''lockman.hold.duration'' attrs (oe_Held event)] else []
     | EventRenewalSucceeded \<Rightarrow> [OtelAdd ''lockman.renewal.total'' (with_outcome False event)]
     | EventRenewalFailed \<Rightarrow> [OtelAdd ''lockman.renewal.total'' (with_outcome True event)]
     | _ \<Rightarrow> [])"

definition recordMetrics :: "ObsEvent \<Rightarrow> OTelSink \<Rightarrow> OTelSink" where
  "recordMetrics event s = (if \<not> ot_meter s then s else s\<lparr>ot_calls := ot_calls s @ metric_calls event\<rparr>)"

definition recordSpan :: "ObsEvent \<Rightarrow> OTelSink \<Rightarrow> OTelSink" where
  "recordSpan event s = (if \<not> ot_tracer s then s
     else s\<lparr>ot_calls := ot_calls s @ [OtelSpan (''lockman.'' @ EventKind_String (oe_Kind event)) (commonAttributes event) (oe_Error event)]\<rparr>)"

definition OTel_Consume :: "ObsEvent \<Rightarrow> OTelSink \<Rightarrow> OTelSink" where
  "OTel_Consume event s = recordSpan event (recordMetrics event s)"

section \<open>The gauge of active locks\<close>

text \<open>Up on an acquire, down on a release or a loss, never below zero.\<close>

definition counts_up :: "string \<Rightarrow> string \<Rightarrow> ObsEvent \<Rightarrow> bool" where
  "counts_up d ow e \<longleftrightarrow> oe_Kind e = EventAcquireSucceeded \<and> oe_DefinitionID e = d \<and> oe_OwnerID e = ow"

definition counts_down :: "string \<Rightarrow> string \<Rightarrow> ObsEvent \<Rightarrow> bool" where
  "counts_down d ow e \<longleftrightarrow> oe_Kind e \<in> {EventReleased, EventLeaseLost} \<and> oe_DefinitionID e = d \<and> oe_OwnerID e = ow"

definition gauge_move :: "string \<Rightarrow> string \<Rightarrow> ObsEvent \<Rightarrow> int \<Rightarrow> int" where
  "gauge_move d ow e n = (if counts_up d ow e then n + 1 else if counts_down d ow e then max 0 (n - 1) else n)"

definition gauge_sets :: "string \<Rightarrow> string \<Rightarrow> prom_call list \<Rightarrow> int list" where
  "gauge_sets d ow cs = concat (map (\<lambda>c. case c of PromSet name labels n \<Rightarrow> if labels = [d, ow] then [n] else [] | _ \<Rightarrow> []) cs)"

definition gauge_value :: "PrometheusSink \<Rightarrow> string \<Rightarrow> string \<Rightarrow> int" where
  "gauge_value s d ow = (case rev (gauge_sets d ow (pr_calls s)) of n # _ \<Rightarrow> n | [] \<Rightarrow> 0)"

definition prom_ok :: "PrometheusSink \<Rightarrow> bool" where
  "prom_ok s \<longleftrightarrow> (\<forall>d ow. 0 \<le> activeLocks_of s d ow \<and> gauge_value s d ow = activeLocks_of s d ow)"

lemma gauge_sets_snoc: "gauge_sets d ow (cs @ [c]) = gauge_sets d ow cs @ (case c of PromSet name labels n \<Rightarrow> if labels = [d, ow] then [n] else [] | _ \<Rightarrow> [])"
  by (simp add: gauge_sets_def)

lemma prom_log_other [simp]:
  "activeLocks_of (prom_log c s) d ow = activeLocks_of s d ow"
  "gauge_value (prom_log c s) d ow = (case c of PromSet name labels n \<Rightarrow> if labels = [d, ow] then n else gauge_value s d ow | _ \<Rightarrow> gauge_value s d ow)"
  by (auto simp: prom_log_def activeLocks_of_def gauge_value_def gauge_sets_snoc split: prom_call.split)

lemma observe_if_other [simp]: "activeLocks_of (observe_if name x t s) d ow = activeLocks_of s d ow" "gauge_value (observe_if name x t s) d ow = gauge_value s d ow"
  by (simp_all add: observe_if_def)

lemma active_update [simp]:
  "activeLocks_of (s\<lparr>pr_activeLocksMap := mput k n (pr_activeLocksMap s)\<rparr>) d ow = (if k = (d, ow) then n else activeLocks_of s d ow)"
  "gauge_value (s\<lparr>pr_activeLocksMap := m\<rparr>) d ow = gauge_value s d ow"
  by (auto simp: activeLocks_of_def gauge_value_def)

lemma increment_gauge:
  "activeLocks_of (incrementActiveLock x y s) d ow = (if (x, y) = (d, ow) then activeLocks_of s d ow + 1 else activeLocks_of s d ow)"
  "gauge_value (incrementActiveLock x y s) d ow = (if (x, y) = (d, ow) then activeLocks_of s d ow + 1 else gauge_value s d ow)"
  by (auto simp: incrementActiveLock_def Let_def)

lemma decrement_gauge:
  "0 \<le> activeLocks_of s x y \<Longrightarrow> activeLocks_of (decrementActiveLock x y s) d ow = (if (x, y) = (d, ow) then max 0 (activeLocks_of s d ow - 1) else activeLocks_of s d ow)"
  "0 \<le> activeLocks_of s x y \<Longrightarrow> gauge_value (decrementActiveLock x y s) d ow = (if (x, y) = (d, ow) then max 0 (activeLocks_of s d ow - 1) else gauge_value s d ow)"
  by (auto simp: decrementActiveLock_def Let_def)

lemma prom_consume:
  assumes "prom_ok s"
  shows "prom_ok (Prometheus_Consume e s) \<and> activeLocks_of (Prometheus_Consume e s) d ow = gauge_move d ow e (activeLocks_of s d ow)"
proof -
  have pos: "0 \<le> activeLocks_of s d ow" "gauge_value s d ow = activeLocks_of s d ow" for d ow using assms by (simp_all add: prom_ok_def)
  show ?thesis using pos
    by (cases "oe_Kind e") (auto simp: Prometheus_Consume_def Let_def prom_ok_def increment_gauge decrement_gauge gauge_move_def counts_up_def counts_down_def)
qed

text \<open>The gauge follows the events; it is the number of open locks when every lock is ended once, after its acquire.\<close>

lemma prom_run: "prom_ok s \<Longrightarrow> prom_ok (fold Prometheus_Consume es s) \<and>
    activeLocks_of (fold Prometheus_Consume es s) d ow = fold (gauge_move d ow) es (activeLocks_of s d ow)"
  by (induction es arbitrary: s) (simp_all add: prom_consume)

lemma prom_gauge: "gauge_value (fold Prometheus_Consume es (NewPrometheusSink ns sub)) d ow = fold (gauge_move d ow) es 0"
proof -
  have "prom_ok (NewPrometheusSink ns sub)" "activeLocks_of (NewPrometheusSink ns sub) d ow = 0"
    by (simp_all add: prom_ok_def NewPrometheusSink_def Let_def activeLocks_of_def gauge_value_def gauge_sets_def)
  then show ?thesis using prom_run[of "NewPrometheusSink ns sub" es d ow] by (auto simp: prom_ok_def)
qed

definition ups :: "string \<Rightarrow> string \<Rightarrow> ObsEvent list \<Rightarrow> nat" where
  "ups d ow es = length (filter (counts_up d ow) es)"

definition downs :: "string \<Rightarrow> string \<Rightarrow> ObsEvent list \<Rightarrow> nat" where
  "downs d ow es = length (filter (counts_down d ow) es)"

lemma gauge_balanced:
  "(\<And>n. downs d ow (take n es) \<le> ups d ow (take n es)) \<Longrightarrow> fold (gauge_move d ow) es 0 = int (ups d ow es) - int (downs d ow es)"
proof (induction es rule: rev_induct)
  case (snoc e es)
  have pre: "downs d ow (take n es) \<le> ups d ow (take n es)" for n
    using snoc.prems[of "min n (length es)"] by (cases "n \<le> length es") (simp_all add: min_def)
  have le: "downs d ow (es @ [e]) \<le> ups d ow (es @ [e])" using snoc.prems[of "length es + 1"] by simp
  have "\<not> (counts_up d ow e \<and> counts_down d ow e)" by (auto simp: counts_up_def counts_down_def)
  then show ?case using snoc.IH[OF pre] le by (auto simp: gauge_move_def ups_def downs_def max_def)
qed (simp add: ups_def downs_def)

text \<open>
  The gauge of active locks. After any events it shows what the sink's map holds, it is never negative, and if at each point an owner ended
  at most as many locks of a definition as it had acquired, it shows the difference: the locks it holds.
\<close>

theorem prometheus_gauge_exact:
  assumes "s = fold Prometheus_Consume es (NewPrometheusSink ns sub)" and "\<And>n. downs d ow (take n es) \<le> ups d ow (take n es)"
  shows "gauge_value s d ow = int (ups d ow es) - int (downs d ow es)"
  using gauge_balanced[OF assms(2)] by (simp add: assms(1) prom_gauge)

text \<open>
  A claim that loses its lease ends twice, with a loss and with a release (\<^verbatim>\<open>src/lockkit/workers/execute.go\<close>, lines 140 and 155). The gauge then counts
  one lock too few: here the owner holds a second lock and the gauge shows none.
\<close>

definition ex_claim_event :: "string \<Rightarrow> Event" where
  "ex_claim_event r = \<lparr>ev_DefinitionID = ''order'', ev_ResourceID = r, ev_OwnerID = ''w'', ev_RequestID = '''', ev_Wait = 0, ev_Held = 0\<rparr>"

theorem prometheus_gauge_lost_claim:
  "gauge_value (fold Prometheus_Consume (map worker_call_event
     [PublishWorkerAcquireSucceeded (ex_claim_event ''order:1''), PublishWorkerAcquireSucceeded (ex_claim_event ''order:2''),
      PublishWorkerLeaseLost (ex_claim_event ''order:1''), PublishWorkerReleased (ex_claim_event ''order:1'')]) (NewPrometheusSink [] [])) ''order'' ''w'' = 0"
  unfolding prom_gauge by (simp add: gauge_move_def counts_up_def counts_down_def full_event_def blank_event_def ex_claim_event_def)

section \<open>The sinks agree\<close>

definition prom_incs :: "string \<Rightarrow> string list \<Rightarrow> PrometheusSink \<Rightarrow> nat" where
  "prom_incs name labels s = length (filter (\<lambda>c. c = PromInc name labels) (pr_calls s))"

definition otel_adds :: "string \<Rightarrow> (string \<times> string) list \<Rightarrow> OTelSink \<Rightarrow> nat" where
  "otel_adds name attrs s = length (filter (\<lambda>c. c = OtelAdd name attrs) (ot_calls s))"

lemma prom_incs_log: "prom_incs name labels (prom_log c s) = prom_incs name labels s + (if c = PromInc name labels then 1 else 0)"
  by (simp add: prom_incs_def prom_log_def)

lemma prom_incs_map [simp]: "prom_incs name labels (s\<lparr>pr_activeLocksMap := m\<rparr>) = prom_incs name labels s"
  by (simp add: prom_incs_def)

lemma prom_incs_others [simp]:
  "prom_incs name labels (observe_if x y t s) = prom_incs name labels s"
  "prom_incs name labels (incrementActiveLock x y s) = prom_incs name labels s"
  "prom_incs name labels (decrementActiveLock x y s) = prom_incs name labels s"
  by (simp_all add: observe_if_def incrementActiveLock_def decrementActiveLock_def prom_incs_log Let_def)

definition outcome_attrs :: "string \<Rightarrow> string \<Rightarrow> (string \<times> string) list" where
  "outcome_attrs d oc = [(''lockman.definition_id'', d), (''lockman.outcome'', oc)]"

lemma sinks_step:
  assumes "ot_meter t"
  shows "prom_incs ''acquire_total'' [d, oc] (Prometheus_Consume e s) + otel_adds ''lockman.acquire.total'' (outcome_attrs d oc) t
      = prom_incs ''acquire_total'' [d, oc] s + otel_adds ''lockman.acquire.total'' (outcome_attrs d oc) (OTel_Consume e t)"
    and "prom_incs ''renewal_total'' [d, oc] (Prometheus_Consume e s) + otel_adds ''lockman.renewal.total'' (outcome_attrs d oc) t
      = prom_incs ''renewal_total'' [d, oc] s + otel_adds ''lockman.renewal.total'' (outcome_attrs d oc) (OTel_Consume e t)"
    and "prom_incs ''contention_total'' [d] (Prometheus_Consume e s) + otel_adds ''lockman.contention.count'' [(''lockman.definition_id'', d)] t
      = prom_incs ''contention_total'' [d] s + otel_adds ''lockman.contention.count'' [(''lockman.definition_id'', d)] (OTel_Consume e t)"
  using assms by (cases "oe_Kind e"; auto simp: Prometheus_Consume_def Let_def prom_incs_log OTel_Consume_def recordMetrics_def recordSpan_def metric_calls_def
      otel_adds_def outcome_attrs_def with_outcome_def commonAttributes_def)+

text \<open>The two sinks count acquires, renewals and contention alike, per definition and outcome.\<close>

theorem sinks_count_alike:
  assumes "s = fold Prometheus_Consume es (NewPrometheusSink ns sub)" and "t = fold OTel_Consume es (NewOTelSink tracer True)"
  shows "prom_incs ''acquire_total'' [d, oc] s = otel_adds ''lockman.acquire.total'' (outcome_attrs d oc) t
    \<and> prom_incs ''renewal_total'' [d, oc] s = otel_adds ''lockman.renewal.total'' (outcome_attrs d oc) t
    \<and> prom_incs ''contention_total'' [d] s = otel_adds ''lockman.contention.count'' [(''lockman.definition_id'', d)] t"
  unfolding assms
proof (induction es rule: rev_induct)
  case Nil
  then show ?case by (simp add: NewPrometheusSink_def NewOTelSink_def Let_def prom_incs_def otel_adds_def)
next
  case (snoc e es)
  have "ot_meter (fold OTel_Consume es t) = ot_meter t" for t
    by (induction es arbitrary: t) (simp_all add: OTel_Consume_def recordMetrics_def recordSpan_def)
  then have m: "ot_meter (fold OTel_Consume es (NewOTelSink tracer True))" by (simp add: NewOTelSink_def)
  note step = sinks_step[OF m, where e = e and s = "fold Prometheus_Consume es (NewPrometheusSink ns sub)"]
  from snoc.IH step(1)[of d oc] step(2)[of d oc] step(3)[of d] show ?case by simp
qed

end
